(* ===== verification/Py_Prelude.thy ===== *)
theory Py_Prelude
  imports Main "HOL-Library.Char_ord" "HOL-Library.List_Lexorder" "HOL-Library.AList"
begin

text \<open>
  The vocabulary every component shares: Python values that come from JSON documents and tool
  arguments, the string operations of the standard library the sources use, results with
  errors, and the generic interfaces (idempotent normalisers, first-match tables).

  Strings are lists of code points below 256 (Latin-1, the \<^typ>\<open>char\<close> of HOL). On that
  alphabet whitespace, lower-casing, digits, \<open>repr\<close> and \<open>int()\<close> are the ones of CPython.
\<close>

section \<open>Collections of hints\<close>

named_theorems py_simps \<open>unfolding of the small string and dictionary operations\<close>
named_theorems norm_simps \<open>normalisers applied to already normal values\<close>

section \<open>Results\<close>

type_synonym ('e, 'a) result = "'e + 'a"

fun rbind :: "'e + 'a \<Rightarrow> ('a \<Rightarrow> 'e + 'b) \<Rightarrow> 'e + 'b" where
  "rbind (Inl e) f = Inl e"
| "rbind (Inr a) f = f a"

fun is_ok :: "'e + 'a \<Rightarrow> bool" where
  "is_ok (Inr a) = True"
| "is_ok (Inl e) = False"

lemma rbind_Inr_iff [simp]: "rbind r f = Inr b \<longleftrightarrow> (\<exists>a. r = Inr a \<and> f a = Inr b)"
  by (cases r) auto

lemma rbind_Inl_iff: "rbind r f = Inl e \<longleftrightarrow> r = Inl e \<or> (\<exists>a. r = Inr a \<and> f a = Inl e)"
  by (cases r) auto

lemma is_ok_iff: "is_ok r \<longleftrightarrow> (\<exists>a. r = Inr a)"
  by (cases r) auto

definition map_err :: "('e \<Rightarrow> 'f) \<Rightarrow> 'e + 'a \<Rightarrow> 'f + 'a" where
  "map_err h r = (case r of Inl e \<Rightarrow> Inl (h e) | Inr a \<Rightarrow> Inr a)"

lemma map_err_simps [simp]: "map_err h (Inl e) = Inl (h e)" "map_err h (Inr a) = Inr a"
  by (simp_all add: map_err_def)

lemma map_err_Inr_iff [simp]: "map_err h r = Inr a \<longleftrightarrow> r = Inr a"
  by (cases r) auto

text \<open>The guard of an early \<open>raise\<close>.\<close>

definition ensure :: "bool \<Rightarrow> 'e \<Rightarrow> 'e + unit" where
  "ensure b e = (if b then Inr () else Inl e)"

lemma ensure_Inr_iff [simp]: "ensure b e = Inr u \<longleftrightarrow> b"
  by (simp add: ensure_def)

lemma ensure_Inl_iff [simp]: "ensure b e = Inl e' \<longleftrightarrow> \<not> b \<and> e' = e"
  by (auto simp: ensure_def)

section \<open>Characters and strings\<close>

definition code :: "char \<Rightarrow> nat" where
  "code c = of_char c"

definition py_isspace :: "char \<Rightarrow> bool" where
  "py_isspace c =
     (let n = code c in (9 \<le> n \<and> n \<le> 13) \<or> (28 \<le> n \<and> n \<le> 32) \<or> n = 133 \<or> n = 160)"

definition is_digit :: "char \<Rightarrow> bool" where
  "is_digit c = (48 \<le> code c \<and> code c \<le> 57)"

text \<open>\<open>str.isdigit\<close> also accepts the Latin-1 superscripts, which \<open>int()\<close> rejects.\<close>

definition py_isdigit_char :: "char \<Rightarrow> bool" where
  "py_isdigit_char c = (is_digit c \<or> code c \<in> {178, 179, 185})"

definition py_isdigit :: "string \<Rightarrow> bool" where
  "py_isdigit s = (s \<noteq> [] \<and> list_all py_isdigit_char s)"

text \<open>Word characters of a text pattern: alphanumeric characters, here of Latin-1, and the underscore.\<close>

definition word_char :: "char \<Rightarrow> bool" where
  "word_char c =
     (let n = code c in
      (48 \<le> n \<and> n \<le> 57) \<or> (65 \<le> n \<and> n \<le> 90) \<or> (97 \<le> n \<and> n \<le> 122) \<or> n = 95 \<or>
      n \<in> {170, 178, 179, 181, 185, 186, 188, 189, 190} \<or> (192 \<le> n \<and> n \<noteq> 215 \<and> n \<noteq> 247))"

definition lower_char :: "char \<Rightarrow> char" where
  "lower_char c =
     (let n = code c in
      if (65 \<le> n \<and> n \<le> 90) \<or> (192 \<le> n \<and> n \<le> 222 \<and> n \<noteq> 215) then char_of (n + 32) else c)"

definition py_lower :: "string \<Rightarrow> string" where
  "py_lower s = map lower_char s"

definition py_lstrip :: "string \<Rightarrow> string" where
  "py_lstrip s = dropWhile py_isspace s"

definition py_rstrip :: "string \<Rightarrow> string" where
  "py_rstrip s = rev (dropWhile py_isspace (rev s))"

definition py_strip :: "string \<Rightarrow> string" where
  "py_strip s = py_rstrip (py_lstrip s)"

definition starts_with :: "string \<Rightarrow> string \<Rightarrow> bool" where
  "starts_with p s = (take (length p) s = p)"

definition ends_with :: "string \<Rightarrow> string \<Rightarrow> bool" where
  "ends_with p s = starts_with (rev p) (rev s)"

fun contains :: "string \<Rightarrow> string \<Rightarrow> bool" where
  "contains sub [] = (sub = [])"
| "contains sub (c # cs) = (starts_with sub (c # cs) \<or> contains sub cs)"

fun split_on :: "char \<Rightarrow> string \<Rightarrow> string list" where
  "split_on d [] = [[]]"
| "split_on d (c # cs) =
     (if c = d then [] # split_on d cs
      else (case split_on d cs of [] \<Rightarrow> [[c]] | w # ws \<Rightarrow> (c # w) # ws))"

text \<open>\<open>s.split(d, 1)\<close> when \<open>d\<close> occurs in \<open>s\<close>.\<close>

fun split_once :: "char \<Rightarrow> string \<Rightarrow> (string \<times> string) option" where
  "split_once d [] = None"
| "split_once d (c # cs) =
     (if c = d then Some ([], cs) else map_option (\<lambda>(a, b). (c # a, b)) (split_once d cs))"

text \<open>\<open>s.split()\<close>: the words between runs of whitespace.\<close>

fun words_acc :: "string \<Rightarrow> string \<Rightarrow> string list" where
  "words_acc w [] = (if w = [] then [] else [rev w])"
| "words_acc w (c # cs) =
     (if py_isspace c then (if w = [] then words_acc [] cs else rev w # words_acc [] cs)
      else words_acc (c # w) cs)"

definition py_words :: "string \<Rightarrow> string list" where
  "py_words s = words_acc [] s"

fun join :: "string \<Rightarrow> string list \<Rightarrow> string" where
  "join sep [] = []"
| "join sep [w] = w"
| "join sep (w # ws) = w @ sep @ join sep ws"

text \<open>\<open>s.replace(old, new)\<close> for a non-empty \<open>old\<close>.\<close>

fun py_replace :: "string \<Rightarrow> string \<Rightarrow> string \<Rightarrow> string" where
  "py_replace old new [] = []"
| "py_replace old new (c # cs) =
     (if old \<noteq> [] \<and> starts_with old (c # cs)
      then new @ py_replace old new (drop (length old - 1) cs)
      else c # py_replace old new cs)"

text \<open>A text between single quotes.\<close>

definition quoted :: "string \<Rightarrow> string" where
  "quoted s = CHR 0x27 # s @ [CHR 0x27]"

fun py_rfind :: "string \<Rightarrow> string \<Rightarrow> nat option" where
  "py_rfind sub [] = (if sub = [] then Some 0 else None)"
| "py_rfind sub (c # cs) =
     (case py_rfind sub cs of
        Some n \<Rightarrow> Some (Suc n)
      | None \<Rightarrow> if starts_with sub (c # cs) then Some 0 else None)"

section \<open>Integers in decimal\<close>

definition digit_char :: "nat \<Rightarrow> char" where
  "digit_char n = char_of (48 + n)"

fun nat_str :: "nat \<Rightarrow> string" where
  "nat_str n = (if n < 10 then [digit_char n] else nat_str (n div 10) @ [digit_char (n mod 10)])"

declare nat_str.simps [simp del]

definition int_str :: "int \<Rightarrow> string" where
  "int_str i = (if i < 0 then ''-'' @ nat_str (nat (- i)) else nat_str (nat i))"

text \<open>
  \<open>int(s)\<close>: surrounding whitespace, an optional sign, decimal digits with single
  underscores between them; \<open>None\<close> is its \<open>ValueError\<close>.
\<close>

fun digits_val :: "int \<Rightarrow> bool \<Rightarrow> string \<Rightarrow> int option" where
  "digits_val acc after_digit [] = (if after_digit then Some acc else None)"
| "digits_val acc after_digit (c # cs) =
     (if is_digit c then digits_val (acc * 10 + int (code c - 48)) True cs
      else if c = CHR ''_'' \<and> after_digit then digits_val acc False cs
      else None)"

definition py_int :: "string \<Rightarrow> int option" where
  "py_int s =
     (case py_strip s of
        [] \<Rightarrow> None
      | c # cs \<Rightarrow>
          if c = CHR ''-'' then map_option uminus (digits_val 0 False cs)
          else if c = CHR ''+'' then digits_val 0 False cs
          else digits_val 0 False (c # cs))"

section \<open>Dynamic values\<close>

text \<open>
  What \<open>json.loads\<close> and keyword dictionaries produce. A float is carried as the text of its
  \<open>repr\<close>: the modelled code tests and prints floats but computes with none of these. A
  dictionary is an association list in insertion order.
\<close>

datatype pyval =
    PyNone
  | PyBool bool
  | PyInt int
  | PyFloat string
  | PyStr string
  | PyList "pyval list"
  | PyDict "(string \<times> pyval) list"

type_synonym pydict = "(string \<times> pyval) list"

definition dget :: "pydict \<Rightarrow> string \<Rightarrow> pyval" where
  "dget d k = (case map_of d k of None \<Rightarrow> PyNone | Some v \<Rightarrow> v)"

definition dget_or :: "pydict \<Rightarrow> string \<Rightarrow> pyval \<Rightarrow> pyval" where
  "dget_or d k dflt = (case map_of d k of None \<Rightarrow> dflt | Some v \<Rightarrow> v)"

definition dset :: "string \<Rightarrow> pyval \<Rightarrow> pydict \<Rightarrow> pydict" where
  "dset k v d = AList.update k v d"

definition dmerge :: "pydict \<Rightarrow> pydict \<Rightarrow> pydict" where
  "dmerge a b = fold (\<lambda>(k, v) d. dset k v d) b a"

fun truthy :: "pyval \<Rightarrow> bool" where
  "truthy PyNone = False"
| "truthy (PyBool b) = b"
| "truthy (PyInt i) = (i \<noteq> 0)"
| "truthy (PyFloat s) = (s \<noteq> ''0.0'' \<and> s \<noteq> ''-0.0'')"
| "truthy (PyStr s) = (s \<noteq> [])"
| "truthy (PyList xs) = (xs \<noteq> [])"
| "truthy (PyDict d) = (d \<noteq> [])"

text \<open>\<open>a or b\<close>.\<close>

definition py_or :: "pyval \<Rightarrow> pyval \<Rightarrow> pyval" where
  "py_or a b = (if truthy a then a else b)"

definition hex_digit :: "nat \<Rightarrow> char" where
  "hex_digit n = (if n < 10 then char_of (48 + n) else char_of (87 + n))"

definition repr_char :: "char \<Rightarrow> char \<Rightarrow> string" where
  "repr_char q c =
     (let n = code c in
      if c = q \<or> n = 92 then [char_of (92::nat), c]
      else if n = 10 then [char_of (92::nat), CHR ''n'']
      else if n = 13 then [char_of (92::nat), CHR ''r'']
      else if n = 9 then [char_of (92::nat), CHR ''t'']
      else if n < 32 \<or> (127 \<le> n \<and> n \<le> 160) \<or> n = 173
      then [char_of (92::nat), CHR ''x'', hex_digit (n div 16), hex_digit (n mod 16)]
      else [c])"

definition str_repr :: "string \<Rightarrow> string" where
  "str_repr s =
     (let sq = char_of (39::nat); dq = char_of (34::nat);
          q = (if sq \<in> set s \<and> dq \<notin> set s then dq else sq)
      in q # concat (map (repr_char q) s) @ [q])"

fun py_repr :: "pyval \<Rightarrow> string" where
  "py_repr PyNone = ''None''"
| "py_repr (PyBool b) = (if b then ''True'' else ''False'')"
| "py_repr (PyInt i) = int_str i"
| "py_repr (PyFloat s) = s"
| "py_repr (PyStr s) = str_repr s"
| "py_repr (PyList xs) = ''['' @ join '', '' (map py_repr xs) @ '']''"
| "py_repr (PyDict d) =
     ''{'' @ join '', '' (map (\<lambda>kv. str_repr (fst kv) @ '': '' @ py_repr (snd kv)) d) @ ''}''"

fun py_str :: "pyval \<Rightarrow> string" where
  "py_str (PyStr s) = s"
| "py_str v = py_repr v"

fun is_str :: "pyval \<Rightarrow> bool" where
  "is_str (PyStr s) = True"
| "is_str _ = False"

text \<open>\<open>isinstance(v, int) and not isinstance(v, bool)\<close> together with the value.\<close>

fun as_int :: "pyval \<Rightarrow> int option" where
  "as_int (PyInt i) = Some i"
| "as_int _ = None"

fun as_str :: "pyval \<Rightarrow> string option" where
  "as_str (PyStr s) = Some s"
| "as_str _ = None"

section \<open>Laws of the string operations\<close>

lemma code_char_of [simp]: "n < 256 \<Longrightarrow> code (char_of n) = n"
  by (simp add: code_def)

lemma code_less [simp]: "code c < 256"
  by (simp add: code_def)

lemma code_inj: "code c = code d \<longleftrightarrow> c = d"
  by (simp add: code_def)

lemma code_lower_char:
  "code (lower_char c) =
     (if (65 \<le> code c \<and> code c \<le> 90) \<or> (192 \<le> code c \<and> code c \<le> 222 \<and> code c \<noteq> 215)
      then code c + 32 else code c)"
  by (auto simp: lower_char_def Let_def)

lemma lower_char_idem [simp]: "lower_char (lower_char c) = lower_char c"
  by (simp add: code_inj [symmetric] code_lower_char)

lemma isspace_lower_char [simp]: "py_isspace (lower_char c) = py_isspace c"
  by (auto simp: py_isspace_def Let_def code_lower_char)

lemma py_lower_idem [simp, norm_simps]: "py_lower (py_lower s) = py_lower s"
  by (simp add: py_lower_def comp_def)

lemma py_lower_Nil_iff [simp]: "py_lower s = [] \<longleftrightarrow> s = []" "[] = py_lower s \<longleftrightarrow> s = []"
  by (auto simp: py_lower_def)

lemma length_py_lower [simp]: "length (py_lower s) = length s"
  by (simp add: py_lower_def)

lemma py_lstrip_idem [simp]: "py_lstrip (py_lstrip s) = py_lstrip s"
  by (induction s) (auto simp: py_lstrip_def)

lemma py_rstrip_idem [simp]: "py_rstrip (py_rstrip s) = py_rstrip s"
  using py_lstrip_idem [of "rev s"] by (simp add: py_lstrip_def py_rstrip_def)

lemma py_lstrip_map_lower: "py_lstrip (py_lower s) = py_lower (py_lstrip s)"
  by (simp add: py_lstrip_def py_lower_def dropWhile_map comp_def)

lemma py_rstrip_map_lower: "py_rstrip (py_lower s) = py_lower (py_rstrip s)"
  by (simp add: py_rstrip_def py_lower_def rev_map dropWhile_map comp_def)

lemma py_strip_lower [norm_simps]: "py_strip (py_lower s) = py_lower (py_strip s)"
  by (simp add: py_strip_def py_lstrip_map_lower py_rstrip_map_lower)

lemma rstrip_hd: "py_rstrip s \<noteq> [] \<Longrightarrow> hd (py_rstrip s) = hd s"
proof -
  assume ne: "py_rstrip s \<noteq> []"
  have "rev s = takeWhile py_isspace (rev s) @ dropWhile py_isspace (rev s)" by simp
  then have "s = py_rstrip s @ rev (takeWhile py_isspace (rev s))"
    by (metis py_rstrip_def rev_append rev_rev_ident)
  with ne show ?thesis by (metis hd_append2)
qed

lemma lstrip_id_iff: "py_lstrip s = s \<longleftrightarrow> s = [] \<or> \<not> py_isspace (hd s)"
proof (cases s)
  case (Cons c cs)
  have "length (dropWhile py_isspace cs) < length (c # cs)"
    using length_dropWhile_le [of py_isspace cs] by simp
  then have "dropWhile py_isspace cs \<noteq> c # cs" by (metis less_irrefl)
  then show ?thesis using Cons by (auto simp: py_lstrip_def)
qed (simp add: py_lstrip_def)

lemma py_strip_idem [simp, norm_simps]: "py_strip (py_strip s) = py_strip s"
proof -
  have "py_lstrip (py_rstrip (py_lstrip s)) = py_rstrip (py_lstrip s)"
  proof (cases "py_rstrip (py_lstrip s) = []")
    case False
    then have "hd (py_rstrip (py_lstrip s)) = hd (py_lstrip s)" by (rule rstrip_hd)
    moreover have "py_lstrip s \<noteq> []" using False by (auto simp: py_rstrip_def)
    then have "\<not> py_isspace (hd (py_lstrip s))"
      using hd_dropWhile [of py_isspace s] by (simp add: py_lstrip_def dropWhile_eq_Nil_conv)
    ultimately show ?thesis by (simp add: lstrip_id_iff)
  qed (simp add: py_lstrip_def)
  then show ?thesis by (simp add: py_strip_def)
qed

lemma py_strip_Nil [simp]: "py_strip [] = []"
  by (simp add: py_strip_def py_lstrip_def py_rstrip_def)

lemma set_py_strip: "set (py_strip s) \<subseteq> set s"
proof
  fix x assume "x \<in> set (py_strip s)"
  then have "x \<in> set (dropWhile py_isspace (rev (py_lstrip s)))"
    by (simp add: py_strip_def py_rstrip_def)
  then have "x \<in> set (py_lstrip s)" by (metis set_dropWhileD set_rev)
  then show "x \<in> set s" unfolding py_lstrip_def by (rule set_dropWhileD)
qed

lemma length_py_strip_le: "length (py_strip s) \<le> length s"
  by (metis (no_types, lifting) length_dropWhile_le length_rev order_trans
      py_lstrip_def py_rstrip_def py_strip_def)

text \<open>A string with no whitespace at either end is its own strip.\<close>

lemma py_strip_id:
  assumes "s \<noteq> [] \<Longrightarrow> \<not> py_isspace (hd s)" and "s \<noteq> [] \<Longrightarrow> \<not> py_isspace (last s)"
  shows "py_strip s = s"
proof -
  have "py_lstrip s = s" using assms(1) by (auto simp: lstrip_id_iff)
  moreover have "py_lstrip (rev s) = rev s"
    using assms(2) by (auto simp: lstrip_id_iff hd_rev)
  ultimately show ?thesis by (simp add: py_strip_def py_rstrip_def py_lstrip_def)
qed

lemma starts_with_append [simp]: "starts_with p (p @ s)"
  by (simp add: starts_with_def)

lemma starts_with_iff: "starts_with p s \<longleftrightarrow> (\<exists>t. s = p @ t)"
  by (metis append_take_drop_id starts_with_append starts_with_def)

lemma contains_iff: "contains sub s \<longleftrightarrow> (\<exists>a b. s = a @ sub @ b)"
proof (induction s)
  case Nil
  then show ?case by auto
next
  case (Cons c cs)
  have "(\<exists>a b. c # cs = a @ sub @ b) \<longleftrightarrow> starts_with sub (c # cs) \<or> (\<exists>a b. cs = a @ sub @ b)"
    by (metis (no_types, lifting) Cons_eq_append_conv append_Cons append_Nil starts_with_iff)
  then show ?case using Cons.IH by simp
qed

lemma containsI: "contains sub (a @ sub @ b)"
  by (auto simp: contains_iff)

lemma contains_trans: "contains u t \<Longrightarrow> contains t s \<Longrightarrow> contains u s"
  unfolding contains_iff by (metis append.assoc)

lemma contains_append: "contains sub a \<Longrightarrow> contains sub (b @ a @ c)"
  unfolding contains_iff by (metis append.assoc)

lemma split_on_not_Nil [simp]: "split_on d s \<noteq> []"
  by (induction s) (auto split: list.splits)

lemma split_on_Cons_other:
  "c \<noteq> d \<Longrightarrow> split_on d (c # cs) = (c # hd (split_on d cs)) # tl (split_on d cs)"
  by (cases "split_on d cs") auto

lemma join_split_on: "join [d] (split_on d s) = s"
proof (induction s)
  case (Cons c cs)
  show ?case
  proof (cases "c = d")
    case True
    then show ?thesis using Cons by (cases "split_on d cs") auto
  next
    case False
    then show ?thesis using Cons
      by (cases "split_on d cs"; cases "tl (split_on d cs)") auto
  qed
qed simp

lemma split_on_no_delim: "d \<notin> set s \<Longrightarrow> split_on d s = [s]"
  by (induction s) auto

lemma split_on_append: "d \<notin> set a \<Longrightarrow> split_on d (a @ d # b) = a # split_on d b"
  by (induction a) auto

lemma split_on_pieces: "w \<in> set (split_on d s) \<Longrightarrow> d \<notin> set w"
proof (induction s arbitrary: w)
  case (Cons c cs)
  show ?case
  proof (cases "c = d")
    case True
    then show ?thesis using Cons by auto
  next
    case False
    then show ?thesis using Cons by (cases "split_on d cs") auto
  qed
qed simp

lemma split_once_Some: "split_once d s = Some (a, b) \<Longrightarrow> s = a @ d # b \<and> d \<notin> set a"
  by (induction s arbitrary: a b) (auto split: if_splits)

lemma split_once_None_iff: "split_once d s = None \<longleftrightarrow> d \<notin> set s"
  by (induction s) auto

lemma split_once_append: "d \<notin> set a \<Longrightarrow> split_once d (a @ d # b) = Some (a, b)"
  by (induction a) auto

lemma split_on_join: "ws \<noteq> [] \<Longrightarrow> \<forall>w \<in> set ws. d \<notin> set w \<Longrightarrow> split_on d (join [d] ws) = ws"
  by (induction "[d]" ws rule: join.induct) (auto simp: split_on_no_delim split_on_append)

lemma py_lower_append [simp]: "py_lower (a @ b) = py_lower a @ py_lower b"
  by (simp add: py_lower_def)

lemma py_lower_Cons [simp]: "py_lower (c # s) = lower_char c # py_lower s"
  by (simp add: py_lower_def)

lemma py_lower_Nil [simp]: "py_lower [] = []"
  by (simp add: py_lower_def)

lemma py_rstrip_keeps: "\<not> py_isspace c \<Longrightarrow> py_rstrip (u @ c # r) = u @ c # py_rstrip r"
  by (auto simp: py_rstrip_def dropWhile_append dropWhile_eq_Nil_conv)

lemma py_rfind_None_iff: "py_rfind sub s = None \<longleftrightarrow> \<not> contains sub s"
  by (induction s) (auto split: option.splits)

lemma py_rfind_append: "py_rfind sub s = Some n \<Longrightarrow> py_rfind sub (a @ s) = Some (length a + n)"
  by (induction a) auto

lemma py_rfind_last:
  assumes "sub \<noteq> []" and "\<not> contains sub (tl sub @ b)"
  shows "py_rfind sub (a @ sub @ b) = Some (length a)"
proof -
  obtain c cs where sub: "sub = c # cs" using assms(1) by (cases sub) auto
  have "py_rfind sub (cs @ b) = None" using assms(2) sub by (simp add: py_rfind_None_iff)
  then have "py_rfind sub (sub @ b) = Some 0"
    using starts_with_append [of sub b] sub by simp
  then show ?thesis using py_rfind_append by fastforce
qed

section \<open>The decimal round trip\<close>

lemma nat_str_not_Nil [simp]: "nat_str n \<noteq> []"
  by (subst nat_str.simps) simp

lemma digit_char_code [simp]: "n < 10 \<Longrightarrow> code (digit_char n) = 48 + n"
  by (simp add: digit_char_def)

lemma nat_str_digits: "c \<in> set (nat_str n) \<Longrightarrow> is_digit c"
proof (induction n rule: nat_str.induct)
  case (1 n)
  show ?case
  proof (cases "n < 10")
    case True
    with "1.prems" show ?thesis by (simp add: nat_str.simps [of n] is_digit_def)
  next
    case False
    then have "c \<in> set (nat_str (n div 10)) \<or> c = digit_char (n mod 10)"
      using "1.prems" by (auto simp: nat_str.simps [of n])
    with "1.IH" False show ?thesis by (auto simp: is_digit_def)
  qed
qed

lemma digits_val_append:
  "digits_val acc b s = Some v \<Longrightarrow> is_digit c \<Longrightarrow>
   digits_val acc b (s @ [c]) = Some (v * 10 + int (code c - 48))"
  by (induction acc b s rule: digits_val.induct) (auto split: if_splits)

lemma digits_val_nat_str: "digits_val 0 False (nat_str n) = Some (int n)"
proof (induction n rule: nat_str.induct)
  case (1 n)
  show ?case
  proof (cases "n < 10")
    case True
    then show ?thesis by (simp add: nat_str.simps [of n] is_digit_def)
  next
    case False
    with "1.IH" have "digits_val 0 False (nat_str (n div 10)) = Some (int (n div 10))" by simp
    moreover have "is_digit (digit_char (n mod 10))" by (simp add: is_digit_def)
    ultimately have "digits_val 0 False (nat_str (n div 10) @ [digit_char (n mod 10)])
        = Some (int (n div 10) * 10 + int (code (digit_char (n mod 10)) - 48))"
      by (rule digits_val_append)
    moreover have "int (n div 10) * 10 + int (n mod 10) = int n"
      by (metis div_mult_mod_eq of_nat_add of_nat_mult of_nat_numeral)
    ultimately show ?thesis using False by (simp add: nat_str.simps [of n])
  qed
qed

lemma digit_not_space: "is_digit c \<Longrightarrow> \<not> py_isspace c"
  by (auto simp: is_digit_def py_isspace_def Let_def)

lemma code_minus [simp]: "code (CHR ''-'') = 45" and code_plus [simp]: "code (CHR ''+'') = 43"
  by (simp_all add: code_def)

lemma py_strip_nat_str [simp]: "py_strip (nat_str n) = nat_str n"
  by (rule py_strip_id) (auto intro!: digit_not_space nat_str_digits [of _ n])

lemma nat_str_hd_digit: "is_digit (hd (nat_str n))"
  by (rule nat_str_digits [of _ n]) simp

lemma nat_str_last_digit: "is_digit (last (nat_str n))"
  by (rule nat_str_digits [of _ n]) simp

lemma py_int_nat_str: "py_int (nat_str n) = Some (int n)"
proof -
  obtain c cs where s: "nat_str n = c # cs" by (cases "nat_str n") auto
  then have "is_digit c" using nat_str_hd_digit [of n] by simp
  then have "c \<noteq> CHR ''-''" and "c \<noteq> CHR ''+''" by (auto simp: is_digit_def)
  then show ?thesis
    using digits_val_nat_str [of n] py_strip_nat_str [of n] s by (simp add: py_int_def)
qed

lemma py_int_int_str: "py_int (int_str i) = Some i"
proof (cases "i < 0")
  case True
  have "py_strip (''-'' @ nat_str (nat (- i))) = ''-'' @ nat_str (nat (- i))"
    using nat_str_last_digit [of "nat (- i)"] digit_not_space
    by (intro py_strip_id) (auto simp: py_isspace_def Let_def is_digit_def)
  with True show ?thesis
    using digits_val_nat_str [of "nat (- i)"] by (simp add: py_int_def int_str_def)
qed (simp add: int_str_def py_int_nat_str)

lemma py_isdigit_nat_str [simp]: "py_isdigit (nat_str n)"
  by (auto simp: py_isdigit_def py_isdigit_char_def list_all_iff intro: nat_str_digits)

lemma int_str_nonneg: "0 \<le> i \<Longrightarrow> int_str i = nat_str (nat i)"
  by (simp add: int_str_def)

section \<open>Laws of dictionaries\<close>

lemma map_of_dset [simp]: "map_of (dset k v d) = (map_of d)(k \<mapsto> v)"
  by (simp add: dset_def update_conv')

lemma dget_Nil [simp]: "dget [] k = PyNone"
  by (simp add: dget_def)

lemma dget_Cons [simp]: "dget ((k, v) # d) k' = (if k' = k then v else dget d k')"
  by (simp add: dget_def)

lemma dget_dset [simp]: "dget (dset k v d) k' = (if k' = k then v else dget d k')"
  by (simp add: dget_def)

lemma dget_or_dset [simp]: "dget_or (dset k v d) k' x = (if k' = k then v else dget_or d k' x)"
  by (simp add: dget_or_def)

lemma dget_or_PyNone: "dget_or d k PyNone = dget d k"
  by (simp add: dget_or_def dget_def)

lemma as_int_Some_iff [simp]: "as_int v = Some i \<longleftrightarrow> v = PyInt i"
  by (cases v) auto

lemma as_str_Some_iff [simp]: "as_str v = Some s \<longleftrightarrow> v = PyStr s"
  by (cases v) auto

lemma is_str_iff: "is_str v \<longleftrightarrow> (\<exists>s. v = PyStr s)"
  by (cases v) auto

section \<open>Interface: an idempotent normaliser\<close>

text \<open>
  Identifiers, keys and aliases are compared only after normalisation. What every caller relies
  on is that normalising twice is normalising once.
\<close>

locale normaliser =
  fixes norm :: "'a \<Rightarrow> 'a"
  assumes norm_norm: "norm (norm x) = norm x"
begin

lemma norm_image_iff: "(\<exists>x. y = norm x) \<longleftrightarrow> norm y = y"
  using norm_norm by metis

lemma lookup_any_spelling: "(m(norm k \<mapsto> v)) (norm (norm k)) = Some v"
  by (simp add: norm_norm)

lemma same_key_trans: "norm x = norm y \<Longrightarrow> norm y = norm z \<Longrightarrow> norm x = norm z"
  by simp

end

section \<open>Interface: a first-match table\<close>

text \<open>
  Classification by an ordered list of rows: the first row that matches decides, and a default
  stands for no match.
\<close>

definition first_match :: "('r \<Rightarrow> 's \<Rightarrow> bool) \<Rightarrow> ('r \<Rightarrow> 'k) \<Rightarrow> 'k \<Rightarrow> 'r list \<Rightarrow> 's \<Rightarrow> 'k" where
  "first_match hit kind dflt rows s =
     (case find (\<lambda>r. hit r s) rows of None \<Rightarrow> dflt | Some r \<Rightarrow> kind r)"

locale row_table =
  fixes hit :: "'r \<Rightarrow> 's \<Rightarrow> bool" and kind :: "'r \<Rightarrow> 'k" and dflt :: 'k
    and classify :: "'r list \<Rightarrow> 's \<Rightarrow> 'k"
  assumes classify_Nil: "classify [] s = dflt"
    and classify_Cons: "classify (r # rows) s = (if hit r s then kind r else classify rows s)"
begin

lemma classify_append:
  "classify (xs @ ys) s = (if \<exists>r \<in> set xs. hit r s then classify xs s else classify ys s)"
  by (induction xs) (auto simp: classify_Nil classify_Cons)

lemma classify_dflt: "\<forall>r \<in> set rows. \<not> hit r s \<Longrightarrow> classify rows s = dflt"
  by (induction rows) (auto simp: classify_Nil classify_Cons)

lemma classify_cases: "classify rows s = dflt \<or> (\<exists>r \<in> set rows. hit r s \<and> classify rows s = kind r)"
  by (induction rows) (auto simp: classify_Nil classify_Cons)

lemma earlier_rows_win:
  "\<exists>r \<in> set xs. hit r s \<Longrightarrow> classify (xs @ ys) s = classify (xs @ zs) s"
  by (simp add: classify_append)

end

lemma first_match_Nil [simp]: "first_match hit kind dflt [] s = dflt"
  by (simp add: first_match_def)

lemma first_match_Cons [simp]:
  "first_match hit kind dflt (r # rows) s =
     (if hit r s then kind r else first_match hit kind dflt rows s)"
  by (simp add: first_match_def)

section \<open>Interface: string enumerations\<close>

text \<open>\<open>StrEnum(value)\<close> looks a member up by its value, \<open>None\<close> is its \<open>ValueError\<close>.\<close>

definition enum_of :: "('e \<Rightarrow> string) \<Rightarrow> 'e list \<Rightarrow> string \<Rightarrow> 'e option" where
  "enum_of val all s = find (\<lambda>e. val e = s) all"

locale str_enum =
  fixes val :: "'e \<Rightarrow> string" and of_val :: "string \<Rightarrow> 'e option"
  assumes of_val_val: "of_val (val e) = Some e"
    and of_val_Some: "of_val s = Some e \<Longrightarrow> val e = s"
begin

lemma val_inj: "val a = val b \<longleftrightarrow> a = b"
  by (metis of_val_val option.inject)

lemma of_val_iff: "of_val s = Some e \<longleftrightarrow> val e = s"
  using of_val_val of_val_Some by auto

lemma of_val_None_iff: "of_val s = None \<longleftrightarrow> (\<forall>e. val e \<noteq> s)"
  by (metis not_None_eq of_val_iff)

end

lemma enum_of_Some: "enum_of val all s = Some e \<Longrightarrow> val e = s"
  by (induction all) (auto simp: enum_of_def split: if_splits)

section \<open>Interface: leases\<close>

text \<open>
  A lease table: who holds a key, taking a free key, giving a key back. \<open>take_lease\<close> is a
  reservation; \<open>give_back\<close> stands for each operation that ends one. The laws speak of states
  satisfying \<open>ok\<close> and of tokens that can be held.
\<close>

datatype ('a, 'b, 'k, 't) lease_event = Take 'a 'k 't | Give 'b 'k 't

locale lease =
  fixes ok :: "'s \<Rightarrow> bool"
    and holdable :: "'t \<Rightarrow> bool"
    and holder :: "'s \<Rightarrow> 'k \<Rightarrow> 't option"
    and take_lease :: "'a \<Rightarrow> 's \<Rightarrow> 'k \<Rightarrow> 't \<Rightarrow> 's option"
    and give_back :: "'b \<Rightarrow> 's \<Rightarrow> 'k \<Rightarrow> 't \<Rightarrow> 's"
  assumes take_free: "ok s \<Longrightarrow> holdable t \<Longrightarrow> take_lease a s k t = Some s' \<Longrightarrow>
      ok s' \<and> holder s k = None \<and> holder s' k = Some t \<and> (\<forall>k'. k' \<noteq> k \<longrightarrow> holder s' k' = holder s k')"
    and give_other: "ok s \<Longrightarrow> holdable t \<Longrightarrow> holder s k \<noteq> Some t \<Longrightarrow> give_back b s k t = s"
    and give_own: "ok s \<Longrightarrow> holdable t \<Longrightarrow> holder s k = Some t \<Longrightarrow>
      ok (give_back b s k t) \<and> holder (give_back b s k t) k = None \<and>
      (\<forall>k'. k' \<noteq> k \<longrightarrow> holder (give_back b s k t) k' = holder s k')"
begin

fun lease_step :: "'s \<Rightarrow> ('a, 'b, 'k, 't) lease_event \<Rightarrow> 's" where
  "lease_step s (Take a k t) = (case take_lease a s k t of None \<Rightarrow> s | Some s' \<Rightarrow> s')"
| "lease_step s (Give b k t) = give_back b s k t"

fun token_of :: "('a, 'b, 'k, 't) lease_event \<Rightarrow> 't" where
  "token_of (Take a k t) = t"
| "token_of (Give b k t) = t"

lemma give_holder:
  assumes "ok s" and "holdable t"
  shows "ok (give_back b s k t) \<and> holder (give_back b s k t) k' =
     (if k' = k \<and> holder s k = Some t then None else holder s k')"
proof (cases "holder s k = Some t")
  case True
  with give_own [OF assms True, of b] show ?thesis by (cases "k' = k") simp_all
next
  case False
  with give_other [OF assms False, of b] assms(1) show ?thesis by simp
qed

lemma step_ok: "ok s \<Longrightarrow> holdable (token_of e) \<Longrightarrow> ok (lease_step s e)"
proof (cases e)
  case (Take a k t)
  assume "ok s" "holdable (token_of e)"
  then show ?thesis using Take take_free [of s t a k] by (cases "take_lease a s k t") simp_all
qed (simp add: give_holder)

lemma steps_ok: "ok s \<Longrightarrow> \<forall>e \<in> set es. holdable (token_of e) \<Longrightarrow> ok (foldl lease_step s es)"
  by (induction es arbitrary: s) (auto simp: step_ok)

lemma take_step_holder:
  assumes "ok s" and "holdable t" and "holder s k = Some u"
  shows "holder (lease_step s (Take a k' t)) k = Some u"
proof (cases "take_lease a s k' t")
  case (Some s')
  from take_free [OF assms(1,2) this] Some assms(3) show ?thesis by (cases "k' = k") simp_all
qed (simp add: assms)

text \<open>A held key stays held by the same token until that token gives it back.\<close>

lemma held_until_given:
  "ok s \<Longrightarrow> \<forall>e \<in> set es. holdable (token_of e) \<Longrightarrow> holder s k = Some t \<Longrightarrow>
   \<forall>b. Give b k t \<notin> set es \<Longrightarrow> holder (foldl lease_step s es) k = Some t"
proof (induction es arbitrary: s)
  case (Cons e es)
  have "holder (lease_step s e) k = Some t"
    using Cons.prems by (cases e) (auto simp: give_holder take_step_holder simp del: lease_step.simps(1))
  then show ?case using Cons step_ok by auto
qed simp

text \<open>Mutual exclusion: between two takings of one key its first holder gave it back.\<close>

lemma exclusive:
  assumes "ok s" and "holdable t" and "take_lease a s k t = Some s'"
    and "\<forall>e \<in> set es. holdable (token_of e)" and "\<forall>b. Give b k t \<notin> set es" and "holdable u"
  shows "take_lease a' (foldl lease_step s' es) k u = None"
proof (cases "take_lease a' (foldl lease_step s' es) k u")
  case (Some s'')
  have s': "ok s'" "holder s' k = Some t" using take_free [OF assms(1,2,3)] by auto
  then have "holder (foldl lease_step s' es) k = Some t"
    using held_until_given assms(4,5) by blast
  moreover have "holder (foldl lease_step s' es) k = None"
    using take_free [OF steps_ok [OF s'(1) assms(4)] assms(6) Some] by simp
  ultimately show ?thesis by simp
qed simp

lemma give_back_twice:
  assumes "ok s" and "holdable t"
  shows "give_back b' (give_back b s k t) k t = give_back b s k t"
  using give_other [of "give_back b s k t" t k] give_holder [OF assms, of b k k]
    give_other [OF assms, of k] assms(2)
  by (cases "holder s k = Some t") simp_all

end

end
