(* ===== verification/Sched_Types.thy ===== *)
theory Sched_Types
  imports Py_Prelude
begin

text \<open>
  Domain types of the scheduler, \<open>src/src/openstarry_code/scheduler/types.py\<close>. An instant
  (\<open>datetime\<close> with a zone) is a number of microseconds since the epoch, since the code compares
  and adds instants only; the resolution is that of \<open>datetime\<close>. Durations held as float seconds
  are numbers of microseconds, as \<open>timedelta(seconds=...)\<close> rounds them. A record's fields carry a
  short prefix (\<open>j_\<close> for \<open>CronJob\<close>, \<open>je_\<close> for \<open>JobExecution\<close>, ...), followed by the source's name.
\<close>

type_synonym instant = int

definition sec :: int where
  "sec = 1000000"

definition minute :: int where
  "minute = 60 * sec"

section \<open>Enumerations\<close>

datatype schedule_kind = CRON | AT | EVERY

fun schedule_kind_value :: "schedule_kind \<Rightarrow> string" where
  "schedule_kind_value CRON = ''cron''"
| "schedule_kind_value AT = ''at''"
| "schedule_kind_value EVERY = ''every''"

definition schedule_kind_of :: "string \<Rightarrow> schedule_kind option" where
  "schedule_kind_of = enum_of schedule_kind_value [CRON, AT, EVERY]"

datatype session_target = MAIN | ISOLATED | CURRENT | SESSION

fun session_target_value :: "session_target \<Rightarrow> string" where
  "session_target_value MAIN = ''main''"
| "session_target_value ISOLATED = ''isolated''"
| "session_target_value CURRENT = ''current''"
| "session_target_value SESSION = ''session''"

definition session_target_of :: "string \<Rightarrow> session_target option" where
  "session_target_of = enum_of session_target_value [MAIN, ISOLATED, CURRENT, SESSION]"

datatype delivery_mode = DNONE | ORIGIN | CHANNEL | WEBHOOK

fun delivery_mode_value :: "delivery_mode \<Rightarrow> string" where
  "delivery_mode_value DNONE = ''none''"
| "delivery_mode_value ORIGIN = ''origin''"
| "delivery_mode_value CHANNEL = ''channel''"
| "delivery_mode_value WEBHOOK = ''webhook''"

definition delivery_mode_of :: "string \<Rightarrow> delivery_mode option" where
  "delivery_mode_of = enum_of delivery_mode_value [DNONE, ORIGIN, CHANNEL, WEBHOOK]"

datatype wake_mode = NEXT_HEARTBEAT | NOW

fun wake_mode_value :: "wake_mode \<Rightarrow> string" where
  "wake_mode_value NEXT_HEARTBEAT = ''next-heartbeat''"
| "wake_mode_value NOW = ''now''"

definition wake_mode_of :: "string \<Rightarrow> wake_mode option" where
  "wake_mode_of = enum_of wake_mode_value [NEXT_HEARTBEAT, NOW]"

datatype job_status = PENDING | RUNNING | PAUSED | FAILED | DISABLED | DELETED

fun job_status_value :: "job_status \<Rightarrow> string" where
  "job_status_value PENDING = ''pending''"
| "job_status_value RUNNING = ''running''"
| "job_status_value PAUSED = ''paused''"
| "job_status_value FAILED = ''failed''"
| "job_status_value DISABLED = ''disabled''"
| "job_status_value DELETED = ''deleted''"

definition job_status_of :: "string \<Rightarrow> job_status option" where
  "job_status_of = enum_of job_status_value [PENDING, RUNNING, PAUSED, FAILED, DISABLED, DELETED]"

datatype rejection_reason =
  NOT_FOUND | BUSY | NOT_DUE | R_DISABLED | STATUS_CONFLICT | BACKING_OFF

fun rejection_reason_value :: "rejection_reason \<Rightarrow> string" where
  "rejection_reason_value NOT_FOUND = ''not_found''"
| "rejection_reason_value BUSY = ''busy''"
| "rejection_reason_value NOT_DUE = ''not_due''"
| "rejection_reason_value R_DISABLED = ''disabled''"
| "rejection_reason_value STATUS_CONFLICT = ''status_conflict''"
| "rejection_reason_value BACKING_OFF = ''backing_off''"

datatype manual_run_status =
  M_ACCEPTED | M_NOT_FOUND | M_NO_HANDLER | M_BUSY | M_DISABLED | M_BLOCKED

interpretation kind_enum: str_enum schedule_kind_value schedule_kind_of
proof
  fix e show "schedule_kind_of (schedule_kind_value e) = Some e"
    by (cases e) (simp_all add: schedule_kind_of_def enum_of_def)
qed (auto simp: schedule_kind_of_def dest: enum_of_Some)

interpretation target_enum: str_enum session_target_value session_target_of
proof
  fix e show "session_target_of (session_target_value e) = Some e"
    by (cases e) (simp_all add: session_target_of_def enum_of_def)
qed (auto simp: session_target_of_def dest: enum_of_Some)

interpretation delivery_enum: str_enum delivery_mode_value delivery_mode_of
proof
  fix e show "delivery_mode_of (delivery_mode_value e) = Some e"
    by (cases e) (simp_all add: delivery_mode_of_def enum_of_def)
qed (auto simp: delivery_mode_of_def dest: enum_of_Some)

interpretation wake_enum: str_enum wake_mode_value wake_mode_of
proof
  fix e show "wake_mode_of (wake_mode_value e) = Some e"
    by (cases e) (simp_all add: wake_mode_of_def enum_of_def)
qed (auto simp: wake_mode_of_def dest: enum_of_Some)

interpretation status_enum: str_enum job_status_value job_status_of
proof
  fix e show "job_status_of (job_status_value e) = Some e"
    by (cases e) (simp_all add: job_status_of_def enum_of_def)
qed (auto simp: job_status_of_def dest: enum_of_Some)

lemmas enum_of_values [simp] =
  kind_enum.of_val_val target_enum.of_val_val delivery_enum.of_val_val
  wake_enum.of_val_val status_enum.of_val_val

section \<open>Records\<close>

record reply_target =
  rt_channel_name :: string
  rt_channel_type :: string
  rt_to :: string
  rt_account_id :: string
  rt_thread_id :: string
  rt_request_id :: "string option"

record failure_destination =
  fd_mode :: delivery_mode
  fd_channel_name :: string
  fd_channel_id :: string
  fd_account_id :: string
  fd_thread_id :: string
  fd_webhook_url :: string
  fd_webhook_token :: string

record delivery_config =
  d_mode :: delivery_mode
  d_channel_name :: string
  d_channel_id :: string
  d_account_id :: string
  d_thread_id :: string
  d_ws_topic :: string
  d_originating_reply_target :: "reply_target option"
  d_webhook_url :: string
  d_webhook_token :: string
  d_best_effort :: bool
  d_failure_destination :: "failure_destination option"

definition default_delivery :: delivery_config where
  "default_delivery =
     \<lparr>d_mode = DNONE, d_channel_name = [], d_channel_id = [], d_account_id = [],
      d_thread_id = [], d_ws_topic = [], d_originating_reply_target = None,
      d_webhook_url = [], d_webhook_token = [], d_best_effort = False,
      d_failure_destination = None\<rparr>"

record handler_result =
  hr_summary :: "string option"
  hr_session_key :: string
  hr_delivery_status :: string

record cron_job =
  j_id :: string
  j_name :: string
  j_cron_expr :: string
  j_handler_key :: string
  j_payload :: pydict
  j_status :: job_status
  j_created_at :: instant
  j_updated_at :: instant
  j_last_run_at :: "instant option"
  j_next_run_at :: "instant option"
  j_run_count :: int
  j_error_count :: int
  j_last_error :: "string option"
  j_max_retries :: int
  j_jitter_seconds :: int
  j_schedule_kind :: schedule_kind
  j_schedule_raw :: string
  j_tz :: string
  j_anchor_at :: "instant option"
  j_creator_session_key :: string
  j_creator_sender_id :: string
  j_creator_is_owner :: bool
  j_creator_host_execute :: bool
  j_run_mode :: string
  j_elevated :: string
  j_execution_target :: string
  j_idempotency_key :: string
  j_session_target :: session_target
  j_session_key :: string
  j_origin_session_key :: string
  j_timeout_seconds :: int
  j_wake_mode :: wake_mode
  j_delete_after_run :: bool
  j_enabled :: bool
  j_backoff_until :: "instant option"
  j_consecutive_errors :: int
  j_delivery :: delivery_config
  j_reservation_token :: string
  j_reserved_at :: "instant option"
  j_reserved_by :: string
  j_reservation_source :: string
  j_scheduled_run_at :: "instant option"
  j_tool_policy :: pydict
  j_deduplicated :: bool

text \<open>A job with every field at its default; \<open>jid\<close> is the fresh \<open>uuid4\<close>, \<open>t\<close> the clock.\<close>

definition default_job :: "string \<Rightarrow> instant \<Rightarrow> cron_job" where
  "default_job jid t =
     \<lparr>j_id = jid, j_name = [], j_cron_expr = [], j_handler_key = [], j_payload = [],
      j_status = PENDING, j_created_at = t, j_updated_at = t, j_last_run_at = None,
      j_next_run_at = None, j_run_count = 0, j_error_count = 0, j_last_error = None,
      j_max_retries = 3, j_jitter_seconds = 0, j_schedule_kind = CRON, j_schedule_raw = [],
      j_tz = [], j_anchor_at = None, j_creator_session_key = [], j_creator_sender_id = [],
      j_creator_is_owner = False, j_creator_host_execute = False, j_run_mode = [],
      j_elevated = [], j_execution_target = [], j_idempotency_key = [],
      j_session_target = ISOLATED, j_session_key = [], j_origin_session_key = [],
      j_timeout_seconds = 600 * sec, j_wake_mode = NOW, j_delete_after_run = False,
      j_enabled = True, j_backoff_until = None, j_consecutive_errors = 0,
      j_delivery = default_delivery, j_reservation_token = [], j_reserved_at = None,
      j_reserved_by = [], j_reservation_source = [], j_scheduled_run_at = None,
      j_tool_policy = [], j_deduplicated = False\<rparr>"

record job_execution =
  je_id :: string
  je_job_id :: string
  je_started_at :: instant
  je_finished_at :: "instant option"
  je_success :: bool
  je_error :: "string option"
  je_summary :: "string option"
  je_session_key :: string
  je_delivery_status :: string

record job_reservation =
  rv_job :: cron_job
  rv_token :: string
  rv_reserved_at :: instant
  rv_reserved_by :: string
  rv_reservation_source :: string
  rv_scheduled_run_at :: "instant option"

record job_rejected =
  rj_job_id :: string
  rj_reason :: rejection_reason
  rj_job :: "cron_job option"
  rj_message :: string

record manual_run_result =
  mr_status :: manual_run_status
  mr_execution :: "job_execution option"
  mr_reason :: string
  mr_error :: "string option"
  mr_current_status :: string
  mr_backoff_until :: "instant option"

definition manual_success :: "manual_run_result \<Rightarrow> bool" where
  "manual_success r =
     (mr_status r = M_ACCEPTED \<and>
      (case mr_execution r of None \<Rightarrow> False | Some e \<Rightarrow> je_success e))"

definition manual_summary :: "manual_run_result \<Rightarrow> string option" where
  "manual_summary r = (case mr_execution r of None \<Rightarrow> None | Some e \<Rightarrow> je_summary e)"

definition manual_started_at :: "manual_run_result \<Rightarrow> instant option" where
  "manual_started_at r = map_option je_started_at (mr_execution r)"

definition manual_finished_at :: "manual_run_result \<Rightarrow> instant option" where
  "manual_finished_at r = (case mr_execution r of None \<Rightarrow> None | Some e \<Rightarrow> je_finished_at e)"

definition clear_reservation :: "cron_job \<Rightarrow> cron_job" where
  "clear_reservation job =
     job\<lparr>j_reservation_token := [], j_reserved_at := None, j_reserved_by := [],
         j_reservation_source := [], j_scheduled_run_at := None\<rparr>"

lemma clear_reservation_simps [simp]:
  "j_reservation_token (clear_reservation job) = []"
  "j_status (clear_reservation job) = j_status job"
  "j_enabled (clear_reservation job) = j_enabled job"
  "j_id (clear_reservation job) = j_id job"
  "j_next_run_at (clear_reservation job) = j_next_run_at job"
  "j_backoff_until (clear_reservation job) = j_backoff_until job"
  "j_consecutive_errors (clear_reservation job) = j_consecutive_errors job"
  "j_error_count (clear_reservation job) = j_error_count job"
  "j_run_count (clear_reservation job) = j_run_count job"
  "j_schedule_kind (clear_reservation job) = j_schedule_kind job"
  "j_last_error (clear_reservation job) = j_last_error job"
  "j_idempotency_key (clear_reservation job) = j_idempotency_key job"
  by (simp_all add: clear_reservation_def)

lemma clear_reservation_idem [simp, norm_simps]:
  "clear_reservation (clear_reservation job) = clear_reservation job"
  by (simp add: clear_reservation_def)

end
