(* ===== verification/Sched_Cron.thy ===== *)
theory Sched_Cron
  imports Sched_Types
begin

text \<open>
  The cron parser and matcher, \<open>scheduler/parser.py\<close>, with the part of \<open>datetime\<close> the matcher
  reads (the proleptic Gregorian calendar, computed as CPython's \<open>_ord2ymd\<close> does). Exceptions
  carry the text the code puts in them, because the callers wrap and test that text. Two things
  outside the repository are parameters: \<open>datetime.fromisoformat\<close> (\<open>fromiso\<close>) and the time zone
  database behind \<open>ZoneInfo\<close> (\<open>zone\<close>, a zone name to its UTC offset at each instant).
\<close>

section \<open>Exceptions\<close>

datatype sched_exc =
    CronParseError string
  | ValueError string
  | ZoneInfoNotFoundError string
  | ZeroDivisionError
  | TypeError string
  | IntegrityError string

fun exc_str :: "sched_exc \<Rightarrow> string" where
  "exc_str (CronParseError m) = m"
| "exc_str (ValueError m) = m"
| "exc_str (ZoneInfoNotFoundError z) = ''No time zone found with key '' @ z"
| "exc_str ZeroDivisionError = ''float floor division by zero''"
| "exc_str (TypeError m) = m"
| "exc_str (IntegrityError m) = m"

section \<open>Calendar\<close>

record civil =
  c_year :: int
  c_month :: int
  c_day :: int
  c_hour :: int
  c_minute :: int
  c_weekday :: int

definition days_before_month :: "int \<Rightarrow> int" where
  "days_before_month m =
     [0, 0, 31, 59, 90, 120, 151, 181, 212, 243, 273, 304, 334] ! nat m"

definition days_in_month :: "int \<Rightarrow> int" where
  "days_in_month m = [0, 31, 28, 31, 30, 31, 30, 31, 31, 30, 31, 30, 31] ! nat m"

text \<open>Month and day from the zero-based day \<open>n\<close> of a year, \<open>n < 365\<close>.\<close>

definition month_day :: "bool \<Rightarrow> int \<Rightarrow> int \<times> int" where
  "month_day leap n =
     (let month = (n + 50) div 32;
          preceding = days_before_month month + (if month > 2 \<and> leap then 1 else 0)
      in if preceding > n
         then (month - 1,
               n - (preceding - (days_in_month (month - 1) +
                                 (if month - 1 = 2 \<and> leap then 1 else 0))) + 1)
         else (month, n - preceding + 1))"

definition ord2ymd :: "int \<Rightarrow> int \<times> int \<times> int" where
  "ord2ymd ordinal =
     (let n = ordinal - 1;
          n400 = n div 146097; n = n mod 146097;
          n100 = n div 36524; n = n mod 36524;
          n4 = n div 1461; n = n mod 1461;
          n1 = n div 365; n = n mod 365;
          year = n400 * 400 + 1 + n100 * 100 + n4 * 4 + n1
      in if n1 = 4 \<or> n100 = 4 then (year - 1, 12, 31)
         else (year, month_day (n1 = 3 \<and> (n4 \<noteq> 24 \<or> n100 = 3)) n))"

definition day_us :: int where
  "day_us = 1440 * minute"

definition epoch_ordinal :: int where
  "epoch_ordinal = 719163"

definition civil_of :: "instant \<Rightarrow> civil" where
  "civil_of t =
     (let ordinal = epoch_ordinal + t div day_us;
          mins = (t mod day_us) div minute;
          (y, m, d) = ord2ymd ordinal
      in \<lparr>c_year = y, c_month = m, c_day = d, c_hour = mins div 60, c_minute = mins mod 60,
          c_weekday = (ordinal + 6) mod 7\<rparr>)"

section \<open>Fields\<close>

datatype field_name = F_MINUTE | F_HOUR | F_DOM | F_MONTH | F_DOW

fun field_label :: "field_name \<Rightarrow> string" where
  "field_label F_MINUTE = ''minute''"
| "field_label F_HOUR = ''hour''"
| "field_label F_DOM = ''day_of_month''"
| "field_label F_MONTH = ''month''"
| "field_label F_DOW = ''day_of_week''"

fun field_range :: "field_name \<Rightarrow> int \<times> int" where
  "field_range F_MINUTE = (0, 59)"
| "field_range F_HOUR = (0, 23)"
| "field_range F_DOM = (1, 31)"
| "field_range F_MONTH = (1, 12)"
| "field_range F_DOW = (0, 6)"

abbreviation field_lo :: "field_name \<Rightarrow> int" where
  "field_lo f \<equiv> fst (field_range f)"

abbreviation field_hi :: "field_name \<Rightarrow> int" where
  "field_hi f \<equiv> snd (field_range f)"

text \<open>The dictionaries of names, as (lower, upper, value) in their insertion order.\<close>

type_synonym name_table = "(string \<times> string \<times> int) list"

definition month_names :: name_table where
  "month_names =
     [(''jan'', ''JAN'', 1), (''feb'', ''FEB'', 2), (''mar'', ''MAR'', 3), (''apr'', ''APR'', 4),
      (''may'', ''MAY'', 5), (''jun'', ''JUN'', 6), (''jul'', ''JUL'', 7), (''aug'', ''AUG'', 8),
      (''sep'', ''SEP'', 9), (''oct'', ''OCT'', 10), (''nov'', ''NOV'', 11), (''dec'', ''DEC'', 12)]"

definition dow_names :: name_table where
  "dow_names =
     [(''sun'', ''SUN'', 0), (''mon'', ''MON'', 1), (''tue'', ''TUE'', 2), (''wed'', ''WED'', 3),
      (''thu'', ''THU'', 4), (''fri'', ''FRI'', 5), (''sat'', ''SAT'', 6)]"

definition presets :: "(string \<times> string) list" where
  "presets =
     [(''@yearly'', ''0 0 1 1 *''), (''@annually'', ''0 0 1 1 *''), (''@monthly'', ''0 0 1 * *''),
      (''@weekly'', ''0 0 * * 0''), (''@daily'', ''0 0 * * *''), (''@midnight'', ''0 0 * * *''),
      (''@hourly'', ''0 * * * *'')]"

record cron_field =
  cf_values :: "int set"
  cf_restricted :: bool

definition field_matches :: "cron_field \<Rightarrow> int \<Rightarrow> bool" where
  "field_matches f v = (v \<in> cf_values f)"

record cron_expression =
  ce_minute :: cron_field
  ce_hour :: cron_field
  ce_day_of_month :: cron_field
  ce_month :: cron_field
  ce_day_of_week :: cron_field
  ce_raw :: string

definition expr_matches :: "cron_expression \<Rightarrow> civil \<Rightarrow> bool" where
  "expr_matches e dt =
     (if \<not> (field_matches (ce_minute e) (c_minute dt) \<and> field_matches (ce_hour e) (c_hour dt))
      then False
      else if \<not> field_matches (ce_month e) (c_month dt) then False
      else
        let dom_matches = field_matches (ce_day_of_month e) (c_day dt);
            dow = (c_weekday dt + 1) mod 7;
            dow_matches = field_matches (ce_day_of_week e) dow
        in if cf_restricted (ce_day_of_month e) \<and> cf_restricted (ce_day_of_week e)
           then dom_matches \<or> dow_matches
           else dom_matches \<and> dow_matches)"

text \<open>\<open>range(start, stop, step)\<close> for a positive step.\<close>

definition py_range :: "int \<Rightarrow> int \<Rightarrow> int \<Rightarrow> int list" where
  "py_range start stop step =
     map (\<lambda>k. start + int k * step) [0 ..< nat ((stop - start + step - 1) div step)]"

definition to_int :: "field_name \<Rightarrow> string \<Rightarrow> sched_exc + int" where
  "to_int f s =
     (case py_int s of
        None \<Rightarrow> Inl (CronParseError (''Invalid value '' @ quoted s @ '' in field '' @
                                     quoted (field_label f)))
      | Some v \<Rightarrow>
          if field_lo f \<le> v \<and> v \<le> field_hi f then Inr v
          else Inl (CronParseError (''Value '' @ int_str v @ '' out of range ['' @
                 int_str (field_lo f) @ '', '' @ int_str (field_hi f) @ ''] for field '' @
                 quoted (field_label f))))"

text \<open>
  The source protects the separators of a part by section and pilcrow signs while it replaces
  the names.
\<close>

definition replace_names :: "name_table \<Rightarrow> string \<Rightarrow> string" where
  "replace_names names part =
     (if names = [] then part
      else
        let sub_parts = py_replace ''-'' [CHR 0xB6] (py_replace ''/'' [CHR 0xA7] part);
            sub_parts = fold (\<lambda>(lo, up, v) s. py_replace up (int_str v) (py_replace lo (int_str v) s))
                          names sub_parts
        in py_replace [CHR 0xB6] ''-'' (py_replace [CHR 0xA7] ''/'' sub_parts))"

definition parse_range :: "field_name \<Rightarrow> string \<Rightarrow> string \<Rightarrow> sched_exc + (int \<times> int)" where
  "parse_range f start_str end_str =
     rbind (to_int f start_str) (\<lambda>a. rbind (to_int f end_str) (\<lambda>b. Inr (a, b)))"

definition parse_part :: "field_name \<Rightarrow> string \<Rightarrow> sched_exc + int list" where
  "parse_part f part =
     (case split_once (CHR ''/'') part of
        Some (range_part, step_str) \<Rightarrow>
          (case py_int step_str of
             None \<Rightarrow> Inl (CronParseError (''Invalid step '' @ quoted step_str @ '' in field '' @
                                          quoted (field_label f)))
           | Some step \<Rightarrow>
               if step \<le> 0
               then Inl (CronParseError (''Step must be > 0 in field '' @ quoted (field_label f)))
               else
                 rbind
                   (if range_part = ''*'' then Inr (field_range f)
                    else case split_once (CHR ''-'') range_part of
                           Some (s, e) \<Rightarrow> parse_range f s e
                         | None \<Rightarrow> rbind (to_int f range_part) (\<lambda>a. Inr (a, field_hi f)))
                   (\<lambda>(a, b). Inr (py_range a (b + 1) step)))
      | None \<Rightarrow>
          (case split_once (CHR ''-'') part of
             Some (s, e) \<Rightarrow>
               rbind (parse_range f s e)
                 (\<lambda>(a, b). if a > b
                    then Inl (CronParseError (''Range start > end in field '' @
                                              quoted (field_label f)))
                    else Inr (py_range a (b + 1) 1))
           | None \<Rightarrow>
               if part = ''*'' then Inr (py_range (field_lo f) (field_hi f + 1) 1)
               else rbind (to_int f part) (\<lambda>v. Inr [v])))"

fun parse_parts :: "field_name \<Rightarrow> name_table \<Rightarrow> string list \<Rightarrow> sched_exc + int list" where
  "parse_parts f names [] = Inr []"
| "parse_parts f names (p # ps) =
     rbind (parse_part f (replace_names names (py_strip p)))
       (\<lambda>vs. rbind (parse_parts f names ps) (\<lambda>ws. Inr (vs @ ws)))"

definition parse_field :: "string \<Rightarrow> field_name \<Rightarrow> name_table \<Rightarrow> sched_exc + cron_field" where
  "parse_field token f names =
     rbind (parse_parts f names (split_on (CHR '','') token))
       (\<lambda>vs. Inr \<lparr>cf_values = set vs, cf_restricted = (py_strip token \<noteq> ''*'')\<rparr>)"

definition parse_cron :: "string \<Rightarrow> sched_exc + cron_expression" where
  "parse_cron raw =
     rbind
       (let expr = py_strip raw in
        if starts_with ''@'' expr
        then (case map_of presets expr of
                None \<Rightarrow> Inl (CronParseError (''Unknown preset '' @ quoted expr))
              | Some p \<Rightarrow> Inr p)
        else Inr expr)
       (\<lambda>expr. case py_words expr of
          [minute_tok, hour_tok, dom_tok, month_tok, dow_tok] \<Rightarrow>
            rbind (parse_field minute_tok F_MINUTE []) (\<lambda>mi.
            rbind (parse_field hour_tok F_HOUR []) (\<lambda>ho.
            rbind (parse_field dom_tok F_DOM []) (\<lambda>dom.
            rbind (parse_field month_tok F_MONTH month_names) (\<lambda>mo.
            rbind (parse_field dow_tok F_DOW dow_names) (\<lambda>dow.
              Inr \<lparr>ce_minute = mi, ce_hour = ho, ce_day_of_month = dom, ce_month = mo,
                   ce_day_of_week = dow, ce_raw = expr\<rparr>)))))
        | toks \<Rightarrow> Inl (CronParseError (''Expected 5 fields, got '' @
                     nat_str (length toks) @ '': '' @ quoted expr)))"

section \<open>Time zones and ISO timestamps\<close>

type_synonym zone_db = "string \<Rightarrow> (instant \<Rightarrow> int) option"

definition validate_tz :: "zone_db \<Rightarrow> string \<Rightarrow> sched_exc + unit" where
  "validate_tz zone tz =
     (if tz = [] then Inr ()
      else case zone tz of
             None \<Rightarrow> Inl (ValueError (''Unknown timezone: '' @ str_repr tz))
           | Some z \<Rightarrow> Inr ())"

datatype iso_dt = Naive int | Aware instant

type_synonym iso_parser = "string \<Rightarrow> iso_dt option"

fun py_type_name :: "pyval \<Rightarrow> string" where
  "py_type_name PyNone = ''NoneType''"
| "py_type_name (PyBool b) = ''bool''"
| "py_type_name (PyInt i) = ''int''"
| "py_type_name (PyFloat s) = ''float''"
| "py_type_name (PyStr s) = ''str''"
| "py_type_name (PyList xs) = ''list''"
| "py_type_name (PyDict d) = ''dict''"

definition parse_iso_at :: "iso_parser \<Rightarrow> pyval \<Rightarrow> sched_exc + instant" where
  "parse_iso_at fromiso raw =
     (case as_str raw of
        None \<Rightarrow> Inl (CronParseError (''Expected ISO-8601 string, got '' @ py_type_name raw))
      | Some s \<Rightarrow>
          let txt = py_strip s in
          if txt = [] then Inl (CronParseError ''ISO-8601 timestamp must not be empty'')
          else case fromiso (py_replace ''Z'' ''+00:00'' txt) of
                 None \<Rightarrow> Inl (CronParseError (''Invalid ISO-8601 timestamp: '' @ str_repr s))
               | Some (Naive t) \<Rightarrow>
                   Inl (CronParseError
                     (''ISO-8601 timestamp must include a timezone offset: '' @ str_repr s))
               | Some (Aware t) \<Rightarrow> Inr t)"

section \<open>Calendar facts\<close>

lemma int_1_12: "1 \<le> (k::int) \<Longrightarrow> k \<le> 12 \<Longrightarrow>
  k = 1 \<or> k = 2 \<or> k = 3 \<or> k = 4 \<or> k = 5 \<or> k = 6 \<or> k = 7 \<or> k = 8 \<or> k = 9 \<or> k = 10 \<or> k = 11 \<or> k = 12"
  by arith

text \<open>The month guess of \<open>_ord2ymd\<close>, \<open>(n + 50) div 32\<close>, is exact or one too large.\<close>

lemma month_tables:
  fixes k p l :: int and leap :: bool
  assumes "1 \<le> k" and "k \<le> 12"
  defines "p \<equiv> days_before_month k + (if k > 2 \<and> leap then 1 else 0)"
    and "l \<equiv> days_in_month (k - 1) + (if k - 1 = 2 \<and> leap then 1 else 0)"
  shows "0 \<le> p \<and> min (32 * k - 18) 365 - p \<le> 31 \<and> (k = 1 \<longrightarrow> p = 0) \<and>
    (k \<noteq> 1 \<longrightarrow> 0 \<le> l \<and> l \<le> 31 \<and> p - l \<le> 32 * k - 50)"
  using int_1_12 [OF assms(1,2)] unfolding p_def l_def
  by (elim disjE; cases leap; simp add: days_before_month_def days_in_month_def)

lemma month_day_bounds:
  assumes "0 \<le> n" and "n < 365" and md: "month_day leap n = (m, d)"
  shows "1 \<le> m \<and> m \<le> 12 \<and> 1 \<le> d \<and> d \<le> 31"
proof -
  define k where "k = (n + 50) div 32"
  define p where "p = days_before_month k + (if k > 2 \<and> leap then 1 else 0)"
  define l where "l = days_in_month (k - 1) + (if k - 1 = 2 \<and> leap then 1 else 0)"
  have k: "32 * k \<le> n + 50" "n + 50 < 32 * k + 32" unfolding k_def by linarith+
  then have k12: "1 \<le> k" "k \<le> 12" using assms(1,2) by linarith+
  have t: "0 \<le> p \<and> min (32 * k - 18) 365 - p \<le> 31 \<and> (k = 1 \<longrightarrow> p = 0) \<and>
      (k \<noteq> 1 \<longrightarrow> 0 \<le> l \<and> l \<le> 31 \<and> p - l \<le> 32 * k - 50)"
    using month_tables [OF k12] by (simp add: p_def l_def)
  have "(m, d) = (if p > n then (k - 1, n - (p - l) + 1) else (k, n - p + 1))"
    by (simp only: md [symmetric] month_day_def Let_def k_def p_def l_def)
  then show ?thesis
  proof (cases "p > n")
    case True
    then have "k \<noteq> 1" and "m = k - 1" and "d = n - (p - l) + 1"
      using t assms(1) \<open>(m, d) = _\<close> by auto
    then show ?thesis using t k k12 True by auto
  next
    case False
    then have "m = k" and "d = n - p + 1" using \<open>(m, d) = _\<close> by auto
    then show ?thesis using t k k12 False assms(2) by auto
  qed
qed

lemma ord2ymd_shape:
  "\<exists>c y leap n. ord2ymd k = (if c then (y - 1, 12, 31) else (y, month_day leap n)) \<and> 0 \<le> n \<and> n < 365"
  unfolding ord2ymd_def Let_def by (intro exI conjI, rule refl) simp_all

lemma ord2ymd_bounds:
  assumes "ord2ymd k = (y, m, d)"
  shows "1 \<le> m \<and> m \<le> 12 \<and> 1 \<le> d \<and> d \<le> 31"
proof -
  obtain c y' leap n
    where "ord2ymd k = (if c then (y' - 1, 12, 31) else (y', month_day leap n))" "0 \<le> n" "n < 365"
    using ord2ymd_shape by blast
  with assms show ?thesis by (cases c) (auto dest!: month_day_bounds [of n leap m d])
qed

definition civil_wf :: "civil \<Rightarrow> bool" where
  "civil_wf c \<longleftrightarrow> c_minute c \<in> {0..59} \<and> c_hour c \<in> {0..23} \<and> c_day c \<in> {1..31} \<and>
     c_month c \<in> {1..12} \<and> c_weekday c \<in> {0..6}"

lemma minute_pos [simp]: "0 < minute" and minute_eq: "minute = 60000000"
  by (simp_all add: minute_def sec_def)

lemma civil_of_wf: "civil_wf (civil_of t)"
proof -
  obtain y m d where ymd: "ord2ymd (epoch_ordinal + t div day_us) = (y, m, d)"
    by (metis prod_cases3)
  have "0 \<le> (t mod day_us) div minute" "(t mod day_us) div minute < 1440"
    by (simp_all add: day_us_def minute_eq div_less_iff_less_mult pos_imp_zdiv_nonneg_iff)
  then have "(t mod day_us) div minute div 60 \<in> {0..23}"
    by (simp add: div_less_iff_less_mult pos_imp_zdiv_nonneg_iff flip: zle_diff1_eq)
  then show ?thesis
    using ord2ymd_bounds [OF ymd] pos_mod_bound [of 60 "(t mod day_us) div minute"]
      pos_mod_bound [of 7 "epoch_ordinal + t div day_us + 6"]
    by (auto simp: civil_wf_def civil_of_def Let_def ymd simp del: pos_mod_bound)
qed

section \<open>What a field can contain\<close>

lemma set_py_range:
  assumes "0 < step"
  shows "set (py_range a b step) = {x. a \<le> x \<and> x < b \<and> (x - a) mod step = 0}"
proof -
  have "\<exists>k < nat ((b - a + step - 1) div step). x = a + int k * step"
    if "a \<le> x" "x < b" "(x - a) mod step = 0" for x
  proof -
    define q where "q = (x - a) div step"
    have x: "x = a + q * step" using that(3) using mult_div_mod_eq [of step "x - a"] by (simp add: q_def mult.commute)
    have "0 \<le> q" using that(1) assms by (simp add: q_def pos_imp_zdiv_nonneg_iff)
    have "(q + 1) * step \<le> b - a + step - 1" using x that(2) by (simp add: algebra_simps)
    then have "q + 1 \<le> (b - a + step - 1) div step" using zdiv_mono1 [of "(q + 1) * step" "b - a + step - 1" step] assms by simp
    with \<open>0 \<le> q\<close> show ?thesis using x by (intro exI [of _ "nat q"]) auto
  qed
  moreover have "a \<le> a + int k * step" "a + int k * step < b"
    if "k < nat ((b - a + step - 1) div step)" for k
  proof -
    show "a \<le> a + int k * step" using assms by simp
    have "int k + 1 \<le> (b - a + step - 1) div step" using that by linarith
    then have "(int k + 1) * step \<le> (b - a + step - 1) div step * step" using assms by simp
    also have "\<dots> \<le> b - a + step - 1" using div_mult_mod_eq [of "b - a + step - 1" step] pos_mod_sign [OF assms, of "b - a + step - 1"]
      by linarith
    finally show "a + int k * step < b" by (simp add: algebra_simps)
  qed
  ultimately show ?thesis unfolding py_range_def by (force simp: image_def)
qed

lemma set_py_range_1 [simp]: "set (py_range a b 1) = {a ..< b}"
  by (auto simp: set_py_range)

lemma to_int_Inr_iff:
  "to_int f s = Inr v \<longleftrightarrow> py_int s = Some v \<and> field_lo f \<le> v \<and> v \<le> field_hi f"
  by (auto simp: to_int_def split: option.splits)

lemma parse_range_Inr_iff [simp]:
  "parse_range f s e = Inr (a, b) \<longleftrightarrow> to_int f s = Inr a \<and> to_int f e = Inr b"
  by (auto simp: parse_range_def)

lemma field_range_le: "field_lo f \<le> field_hi f"
  by (cases f) auto

lemma parse_part_bounds:
  assumes "parse_part f p = Inr vs" and "v \<in> set vs"
  shows "field_lo f \<le> v \<and> v \<le> field_hi f"
  using assms
  by (auto simp: parse_part_def to_int_Inr_iff set_py_range
           split: option.splits if_splits prod.splits)

lemma parse_parts_bounds:
  "parse_parts f names ps = Inr vs \<Longrightarrow> v \<in> set vs \<Longrightarrow> field_lo f \<le> v \<and> v \<le> field_hi f"
proof (induction ps arbitrary: vs)
  case (Cons p ps)
  then obtain us ws where "parse_part f (replace_names names (py_strip p)) = Inr us"
    and "parse_parts f names ps = Inr ws" and "vs = us @ ws" by auto
  with Cons show ?case by (auto dest: parse_part_bounds)
qed simp

definition field_wf :: "field_name \<Rightarrow> cron_field \<Rightarrow> bool" where
  "field_wf f fld \<longleftrightarrow> cf_values fld \<subseteq> {field_lo f .. field_hi f}"

lemma parse_field_wf: "parse_field tok f names = Inr fld \<Longrightarrow> field_wf f fld"
  using parse_parts_bounds by (fastforce simp: parse_field_def field_wf_def)

definition expr_wf :: "cron_expression \<Rightarrow> bool" where
  "expr_wf e \<longleftrightarrow> field_wf F_MINUTE (ce_minute e) \<and> field_wf F_HOUR (ce_hour e) \<and>
     field_wf F_DOM (ce_day_of_month e) \<and> field_wf F_MONTH (ce_month e) \<and>
     field_wf F_DOW (ce_day_of_week e)"

lemma parse_cron_Inr:
  assumes "parse_cron s = Inr e"
  obtains mi ho dom mo dow where
    "parse_field mi F_MINUTE [] = Inr (ce_minute e)"
    "parse_field ho F_HOUR [] = Inr (ce_hour e)"
    "parse_field dom F_DOM [] = Inr (ce_day_of_month e)"
    "parse_field mo F_MONTH month_names = Inr (ce_month e)"
    "parse_field dow F_DOW dow_names = Inr (ce_day_of_week e)"
    "py_words (ce_raw e) = [mi, ho, dom, mo, dow]"
proof -
  from assms obtain expr where *: "(case py_words expr of
          [minute_tok, hour_tok, dom_tok, month_tok, dow_tok] \<Rightarrow>
            rbind (parse_field minute_tok F_MINUTE []) (\<lambda>mi.
            rbind (parse_field hour_tok F_HOUR []) (\<lambda>ho.
            rbind (parse_field dom_tok F_DOM []) (\<lambda>dom.
            rbind (parse_field month_tok F_MONTH month_names) (\<lambda>mo.
            rbind (parse_field dow_tok F_DOW dow_names) (\<lambda>dow.
              Inr \<lparr>ce_minute = mi, ce_hour = ho, ce_day_of_month = dom, ce_month = mo,
                   ce_day_of_week = dow, ce_raw = expr\<rparr>)))))
        | toks \<Rightarrow> Inl (CronParseError (''Expected 5 fields, got '' @
                     nat_str (length toks) @ '': '' @ quoted expr))) = Inr e"
    unfolding parse_cron_def rbind_Inr_iff by blast
  then obtain mi ho dom mo dow where "py_words expr = [mi, ho, dom, mo, dow]"
    by (auto split: list.splits)
  with * show ?thesis by (auto intro!: that [of mi ho dom mo dow])
qed

lemma parse_cron_wf: "parse_cron s = Inr e \<Longrightarrow> expr_wf e"
  by (erule parse_cron_Inr) (simp add: expr_wf_def parse_field_wf)

section \<open>Reference: the grammar of a field\<close>

text \<open>
  The values a field is meant to denote, read off its syntax without the parser: a star, a
  value, a range, or one of these with a step.
\<close>

datatype cron_base = B_Star | B_From int | B_Range int int

datatype cron_part = P_Star | P_Value int | P_Range int int | P_Step cron_base int

fun render_base :: "cron_base \<Rightarrow> string" where
  "render_base B_Star = ''*''"
| "render_base (B_From a) = int_str a"
| "render_base (B_Range a b) = int_str a @ ''-'' @ int_str b"

fun render_part :: "cron_part \<Rightarrow> string" where
  "render_part P_Star = ''*''"
| "render_part (P_Value a) = int_str a"
| "render_part (P_Range a b) = int_str a @ ''-'' @ int_str b"
| "render_part (P_Step base n) = render_base base @ ''/'' @ int_str n"

fun base_ends :: "field_name \<Rightarrow> cron_base \<Rightarrow> int \<times> int" where
  "base_ends f B_Star = field_range f"
| "base_ends f (B_From a) = (a, field_hi f)"
| "base_ends f (B_Range a b) = (a, b)"

fun denote :: "field_name \<Rightarrow> cron_part \<Rightarrow> int set" where
  "denote f P_Star = {field_lo f .. field_hi f}"
| "denote f (P_Value a) = {a}"
| "denote f (P_Range a b) = {a .. b}"
| "denote f (P_Step base n) =
     {x. fst (base_ends f base) \<le> x \<and> x \<le> snd (base_ends f base) \<and>
         (x - fst (base_ends f base)) mod n = 0}"

definition in_field :: "field_name \<Rightarrow> int \<Rightarrow> bool" where
  "in_field f a \<longleftrightarrow> field_lo f \<le> a \<and> a \<le> field_hi f"

fun base_ok :: "field_name \<Rightarrow> cron_base \<Rightarrow> bool" where
  "base_ok f B_Star = True"
| "base_ok f (B_From a) = in_field f a"
| "base_ok f (B_Range a b) = (in_field f a \<and> in_field f b)"

fun part_ok :: "field_name \<Rightarrow> cron_part \<Rightarrow> bool" where
  "part_ok f P_Star = True"
| "part_ok f (P_Value a) = in_field f a"
| "part_ok f (P_Range a b) = (in_field f a \<and> in_field f b \<and> a \<le> b)"
| "part_ok f (P_Step base n) = (base_ok f base \<and> 0 < n)"

lemma in_field_nonneg: "in_field f a \<Longrightarrow> 0 \<le> a"
  by (cases f) (auto simp: in_field_def)

lemma to_int_int_str [simp]: "in_field f a \<Longrightarrow> to_int f (int_str a) = Inr a"
  by (simp add: to_int_Inr_iff py_int_int_str in_field_def)

lemma int_str_set: "0 \<le> a \<Longrightarrow> c \<in> set (int_str a) \<Longrightarrow> is_digit c"
  by (auto simp: int_str_nonneg intro: nat_str_digits)

lemma not_digit_consts [simp]:
  "\<not> is_digit (CHR ''-'')" "\<not> is_digit (CHR ''/'')" "\<not> is_digit (CHR '','')"
  "\<not> is_digit (CHR ''*'')" "\<not> is_digit (CHR 0xA7)" "\<not> is_digit (CHR 0xB6)"
  by (simp_all add: is_digit_def code_def)

lemma split_once_int_str [simp]:
  "0 \<le> a \<Longrightarrow> \<not> is_digit d \<Longrightarrow> split_once d (int_str a) = None"
  "0 \<le> a \<Longrightarrow> \<not> is_digit d \<Longrightarrow> split_once d (int_str a @ d # s) = Some (int_str a, s)"
  using int_str_set by (auto simp: split_once_None_iff intro!: split_once_append)

lemma int_str_not_star [simp]: "0 \<le> a \<Longrightarrow> int_str a \<noteq> ''*''" "0 \<le> a \<Longrightarrow> int_str a @ s \<noteq> ''*''"
  using int_str_set [of a "CHR ''*''"] by (auto simp: append_eq_Cons_conv int_str_nonneg)

lemma parse_part_render:
  assumes "part_ok f p"
  shows "\<exists>vs. parse_part f (render_part p) = Inr vs \<and> set vs = denote f p"
proof (cases p)
  case (P_Step base n)
  have slash: "CHR ''/'' \<notin> set (render_base base)"
    using assms P_Step int_str_set [of _ "CHR ''/''"]
    by (cases base) (auto dest: in_field_nonneg)
  have "\<exists>a b. base_ends f base = (a, b) \<and>
     (if render_base base = ''*'' then Inr (field_range f)
      else case split_once (CHR ''-'') (render_base base) of
             Some (s, e) \<Rightarrow> parse_range f s e
           | None \<Rightarrow> rbind (to_int f (render_base base)) (\<lambda>a. Inr (a, field_hi f))) = Inr (a, b)"
    using assms P_Step by (cases base) (auto simp: in_field_nonneg)
  with assms P_Step show ?thesis
    by (auto simp: parse_part_def split_once_append [OF slash] py_int_int_str set_py_range)
next
  case (P_Range a b)
  with assms have ab: "in_field f a" "in_field f b" "a \<le> b" "0 \<le> a" "0 \<le> b"
    by (auto dest: in_field_nonneg)
  have "split_once (CHR ''/'') (int_str a @ CHR ''-'' # int_str b) = None"
    using ab int_str_set [of a "CHR ''/''"] int_str_set [of b "CHR ''/''"]
    by (auto simp: split_once_None_iff)
  with ab P_Range show ?thesis by (auto simp: parse_part_def)
next
  case (P_Value a)
  with assms have "in_field f a" "0 \<le> a" by (auto dest: in_field_nonneg)
  with P_Value show ?thesis by (auto simp: parse_part_def)
next
  case P_Star
  then show ?thesis by (auto simp: parse_part_def)
qed

lemma render_part_chars:
  assumes "part_ok f p" and "c \<in> set (render_part p)"
  shows "is_digit c \<or> c = CHR ''*'' \<or> c = CHR ''-'' \<or> c = CHR ''/''"
proof (cases p)
  case (P_Step base n)
  with assms show ?thesis
    by (cases base) (auto dest!: in_field_nonneg int_str_set [rotated])
qed (use assms in \<open>auto dest!: in_field_nonneg int_str_set [rotated]\<close>)

lemma render_char_not_space:
  "is_digit c \<or> c = CHR ''*'' \<or> c = CHR ''-'' \<or> c = CHR ''/'' \<Longrightarrow> \<not> py_isspace c"
  using digit_not_space by (auto simp: py_isspace_def Let_def code_def)

lemma render_part_strip [simp]: "part_ok f p \<Longrightarrow> py_strip (render_part p) = render_part p"
  using render_part_chars [of f p] render_char_not_space
  by (intro py_strip_id) (meson hd_in_set last_in_set)+

text \<open>Names do not disturb a numeric part: there is no letter in it to replace.\<close>

lemma py_replace_single: "py_replace [a] [b] s = map (\<lambda>c. if c = a then b else c) s"
  by (induction s) (auto simp: starts_with_def)

lemma py_replace_absent: "hd old \<notin> set s \<Longrightarrow> old \<noteq> [] \<Longrightarrow> py_replace old new s = s"
  by (induction s) (auto simp: starts_with_def, metis hd_take list.sel(1) length_greater_0_conv)

lemma fold_replace_absent:
  "\<forall>(lo, up, v) \<in> set names. lo \<noteq> [] \<and> up \<noteq> [] \<and> hd lo \<notin> set s \<and> hd up \<notin> set s \<Longrightarrow>
   fold (\<lambda>(lo, up, v) s. py_replace up (int_str v) (py_replace lo (int_str v) s)) names s = s"
  by (induction names) (auto simp: py_replace_absent)

definition names_alpha :: "name_table \<Rightarrow> bool" where
  "names_alpha names \<longleftrightarrow> (\<forall>(lo, up, v) \<in> set names. lo \<noteq> [] \<and> up \<noteq> [] \<and>
     hd lo \<in> {CHR ''a'' .. CHR ''z''} \<and> hd up \<in> {CHR ''A'' .. CHR ''Z''})"

lemma names_alpha_tables: "names_alpha []" "names_alpha month_names" "names_alpha dow_names"
  by (simp_all add: names_alpha_def month_names_def dow_names_def less_eq_char_def)

lemma replace_names_numeric:
  assumes "names_alpha names"
    and "\<forall>c \<in> set s. is_digit c \<or> c = CHR ''*'' \<or> c = CHR ''-'' \<or> c = CHR ''/''"
  shows "replace_names names s = s"
proof -
  define m where "m = map (\<lambda>c. if c = CHR ''-'' then CHR 0xB6 else c)
    (map (\<lambda>c. if c = CHR ''/'' then CHR 0xA7 else c) s)"
  have m_chars: "\<forall>c \<in> set m. is_digit c \<or> c = CHR ''*'' \<or> c = CHR 0xB6 \<or> c = CHR 0xA7"
    using assms(2) by (auto simp: m_def)
  have "\<forall>(lo, up, v) \<in> set names. lo \<noteq> [] \<and> up \<noteq> [] \<and> hd lo \<notin> set m \<and> hd up \<notin> set m"
    using assms(1) m_chars
    by (fastforce simp: names_alpha_def less_eq_char_def is_digit_def code_def)
  then have "fold (\<lambda>(lo, up, v) s. py_replace up (int_str v) (py_replace lo (int_str v) s)) names m = m"
    by (rule fold_replace_absent)
  moreover have "map (\<lambda>c. if c = CHR 0xB6 then CHR ''-'' else c)
      (map (\<lambda>c. if c = CHR 0xA7 then CHR ''/'' else c) m) = s"
    using assms(2) unfolding m_def map_map by (intro map_idI) (auto simp: comp_def)
  ultimately show ?thesis
    by (simp only: replace_names_def py_replace_single m_def [symmetric] Let_def if_cancel)
qed

lemma parse_parts_render:
  "names_alpha names \<Longrightarrow> \<forall>p \<in> set ps. part_ok f p \<Longrightarrow>
   \<exists>vs. parse_parts f names (map render_part ps) = Inr vs \<and> set vs = (\<Union>p \<in> set ps. denote f p)"
proof (induction ps)
  case (Cons p ps)
  then obtain ws where "parse_parts f names (map render_part ps) = Inr ws"
    "set ws = (\<Union>p \<in> set ps. denote f p)" by auto
  moreover obtain vs where "parse_part f (render_part p) = Inr vs" "set vs = denote f p"
    using parse_part_render [of f p] Cons.prems by auto
  moreover have "replace_names names (render_part p) = render_part p"
    using Cons.prems render_part_chars [of f p] by (intro replace_names_numeric) auto
  ultimately show ?case using Cons.prems render_part_strip [of f p] by simp
qed simp

definition render_field :: "cron_part list \<Rightarrow> string" where
  "render_field ps = join '','' (map render_part ps)"

text \<open>C39: Parsing the text of any list of field parts (star, value, range, stepped star, value or
  range, all within the field's bounds) yields exactly the union of the value sets the parts
  denote, also when a table of month or weekday names is in force.\<close>

theorem parse_field_render:
  assumes "ps \<noteq> []" and "\<forall>p \<in> set ps. part_ok f p" and "names_alpha names"
  shows "parse_field (render_field ps) f names =
    Inr \<lparr>cf_values = (\<Union>p \<in> set ps. denote f p),
         cf_restricted = (py_strip (render_field ps) \<noteq> ''*'')\<rparr>"
proof -
  have "\<forall>w \<in> set (map render_part ps). CHR '','' \<notin> set w"
    using assms(2) render_part_chars [of f _ "CHR '',''"] by auto
  then have "split_on (CHR '','') (render_field ps) = map render_part ps"
    unfolding render_field_def using assms(1) by (intro split_on_join) auto
  then show ?thesis using parse_parts_render [OF assms(3,2)] by (auto simp: parse_field_def)
qed

lemma parse_field_render_witness:
  "parse_field (render_field [P_Value 7, P_Range 1 5, P_Step B_Star 15]) F_MINUTE [] =
     Inr \<lparr>cf_values = {7} \<union> ({1..5} \<union> {v. 0 \<le> v \<and> v \<le> 59 \<and> v mod 15 = 0}),
          cf_restricted = (py_strip (render_field [P_Value 7, P_Range 1 5, P_Step B_Star 15]) \<noteq> ''*'')\<rparr>"
proof -
  have "(\<Union>p \<in> set [P_Value 7, P_Range 1 5, P_Step B_Star 15]. denote F_MINUTE p) =
      {7} \<union> ({1..5} \<union> {v. 0 \<le> v \<and> v \<le> 59 \<and> v mod 15 = 0})"
    by (auto simp: dvd_eq_mod_eq_0)
  then show ?thesis
    using parse_field_render [of "[P_Value 7, P_Range 1 5, P_Step B_Star 15]" F_MINUTE "[]"]
    by (simp add: names_alpha_tables in_field_def)
qed

end
