(* ===== verification/Sched_Normalize.thy ===== *)
theory Sched_Normalize
  imports Sched_Cron
begin

text \<open>
  The wire normalisation of schedules, \<open>scheduler/schedule_normalizer.py\<close>: a request's
  parameters to a canonical (kind, value, time zone), or the \<open>ValueError\<close> the RPC layer reports.
\<close>

type_synonym schedule = "schedule_kind \<times> string \<times> string"

definition coerce_cron :: "zone_db \<Rightarrow> pydict \<Rightarrow> sched_exc + schedule" where
  "coerce_cron zone raw =
     (case as_str (dget raw ''expr'') of
        None \<Rightarrow> Inl (ValueError (''schedule.expr required when kind='' @ quoted ''cron'' @
            ''; expected 5-field POSIX cron''))
      | Some e \<Rightarrow>
          let expr = py_strip e in
          if expr = []
          then Inl (ValueError (''schedule.expr required when kind='' @ quoted ''cron'' @
            ''; expected 5-field POSIX cron''))
          else case parse_cron expr of
            Inl exc \<Rightarrow> Inl (ValueError (''schedule.expr invalid: '' @ exc_str exc @
                                        ''; expected 5-field POSIX cron''))
          | Inr _ \<Rightarrow>
              (case as_str (py_or (dget raw ''tz'') (PyStr [])) of
                 None \<Rightarrow> Inl (ValueError ''schedule.tz must be a string IANA timezone name'')
               | Some tz_raw \<Rightarrow>
                   let tz_value = py_strip tz_raw in
                   case validate_tz zone tz_value of
                     Inl exc \<Rightarrow> Inl (ValueError (''schedule.tz invalid: '' @ exc_str exc @
                        ''; expected IANA name like '' @ quoted ''Asia/Shanghai''))
                   | Inr _ \<Rightarrow> Inr (CRON, expr, tz_value)))"

definition coerce_every :: "pydict \<Rightarrow> sched_exc + schedule" where
  "coerce_every raw =
     (if dget raw ''anchor_at'' \<noteq> PyNone \<and> dget raw ''anchor_at'' \<noteq> PyStr []
      then Inl (ValueError (''schedule.anchor_at is not supported for kind='' @ quoted ''every'' @ ''; omit it''))
      else case as_int (dget raw ''every_seconds'') of
        None \<Rightarrow> Inl (ValueError (''schedule.every_seconds required (integer >= 1) when kind='' @ quoted ''every''))
      | Some every_seconds \<Rightarrow>
          if every_seconds < 1
          then Inl (ValueError ''schedule.every_seconds must be >= 1 second'')
          else Inr (EVERY, int_str every_seconds, []))"

definition coerce_at :: "iso_parser \<Rightarrow> pydict \<Rightarrow> sched_exc + schedule" where
  "coerce_at fromiso raw =
     (case as_str (dget raw ''at'') of
        None \<Rightarrow> Inl (ValueError (''schedule.at required when kind='' @ quoted ''at'' @
            ''; expected ISO-8601 with timezone''))
      | Some at_raw \<Rightarrow>
          if py_strip at_raw = []
          then Inl (ValueError (''schedule.at required when kind='' @ quoted ''at'' @
            ''; expected ISO-8601 with timezone''))
          else case parse_iso_at fromiso (PyStr at_raw) of
            Inl exc \<Rightarrow>
              if contains ''timezone'' (py_lower (exc_str exc))
              then Inl (ValueError (''schedule.at invalid: must include a timezone offset, e.g. '' @
                     quoted ''2026-05-15T09:00:00+08:00''))
              else Inl (ValueError (''schedule.at invalid: '' @ exc_str exc @
                     ''; expected ISO-8601 with timezone like '' @
                     quoted ''2026-05-15T09:00:00+08:00''))
          | Inr _ \<Rightarrow> Inr (AT, py_strip at_raw, []))"

definition coerce_schedule :: "zone_db \<Rightarrow> iso_parser \<Rightarrow> pydict \<Rightarrow> sched_exc + schedule" where
  "coerce_schedule zone fromiso raw =
     (case as_str (dget raw ''kind'') of
        None \<Rightarrow> Inl (ValueError ''schedule.kind required; one of: cron, every, at'')
      | Some kind_raw \<Rightarrow>
          if kind_raw = [] then Inl (ValueError ''schedule.kind required; one of: cron, every, at'')
          else case schedule_kind_of kind_raw of
            None \<Rightarrow> Inl (ValueError (''schedule.kind must be one of: cron, every, at; got '' @
                                     str_repr kind_raw))
          | Some CRON \<Rightarrow> coerce_cron zone raw
          | Some EVERY \<Rightarrow> coerce_every raw
          | Some AT \<Rightarrow> coerce_at fromiso raw)"

definition strip_if_str :: "pyval \<Rightarrow> string" where
  "strip_if_str v = (case as_str v of Some s \<Rightarrow> py_strip s | None \<Rightarrow> [])"

definition top_level_tz :: "pydict \<Rightarrow> sched_exc + string" where
  "top_level_tz params =
     (let tz = strip_if_str (dget params ''tz''); timezone = strip_if_str (dget params ''timezone'')
      in if tz \<noteq> [] \<and> timezone \<noteq> [] \<and> tz \<noteq> timezone
         then Inl (ValueError ''tz conflicts with timezone'')
         else Inr (if tz \<noteq> [] then tz else timezone))"

definition coerce_schedule_from_params ::
  "zone_db \<Rightarrow> iso_parser \<Rightarrow> pydict \<Rightarrow> sched_exc + schedule" where
  "coerce_schedule_from_params zone fromiso params =
     (case dget params ''schedule'' of
        PyDict sched \<Rightarrow>
          rbind (top_level_tz params) (\<lambda>top_tz.
            if top_tz \<noteq> [] \<and> dget sched ''kind'' = PyStr (schedule_kind_value CRON)
            then
              let schedule_tz = strip_if_str (dget sched ''tz'') in
              if schedule_tz \<noteq> [] \<and> schedule_tz \<noteq> top_tz
              then Inl (ValueError ''schedule.tz conflicts with tz'')
              else coerce_schedule zone fromiso (dset ''tz'' (PyStr top_tz) sched)
            else coerce_schedule zone fromiso sched)
      | _ \<Rightarrow>
          (case as_str (dget params ''expression'') of
             Some expression \<Rightarrow>
               if py_strip expression \<noteq> []
               then coerce_schedule zone fromiso
                      [(''kind'', PyStr ''cron''), (''expr'', PyStr expression),
                       (''tz'', py_or (dget_or params ''tz'' (PyStr [])) (PyStr []))]
               else Inl (ValueError ''params required: schedule (object) or expression (string)'')
           | None \<Rightarrow> Inl (ValueError ''params required: schedule (object) or expression (string)'')))"

section \<open>Canonical schedules\<close>

text \<open>What the scheduler's operations accept without change.\<close>

fun canonical_schedule :: "zone_db \<Rightarrow> iso_parser \<Rightarrow> schedule \<Rightarrow> bool" where
  "canonical_schedule zone fromiso (CRON, v, tz) \<longleftrightarrow>
     v \<noteq> [] \<and> py_strip v = v \<and> is_ok (parse_cron v) \<and> py_strip tz = tz \<and> is_ok (validate_tz zone tz)"
| "canonical_schedule zone fromiso (EVERY, v, tz) \<longleftrightarrow>
     (\<exists>n \<ge> 1. v = int_str n) \<and> tz = []"
| "canonical_schedule zone fromiso (AT, v, tz) \<longleftrightarrow>
     v \<noteq> [] \<and> py_strip v = v \<and> is_ok (parse_iso_at fromiso (PyStr v)) \<and> tz = []"

lemma coerce_cron_canonical:
  "coerce_cron zone raw = Inr s \<Longrightarrow> canonical_schedule zone fromiso s"
  by (auto simp: coerce_cron_def Let_def is_ok_iff split: option.splits if_splits sum.splits)

lemma some_positive: "\<not> n < 1 \<Longrightarrow> \<exists>m \<ge> 1. int_str n = int_str m" for n :: int
  by (rule exI [of _ n]) simp

lemma coerce_every_canonical:
  "coerce_every raw = Inr s \<Longrightarrow> canonical_schedule zone fromiso s"
  by (auto simp: coerce_every_def intro: some_positive split: option.splits if_splits)

lemma parse_iso_at_strip:
  "parse_iso_at fromiso (PyStr s) = Inr t \<Longrightarrow> parse_iso_at fromiso (PyStr (py_strip s)) = Inr t"
  by (auto simp: parse_iso_at_def Let_def split: if_splits option.splits iso_dt.splits)

lemma coerce_at_canonical:
  "coerce_at fromiso raw = Inr s \<Longrightarrow> canonical_schedule zone fromiso s"
  by (auto simp: coerce_at_def is_ok_iff split: option.splits if_splits sum.splits
           dest: parse_iso_at_strip)

lemma coerce_schedule_canonical:
  "coerce_schedule zone fromiso raw = Inr s \<Longrightarrow> canonical_schedule zone fromiso s"
  by (auto simp: coerce_schedule_def split: option.splits if_splits schedule_kind.splits
           intro: coerce_cron_canonical coerce_every_canonical coerce_at_canonical)

lemma coerce_from_params_canonical:
  "coerce_schedule_from_params zone fromiso params = Inr s \<Longrightarrow> canonical_schedule zone fromiso s"
  by (auto simp: coerce_schedule_from_params_def Let_def
           split: pyval.splits option.splits if_splits intro: coerce_schedule_canonical)

lemma coerce_from_params_canonical_witness:
  "canonical_schedule (\<lambda>_. None) (\<lambda>_. None) (EVERY, ''90'', [])"
proof (rule coerce_from_params_canonical)
  show "coerce_schedule_from_params (\<lambda>_. None) (\<lambda>_. None)
      [(''schedule'', PyDict [(''kind'', PyStr ''every''), (''every_seconds'', PyInt 90)])] =
    Inr (EVERY, ''90'', [])"
    by code_simp
qed

end
