(* ===== verification/Sched_Payloads.thy ===== *)
theory Sched_Payloads
  imports Sched_Cron
begin

text \<open>
  The payload contract of cron jobs, \<open>scheduler/payloads.py\<close>: which handler a payload runs
  under, with which text, agent and session. The store normalises with it on every write and on
  every read, so what matters is that normalising is idempotent and that the strict form
  accepts only runnable contracts.
\<close>

definition agent_turn_kind :: string where "agent_turn_kind = ''agent_turn''"
definition reminder_kind :: string where "reminder_kind = ''reminder''"
definition system_event_kind :: string where "system_event_kind = ''system_event''"

definition valid_payload_kinds :: "string list" where
  "valid_payload_kinds = [agent_turn_kind, reminder_kind, system_event_kind]"

definition known_handler_keys :: "string list" where
  "known_handler_keys = [''agent_run'', ''static_message'', ''system_event'']"

definition persisted_extension_keys :: "string list" where
  "persisted_extension_keys =
     [''_workspace_id'', ''_workspace_name'', ''_workspace_unavailable'', ''_template_id'']"

lemmas contract_consts = agent_turn_kind_def reminder_kind_def system_event_kind_def
  valid_payload_kinds_def known_handler_keys_def persisted_extension_keys_def

definition preserve_extension :: "pydict \<Rightarrow> string \<Rightarrow> pydict \<Rightarrow> pydict" where
  "preserve_extension source key canonical =
     (case as_str (dget source key) of
        Some v \<Rightarrow> if v \<noteq> [] then dset key (PyStr v) canonical else canonical
      | None \<Rightarrow> canonical)"

definition preserve_extensions :: "pydict \<Rightarrow> pydict \<Rightarrow> pydict" where
  "preserve_extensions canonical source =
     fold (preserve_extension source) persisted_extension_keys canonical"

definition payload_kind :: "pydict \<Rightarrow> session_target \<Rightarrow> string" where
  "payload_kind data target =
     (let fallback = (if target = MAIN then system_event_kind else agent_turn_kind) in
      case as_str (dget data ''kind'') of
        Some raw_kind \<Rightarrow> if raw_kind \<in> set valid_payload_kinds then raw_kind else fallback
      | None \<Rightarrow> fallback)"

definition payload_text :: "pydict \<Rightarrow> session_target \<Rightarrow> string" where
  "payload_text data target =
     py_str
       (if payload_kind data target \<in> {reminder_kind, system_event_kind}
        then py_or (py_or (dget data ''text'') (dget data ''task'')) (PyStr [])
        else py_or (py_or (dget data ''task'') (dget data ''text'')) (PyStr []))"

definition payload_agent_id :: "pydict \<Rightarrow> string" where
  "payload_agent_id data =
     (case as_str (dget_or data ''agent_id'' (PyStr ''main'')) of
        Some raw \<Rightarrow> if py_strip raw \<noteq> [] then raw else ''main''
      | None \<Rightarrow> ''main'')"

definition normalize_origin_session_key :: "session_target \<Rightarrow> string \<Rightarrow> string" where
  "normalize_origin_session_key target origin = (if target = MAIN then [] else origin)"

definition or_main :: "string \<Rightarrow> string" where
  "or_main a = (if a = [] then ''main'' else a)"

definition make_agent_turn_payload :: "string \<Rightarrow> string \<Rightarrow> pydict" where
  "make_agent_turn_payload task agent_id =
     [(''kind'', PyStr agent_turn_kind), (''task'', PyStr task), (''agent_id'', PyStr (or_main agent_id))]"

definition make_reminder_payload :: "string \<Rightarrow> string \<Rightarrow> pydict" where
  "make_reminder_payload txt agent_id =
     [(''kind'', PyStr reminder_kind), (''text'', PyStr txt), (''agent_id'', PyStr (or_main agent_id))]"

definition make_system_event_payload :: "string \<Rightarrow> string \<Rightarrow> pydict" where
  "make_system_event_payload txt agent_id =
     [(''kind'', PyStr system_event_kind), (''text'', PyStr txt), (''agent_id'', PyStr (or_main agent_id))]"

lemmas make_payload_defs = make_agent_turn_payload_def make_reminder_payload_def
  make_system_event_payload_def

type_synonym contract = "string \<times> pydict \<times> session_target \<times> string"

definition bind_session :: "session_target \<Rightarrow> string \<Rightarrow> string \<Rightarrow> string" where
  "bind_session target session_key origin =
     (if target = CURRENT \<and> session_key = [] \<and> origin \<noteq> [] then origin else session_key)"

text \<open>\<open>explicit_kind not in _VALID_PAYLOAD_KINDS\<close>: hashing a list or a dictionary raises.\<close>

definition kind_outside :: "pyval \<Rightarrow> sched_exc + bool" where
  "kind_outside v =
     (case v of
        PyList _ \<Rightarrow> Inl (TypeError (''unhashable type: '' @ quoted ''list''))
      | PyDict _ \<Rightarrow> Inl (TypeError (''unhashable type: '' @ quoted ''dict''))
      | PyStr s \<Rightarrow> Inr (s \<notin> set valid_payload_kinds)
      | _ \<Rightarrow> Inr True)"

definition needs_session :: "session_target \<Rightarrow> bool" where
  "needs_session target = (target = CURRENT \<or> target = SESSION)"

definition missing_session :: "session_target \<Rightarrow> sched_exc" where
  "missing_session target =
     ValueError (session_target_value target @ '' sessionTarget requires a bound session key'')"

definition canonical_contract ::
  "bool \<Rightarrow> pydict \<Rightarrow> session_target \<Rightarrow> string \<Rightarrow> sched_exc + contract" where
  "canonical_contract strict data target bound =
     (let kind = payload_kind data target; agent_id = payload_agent_id data;
          txt = payload_text data target
      in if strict \<and> py_strip txt = [] then Inl (ValueError ''Cron payload text is required'')
         else if kind = reminder_kind then
           if strict \<and> target = MAIN
           then Inl (ValueError (''reminder payloads cannot use sessionTarget='' @ quoted ''main''))
           else if strict \<and> needs_session target \<and> bound = [] then Inl (missing_session target)
           else Inr (''static_message'', preserve_extensions (make_reminder_payload txt agent_id) data,
                     target, bound)
         else if kind = system_event_kind then
           if strict \<and> target \<noteq> MAIN
           then Inl (ValueError (''system_event payloads require sessionTarget='' @ quoted ''main''))
           else Inr (''system_event'',
                     preserve_extensions (make_system_event_payload txt agent_id) data, target, bound)
         else
           if strict \<and> target = MAIN
           then Inl (ValueError (''agent_turn payloads cannot use sessionTarget='' @ quoted ''main''))
           else if strict \<and> needs_session target \<and> bound = [] then Inl (missing_session target)
           else Inr (''agent_run'', preserve_extensions (make_agent_turn_payload txt agent_id) data,
                     target, bound))"

definition normalize_contract ::
  "bool \<Rightarrow> string \<Rightarrow> pydict \<Rightarrow> session_target \<Rightarrow> string \<Rightarrow> string \<Rightarrow> sched_exc + contract" where
  "normalize_contract strict handler_key data target session_key origin =
     (let bound = bind_session target session_key origin in
      if handler_key \<in> set known_handler_keys then canonical_contract strict data target bound
      else rbind (kind_outside (dget data ''kind''))
             (\<lambda>outside. if outside then Inr (handler_key, data, target, bound)
                        else canonical_contract strict data target bound))"

section \<open>Canonical payloads are fixed points\<close>

lemma dget_or_Cons [simp]: "dget_or ((k, v) # d) k' x = (if k' = k then v else dget_or d k' x)"
  by (simp add: dget_or_def)

text \<open>The extension a source payload carries under a key.\<close>

definition ext_val :: "pydict \<Rightarrow> string \<Rightarrow> string option" where
  "ext_val src k = (case dget src k of PyStr v \<Rightarrow> if v \<noteq> [] then Some v else None | _ \<Rightarrow> None)"

lemma preserve_extension_alt:
  "preserve_extension src k d = (case ext_val src k of None \<Rightarrow> d | Some v \<Rightarrow> dset k (PyStr v) d)"
  by (cases "dget src k") (auto simp: preserve_extension_def ext_val_def)

lemma ext_val_dget: "ext_val src k = Some v \<Longrightarrow> dget src k = PyStr v"
  by (auto simp: ext_val_def split: pyval.splits if_splits)

lemma dget_fold_preserve:
  "dget (fold (preserve_extension src) ks d) k =
     (if k \<in> set ks \<and> ext_val src k \<noteq> None then dget src k else dget d k)"
  by (induction ks arbitrary: d) (auto simp: preserve_extension_alt ext_val_dget split: option.splits)

lemma dget_or_fold_preserve:
  "k \<notin> set ks \<Longrightarrow> dget_or (fold (preserve_extension src) ks d) k x = dget_or d k x"
  by (induction ks arbitrary: d) (auto simp: preserve_extension_alt split: option.splits)

lemma dget_core:
  "k \<notin> set persisted_extension_keys \<Longrightarrow> dget (preserve_extensions d src) k = dget d k"
  "k \<notin> set persisted_extension_keys \<Longrightarrow> dget_or (preserve_extensions d src) k x = dget_or d k x"
  by (simp_all add: preserve_extensions_def dget_fold_preserve dget_or_fold_preserve)

lemma preserve_again:
  assumes "\<forall>k \<in> set persisted_extension_keys. dget d k = PyNone"
  shows "preserve_extensions d (preserve_extensions d src) = preserve_extensions d src"
proof -
  have "ext_val (preserve_extensions d src) k = ext_val src k"
    if "k \<in> set persisted_extension_keys" for k
    using that assms by (auto simp: preserve_extensions_def ext_val_def dget_fold_preserve)
  then have "preserve_extension (preserve_extensions d src) k c = preserve_extension src k c"
    if "k \<in> set persisted_extension_keys" for k c
    using that by (simp add: preserve_extension_alt)
  then have "fold (preserve_extension (preserve_extensions d src)) persisted_extension_keys d
      = fold (preserve_extension src) persisted_extension_keys d"
    by (intro fold_cong) auto
  then show ?thesis by (simp only: preserve_extensions_def)
qed

lemma payload_agent_id_nonblank [simp]: "py_strip (payload_agent_id d) \<noteq> []" "payload_agent_id d \<noteq> []"
proof -
  show s: "py_strip (payload_agent_id d) \<noteq> []"
    by (auto simp: payload_agent_id_def py_strip_def py_lstrip_def py_rstrip_def py_isspace_def
        code_def Let_def split: option.splits)
  then show "payload_agent_id d \<noteq> []" by (metis py_strip_Nil)
qed

lemma payload_kind_valid: "payload_kind d t \<in> set valid_payload_kinds"
  by (auto simp: payload_kind_def Let_def contract_consts split: option.splits)

text \<open>The handler each canonical kind runs under, and the payload of that kind.\<close>

definition kind_handler :: "string \<Rightarrow> string" where
  "kind_handler kind =
     (if kind = reminder_kind then ''static_message''
      else if kind = system_event_kind then ''system_event'' else ''agent_run'')"

definition make_payload :: "string \<Rightarrow> string \<Rightarrow> string \<Rightarrow> pydict" where
  "make_payload kind txt agent_id =
     (if kind = reminder_kind then make_reminder_payload txt agent_id
      else if kind = system_event_kind then make_system_event_payload txt agent_id
      else make_agent_turn_payload txt agent_id)"

lemma canonical_contract_Inr:
  "canonical_contract strict data target bound = Inr (h, p, t, s) \<Longrightarrow>
     h = kind_handler (payload_kind data target) \<and> t = target \<and> s = bound \<and>
     p = preserve_extensions
           (make_payload (payload_kind data target) (payload_text data target) (payload_agent_id data)) data"
  by (auto simp: canonical_contract_def Let_def kind_handler_def make_payload_def split: if_splits)

lemma canonical_contract_lax:
  "canonical_contract False data target bound =
     Inr (kind_handler (payload_kind data target),
          preserve_extensions
            (make_payload (payload_kind data target) (payload_text data target) (payload_agent_id data)) data,
          target, bound)"
  by (simp add: canonical_contract_def Let_def kind_handler_def make_payload_def)

lemma kind_handler_known: "kind_handler k \<in> set known_handler_keys"
  by (simp add: kind_handler_def known_handler_keys_def)

lemma make_payload_no_ext:
  "\<forall>k \<in> set persisted_extension_keys. dget (make_payload kind txt a) k = PyNone"
  by (simp add: make_payload_def make_payload_defs persisted_extension_keys_def)

lemma canonical_payload_fields:
  assumes "kind \<in> set valid_payload_kinds" and "a \<noteq> []" and "py_strip a \<noteq> []"
    and p_def: "p = preserve_extensions (make_payload kind txt a) src"
  shows "payload_kind p t = kind" "payload_text p t = txt" "payload_agent_id p = a"
proof -
  have core: "dget p k = dget (make_payload kind txt a) k"
     "dget_or p k x = dget_or (make_payload kind txt a) k x"
    if "k \<in> {''kind'', ''text'', ''task'', ''agent_id''}" for k x
    using that unfolding p_def by (auto simp: dget_core persisted_extension_keys_def)
  have kind: "dget (make_payload kind txt a) ''kind'' = PyStr kind"
    using assms(1) by (auto simp: make_payload_def make_payload_defs contract_consts)
  show k: "payload_kind p t = kind"
    using assms(1) kind by (simp add: payload_kind_def core Let_def)
  show "payload_text p t = txt"
    using assms(1)
    by (auto simp: payload_text_def k core make_payload_def make_payload_defs contract_consts py_or_def)
  have "dget_or (make_payload kind txt a) ''agent_id'' (PyStr ''main'') = PyStr a"
    using assms(2) by (auto simp: make_payload_def make_payload_defs or_main_def)
  then show "payload_agent_id p = a" using assms(3) by (simp add: payload_agent_id_def core)
qed

text \<open>Normalising a normalised contract changes nothing, for every payload, handler, session
  target and binding, also when the first normalisation was the strict one.\<close>

lemma normalize_contract_again:
  assumes "normalize_contract strict h p t s origin = Inr (h', p', t', s')"
  shows "normalize_contract False h' p' t' s' origin = Inr (h', p', t', s')"
proof (cases "\<exists>v. kind_outside (dget p ''kind'') = Inr True \<and> h \<notin> set known_handler_keys")
  case True
  then show ?thesis using assms
    by (auto simp: normalize_contract_def Let_def bind_session_def split: if_splits)
next
  case False
  then have canon: "canonical_contract strict p t (bind_session t s origin) = Inr (h', p', t', s')"
    using assms by (auto simp: normalize_contract_def Let_def split: if_splits)
  define kd tx ag where "kd = payload_kind p t" and "tx = payload_text p t" and "ag = payload_agent_id p"
  have c: "h' = kind_handler kd" "t' = t" "s' = bind_session t s origin"
      "p' = preserve_extensions (make_payload kd tx ag) p"
    using canonical_contract_Inr [OF canon] by (simp_all add: kd_def tx_def ag_def)
  have f: "payload_kind p' t = kd" "payload_text p' t = tx" "payload_agent_id p' = ag"
    using canonical_payload_fields [OF _ _ _ c(4)] payload_kind_valid [of p t]
    by (simp_all add: kd_def ag_def)
  have "bind_session t s' origin = s'" by (simp add: c(3) bind_session_def)
  moreover have "preserve_extensions (make_payload kd tx ag) p' = p'"
    unfolding c(4) by (rule preserve_again [OF make_payload_no_ext])
  ultimately show ?thesis
    unfolding normalize_contract_def Let_def canonical_contract_lax c(1,2) f
    by (simp add: kind_handler_known)
qed

lemma strict_contract_facts:
  assumes "normalize_contract True h p t s origin = Inr (h', p', t', s')"
    and "h \<in> set known_handler_keys"
  shows "t' = t \<and> h' \<in> set known_handler_keys \<and> py_strip (payload_text p' t) \<noteq> [] \<and>
    py_strip (payload_agent_id p') \<noteq> [] \<and>
    (t = MAIN \<longleftrightarrow> h' = ''system_event'') \<and>
    (t \<in> {CURRENT, SESSION} \<longrightarrow> s' \<noteq> [])"
proof -
  have canon: "canonical_contract True p t (bind_session t s origin) = Inr (h', p', t', s')"
    using assms by (auto simp: normalize_contract_def Let_def split: if_splits)
  note c = canonical_contract_Inr [OF canon]
  have f: "payload_text p' t = payload_text p t" "payload_agent_id p' = payload_agent_id p"
    by (rule canonical_payload_fields [OF payload_kind_valid payload_agent_id_nonblank(2,1)], use c in blast)+
  have kinds: "payload_kind p t = reminder_kind \<or> payload_kind p t = system_event_kind \<or>
      payload_kind p t = agent_turn_kind"
    using payload_kind_valid [of p t] by (auto simp: valid_payload_kinds_def)
  have "py_strip (payload_text p t) \<noteq> []"
    using canon by (auto simp: canonical_contract_def Let_def split: if_splits)
  moreover have "(t = MAIN \<longleftrightarrow> h' = ''system_event'') \<and> (needs_session t \<longrightarrow> s' \<noteq> [])"
    using kinds
    by (elim disjE; use canon in \<open>auto simp: canonical_contract_def Let_def reminder_kind_def
        system_event_kind_def agent_turn_kind_def needs_session_def split: if_splits\<close>)
  ultimately show ?thesis using c f kind_handler_known by (auto simp: needs_session_def)
qed

theorem strict_contract_runnable:
  assumes "normalize_contract True h p t s origin = Inr (h', p', t', s')"
    and "h \<in> set known_handler_keys"
  shows "t' = t \<and> h' \<in> set known_handler_keys \<and> py_strip (payload_text p' t) \<noteq> [] \<and>
    py_strip (payload_agent_id p') \<noteq> [] \<and>
    (t = MAIN \<longleftrightarrow> h' = ''system_event'') \<and>
    (t \<in> {CURRENT, SESSION} \<longrightarrow> s' \<noteq> [])"
  using strict_contract_facts [OF assms] .

lemma strict_contract_runnable_witness:
  "\<exists>p'. normalize_contract True ''agent_run'' [(''task'', PyStr ''x'')] CURRENT [] ''agent:main:main'' =
          Inr (''agent_run'', p', CURRENT, ''agent:main:main'') \<and> payload_text p' CURRENT = ''x''"
proof -
  define p' where "p' = [(''kind'', PyStr ''agent_turn''), (''task'', PyStr ''x''), (''agent_id'', PyStr ''main'')]"
  have run: "normalize_contract True ''agent_run'' [(''task'', PyStr ''x'')] CURRENT [] ''agent:main:main''
      = Inr (''agent_run'', p', CURRENT, ''agent:main:main'')"
    unfolding p'_def by code_simp
  have "''agent_run'' \<in> set known_handler_keys" by (simp add: known_handler_keys_def)
  with strict_contract_runnable [OF run] have "py_strip (payload_text p' CURRENT) \<noteq> []" by blast
  moreover have "payload_text p' CURRENT = ''x''" unfolding p'_def by code_simp
  ultimately show ?thesis using run by blast
qed

end
