(* ===== verification/Sched_Jobs.thy ===== *)
theory Sched_Jobs
  imports Sched_Cron
begin

text \<open>
  Execution outcomes and what they do to a job, \<open>scheduler/jobs.py\<close>: the classification of error
  texts, the backoff table, the next run of a schedule and the state machine applied after a run.
  Handlers are code of other packages: what a handler did is a \<open>handler_outcome\<close>. The clock and
  fresh identifiers are arguments.
\<close>

section \<open>Error classification\<close>

datatype error_class = Transient | Permanent

definition transient_error_patterns :: "string list" where
  "transient_error_patterns =
     [''rate limit'', ''too many requests'', ''resource exhausted'', ''429'', ''529'', ''overload'',
      ''timeout'', ''timed out'', ''econnreset'', ''fetch failed'', ''socket'', ''network'',
      ''service unavailable'', ''bad gateway'', ''gateway timeout'', ''502'', ''503'', ''504'',
      ''cloudflare'']"

definition permanent_error_patterns :: "string list" where
  "permanent_error_patterns =
     [''unauthorized'', ''invalid api key'', ''invalid_api_key'', ''forbidden'', ''401'', ''403'',
      ''validation'', ''invalid request'', ''no handler registered'']"

definition error_rows :: "(string \<times> error_class) list" where
  "error_rows = map (\<lambda>p. (p, Permanent)) permanent_error_patterns @
                map (\<lambda>p. (p, Transient)) transient_error_patterns"

definition classify_error :: "string option \<Rightarrow> error_class" where
  "classify_error error_text =
     (case error_text of
        None \<Rightarrow> Transient
      | Some t \<Rightarrow>
          if t = [] then Transient
          else first_match (\<lambda>row s. contains (fst row) s) snd Transient error_rows (py_lower t))"

interpretation error_table: row_table "\<lambda>row s. contains (fst row) s" snd Transient
    "first_match (\<lambda>row s. contains (fst row) s) snd Transient"
  by unfold_locales simp_all

section \<open>Backoff\<close>

definition backoff_schedule :: "int list" where
  "backoff_schedule = [30, 60, 300, 900, 3600]"

definition max_consecutive_errors :: int where "max_consecutive_errors = 5"
definition one_shot_max_retries :: int where "one_shot_max_retries = 3"

definition compute_backoff :: "int \<Rightarrow> int" where
  "compute_backoff consecutive_errors =
     (if consecutive_errors \<le> 0 then 0
      else backoff_schedule !
             nat (min (consecutive_errors - 1) (int (length backoff_schedule) - 1)) * sec)"

section \<open>Running a handler\<close>

datatype handler_outcome =
    H_Result handler_result
  | H_Tuple pyval "string option" "string option list"
  | H_Text string
  | H_Other
  | H_Timeout
  | H_Raise string

text \<open>\<open>repr\<close> of a duration in seconds, for durations of at least 100 microseconds and below
  \<open>10^16\<close> seconds, where it is the plain decimal.\<close>

fun pad_digits :: "nat \<Rightarrow> nat \<Rightarrow> string" where
  "pad_digits 0 n = []"
| "pad_digits (Suc k) n = pad_digits k (n div 10) @ [digit_char (n mod 10)]"

definition frac_digits :: "nat \<Rightarrow> string" where
  "frac_digits us =
     (let ds = rev (dropWhile (\<lambda>c. c = CHR ''0'') (rev (pad_digits 6 us)))
      in if ds = [] then ''0'' else ds)"

definition secs_repr :: "int \<Rightarrow> string" where
  "secs_repr us =
     (if us < 0 then ''-'' else []) @ int_str (\<bar>us\<bar> div sec) @ ''.'' @
     frac_digits (nat (\<bar>us\<bar> mod sec))"

definition cut500 :: "string \<Rightarrow> string" where
  "cut500 s = take 500 s"

definition or_blank :: "string option \<Rightarrow> string" where
  "or_blank s = (case s of None \<Rightarrow> [] | Some v \<Rightarrow> v)"

definition blank_execution :: "string \<Rightarrow> cron_job \<Rightarrow> instant \<Rightarrow> instant \<Rightarrow> job_execution" where
  "blank_execution eid job started finished =
     \<lparr>je_id = eid, je_job_id = j_id job, je_started_at = started, je_finished_at = Some finished,
      je_success = False, je_error = None, je_summary = None, je_session_key = [],
      je_delivery_status = []\<rparr>"

definition outcome_execution :: "cron_job \<Rightarrow> handler_outcome \<Rightarrow> job_execution \<Rightarrow> job_execution" where
  "outcome_execution job outcome e =
     (case outcome of
        H_Result r \<Rightarrow>
          e\<lparr>je_success := True,
            je_summary := (case hr_summary r of None \<Rightarrow> None
                           | Some s \<Rightarrow> if s = [] then None else Some (cut500 s)),
            je_session_key := hr_session_key r, je_delivery_status := hr_delivery_status r\<rparr>
      | H_Tuple r0 r1 rest \<Rightarrow>
          e\<lparr>je_success := True, je_summary := map_option cut500 (as_str r0),
            je_session_key := or_blank r1,
            je_delivery_status := (case rest of [] \<Rightarrow> je_delivery_status e | d # _ \<Rightarrow> or_blank d)\<rparr>
      | H_Text s \<Rightarrow> e\<lparr>je_success := True, je_summary := Some (cut500 s)\<rparr>
      | H_Other \<Rightarrow> e\<lparr>je_success := True, je_summary := None\<rparr>
      | H_Timeout \<Rightarrow>
          e\<lparr>je_success := False,
            je_error := Some (''Timeout after '' @ secs_repr (j_timeout_seconds job) @ ''s'')\<rparr>
      | H_Raise msg \<Rightarrow> e\<lparr>je_success := False, je_error := Some msg\<rparr>)"

text \<open>The record of the run, and the failure alert it dispatches when there is a dispatcher.\<close>

definition execute_with_timeout ::
  "bool \<Rightarrow> string \<Rightarrow> cron_job \<Rightarrow> handler_outcome \<Rightarrow> instant \<Rightarrow> instant \<Rightarrow>
   job_execution \<times> string option" where
  "execute_with_timeout dispatcher eid job outcome started finished =
     (let e = outcome_execution job outcome (blank_execution eid job started finished)
      in (e, if \<not> je_success e \<and> d_failure_destination (j_delivery job) \<noteq> None \<and> dispatcher
             then Some (or_blank (je_error e)) else None))"

section \<open>The next run of a schedule\<close>

definition floor_minute :: "instant \<Rightarrow> instant" where
  "floor_minute t = t - t mod minute"

definition wall_clock :: "(instant \<Rightarrow> int) option \<Rightarrow> instant \<Rightarrow> civil" where
  "wall_clock tz t = civil_of (case tz of None \<Rightarrow> t | Some offset \<Rightarrow> t + offset t)"

definition scan_minutes :: nat where
  "scan_minutes = 2102400"

fun scan_from :: "cron_expression \<Rightarrow> (instant \<Rightarrow> int) option \<Rightarrow> nat \<Rightarrow> instant \<Rightarrow> instant option" where
  "scan_from expr tz n candidate =
     (if n = 0 then None
      else if expr_matches expr (wall_clock tz candidate) then Some candidate
      else scan_from expr tz (n - 1) (candidate + minute))"

declare scan_from.simps [simp del]

definition lookup_zone :: "zone_db \<Rightarrow> string \<Rightarrow> sched_exc + (instant \<Rightarrow> int) option" where
  "lookup_zone zone tz_name =
     (if tz_name = [] then Inr None
      else case zone tz_name of None \<Rightarrow> Inl (ZoneInfoNotFoundError tz_name) | Some z \<Rightarrow> Inr (Some z))"

definition next_cron :: "zone_db \<Rightarrow> cron_job \<Rightarrow> instant \<Rightarrow> sched_exc + instant" where
  "next_cron zone job after =
     rbind (parse_cron (j_cron_expr job)) (\<lambda>expr.
     rbind (lookup_zone zone (py_strip (j_tz job))) (\<lambda>tz.
       case scan_from expr tz scan_minutes (floor_minute after + minute) of
         None \<Rightarrow> Inl (ValueError (''No valid next run found for expression '' @ quoted (j_cron_expr job)))
       | Some candidate \<Rightarrow> Inr (candidate + j_jitter_seconds job)))"

definition next_every :: "cron_job \<Rightarrow> instant \<Rightarrow> sched_exc + instant" where
  "next_every job after =
     (case py_int (j_cron_expr job) of
        None \<Rightarrow> Inl (ValueError (''invalid literal for int() with base 10: '' @ str_repr (j_cron_expr job)))
      | Some interval \<Rightarrow>
          (case j_anchor_at job of
             None \<Rightarrow> Inr (after + interval * sec)
           | Some anchor \<Rightarrow>
               let elapsed = after - anchor in
               if elapsed < 0 then Inr anchor
               else if interval = 0 then Inl ZeroDivisionError
               else Inr (anchor + (elapsed div (interval * sec) + 1) * (interval * sec))))"

definition next_run :: "zone_db \<Rightarrow> cron_job \<Rightarrow> instant \<Rightarrow> sched_exc + instant" where
  "next_run zone job after =
     (if j_schedule_kind job = EVERY \<and> py_isdigit (j_cron_expr job) then next_every job after
      else next_cron zone job after)"

section \<open>The state machine after a run\<close>

definition mark_schedule_compute_failed :: "cron_job \<Rightarrow> sched_exc \<Rightarrow> instant \<Rightarrow> bool \<Rightarrow> cron_job" where
  "mark_schedule_compute_failed job exc now increment_error =
     clear_reservation
       (job\<lparr>j_error_count := j_error_count job + (if increment_error then 1 else 0),
            j_consecutive_errors := j_consecutive_errors job + (if increment_error then 1 else 0),
            j_status := FAILED,
            j_last_error := Some (''schedule compute failed: '' @ exc_str exc),
            j_updated_at := now, j_backoff_until := None, j_next_run_at := None\<rparr>)"

definition apply_success :: "zone_db \<Rightarrow> cron_job \<Rightarrow> instant \<Rightarrow> cron_job \<times> bool" where
  "apply_success zone job0 now =
     (let job = job0\<lparr>j_consecutive_errors := 0, j_backoff_until := None, j_last_error := None,
                     j_run_count := j_run_count job0 + 1, j_updated_at := now\<rparr>
      in if j_schedule_kind job = AT then
           let job = clear_reservation job in
           if j_delete_after_run job then (job, True)
           else (job\<lparr>j_status := DISABLED, j_enabled := False\<rparr>, False)
         else
           case next_run zone job now of
             Inr t \<Rightarrow> (clear_reservation (job\<lparr>j_next_run_at := Some t, j_status := PENDING\<rparr>), False)
           | Inl exc \<Rightarrow> (mark_schedule_compute_failed job exc now True, False))"

definition apply_failure :: "zone_db \<Rightarrow> cron_job \<Rightarrow> job_execution \<Rightarrow> instant \<Rightarrow> cron_job" where
  "apply_failure zone job0 execution now =
     (let job = job0\<lparr>j_consecutive_errors := j_consecutive_errors job0 + 1,
                     j_error_count := j_error_count job0 + 1, j_last_error := je_error execution,
                     j_run_count := j_run_count job0 + 1, j_updated_at := now\<rparr>
      in if classify_error (je_error execution) = Permanent then
           clear_reservation
             (job\<lparr>j_status := DISABLED, j_enabled := False, j_next_run_at := None, j_backoff_until := None\<rparr>)
         else if j_schedule_kind job = CRON \<or> j_schedule_kind job = EVERY then
           if j_consecutive_errors job \<ge> max_consecutive_errors then
             clear_reservation (job\<lparr>j_status := FAILED, j_next_run_at := None, j_backoff_until := None\<rparr>)
           else
             let backoff = compute_backoff (j_consecutive_errors job) in
             (case next_run zone job now of
                Inl exc \<Rightarrow> mark_schedule_compute_failed job exc now False
              | Inr t \<Rightarrow> clear_reservation
                  (job\<lparr>j_next_run_at := Some t, j_backoff_until := Some (now + backoff),
                       j_status := PENDING\<rparr>))
         else if j_consecutive_errors job \<ge> one_shot_max_retries then
           clear_reservation (job\<lparr>j_status := DISABLED, j_enabled := False\<rparr>)
         else
           clear_reservation
             (job\<lparr>j_backoff_until := Some (now + compute_backoff (j_consecutive_errors job)),
                  j_status := PENDING\<rparr>))"

text \<open>The updated job, and whether it is to be deleted.\<close>

definition apply_result_state ::
  "zone_db \<Rightarrow> cron_job \<Rightarrow> job_execution \<Rightarrow> instant \<Rightarrow> cron_job \<times> bool" where
  "apply_result_state zone job execution now =
     (if je_success execution then apply_success zone job now
      else (apply_failure zone job execution now, False))"

section \<open>Classification and backoff\<close>

lemma error_rows_permanent:
  "(\<exists>r \<in> set (map (\<lambda>p. (p, Permanent)) ps). contains (fst r) s) \<longleftrightarrow> (\<exists>p \<in> set ps. contains p s)"
  by auto

lemma first_match_const:
  "\<exists>p \<in> set ps. contains p s \<Longrightarrow>
   first_match (\<lambda>row s. contains (fst row) s) snd d (map (\<lambda>p. (p, c)) ps) s = c"
  by (induction ps) auto

lemma rows_permanent_iff:
  "first_match (\<lambda>row s. contains (fst row) s) snd Transient error_rows s = Permanent \<longleftrightarrow>
     (\<exists>p \<in> set permanent_error_patterns. contains p s)"
proof (cases "\<exists>p \<in> set permanent_error_patterns. contains p s")
  case True
  then show ?thesis
    unfolding error_rows_def error_table.classify_append error_rows_permanent
    by (simp add: first_match_const)
next
  case False
  then have "first_match (\<lambda>row s. contains (fst row) s) snd Transient error_rows s =
      first_match (\<lambda>row s. contains (fst row) s) snd Transient
        (map (\<lambda>p. (p, Transient)) transient_error_patterns) s"
    unfolding error_rows_def error_table.classify_append error_rows_permanent by simp
  then have "first_match (\<lambda>row s. contains (fst row) s) snd Transient error_rows s = Transient"
    using error_table.classify_cases [of "map (\<lambda>p. (p, Transient)) transient_error_patterns" s] by auto
  with False show ?thesis by simp
qed

lemma no_pattern_in_Nil: "p \<in> set permanent_error_patterns \<Longrightarrow> \<not> contains p []"
  by (auto simp: permanent_error_patterns_def)

lemma classify_permanent_iff:
  "classify_error err = Permanent \<longleftrightarrow>
     (\<exists>t. err = Some t \<and> (\<exists>p \<in> set permanent_error_patterns. contains p (py_lower t)))"
  using no_pattern_in_Nil
  by (auto simp: classify_error_def rows_permanent_iff split: option.splits)

lemma compute_backoff_values:
  "compute_backoff n = (if n \<le> 0 then 0 else if n = 1 then 30 * sec else if n = 2 then 60 * sec
     else if n = 3 then 300 * sec else if n = 4 then 900 * sec else 3600 * sec)"
proof -
  have "n \<le> 0 \<or> n = 1 \<or> n = 2 \<or> n = 3 \<or> n = 4 \<or> 5 \<le> n" by arith
  then show ?thesis
    by (elim disjE) (simp_all add: compute_backoff_def backoff_schedule_def min_def)
qed

lemma compute_backoff_mono: "m \<le> n \<Longrightarrow> compute_backoff m \<le> compute_backoff n"
  by (simp add: compute_backoff_values sec_def)

section \<open>The minute scan\<close>

lemma scan_from_0 [simp]: "scan_from e tz 0 c = None"
  by (simp add: scan_from.simps)

lemma scan_from_Suc [simp]:
  "scan_from e tz (Suc n) c =
     (if expr_matches e (wall_clock tz c) then Some c else scan_from e tz n (c + minute))"
  by (simp add: scan_from.simps [of e tz "Suc n"])

abbreviation hit_at :: "cron_expression \<Rightarrow> (instant \<Rightarrow> int) option \<Rightarrow> instant \<Rightarrow> bool" where
  "hit_at e tz t \<equiv> expr_matches e (wall_clock tz t)"

lemma scan_from_Some:
  "scan_from e tz n c = Some t \<Longrightarrow>
   \<exists>k < n. t = c + int k * minute \<and> hit_at e tz t \<and> (\<forall>j < k. \<not> hit_at e tz (c + int j * minute))"
proof (induction n arbitrary: c)
  case (Suc n)
  show ?case
  proof (cases "hit_at e tz c")
    case True
    with Suc.prems show ?thesis by (intro exI [of _ 0]) auto
  next
    case False
    with Suc.prems have "scan_from e tz n (c + minute) = Some t" by simp
    from Suc.IH [OF this] obtain k where k: "k < n" "t = c + minute + int k * minute" "hit_at e tz t"
      "\<forall>j < k. \<not> hit_at e tz (c + minute + int j * minute)" by auto
    have "\<not> hit_at e tz (c + int j * minute)" if "j < Suc k" for j
      using that False k(4) by (cases j) (auto simp: algebra_simps)
    with k show ?thesis by (intro exI [of _ "Suc k"]) (auto simp: algebra_simps)
  qed
qed simp

lemma scan_from_None_iff:
  "scan_from e tz n c = None \<longleftrightarrow> (\<forall>j < n. \<not> hit_at e tz (c + int j * minute))"
proof (induction n arbitrary: c)
  case (Suc n)
  have "(\<forall>j < Suc n. \<not> hit_at e tz (c + int j * minute)) \<longleftrightarrow>
      \<not> hit_at e tz c \<and> (\<forall>j < n. \<not> hit_at e tz (c + minute + int j * minute))"
    by (auto simp: less_Suc_eq_0_disj algebra_simps)
  with Suc.IH show ?case by auto
qed simp

lemma floor_minute_bounds: "floor_minute t \<le> t" "t < floor_minute t + minute" "minute dvd floor_minute t"
  using pos_mod_sign [of minute t] pos_mod_bound [of minute t]
  by (simp_all add: floor_minute_def)

text \<open>Every whole minute after \<open>t\<close> is one of the candidates of the scan.\<close>

lemma aligned_after:
  assumes "minute dvd u" and "t < u"
  shows "\<exists>j. u = floor_minute t + minute + int j * minute"
proof -
  obtain a where a: "u = minute * a" using assms(1) by blast
  obtain b where b: "floor_minute t = minute * b" using floor_minute_bounds(3) by blast
  have "floor_minute t < u" using floor_minute_bounds(1) [of t] assms(2) by linarith
  then have "b < a" using a b by simp
  then have "u = floor_minute t + minute + int (nat (a - b - 1)) * minute"
    using a b by (simp add: algebra_simps)
  then show ?thesis by blast
qed

text \<open>What the scan returns: the first matching whole minute after \<open>t\<close>.\<close>

definition first_hit :: "cron_expression \<Rightarrow> (instant \<Rightarrow> int) option \<Rightarrow> instant \<Rightarrow> instant \<Rightarrow> bool" where
  "first_hit e tz t u \<longleftrightarrow> minute dvd u \<and> t < u \<and> hit_at e tz u \<and>
     (\<forall>v. minute dvd v \<and> t < v \<and> v < u \<longrightarrow> \<not> hit_at e tz v)"

lemma scan_first_hit:
  assumes "scan_from e tz n (floor_minute t + minute) = Some u"
  shows "first_hit e tz t u \<and> u \<le> floor_minute t + int n * minute"
proof -
  obtain k where k: "k < n" "u = floor_minute t + minute + int k * minute" "hit_at e tz u"
    "\<forall>j < k. \<not> hit_at e tz (floor_minute t + minute + int j * minute)"
    using scan_from_Some [OF assms] by auto
  have "\<not> hit_at e tz v" if v: "minute dvd v" "t < v" "v < u" for v
  proof -
    obtain j where j: "v = floor_minute t + minute + int j * minute" using aligned_after [OF v(1,2)] by auto
    then have "int j * minute < int k * minute" using v(3) k(2) by simp
    then have "j < k" by simp
    with k(4) j show ?thesis by simp
  qed
  moreover have "minute dvd u" using k(2) floor_minute_bounds(3) by simp
  moreover have "0 \<le> int k * minute" by (simp add: minute_eq)
  then have "t < u" using k(2) floor_minute_bounds(2) [of t] by linarith
  moreover have "int (Suc k) * minute \<le> int n * minute" using k(1) minute_pos by (intro mult_right_mono) (simp_all add: less_imp_le del: minute_pos)
  ultimately show ?thesis using k by (simp add: first_hit_def algebra_simps)
qed

lemma scan_exhausted:
  assumes "scan_from e tz n (floor_minute t + minute) = None"
    and "minute dvd v" and "t < v" and "v \<le> floor_minute t + int n * minute"
  shows "\<not> hit_at e tz v"
proof -
  obtain j where j: "v = floor_minute t + minute + int j * minute" using aligned_after [OF assms(2,3)] by auto
  then have "int (Suc j) * minute \<le> int n * minute" using assms(4) by (simp add: algebra_simps)
  then have "j < n" by simp
  with assms(1) j show ?thesis by (simp add: scan_from_None_iff)
qed

section \<open>The interval grid\<close>

lemma grid_next:
  fixes elapsed w :: int
  assumes "0 < w" and "0 \<le> elapsed"
  shows "elapsed < (elapsed div w + 1) * w" "(elapsed div w + 1) * w \<le> elapsed + w"
proof -
  have "elapsed div w * w + elapsed mod w = elapsed" by simp
  moreover have "0 \<le> elapsed mod w" "elapsed mod w < w" using assms by simp_all
  ultimately show "elapsed < (elapsed div w + 1) * w" "(elapsed div w + 1) * w \<le> elapsed + w"
    unfolding distrib_right mult_1 by linarith+
qed


section \<open>Correctness of the next run\<close>

lemma next_cron_cases:
  assumes "parse_cron (j_cron_expr job) = Inr e"
    and "lookup_zone zone (py_strip (j_tz job)) = Inr tz"
  shows "(\<exists>u. next_cron zone job after = Inr (u + j_jitter_seconds job) \<and> first_hit e tz after u \<and>
            u \<le> floor_minute after + int scan_minutes * minute) \<or>
         (\<not> is_ok (next_cron zone job after) \<and>
            (\<forall>v. minute dvd v \<and> after < v \<and> v \<le> floor_minute after + int scan_minutes * minute
               \<longrightarrow> \<not> hit_at e tz v))"
proof (cases "scan_from e tz scan_minutes (floor_minute after + minute)")
  case None
  then have "\<not> is_ok (next_cron zone job after)" using assms by (simp add: next_cron_def)
  then show ?thesis using scan_exhausted [OF None] by blast
next
  case (Some u)
  then have "next_cron zone job after = Inr (u + j_jitter_seconds job)"
    using assms by (simp add: next_cron_def)
  then show ?thesis using scan_first_hit [OF Some] by blast
qed

lemma next_cron_after:
  assumes "next_cron zone job after = Inr t" and "0 \<le> j_jitter_seconds job"
  shows "after < t"
proof -
  obtain e tz where p: "parse_cron (j_cron_expr job) = Inr e"
      "lookup_zone zone (py_strip (j_tz job)) = Inr tz"
    using assms(1) by (auto simp: next_cron_def)
  obtain u where "t = u + j_jitter_seconds job" "first_hit e tz after u"
    using next_cron_cases [OF p, of after] assms(1) by auto
  then show ?thesis using assms(2) by (simp add: first_hit_def)
qed

lemma next_every_after:
  assumes "next_every job after = Inr t" and "py_int (j_cron_expr job) = Some w" and "1 \<le> w"
  shows "after < t"
proof -
  have "0 < w * sec" using assms(3) by (simp add: sec_def)
  then show ?thesis
    using assms grid_next(1) [of "w * sec" "after - the (j_anchor_at job)"]
    by (auto simp: next_every_def Let_def split: option.splits if_splits)
qed

text \<open>A schedule that \<open>SchedulerOps\<close> accepts: positive intervals and no negative jitter.\<close>

definition schedule_sound :: "cron_job \<Rightarrow> bool" where
  "schedule_sound job \<longleftrightarrow> 0 \<le> j_jitter_seconds job \<and>
     (\<forall>w. j_schedule_kind job = EVERY \<and> py_int (j_cron_expr job) = Some w \<longrightarrow> 1 \<le> w)"

lemma next_run_after:
  assumes "next_run zone job after = Inr t" and "schedule_sound job"
  shows "after < t"
proof (cases "j_schedule_kind job = EVERY \<and> py_isdigit (j_cron_expr job)")
  case True
  with assms obtain w where "py_int (j_cron_expr job) = Some w" "1 \<le> w" "next_every job after = Inr t"
    by (auto simp: next_run_def next_every_def schedule_sound_def split: option.splits)
  then show ?thesis using next_every_after by blast
next
  case False
  then have "next_cron zone job after = Inr t" using assms(1) by (auto simp: next_run_def)
  then show ?thesis using next_cron_after assms(2) by (auto simp: schedule_sound_def)
qed

text \<open>C18: The next run of a cron job is its jitter after the first whole minute strictly later than
  the reference time whose wall-clock time in the job's zone matches the expression; when the
  computation fails, no whole minute of the following 2102400 matches.\<close>

theorem next_run_cron_first_match:
  assumes "j_schedule_kind job = CRON" and "parse_cron (j_cron_expr job) = Inr e"
    and "lookup_zone zone (py_strip (j_tz job)) = Inr tz"
  shows "(\<exists>u. next_run zone job after = Inr (u + j_jitter_seconds job) \<and> minute dvd u \<and> after < u \<and>
            expr_matches e (wall_clock tz u) \<and>
            (\<forall>v. minute dvd v \<and> after < v \<and> v < u \<longrightarrow> \<not> expr_matches e (wall_clock tz v))) \<or>
         (\<not> is_ok (next_run zone job after) \<and>
            (\<forall>v. minute dvd v \<and> after < v \<and> v \<le> floor_minute after + 2102400 * minute
               \<longrightarrow> \<not> expr_matches e (wall_clock tz v)))"
  using next_cron_cases [OF assms(2,3), of after] assms(1)
  by (auto simp: next_run_def first_hit_def scan_minutes_def)

theorem next_run_every_grid:
  assumes "j_schedule_kind job = EVERY" and "j_cron_expr job = int_str w" and "1 \<le> w"
    and "j_anchor_at job = Some anchor"
  shows "\<exists>k :: nat. next_run zone job after = Inr (anchor + int k * (w * sec)) \<and>
    after < anchor + int k * (w * sec) \<and>
    (\<forall>m :: nat. after < anchor + int m * (w * sec) \<longrightarrow> k \<le> m)"
proof -
  have w: "0 < w * sec" using assms(3) by (simp add: sec_def)
  have every: "next_run zone job after = next_every job after" "py_int (j_cron_expr job) = Some w"
    using assms by (simp_all add: next_run_def int_str_nonneg py_int_nat_str)
  show ?thesis
  proof (cases "after < anchor")
    case True
    then show ?thesis using every assms by (intro exI [of _ 0]) (simp add: next_every_def)
  next
    case False
    define k where "k = nat ((after - anchor) div (w * sec) + 1)"
    have k: "int k = (after - anchor) div (w * sec) + 1"
      using False w by (simp add: k_def pos_imp_zdiv_nonneg_iff)
    have b: "after - anchor < int k * (w * sec)" "int k * (w * sec) \<le> after - anchor + w * sec"
      using grid_next [OF w, of "after - anchor"] False by (simp_all add: k)
    have "next_run zone job after = Inr (anchor + int k * (w * sec))"
      using every assms False by (simp add: next_every_def k)
    moreover have "k \<le> m" if "after < anchor + int m * (w * sec)" for m
    proof -
      have "int k * (w * sec) < (int m + 1) * (w * sec)" using b(2) that by (simp add: distrib_right)
      then have "int k < int m + 1" using w by (simp add: mult_less_cancel_right)
      then show ?thesis by simp
    qed
    ultimately show ?thesis using b(1) by auto
  qed
qed

section \<open>The life of a job\<close>

definition retry_budget :: "schedule_kind \<Rightarrow> int" where
  "retry_budget k = (if k = AT then one_shot_max_retries else max_consecutive_errors)"

lemma mark_failed_simps [simp]:
  "j_status (mark_schedule_compute_failed j e now b) = FAILED"
  "j_reservation_token (mark_schedule_compute_failed j e now b) = []"
  "j_next_run_at (mark_schedule_compute_failed j e now b) = None"
  "j_backoff_until (mark_schedule_compute_failed j e now b) = None"
  "j_run_count (mark_schedule_compute_failed j e now b) = j_run_count j"
  "j_id (mark_schedule_compute_failed j e now b) = j_id j"
  "j_idempotency_key (mark_schedule_compute_failed j e now b) = j_idempotency_key j"
  "j_schedule_kind (mark_schedule_compute_failed j e now b) = j_schedule_kind j"
  by (simp_all add: mark_schedule_compute_failed_def)

lemmas apply_defs = apply_result_state_def apply_success_def apply_failure_def

lemma next_run_update_counters [simp]:
  "next_run zone (job\<lparr>j_consecutive_errors := a, j_backoff_until := b, j_last_error := c,
     j_run_count := d, j_updated_at := e\<rparr>) now = next_run zone job now"
  "next_run zone (job\<lparr>j_consecutive_errors := a, j_error_count := f, j_last_error := c,
     j_run_count := d, j_updated_at := e\<rparr>) now = next_run zone job now"
  by (simp_all add: next_run_def next_every_def next_cron_def cong: option.case_cong)

lemma apply_result_frees:
  "apply_result_state zone job exe now = (job', del) \<Longrightarrow>
   j_reservation_token job' = [] \<and> j_id job' = j_id job \<and> j_idempotency_key job' = j_idempotency_key job \<and>
   j_run_count job' = j_run_count job + 1 \<and> j_schedule_kind job' = j_schedule_kind job"
  by (auto simp: apply_defs Let_def split: if_splits sum.splits)

lemma apply_success_deletes:
  "apply_result_state zone job exe now = (job', del) \<Longrightarrow>
   del \<longleftrightarrow> je_success exe \<and> j_schedule_kind job = AT \<and> j_delete_after_run job"
  by (auto simp: apply_defs Let_def clear_reservation_def split: if_splits sum.splits)

lemma apply_result_pending_iff:
  assumes "apply_result_state zone job exe now = (job', False)"
  shows "j_status job' = PENDING \<longleftrightarrow>
    (j_schedule_kind job \<noteq> AT \<longrightarrow> is_ok (next_run zone job now)) \<and>
    (if je_success exe then j_schedule_kind job \<noteq> AT
     else classify_error (je_error exe) = Transient \<and>
          j_consecutive_errors job + 1 < retry_budget (j_schedule_kind job))"
proof (cases "je_success exe")
  case True
  then show ?thesis using assms
    by (cases "next_run zone job now") (auto simp: apply_defs Let_def split: if_splits)
next
  case False
  have "classify_error (je_error exe) = Permanent \<or> classify_error (je_error exe) = Transient"
    by (cases "classify_error (je_error exe)") auto
  with False show ?thesis using assms
    by (cases "next_run zone job now"; cases "j_schedule_kind job")
      (auto simp: apply_defs Let_def retry_budget_def split: if_splits)
qed

section \<open>Leap days\<close>

lemma month_day_feb29: "month_day leap n = (2, 29) \<Longrightarrow> 0 \<le> n \<Longrightarrow> n < 366 \<Longrightarrow> n = 59"
proof -
  assume md: "month_day leap n = (2, 29)" and n: "0 \<le> n" "n < 366"
  define k where "k = (n + 50) div 32"
  have k: "32 * k \<le> n + 50" "n + 50 < 32 * k + 32" unfolding k_def by linarith+
  have "k = 2 \<or> k = 3"
    using md by (auto simp: month_day_def Let_def k_def [symmetric] split: if_splits)
  then show ?thesis
    using md n k
    by (auto simp: month_day_def Let_def k_def [symmetric] days_before_month_def days_in_month_def
        split: if_splits)
qed

lemma feb29_residue:
  assumes "ord2ymd o' = (y, 2, 29)"
  shows "((((o' - 1) mod 146097) mod 36524) mod 1461) = 1154"
proof -
  define r where "r = (((o' - 1) mod 146097) mod 36524) mod 1461"
  have r: "0 \<le> r" "r < 1461" by (simp_all add: r_def)
  obtain leap where md: "r div 365 \<noteq> 4" "month_day leap (r mod 365) = (2, 29)"
      and leap: "leap \<longleftrightarrow> r div 365 = 3 \<and> leap"
    using assms by (auto simp: ord2ymd_def Let_def r_def [symmetric] split: if_splits)
  have "r mod 365 = 59" by (rule month_day_feb29 [OF md(2)]) (auto simp: pos_mod_bound order_less_trans [OF pos_mod_bound])
  moreover have leap
    using md(2) \<open>r mod 365 = 59\<close> by (cases leap) (simp_all add: month_day_def Let_def days_before_month_def days_in_month_def)
  ultimately show ?thesis
    using leap div_mult_mod_eq [of r 365] by (simp add: r_def [symmetric])
qed

definition leap_day_2028 :: int where
  "leap_day_2028 = 21243"

lemma leap_day_2028_civil: "ord2ymd (epoch_ordinal + leap_day_2028) = (2028, 2, 29)"
  by code_simp

lemma not_feb29_after:
  assumes "0 < j" and "j \<le> 1460"
  shows "ord2ymd (epoch_ordinal + leap_day_2028 + j) \<noteq> (y, 2, 29)"
proof
  assume "ord2ymd (epoch_ordinal + leap_day_2028 + j) = (y, 2, 29)"
  from feb29_residue [OF this] have "(740405 + j) mod 146097 mod 36524 mod 1461 = 1154"
    by (simp add: epoch_ordinal_def leap_day_2028_def algebra_simps)
  moreover have "(740405 + j) mod 146097 = 9920 + j"
    using assms mod_mult_self1 [of "9920 + j" 5 146097] by (simp add: algebra_simps)
  ultimately have r: "(9920 + j) mod 1461 = 1154" using assms by simp
  have "(9920 + j) mod 1461 = (1154 + j) mod 1461"
    using mod_mult_self1 [of "1154 + j" 6 1461] by (simp add: algebra_simps)
  moreover have "(1154 + j) mod 1461 = (if j < 307 then 1154 + j else j - 307)"
  proof (cases "j < 307")
    case False
    then show ?thesis using assms mod_mult_self1 [of "j - 307" 1 1461] by (simp add: algebra_simps)
  qed (use assms in simp)
  ultimately show False using r assms by (simp split: if_splits)
qed

definition leap_day_expr :: string where
  "leap_day_expr = ''0 0 29 2 *''"

lemma leap_day_parses:
  "\<exists>e. parse_cron leap_day_expr = Inr e \<and>
     (\<forall>dt. expr_matches e dt \<longrightarrow> c_minute dt = 0 \<and> c_hour dt = 0 \<and> c_day dt = 29 \<and> c_month dt = 2)"
proof -
  have m: "parse_parts F_MINUTE [] [''0''] = Inr [0]" "parse_parts F_HOUR [] [''0''] = Inr [0]"
    "parse_parts F_DOM [] [''29''] = Inr [29]" "parse_parts F_MONTH month_names [''2''] = Inr [2]"
    "is_ok (parse_parts F_DOW dow_names [''*''])"
    by code_simp+
  obtain dow where d: "parse_parts F_DOW dow_names [''*''] = Inr dow" using m(5) by (auto simp: is_ok_iff)
  have w: "py_words leap_day_expr = [''0'', ''0'', ''29'', ''2'', ''*'']"
    "py_strip leap_day_expr = leap_day_expr" "starts_with ''@'' leap_day_expr = False"
    "py_strip ''*'' = ''*''"
    by code_simp+
  have sp: "split_on (CHR '','') ''0'' = [''0'']" "split_on (CHR '','') ''29'' = [''29'']"
    "split_on (CHR '','') ''2'' = [''2'']" "split_on (CHR '','') ''*'' = [''*'']"
    by code_simp+
  show ?thesis
    using m(1-4) d unfolding parse_cron_def parse_field_def w sp
    by (auto simp: expr_matches_def field_matches_def Let_def w split: if_splits)
qed


lemma civil_of_fields:
  "(c_year (civil_of t), c_month (civil_of t), c_day (civil_of t)) = ord2ymd (epoch_ordinal + t div day_us)"
  "c_hour (civil_of t) = (t mod day_us) div minute div 60"
  "c_minute (civil_of t) = (t mod day_us) div minute mod 60"
  by (simp_all add: civil_of_def Let_def split: prod.splits)

lemma day_us_minutes: "day_us = 1440 * minute" "0 < day_us"
  by (simp_all add: day_us_def minute_eq)

lemma midnight_of:
  assumes "c_hour (civil_of t) = 0" and "c_minute (civil_of t) = 0" and "minute dvd t"
  shows "t = day_us * (t div day_us)"
proof -
  define m where "m = (t mod day_us) div minute"
  have "m div 60 = 0" "m mod 60 = 0" using assms(1,2) by (simp_all add: civil_of_fields m_def)
  then have "m = 0" using div_mult_mod_eq [of m 60] by linarith
  moreover have "minute dvd t mod day_us"
    using assms(3) by (simp add: dvd_mod_iff day_us_minutes(1))
  ultimately have "t mod day_us = 0" by (auto simp: m_def minute_eq)
  then show ?thesis using mult_div_mod_eq [of day_us t] by linarith
qed

text \<open>
  From any time on 29 February 2028, no midnight of a 29 February lies in the minutes scanned: the
  window is 1460 days and the next one is 1461 days away.
\<close>

lemma no_leap_day_in_window:
  assumes "leap_day_2028 * day_us \<le> now" and "now < (leap_day_2028 + 1) * day_us"
    and "minute dvd v" and "now < v" and "v \<le> floor_minute now + int scan_minutes * minute"
  shows "\<not> (c_minute (civil_of v) = 0 \<and> c_hour (civil_of v) = 0 \<and> c_day (civil_of v) = 29 \<and>
    c_month (civil_of v) = 2)"
proof
  assume m: "c_minute (civil_of v) = 0 \<and> c_hour (civil_of v) = 0 \<and> c_day (civil_of v) = 29 \<and>
    c_month (civil_of v) = 2"
  define j where "j = v div day_us - leap_day_2028"
  have v: "v = day_us * (leap_day_2028 + j)" using midnight_of [of v] m assms(3) by (simp add: j_def)
  have "int scan_minutes * minute = 1460 * day_us" by (simp add: scan_minutes_def day_us_minutes)
  then have le: "v \<le> now + 1460 * day_us" using assms(5) floor_minute_bounds(1) [of now] by linarith
  have "day_us * leap_day_2028 < day_us * (leap_day_2028 + j)"
    using assms(1,4) v by (simp only: mult.commute [of day_us])
  then have "0 < j" using day_us_minutes(2) by simp
  moreover have "day_us * (leap_day_2028 + j) < (leap_day_2028 + 1461) * day_us"
    using le assms(2) v by (simp add: distrib_right)
  then have "j \<le> 1460"
    using day_us_minutes(2) by (simp only: mult.commute [of _ day_us] mult_less_cancel_left_pos)
  ultimately have "ord2ymd (epoch_ordinal + leap_day_2028 + j) \<noteq> (c_year (civil_of v), 2, 29)"
    by (rule not_feb29_after)
  then show False using m civil_of_fields(1) [of v] by (simp add: j_def)
qed

lemma leap_day_no_next_run:
  assumes "leap_day_2028 * day_us \<le> now" and "now < (leap_day_2028 + 1) * day_us"
    and "j_schedule_kind job = CRON" and "j_cron_expr job = leap_day_expr" and "py_strip (j_tz job) = []"
  shows "next_run zone job now = Inl (ValueError (''No valid next run found for expression '' @ quoted leap_day_expr))"
proof -
  obtain e where e: "parse_cron leap_day_expr = Inr e"
    "\<And>dt. expr_matches e dt \<Longrightarrow> c_minute dt = 0 \<and> c_hour dt = 0 \<and> c_day dt = 29 \<and> c_month dt = 2"
    using leap_day_parses by auto
  have "scan_from e None scan_minutes (floor_minute now + minute) = None"
  proof (rule ccontr)
    assume "scan_from e None scan_minutes (floor_minute now + minute) \<noteq> None"
    then obtain u where u: "scan_from e None scan_minutes (floor_minute now + minute) = Some u" by auto
    have "first_hit e None now u \<and> u \<le> floor_minute now + int scan_minutes * minute"
      by (rule scan_first_hit [OF u])
    then show False
      using no_leap_day_in_window [OF assms(1,2), of u] e(2) by (simp add: first_hit_def wall_clock_def)
  qed
  then show ?thesis using assms(3,4,5) e(1) by (simp add: next_run_def next_cron_def lookup_zone_def)
qed

theorem leap_day_job_fails_after_success:
  assumes "leap_day_2028 * day_us \<le> now" and "now < (leap_day_2028 + 1) * day_us"
    and "j_schedule_kind job = CRON" and "j_cron_expr job = ''0 0 29 2 *''" and "j_tz job = []"
    and "je_success exe"
  shows "\<exists>job'. apply_result_state zone job exe now = (job', False) \<and> j_status job' = FAILED \<and>
    j_next_run_at job' = None \<and> j_error_count job' = j_error_count job + 1"
proof -
  have "next_run zone job now = Inl (ValueError (''No valid next run found for expression '' @ quoted leap_day_expr))"
    using leap_day_no_next_run [OF assms(1,2,3)] assms(4,5) by (simp add: leap_day_expr_def)
  then show ?thesis using assms(3,6)
    by (simp add: apply_result_state_def apply_success_def Let_def)
      (simp add: mark_schedule_compute_failed_def clear_reservation_def)
qed

lemma leap_day_job_fails_after_success_witness:
  "\<exists>job exe now job'. j_status job = RUNNING \<and> je_success exe \<and>
     apply_result_state (\<lambda>_. None) job exe now = (job', False) \<and> j_status job' = FAILED"
proof -
  define now where "now = leap_day_2028 * day_us + 3"
  define job where "job = (default_job ''j'' 0)\<lparr>j_cron_expr := ''0 0 29 2 *'', j_status := RUNNING\<rparr>"
  define exe where "exe = (blank_execution ''e'' job 0 0)\<lparr>je_success := True\<rparr>"
  have "leap_day_2028 * day_us \<le> now" "now < (leap_day_2028 + 1) * day_us"
    by (simp_all add: now_def day_us_def minute_eq leap_day_2028_def)
  moreover have "j_schedule_kind job = CRON" "j_cron_expr job = ''0 0 29 2 *''" "j_tz job = []"
    "je_success exe" "j_status job = RUNNING"
    by (simp_all add: job_def exe_def default_job_def)
  ultimately show ?thesis using leap_day_job_fails_after_success [of now job exe "\<lambda>_. None"] by blast
qed


section \<open>Outcomes\<close>

text \<open>C17: After a run the reservation is always cleared and the run counted; the job is deleted
  exactly for a successful one-shot job marked so; it stays PENDING exactly when its schedule
  still computes and either the run succeeded (recurring) or the error is transient and the
  retry budget of its kind is not spent; a PENDING recurring job has its next run strictly in
  the future.\<close>

theorem apply_result_lifecycle:
  assumes "apply_result_state zone job exe now = (job', del)"
  shows "j_reservation_token job' = [] \<and> j_run_count job' = j_run_count job + 1 \<and>
    (del \<longleftrightarrow> je_success exe \<and> j_schedule_kind job = AT \<and> j_delete_after_run job) \<and>
    (\<not> del \<longrightarrow>
       j_status job' \<in> {PENDING, FAILED, DISABLED} \<and>
       (j_status job' = PENDING \<longleftrightarrow>
          (j_schedule_kind job \<noteq> AT \<longrightarrow> is_ok (next_run zone job now)) \<and>
          (if je_success exe then j_schedule_kind job \<noteq> AT
           else classify_error (je_error exe) = Transient \<and>
                j_consecutive_errors job + 1 < retry_budget (j_schedule_kind job))) \<and>
       (schedule_sound job \<and> j_schedule_kind job \<noteq> AT \<and> j_status job' = PENDING \<longrightarrow>
          (\<exists>t. j_next_run_at job' = Some t \<and> now < t)))"
proof -
  have "j_status job' \<in> {PENDING, FAILED, DISABLED} \<and>
       (schedule_sound job \<and> j_schedule_kind job \<noteq> AT \<and> j_status job' = PENDING \<longrightarrow>
          (\<exists>t. j_next_run_at job' = Some t \<and> now < t))" if "\<not> del"
    using assms that next_run_after [of zone job now]
    by (cases "j_schedule_kind job")
      (auto simp: apply_result_state_def apply_success_def apply_failure_def Let_def
        split: if_splits sum.splits)
  moreover have "j_status job' = PENDING \<longleftrightarrow>
          (j_schedule_kind job \<noteq> AT \<longrightarrow> is_ok (next_run zone job now)) \<and>
          (if je_success exe then j_schedule_kind job \<noteq> AT
           else classify_error (je_error exe) = Transient \<and>
                j_consecutive_errors job + 1 < retry_budget (j_schedule_kind job))" if "\<not> del"
    using apply_result_pending_iff [of zone job exe now job'] assms that by simp
  ultimately show ?thesis
    using apply_result_frees [OF assms] apply_success_deletes [OF assms] by blast
qed

text \<open>Repeated failures of a recurring job, starting from a fresh or resumed one.\<close>

fun fail_runs :: "zone_db \<Rightarrow> cron_job \<Rightarrow> (job_execution \<times> instant) list \<Rightarrow> cron_job" where
  "fail_runs zone job [] = job"
| "fail_runs zone job ((exe, now) # runs) =
     (if j_status job = PENDING
      then fail_runs zone (apply_failure zone (job\<lparr>j_status := RUNNING\<rparr>) exe now) runs
      else job)"

lemma next_run_status [simp]: "next_run zone (job\<lparr>j_status := s\<rparr>) now = next_run zone job now"
  by (simp add: next_run_def next_every_def next_cron_def cong: option.case_cong)

lemma apply_failure_count:
  "j_status (apply_failure zone job exe now) = PENDING \<Longrightarrow>
   j_consecutive_errors (apply_failure zone job exe now) = j_consecutive_errors job + 1 \<and>
   j_schedule_kind (apply_failure zone job exe now) = j_schedule_kind job \<and>
   j_consecutive_errors job + 1 < retry_budget (j_schedule_kind job)"
  using apply_result_pending_iff [of zone job "exe\<lparr>je_success := False\<rparr>" now]
  by (cases "j_schedule_kind job")
    (auto simp: apply_failure_def Let_def retry_budget_def split: if_splits sum.splits)

lemma fail_runs_pending:
  "j_status (fail_runs zone job runs) = PENDING \<Longrightarrow>
   j_consecutive_errors job < retry_budget (j_schedule_kind job) \<Longrightarrow>
   j_consecutive_errors (fail_runs zone job runs) = j_consecutive_errors job + int (length runs) \<and>
   j_consecutive_errors job + int (length runs) < retry_budget (j_schedule_kind job)"
proof (induction runs arbitrary: job)
  case (Cons run runs)
  obtain exe now where run: "run = (exe, now)" by (cases run)
  define job' where "job' = apply_failure zone (job\<lparr>j_status := RUNNING\<rparr>) exe now"
  show ?case
  proof (cases "j_status job = PENDING")
    case True
    then have *: "j_status (fail_runs zone job' runs) = PENDING"
      using Cons.prems(1) by (simp add: run job'_def)
    then have "j_status job' = PENDING" by (cases runs) (auto split: if_splits prod.splits)
    from apply_failure_count [OF this [unfolded job'_def], folded job'_def]
    have "j_consecutive_errors job' = j_consecutive_errors job + 1"
      "j_schedule_kind job' = j_schedule_kind job"
      "j_consecutive_errors job' < retry_budget (j_schedule_kind job')" by simp_all
    with Cons.IH [OF *] True show ?thesis by (simp add: run job'_def)
  next
    case False
    with Cons.prems(1) show ?thesis by (simp add: run)
  qed
qed simp

theorem failing_job_stops:
  assumes "j_consecutive_errors job = 0"
    and "retry_budget (j_schedule_kind job) \<le> int (length runs)"
  shows "j_status (fail_runs zone job runs) \<noteq> PENDING"
proof
  assume "j_status (fail_runs zone job runs) = PENDING"
  from fail_runs_pending [OF this] show False
    using assms by (auto simp: retry_budget_def max_consecutive_errors_def one_shot_max_retries_def
        split: if_splits)
qed

theorem timeout_403_disables:
  assumes "403 * sec \<le> j_timeout_seconds job" and "j_timeout_seconds job < 404 * sec"
    and "execute_with_timeout dispatcher eid job H_Timeout started finished = (exe, alert)"
  shows "\<exists>job'. apply_result_state zone job exe now = (job', False) \<and> j_status job' = DISABLED \<and>
    \<not> j_enabled job'"
proof -
  have int_str_403: "int_str 403 = ''403''" by code_simp
  have "j_timeout_seconds job div sec = 403"
    using assms(1,2) by (simp add: sec_def)
  then have "secs_repr (j_timeout_seconds job) = ''403'' @ ''.'' @ frac_digits (nat (j_timeout_seconds job mod sec))"
    using assms(1) int_str_403 by (simp add: secs_repr_def sec_def)
  then have err: "je_error exe = Some (''Timeout after '' @ ''403'' @ ''.'' @
      frac_digits (nat (j_timeout_seconds job mod sec)) @ ''s'')" "\<not> je_success exe"
    using assms(3) by (auto simp: execute_with_timeout_def outcome_execution_def Let_def)
  have "py_lower ''403'' = ''403''" by code_simp
  then have "contains ''403'' (py_lower (the (je_error exe)))"
    unfolding err(1) option.sel py_lower_append by (metis containsI)
  then have "classify_error (je_error exe) = Permanent"
    using err(1) by (auto simp: classify_permanent_iff permanent_error_patterns_def)
  then show ?thesis using err(2)
    by (simp add: apply_result_state_def apply_failure_def Let_def clear_reservation_def)
qed

section \<open>Instances\<close>

lemma every_minute_parses: "is_ok (parse_cron ''* * * * *'')"
  by code_simp

lemma next_run_cron_first_match_witness:
  "\<exists>e. parse_cron ''* * * * *'' = Inr e \<and>
     ((\<exists>u. next_run (\<lambda>_. None) ((default_job ''j'' 0)\<lparr>j_cron_expr := ''* * * * *''\<rparr>) 7 = Inr u \<and> 7 < u) \<or>
      (\<forall>v. minute dvd v \<and> 7 < v \<and> v \<le> floor_minute 7 + 2102400 * minute
         \<longrightarrow> \<not> expr_matches e (wall_clock None v)))"
proof -
  obtain e where e: "parse_cron ''* * * * *'' = Inr e" using every_minute_parses by (auto simp: is_ok_iff)
  have "lookup_zone (\<lambda>_. None) (py_strip []) = Inr None" by (simp add: lookup_zone_def)
  then show ?thesis
    using e next_run_cron_first_match [of "(default_job ''j'' 0)\<lparr>j_cron_expr := ''* * * * *''\<rparr>" e
        "\<lambda>_. None" None 7]
    by (auto simp: default_job_def)
qed

lemma next_run_every_grid_witness:
  "\<exists>k :: nat. next_run (\<lambda>_. None) ((default_job ''j'' 0)\<lparr>j_schedule_kind := EVERY,
       j_cron_expr := int_str 30, j_anchor_at := Some 0\<rparr>) (45 * sec) = Inr (0 + int k * (30 * sec)) \<and>
     45 * sec < 0 + int k * (30 * sec)"
  using next_run_every_grid [of "(default_job ''j'' 0)\<lparr>j_schedule_kind := EVERY,
       j_cron_expr := int_str 30, j_anchor_at := Some 0\<rparr>" 30 0 "\<lambda>_. None" "45 * sec"]
  by auto

lemma apply_result_lifecycle_witness:
  "\<exists>job' del. apply_result_state (\<lambda>_. None) ((default_job ''j'' 0)\<lparr>j_schedule_kind := AT\<rparr>)
      (blank_execution ''e'' (default_job ''j'' 0) 0 0) 5 = (job', del) \<and> \<not> del \<and> j_status job' = PENDING"
proof -
  define job where "job = (default_job ''j'' 0)\<lparr>j_schedule_kind := AT\<rparr>"
  define exe where "exe = blank_execution ''e'' (default_job ''j'' 0) 0 0"
  obtain job' del where r: "apply_result_state (\<lambda>_. None) job exe 5 = (job', del)" by fastforce
  have "j_schedule_kind job = AT" "\<not> je_success exe" "classify_error (je_error exe) = Transient"
    "j_consecutive_errors job + 1 < retry_budget (j_schedule_kind job)"
    by (simp_all add: job_def exe_def default_job_def blank_execution_def classify_error_def
        retry_budget_def one_shot_max_retries_def)
  with apply_result_lifecycle [OF r] have "\<not> del \<and> j_status job' = PENDING" by simp
  with r show ?thesis unfolding job_def exe_def by blast
qed

lemma failing_job_stops_witness:
  "j_status (fail_runs (\<lambda>_. None) ((default_job ''j'' 0)\<lparr>j_schedule_kind := EVERY, j_cron_expr := ''60''\<rparr>)
     (replicate 5 (blank_execution ''e'' (default_job ''j'' 0) 0 0, 0))) \<noteq> PENDING"
  by (rule failing_job_stops) (simp_all add: default_job_def retry_budget_def max_consecutive_errors_def)

lemma timeout_403_disables_witness:
  "\<exists>exe job'. execute_with_timeout False ''e'' ((default_job ''j'' 0)\<lparr>j_timeout_seconds := 403 * sec\<rparr>)
       H_Timeout 0 0 = (exe, None) \<and>
     apply_result_state (\<lambda>_. None) ((default_job ''j'' 0)\<lparr>j_timeout_seconds := 403 * sec\<rparr>) exe 1
       = (job', False) \<and> j_status job' = DISABLED"
proof -
  define job where "job = (default_job ''j'' 0)\<lparr>j_timeout_seconds := 403 * sec\<rparr>"
  obtain exe where x: "execute_with_timeout False ''e'' job H_Timeout 0 0 = (exe, None)"
    by (simp add: execute_with_timeout_def Let_def)
  have "403 * sec \<le> j_timeout_seconds job" "j_timeout_seconds job < 404 * sec"
    by (simp_all add: job_def sec_def)
  from timeout_403_disables [OF this x, of "\<lambda>_. None" 1] show ?thesis using x unfolding job_def by blast
qed

end
