(* ===== verification/Sched_Store.thy ===== *)
theory Sched_Store
  imports Sched_Payloads Sched_Jobs
begin

text \<open>
  The job store, \<open>scheduler/persistence.py\<close>, and the token-checked result of
  \<open>scheduler/jobs.py\<close>. A table is the list of its rows in insertion order; a row is a
  \<^typ>\<open>cron_job\<close> with the transient \<open>deduplicated\<close> flag off, since every other column is a
  field (the JSON of the delivery column is the dictionary of \<open>serialize_delivery\<close>). SQLite's
  lexical comparison of the stored UTC timestamps is the comparison of instants.
\<close>

section \<open>Delivery documents\<close>

definition serialize_failure_destination :: "failure_destination option \<Rightarrow> pyval" where
  "serialize_failure_destination fd =
     (case fd of
        None \<Rightarrow> PyNone
      | Some f \<Rightarrow> PyDict
          [(''mode'', PyStr (delivery_mode_value (fd_mode f))),
           (''channel_name'', PyStr (fd_channel_name f)), (''channel_id'', PyStr (fd_channel_id f)),
           (''account_id'', PyStr (fd_account_id f)), (''thread_id'', PyStr (fd_thread_id f)),
           (''webhook_url'', PyStr (fd_webhook_url f)), (''webhook_token'', PyStr (fd_webhook_token f))])"

definition opt_str :: "string option \<Rightarrow> pyval" where
  "opt_str s = (case s of None \<Rightarrow> PyNone | Some v \<Rightarrow> PyStr v)"

definition serialize_delivery :: "delivery_config \<Rightarrow> pydict" where
  "serialize_delivery d =
     [(''schema_version'', PyInt 4), (''mode'', PyStr (delivery_mode_value (d_mode d))),
      (''channel_name'', PyStr (d_channel_name d)), (''channel_id'', PyStr (d_channel_id d)),
      (''account_id'', PyStr (d_account_id d)), (''thread_id'', PyStr (d_thread_id d)),
      (''ws_topic'', PyStr (d_ws_topic d)), (''webhook_url'', PyStr (d_webhook_url d)),
      (''webhook_token'', PyStr (d_webhook_token d)), (''best_effort'', PyBool (d_best_effort d)),
      (''failure_destination'', serialize_failure_destination (d_failure_destination d)),
      (''originating_reply_target'',
        (case d_originating_reply_target d of
           None \<Rightarrow> PyNone
         | Some t \<Rightarrow> PyDict
             [(''channel_name'', PyStr (rt_channel_name t)), (''channel_type'', PyStr (rt_channel_type t)),
              (''to'', PyStr (rt_to t)), (''account_id'', PyStr (rt_account_id t)),
              (''thread_id'', PyStr (rt_thread_id t)), (''request_id'', opt_str (rt_request_id t))]))]"

text \<open>
  Reading back. A field of the wrong type would put a non-string into the record; the model reads
  it as empty, which no document written by \<open>serialize_delivery\<close> reaches.
\<close>

definition dstr :: "pydict \<Rightarrow> string \<Rightarrow> string" where
  "dstr d k = or_blank (as_str (dget d k))"

definition parse_failure_destination :: "pyval \<Rightarrow> failure_destination option" where
  "parse_failure_destination raw =
     (case raw of
        PyDict d \<Rightarrow>
          (case as_str (dget_or d ''mode'' (PyStr ''none'')) of
             None \<Rightarrow> None
           | Some m \<Rightarrow>
               (case delivery_mode_of m of
                  None \<Rightarrow> None
                | Some mode \<Rightarrow> Some
                    \<lparr>fd_mode = mode, fd_channel_name = dstr d ''channel_name'',
                     fd_channel_id = dstr d ''channel_id'', fd_account_id = dstr d ''account_id'',
                     fd_thread_id = dstr d ''thread_id'', fd_webhook_url = dstr d ''webhook_url'',
                     fd_webhook_token = dstr d ''webhook_token''\<rparr>))
      | _ \<Rightarrow> None)"

definition parse_reply_target :: "pyval \<Rightarrow> reply_target option" where
  "parse_reply_target raw =
     (case raw of
        PyDict d \<Rightarrow> Some
          \<lparr>rt_channel_name = dstr d ''channel_name'', rt_channel_type = dstr d ''channel_type'',
           rt_to = dstr d ''to'', rt_account_id = dstr d ''account_id'',
           rt_thread_id = dstr d ''thread_id'', rt_request_id = as_str (dget d ''request_id'')\<rparr>
      | _ \<Rightarrow> None)"

text \<open>\<open>int(d.get("schema_version", 1))\<close> for an integer or a string, the JSON types the column has
  had; \<open>None\<close> is the \<open>ValueError\<close> that resets the whole configuration.\<close>

definition schema_version :: "pydict \<Rightarrow> int option" where
  "schema_version d =
     (case dget_or d ''schema_version'' (PyInt 1) of
        PyInt v \<Rightarrow> Some v | PyBool b \<Rightarrow> Some (if b then 1 else 0) | PyStr s \<Rightarrow> py_int s | _ \<Rightarrow> None)"

definition parse_delivery :: "pydict \<Rightarrow> delivery_config" where
  "parse_delivery d =
     (case schema_version d of
        None \<Rightarrow> default_delivery
      | Some version \<Rightarrow>
          (case as_str (dget_or d ''mode'' (PyStr ''none'')) of
             None \<Rightarrow> default_delivery
           | Some m \<Rightarrow>
               (case delivery_mode_of m of
                  None \<Rightarrow> default_delivery
                | Some mode \<Rightarrow>
                    \<lparr>d_mode = mode, d_channel_name = dstr d ''channel_name'',
                     d_channel_id = dstr d ''channel_id'', d_account_id = dstr d ''account_id'',
                     d_thread_id = dstr d ''thread_id'', d_ws_topic = dstr d ''ws_topic'',
                     d_originating_reply_target =
                       (if version \<ge> 2 then parse_reply_target (dget d ''originating_reply_target'')
                        else None),
                     d_webhook_url = dstr d ''webhook_url'', d_webhook_token = dstr d ''webhook_token'',
                     d_best_effort = truthy (dget_or d ''best_effort'' (PyBool False)),
                     d_failure_destination =
                       (if version \<ge> 4 then parse_failure_destination (dget d ''failure_destination'')
                        else None)\<rparr>)))"

definition parse_wake_mode :: "pyval \<Rightarrow> wake_mode" where
  "parse_wake_mode raw =
     (case wake_mode_of (py_lower (py_strip (or_blank (as_str raw)))) of Some w \<Rightarrow> w | None \<Rightarrow> NOW)"

definition effective_delivery_for_target :: "session_target \<Rightarrow> delivery_config \<Rightarrow> delivery_config" where
  "effective_delivery_for_target target d =
     (if target = MAIN \<and> d_mode d \<noteq> DNONE \<and> d_mode d \<noteq> WEBHOOK then default_delivery else d)"

section \<open>Rows\<close>

record store =
  st_jobs :: "cron_job list"
  st_runs :: "job_execution list"

definition with_contract :: "contract \<Rightarrow> cron_job \<Rightarrow> cron_job" where
  "with_contract c job =
     (case c of (h, p, t, s) \<Rightarrow>
        job\<lparr>j_handler_key := h, j_payload := p, j_session_target := t, j_session_key := s,
            j_origin_session_key := normalize_origin_session_key t (j_origin_session_key job)\<rparr>)"

definition job_contract :: "bool \<Rightarrow> cron_job \<Rightarrow> sched_exc + contract" where
  "job_contract strict job =
     normalize_contract strict (j_handler_key job) (j_payload job) (j_session_target job)
       (j_session_key job) (j_origin_session_key job)"

text \<open>The columns \<open>_execute_save\<close> writes.\<close>

definition row_of :: "cron_job \<Rightarrow> sched_exc + cron_job" where
  "row_of job =
     rbind (job_contract False job)
       (\<lambda>c. Inr ((with_contract c job)\<lparr>j_deduplicated := False\<rparr>))"

text \<open>\<open>_row_to_job\<close>. A stored timeout of zero reads as ten minutes.\<close>

definition row_to_job :: "cron_job \<Rightarrow> sched_exc + cron_job" where
  "row_to_job row =
     rbind (job_contract False row)
       (\<lambda>c. let job = with_contract c row in
         Inr (job\<lparr>j_timeout_seconds := (if j_timeout_seconds job = 0 then 600 * sec else j_timeout_seconds job),
                  j_delivery := effective_delivery_for_target (j_session_target job) (j_delivery job)\<rparr>))"

definition find_row :: "string \<Rightarrow> cron_job list \<Rightarrow> cron_job option" where
  "find_row jid rows = find (\<lambda>r. j_id r = jid) rows"

text \<open>\<open>INSERT ... ON CONFLICT(id) DO UPDATE\<close>: \<open>created_at\<close> is not among the updated columns.\<close>

fun upsert :: "cron_job \<Rightarrow> cron_job list \<Rightarrow> cron_job list" where
  "upsert row [] = [row]"
| "upsert row (r # rs) =
     (if j_id r = j_id row then row\<lparr>j_created_at := j_created_at r\<rparr> # rs else r # upsert row rs)"

text \<open>The partial unique index on the idempotency key.\<close>

definition key_conflict :: "cron_job \<Rightarrow> cron_job list \<Rightarrow> bool" where
  "key_conflict row rows =
     (j_idempotency_key row \<noteq> [] \<and>
      list_ex (\<lambda>r. j_id r \<noteq> j_id row \<and> j_idempotency_key r = j_idempotency_key row) rows)"

definition unique_error :: sched_exc where
  "unique_error = IntegrityError ''UNIQUE constraint failed: scheduler_jobs.idempotency_key''"

definition save :: "store \<Rightarrow> cron_job \<Rightarrow> sched_exc + store" where
  "save st job =
     rbind (row_of job) (\<lambda>row.
       if key_conflict row (st_jobs st) then Inl unique_error
       else Inr (st\<lparr>st_jobs := upsert row (st_jobs st)\<rparr>))"

definition read_opt :: "cron_job option \<Rightarrow> sched_exc + cron_job option" where
  "read_opt r = (case r of None \<Rightarrow> Inr None | Some row \<Rightarrow> rbind (row_to_job row) (\<lambda>j. Inr (Some j)))"

definition get :: "store \<Rightarrow> string \<Rightarrow> sched_exc + cron_job option" where
  "get st jid = read_opt (find_row jid (st_jobs st))"

definition get_by_idempotency_key :: "store \<Rightarrow> string \<Rightarrow> sched_exc + cron_job option" where
  "get_by_idempotency_key st key =
     (if key = [] then Inr None
      else read_opt (find (\<lambda>r. j_idempotency_key r = key) (st_jobs st)))"

definition create_or_get :: "store \<Rightarrow> cron_job \<Rightarrow> sched_exc + (store \<times> cron_job)" where
  "create_or_get st job =
     (if j_idempotency_key job = [] then rbind (save st job) (\<lambda>st'. Inr (st', job))
      else rbind (get_by_idempotency_key st (j_idempotency_key job)) (\<lambda>existing.
        case existing of
          Some e \<Rightarrow> Inr (st, e\<lparr>j_deduplicated := True\<rparr>)
        | None \<Rightarrow>
            (case save st job of
               Inr st' \<Rightarrow> Inr (st', job)
             | Inl (IntegrityError m) \<Rightarrow>
                 rbind (get_by_idempotency_key st (j_idempotency_key job)) (\<lambda>existing.
                   case existing of
                     None \<Rightarrow> Inl (IntegrityError m)
                   | Some e \<Rightarrow> Inr (st, e\<lparr>j_deduplicated := True\<rparr>))
             | Inl exc \<Rightarrow> Inl exc)))"

definition delete :: "store \<Rightarrow> string \<Rightarrow> store" where
  "delete st jid = st\<lparr>st_jobs := filter (\<lambda>r. j_id r \<noteq> jid) (st_jobs st)\<rparr>"

section \<open>Reservations\<close>

datatype reservation_result = Reserved job_reservation | Rejected job_rejected

definition at_or_before :: "instant option \<Rightarrow> instant \<Rightarrow> bool" where
  "at_or_before t now = (case t of None \<Rightarrow> False | Some u \<Rightarrow> u \<le> now)"

definition past_backoff :: "cron_job \<Rightarrow> instant \<Rightarrow> bool" where
  "past_backoff r now = (j_backoff_until r = None \<or> at_or_before (j_backoff_until r) now)"

text \<open>The \<open>WHERE\<close> clause of the reserving \<open>UPDATE\<close>, and its assignments.\<close>

definition reservable :: "bool \<Rightarrow> instant \<Rightarrow> cron_job \<Rightarrow> bool" where
  "reservable require_due now r =
     (j_enabled r \<and> j_status r = PENDING \<and> j_reservation_token r = [] \<and> past_backoff r now \<and>
      (require_due \<longrightarrow> at_or_before (j_next_run_at r) now))"

definition mark_reserved :: "string \<Rightarrow> instant \<Rightarrow> string \<Rightarrow> string \<Rightarrow> cron_job \<Rightarrow> cron_job" where
  "mark_reserved token now owner source r =
     r\<lparr>j_status := RUNNING, j_reservation_token := token, j_reserved_at := Some now,
       j_reserved_by := owner, j_reservation_source := source, j_scheduled_run_at := j_next_run_at r,
       j_last_run_at := Some now, j_updated_at := now, j_last_error := None\<rparr>"

definition rejection :: "string \<Rightarrow> rejection_reason \<Rightarrow> cron_job option \<Rightarrow> string \<Rightarrow> job_rejected" where
  "rejection jid reason job msg = \<lparr>rj_job_id = jid, rj_reason = reason, rj_job = job, rj_message = msg\<rparr>"

definition classify_rejection :: "bool \<Rightarrow> instant \<Rightarrow> string \<Rightarrow> cron_job option \<Rightarrow> job_rejected" where
  "classify_rejection require_due now jid job_opt =
     (case job_opt of
        None \<Rightarrow> rejection jid NOT_FOUND None []
      | Some job \<Rightarrow>
          if j_reservation_token job \<noteq> [] \<or> j_status job = RUNNING then rejection jid BUSY (Some job) []
          else if \<not> j_enabled job \<or> j_status job = DISABLED then rejection jid R_DISABLED (Some job) []
          else if \<not> past_backoff job now then rejection jid BACKING_OFF (Some job) []
          else if j_status job \<noteq> PENDING then rejection jid STATUS_CONFLICT (Some job) []
          else if require_due \<and> \<not> at_or_before (j_next_run_at job) now then rejection jid NOT_DUE (Some job) []
          else rejection jid STATUS_CONFLICT (Some job) ''Job could not be reserved'')"

definition reserve_job_for_run ::
  "store \<Rightarrow> string \<Rightarrow> instant \<Rightarrow> bool \<Rightarrow> string \<Rightarrow> string \<Rightarrow> string \<Rightarrow>
   sched_exc + (store \<times> reservation_result)" where
  "reserve_job_for_run st jid now require_due source owner token =
     (if list_ex (\<lambda>r. j_id r = jid \<and> reservable require_due now r) (st_jobs st) then
        let st' = st\<lparr>st_jobs := map (\<lambda>r. if j_id r = jid \<and> reservable require_due now r
                                         then mark_reserved token now owner source r else r) (st_jobs st)\<rparr>
        in rbind (get st' jid) (\<lambda>job_opt.
             Inr (st', case job_opt of
                         None \<Rightarrow> Rejected (rejection jid NOT_FOUND None ''Job not found after reservation'')
                       | Some job \<Rightarrow> Reserved
                           \<lparr>rv_job = job, rv_token = token,
                            rv_reserved_at = (case j_reserved_at job of None \<Rightarrow> now | Some t \<Rightarrow> t),
                            rv_reserved_by = owner, rv_reservation_source = source,
                            rv_scheduled_run_at = j_scheduled_run_at job\<rparr>))
      else rbind (get st jid) (\<lambda>job_opt. Inr (st, Rejected (classify_rejection require_due now jid job_opt))))"

definition reserve_due_job :: "store \<Rightarrow> string \<Rightarrow> instant \<Rightarrow> string \<Rightarrow> string \<Rightarrow> string \<Rightarrow>
   sched_exc + (store \<times> reservation_result)" where
  "reserve_due_job st jid now source owner token = reserve_job_for_run st jid now True source owner token"

definition reserve_manual_job :: "store \<Rightarrow> string \<Rightarrow> instant \<Rightarrow> string \<Rightarrow> string \<Rightarrow> string \<Rightarrow>
   sched_exc + (store \<times> reservation_result)" where
  "reserve_manual_job st jid now source owner token = reserve_job_for_run st jid now False source owner token"

text \<open>The read-modify-write every token-checked operation performs: nothing unless the row exists and
  still carries the token.\<close>

definition if_owner ::
  "store \<Rightarrow> string \<Rightarrow> string \<Rightarrow> (cron_job \<Rightarrow> sched_exc + store) \<Rightarrow> sched_exc + (store \<times> bool)" where
  "if_owner st jid token act =
     rbind (get st jid) (\<lambda>current.
       case current of
         None \<Rightarrow> Inr (st, False)
       | Some job \<Rightarrow>
           if j_reservation_token job \<noteq> token then Inr (st, False)
           else rbind (act job) (\<lambda>st'. Inr (st', True)))"

definition finalize_reserved_missing_handler ::
  "store \<Rightarrow> string \<Rightarrow> string \<Rightarrow> string \<Rightarrow> instant \<Rightarrow> sched_exc + (store \<times> bool)" where
  "finalize_reserved_missing_handler st jid token error now =
     if_owner st jid token (\<lambda>job.
       save st (clear_reservation
         (job\<lparr>j_status := FAILED, j_error_count := j_error_count job + 1,
              j_consecutive_errors := j_consecutive_errors job + 1, j_last_error := Some error,
              j_next_run_at := None, j_backoff_until := None, j_updated_at := now\<rparr>)))"

definition release_reservation ::
  "store \<Rightarrow> string \<Rightarrow> string \<Rightarrow> instant \<Rightarrow> sched_exc + (store \<times> bool)" where
  "release_reservation st jid token now =
     if_owner st jid token (\<lambda>job.
       let job = clear_reservation job;
           job = (if j_status job = RUNNING then job\<lparr>j_status := PENDING\<rparr> else job)
       in save st (job\<lparr>j_updated_at := now\<rparr>))"

text \<open>\<open>apply_reserved_result\<close> and its unreserved variant \<open>apply_result\<close> (\<open>jobs.py\<close>).\<close>

definition store_result :: "zone_db \<Rightarrow> store \<Rightarrow> cron_job \<Rightarrow> job_execution \<Rightarrow> instant \<Rightarrow> sched_exc + store" where
  "store_result zone st job execution now =
     (case apply_result_state zone job execution now of
        (job', delete_job) \<Rightarrow> if delete_job then Inr (delete st (j_id job')) else save st job')"

definition apply_reserved_result ::
  "zone_db \<Rightarrow> store \<Rightarrow> string \<Rightarrow> string \<Rightarrow> job_execution \<Rightarrow> instant \<Rightarrow> sched_exc + (store \<times> bool)" where
  "apply_reserved_result zone st jid token execution now =
     if_owner st jid token (\<lambda>job.
       if j_status job = PAUSED \<or> j_status job = DISABLED then save st (clear_reservation job)
       else store_result zone st job execution now)"

definition apply_result :: "zone_db \<Rightarrow> store \<Rightarrow> string \<Rightarrow> job_execution \<Rightarrow> instant \<Rightarrow> sched_exc + store" where
  "apply_result zone st jid execution now =
     rbind (get st jid) (\<lambda>current.
       case current of
         None \<Rightarrow> Inr st
       | Some job \<Rightarrow>
           if j_status job = PAUSED \<or> j_status job = DISABLED then Inr st
           else store_result zone st job execution now)"

section \<open>Queries\<close>

fun read_rows :: "cron_job list \<Rightarrow> sched_exc + cron_job list" where
  "read_rows [] = Inr []"
| "read_rows (r # rs) = rbind (row_to_job r) (\<lambda>j. rbind (read_rows rs) (\<lambda>js. Inr (j # js)))"

definition list_active :: "store \<Rightarrow> sched_exc + cron_job list" where
  "list_active st = read_rows (sort_key j_created_at (filter (\<lambda>r. j_status r \<noteq> DELETED) (st_jobs st)))"

definition list_by_status :: "store \<Rightarrow> job_status \<Rightarrow> sched_exc + cron_job list" where
  "list_by_status st s = read_rows (sort_key j_created_at (filter (\<lambda>r. j_status r = s) (st_jobs st)))"

definition due_instant :: "cron_job \<Rightarrow> instant" where
  "due_instant r = (case j_next_run_at r of Some t \<Rightarrow> t | None \<Rightarrow> 0)"

definition min_opt :: "instant list \<Rightarrow> instant option" where
  "min_opt ts = (if ts = [] then None else Some (foldr min (tl ts) (hd ts)))"

definition next_due_at :: "store \<Rightarrow> instant option" where
  "next_due_at st =
     min_opt (map due_instant
       (filter (\<lambda>r. j_status r = PENDING \<and> j_enabled r \<and> j_next_run_at r \<noteq> None) (st_jobs st)))"

definition is_due :: "instant \<Rightarrow> cron_job \<Rightarrow> bool" where
  "is_due now r = (j_status r = PENDING \<and> j_enabled r \<and> at_or_before (j_next_run_at r) now \<and> past_backoff r now)"

definition iter_due :: "store \<Rightarrow> instant \<Rightarrow> sched_exc + cron_job list" where
  "iter_due st now = read_rows (sort_key due_instant (filter (is_due now) (st_jobs st)))"

section \<open>Run records\<close>

definition run_id_error :: sched_exc where
  "run_id_error = IntegrityError ''UNIQUE constraint failed: scheduler_runs.id''"

definition save_execution :: "store \<Rightarrow> job_execution \<Rightarrow> sched_exc + store" where
  "save_execution st e =
     (if list_ex (\<lambda>r. je_id r = je_id e) (st_runs st) then Inl run_id_error
      else Inr (st\<lparr>st_runs := st_runs st @ [e]\<rparr>))"

definition newest_first :: "job_execution list \<Rightarrow> job_execution list" where
  "newest_first rs = sort_key (\<lambda>e. - je_started_at e) rs"

definition list_executions :: "store \<Rightarrow> string \<Rightarrow> nat \<Rightarrow> job_execution list" where
  "list_executions st jid limit = take limit (newest_first (filter (\<lambda>e. je_job_id e = jid) (st_runs st)))"

definition prune_job :: "nat \<Rightarrow> string \<Rightarrow> job_execution list \<Rightarrow> job_execution list" where
  "prune_job max_per_job jid runs =
     (let keep = map je_id (take max_per_job (newest_first (filter (\<lambda>e. je_job_id e = jid) runs)))
      in filter (\<lambda>e. \<not> (je_job_id e = jid \<and> je_id e \<notin> set keep)) runs)"

definition prune_runs :: "store \<Rightarrow> instant \<Rightarrow> int \<Rightarrow> nat \<Rightarrow> store \<times> nat" where
  "prune_runs st now max_age_days max_per_job =
     (let cutoff = now - max_age_days * day_us;
          recent = filter (\<lambda>e. \<not> je_started_at e < cutoff) (st_runs st);
          kept = fold (prune_job max_per_job) (remdups (map je_job_id recent)) recent
      in (st\<lparr>st_runs := kept\<rparr>, length (st_runs st) - length kept))"

section \<open>Migration of old rows\<close>

definition normalize_legacy_row :: "cron_job \<Rightarrow> sched_exc + cron_job" where
  "normalize_legacy_row row = rbind (job_contract False row) (\<lambda>c. Inr (with_contract c row))"

fun normalize_legacy_rows :: "cron_job list \<Rightarrow> sched_exc + cron_job list" where
  "normalize_legacy_rows [] = Inr []"
| "normalize_legacy_rows (r # rs) =
     rbind (normalize_legacy_row r) (\<lambda>r'. rbind (normalize_legacy_rows rs) (\<lambda>rs'. Inr (r' # rs')))"

definition migrate :: "store \<Rightarrow> sched_exc + store" where
  "migrate st = rbind (normalize_legacy_rows (st_jobs st)) (\<lambda>rows. Inr (st\<lparr>st_jobs := rows\<rparr>))"

section \<open>Delivery round trip\<close>

lemma as_str_opt_str [simp]: "as_str (opt_str s) = s"
  by (cases s) (simp_all add: opt_str_def)

lemma dstr_Cons [simp]: "dstr ((k, v) # d) k' = (if k' = k then or_blank (as_str v) else dstr d k')"
  by (simp add: dstr_def)

lemma or_blank_Some [simp]: "or_blank (Some s) = s"
  by (simp add: or_blank_def)

lemma parse_failure_destination_serialize [simp]:
  "parse_failure_destination (serialize_failure_destination fd) = fd"
  by (cases fd) (simp_all add: parse_failure_destination_def serialize_failure_destination_def)

theorem delivery_roundtrip: "parse_delivery (serialize_delivery d) = d"
  by (cases d; cases "d_originating_reply_target d")
    (simp_all add: parse_delivery_def serialize_delivery_def schema_version_def parse_reply_target_def)

section \<open>Well-formed stores\<close>

text \<open>Every write leaves rows whose contract is normal, one row per id, one row per non-empty key.\<close>

definition row_normal :: "cron_job \<Rightarrow> bool" where
  "row_normal r \<longleftrightarrow> job_contract False r =
       Inr (j_handler_key r, j_payload r, j_session_target r, j_session_key r) \<and>
     normalize_origin_session_key (j_session_target r) (j_origin_session_key r) = j_origin_session_key r"

definition keys_unique :: "cron_job list \<Rightarrow> bool" where
  "keys_unique rows \<longleftrightarrow>
     (\<forall>r \<in> set rows. \<forall>q \<in> set rows. j_idempotency_key r \<noteq> [] \<and>
        j_idempotency_key r = j_idempotency_key q \<longrightarrow> j_id r = j_id q)"

definition store_ok :: "store \<Rightarrow> bool" where
  "store_ok st \<longleftrightarrow> (\<forall>r \<in> set (st_jobs st). row_normal r) \<and> distinct (map j_id (st_jobs st)) \<and>
     keys_unique (st_jobs st)"

lemma origin_idem [simp]:
  "normalize_origin_session_key t (normalize_origin_session_key t o') = normalize_origin_session_key t o'"
  by (simp add: normalize_origin_session_key_def)

lemma contract_origin_normal:
  "normalize_contract b h p t s (normalize_origin_session_key t o') = normalize_contract b h p t s o'"
  by (auto simp: normalize_contract_def normalize_origin_session_key_def bind_session_def)

lemma contract_target: "normalize_contract b h p t s o' = Inr (h', p', t', s') \<Longrightarrow> t' = t"
  by (auto simp: normalize_contract_def canonical_contract_def Let_def split: if_splits)

lemma row_of_normal: "row_of job = Inr row \<Longrightarrow> row_normal row"
  unfolding row_of_def job_contract_def row_normal_def with_contract_def
  by (auto simp: contract_origin_normal dest: contract_target normalize_contract_again split: prod.splits)

lemma row_of_same:
  "row_of job = Inr row \<Longrightarrow> j_id row = j_id job \<and> j_idempotency_key row = j_idempotency_key job \<and>
     j_reservation_token row = j_reservation_token job \<and> j_status row = j_status job"
  by (auto simp: row_of_def with_contract_def split: prod.splits)

text \<open>What reading adds to a normal row.\<close>

definition read_back :: "cron_job \<Rightarrow> cron_job" where
  "read_back r =
     r\<lparr>j_timeout_seconds := (if j_timeout_seconds r = 0 then 600 * sec else j_timeout_seconds r),
       j_delivery := effective_delivery_for_target (j_session_target r) (j_delivery r)\<rparr>"

lemma row_to_job_normal: "row_normal r \<Longrightarrow> row_to_job r = Inr (read_back r)"
  by (simp add: row_normal_def row_to_job_def with_contract_def read_back_def Let_def)

lemma read_back_simps [simp]:
  "j_id (read_back r) = j_id r" "j_status (read_back r) = j_status r"
  "j_reservation_token (read_back r) = j_reservation_token r"
  "j_idempotency_key (read_back r) = j_idempotency_key r"
  "j_next_run_at (read_back r) = j_next_run_at r" "j_backoff_until (read_back r) = j_backoff_until r"
  "j_enabled (read_back r) = j_enabled r" "j_last_run_at (read_back r) = j_last_run_at r"
  "j_handler_key (read_back r) = j_handler_key r" "j_schedule_kind (read_back r) = j_schedule_kind r"
  "j_consecutive_errors (read_back r) = j_consecutive_errors r"
  "j_reserved_at (read_back r) = j_reserved_at r" "j_scheduled_run_at (read_back r) = j_scheduled_run_at r"
  "j_created_at (read_back r) = j_created_at r"
  by (simp_all add: read_back_def)

lemma row_normal_cong:
  "j_handler_key r = j_handler_key q \<Longrightarrow> j_payload r = j_payload q \<Longrightarrow>
   j_session_target r = j_session_target q \<Longrightarrow> j_session_key r = j_session_key q \<Longrightarrow>
   j_origin_session_key r = j_origin_session_key q \<Longrightarrow> row_normal r = row_normal q"
  by (simp add: row_normal_def job_contract_def)

lemma row_normal_read_back [simp]: "row_normal (read_back r) = row_normal r"
  by (rule row_normal_cong) (simp_all add: read_back_def)

lemma read_back_idem [simp]: "read_back (read_back r) = read_back r"
  by (auto simp: read_back_def effective_delivery_for_target_def default_delivery_def sec_def)

lemma row_of_of_normal: "row_normal j \<Longrightarrow> row_of j = Inr (j\<lparr>j_deduplicated := False\<rparr>)"
  by (simp add: row_normal_def row_of_def with_contract_def)

lemma find_row_Some: "find_row i rows = Some r \<Longrightarrow> r \<in> set rows \<and> j_id r = i"
  by (induction rows) (auto simp: find_row_def split: if_splits)

lemma find_row_None: "find_row i rows = None \<longleftrightarrow> i \<notin> j_id ` set rows"
  by (induction rows) (auto simp: find_row_def)

lemma find_row_distinct: "distinct (map j_id rows) \<Longrightarrow> r \<in> set rows \<Longrightarrow> find_row (j_id r) rows = Some r"
  by (induction rows) (auto simp: find_row_def image_iff)

lemma get_ok: "store_ok st \<Longrightarrow> get st i = Inr (map_option read_back (find_row i (st_jobs st)))"
  by (auto simp: get_def read_opt_def store_ok_def row_to_job_normal split: option.splits dest: find_row_Some)

lemma read_rows_ok: "\<forall>r \<in> set rows. row_normal r \<Longrightarrow> read_rows rows = Inr (map read_back rows)"
  by (induction rows) (auto simp: row_to_job_normal)

section \<open>Writing\<close>

lemma upsert_ids: "j_id ` set (upsert row rows) = insert (j_id row) (j_id ` set rows)"
  by (induction rows) auto

lemma upsert_distinct: "distinct (map j_id rows) \<Longrightarrow> distinct (map j_id (upsert row rows))"
proof (induction rows)
  case (Cons r rs)
  then show ?case using upsert_ids [of row rs] by auto
qed simp

lemma upsert_set:
  "distinct (map j_id rows) \<Longrightarrow> q \<in> set (upsert row rows) \<Longrightarrow>
   (q \<in> set rows \<and> j_id q \<noteq> j_id row) \<or> (\<exists>c. q = row\<lparr>j_created_at := c\<rparr>)"
proof (induction rows)
  case Nil
  then show ?case by (auto intro: exI [of _ "j_created_at row"])
next
  case (Cons r rs)
  show ?case
  proof (cases "j_id r = j_id row")
    case True
    have "j_id row \<notin> j_id ` set rs" using Cons.prems(1) True by simp
    then have "q \<in> set rs \<Longrightarrow> j_id q \<noteq> j_id row" by (metis image_eqI)
    moreover have "q = row\<lparr>j_created_at := j_created_at r\<rparr> \<or> q \<in> set rs"
      using Cons.prems(2) True by simp
    ultimately show ?thesis by auto
  next
    case False
    with Cons show ?thesis by auto
  qed
qed

lemma find_upsert_other: "i \<noteq> j_id row \<Longrightarrow> find_row i (upsert row rows) = find_row i rows"
  by (induction rows) (auto simp: find_row_def)

definition keep_created :: "cron_job option \<Rightarrow> cron_job \<Rightarrow> cron_job" where
  "keep_created old row = (case old of None \<Rightarrow> row | Some r \<Rightarrow> row\<lparr>j_created_at := j_created_at r\<rparr>)"

lemma find_upsert_same:
  "find_row (j_id row) (upsert row rows) = Some (keep_created (find_row (j_id row) rows) row)"
  by (induction rows) (auto simp: find_row_def keep_created_def)

lemma row_normal_created [simp]: "row_normal (r\<lparr>j_created_at := c\<rparr>) = row_normal r"
  by (rule row_normal_cong) simp_all

lemma save_ok:
  assumes ok: "store_ok st" and s: "save st job = Inr st'"
  shows "store_ok st'"
proof -
  obtain row where row: "row_of job = Inr row" "\<not> key_conflict row (st_jobs st)"
      "st' = st\<lparr>st_jobs := upsert row (st_jobs st)\<rparr>"
    using s by (auto simp: save_def split: if_splits)
  have d: "distinct (map j_id (st_jobs st))" using ok by (simp add: store_ok_def)
  note up = upsert_set [OF d, of _ row]
  have "row_normal q" if "q \<in> set (upsert row (st_jobs st))" for q
    using up [OF that] ok row_of_normal [OF row(1)] by (auto simp: store_ok_def)
  moreover have "keys_unique (upsert row (st_jobs st))"
    unfolding keys_unique_def
  proof (intro ballI impI)
    fix a b assume ab: "a \<in> set (upsert row (st_jobs st))" "b \<in> set (upsert row (st_jobs st))"
      and k: "j_idempotency_key a \<noteq> [] \<and> j_idempotency_key a = j_idempotency_key b"
    have cases: "(q \<in> set (st_jobs st) \<and> j_id q \<noteq> j_id row) \<or>
        (j_id q = j_id row \<and> j_idempotency_key q = j_idempotency_key row)"
      if "q \<in> set (upsert row (st_jobs st))" for q
      using up [OF that] by auto
    have new: "\<forall>r \<in> set (st_jobs st). j_id r \<noteq> j_id row \<and> j_idempotency_key row \<noteq> [] \<longrightarrow>
        j_idempotency_key r \<noteq> j_idempotency_key row"
      using row(2) unfolding key_conflict_def list_ex_iff by blast
    have old: "\<forall>r \<in> set (st_jobs st). \<forall>q \<in> set (st_jobs st). j_idempotency_key r \<noteq> [] \<and>
        j_idempotency_key r = j_idempotency_key q \<longrightarrow> j_id r = j_id q"
      using ok unfolding store_ok_def keys_unique_def by blast
    show "j_id a = j_id b"
      using cases [OF ab(1)] cases [OF ab(2)] k new old by metis
  qed
  ultimately show ?thesis using row(3) upsert_distinct [OF d] by (simp add: store_ok_def)
qed

text \<open>Saving a job that was read and changed outside its contract, id and key.\<close>

lemma save_modified:
  assumes "store_ok st" and "find_row i (st_jobs st) = Some r" and "row_normal job"
    and "j_id job = i" and "j_idempotency_key job = j_idempotency_key r"
  shows "save st job = Inr (st\<lparr>st_jobs := upsert (job\<lparr>j_deduplicated := False\<rparr>) (st_jobs st)\<rparr>)"
proof -
  have r: "r \<in> set (st_jobs st)" "j_id r = i" using find_row_Some [OF assms(2)] by auto
  have "\<forall>q \<in> set (st_jobs st). j_idempotency_key r \<noteq> [] \<and> j_idempotency_key q = j_idempotency_key r
      \<longrightarrow> j_id q = i"
    using assms(1) r unfolding store_ok_def keys_unique_def by metis
  then have "\<not> key_conflict (job\<lparr>j_deduplicated := False\<rparr>) (st_jobs st)"
    using assms(4,5) by (simp add: key_conflict_def list_ex_iff) metis
  then show ?thesis using assms(3) by (simp add: save_def row_of_of_normal)
qed

lemma find_save_modified:
  assumes "store_ok st" and "find_row i (st_jobs st) = Some r" and "row_normal job"
    and "j_id job = i" and "j_idempotency_key job = j_idempotency_key r"
  shows "\<exists>st'. save st job = Inr st' \<and> store_ok st' \<and> st_runs st' = st_runs st \<and>
    (\<forall>k. find_row k (st_jobs st') = (if k = i
       then Some (job\<lparr>j_created_at := j_created_at r, j_deduplicated := False\<rparr>)
       else find_row k (st_jobs st)))"
proof -
  define row where "row = job\<lparr>j_deduplicated := False\<rparr>"
  have s: "save st job = Inr (st\<lparr>st_jobs := upsert row (st_jobs st)\<rparr>)"
    using save_modified [OF assms] by (simp add: row_def)
  moreover have "find_row k (upsert row (st_jobs st)) = (if k = i
       then Some (job\<lparr>j_created_at := j_created_at r, j_deduplicated := False\<rparr>)
       else find_row k (st_jobs st))" for k
    using find_upsert_same [of row "st_jobs st"] find_upsert_other [of k row "st_jobs st"] assms(2,4)
    by (auto simp: keep_created_def row_def)
  ultimately show ?thesis using save_ok [OF assms(1) s] by auto
qed

theorem save_get:
  assumes "store_ok st" and "save st job = Inr st'"
  shows "\<exists>row. row_of job = Inr row \<and> store_ok st' \<and>
    get st' (j_id job) = Inr (Some (read_back (keep_created (find_row (j_id job) (st_jobs st)) row))) \<and>
    (\<forall>i. i \<noteq> j_id job \<longrightarrow> get st' i = get st i)"
proof -
  obtain row where row: "row_of job = Inr row" "st' = st\<lparr>st_jobs := upsert row (st_jobs st)\<rparr>"
    using assms(2) by (auto simp: save_def split: if_splits)
  have ok: "store_ok st'" by (rule save_ok [OF assms])
  have "j_id row = j_id job" using row_of_same [OF row(1)] by simp
  then show ?thesis
    using row ok get_ok [OF assms(1)] get_ok [OF ok] find_upsert_same [of row "st_jobs st"]
      find_upsert_other [of _ row "st_jobs st"] by auto
qed

section \<open>Reservations are leases\<close>

definition lease_holder :: "store \<Rightarrow> string \<Rightarrow> string option" where
  "lease_holder st jid =
     (case find_row jid (st_jobs st) of
        None \<Rightarrow> None
      | Some r \<Rightarrow> if j_reservation_token r = [] then None else Some (j_reservation_token r))"

lemma find_row_map:
  "(\<And>r. j_id (f r) = j_id r) \<Longrightarrow> find_row i (map f rows) = map_option f (find_row i rows)"
  by (induction rows) (auto simp: find_row_def)

lemma mark_reserved_simps [simp]:
  "j_id (mark_reserved t now ow src r) = j_id r"
  "j_reservation_token (mark_reserved t now ow src r) = t"
  "j_status (mark_reserved t now ow src r) = RUNNING"
  "j_idempotency_key (mark_reserved t now ow src r) = j_idempotency_key r"
  "j_scheduled_run_at (mark_reserved t now ow src r) = j_next_run_at r"
  "j_reserved_at (mark_reserved t now ow src r) = Some now"
  "j_handler_key (mark_reserved t now ow src r) = j_handler_key r"
  "row_normal (mark_reserved t now ow src r) = row_normal r"
  by (simp_all add: mark_reserved_def cong: row_normal_cong)

definition reserve_rows ::
  "string \<Rightarrow> instant \<Rightarrow> bool \<Rightarrow> string \<Rightarrow> string \<Rightarrow> string \<Rightarrow> cron_job list \<Rightarrow> cron_job list" where
  "reserve_rows jid now due src ow tok rows =
     map (\<lambda>r. if j_id r = jid \<and> reservable due now r then mark_reserved tok now ow src r else r) rows"

lemma keys_unique_pairs:
  assumes "map (\<lambda>r. (j_id r, j_idempotency_key r)) rows = map (\<lambda>r. (j_id r, j_idempotency_key r)) rows'"
  shows "keys_unique rows = keys_unique rows'"
proof -
  have *: "keys_unique rs \<longleftrightarrow> (\<forall>a \<in> set (map (\<lambda>r. (j_id r, j_idempotency_key r)) rs).
      \<forall>b \<in> set (map (\<lambda>r. (j_id r, j_idempotency_key r)) rs). snd a \<noteq> [] \<and> snd a = snd b \<longrightarrow> fst a = fst b)" for rs
    by (simp add: keys_unique_def)
  show ?thesis by (simp only: * assms)
qed

lemma reserve_rows_ok:
  assumes "store_ok st"
  shows "store_ok (st\<lparr>st_jobs := reserve_rows jid now due src ow tok (st_jobs st)\<rparr>)"
proof -
  have ids: "map j_id (reserve_rows jid now due src ow tok rows) = map j_id rows" for rows
    by (simp add: reserve_rows_def)
  have k: "keys_unique (reserve_rows jid now due src ow tok rows) = keys_unique rows" for rows
    by (rule keys_unique_pairs) (simp add: reserve_rows_def)
  have n: "row_normal q" if "q \<in> set (reserve_rows jid now due src ow tok (st_jobs st))" for q
    using that assms by (auto simp: reserve_rows_def store_ok_def)
  show ?thesis using assms ids k n by (simp add: store_ok_def)
qed

lemma find_reserve_rows:
  "find_row i (reserve_rows jid now due src ow tok rows) =
     map_option (\<lambda>r. if i = jid \<and> reservable due now r then mark_reserved tok now ow src r else r)
       (find_row i rows)"
proof -
  have "find_row i (reserve_rows jid now due src ow tok rows) =
      map_option (\<lambda>r. if j_id r = jid \<and> reservable due now r then mark_reserved tok now ow src r else r)
        (find_row i rows)"
    unfolding reserve_rows_def by (rule find_row_map) simp
  then show ?thesis by (auto dest: find_row_Some split: option.splits simp: map_option_case)
qed

text \<open>The whole of a reservation on a well-formed store.\<close>

lemma reserve_cases:
  assumes ok: "store_ok st"
  shows "reserve_job_for_run st jid now due src ow tok =
    (case find_row jid (st_jobs st) of
       None \<Rightarrow> Inr (st, Rejected (rejection jid NOT_FOUND None []))
     | Some r \<Rightarrow>
         if reservable due now r then
           Inr (st\<lparr>st_jobs := reserve_rows jid now due src ow tok (st_jobs st)\<rparr>,
                Reserved \<lparr>rv_job = read_back (mark_reserved tok now ow src r), rv_token = tok,
                  rv_reserved_at = now, rv_reserved_by = ow, rv_reservation_source = src,
                  rv_scheduled_run_at = j_next_run_at r\<rparr>)
         else Inr (st, Rejected (classify_rejection due now jid (Some (read_back r)))))"
proof (cases "find_row jid (st_jobs st)")
  case None
  then have "\<not> list_ex (\<lambda>r. j_id r = jid \<and> reservable due now r) (st_jobs st)"
    by (auto simp: find_row_None list_ex_iff)
  then show ?thesis using None get_ok [OF ok, of jid]
    by (simp add: reserve_job_for_run_def classify_rejection_def)
next
  case (Some r)
  have d: "distinct (map j_id (st_jobs st))" using ok by (simp add: store_ok_def)
  have ex: "list_ex (\<lambda>r. j_id r = jid \<and> reservable due now r) (st_jobs st) \<longleftrightarrow> reservable due now r"
  proof
    assume "list_ex (\<lambda>r. j_id r = jid \<and> reservable due now r) (st_jobs st)"
    then obtain q where "q \<in> set (st_jobs st)" "j_id q = jid" "reservable due now q"
      by (auto simp: list_ex_iff)
    then show "reservable due now r" using find_row_distinct [OF d, of q] Some by simp
  next
    assume "reservable due now r"
    then show "list_ex (\<lambda>r. j_id r = jid \<and> reservable due now r) (st_jobs st)"
      using find_row_Some [OF Some] by (auto simp: list_ex_iff)
  qed
  show ?thesis
    using Some ex get_ok [OF ok, of jid]
      get_ok [OF reserve_rows_ok [OF ok, of jid now due src ow tok], of jid]
    by (simp add: reserve_job_for_run_def find_reserve_rows flip: reserve_rows_def)
qed

text \<open>When, whether only if due, and on whose behalf a reservation is asked for.\<close>

datatype reserve_args = Reserve_Args instant bool string string

fun take_reservation :: "reserve_args \<Rightarrow> store \<Rightarrow> string \<Rightarrow> string \<Rightarrow> store option" where
  "take_reservation (Reserve_Args now due src ow) st jid tok =
     (case reserve_job_for_run st jid now due src ow tok of
        Inr (st', Reserved rv) \<Rightarrow> Some st' | _ \<Rightarrow> None)"

text \<open>The state after an operation that can raise: an exception leaves the store as it was.\<close>

definition after :: "store \<Rightarrow> 'e + (store \<times> bool) \<Rightarrow> store" where
  "after st r = (case r of Inl e \<Rightarrow> st | Inr (st', b) \<Rightarrow> st')"

lemma take_reservation_free:
  assumes "store_ok st" and "tok \<noteq> []" and "take_reservation a st jid tok = Some st'"
  shows "store_ok st' \<and> lease_holder st jid = None \<and> lease_holder st' jid = Some tok \<and>
    (\<forall>k. k \<noteq> jid \<longrightarrow> lease_holder st' k = lease_holder st k)"
proof -
  obtain now due src ow r where r: "find_row jid (st_jobs st) = Some r" "reservable due now r"
      "st' = st\<lparr>st_jobs := reserve_rows jid now due src ow tok (st_jobs st)\<rparr>"
    using assms(3) reserve_cases [OF assms(1)]
    by (cases a) (auto split: option.splits if_splits)
  have "j_reservation_token r = []" using r(2) by (simp add: reservable_def)
  then show ?thesis
    using r assms(2) reserve_rows_ok [OF assms(1), of jid now due src ow tok]
    by (auto simp: lease_holder_def find_reserve_rows split: option.splits)
qed

lemma if_owner_cases:
  assumes "store_ok st"
  shows "if_owner st jid tok act =
    (case find_row jid (st_jobs st) of
       None \<Rightarrow> Inr (st, False)
     | Some r \<Rightarrow> if j_reservation_token r \<noteq> tok then Inr (st, False)
                else rbind (act (read_back r)) (\<lambda>st'. Inr (st', True)))"
  using get_ok [OF assms, of jid] by (auto simp: if_owner_def split: option.splits)

text \<open>Every owner-checked operation of the code saves a job with its contract, id and key kept and no
  token left, or deletes it: then it gives the lease back.\<close>

definition frees :: "cron_job \<Rightarrow> cron_job \<Rightarrow> bool" where
  "frees r job \<longleftrightarrow> row_normal job \<and> j_id job = j_id r \<and> j_idempotency_key job = j_idempotency_key r \<and>
     j_reservation_token job = []"

lemma delete_ok: "store_ok st \<Longrightarrow> store_ok (delete st i)"
  unfolding store_ok_def delete_def keys_unique_def by (auto simp: distinct_map_filter)

lemma find_delete: "find_row k (st_jobs (delete st i)) = (if k = i then None else find_row k (st_jobs st))"
proof -
  have "find_row k (filter (\<lambda>r. j_id r \<noteq> i) rows) = (if k = i then None else find_row k rows)" for rows
    by (induction rows) (auto simp: find_row_def)
  then show ?thesis by (simp add: delete_def)
qed

lemma owner_save_gives_back:
  assumes ok: "store_ok st" and "tok \<noteq> []" and h: "lease_holder st jid = Some tok"
    and act: "\<And>r. find_row jid (st_jobs st) = Some r \<Longrightarrow>
      (\<exists>job. act (read_back r) = save st job \<and> frees r job) \<or> act (read_back r) = Inr (delete st jid)"
  shows "store_ok (after st (if_owner st jid tok act)) \<and>
    lease_holder (after st (if_owner st jid tok act)) jid = None \<and>
    (\<forall>k. k \<noteq> jid \<longrightarrow> lease_holder (after st (if_owner st jid tok act)) k = lease_holder st k)"
proof -
  obtain r where r: "find_row jid (st_jobs st) = Some r" "j_reservation_token r = tok"
    using h by (auto simp: lease_holder_def split: option.splits if_splits)
  from act [OF r(1)] show ?thesis
  proof (elim disjE exE conjE)
    fix job assume j: "act (read_back r) = save st job" "frees r job"
    then have "row_normal job" "j_id job = jid" "j_idempotency_key job = j_idempotency_key r"
        "j_reservation_token job = []"
      using find_row_Some [OF r(1)] by (auto simp: frees_def)
    from find_save_modified [OF ok r(1) this(1-3)] this(4) show ?thesis
      using j(1) r if_owner_cases [OF ok, of jid tok act]
      by (auto simp: after_def lease_holder_def)
  next
    assume "act (read_back r) = Inr (delete st jid)"
    then show ?thesis
      using r if_owner_cases [OF ok, of jid tok act] delete_ok [OF ok, of jid]
      by (simp add: after_def lease_holder_def find_delete)
  qed
qed

lemma owner_check_keeps:
  assumes "store_ok st" and "tok \<noteq> []" and "lease_holder st jid \<noteq> Some tok"
  shows "if_owner st jid tok act = Inr (st, False)"
  using assms if_owner_cases [OF assms(1), of jid tok act]
  by (auto simp: lease_holder_def split: option.splits if_splits)


text \<open>The three ways the code ends a reservation it owns.\<close>

datatype give_op =
    G_Release instant
  | G_Missing_Handler string instant
  | G_Finish zone_db job_execution instant

fun end_reservation :: "give_op \<Rightarrow> store \<Rightarrow> string \<Rightarrow> string \<Rightarrow> sched_exc + (store \<times> bool)" where
  "end_reservation (G_Release now) st jid tok = release_reservation st jid tok now"
| "end_reservation (G_Missing_Handler error now) st jid tok =
     finalize_reserved_missing_handler st jid tok error now"
| "end_reservation (G_Finish zone exe now) st jid tok = apply_reserved_result zone st jid tok exe now"

definition give_reservation :: "give_op \<Rightarrow> store \<Rightarrow> string \<Rightarrow> string \<Rightarrow> store" where
  "give_reservation op st jid tok = after st (end_reservation op st jid tok)"

lemma apply_result_contract:
  "apply_result_state zone job exe now = (job', del) \<Longrightarrow>
   j_handler_key job' = j_handler_key job \<and> j_payload job' = j_payload job \<and>
   j_session_target job' = j_session_target job \<and> j_session_key job' = j_session_key job \<and>
   j_origin_session_key job' = j_origin_session_key job"
  by (auto simp: apply_defs Let_def clear_reservation_def mark_schedule_compute_failed_def
      split: if_splits sum.splits)

lemma row_normal_apply:
  "apply_result_state zone job exe now = (job', del) \<Longrightarrow> row_normal job' = row_normal job"
  by (rule row_normal_cong) (auto dest: apply_result_contract)

lemma row_normal_clear [simp]: "row_normal (clear_reservation r) = row_normal r"
  by (rule row_normal_cong) (simp_all add: clear_reservation_def)

fun give_job :: "give_op \<Rightarrow> cron_job \<Rightarrow> cron_job" where
  "give_job (G_Release now) job =
     (let job = clear_reservation job;
          job = (if j_status job = RUNNING then job\<lparr>j_status := PENDING\<rparr> else job)
      in job\<lparr>j_updated_at := now\<rparr>)"
| "give_job (G_Missing_Handler error now) job =
     clear_reservation
       (job\<lparr>j_status := FAILED, j_error_count := j_error_count job + 1,
            j_consecutive_errors := j_consecutive_errors job + 1, j_last_error := Some error,
            j_next_run_at := None, j_backoff_until := None, j_updated_at := now\<rparr>)"
| "give_job (G_Finish zone exe now) job =
     (if j_status job = PAUSED \<or> j_status job = DISABLED then clear_reservation job
      else fst (apply_result_state zone job exe now))"

fun give_deletes :: "give_op \<Rightarrow> cron_job \<Rightarrow> bool" where
  "give_deletes (G_Finish zone exe now) job =
     (j_status job \<noteq> PAUSED \<and> j_status job \<noteq> DISABLED \<and> snd (apply_result_state zone job exe now))"
| "give_deletes op job = False"

text \<open>The job each of them saves, unless the result deletes it.\<close>

definition give_action :: "give_op \<Rightarrow> store \<Rightarrow> cron_job \<Rightarrow> sched_exc + store" where
  "give_action op st job =
     (if give_deletes op job then Inr (delete st (j_id job)) else save st (give_job op job))"

lemma end_reservation_alt: "end_reservation op st jid tok = if_owner st jid tok (give_action op st)"
proof (cases op)
  case (G_Finish zone exe now)
  have "(if j_status job = PAUSED \<or> j_status job = DISABLED then save st (clear_reservation job)
       else store_result zone st job exe now) = give_action op st job" for job
    using G_Finish apply_result_frees [of zone job exe now]
    by (cases "apply_result_state zone job exe now") (auto simp: give_action_def store_result_def)
  then show ?thesis using G_Finish by (simp add: apply_reserved_result_def)
qed (simp_all add: release_reservation_def finalize_reserved_missing_handler_def Let_def give_action_def [abs_def])

lemma row_normal_status_updated [simp]:
  "row_normal (r\<lparr>j_updated_at := u\<rparr>) = row_normal r"
  "row_normal (r\<lparr>j_status := s, j_updated_at := u\<rparr>) = row_normal r"
  "row_normal (r\<lparr>j_status := s, j_error_count := a, j_consecutive_errors := b, j_last_error := c,
     j_next_run_at := d, j_backoff_until := e, j_updated_at := u\<rparr>) = row_normal r"
  by (rule row_normal_cong; simp)+

lemma frees_clear:
  "row_normal q \<Longrightarrow> j_id q = j_id r \<Longrightarrow> j_idempotency_key q = j_idempotency_key r \<Longrightarrow>
   frees r (clear_reservation q)"
  by (simp add: frees_def)

lemma frees_updated:
  "frees r (q\<lparr>j_updated_at := u\<rparr>) = frees r q" "frees r (q\<lparr>j_status := s\<rparr>) = frees r q"
proof -
  have "row_normal (q\<lparr>j_status := s\<rparr>) = row_normal q" by (rule row_normal_cong) simp_all
  then show "frees r (q\<lparr>j_updated_at := u\<rparr>) = frees r q" "frees r (q\<lparr>j_status := s\<rparr>) = frees r q"
    by (simp_all add: frees_def)
qed

lemma give_job_frees:
  assumes "row_normal job" and "\<not> give_deletes op job"
  shows "frees job (give_job op job)"
proof (cases op)
  case (G_Release now)
  then show ?thesis using assms(1) frees_clear [of job job] by (simp add: Let_def frees_updated)
next
  case (G_Missing_Handler error now)
  then show ?thesis using assms(1)
    by simp (intro frees_clear; simp add: row_normal_def job_contract_def)
next
  case (G_Finish zone exe now)
  obtain job' del where r: "apply_result_state zone job exe now = (job', del)" by fastforce
  have "frees job job'"
    using assms(1) apply_result_frees [OF r] row_normal_apply [OF r] by (simp add: frees_def)
  then show ?thesis using G_Finish r assms(1) frees_clear [of job job] by simp
qed

lemma give_reservation_own:
  assumes ok: "store_ok st" and "tok \<noteq> []" and h: "lease_holder st jid = Some tok"
  shows "store_ok (give_reservation op st jid tok) \<and>
    lease_holder (give_reservation op st jid tok) jid = None \<and>
    (\<forall>k. k \<noteq> jid \<longrightarrow> lease_holder (give_reservation op st jid tok) k = lease_holder st k)"
  unfolding give_reservation_def end_reservation_alt
proof (rule owner_save_gives_back [OF assms])
  fix r assume r: "find_row jid (st_jobs st) = Some r"
  then have n: "row_normal (read_back r)" "j_id r = jid"
    using ok by (auto simp: store_ok_def dest: find_row_Some)
  show "(\<exists>job. give_action op st (read_back r) = save st job \<and> frees r job) \<or>
      give_action op st (read_back r) = Inr (delete st jid)"
    using give_job_frees [OF n(1), of op] n(2) by (auto simp: give_action_def frees_def)
qed

lemma give_reservation_other:
  "store_ok st \<Longrightarrow> tok \<noteq> [] \<Longrightarrow> lease_holder st jid \<noteq> Some tok \<Longrightarrow> give_reservation op st jid tok = st"
  by (simp add: give_reservation_def end_reservation_alt owner_check_keeps after_def)

interpretation reservations: lease store_ok "\<lambda>t. t \<noteq> []" lease_holder take_reservation give_reservation
proof
  show "store_ok s' \<and> lease_holder s k = None \<and> lease_holder s' k = Some t \<and>
      (\<forall>k'. k' \<noteq> k \<longrightarrow> lease_holder s' k' = lease_holder s k')"
    if "store_ok s" "t \<noteq> []" "take_reservation a s k t = Some s'" for s t a k s'
    using take_reservation_free [OF that] .
qed (simp_all add: give_reservation_other give_reservation_own)

section \<open>What the store promises\<close>

text \<open>Reservations, releases, finished runs and missing handlers, in any order.\<close>

datatype reserve_event =
    Ev_Take reserve_args string string
  | Ev_Give give_op string string

fun reserve_event_step :: "store \<Rightarrow> reserve_event \<Rightarrow> store" where
  "reserve_event_step st (Ev_Take a jid tok) = (case take_reservation a st jid tok of None \<Rightarrow> st | Some st' \<Rightarrow> st')"
| "reserve_event_step st (Ev_Give op jid tok) = give_reservation op st jid tok"

fun event_token :: "reserve_event \<Rightarrow> string" where
  "event_token (Ev_Take a jid tok) = tok"
| "event_token (Ev_Give op jid tok) = tok"

fun as_lease_event :: "reserve_event \<Rightarrow> (reserve_args, give_op, string, string) lease_event" where
  "as_lease_event (Ev_Take a jid tok) = Take a jid tok"
| "as_lease_event (Ev_Give op jid tok) = Give op jid tok"

lemma lease_step_event: "reservations.lease_step st (as_lease_event e) = reserve_event_step st e"
  by (cases e) simp_all

lemma lease_steps_events:
  "foldl reservations.lease_step st (map as_lease_event es) = foldl reserve_event_step st es"
  by (induction es arbitrary: st) (simp_all add: lease_step_event)

lemma event_token_lease [simp]: "reservations.token_of (as_lease_event e) = event_token e"
  by (cases e) simp_all

lemma Give_in_events: "Give op jid tok \<in> as_lease_event ` set es \<longleftrightarrow> Ev_Give op jid tok \<in> set es"
proof
  assume "Give op jid tok \<in> as_lease_event ` set es"
  then obtain e where "e \<in> set es" "as_lease_event e = Give op jid tok" by auto
  then show "Ev_Give op jid tok \<in> set es" by (cases e rule: reserve_event.exhaust) simp_all
qed (force intro: image_eqI [where x = "Ev_Give op jid tok"])

text \<open>C1: Once a job is reserved under a token, no reservation of that job succeeds, whatever other
  reservations, releases, missing-handler reports and finished runs happen in between, until an
  operation carrying that token ends it: a job never runs twice at once.\<close>

theorem one_run_at_a_time:
  assumes "store_ok st" and "tok \<noteq> []" and "take_reservation a st jid tok = Some st'"
    and "\<forall>e \<in> set es. event_token e \<noteq> []" and "\<forall>op. Ev_Give op jid tok \<notin> set es" and "tok' \<noteq> []"
  shows "take_reservation a' (foldl reserve_event_step st' es) jid tok' = None \<and>
    lease_holder (foldl reserve_event_step st' es) jid = Some tok"
proof
  have ev: "\<forall>e \<in> set (map as_lease_event es). reservations.token_of e \<noteq> []"
    "\<forall>b. Give b jid tok \<notin> set (map as_lease_event es)"
    using assms(4,5) by (auto simp: Give_in_events)
  show "take_reservation a' (foldl reserve_event_step st' es) jid tok' = None"
    using reservations.exclusive [OF assms(1,2,3) ev assms(6)] by (simp add: lease_steps_events)
  have "store_ok st'" "lease_holder st' jid = Some tok"
    using take_reservation_free [OF assms(1-3)] by auto
  from reservations.held_until_given [OF this(1) ev(1) this(2) ev(2)]
  show "lease_holder (foldl reserve_event_step st' es) jid = Some tok" by (simp add: lease_steps_events)
qed

theorem reserve_accepts_or_explains:
  assumes "store_ok st"
  shows "\<exists>st' res. reserve_job_for_run st jid now due src ow tok = Inr (st', res) \<and>
    (case res of
       Reserved rv \<Rightarrow>
         \<exists>r. find_row jid (st_jobs st) = Some r \<and> reservable due now r \<and> rv_token rv = tok \<and>
           j_status (rv_job rv) = RUNNING \<and> j_reservation_token (rv_job rv) = tok \<and>
           rv_scheduled_run_at rv = j_next_run_at r \<and>
           find_row jid (st_jobs st') = Some (mark_reserved tok now ow src r)
     | Rejected rj \<Rightarrow> st' = st \<and> rj_message rj = [] \<and>
         (case find_row jid (st_jobs st) of
            None \<Rightarrow> rj_reason rj = NOT_FOUND
          | Some r \<Rightarrow> \<not> reservable due now r \<and>
             (rj_reason rj = BUSY \<longleftrightarrow> j_reservation_token r \<noteq> [] \<or> j_status r = RUNNING) \<and>
             (rj_reason rj = NOT_DUE \<longleftrightarrow> due \<and> \<not> at_or_before (j_next_run_at r) now \<and>
                reservable False now r)))"
proof (cases "find_row jid (st_jobs st)")
  case None
  then show ?thesis using reserve_cases [OF assms, of jid now due src ow tok]
    by (simp add: rejection_def)
next
  case (Some r)
  show ?thesis
  proof (cases "reservable due now r")
    case True
    then show ?thesis using Some reserve_cases [OF assms, of jid now due src ow tok]
      by (simp add: find_reserve_rows)
  next
    case False
    have "rj_message (classify_rejection due now jid (Some (read_back r))) = [] \<and>
       (rj_reason (classify_rejection due now jid (Some (read_back r))) = BUSY \<longleftrightarrow>
          j_reservation_token r \<noteq> [] \<or> j_status r = RUNNING) \<and>
       (rj_reason (classify_rejection due now jid (Some (read_back r))) = NOT_DUE \<longleftrightarrow>
          due \<and> \<not> at_or_before (j_next_run_at r) now \<and> reservable False now r)"
      using False by (auto simp: classify_rejection_def rejection_def reservable_def past_backoff_def)
    then show ?thesis using False Some reserve_cases [OF assms, of jid now due src ow tok] by simp
  qed
qed

section \<open>Due jobs\<close>

lemma due_instant_read_back [simp]: "due_instant (read_back r) = due_instant r"
  by (simp add: due_instant_def)

lemma iter_due_ok:
  assumes "store_ok st"
  shows "iter_due st now = Inr (map read_back (sort_key due_instant (filter (is_due now) (st_jobs st))))"
  using assms by (simp add: iter_due_def store_ok_def read_rows_ok)

theorem due_jobs_are_reservable:
  assumes "store_ok st"
  shows "\<exists>js. iter_due st now = Inr js \<and> sorted (map due_instant js) \<and> distinct (map j_id js) \<and>
    (\<forall>jid src ow tok. (\<exists>st' rv. reserve_due_job st jid now src ow tok = Inr (st', Reserved rv)) \<longleftrightarrow>
       (\<exists>j \<in> set js. j_id j = jid \<and> j_reservation_token j = []))"
proof -
  define due where "due = sort_key due_instant (filter (is_due now) (st_jobs st))"
  have set: "set due = {r \<in> set (st_jobs st). is_due now r}" by (simp add: due_def)
  have d: "distinct (map j_id (st_jobs st))" using assms by (simp add: store_ok_def)
  have "sorted (map due_instant due)" by (simp add: due_def)
  then have sorted: "sorted (map due_instant (map read_back due))"
    by (simp add: comp_def)
  have dist: "distinct (map j_id (map read_back due))"
    using distinct_map_filter [OF d, of "is_due now"] by (simp add: distinct_map due_def comp_def)
  have res: "(\<exists>st' rv. reserve_due_job st jid now src ow tok = Inr (st', Reserved rv)) \<longleftrightarrow>
       (\<exists>r. find_row jid (st_jobs st) = Some r \<and> reservable True now r)" for jid src ow tok
    using reserve_cases [OF assms, of jid now True src ow tok]
    by (auto simp: reserve_due_job_def split: option.splits)
  have "(\<exists>r. find_row jid (st_jobs st) = Some r \<and> reservable True now r) \<longleftrightarrow>
       (\<exists>j \<in> set (map read_back due). j_id j = jid \<and> j_reservation_token j = [])" for jid
  proof
    assume "\<exists>r. find_row jid (st_jobs st) = Some r \<and> reservable True now r"
    then obtain r where r: "find_row jid (st_jobs st) = Some r" "reservable True now r" by auto
    with find_row_Some [OF r(1)] have "r \<in> set due" "j_id r = jid" "j_reservation_token r = []"
      by (auto simp: set is_due_def reservable_def)
    then show "\<exists>j \<in> set (map read_back due). j_id j = jid \<and> j_reservation_token j = []" by auto
  next
    assume "\<exists>j \<in> set (map read_back due). j_id j = jid \<and> j_reservation_token j = []"
    then obtain r where r: "r \<in> set due" "j_id r = jid" "j_reservation_token r = []" by auto
    then have "find_row jid (st_jobs st) = Some r" using find_row_distinct [OF d, of r] by (simp add: set)
    then show "\<exists>r. find_row jid (st_jobs st) = Some r \<and> reservable True now r"
      using r by (auto simp: set is_due_def reservable_def)
  qed
  then show ?thesis
    using iter_due_ok [OF assms, of now] sorted dist res by (auto simp: due_def simp del: set_map)
qed

lemma foldr_min_mem: "foldr min ts (t::int) \<in> insert t (set ts)"
  by (induction ts) (auto simp: min_def)

lemma foldr_min_le: "u \<in> insert t (set ts) \<Longrightarrow> foldr min ts (t::int) \<le> u"
  by (induction ts arbitrary: u) (auto simp: min_def, force+)

lemma min_opt_Some: "min_opt ts = Some t \<longleftrightarrow> t \<in> set ts \<and> (\<forall>u \<in> set ts. t \<le> u)"
proof (cases ts)
  case (Cons a as)
  then show ?thesis
    using foldr_min_mem [of as a] foldr_min_le [of _ a as]
    by (auto simp: min_opt_def intro: antisym)
qed (simp add: min_opt_def)

text \<open>
  The wake-up time ignores the backoff that the due query honours: while a job waits out its backoff
  past its next run, the loop is told that something is due and finds nothing.
\<close>

theorem backing_off_job_wakes_loop:
  assumes "r \<in> set (st_jobs st)" and "store_ok st" and "j_status r = PENDING" and "j_enabled r"
    and "j_next_run_at r = Some t" and "t \<le> now" and "j_backoff_until r = Some b" and "now < b"
    and "\<forall>q \<in> set (st_jobs st). q \<noteq> r \<longrightarrow> \<not> is_due now q"
  shows "(\<exists>u \<le> now. next_due_at st = Some u) \<and> iter_due st now = Inr []"
proof
  define ts where "ts = map due_instant
      (filter (\<lambda>r. j_status r = PENDING \<and> j_enabled r \<and> j_next_run_at r \<noteq> None) (st_jobs st))"
  have t: "t \<in> set ts" using assms by (force simp: ts_def due_instant_def)
  then have "\<exists>u. min_opt ts = Some u" by (cases ts) (auto simp: min_opt_def)
  then obtain u where "min_opt ts = Some u" by blast
  moreover have "next_due_at st = min_opt ts" by (simp add: next_due_at_def ts_def)
  ultimately show "\<exists>u \<le> now. next_due_at st = Some u"
    using min_opt_Some [of ts u] t assms(6) by auto
  have "\<not> is_due now r" using assms by (simp add: is_due_def past_backoff_def at_or_before_def)
  then have "filter (is_due now) (st_jobs st) = []" using assms(9) by (auto simp: filter_empty_conv)
  then show "iter_due st now = Inr []" by (simp add: iter_due_ok [OF assms(2)])
qed

section \<open>Idempotent creation\<close>

theorem create_twice_is_create_once:
  assumes "store_ok st" and "j_idempotency_key job \<noteq> []" and "create_or_get st job = Inr (st', j)"
    and "j_idempotency_key again = j_idempotency_key job"
  shows "store_ok st' \<and>
    (\<exists>e. create_or_get st' again = Inr (st', e) \<and> j_deduplicated e \<and> j_id e = j_id j)"
proof -
  define key where "key = j_idempotency_key job"
  have key: "key \<noteq> []" using assms(2) by (simp add: key_def)
  have by_key: "get_by_idempotency_key s key =
      Inr (map_option read_back (find (\<lambda>r. j_idempotency_key r = key) (st_jobs s)))" if "store_ok s" for s
  proof (cases "find (\<lambda>r. j_idempotency_key r = key) (st_jobs s)")
    case (Some r)
    then have "row_normal r" using that by (auto simp: find_Some_iff store_ok_def)
    then show ?thesis using Some key by (simp add: get_by_idempotency_key_def read_opt_def row_to_job_normal)
  qed (use key in \<open>simp add: get_by_idempotency_key_def read_opt_def\<close>)
  show ?thesis
  proof (cases "find (\<lambda>r. j_idempotency_key r = key) (st_jobs st)")
    case (Some r)
    then have "st' = st" "j_id j = j_id r"
      using assms(2,3) by_key [OF assms(1)] by (auto simp: create_or_get_def key_def)
    then show ?thesis
      using assms(1,2,4) by_key [OF assms(1)] Some by (simp add: create_or_get_def key_def)
  next
    case None
    then have s: "save st job = Inr st'" "j = job"
      using assms(2,3) by_key [OF assms(1)]
      by (auto simp: create_or_get_def key_def split: sum.splits sched_exc.splits)
    have ok: "store_ok st'" by (rule save_ok [OF assms(1) s(1)])
    obtain row where row: "row_of job = Inr row" "st_jobs st' = upsert row (st_jobs st)"
      using s(1) by (auto simp: save_def split: if_splits)
    have same: "j_id row = j_id job" "j_idempotency_key row = key"
      using row_of_same [OF row(1)] by (simp_all add: key_def)
    have "\<exists>c. row\<lparr>j_created_at := c\<rparr> \<in> set (upsert row rows)" for rows
      by (induction rows) (auto intro: exI [of _ "j_created_at row"])
    then obtain c where "row\<lparr>j_created_at := c\<rparr> \<in> set (st_jobs st')" using row(2) by auto
    then have ex: "\<exists>r \<in> set (st_jobs st'). j_idempotency_key r = key \<and> j_id r = j_id job"
      using same by (intro bexI [of _ "row\<lparr>j_created_at := c\<rparr>"]) simp_all
    then obtain q where q: "find (\<lambda>r. j_idempotency_key r = key) (st_jobs st') = Some q"
      using find_None_iff [of "\<lambda>r. j_idempotency_key r = key" "st_jobs st'"] by fastforce
    have "j_id q = j_id job"
      using q ex ok key unfolding store_ok_def keys_unique_def find_Some_iff by (metis nth_mem)
    then show ?thesis
      using q ok s(2) assms(2,4) by_key [OF ok] by (simp add: create_or_get_def key_def)
  qed
qed

section \<open>Migration\<close>

lemma legacy_row_normal: "normalize_legacy_row r = Inr r' \<Longrightarrow> row_normal r'"
  unfolding normalize_legacy_row_def job_contract_def row_normal_def with_contract_def
  by (auto simp: contract_origin_normal dest: contract_target normalize_contract_again split: prod.splits)

lemma legacy_row_fix: "row_normal r \<Longrightarrow> normalize_legacy_row r = Inr r"
  by (simp add: row_normal_def normalize_legacy_row_def with_contract_def)

lemma legacy_rows:
  "normalize_legacy_rows rs = Inr rs' \<Longrightarrow>
   (\<forall>r \<in> set rs'. row_normal r) \<and> normalize_legacy_rows rs' = Inr rs' \<and> map j_id rs' = map j_id rs"
proof (induction rs arbitrary: rs')
  case (Cons r rs)
  then obtain r' rs'' where r: "normalize_legacy_row r = Inr r'" "normalize_legacy_rows rs = Inr rs''"
      "rs' = r' # rs''" by auto
  have "j_id r' = j_id r" using r(1) by (auto simp: normalize_legacy_row_def with_contract_def split: prod.splits)
  then show ?case
    using Cons.IH [OF r(2)] legacy_row_normal [OF r(1)] legacy_row_fix [of r'] r(3) by simp
qed simp

theorem migrate_idem:
  assumes "migrate st = Inr st'"
  shows "migrate st' = Inr st' \<and> (\<forall>r \<in> set (st_jobs st'). row_normal r) \<and>
    map j_id (st_jobs st') = map j_id (st_jobs st)"
proof -
  obtain rows where "normalize_legacy_rows (st_jobs st) = Inr rows" "st' = st\<lparr>st_jobs := rows\<rparr>"
    using assms by (auto simp: migrate_def)
  then show ?thesis using legacy_rows [of "st_jobs st" rows] by (simp add: migrate_def)
qed

section \<open>Pruning\<close>

abbreviation runs_of :: "string \<Rightarrow> job_execution list \<Rightarrow> job_execution list" where
  "runs_of jid runs \<equiv> filter (\<lambda>e. je_job_id e = jid) runs"

definition newest_runs :: "nat \<Rightarrow> string \<Rightarrow> job_execution list \<Rightarrow> job_execution set" where
  "newest_runs n jid runs = set (take n (newest_first (runs_of jid runs)))"

lemma newest_runs_subset: "newest_runs n jid runs \<subseteq> {e \<in> set runs. je_job_id e = jid}"
  using set_take_subset [of n "newest_first (runs_of jid runs)"]
  by (auto simp: newest_runs_def newest_first_def)

lemma prune_job_filter:
  assumes "distinct (map je_id runs)"
  shows "prune_job n jid runs = filter (\<lambda>e. je_job_id e = jid \<longrightarrow> e \<in> newest_runs n jid runs) runs"
proof -
  have "je_id e \<in> je_id ` newest_runs n jid runs \<longleftrightarrow> e \<in> newest_runs n jid runs" if "e \<in> set runs" for e
    using assms that newest_runs_subset [of n jid runs] by (auto simp: distinct_map dest: inj_onD)
  then show ?thesis
    by (auto simp: prune_job_def Let_def newest_runs_def intro!: filter_cong)
qed

lemma newest_runs_cong: "runs_of jid a = runs_of jid b \<Longrightarrow> newest_runs n jid a = newest_runs n jid b"
  by (simp add: newest_runs_def)

lemma prune_fold:
  "distinct (map je_id runs) \<Longrightarrow> distinct jids \<Longrightarrow>
   fold (prune_job n) jids runs =
     filter (\<lambda>e. je_job_id e \<in> set jids \<longrightarrow> e \<in> newest_runs n (je_job_id e) runs) runs"
proof (induction jids arbitrary: runs)
  case (Cons jid jids)
  define runs' where "runs' = prune_job n jid runs"
  have r': "runs' = filter (\<lambda>e. je_job_id e = jid \<longrightarrow> e \<in> newest_runs n jid runs) runs"
    unfolding runs'_def by (rule prune_job_filter [OF Cons.prems(1)])
  have "distinct (map je_id runs')" using Cons.prems(1) by (simp add: r' distinct_map_filter)
  then have f: "fold (prune_job n) (jid # jids) runs =
      filter (\<lambda>e. je_job_id e \<in> set jids \<longrightarrow> e \<in> newest_runs n (je_job_id e) runs') runs'"
    using Cons.IH Cons.prems(2) by (simp add: runs'_def)
  have "newest_runs n (je_job_id e) runs' = newest_runs n (je_job_id e) runs" if "je_job_id e \<in> set jids" for e
    using Cons.prems(2) that by (intro newest_runs_cong) (auto simp: r' intro!: filter_cong)
  then show ?case unfolding f unfolding r' filter_filter
    using Cons.prems(2) by (intro filter_cong) auto
qed simp

lemma newest_runs_newer:
  assumes "e \<in> set runs" and "je_job_id e = jid" and "e \<notin> newest_runs n jid runs"
    and "distinct (map je_id runs)"
  shows "card (newest_runs n jid runs) = n \<and>
    (\<forall>k \<in> newest_runs n jid runs. je_started_at e \<le> je_started_at k)"
proof -
  define xs where "xs = newest_first (runs_of jid runs)"
  have e: "e \<in> set xs" "e \<notin> set (take n xs)" using assms by (simp_all add: xs_def newest_first_def newest_runs_def)
  have d: "distinct xs" using assms(4) by (simp add: xs_def newest_first_def distinct_map)
  have drop: "e \<in> set (drop n xs)" using e by (metis UnE append_take_drop_id set_append)
  then have "n \<le> length xs" by (cases "n \<le> length xs") auto
  then have "card (set (take n xs)) = n" using d by (simp add: distinct_card)
  moreover have "sorted (map (\<lambda>e. - je_started_at e) xs)" by (simp add: xs_def newest_first_def)
  then have "sorted (map (\<lambda>e. - je_started_at e) (take n xs) @ map (\<lambda>e. - je_started_at e) (drop n xs))"
    by (metis append_take_drop_id map_append)
  then have "\<forall>k \<in> set (take n xs). je_started_at e \<le> je_started_at k"
    using drop by (auto simp: sorted_append)
  ultimately show ?thesis by (simp add: newest_runs_def xs_def)
qed

theorem prune_runs_keeps_newest:
  assumes "distinct (map je_id (st_runs st))" and "prune_runs st now days n = (st', k)"
  shows "st_jobs st' = st_jobs st \<and> k + length (st_runs st') = length (st_runs st) \<and>
    (\<forall>jid. length (runs_of jid (st_runs st')) \<le> n) \<and>
    (\<forall>e \<in> set (st_runs st). e \<notin> set (st_runs st') \<longrightarrow>
       je_started_at e < now - days * day_us \<or>
       length (runs_of (je_job_id e) (st_runs st')) = n \<and>
       (\<forall>q \<in> set (st_runs st'). je_job_id q = je_job_id e \<longrightarrow> je_started_at e \<le> je_started_at q))"
proof -
  define recent where "recent = filter (\<lambda>e. \<not> je_started_at e < now - days * day_us) (st_runs st)"
  define kept where "kept = filter (\<lambda>e. e \<in> newest_runs n (je_job_id e) recent) recent"
  have d: "distinct (map je_id recent)" using assms(1) by (simp add: recent_def distinct_map_filter)
  have "fold (prune_job n) (remdups (map je_job_id recent)) recent = kept"
    unfolding prune_fold [OF d distinct_remdups] kept_def by (intro filter_cong) auto
  then have st': "st' = st\<lparr>st_runs := kept\<rparr>" "k = length (st_runs st) - length kept"
    using assms(2) by (auto simp: prune_runs_def Let_def recent_def)
  have le: "length kept \<le> length (st_runs st)"
    unfolding kept_def recent_def by (meson length_filter_le order_trans)
  have mine: "set (runs_of jid kept) = newest_runs n jid recent" for jid
    using newest_runs_subset [of n jid recent] by (auto simp: kept_def)
  have dk: "distinct (runs_of jid kept)" for jid
    using d by (simp add: kept_def distinct_map)
  have card: "length (runs_of jid kept) = card (newest_runs n jid recent)" for jid
    using distinct_card [OF dk, of jid] mine [of jid] by simp
  have "card (newest_runs n jid recent) \<le> n" for jid
    unfolding newest_runs_def
    by (rule order_trans [OF card_length]) simp
  moreover have "length (runs_of (je_job_id e) kept) = n \<and>
      (\<forall>q \<in> set kept. je_job_id q = je_job_id e \<longrightarrow> je_started_at e \<le> je_started_at q)"
    if "e \<in> set recent" "e \<notin> set kept" for e
  proof -
    have "e \<notin> newest_runs n (je_job_id e) recent" using that by (simp add: kept_def)
    from newest_runs_newer [OF that(1) refl this d] show ?thesis
      using card [of "je_job_id e"] mine [of "je_job_id e"] by auto
  qed
  ultimately show ?thesis using st' le card by (auto simp: recent_def)
qed


section \<open>Instances\<close>

text \<open>A one-job store.\<close>

definition one_job :: "(cron_job \<Rightarrow> cron_job) \<Rightarrow> store" where
  "one_job f = \<lparr>st_jobs = [f (default_job ''j'' 0)], st_runs = []\<rparr>"

lemma row_normal_default [simp]: "row_normal (default_job jid t)"
  by (simp add: row_normal_def job_contract_def default_job_def normalize_contract_def
      known_handler_keys_def kind_outside_def normalize_origin_session_key_def bind_session_def)

lemma store_ok_one: "row_normal (f (default_job ''j'' 0)) \<Longrightarrow> store_ok (one_job f)"
  by (simp add: store_ok_def one_job_def keys_unique_def)

lemma save_get_witness:
  "\<exists>st'. save (one_job id) (default_job ''k'' 5) = Inr st' \<and>
     get st' ''k'' = Inr (Some (read_back (default_job ''k'' 5)))"
proof -
  have "(default_job ''k'' 5)\<lparr>j_deduplicated := False\<rparr> = default_job ''k'' 5" by (simp add: default_job_def)
  then have row: "row_of (default_job ''k'' 5) = Inr (default_job ''k'' 5)"
    using row_of_of_normal [of "default_job ''k'' 5"] by simp
  then obtain st' where s: "save (one_job id) (default_job ''k'' 5) = Inr st'"
    by (simp add: save_def key_conflict_def) (simp add: default_job_def)
  have "store_ok (one_job id)" by (rule store_ok_one) simp
  from save_get [OF this s] row show ?thesis using s
    by (auto simp: one_job_def find_row_def keep_created_def default_job_def)
qed

lemma one_run_at_a_time_witness:
  "\<exists>st'. take_reservation (Reserve_Args 9 False ''timer'' ''t'') (one_job id) ''j'' ''a'' = Some st' \<and>
     take_reservation (Reserve_Args 11 False ''manual'' ''m'')
       (reserve_event_step st' (Ev_Give (G_Release 10) ''j'' ''b'')) ''j'' ''c'' = None"
proof -
  have ok: "store_ok (one_job id)" by (rule store_ok_one) simp
  have "reservable False 9 (default_job ''j'' 0)"
    by (simp add: reservable_def default_job_def past_backoff_def)
  then obtain st' where t: "take_reservation (Reserve_Args 9 False ''timer'' ''t'') (one_job id) ''j'' ''a'' = Some st'"
    using reserve_cases [OF ok, of "''j''" 9 False "''timer''" "''t''" "''a''"]
    by (simp add: one_job_def find_row_def default_job_def)
  have ev: "\<forall>e \<in> set [Ev_Give (G_Release 10) ''j'' ''b'']. event_token e \<noteq> []"
    "\<forall>op. Ev_Give op ''j'' ''a'' \<notin> set [Ev_Give (G_Release 10) ''j'' ''b'']" by auto
  show ?thesis
    using t one_run_at_a_time [OF ok _ t ev, of "''c''" "Reserve_Args 11 False ''manual'' ''m''"] by simp
qed

lemma reserve_accepts_or_explains_witness:
  "\<exists>rj. reserve_job_for_run (one_job (\<lambda>j. j\<lparr>j_next_run_at := Some 50\<rparr>)) ''j'' 9 True ''timer'' ''t'' ''a'' =
      Inr (one_job (\<lambda>j. j\<lparr>j_next_run_at := Some 50\<rparr>), Rejected rj) \<and> rj_reason rj = NOT_DUE"
proof -
  define st where "st = one_job (\<lambda>j. j\<lparr>j_next_run_at := Some 50\<rparr>)"
  have "row_normal ((default_job ''j'' 0)\<lparr>j_next_run_at := Some 50\<rparr>)"
    using row_normal_default [of "''j''" 0] by (simp add: row_normal_def job_contract_def)
  then have ok: "store_ok st" unfolding st_def by (rule store_ok_one)
  have f: "find_row ''j'' (st_jobs st) = Some ((default_job ''j'' 0)\<lparr>j_next_run_at := Some 50\<rparr>)"
    by (simp add: st_def one_job_def find_row_def default_job_def)
  have "\<not> reservable True 9 ((default_job ''j'' 0)\<lparr>j_next_run_at := Some 50\<rparr>)"
    "reservable False 9 ((default_job ''j'' 0)\<lparr>j_next_run_at := Some 50\<rparr>)"
    by (simp_all add: reservable_def at_or_before_def past_backoff_def default_job_def)
  moreover obtain st' res where "reserve_job_for_run st ''j'' 9 True ''timer'' ''t'' ''a'' = Inr (st', res)"
    and "case res of
       Reserved rv \<Rightarrow> \<exists>r. find_row ''j'' (st_jobs st) = Some r \<and> reservable True 9 r
     | Rejected rj \<Rightarrow> st' = st \<and> (\<forall>r. find_row ''j'' (st_jobs st) = Some r \<longrightarrow>
         (rj_reason rj = NOT_DUE \<longleftrightarrow> True \<and> \<not> at_or_before (j_next_run_at r) 9 \<and> reservable False 9 r))"
    using reserve_accepts_or_explains [OF ok, of "''j''" 9 True "''timer''" "''t''" "''a''"]
    by (elim exE conjE) (rename_tac st' res, case_tac res; simp add: f)
  ultimately show ?thesis unfolding st_def [symmetric]
    by (cases res) (simp_all add: f at_or_before_def)
qed

lemma due_jobs_are_reservable_witness:
  "\<exists>js. iter_due (one_job id) 9 = Inr js \<and>
     (\<forall>src ow tok. (\<exists>st' rv. reserve_due_job (one_job id) ''j'' 9 src ow tok = Inr (st', Reserved rv)) \<longleftrightarrow>
        (\<exists>j \<in> set js. j_id j = ''j'' \<and> j_reservation_token j = []))"
  using due_jobs_are_reservable [OF store_ok_one [of id], of 9] by auto

lemma backing_off_job_wakes_loop_witness:
  "\<exists>st. iter_due st 70 = Inr [] \<and> (\<exists>u \<le> 70. next_due_at st = Some u)"
proof -
  define r where "r = (default_job ''j'' 0)\<lparr>j_next_run_at := Some 60, j_backoff_until := Some 90\<rparr>"
  define st where "st = one_job (\<lambda>j. j\<lparr>j_next_run_at := Some 60, j_backoff_until := Some 90\<rparr>)"
  have n: "row_normal r"
    using row_normal_default [of "''j''" 0] by (simp add: r_def row_normal_def job_contract_def)
  then have ok: "store_ok st" unfolding st_def r_def by (rule store_ok_one)
  have "(\<exists>u \<le> 70. next_due_at st = Some u) \<and> iter_due st 70 = Inr []"
    by (rule backing_off_job_wakes_loop [of r st 60 70 90])
      (use ok in \<open>simp_all add: st_def one_job_def r_def default_job_def\<close>)
  then show ?thesis by blast
qed

lemma create_twice_is_create_once_witness:
  "\<exists>st' j. create_or_get (one_job id) ((default_job ''k'' 0)\<lparr>j_idempotency_key := ''x''\<rparr>) = Inr (st', j) \<and>
     (\<exists>e. create_or_get st' ((default_job ''l'' 7)\<lparr>j_idempotency_key := ''x''\<rparr>) = Inr (st', e) \<and>
        j_deduplicated e \<and> j_id e = j_id j)"
proof -
  define job where "job = (default_job ''k'' 0)\<lparr>j_idempotency_key := ''x''\<rparr>"
  have ok: "store_ok (one_job id)" by (rule store_ok_one) simp
  have n: "row_normal job"
    using row_normal_default [of "''k''" 0] by (simp add: job_def row_normal_def job_contract_def)
  have "is_ok (create_or_get (one_job id) job)"
    using row_of_of_normal [OF n]
    by (simp add: create_or_get_def get_by_idempotency_key_def read_opt_def save_def key_conflict_def
        one_job_def job_def default_job_def)
  then obtain st' j where c: "create_or_get (one_job id) job = Inr (st', j)" by (auto simp: is_ok_iff)
  have "j_idempotency_key job \<noteq> []" by (simp add: job_def)
  from create_twice_is_create_once [OF ok this c, of "(default_job ''l'' 7)\<lparr>j_idempotency_key := ''x''\<rparr>"]
  show ?thesis using c by (auto simp: job_def)
qed

lemma migrate_idem_witness:
  "\<exists>st'. migrate (one_job (\<lambda>j. j\<lparr>j_handler_key := ''agent_run''\<rparr>)) = Inr st' \<and> migrate st' = Inr st'"
proof -
  have "is_ok (migrate (one_job (\<lambda>j. j\<lparr>j_handler_key := ''agent_run''\<rparr>)))"
    by (simp add: migrate_def one_job_def normalize_legacy_row_def job_contract_def default_job_def
        normalize_contract_def known_handler_keys_def canonical_contract_lax)
  then obtain st' where "migrate (one_job (\<lambda>j. j\<lparr>j_handler_key := ''agent_run''\<rparr>)) = Inr st'"
    by (auto simp: is_ok_iff)
  with migrate_idem [OF this] show ?thesis by blast
qed

lemma prune_runs_keeps_newest_witness:
  "\<exists>st' k. prune_runs (one_job id) 0 30 100 = (st', k) \<and> k + length (st_runs st') = 0"
proof -
  obtain st' k where p: "prune_runs (one_job id) 0 30 100 = (st', k)" by fastforce
  have "distinct (map je_id (st_runs (one_job id)))" by (simp add: one_job_def)
  from prune_runs_keeps_newest [OF this p] p show ?thesis by (simp add: one_job_def)
qed

end
