(* ===== verification/Session_Keys.thy ===== *)
theory Session_Keys
  imports Py_Prelude
begin

text \<open>
  Session keys, \<open>session/keys.py\<close>, and the identifiers inside them, \<open>agent_ids.py\<close>. A key is
  a colon-separated path; the regular expressions of the source constrain the segments between
  colons (\<open>[^:]+\<close>) and are read here on the list of segments. Strings are Latin-1, on which
  \<open>lower()\<close> keeps the length.
\<close>

abbreviation colon :: char where
  "colon \<equiv> CHR '':''"

section \<open>Identifiers\<close>

definition valid_id_char :: "char \<Rightarrow> bool" where
  "valid_id_char c =
     ((97 \<le> code c \<and> code c \<le> 122) \<or> is_digit c \<or> c = CHR ''_'' \<or> c = CHR ''-'')"

definition sub_invalid :: "string \<Rightarrow> string" where
  "sub_invalid s = map (\<lambda>c. if valid_id_char c then c else CHR ''-'') s"

definition trim_dashes :: "string \<Rightarrow> string" where
  "trim_dashes s =
     rev (dropWhile (\<lambda>c. c = CHR ''-'') (rev (dropWhile (\<lambda>c. c = CHR ''-'') s)))"

definition normalize_id_segment :: "string \<Rightarrow> string" where
  "normalize_id_segment value =
     (let normalized = trim_dashes (sub_invalid (py_lower (py_strip value)))
      in if normalized \<noteq> [] then take 64 normalized else ''default'')"

definition normalize_agent_id :: "string option \<Rightarrow> string" where
  "normalize_agent_id agent_id =
     (let raw = py_strip (case agent_id of None \<Rightarrow> [] | Some s \<Rightarrow> s)
      in if raw = [] \<or> py_lower raw = ''default'' then ''main''
         else let normalized = normalize_id_segment raw
              in if normalized = ''default'' then ''main'' else normalized)"

definition poisoning_keys :: "string list" where
  "poisoning_keys = [''__proto__'', ''constructor'', ''prototype'', ''hasownproperty'']"

definition normalize_account_id :: "string \<Rightarrow> string" where
  "normalize_account_id account_id =
     (if py_lower (py_strip account_id) \<in> set poisoning_keys then ''default''
      else let n = normalize_id_segment account_id in if n \<noteq> [] then n else ''default'')"

section \<open>Building keys\<close>

datatype dm_scope = DM_MAIN | PER_PEER | PER_CHANNEL_PEER | PER_ACCOUNT_CHANNEL_PEER

definition path :: "string list \<Rightarrow> string" where
  "path ws = join [colon] ws"

definition build_main_key :: "string \<Rightarrow> string" where
  "build_main_key agent_id = path [''agent'', normalize_agent_id (Some agent_id), ''main'']"

definition build_webchat_key :: "string \<Rightarrow> string" where
  "build_webchat_key agent_id =
     path [''agent'', normalize_agent_id (Some agent_id), ''webchat'', ''default'']"

definition or_else :: "string option \<Rightarrow> string \<Rightarrow> string" where
  "or_else v dflt = (case v of None \<Rightarrow> dflt | Some s \<Rightarrow> if s = [] then dflt else s)"

fun build_direct_key ::
  "string \<Rightarrow> string \<Rightarrow> string option \<Rightarrow> string option \<Rightarrow> dm_scope \<Rightarrow> string" where
  "build_direct_key agent_id peer_id channel account_id DM_MAIN =
     path [''agent'', normalize_agent_id (Some agent_id), ''main'']"
| "build_direct_key agent_id peer_id channel account_id PER_PEER =
     path [''agent'', normalize_agent_id (Some agent_id), ''direct'', peer_id]"
| "build_direct_key agent_id peer_id channel account_id PER_CHANNEL_PEER =
     path [''agent'', normalize_agent_id (Some agent_id), or_else channel ''unknown'', ''direct'',
           peer_id]"
| "build_direct_key agent_id peer_id channel account_id PER_ACCOUNT_CHANNEL_PEER =
     path [''agent'', normalize_agent_id (Some agent_id), or_else channel ''unknown'',
           normalize_account_id (or_else account_id ''default''), ''direct'', peer_id]"

definition build_group_key :: "string \<Rightarrow> string \<Rightarrow> string \<Rightarrow> string" where
  "build_group_key agent_id channel peer_id =
     path [''agent'', normalize_agent_id (Some agent_id), channel, ''group'', peer_id]"

definition build_group_sender_key :: "string \<Rightarrow> string \<Rightarrow> string \<Rightarrow> string \<Rightarrow> string" where
  "build_group_sender_key agent_id channel peer_id sender_id =
     path [build_group_key agent_id channel peer_id, ''sender'', sender_id]"

definition build_channel_key :: "string \<Rightarrow> string \<Rightarrow> string \<Rightarrow> string" where
  "build_channel_key agent_id channel peer_id =
     path [''agent'', normalize_agent_id (Some agent_id), channel, ''channel'', peer_id]"

definition build_thread_key :: "string \<Rightarrow> string \<Rightarrow> string option \<Rightarrow> string" where
  "build_thread_key base_key thread_id channel_hint =
     path [base_key, if channel_hint = Some ''telegram'' then ''topic'' else ''thread'', thread_id]"

definition build_subagent_key :: "string \<Rightarrow> string" where
  "build_subagent_key base_key = path [''subagent'', base_key]"

definition build_subagent_session_key :: "string \<Rightarrow> string \<Rightarrow> string" where
  "build_subagent_session_key agent_id run_id =
     path [''agent'', normalize_agent_id (Some agent_id), ''subagent'', normalize_id_segment run_id]"

definition build_cron_key :: "string \<Rightarrow> string \<Rightarrow> string" where
  "build_cron_key name run_id = path [''cron'', name, ''run'', run_id]"

section \<open>Reading keys\<close>

function canonicalize_session_key :: "string option \<Rightarrow> string" where
  "canonicalize_session_key session_key =
     (let key = py_strip (case session_key of None \<Rightarrow> [] | Some s \<Rightarrow> s) in
      if key = [] then []
      else if key = ''webchat:default'' then build_webchat_key ''main''
      else if starts_with ''subagent:agent:'' key
      then ''subagent:'' @ canonicalize_session_key (Some (drop 9 key))
      else if starts_with ''agent:'' key
      then (case split_on colon key of
              a # agent # rest \<Rightarrow> path (a # normalize_agent_id (Some agent) # rest)
            | _ \<Rightarrow> key)
      else key)"
  by pat_completeness auto
termination
proof (relation "measure (\<lambda>k. case k of None \<Rightarrow> 0 | Some s \<Rightarrow> length s)", simp)
  fix k :: "string option" and x
  assume x: "x = py_strip (case k of None \<Rightarrow> [] | Some s \<Rightarrow> s)" and ne: "x \<noteq> []"
  then have "length x \<le> (case k of None \<Rightarrow> 0 | Some s \<Rightarrow> length s)"
    by (auto split: option.splits simp: length_py_strip_le)
  moreover have "length (drop 9 x) < length x" using ne by simp
  ultimately show "(Some (drop 9 x), k) \<in> measure (\<lambda>k. case k of None \<Rightarrow> 0 | Some s \<Rightarrow> length s)"
    by simp
qed

declare canonicalize_session_key.simps [simp del]

definition try_suffix :: "string \<Rightarrow> string \<Rightarrow> (string \<times> string) option" where
  "try_suffix marker key =
     map_option (\<lambda>idx. (take idx key, drop (idx + length marker) key)) (py_rfind marker key)"

definition parse_thread_suffix :: "string \<Rightarrow> string \<times> string option" where
  "parse_thread_suffix key =
     (case try_suffix '':thread:'' key of
        Some (b, t) \<Rightarrow> (b, Some t)
      | None \<Rightarrow>
          (case try_suffix '':topic:'' key of
             Some (b, t) \<Rightarrow> (b, Some t)
           | None \<Rightarrow> (key, None)))"

definition is_subagent_key :: "string \<Rightarrow> bool" where
  "is_subagent_key session_key =
     (let key = py_lower (py_strip session_key) in
      starts_with ''subagent:'' key \<or>
      (case split_on colon key of
         [a, agent, s, run] \<Rightarrow> a = ''agent'' \<and> agent \<noteq> [] \<and> s = ''subagent'' \<and> run \<noteq> []
       | _ \<Rightarrow> False))"

definition is_hex64 :: "string \<Rightarrow> bool" where
  "is_hex64 s =
     (length s = 64 \<and> list_all (\<lambda>c. is_digit c \<or> (97 \<le> code c \<and> code c \<le> 102)) s)"

definition is_guest_webchat_key :: "string option \<Rightarrow> bool" where
  "is_guest_webchat_key session_key =
     (case split_on colon (py_lower (canonicalize_session_key session_key)) of
        [a, agent, w, g, h, x] \<Rightarrow>
          a = ''agent'' \<and> agent \<noteq> [] \<and> w = ''webchat'' \<and> g = ''guest'' \<and> is_hex64 h \<and> x \<noteq> []
      | _ \<Rightarrow> False)"

definition parse_agent_id :: "string \<Rightarrow> string" where
  "parse_agent_id session_key =
     (let key = py_strip session_key;
          key = (if starts_with ''subagent:agent:'' key then drop 9 key else key)
      in if starts_with ''agent:'' key
         then (case split_on colon key of
                 a # candidate # rest \<Rightarrow>
                   if candidate \<noteq> [] then normalize_agent_id (Some candidate) else ''main''
               | _ \<Rightarrow> ''main'')
         else ''main'')"

datatype chat_type = CT_GROUP | CT_CHANNEL | CT_DIRECT | CT_UNKNOWN

definition long_segment :: "string \<Rightarrow> string \<Rightarrow> bool" where
  "long_segment p w = (starts_with p w \<and> length p < length w)"

fun discord_guild :: "string list \<Rightarrow> bool" where
  "discord_guild (a # agent # d # x # y # rest) =
     (a = ''agent'' \<and> agent \<noteq> [] \<and> d = ''discord'' \<and>
      ((long_segment ''guild-'' x \<and> long_segment ''channel-'' y) \<or>
       (x \<noteq> [] \<and> long_segment ''guild-'' y \<and>
        (case rest of z # _ \<Rightarrow> long_segment ''channel-'' z | [] \<Rightarrow> False))))"
| "discord_guild _ = False"

definition has_token :: "string \<Rightarrow> string \<Rightarrow> bool" where
  "has_token token key =
     (contains ([colon] @ token @ [colon]) key \<or> ends_with ([colon] @ token) key)"

definition derive_chat_type :: "string \<Rightarrow> chat_type" where
  "derive_chat_type session_key =
     (let key = py_lower session_key in
      if discord_guild (split_on colon key) then CT_CHANNEL
      else if has_token ''group'' key then CT_GROUP
      else if has_token ''channel'' key then CT_CHANNEL
      else if has_token ''direct'' key then CT_DIRECT
      else if has_token ''dm'' key then CT_DIRECT
      else CT_UNKNOWN)"

definition shared_markers :: "string list" where
  "shared_markers = ['':group'', ''group:'', '':channel'', ''channel:'', '':guild'', ''guild:'']"

definition allows_private_memory_prompt_injection :: "string option \<Rightarrow> bool" where
  "allows_private_memory_prompt_injection session_key =
     (let key = canonicalize_session_key session_key in
      if key = [] then True
      else
        let key_lower = py_lower key in
        if is_subagent_key key_lower \<or> is_guest_webchat_key (Some key_lower) \<or>
           starts_with ''cron:'' key_lower
        then False
        else
          let chat_type = derive_chat_type key_lower in
          if chat_type = CT_GROUP \<or> chat_type = CT_CHANNEL then False
          else if chat_type = CT_DIRECT then True
          else \<not> list_ex (\<lambda>marker. contains marker key_lower) shared_markers)"

section \<open>Normalisation of identifiers\<close>

definition id_chars :: "string \<Rightarrow> bool" where
  "id_chars w \<longleftrightarrow> (\<forall>c \<in> set w. valid_id_char c)"

text \<open>The shape of every normalised identifier.\<close>

definition id_shape :: "string \<Rightarrow> bool" where
  "id_shape w \<longleftrightarrow> id_chars w \<and> w \<noteq> [] \<and> hd w \<noteq> CHR ''-'' \<and> length w \<le> 64"

lemma code_underscore [simp]: "code (CHR ''_'') = 95"
  by (simp add: code_def)

lemma valid_id_char_code: "valid_id_char c \<longleftrightarrow>
    (97 \<le> code c \<and> code c \<le> 122) \<or> (48 \<le> code c \<and> code c \<le> 57) \<or> code c = 95 \<or> code c = 45"
  using code_inj [of c "CHR ''_''"] code_inj [of c "CHR ''-''"]
  by (auto simp: valid_id_char_def is_digit_def)

lemma valid_id_char_lower: "valid_id_char c \<Longrightarrow> lower_char c = c"
  by (auto simp: valid_id_char_code code_lower_char code_inj [symmetric])

lemma valid_id_char_not_space: "valid_id_char c \<Longrightarrow> \<not> py_isspace c"
  by (auto simp: valid_id_char_code py_isspace_def Let_def)

lemma valid_id_char_not_colon: "valid_id_char c \<Longrightarrow> c \<noteq> colon"
  by (auto simp: valid_id_char_code code_def)

lemma id_chars_fix:
  assumes "id_chars w"
  shows "py_lower w = w" and "py_strip w = w" and "sub_invalid w = w"
proof -
  show "py_lower w = w" unfolding py_lower_def
    using assms by (intro map_idI) (auto simp: id_chars_def valid_id_char_lower)
  show "py_strip w = w"
    using assms valid_id_char_not_space by (intro py_strip_id) (auto simp: id_chars_def)
  show "sub_invalid w = w" unfolding sub_invalid_def
    using assms by (intro map_idI) (auto simp: id_chars_def)
qed

definition rtrim_dashes :: "string \<Rightarrow> string" where
  "rtrim_dashes s = rev (dropWhile (\<lambda>c. c = CHR ''-'') (rev s))"

lemma trim_dashes_alt: "trim_dashes s = rtrim_dashes (dropWhile (\<lambda>c. c = CHR ''-'') s)"
  by (simp add: trim_dashes_def rtrim_dashes_def)

lemma rtrim_prefix: "\<exists>t. s = rtrim_dashes s @ t"
  using takeWhile_dropWhile_id [of "\<lambda>c. c = CHR ''-''" "rev s"]
  by (metis rev_append rev_rev_ident rtrim_dashes_def)

lemma rtrim_Nil_iff: "rtrim_dashes s = [] \<longleftrightarrow> (\<forall>c \<in> set s. c = CHR ''-'')"
  by (simp add: rtrim_dashes_def dropWhile_eq_Nil_conv)

lemma rtrim_last: "rtrim_dashes s \<noteq> [] \<Longrightarrow> last (rtrim_dashes s) \<noteq> CHR ''-''"
  unfolding rtrim_dashes_def using hd_dropWhile [of "\<lambda>c. c = CHR ''-''" "rev s"]
  by (simp add: last_rev)

lemma rtrim_id_iff: "s \<noteq> [] \<Longrightarrow> rtrim_dashes s = s \<longleftrightarrow> last s \<noteq> CHR ''-''"
proof
  assume "s \<noteq> []" "last s \<noteq> CHR ''-''"
  then obtain a b where "s = a @ [b]" "b \<noteq> CHR ''-''" by (metis append_butlast_last_id)
  then show "rtrim_dashes s = s" by (simp add: rtrim_dashes_def)
qed (metis rtrim_last)

lemma id_shape_rtrim:
  assumes "id_shape w"
  shows "id_shape (rtrim_dashes w)"
proof -
  obtain t where w: "w = rtrim_dashes w @ t" using rtrim_prefix by blast
  have "rtrim_dashes w \<noteq> []"
    using assms by (auto simp: rtrim_Nil_iff id_shape_def intro!: bexI [of _ "hd w"])
  then have "hd (rtrim_dashes w) = hd w" and "set (rtrim_dashes w) \<subseteq> set w"
    and "length (rtrim_dashes w) \<le> length w"
    using w by (metis hd_append2, metis Un_upper1 set_append, metis le_add1 length_append)
  with assms \<open>rtrim_dashes w \<noteq> []\<close> show ?thesis by (auto simp: id_shape_def id_chars_def)
qed

lemma normalize_id_segment_shape: "id_shape (normalize_id_segment v)"
proof -
  define n where "n = trim_dashes (sub_invalid (py_lower (py_strip v)))"
  have chars: "id_chars n"
    by (auto simp: n_def trim_dashes_def id_chars_def sub_invalid_def valid_id_char_code
             dest!: set_dropWhileD)
  have hd: "n \<noteq> [] \<Longrightarrow> hd n \<noteq> CHR ''-''"
  proof -
    assume "n \<noteq> []"
    define s where "s = dropWhile (\<lambda>c. c = CHR ''-'') (sub_invalid (py_lower (py_strip v)))"
    have n: "n = rtrim_dashes s" by (simp add: n_def s_def trim_dashes_alt)
    with \<open>n \<noteq> []\<close> have "s \<noteq> []" by (auto simp: rtrim_dashes_def)
    then have "hd s \<noteq> CHR ''-''" unfolding s_def using hd_dropWhile by blast
    moreover have "hd n = hd s" using rtrim_prefix [of s] \<open>n \<noteq> []\<close> n by (metis hd_append2)
    ultimately show ?thesis by simp
  qed
  show ?thesis
  proof (cases "n = []")
    case True
    then show ?thesis
      by (simp add: normalize_id_segment_def n_def [symmetric] id_shape_def id_chars_def
            valid_id_char_code code_def)
  next
    case False
    then have "normalize_id_segment v = take 64 n"
      by (simp add: normalize_id_segment_def n_def [symmetric])
    with False chars hd show ?thesis by (auto simp: id_shape_def id_chars_def dest: in_set_takeD)
  qed
qed

lemma normalize_id_segment_on_shape:
  assumes "id_shape w"
  shows "normalize_id_segment w = rtrim_dashes w"
proof -
  have "dropWhile (\<lambda>c. c = CHR ''-'') w = w"
    using assms by (cases w) (auto simp: id_shape_def)
  then have "trim_dashes w = rtrim_dashes w" by (simp add: trim_dashes_alt)
  moreover have "id_chars w" using assms by (simp add: id_shape_def)
  ultimately show ?thesis using id_shape_rtrim [OF assms]
    by (simp add: normalize_id_segment_def id_chars_fix id_shape_def)
qed

lemma normalize_agent_id_shape: "id_shape (normalize_agent_id a)"
  using normalize_id_segment_shape
  by (auto simp: normalize_agent_id_def Let_def id_shape_def id_chars_def valid_id_char_code code_def)

lemma normalize_agent_id_not_default: "normalize_agent_id a \<noteq> ''default''"
  by (simp add: normalize_agent_id_def Let_def)

lemma normalize_agent_id_on_shape:
  assumes "id_shape w" and "w \<noteq> ''default''"
  shows "normalize_agent_id (Some w) =
    (if rtrim_dashes w = ''default'' then ''main'' else rtrim_dashes w)"
proof -
  have "id_chars w" "w \<noteq> []" using assms by (simp_all add: id_shape_def)
  then show ?thesis using assms
    by (simp add: normalize_agent_id_def id_chars_fix normalize_id_segment_on_shape)
qed

lemma normalize_agent_id_main [simp]: "normalize_agent_id (Some ''main'') = ''main''"
  by code_simp

theorem normalize_agent_id_fixpoint_iff:
  "normalize_agent_id (Some (normalize_agent_id a)) = normalize_agent_id a \<longleftrightarrow>
   last (normalize_agent_id a) \<noteq> CHR ''-''"
proof -
  define w where "w = normalize_agent_id a"
  have w: "id_shape w" "w \<noteq> ''default''" "w \<noteq> []"
    using normalize_agent_id_shape normalize_agent_id_not_default
    by (auto simp: w_def id_shape_def)
  have "(if rtrim_dashes w = ''default'' then ''main'' else rtrim_dashes w) = w \<longleftrightarrow> rtrim_dashes w = w"
  proof (cases "rtrim_dashes w = ''default''")
    case True
    have "w \<noteq> ''main''" using True by (auto simp: rtrim_dashes_def)
    with True w show ?thesis by auto
  qed simp
  then show ?thesis
    using normalize_agent_id_on_shape [OF w(1,2)] rtrim_id_iff [OF w(3)] by (simp add: w_def)
qed

theorem normalize_agent_id_stable:
  "normalize_agent_id (Some (normalize_agent_id (Some (normalize_agent_id a)))) =
   normalize_agent_id (Some (normalize_agent_id a))"
proof -
  define w where "w = normalize_agent_id a"
  have w: "id_shape w" "w \<noteq> ''default''" "w \<noteq> []"
    using normalize_agent_id_shape normalize_agent_id_not_default
    by (auto simp: w_def id_shape_def)
  have "rtrim_dashes w \<noteq> []" using id_shape_rtrim [OF w(1)] by (simp add: id_shape_def)
  then have "last (normalize_agent_id (Some w)) \<noteq> CHR ''-''"
    using normalize_agent_id_on_shape [OF w(1,2)] rtrim_last [of w] by simp
  then show ?thesis unfolding w_def by (rule normalize_agent_id_fixpoint_iff [THEN iffD2])
qed

section \<open>Keys built and read back\<close>

lemma id_shape_no_colon: "id_shape w \<Longrightarrow> colon \<notin> set w"
  using valid_id_char_not_colon by (auto simp: id_shape_def id_chars_def)

lemma colon_code [simp]: "code colon = 58"
  by (simp add: code_def)

lemma path_Cons: "ws \<noteq> [] \<Longrightarrow> path (w # ws) = w @ colon # path ws"
  by (cases ws) (simp_all add: path_def)

lemma split_path: "ws \<noteq> [] \<Longrightarrow> \<forall>w \<in> set ws. colon \<notin> set w \<Longrightarrow> split_on colon (path ws) = ws"
  unfolding path_def by (rule split_on_join)

lemma split_agent_key:
  "id_shape a \<Longrightarrow> split_on colon (''agent:'' @ a @ colon # r) = ''agent'' # a # split_on colon r"
  using split_on_append [of colon "''agent''" "a @ colon # r"]
    split_on_append [of colon a r] id_shape_no_colon [of a] by simp

lemma colon_not_space [simp]: "\<not> py_isspace colon"
  by (simp add: py_isspace_def code_def Let_def)

lemma agent_key_strip:
  "py_strip (''agent:'' @ a @ colon # r) = ''agent:'' @ a @ colon # py_rstrip r"
proof -
  have "\<not> py_isspace (CHR ''a'')" by (simp add: py_isspace_def code_def Let_def)
  then have "py_lstrip (''agent:'' @ a @ colon # r) = ''agent:'' @ a @ colon # r"
    by (simp add: py_lstrip_def)
  then show ?thesis
    using py_rstrip_keeps [OF colon_not_space, of "''agent:'' @ a" r] by (simp add: py_strip_def)
qed

lemma agent_key_prefixes:
  "starts_with ''agent:'' (''agent:'' @ s)" "\<not> starts_with ''subagent:agent:'' (''agent:'' @ s)"
  "\<not> starts_with ''subagent:'' (''agent:'' @ s)" "\<not> starts_with ''cron:'' (''agent:'' @ s)"
  by (simp_all add: starts_with_def)

lemma parse_agent_key:
  assumes "id_shape a"
  shows "parse_agent_id (''agent:'' @ a @ colon # r) = normalize_agent_id (Some a)"
proof -
  have "a \<noteq> []" using assms by (simp add: id_shape_def)
  then show ?thesis
    using agent_key_prefixes [of "a @ colon # py_rstrip r"] split_agent_key [OF assms, of "py_rstrip r"]
    by (simp add: parse_agent_id_def agent_key_strip [simplified] Let_def)
qed

lemma canonicalize_agent_key:
  assumes "id_shape a"
  shows "canonicalize_session_key (Some (''agent:'' @ a @ colon # r)) =
    ''agent:'' @ normalize_agent_id (Some a) @ colon # py_rstrip r"
proof -
  have "split_on colon (py_rstrip r) \<noteq> []" by simp
  then have "path (''agent'' # b # split_on colon (py_rstrip r)) = ''agent:'' @ b @ colon # py_rstrip r" for b
    by (simp add: path_Cons) (simp add: path_def join_split_on)
  then show ?thesis
    using agent_key_prefixes [of "a @ colon # py_rstrip r"] split_agent_key [OF assms, of "py_rstrip r"]
    by (simp add: canonicalize_session_key.simps [of "Some _"] agent_key_strip [simplified] Let_def)
qed

text \<open>Every builder of an agent-scoped key has this shape.\<close>

lemma agent_path: "ws \<noteq> [] \<Longrightarrow> path (''agent'' # a # ws) = ''agent:'' @ a @ colon # path ws"
  by (simp add: path_Cons)

lemma parse_built_key:
  "ws \<noteq> [] \<Longrightarrow> parse_agent_id (path (''agent'' # normalize_agent_id (Some a) # ws)) =
     normalize_agent_id (Some (normalize_agent_id (Some a)))"
  using parse_agent_key [OF normalize_agent_id_shape] by (simp add: agent_path)

text \<open>
  A group or channel token inside the tail of a key survives stripping, re-normalisation and
  lower-casing, which is why shared conversations are recognised.
\<close>

lemma shared_token_denied:
  assumes "id_shape a" and "tok = ''group'' \<or> tok = ''channel''"
  shows "\<not> allows_private_memory_prompt_injection
     (Some (''agent:'' @ a @ colon # u @ colon # tok @ colon # v))"
proof -
  define key where "key = canonicalize_session_key (Some (''agent:'' @ a @ colon # u @ colon # tok @ colon # v))"
  have "py_rstrip (u @ colon # tok @ colon # v) = u @ colon # tok @ colon # py_rstrip v"
    using py_rstrip_keeps [OF colon_not_space, of "u @ colon # tok" v] by simp
  then have key: "key = ''agent:'' @ normalize_agent_id (Some a) @ colon # u @ colon # tok @ colon # py_rstrip v"
    using canonicalize_agent_key [OF assms(1)] by (simp add: key_def)
  have "py_lower ([colon] @ tok @ [colon]) = [colon] @ tok @ [colon]"
    using assms(2) by (elim disjE; simp) code_simp+
  then have "has_token tok (py_lower key)"
    using containsI [of "[colon] @ tok @ [colon]" "py_lower (''agent:'' @ normalize_agent_id (Some a) @ colon # u)"
        "py_lower (py_rstrip v)"]
    unfolding has_token_def key by simp
  then have "derive_chat_type (py_lower key) \<in> {CT_GROUP, CT_CHANNEL}"
    using assms(2) by (auto simp: derive_chat_type_def Let_def)
  moreover have "key \<noteq> []" by (simp add: key)
  ultimately show ?thesis
    unfolding allows_private_memory_prompt_injection_def key_def [symmetric] Let_def by auto
qed

theorem group_key_denies_memory:
  "\<not> allows_private_memory_prompt_injection (Some (build_group_key agent channel peer)) \<and>
   \<not> allows_private_memory_prompt_injection (Some (build_channel_key agent channel peer)) \<and>
   \<not> allows_private_memory_prompt_injection
       (Some (build_group_sender_key agent channel peer sender)) \<and>
   \<not> allows_private_memory_prompt_injection
       (Some (build_thread_key (build_group_key agent channel peer) thread hint))"
proof (intro conjI)
  note deny = shared_token_denied [OF normalize_agent_id_shape, of _ "Some agent" channel]
  have group: "build_group_key agent channel p =
      ''agent:'' @ normalize_agent_id (Some agent) @ colon # channel @ colon # ''group'' @ colon # p" for p
    by (simp add: build_group_key_def path_def)
  show "\<not> allows_private_memory_prompt_injection (Some (build_group_key agent channel peer))"
    unfolding group by (rule deny) simp
  have "build_channel_key agent channel peer =
      ''agent:'' @ normalize_agent_id (Some agent) @ colon # channel @ colon # ''channel'' @ colon # peer"
    by (simp add: build_channel_key_def path_def)
  then show "\<not> allows_private_memory_prompt_injection (Some (build_channel_key agent channel peer))"
    using deny [of "''channel''" peer] by simp
  have "build_group_sender_key agent channel peer sender = build_group_key agent channel (peer @ '':sender:'' @ sender)"
    by (simp add: build_group_sender_key_def group path_def)
  then show "\<not> allows_private_memory_prompt_injection
      (Some (build_group_sender_key agent channel peer sender))"
    using deny [of "''group''" "peer @ '':sender:'' @ sender"] by (simp add: group)
  have "build_thread_key (build_group_key agent channel peer) thread hint = build_group_key agent channel
      (peer @ colon # (if hint = Some ''telegram'' then ''topic'' else ''thread'') @ colon # thread)"
    by (simp add: build_thread_key_def group path_def)
  then show "\<not> allows_private_memory_prompt_injection
      (Some (build_thread_key (build_group_key agent channel peer) thread hint))"
    using deny [of "''group''" "peer @ colon # (if hint = Some ''telegram'' then ''topic'' else ''thread'')
        @ colon # thread"] by (simp add: group)
qed

theorem parse_agent_id_of_built:
  "parse_agent_id (build_group_key agent channel peer) =
     normalize_agent_id (Some (normalize_agent_id (Some agent))) \<and>
   parse_agent_id (build_direct_key agent peer chan acc scope) =
     normalize_agent_id (Some (normalize_agent_id (Some agent))) \<and>
   parse_agent_id (build_subagent_session_key agent run) =
     normalize_agent_id (Some (normalize_agent_id (Some agent)))"
  by (cases scope)
    (simp_all add: build_group_key_def build_subagent_session_key_def parse_built_key)

section \<open>Thread suffixes\<close>

lemma try_suffix_last:
  assumes "\<not> contains marker (tl marker @ t)" and "marker \<noteq> []"
  shows "try_suffix marker (b @ marker @ t) = Some (b, t)"
  using py_rfind_last [OF assms(2,1)] by (simp add: try_suffix_def)

lemma try_suffix_None: "\<not> contains marker key \<Longrightarrow> try_suffix marker key = None"
  by (simp add: try_suffix_def py_rfind_None_iff)

lemma marker_overlap:
  "\<not> contains '':thread:'' (colon # t) \<Longrightarrow> \<not> contains '':thread:'' (''thread:'' @ t)"
  "\<not> contains '':topic:'' (colon # t) \<Longrightarrow> \<not> contains '':topic:'' (''topic:'' @ t)"
  by (simp_all add: starts_with_def)

theorem parse_thread_suffix_build:
  assumes "\<not> contains '':thread:'' (colon # thread)" and "\<not> contains '':topic:'' (colon # thread)"
    and "hint = Some ''telegram'' \<Longrightarrow> \<not> contains '':thread:'' (build_thread_key base thread hint)"
  shows "parse_thread_suffix (build_thread_key base thread hint) = (base, Some thread)"
proof (cases "hint = Some ''telegram''")
  case True
  then have "build_thread_key base thread hint = base @ '':topic:'' @ thread"
    by (simp add: build_thread_key_def path_def)
  then show ?thesis
    using True assms try_suffix_last [of "'':topic:''" thread base] marker_overlap(2)
      try_suffix_None [of "'':thread:''" "build_thread_key base thread hint"]
    by (simp add: parse_thread_suffix_def)
next
  case False
  then have "build_thread_key base thread hint = base @ '':thread:'' @ thread"
    by (simp add: build_thread_key_def path_def)
  then show ?thesis
    using assms(1) try_suffix_last [of "'':thread:''" thread base] marker_overlap(1)
    by (simp add: parse_thread_suffix_def)
qed

lemma parse_thread_suffix_build_witness:
  "parse_thread_suffix (build_thread_key ''agent:main:slack:group:g'' ''77'' None) =
     (''agent:main:slack:group:g'', Some ''77'')"
  by (rule parse_thread_suffix_build) (simp_all add: starts_with_def)

end
