(* ===== verification/Run_Mode.thy ===== *)
theory Run_Mode
  imports Py_Prelude
begin

text \<open>
  The execution modes Safe and Full, \<open>run_mode.py\<close>, and the translation of every older spelling,
  \<open>sandbox/legacy_codec.py\<close>. A value of unknown type is a \<^typ>\<open>pyval\<close>, or a member of the
  enumeration itself.
\<close>

datatype run_mode = SAFE | FULL

fun run_mode_value :: "run_mode \<Rightarrow> string" where
  "run_mode_value SAFE = ''safe''"
| "run_mode_value FULL = ''full''"

datatype mode_arg = A_Mode run_mode | A_Value pyval

definition run_mode_aliases :: "(string \<times> run_mode) list" where
  "run_mode_aliases =
     [(''safe'', SAFE), (''on'', SAFE), (''off'', SAFE), (''bypass'', FULL), (''standard'', SAFE),
      (''standard-sandbox'', SAFE), (''standard_sandbox'', SAFE), (''trust'', SAFE),
      (''trusted'', SAFE), (''trusted-sandbox'', SAFE), (''trusted_sandbox'', SAFE),
      (''managed'', SAFE), (''full'', FULL), (''full-host-access'', FULL), (''full_host_access'', FULL)]"

definition mode_key :: "pyval \<Rightarrow> string" where
  "mode_key v = py_lower (py_strip (py_str v))"

datatype legacy_context = EXPLICIT | CONFIG | WIRE_V1 | CLI | STORED_EVENT

fun legacy_context_value :: "legacy_context \<Rightarrow> string" where
  "legacy_context_value EXPLICIT = ''explicit''"
| "legacy_context_value CONFIG = ''config''"
| "legacy_context_value WIRE_V1 = ''wire_v1''"
| "legacy_context_value CLI = ''cli''"
| "legacy_context_value STORED_EVENT = ''stored_event''"

datatype mode_error = ModeValueError string | LegacyModeDecodeError pyval legacy_context

definition normalize_run_mode :: "mode_arg \<Rightarrow> run_mode \<Rightarrow> mode_error + run_mode" where
  "normalize_run_mode value dflt =
     (case value of
        A_Mode m \<Rightarrow> Inr m
      | A_Value v \<Rightarrow>
          if v = PyNone \<or> py_strip (py_str v) = [] then Inr dflt
          else case map_of run_mode_aliases (mode_key v) of
                 Some m \<Rightarrow> Inr m
               | None \<Rightarrow> Inl (ModeValueError (''run_mode must be one of: '' @
                            join '', '' (sort (map fst run_mode_aliases)))))"

definition display_name :: "mode_arg \<Rightarrow> mode_error + string" where
  "display_name mode =
     rbind (normalize_run_mode mode SAFE) (\<lambda>m. Inr (if m = SAFE then ''Safe'' else ''Full Host Access''))"

definition execution_target :: "mode_arg \<Rightarrow> mode_error + string" where
  "execution_target mode =
     rbind (normalize_run_mode mode SAFE) (\<lambda>m. Inr (if m = FULL then ''host'' else ''sandbox''))"

definition approval_behavior :: "mode_arg \<Rightarrow> mode_error + string" where
  "approval_behavior mode = rbind (normalize_run_mode mode SAFE) (\<lambda>m. Inr (run_mode_value m))"

record config_patch =
  cp_run_mode :: run_mode
  cp_sandbox :: bool
  cp_security_grading :: bool
  cp_network_default :: string
  cp_permissions_default_mode :: string

definition run_mode_config_patch :: "mode_arg \<Rightarrow> mode_error + config_patch" where
  "run_mode_config_patch mode =
     rbind (normalize_run_mode mode SAFE) (\<lambda>m. Inr
       (if m = FULL
        then \<lparr>cp_run_mode = m, cp_sandbox = False, cp_security_grading = False,
              cp_network_default = ''none'', cp_permissions_default_mode = ''full''\<rparr>
        else \<lparr>cp_run_mode = m, cp_sandbox = True, cp_security_grading = True,
              cp_network_default = ''proxy_allowlist'', cp_permissions_default_mode = ''off''\<rparr>))"

definition legacy_state_to_run_mode :: "pyval \<Rightarrow> pyval \<Rightarrow> pyval \<Rightarrow> run_mode" where
  "legacy_state_to_run_mode sandbox_enabled grading_enabled permissions_default_mode =
     (let permission_mode = mode_key (py_or permissions_default_mode (PyStr [])) in
      if permission_mode \<in> {''bypass'', ''full''} then FULL
      else if permission_mode \<in> {''off'', ''on'', []} then SAFE
      else if permission_mode \<in> {''standard'', ''standard-sandbox'', ''standard_sandbox'', ''restricted''} then SAFE
      else if \<not> truthy sandbox_enabled then SAFE
      else if truthy sandbox_enabled \<and> \<not> truthy grading_enabled then SAFE
      else SAFE)"

text \<open>A configuration: the sandbox section, if any, with the fields that were set explicitly.\<close>

record sandbox_section =
  ss_run_mode :: "mode_arg option"
  ss_sandbox :: pyval
  ss_security_grading :: pyval
  ss_fields_set :: "string list option"

record mode_config =
  mc_sandbox :: "sandbox_section option"
  mc_default_mode :: pyval

definition field_was_set :: "sandbox_section option \<Rightarrow> string \<Rightarrow> bool" where
  "field_was_set model field_name =
     (case model of None \<Rightarrow> False
      | Some s \<Rightarrow> (case ss_fields_set s of None \<Rightarrow> False | Some fs \<Rightarrow> field_name \<in> set fs))"

definition section_attr :: "(sandbox_section \<Rightarrow> pyval) \<Rightarrow> sandbox_section option \<Rightarrow> pyval" where
  "section_attr sel s = (case s of None \<Rightarrow> PyBool False | Some x \<Rightarrow> sel x)"

definition config_run_mode :: "mode_config \<Rightarrow> mode_error + run_mode" where
  "config_run_mode config =
     (let sandbox = mc_sandbox config;
          explicit = (case sandbox of None \<Rightarrow> None | Some s \<Rightarrow> ss_run_mode s);
          permission_mode = mode_key (py_or (mc_default_mode config) (PyStr []));
          fallback =
            (if permission_mode \<in> {''bypass'', ''full''} then Inr FULL
             else if field_was_set sandbox ''sandbox'' \<and> \<not> truthy (section_attr ss_sandbox sandbox)
             then Inr FULL
             else if \<not> field_was_set sandbox ''sandbox'' \<and> \<not> field_was_set sandbox ''security_grading''
             then normalize_run_mode (case explicit of None \<Rightarrow> A_Value PyNone | Some e \<Rightarrow> e) SAFE
             else Inr (legacy_state_to_run_mode (section_attr ss_sandbox sandbox)
                         (section_attr ss_security_grading sandbox) (PyStr permission_mode)))
      in case explicit of
           Some e \<Rightarrow> if field_was_set sandbox ''run_mode'' then normalize_run_mode e SAFE else fallback
         | None \<Rightarrow> fallback)"

definition sandbox_runtime_capability_mode :: "mode_config \<Rightarrow> run_mode" where
  "sandbox_runtime_capability_mode config = SAFE"

section \<open>The legacy codec\<close>

definition safe_aliases :: "string list" where
  "safe_aliases =
     [''safe'', ''standard'', ''standard-sandbox'', ''standard_sandbox'', ''trusted'',
      ''trusted-sandbox'', ''trusted_sandbox'', ''trust'', ''managed'', ''on'', ''off'', ''restricted'']"

definition full_aliases :: "string list" where
  "full_aliases = [''full'', ''full-host-access'', ''full_host_access'', ''bypass'']"

definition decode_legacy_run_mode :: "legacy_context \<Rightarrow> mode_arg \<Rightarrow> mode_error + run_mode" where
  "decode_legacy_run_mode ctx value =
     (case value of
        A_Mode m \<Rightarrow> Inr m
      | A_Value v \<Rightarrow>
          if mode_key v \<in> set safe_aliases then Inr SAFE
          else if mode_key v \<in> set full_aliases then Inr FULL
          else Inl (LegacyModeDecodeError v ctx))"

text \<open>An absent argument of \<open>decode_legacy_config_mode\<close> (\<open>_UNSET\<close>) is \<open>None\<close>.\<close>

definition mode_str :: "mode_arg \<Rightarrow> string" where
  "mode_str a = (case a of A_Mode m \<Rightarrow> run_mode_value m | A_Value v \<Rightarrow> py_str v)"

fun as_bool :: "pyval \<Rightarrow> bool option" where
  "as_bool (PyBool b) = Some b"
| "as_bool _ = None"

definition decode_from_booleans :: "pyval option \<Rightarrow> pyval option \<Rightarrow> mode_error + run_mode" where
  "decode_from_booleans sandbox_enabled grading_enabled =
     (case sandbox_enabled of
        Some v \<Rightarrow> (case as_bool v of
                     None \<Rightarrow> Inl (LegacyModeDecodeError v CONFIG)
                   | Some b \<Rightarrow> Inr (if b then SAFE else FULL))
      | None \<Rightarrow>
          (case grading_enabled of
             Some v \<Rightarrow> (case as_bool v of
                          None \<Rightarrow> Inl (LegacyModeDecodeError v CONFIG)
                        | Some b \<Rightarrow> Inr SAFE)
           | None \<Rightarrow> Inr FULL))"

definition decode_rest :: "pyval option \<Rightarrow> pyval option \<Rightarrow> pyval option \<Rightarrow> mode_error + run_mode" where
  "decode_rest permissions sandbox_enabled grading_enabled =
     (case permissions of
        None \<Rightarrow> decode_from_booleans sandbox_enabled grading_enabled
      | Some p \<Rightarrow>
          let permission_key = mode_key (py_or p (PyStr [])) in
          if permission_key \<in> set full_aliases then Inr FULL
          else if permission_key \<in> set safe_aliases then Inr SAFE
          else if permission_key = [] then decode_from_booleans sandbox_enabled grading_enabled
          else Inl (LegacyModeDecodeError p CONFIG))"

definition decode_legacy_config_mode ::
  "mode_arg option \<Rightarrow> pyval option \<Rightarrow> pyval option \<Rightarrow> pyval option \<Rightarrow> mode_error + run_mode" where
  "decode_legacy_config_mode run_mode permissions sandbox_enabled grading_enabled =
     (case run_mode of
        Some a \<Rightarrow>
          if a \<noteq> A_Value PyNone \<and> py_strip (mode_str a) \<noteq> [] then decode_legacy_run_mode CONFIG a
          else decode_rest permissions sandbox_enabled grading_enabled
      | None \<Rightarrow> decode_rest permissions sandbox_enabled grading_enabled)"

definition encode_run_mode_for_protocol :: "run_mode \<Rightarrow> int \<Rightarrow> mode_error + string" where
  "encode_run_mode_for_protocol canonical protocol =
     (if protocol < 1 then Inl (ModeValueError ''protocol must be a positive integer'')
      else if protocol < 4 \<and> canonical = SAFE then Inr ''trusted''
      else Inr (run_mode_value canonical))"

definition mode_fields :: "string list" where
  "mode_fields = [''runMode'', ''run_mode'', ''desiredMode'', ''desired_mode'', ''effectiveMode'',
     ''effective_mode'', ''defaultRunMode'', ''default_run_mode'']"

definition mode_list_fields :: "string list" where
  "mode_list_fields = [''allowedRunModes'', ''allowed_run_modes'']"

definition encode_mode_text :: "int \<Rightarrow> string \<Rightarrow> mode_error + pyval" where
  "encode_mode_text protocol s =
     (case decode_legacy_run_mode WIRE_V1 (A_Value (PyStr s)) of
        Inl e \<Rightarrow> Inr (PyStr s)
      | Inr m \<Rightarrow> rbind (encode_run_mode_for_protocol m protocol) (\<lambda>t. Inr (PyStr t)))"

fun encode_mode_items :: "int \<Rightarrow> pyval list \<Rightarrow> mode_error + pyval list" where
  "encode_mode_items protocol [] = Inr []"
| "encode_mode_items protocol (item # items) =
     rbind
       (case item of
          PyStr s \<Rightarrow>
            rbind (decode_legacy_run_mode WIRE_V1 (A_Value item))
              (\<lambda>m. rbind (encode_run_mode_for_protocol m protocol) (\<lambda>t. Inr (PyStr t)))
        | _ \<Rightarrow> Inr item)
       (\<lambda>x. rbind (encode_mode_items protocol items) (\<lambda>xs. Inr (x # xs)))"

fun encode_payload :: "int \<Rightarrow> pyval \<Rightarrow> mode_error + pyval"
  and encode_values :: "int \<Rightarrow> pyval list \<Rightarrow> mode_error + pyval list"
  and encode_items :: "int \<Rightarrow> (string \<times> pyval) list \<Rightarrow> mode_error + (string \<times> pyval) list" where
  "encode_payload protocol (PyList xs) = rbind (encode_values protocol xs) (\<lambda>ys. Inr (PyList ys))"
| "encode_payload protocol (PyDict d) = rbind (encode_items protocol d) (\<lambda>e. Inr (PyDict e))"
| "encode_payload protocol PyNone = Inr PyNone"
| "encode_payload protocol (PyBool b) = Inr (PyBool b)"
| "encode_payload protocol (PyInt i) = Inr (PyInt i)"
| "encode_payload protocol (PyFloat f) = Inr (PyFloat f)"
| "encode_payload protocol (PyStr s) = Inr (PyStr s)"
| "encode_values protocol [] = Inr []"
| "encode_values protocol (x # xs) =
     rbind (encode_payload protocol x) (\<lambda>y. rbind (encode_values protocol xs) (\<lambda>ys. Inr (y # ys)))"
| "encode_items protocol [] = Inr []"
| "encode_items protocol ((key, v) # kvs) =
     rbind
       (if key \<in> set mode_fields \<and> is_str v then encode_mode_text protocol (py_str v)
        else if key \<in> set mode_list_fields \<and> (case v of PyList xs \<Rightarrow> True | _ \<Rightarrow> False)
        then (case v of PyList xs \<Rightarrow> rbind (encode_mode_items protocol xs) (\<lambda>ys. Inr (PyList ys))
              | _ \<Rightarrow> Inr v)
        else encode_payload protocol v)
       (\<lambda>y. rbind (encode_items protocol kvs) (\<lambda>r. Inr ((key, y) # r)))"

section \<open>The two readers of a mode agree\<close>

lemma run_mode_eq: "m = SAFE \<or> m = FULL"
  by (cases m) auto

lemma aliases_agree:
  "(\<forall>k \<in> set (map fst run_mode_aliases). k \<in> set safe_aliases \<union> set full_aliases \<and>
      map_of run_mode_aliases k = Some (if k \<in> set safe_aliases then SAFE else FULL)) \<and>
   (\<forall>k \<in> set safe_aliases \<union> set full_aliases. k \<noteq> ''restricted'' \<longrightarrow> k \<in> set (map fst run_mode_aliases)) \<and>
   set safe_aliases \<inter> set full_aliases = {} \<and> map_of run_mode_aliases ''restricted'' = None"
  by (simp add: run_mode_aliases_def safe_aliases_def full_aliases_def)

lemma mode_key_PyStr_value [simp]: "mode_key (PyStr (run_mode_value m)) = run_mode_value m"
  by (cases m) (simp; code_simp)+

lemma decode_value [simp]:
  "decode_legacy_run_mode ctx (A_Value (PyStr (run_mode_value m))) = Inr m"
  by (cases m) (simp_all add: decode_legacy_run_mode_def safe_aliases_def full_aliases_def
      del: run_mode_value.simps, simp_all)

lemma mode_key_trusted: "mode_key (PyStr ''trusted'') = ''trusted''"
  by code_simp

lemma encode_decodes:
  "encode_run_mode_for_protocol m p = Inr t \<Longrightarrow> decode_legacy_run_mode ctx (A_Value (PyStr t)) = Inr m"
  by (auto simp: encode_run_mode_for_protocol_def split: if_splits)
    (simp add: decode_legacy_run_mode_def mode_key_trusted safe_aliases_def)

theorem mode_readers_agree:
  "normalize_run_mode (A_Value v) SAFE = Inr m \<and> v \<noteq> PyNone \<and> py_strip (py_str v) \<noteq> [] \<longleftrightarrow>
   decode_legacy_run_mode ctx (A_Value v) = Inr m \<and> mode_key v \<noteq> ''restricted'' \<and> v \<noteq> PyNone"
proof -
  have "mode_key v = [] \<longleftrightarrow> py_strip (py_str v) = []" by (simp add: mode_key_def)
  moreover have "[] \<notin> set safe_aliases \<union> set full_aliases" by (simp add: safe_aliases_def full_aliases_def)
  moreover have "map_of run_mode_aliases (mode_key v) = None \<longleftrightarrow> mode_key v \<notin> set (map fst run_mode_aliases)"
    by (simp add: map_of_eq_None_iff)
  ultimately show ?thesis
    using aliases_agree
    by (cases "mode_key v \<in> set (map fst run_mode_aliases)")
      (auto simp: normalize_run_mode_def decode_legacy_run_mode_def split: option.splits if_splits)
qed

text \<open>The fields a patch writes are read back as its mode by every reader of old configurations.\<close>

lemma permission_keys:
  "mode_key (PyStr ''full'') = ''full''" "mode_key (PyStr ''off'') = ''off''" "mode_key (PyStr []) = []"
  by code_simp+

theorem config_patch_consistent:
  assumes "run_mode_config_patch a = Inr p"
  shows "normalize_run_mode a SAFE = Inr (cp_run_mode p) \<and>
    legacy_state_to_run_mode (PyBool (cp_sandbox p)) (PyBool (cp_security_grading p))
      (PyStr (cp_permissions_default_mode p)) = cp_run_mode p \<and>
    decode_legacy_config_mode None (Some (PyStr (cp_permissions_default_mode p)))
      (Some (PyBool (cp_sandbox p))) (Some (PyBool (cp_security_grading p))) = Inr (cp_run_mode p) \<and>
    decode_from_booleans (Some (PyBool (cp_sandbox p))) (Some (PyBool (cp_security_grading p))) =
      Inr (cp_run_mode p) \<and>
    execution_target a = Inr (if cp_sandbox p then ''sandbox'' else ''host'')"
proof -
  obtain m where m: "normalize_run_mode a SAFE = Inr m" and p: "run_mode_config_patch (A_Mode m) = Inr p"
    using assms by (auto simp: run_mode_config_patch_def normalize_run_mode_def)
  show ?thesis
    using m p
    by (cases m) (auto simp: run_mode_config_patch_def normalize_run_mode_def execution_target_def
        legacy_state_to_run_mode_def decode_legacy_config_mode_def decode_rest_def py_or_def
        permission_keys decode_from_booleans_def full_aliases_def safe_aliases_def Let_def)
qed

lemma config_patch_consistent_witness:
  "legacy_state_to_run_mode (PyBool True) (PyBool True) (PyStr ''off'') = SAFE"
  using config_patch_consistent [of "A_Mode SAFE"]
  by (simp add: run_mode_config_patch_def normalize_run_mode_def)

section \<open>Encoding for the wire is idempotent\<close>

lemma encode_mode_text_again:
  "encode_mode_text p s = Inr v \<Longrightarrow> is_str v \<and> encode_mode_text p (py_str v) = Inr v"
  using encode_decodes [of _ p _ WIRE_V1]
  by (auto simp: encode_mode_text_def split: sum.splits)

lemma encode_mode_items_again: "encode_mode_items p xs = Inr ys \<Longrightarrow> encode_mode_items p ys = Inr ys"
proof (induction p xs arbitrary: ys rule: encode_mode_items.induct)
  case (2 p item items)
  then show ?case using encode_decodes [of _ p _ WIRE_V1] by (cases item) auto
qed simp

lemma encode_again:
  "encode_payload p v = Inr w \<Longrightarrow> encode_payload p w = Inr w"
  "encode_values p vs = Inr ws \<Longrightarrow> encode_values p ws = Inr ws"
  "encode_items p d = Inr e \<Longrightarrow> encode_items p e = Inr e"
proof (induction p v and p vs and p d arbitrary: w and ws and e
    rule: encode_payload_encode_values_encode_items.induct)
  case (11 p key v kvs)
  obtain y r where y: "(if key \<in> set mode_fields \<and> is_str v then encode_mode_text p (py_str v)
        else if key \<in> set mode_list_fields \<and> (case v of PyList xs \<Rightarrow> True | _ \<Rightarrow> False)
        then (case v of PyList xs \<Rightarrow> rbind (encode_mode_items p xs) (\<lambda>ys. Inr (PyList ys)) | _ \<Rightarrow> Inr v)
        else encode_payload p v) = Inr y" and r: "encode_items p kvs = Inr r" and e: "e = (key, y) # r"
    using "11.prems" by auto
  have r2: "encode_items p r = Inr r" using "11.IH" r y by blast
  consider (mode_text) "key \<in> set mode_fields" "is_str v"
    | (items) xs where "\<not> (key \<in> set mode_fields \<and> is_str v)" "key \<in> set mode_list_fields" "v = PyList xs"
    | (other) "\<not> (key \<in> set mode_fields \<and> is_str v)"
        "\<not> (key \<in> set mode_list_fields \<and> (case v of PyList xs \<Rightarrow> True | _ \<Rightarrow> False))"
    by (cases v) auto
  then show ?case
  proof cases
    case mode_text
    then show ?thesis using y r2 e encode_mode_text_again by auto
  next
    case items
    then show ?thesis using y r2 e encode_mode_items_again by auto
  next
    case other
    then have enc: "encode_payload p v = Inr y" using y by (simp split: if_splits)
    then have "is_str y = is_str v \<and> (case y of PyList xs \<Rightarrow> True | _ \<Rightarrow> False) = (case v of PyList xs \<Rightarrow> True | _ \<Rightarrow> False)"
      by (cases v) auto
    moreover have "encode_payload p y = Inr y" using "11.IH"(1) other enc by blast
    ultimately show ?thesis using other r2 e by auto
  qed
qed auto

theorem encode_payload_idem:
  assumes "encode_payload protocol v = Inr w"
  shows "encode_payload protocol w = Inr w"
  by (rule encode_again(1) [OF assms])

lemma encode_payload_idem_witness:
  "encode_payload 3 (PyDict [(''runMode'', PyStr ''trusted'')]) = Inr (PyDict [(''runMode'', PyStr ''trusted'')])"
proof (rule encode_payload_idem)
  show "encode_payload 3 (PyDict [(''runMode'', PyStr '' Safe '')]) =
      Inr (PyDict [(''runMode'', PyStr ''trusted'')])" by code_simp
qed

end
