(* ===== verification/Sched_Ops.thy ===== *)
theory Sched_Ops
  imports Sched_Normalize Sched_Store Session_Keys Run_Mode
begin

text \<open>
  The validating layer over the store, \<open>scheduler/ops.py\<close>: creating, changing, pausing, resuming and
  removing jobs. The clock, the fresh job id, the jitter drawn by \<open>compute_jitter\<close> and the URL parser
  are arguments; each operation is one transition of the store.
\<close>

section \<open>Validation\<close>

definition validate_structured_schedule ::
  "iso_parser \<Rightarrow> string \<Rightarrow> pyval \<Rightarrow> sched_exc + (schedule_kind \<times> string)" where
  "validate_structured_schedule fromiso kind_text value =
     (case schedule_kind_of kind_text of
        None \<Rightarrow> Inl (ValueError (str_repr kind_text @ '' is not a valid ScheduleKind''))
      | Some kind \<Rightarrow>
          (case as_str value of
             None \<Rightarrow> Inl (ValueError ''schedule_value must be a non-empty string'')
           | Some raw \<Rightarrow>
               let v = py_strip raw in
               if v = [] then Inl (ValueError ''schedule_value must be a non-empty string'')
               else case kind of
                 CRON \<Rightarrow> rbind (parse_cron v) (\<lambda>_. Inr (CRON, v))
               | AT \<Rightarrow> rbind (parse_iso_at fromiso (PyStr v)) (\<lambda>_. Inr (AT, v))
               | EVERY \<Rightarrow>
                   (case py_int v of
                      None \<Rightarrow> Inl (ValueError
                        (''schedule_value for kind=every must be integer seconds; got '' @ str_repr v))
                    | Some seconds \<Rightarrow>
                        if seconds < 1
                        then Inl (ValueError ''schedule_value for kind=every must be >= 1 second'')
                        else Inr (EVERY, int_str seconds))))"

definition coerce_wake_mode :: "pyval \<Rightarrow> sched_exc + wake_mode" where
  "coerce_wake_mode value =
     (let s = py_lower (py_strip (py_str (py_or value (PyStr ''now'')))) in
      case wake_mode_of s of
        Some w \<Rightarrow> Inr w
      | None \<Rightarrow> Inl (ValueError (str_repr s @ '' is not a valid CronWakeMode'')))"

definition coerce_session_target :: "string \<Rightarrow> sched_exc + session_target" where
  "coerce_session_target s =
     (case session_target_of s of
        Some t \<Rightarrow> Inr t
      | None \<Rightarrow> Inl (ValueError (str_repr s @ '' is not a valid SessionTarget'')))"

definition persisted_run_mode :: "string \<Rightarrow> bool \<Rightarrow> bool \<Rightarrow> sched_exc + run_mode" where
  "persisted_run_mode value creator_is_owner creator_host_execute =
     (let host_execution_allowed = creator_is_owner \<or> creator_host_execute;
          normalized = py_lower (py_strip value)
      in if normalized = [] then Inr (if host_execution_allowed then FULL else SAFE)
         else case decode_legacy_run_mode EXPLICIT (A_Value (PyStr normalized)) of
                Inl e \<Rightarrow> Inl (ValueError (''unsupported cron run_mode: '' @ str_repr value))
              | Inr mode \<Rightarrow>
                  if mode = FULL \<and> \<not> host_execution_allowed then Inr SAFE else Inr mode)"

definition validate_main_agent :: "pydict \<Rightarrow> session_target \<Rightarrow> sched_exc + unit" where
  "validate_main_agent payload target =
     (if target \<noteq> MAIN then Inr ()
      else let agent_id = payload_agent_id payload in
        if normalize_agent_id (Some agent_id) \<noteq> ''main''
        then Inl (ValueError (''cron: sessionTarget \"main\" is only valid for the default agent. Use sessionTarget \"isolated\" with an agent_turn payload for non-default agents (agent_id: '' @ agent_id @ '')''))
        else Inr ())"

text \<open>\<open>urlparse\<close>: the scheme and the host name, \<open>None\<close> for its \<open>ValueError\<close>.\<close>

type_synonym url_parser = "string \<Rightarrow> (string \<times> string option) option"

definition validate_webhook_url :: "url_parser \<Rightarrow> string \<Rightarrow> sched_exc + unit" where
  "validate_webhook_url urlparse url =
     (if url = [] then Inl (ValueError ''webhook URL is required'')
      else case urlparse url of
        None \<Rightarrow> Inl (ValueError (''invalid webhook URL: '' @ str_repr url))
      | Some (scheme, hostname) \<Rightarrow>
          if scheme \<notin> {''http'', ''https''}
          then Inl (ValueError (''webhook URL must use http or https scheme, got '' @ str_repr scheme))
          else if hostname = None \<or> hostname = Some []
          then Inl (ValueError (''webhook URL is missing a hostname: '' @ str_repr url))
          else Inr ())"

definition normalize_delivery_for_target ::
  "url_parser \<Rightarrow> session_target \<Rightarrow> delivery_config \<Rightarrow> bool \<Rightarrow> sched_exc + delivery_config" where
  "normalize_delivery_for_target urlparse target delivery explicit_delivery =
     rbind (if d_mode delivery = WEBHOOK then validate_webhook_url urlparse (d_webhook_url delivery) else Inr ())
       (\<lambda>_. if target \<noteq> MAIN then Inr delivery
            else if d_mode delivery = WEBHOOK then Inr delivery
            else if d_mode delivery \<noteq> DNONE then
              if explicit_delivery
              then Inl (ValueError ''cron channel delivery config is only supported for sessionTarget=\"isolated\"'')
              else Inr default_delivery
            else Inr delivery)"

section \<open>Creation\<close>

record add_request =
  aq_name :: string
  aq_schedule_kind :: string
  aq_schedule_value :: pyval
  aq_schedule_tz :: string
  aq_enabled :: bool
  aq_handler_key :: string
  aq_payload :: pydict
  aq_session_target :: string
  aq_session_key :: string
  aq_timeout_seconds :: int
  aq_wake_mode :: pyval
  aq_max_retries :: int
  aq_delivery :: "delivery_config option"
  aq_origin_session_key :: string
  aq_tool_policy :: pydict
  aq_tz :: string
  aq_jitter_seconds :: "int option"
  aq_creator_session_key :: string
  aq_creator_sender_id :: string
  aq_creator_is_owner :: bool
  aq_creator_host_execute :: bool
  aq_run_mode :: string
  aq_idempotency_key :: string

text \<open>What lies outside: ISO parser, zone database, URL parser.\<close>

record outside =
  out_iso :: iso_parser
  out_zone :: zone_db
  out_url :: url_parser

definition or_str :: "string \<Rightarrow> string \<Rightarrow> string" where
  "or_str a b = (if a \<noteq> [] then a else b)"

text \<open>A naive timestamp is stored as UTC.\<close>

definition from_iso :: "iso_parser \<Rightarrow> string \<Rightarrow> sched_exc + instant" where
  "from_iso fromiso s =
     (case fromiso s of
        None \<Rightarrow> Inl (ValueError (''Invalid isoformat string: '' @ str_repr s))
      | Some (Naive t) \<Rightarrow> Inr t
      | Some (Aware t) \<Rightarrow> Inr t)"

definition int_of_digits :: "string \<Rightarrow> sched_exc + int" where
  "int_of_digits s =
     (case py_int s of
        None \<Rightarrow> Inl (ValueError (''invalid literal for int() with base 10: '' @ str_repr s))
      | Some i \<Rightarrow> Inr i)"

text \<open>The first run of a freshly scheduled job.\<close>

definition schedule_first :: "outside \<Rightarrow> instant \<Rightarrow> cron_job \<Rightarrow> sched_exc + cron_job" where
  "schedule_first out now job =
     (if j_schedule_kind job = AT then
        rbind (from_iso (out_iso out) (j_cron_expr job))
          (\<lambda>t. Inr (job\<lparr>j_delete_after_run := True, j_next_run_at := Some t\<rparr>))
      else if j_schedule_kind job = EVERY \<and> py_isdigit (j_cron_expr job) then
        rbind (int_of_digits (j_cron_expr job))
          (\<lambda>n. Inr (job\<lparr>j_anchor_at := Some now, j_next_run_at := Some (now + n * sec)\<rparr>))
      else rbind (next_run (out_zone out) job now) (\<lambda>t. Inr (job\<lparr>j_next_run_at := Some t\<rparr>)))"

definition build_job ::
  "outside \<Rightarrow> add_request \<Rightarrow> string \<Rightarrow> instant \<Rightarrow> int \<Rightarrow> sched_exc + cron_job" where
  "build_job out q jid now drawn_jitter =
     rbind (validate_structured_schedule (out_iso out) (aq_schedule_kind q) (aq_schedule_value q)) (\<lambda>(kind, cron_expr).
     let tz = py_strip (or_str (aq_schedule_tz q) (aq_tz q)) in
     rbind (validate_tz (out_zone out) tz) (\<lambda>_.
     let jitter = (case aq_jitter_seconds q of None \<Rightarrow> drawn_jitter | Some j \<Rightarrow> max 0 j) in
     rbind (coerce_session_target (aq_session_target q)) (\<lambda>target0.
     rbind (coerce_wake_mode (aq_wake_mode q)) (\<lambda>wake.
     let target1 = (if target0 = CURRENT \<and> aq_session_key q = [] \<and> aq_origin_session_key q = []
                    then ISOLATED else target0);
         origin = normalize_origin_session_key target1 (aq_origin_session_key q)
     in
     rbind (normalize_contract True (aq_handler_key q) (aq_payload q) target1 (aq_session_key q) origin)
       (\<lambda>(handler, payload, target, session_key).
     rbind (validate_main_agent payload target) (\<lambda>_.
     rbind (normalize_delivery_for_target (out_url out) target
             (case aq_delivery q of None \<Rightarrow> default_delivery | Some d \<Rightarrow> d) (aq_delivery q \<noteq> None)) (\<lambda>delivery.
     let host = aq_creator_host_execute q \<or> aq_creator_is_owner q in
     rbind (persisted_run_mode (aq_run_mode q) (aq_creator_is_owner q) host) (\<lambda>mode.
     schedule_first out now
       ((default_job jid now)
        \<lparr>j_name := aq_name q, j_status := (if aq_enabled q then PENDING else PAUSED),
         j_enabled := aq_enabled q, j_schedule_raw := cron_expr, j_schedule_kind := kind,
         j_cron_expr := cron_expr, j_tz := tz, j_handler_key := handler, j_payload := payload,
         j_session_target := target, j_session_key := session_key,
         j_timeout_seconds := aq_timeout_seconds q, j_wake_mode := wake,
         j_max_retries := aq_max_retries q, j_jitter_seconds := jitter, j_delivery := delivery,
         j_origin_session_key := origin, j_tool_policy := aq_tool_policy q,
         j_creator_session_key := aq_creator_session_key q, j_creator_sender_id := aq_creator_sender_id q,
         j_creator_is_owner := aq_creator_is_owner q, j_creator_host_execute := host,
         j_run_mode := run_mode_value mode, j_elevated := (if mode = FULL then ''full'' else []),
         j_execution_target := (if mode = FULL then ''host'' else ''sandbox''),
         j_idempotency_key := aq_idempotency_key q\<rparr>)))))))))"

definition add ::
  "outside \<Rightarrow> store \<Rightarrow> add_request \<Rightarrow> string \<Rightarrow> instant \<Rightarrow> int \<Rightarrow> sched_exc + (store \<times> cron_job)" where
  "add out st q jid now drawn_jitter =
     rbind (build_job out q jid now drawn_jitter) (\<lambda>job. create_or_get st job)"

section \<open>Change\<close>

text \<open>The keyword arguments of \<open>update\<close>: \<open>None\<close> is an absent key. \<open>up_schedule_raw\<close> is the key the
  code no longer accepts.\<close>

record job_patch =
  up_payload :: pydict
  up_tz :: "string option"
  up_schedule_kind :: "string option"
  up_schedule_value :: "pyval option"
  up_schedule_tz :: "string option"
  up_schedule_raw :: bool
  up_name :: "string option"
  up_timeout_seconds :: "int option"
  up_enabled :: "bool option"
  up_origin_session_key :: "string option"
  up_tool_policy :: "pydict option"
  up_wake_mode :: "pyval option"
  up_session_target :: "string option"
  up_session_key :: "string option"
  up_delivery :: "delivery_config option"

definition set_opt :: "'a option \<Rightarrow> 'a \<Rightarrow> 'a" where
  "set_opt new old = (case new of None \<Rightarrow> old | Some v \<Rightarrow> v)"

definition patch_tz :: "outside \<Rightarrow> string option \<Rightarrow> cron_job \<Rightarrow> sched_exc + cron_job" where
  "patch_tz out tz job =
     (case tz of
        None \<Rightarrow> Inr job
      | Some t \<Rightarrow> rbind (validate_tz (out_zone out) (py_strip t)) (\<lambda>_. Inr (job\<lparr>j_tz := py_strip t\<rparr>)))"

definition reschedule :: "outside \<Rightarrow> instant \<Rightarrow> schedule_kind \<Rightarrow> string \<Rightarrow> cron_job \<Rightarrow> sched_exc + cron_job" where
  "reschedule out now kind cron_expr job0 =
     (let job = job0\<lparr>j_schedule_raw := cron_expr, j_schedule_kind := kind, j_cron_expr := cron_expr\<rparr> in
      case kind of
        AT \<Rightarrow> rbind (from_iso (out_iso out) cron_expr)
                (\<lambda>t. Inr (job\<lparr>j_anchor_at := None, j_next_run_at := Some t\<rparr>))
      | EVERY \<Rightarrow> rbind (int_of_digits cron_expr)
                (\<lambda>n. Inr (job\<lparr>j_anchor_at := Some now, j_next_run_at := Some (now + n * sec)\<rparr>))
      | CRON \<Rightarrow> rbind (next_run (out_zone out) (job\<lparr>j_anchor_at := None\<rparr>) now)
                (\<lambda>t. Inr (job\<lparr>j_anchor_at := None, j_next_run_at := Some t\<rparr>)))"

definition patch_schedule :: "outside \<Rightarrow> instant \<Rightarrow> job_patch \<Rightarrow> cron_job \<Rightarrow> sched_exc + cron_job" where
  "patch_schedule out now p job =
     (case (up_schedule_kind p, up_schedule_value p) of
        (Some k, Some v) \<Rightarrow>
          rbind (validate_structured_schedule (out_iso out) k v) (\<lambda>(kind, cron_expr).
          rbind (patch_tz out (up_schedule_tz p) job) (\<lambda>job. reschedule out now kind cron_expr job))
      | _ \<Rightarrow>
          if up_schedule_raw p
          then Inl (ValueError ''ops.update no longer accepts schedule_raw; pass schedule_kind + schedule_value instead'')
          else Inr job)"

definition patch_fields :: "job_patch \<Rightarrow> cron_job \<Rightarrow> sched_exc + cron_job" where
  "patch_fields p job0 =
     (let job = job0\<lparr>j_name := set_opt (up_name p) (j_name job0),
                     j_timeout_seconds := set_opt (up_timeout_seconds p) (j_timeout_seconds job0),
                     j_enabled := set_opt (up_enabled p) (j_enabled job0),
                     j_origin_session_key := set_opt (up_origin_session_key p) (j_origin_session_key job0),
                     j_tool_policy := set_opt (up_tool_policy p) (j_tool_policy job0)\<rparr>
      in rbind (case up_wake_mode p of None \<Rightarrow> Inr (j_wake_mode job) | Some w \<Rightarrow> coerce_wake_mode w) (\<lambda>wake.
         rbind (case up_session_target p of None \<Rightarrow> Inr (j_session_target job) | Some t \<Rightarrow> coerce_session_target t) (\<lambda>target.
           Inr (job\<lparr>j_wake_mode := wake, j_session_target := target,
                    j_session_key := set_opt (up_session_key p) (j_session_key job),
                    j_payload := (if up_payload p \<noteq> [] then dmerge (j_payload job) (up_payload p) else j_payload job),
                    j_delivery := set_opt (up_delivery p) (j_delivery job)\<rparr>))))"

definition revalidate :: "outside \<Rightarrow> bool \<Rightarrow> instant \<Rightarrow> cron_job \<Rightarrow> sched_exc + cron_job" where
  "revalidate out delivery_was_patched now job =
     rbind (job_contract True job) (\<lambda>(handler, payload, target, session_key).
     rbind (validate_main_agent payload target) (\<lambda>_.
     rbind (normalize_delivery_for_target (out_url out) target (j_delivery job) delivery_was_patched) (\<lambda>delivery.
       Inr (job\<lparr>j_handler_key := handler, j_payload := payload, j_session_target := target,
                j_session_key := session_key, j_delivery := delivery,
                j_origin_session_key := normalize_origin_session_key target (j_origin_session_key job),
                j_updated_at := now\<rparr>))))"

definition patch_job :: "outside \<Rightarrow> instant \<Rightarrow> job_patch \<Rightarrow> cron_job \<Rightarrow> sched_exc + cron_job" where
  "patch_job out now p job =
     rbind (patch_tz out (up_tz p) job) (\<lambda>job.
     rbind (patch_schedule out now p job) (\<lambda>job.
     rbind (patch_fields p job) (\<lambda>job.
       revalidate out (up_delivery p \<noteq> None) now job)))"

text \<open>The read-modify-write shared by the operations on an existing job.\<close>

definition modify ::
  "store \<Rightarrow> string \<Rightarrow> (cron_job \<Rightarrow> sched_exc + cron_job) \<Rightarrow> sched_exc + (store \<times> cron_job option)" where
  "modify st jid f =
     rbind (get st jid) (\<lambda>current.
       case current of
         None \<Rightarrow> Inr (st, None)
       | Some job \<Rightarrow> rbind (f job) (\<lambda>job'. rbind (save st job') (\<lambda>st'. Inr (st', Some job'))))"

definition update :: "outside \<Rightarrow> store \<Rightarrow> string \<Rightarrow> job_patch \<Rightarrow> instant \<Rightarrow> sched_exc + (store \<times> cron_job option)" where
  "update out st jid p now = modify st jid (patch_job out now p)"

definition remove :: "store \<Rightarrow> string \<Rightarrow> sched_exc + (store \<times> bool)" where
  "remove st jid =
     rbind (get st jid) (\<lambda>current.
       case current of None \<Rightarrow> Inr (st, False) | Some job \<Rightarrow> Inr (delete st jid, True))"

definition pause :: "store \<Rightarrow> string \<Rightarrow> instant \<Rightarrow> sched_exc + (store \<times> cron_job option)" where
  "pause st jid now = modify st jid (\<lambda>job. Inr (job\<lparr>j_status := PAUSED, j_updated_at := now\<rparr>))"

definition revive :: "zone_db \<Rightarrow> instant \<Rightarrow> cron_job \<Rightarrow> sched_exc + cron_job" where
  "revive zone now job0 =
     (let job = job0\<lparr>j_status := PENDING, j_enabled := True, j_backoff_until := None,
                     j_consecutive_errors := 0, j_updated_at := now\<rparr>
      in if j_schedule_kind job = AT then Inr job
         else if j_schedule_kind job = EVERY \<and> py_isdigit (j_cron_expr job) \<and> j_anchor_at job = None then
           rbind (int_of_digits (j_cron_expr job)) (\<lambda>n. Inr (job\<lparr>j_next_run_at := Some (now + n * sec)\<rparr>))
         else rbind (next_run zone job now) (\<lambda>t. Inr (job\<lparr>j_next_run_at := Some t\<rparr>)))"

definition resume :: "zone_db \<Rightarrow> store \<Rightarrow> string \<Rightarrow> instant \<Rightarrow> sched_exc + (store \<times> cron_job option)" where
  "resume zone st jid now = modify st jid (revive zone now)"

section \<open>Canonical schedules pass unchanged\<close>

theorem canonical_schedule_accepted:
  assumes "canonical_schedule zone fromiso (k, v, tz)"
  shows "validate_structured_schedule fromiso (schedule_kind_value k) (PyStr v) = Inr (k, v) \<and>
    validate_tz zone (py_strip tz) = Inr ()"
proof -
  have "validate_structured_schedule fromiso (schedule_kind_value k) (PyStr v) = Inr (k, v)"
  proof (cases k)
    case EVERY
    then obtain n where n: "1 \<le> n" "v = int_str n" using assms by auto
    then have "v = nat_str (nat n)" by (simp add: int_str_nonneg)
    then have "py_strip v = v" "py_int v = Some n" "v \<noteq> []"
      using n py_int_int_str [of n] by simp_all
    then show ?thesis using EVERY n
      by (simp add: validate_structured_schedule_def Let_def del: schedule_kind_value.simps)
  qed (use assms in \<open>auto simp: validate_structured_schedule_def is_ok_iff Let_def
        simp del: schedule_kind_value.simps\<close>)
  moreover have "validate_tz zone (py_strip tz) = Inr ()"
  proof (cases k)
    case CRON
    then show ?thesis using assms by (auto simp: is_ok_iff)
  qed (use assms in \<open>simp_all add: validate_tz_def\<close>)
  ultimately show ?thesis by blast
qed

lemma canonical_schedule_accepted_witness:
  "validate_structured_schedule (\<lambda>_. None) ''every'' (PyStr ''90'') = Inr (EVERY, ''90'')"
proof -
  have "int_str 90 = ''90''" by code_simp
  then have "canonical_schedule (\<lambda>_. None) (\<lambda>_. None) (EVERY, ''90'', [])"
    by (auto intro!: exI [of _ 90])
  from canonical_schedule_accepted [OF this] show ?thesis by simp
qed

section \<open>What creation guarantees\<close>

lemma validate_structured_Inr:
  assumes "validate_structured_schedule fromiso kt value = Inr (k, v)"
  shows "v \<noteq> [] \<and> (k = EVERY \<longrightarrow> (\<exists>n \<ge> 1. v = int_str n)) \<and> (k = CRON \<longrightarrow> is_ok (parse_cron v)) \<and>
   (k = AT \<longrightarrow> is_ok (parse_iso_at fromiso (PyStr v)))"
proof -
  obtain kind raw where "schedule_kind_of kt = Some kind" "as_str value = Some raw" "py_strip raw \<noteq> []"
    using assms by (cases "schedule_kind_of kt"; cases "as_str value")
      (simp_all add: validate_structured_schedule_def Let_def split: if_splits)
  note eq = assms [unfolded validate_structured_schedule_def Let_def this(1,2) option.case]
  have ne: "int_str n \<noteq> []" for n by (simp add: int_str_def)
  show ?thesis
  proof (cases kind)
    case EVERY
    then obtain n where "py_int (py_strip raw) = Some n" "\<not> n < 1" "k = EVERY" "v = int_str n"
      using eq \<open>py_strip raw \<noteq> []\<close> by (cases "py_int (py_strip raw)") (simp_all split: if_splits)
    then show ?thesis using some_positive [of n] ne by simp
  qed (use eq \<open>py_strip raw \<noteq> []\<close> in \<open>auto simp: is_ok_iff\<close>)
qed

lemma schedule_first_fields:
  "schedule_first out now job = Inr job' \<Longrightarrow>
   \<exists>d a t. job' = job\<lparr>j_delete_after_run := d, j_anchor_at := a, j_next_run_at := Some t\<rparr>"
  by (cases job) (auto simp: schedule_first_def split: if_splits)

lemma schedule_first_future:
  assumes "schedule_first out now job = Inr job'" and "schedule_sound job" and "j_schedule_kind job \<noteq> AT"
  shows "\<exists>t. j_next_run_at job' = Some t \<and> now < t"
proof (cases "j_schedule_kind job = EVERY \<and> py_isdigit (j_cron_expr job)")
  case True
  then obtain n where n: "py_int (j_cron_expr job) = Some n" "j_next_run_at job' = Some (now + n * sec)"
    using assms(1) by (auto simp: schedule_first_def int_of_digits_def split: option.splits)
  then have "1 \<le> n" using assms(2) True by (simp add: schedule_sound_def)
  then show ?thesis using n by (simp add: sec_def)
next
  case False
  then obtain t where t: "next_run (out_zone out) job now = Inr t" "j_next_run_at job' = Some t"
    using assms(1,3) by (auto simp: schedule_first_def)
  with next_run_after [OF t(1) assms(2)] show ?thesis by simp
qed

text \<open>The facts about a job under construction that creation establishes.\<close>

definition born_ok :: "add_request \<Rightarrow> cron_job \<Rightarrow> bool" where
  "born_ok q job \<longleftrightarrow> schedule_sound job \<and> j_reservation_token job = [] \<and>
     j_consecutive_errors job = 0 \<and> j_backoff_until job = None \<and>
     j_status job = (if aq_enabled q then PENDING else PAUSED) \<and>
     (j_run_mode job = ''full'' \<longleftrightarrow> j_execution_target job = ''host'') \<and>
     (j_run_mode job = ''full'' \<longleftrightarrow> j_elevated job = ''full'') \<and>
     (j_run_mode job = ''full'' \<longrightarrow> aq_creator_is_owner q \<or> aq_creator_host_execute q) \<and>
     (aq_handler_key q \<in> set known_handler_keys \<longrightarrow> py_strip (payload_text (j_payload job) (j_session_target job)) \<noteq> []) \<and>
     (j_session_target job = MAIN \<and> d_mode (j_delivery job) \<noteq> WEBHOOK \<longrightarrow> d_mode (j_delivery job) = DNONE)"

lemma persisted_full:
  "persisted_run_mode v own host = Inr FULL \<Longrightarrow> own \<or> host"
  by (auto simp: persisted_run_mode_def Let_def split: if_splits sum.splits)

lemma normalize_delivery_main:
  "normalize_delivery_for_target u t d x = Inr d' \<Longrightarrow> t = MAIN \<Longrightarrow>
   d_mode d' = WEBHOOK \<or> d_mode d' = DNONE"
  by (auto simp: normalize_delivery_for_target_def default_delivery_def split: if_splits)

lemma build_job_born:
  assumes "build_job out q jid now drawn = Inr job" and "0 \<le> drawn"
  shows "born_ok q job \<and> (j_schedule_kind job \<noteq> AT \<longrightarrow> (\<exists>t. j_next_run_at job = Some t \<and> now < t))"
proof -
  obtain kind expr wake target0 h p t s delivery mode where
    v: "validate_structured_schedule (out_iso out) (aq_schedule_kind q) (aq_schedule_value q) = Inr (kind, expr)"
    and c: "normalize_contract True (aq_handler_key q) (aq_payload q)
      (if target0 = CURRENT \<and> aq_session_key q = [] \<and> aq_origin_session_key q = [] then ISOLATED else target0)
      (aq_session_key q) (normalize_origin_session_key
        (if target0 = CURRENT \<and> aq_session_key q = [] \<and> aq_origin_session_key q = [] then ISOLATED else target0)
        (aq_origin_session_key q)) = Inr (h, p, t, s)"
    and d: "normalize_delivery_for_target (out_url out) t
        (case aq_delivery q of None \<Rightarrow> default_delivery | Some d \<Rightarrow> d) (aq_delivery q \<noteq> None) = Inr delivery"
    and m: "persisted_run_mode (aq_run_mode q) (aq_creator_is_owner q)
        (aq_creator_host_execute q \<or> aq_creator_is_owner q) = Inr mode"
    and f: "schedule_first out now
       ((default_job jid now)
        \<lparr>j_name := aq_name q, j_status := (if aq_enabled q then PENDING else PAUSED),
         j_enabled := aq_enabled q, j_schedule_raw := expr, j_schedule_kind := kind,
         j_cron_expr := expr, j_tz := py_strip (or_str (aq_schedule_tz q) (aq_tz q)), j_handler_key := h,
         j_payload := p, j_session_target := t, j_session_key := s,
         j_timeout_seconds := aq_timeout_seconds q, j_wake_mode := wake,
         j_max_retries := aq_max_retries q,
         j_jitter_seconds := (case aq_jitter_seconds q of None \<Rightarrow> drawn | Some j \<Rightarrow> max 0 j),
         j_delivery := delivery,
         j_origin_session_key := normalize_origin_session_key
           (if target0 = CURRENT \<and> aq_session_key q = [] \<and> aq_origin_session_key q = [] then ISOLATED else target0)
           (aq_origin_session_key q), j_tool_policy := aq_tool_policy q,
         j_creator_session_key := aq_creator_session_key q, j_creator_sender_id := aq_creator_sender_id q,
         j_creator_is_owner := aq_creator_is_owner q,
         j_creator_host_execute := aq_creator_host_execute q \<or> aq_creator_is_owner q,
         j_run_mode := run_mode_value mode, j_elevated := (if mode = FULL then ''full'' else []),
         j_execution_target := (if mode = FULL then ''host'' else ''sandbox''),
         j_idempotency_key := aq_idempotency_key q\<rparr>) = Inr job" (is "schedule_first out now ?j = _")
    using assms(1) by (auto simp: build_job_def Let_def)
  obtain dd aa tt where job: "job = ?j\<lparr>j_delete_after_run := dd, j_anchor_at := aa, j_next_run_at := Some tt\<rparr>"
    using schedule_first_fields [OF f] by blast
  have jitter: "0 \<le> (case aq_jitter_seconds q of None \<Rightarrow> drawn | Some j \<Rightarrow> max 0 j)"
    using assms(2) by (simp split: option.splits)
  have every: "kind = EVERY \<Longrightarrow> py_int expr = Some w \<Longrightarrow> 1 \<le> w" for w
    using validate_structured_Inr [OF v] py_int_int_str by auto
  have sound: "schedule_sound ?j" using jitter every by (simp add: schedule_sound_def)
  have "schedule_sound job" using sound by (simp add: job schedule_sound_def)
  moreover have "aq_handler_key q \<in> set known_handler_keys \<longrightarrow> py_strip (payload_text p t) \<noteq> []"
    using strict_contract_facts [OF c] by blast
  moreover have "t = MAIN \<and> d_mode delivery \<noteq> WEBHOOK \<longrightarrow> d_mode delivery = DNONE"
    using normalize_delivery_main [OF d] by blast
  moreover have "mode = FULL \<longrightarrow> aq_creator_is_owner q \<or> aq_creator_host_execute q"
    using persisted_full m by blast
  ultimately have "born_ok q job"
    by (cases mode) (simp_all add: born_ok_def job default_job_def)
  moreover have "j_schedule_kind job \<noteq> AT \<longrightarrow> (\<exists>t. j_next_run_at job = Some t \<and> now < t)"
    using schedule_first_future [OF f sound] by (simp add: job)
  ultimately show ?thesis by blast
qed

lemma create_or_get_new:
  assumes "create_or_get st job = Inr (st', j)" and "\<not> j_deduplicated j"
  shows "j = job \<and> save st job = Inr st'"
proof (cases "j_idempotency_key job = []")
  case True
  then show ?thesis using assms(1) by (auto simp: create_or_get_def)
next
  case False
  obtain e where e: "get_by_idempotency_key st (j_idempotency_key job) = Inr e"
    using assms(1) False by (auto simp: create_or_get_def)
  show ?thesis
  proof (cases e)
    case (Some old)
    then have "j = old\<lparr>j_deduplicated := True\<rparr>" using assms(1) False e by (simp add: create_or_get_def)
    with assms(2) show ?thesis by simp
  next
    case None
    show ?thesis
    proof (cases "save st job")
      case (Inl exc)
      then show ?thesis using assms(1) False e None by (cases exc) (simp_all add: create_or_get_def)
    next
      case (Inr st'')
      then show ?thesis using assms(1) False e None by (simp add: create_or_get_def)
    qed
  qed
qed

lemma row_normal_status [simp]: "row_normal (r\<lparr>j_status := s\<rparr>) = row_normal r"
  by (rule row_normal_cong) simp_all

theorem created_job_safe:
  assumes "add out st q jid now drawn = Inr (st', job)" and "\<not> j_deduplicated job" and "0 \<le> drawn"
  shows "(j_run_mode job = ''full'' \<longleftrightarrow> j_execution_target job = ''host'') \<and>
    (j_run_mode job = ''full'' \<longleftrightarrow> j_elevated job = ''full'') \<and>
    (j_run_mode job = ''full'' \<longrightarrow> aq_creator_is_owner q \<or> aq_creator_host_execute q) \<and>
    (aq_handler_key q \<in> set known_handler_keys \<longrightarrow>
       py_strip (payload_text (j_payload job) (j_session_target job)) \<noteq> []) \<and>
    (j_session_target job = MAIN \<longrightarrow> d_mode (j_delivery job) = WEBHOOK \<or> d_mode (j_delivery job) = DNONE) \<and>
    j_reservation_token job = [] \<and> schedule_sound job \<and>
    (j_schedule_kind job \<noteq> AT \<longrightarrow> (\<exists>t. j_next_run_at job = Some t \<and> now < t))"
proof -
  obtain job0 where b: "build_job out q jid now drawn = Inr job0" and c: "create_or_get st job0 = Inr (st', job)"
    using assms(1) by (auto simp: add_def)
  have "job = job0" using create_or_get_new [OF c assms(2)] by simp
  with build_job_born [OF b assms(3)] show ?thesis by (auto simp: born_ok_def)
qed

section \<open>Operations and reservations\<close>

lemma save_find:
  assumes "save st job = Inr st'"
  shows "\<exists>row. row_of job = Inr row \<and>
    (\<forall>k. find_row k (st_jobs st') = (if k = j_id job
       then Some (keep_created (find_row (j_id job) (st_jobs st)) row) else find_row k (st_jobs st)))"
proof -
  obtain row where row: "row_of job = Inr row" "st' = st\<lparr>st_jobs := upsert row (st_jobs st)\<rparr>"
    using assms by (auto simp: save_def split: if_splits)
  then show ?thesis
    using row_of_same [OF row(1)] find_upsert_same [of row "st_jobs st"] find_upsert_other [of _ row "st_jobs st"]
    by auto
qed

lemma keep_created_simps [simp]:
  "j_reservation_token (keep_created o' row) = j_reservation_token row"
  "j_status (keep_created o' row) = j_status row" "j_id (keep_created o' row) = j_id row"
  by (simp_all add: keep_created_def split: option.splits)

lemma save_holder:
  assumes "save st job = Inr st'"
  shows "lease_holder st' k = (if k = j_id job
    then (if j_reservation_token job = [] then None else Some (j_reservation_token job))
    else lease_holder st k)"
  using save_find [OF assms] row_of_same by (auto simp: lease_holder_def)

definition keeps_lease :: "(cron_job \<Rightarrow> sched_exc + cron_job) \<Rightarrow> bool" where
  "keeps_lease f \<longleftrightarrow> (\<forall>job job'. f job = Inr job' \<longrightarrow>
     j_id job' = j_id job \<and> j_reservation_token job' = j_reservation_token job)"

lemma modify_keeps:
  assumes "store_ok st" and "keeps_lease f" and "modify st jid f = Inr (st', res)"
  shows "store_ok st' \<and> (\<forall>k. lease_holder st' k = lease_holder st k)"
proof (cases "find_row jid (st_jobs st)")
  case None
  then show ?thesis using assms get_ok [OF assms(1), of jid] by (simp add: modify_def)
next
  case (Some r)
  then obtain job' where j: "f (read_back r) = Inr job'" "save st job' = Inr st'"
    using assms(3) get_ok [OF assms(1), of jid] by (auto simp: modify_def)
  then have "j_id job' = jid" "j_reservation_token job' = j_reservation_token r"
    using assms(2) find_row_Some [OF Some] by (auto simp: keeps_lease_def)
  then show ?thesis
    using save_ok [OF assms(1) j(2)] save_holder [OF j(2)] Some by (simp add: lease_holder_def)
qed

lemma patch_tz_keeps: "patch_tz out tz job = Inr job' \<Longrightarrow> \<exists>z. job' = job\<lparr>j_tz := z\<rparr>"
  by (cases job) (auto simp: patch_tz_def split: option.splits)

lemma reschedule_keeps:
  "reschedule out now k e job = Inr job' \<Longrightarrow> j_id job' = j_id job \<and> j_reservation_token job' = j_reservation_token job"
  by (cases k) (auto simp: reschedule_def Let_def)

lemma patch_schedule_keeps:
  "patch_schedule out now p job = Inr job' \<Longrightarrow>
   j_id job' = j_id job \<and> j_reservation_token job' = j_reservation_token job"
  by (auto simp: patch_schedule_def split: option.splits if_splits prod.splits
      dest!: reschedule_keeps patch_tz_keeps)

lemma patch_fields_keeps:
  "patch_fields p job = Inr job' \<Longrightarrow>
   j_id job' = j_id job \<and> j_reservation_token job' = j_reservation_token job"
  by (auto simp: patch_fields_def Let_def)

lemma revalidate_keeps:
  "revalidate out b now job = Inr job' \<Longrightarrow>
   j_id job' = j_id job \<and> j_reservation_token job' = j_reservation_token job"
  by (auto simp: revalidate_def split: prod.splits)

lemma patch_job_keeps: "keeps_lease (patch_job out now p)"
  unfolding keeps_lease_def patch_job_def
  by (auto dest!: patch_tz_keeps patch_schedule_keeps patch_fields_keeps revalidate_keeps)

lemma revive_keeps: "keeps_lease (revive zone now)"
  unfolding keeps_lease_def by (auto simp: revive_def Let_def split: if_splits)

lemma pause_keeps: "keeps_lease (\<lambda>job. Inr (job\<lparr>j_status := PAUSED, j_updated_at := now\<rparr>))"
  by (auto simp: keeps_lease_def)

theorem operations_keep_reservations:
  assumes "store_ok st"
    and "update out st jid p now = Inr (st', res) \<or> pause st jid now = Inr (st', res) \<or>
         resume zone st jid now = Inr (st', res)"
  shows "store_ok st' \<and> (\<forall>k. lease_holder st' k = lease_holder st k)"
  using assms(2) modify_keeps [OF assms(1) patch_job_keeps] modify_keeps [OF assms(1) revive_keeps]
    modify_keeps [OF assms(1) pause_keeps]
  unfolding update_def pause_def resume_def by blast

theorem pause_survives_running_job:
  assumes "store_ok st" and "tok \<noteq> []" and "lease_holder st jid = Some tok"
  shows "\<exists>st1 j. pause st jid now = Inr (st1, Some j) \<and>
    (\<exists>st2. apply_reserved_result zone st1 jid tok exe later = Inr (st2, True) \<and>
       (\<exists>r. find_row jid (st_jobs st2) = Some r \<and> j_status r = PAUSED \<and> j_reservation_token r = []))"
proof -
  obtain r where r: "find_row jid (st_jobs st) = Some r" "j_reservation_token r = tok"
    using assms(3) by (auto simp: lease_holder_def split: option.splits if_splits)
  have id: "j_id r = jid" and n: "row_normal r"
    using find_row_Some [OF r(1)] assms(1) by (auto simp: store_ok_def)
  define p where "p = (read_back r)\<lparr>j_status := PAUSED, j_updated_at := now\<rparr>"
  have pn: "row_normal p" "j_id p = jid" "j_idempotency_key p = j_idempotency_key r"
    using n id by (simp_all add: p_def)
  obtain st1 where s1: "save st p = Inr st1" "store_ok st1" and
      f1: "\<And>k. find_row k (st_jobs st1) = (if k = jid
         then Some (p\<lparr>j_created_at := j_created_at r, j_deduplicated := False\<rparr>) else find_row k (st_jobs st))"
    using find_save_modified [OF assms(1) r(1) pn] by blast
  define r1 where "r1 = p\<lparr>j_created_at := j_created_at r, j_deduplicated := False\<rparr>"
  have r1: "find_row jid (st_jobs st1) = Some r1" using f1 by (simp add: r1_def)
  have st: "j_status (read_back r1) = PAUSED" "j_reservation_token r1 = tok" "row_normal r1" "j_id r1 = jid"
    using pn r(2) row_normal_cong [of r1 p] by (simp_all add: r1_def) (simp_all add: p_def)
  obtain st2 where s2: "save st1 (clear_reservation (read_back r1)) = Inr st2" and
      f2: "\<And>k. find_row k (st_jobs st2) = (if k = jid
         then Some (clear_reservation (read_back r1)\<lparr>j_created_at := j_created_at r1, j_deduplicated := False\<rparr>)
         else find_row k (st_jobs st1))"
    using find_save_modified [OF s1(2) r1, of "clear_reservation (read_back r1)"] st by auto
  have "pause st jid now = Inr (st1, Some p)"
    using r(1) get_ok [OF assms(1), of jid] s1(1) by (simp add: pause_def modify_def p_def)
  moreover have "apply_reserved_result zone st1 jid tok exe later = Inr (st2, True)"
    using if_owner_cases [OF s1(2), of jid tok] r1 st s2 by (simp add: apply_reserved_result_def)
  ultimately show ?thesis using f2 [of jid] st(1) by auto
qed

theorem resume_revives:
  assumes "store_ok st" and "resume zone st jid now = Inr (st', Some job)"
  shows "j_status job = PENDING \<and> j_enabled job \<and> j_backoff_until job = None \<and> j_consecutive_errors job = 0 \<and>
    (\<exists>r. find_row jid (st_jobs st') = Some r \<and>
       (\<forall>later. lease_holder st' jid = None \<and> at_or_before (j_next_run_at job) later \<longrightarrow>
          reservable True later r))"
proof -
  obtain r where r: "find_row jid (st_jobs st) = Some r" "revive zone now (read_back r) = Inr job" "save st job = Inr st'"
    using assms get_ok [OF assms(1), of jid] by (auto simp: resume_def modify_def split: option.splits)
  have j: "j_status job = PENDING \<and> j_enabled job \<and> j_backoff_until job = None \<and> j_consecutive_errors job = 0 \<and>
      j_id job = j_id r"
    using r(2) by (auto simp: revive_def Let_def split: if_splits)
  obtain row where row: "row_of job = Inr row"
      "find_row (j_id job) (st_jobs st') = Some (keep_created (find_row (j_id job) (st_jobs st)) row)"
    using save_find [OF r(3)] by auto
  define q where "q = keep_created (find_row (j_id job) (st_jobs st)) row"
  have q: "j_status q = j_status job" "j_enabled q = j_enabled job" "j_backoff_until q = j_backoff_until job"
      "j_next_run_at q = j_next_run_at job"
    using row(1) by (auto simp: q_def keep_created_def row_of_def with_contract_def split: prod.splits option.splits)
  have "find_row jid (st_jobs st') = Some q" using row(2) j find_row_Some [OF r(1)] by (simp add: q_def)
  then show ?thesis using q j by (auto simp: reservable_def past_backoff_def lease_holder_def split: if_splits)
qed

section \<open>Instances\<close>

definition sample_request :: add_request where
  "sample_request =
     \<lparr>aq_name = ''n'', aq_schedule_kind = ''every'', aq_schedule_value = PyStr ''60'', aq_schedule_tz = [],
      aq_enabled = True, aq_handler_key = ''agent_run'', aq_payload = [(''task'', PyStr ''x'')],
      aq_session_target = ''isolated'', aq_session_key = [], aq_timeout_seconds = 600 * sec,
      aq_wake_mode = PyNone, aq_max_retries = 3, aq_delivery = None, aq_origin_session_key = [],
      aq_tool_policy = [], aq_tz = [], aq_jitter_seconds = Some 0, aq_creator_session_key = [],
      aq_creator_sender_id = [], aq_creator_is_owner = False, aq_creator_host_execute = False,
      aq_run_mode = ''full'', aq_idempotency_key = []\<rparr>"

definition nothing_outside :: outside where
  "nothing_outside = \<lparr>out_iso = (\<lambda>_. None), out_zone = (\<lambda>_. None), out_url = (\<lambda>_. None)\<rparr>"

lemma sample_built:
  "case build_job nothing_outside sample_request ''k'' 7 0 of
     Inl e \<Rightarrow> False
   | Inr job \<Rightarrow> j_idempotency_key job = [] \<and> \<not> j_deduplicated job \<and> is_ok (row_of job) \<and>
       j_run_mode job = ''safe''"
  by code_simp

lemma sample_added:
  "\<exists>st' job. add nothing_outside (one_job id) sample_request ''k'' 7 0 = Inr (st', job) \<and>
     \<not> j_deduplicated job \<and> j_run_mode job = ''safe''"
proof -
  obtain job row where b: "build_job nothing_outside sample_request ''k'' 7 0 = Inr job"
      "j_idempotency_key job = []" "\<not> j_deduplicated job" "row_of job = Inr row" "j_run_mode job = ''safe''"
    using sample_built by (auto split: sum.splits simp: is_ok_iff)
  moreover have "\<not> key_conflict row (st_jobs (one_job id))"
    using row_of_same [OF b(4)] b(2) by (simp add: key_conflict_def)
  ultimately show ?thesis by (simp add: add_def create_or_get_def save_def)
qed

lemma created_job_safe_witness:
  "\<exists>st' job t. add nothing_outside (one_job id) sample_request ''k'' 7 0 = Inr (st', job) \<and>
     j_run_mode job \<noteq> ''full'' \<and> schedule_sound job"
proof -
  obtain st' job where a: "add nothing_outside (one_job id) sample_request ''k'' 7 0 = Inr (st', job)"
      "\<not> j_deduplicated job" using sample_added by blast
  from created_job_safe [OF a] show ?thesis using a by (auto simp: sample_request_def)
qed

lemma operations_keep_reservations_witness:
  "\<exists>st' res. pause (one_job (\<lambda>j. j\<lparr>j_status := RUNNING, j_reservation_token := ''t''\<rparr>)) ''j'' 9 = Inr (st', res) \<and>
     lease_holder st' ''j'' = Some ''t''"
proof -
  define st where "st = one_job (\<lambda>j. j\<lparr>j_status := RUNNING, j_reservation_token := ''t''\<rparr>)"
  have n: "row_normal ((default_job ''j'' 0)\<lparr>j_status := RUNNING, j_reservation_token := ''t''\<rparr>)"
    using row_normal_default [of "''j''" 0] by (simp add: row_normal_def job_contract_def)
  then have ok: "store_ok st" unfolding st_def by (rule store_ok_one)
  have h: "lease_holder st ''j'' = Some ''t''"
    by (simp add: st_def one_job_def lease_holder_def find_row_def default_job_def)
  obtain r where "find_row ''j'' (st_jobs st) = Some r" using h by (auto simp: lease_holder_def split: option.splits)
  moreover have "row_normal r" "j_id r = ''j''"
    using find_row_Some [OF calculation] ok by (auto simp: store_ok_def)
  ultimately obtain st' where "save st ((read_back r)\<lparr>j_status := PAUSED, j_updated_at := 9\<rparr>) = Inr st'"
    using find_save_modified [OF ok, of "''j''" r "(read_back r)\<lparr>j_status := PAUSED, j_updated_at := 9\<rparr>"] by auto
  with \<open>find_row ''j'' (st_jobs st) = Some r\<close> obtain res where p: "pause st ''j'' 9 = Inr (st', res)"
    using get_ok [OF ok, of "''j''"] by (simp add: pause_def modify_def)
  have "lease_holder st' ''j'' = lease_holder st ''j''"
    using operations_keep_reservations [OF ok disjI2 [OF disjI1 [OF p]]] by blast
  then show ?thesis using p h unfolding st_def by auto
qed

lemma pause_survives_running_job_witness:
  "\<exists>st1 j. pause (one_job (\<lambda>j. j\<lparr>j_status := RUNNING, j_reservation_token := ''t''\<rparr>)) ''j'' 9 = Inr (st1, Some j)"
proof -
  have "row_normal ((default_job ''j'' 0)\<lparr>j_status := RUNNING, j_reservation_token := ''t''\<rparr>)"
    using row_normal_default [of "''j''" 0] by (simp add: row_normal_def job_contract_def)
  then have ok: "store_ok (one_job (\<lambda>j. j\<lparr>j_status := RUNNING, j_reservation_token := ''t''\<rparr>))"
    by (rule store_ok_one)
  have "lease_holder (one_job (\<lambda>j. j\<lparr>j_status := RUNNING, j_reservation_token := ''t''\<rparr>)) ''j'' = Some ''t''"
    by (simp add: one_job_def lease_holder_def find_row_def default_job_def)
  from pause_survives_running_job [OF ok _ this] show ?thesis by blast
qed

lemma resume_revives_witness:
  "\<exists>st' job. resume (\<lambda>_. None) (one_job (\<lambda>j. j\<lparr>j_status := FAILED, j_schedule_kind := AT\<rparr>)) ''j'' 9 =
     Inr (st', Some job) \<and> j_status job = PENDING"
proof -
  define st where "st = one_job (\<lambda>j. j\<lparr>j_status := FAILED, j_schedule_kind := AT\<rparr>)"
  have n: "row_normal ((default_job ''j'' 0)\<lparr>j_status := FAILED, j_schedule_kind := AT\<rparr>)"
    using row_normal_default [of "''j''" 0] by (simp add: row_normal_def job_contract_def)
  then have ok: "store_ok st" unfolding st_def by (rule store_ok_one)
  define r where "r = (default_job ''j'' 0)\<lparr>j_status := FAILED, j_schedule_kind := AT\<rparr>"
  have f: "find_row ''j'' (st_jobs st) = Some r"
    by (simp add: st_def r_def one_job_def find_row_def default_job_def)
  obtain job where j: "revive (\<lambda>_. None) 9 (read_back r) = Inr job" "row_normal job" "j_id job = j_id r"
      "j_idempotency_key job = j_idempotency_key r"
  proof
    show "revive (\<lambda>_. None) 9 (read_back r) = Inr ((read_back r)\<lparr>j_status := PENDING, j_enabled := True,
        j_backoff_until := None, j_consecutive_errors := 0, j_updated_at := 9\<rparr>)"
      by (simp add: revive_def Let_def r_def default_job_def)
    show "row_normal ((read_back r)\<lparr>j_status := PENDING, j_enabled := True,
        j_backoff_until := None, j_consecutive_errors := 0, j_updated_at := 9\<rparr>)"
      using n row_normal_cong [of "(read_back r)\<lparr>j_status := PENDING, j_enabled := True,
        j_backoff_until := None, j_consecutive_errors := 0, j_updated_at := 9\<rparr>" "read_back r"]
      by (simp add: r_def)
  qed simp_all
  moreover have "j_id r = ''j''" using find_row_Some [OF f] by simp
  ultimately obtain st' where "save st job = Inr st'" using find_save_modified [OF ok f j(2)] by auto
  then have "resume (\<lambda>_. None) st ''j'' 9 = Inr (st', Some job)"
    using f j(1) get_ok [OF ok, of "''j''"] by (simp add: resume_def modify_def)
  with resume_revives [OF ok this] show ?thesis unfolding st_def by blast
qed

end
