(* ===== verification/Sched_Timer.thy ===== *)
theory Sched_Timer
  imports Complex_Main Sched_Ops
begin

text \<open>
  The tick loop, \<open>scheduler/timer.py\<close>, the manual trigger of \<open>scheduler/engine.py\<close>, the spreading
  of jobs, \<open>scheduler/stagger.py\<close>, and the reaper of isolated sessions, \<open>scheduler/reaper.py\<close>. A task
  is an entry (job id, done) of the table of running tasks; what its handler does is a
  \<open>handler_outcome\<close>. Fresh tokens and identifiers are arguments, one per use, in order of use.
\<close>

section \<open>Spreading\<close>

text \<open>Delays are exact rationals; \<open>wobble i\<close> is the number drawn for slot \<open>i\<close>.\<close>

definition compute_jitter :: "rat \<Rightarrow> rat \<Rightarrow> rat \<Rightarrow> rat" where
  "compute_jitter stable_fraction drawn max_jitter_seconds =
     (if max_jitter_seconds \<le> 0 then 0
      else min (stable_fraction * max_jitter_seconds * (7 / 10) + drawn) max_jitter_seconds)"

definition slot_delay :: "rat \<Rightarrow> rat \<Rightarrow> nat \<Rightarrow> rat \<Rightarrow> rat" where
  "slot_delay window slot_size i wobble =
     max 0 (min (of_nat i * slot_size + wobble) (window - 1 / 1000))"

definition spread_jobs :: "(nat \<Rightarrow> rat) \<Rightarrow> rat \<Rightarrow> string list \<Rightarrow> (string \<times> rat) list" where
  "spread_jobs wobble window job_ids =
     (if job_ids = [] then []
      else let n = length job_ids; slot_size = window / of_nat n; sorted_ids = sort job_ids
           in map (\<lambda>(i, jid). (jid, slot_delay window slot_size i (wobble i))) (enumerate 0 sorted_ids))"

section \<open>One run\<close>

text \<open>The registered handlers, by key; the execution of the handler is summarised by its outcome.\<close>

record run_inputs =
  ri_outcome :: handler_outcome
  ri_exec_id :: string
  ri_started :: instant
  ri_finished :: instant
  ri_applied :: instant
  ri_dispatcher :: bool

definition no_handler_text :: "string \<Rightarrow> string" where
  "no_handler_text key = ''No handler registered for key '' @ quoted key"

definition run_single :: "zone_db \<Rightarrow> string list \<Rightarrow> store \<Rightarrow> job_reservation \<Rightarrow> run_inputs \<Rightarrow> sched_exc + store" where
  "run_single zone handlers st rv x =
     (let job = rv_job rv in
      if j_handler_key job \<notin> set handlers then
        let error = no_handler_text (j_handler_key job) in
        rbind (finalize_reserved_missing_handler st (j_id job) (rv_token rv) error (ri_started x)) (\<lambda>(st, _).
        save_execution st ((blank_execution (ri_exec_id x) job (ri_finished x) (ri_finished x))\<lparr>je_error := Some error\<rparr>))
      else
        let (exe, alert) = execute_with_timeout (ri_dispatcher x) (ri_exec_id x) job (ri_outcome x)
                             (ri_started x) (ri_finished x)
        in rbind (save_execution st exe) (\<lambda>st.
           rbind (apply_reserved_result zone st (j_id job) (rv_token rv) exe (ri_applied x)) (\<lambda>(st, _). Inr st)))"

text \<open>A task cancelled before its handler returned.\<close>

definition run_cancelled :: "store \<Rightarrow> job_reservation \<Rightarrow> instant \<Rightarrow> sched_exc + store" where
  "run_cancelled st rv now =
     rbind (release_reservation st (j_id (rv_job rv)) (rv_token rv) now) (\<lambda>(st, _). Inr st)"

section \<open>Ticks\<close>

record timer =
  tm_store :: store
  tm_running :: "(string \<times> bool) list"
  tm_max_concurrent :: int
  tm_max_catchup :: nat

definition min_refire_gap :: int where "min_refire_gap = 2 * sec"
definition max_timer_delay :: int where "max_timer_delay = 60 * sec"
definition catchup_stagger :: rat where "catchup_stagger = 10"

definition start_task :: "string \<Rightarrow> (string \<times> bool) list \<Rightarrow> (string \<times> bool) list" where
  "start_task jid running = AList.update jid False running"

text \<open>Reserve the given jobs in turn, keeping those that were granted.\<close>

fun reserve_each ::
  "instant \<Rightarrow> string \<Rightarrow> string \<Rightarrow> store \<Rightarrow> (cron_job \<times> string) list \<Rightarrow> sched_exc + (store \<times> job_reservation list)" where
  "reserve_each now source owner st [] = Inr (st, [])"
| "reserve_each now source owner st ((job, token) # rest) =
     rbind (reserve_due_job st (j_id job) now source owner token) (\<lambda>(st, res).
     rbind (reserve_each now source owner st rest) (\<lambda>(st, rvs).
       Inr (st, case res of Reserved rv \<Rightarrow> rv # rvs | Rejected rj \<Rightarrow> rvs)))"

definition ran_recently :: "instant \<Rightarrow> cron_job \<Rightarrow> bool" where
  "ran_recently now job =
     (case j_last_run_at job of None \<Rightarrow> False | Some t \<Rightarrow> t > now - min_refire_gap)"

definition tick :: "timer \<Rightarrow> instant \<Rightarrow> string list \<Rightarrow> sched_exc + (timer \<times> job_reservation list)" where
  "tick tm now tokens =
     rbind (iter_due (tm_store tm) now) (\<lambda>due0.
       let due = filter (\<lambda>job. \<not> ran_recently now job) due0;
           running = filter (\<lambda>(jid, done). \<not> done) (tm_running tm);
           tm = tm\<lparr>tm_running := running\<rparr>;
           available_slots = tm_max_concurrent tm - int (length running)
       in if available_slots \<le> 0 then Inr (tm, [])
          else
            rbind (reserve_each now ''timer'' ''scheduler-timer'' (tm_store tm)
                     (zip (take (nat available_slots) due) tokens)) (\<lambda>(st, rvs).
              Inr (tm\<lparr>tm_store := st,
                      tm_running := fold (\<lambda>rv r. start_task (j_id (rv_job rv)) r) rvs running\<rparr>, rvs)))"

definition loop_delay :: "instant option \<Rightarrow> instant \<Rightarrow> int" where
  "loop_delay next_due now =
     (case next_due of
        None \<Rightarrow> max_timer_delay
      | Some t \<Rightarrow> max (sec div 10) (min (t - now) max_timer_delay))"

section \<open>Startup\<close>

definition stale :: "cron_job \<Rightarrow> bool" where
  "stale job = (j_status job = RUNNING \<or> j_reservation_token job \<noteq> [])"

definition recovered :: "instant \<Rightarrow> cron_job \<Rightarrow> cron_job" where
  "recovered now job =
     clear_reservation
       (job\<lparr>j_status := (if j_status job = RUNNING then PENDING else j_status job), j_updated_at := now\<rparr>)"

fun recover_each :: "instant \<Rightarrow> store \<Rightarrow> cron_job list \<Rightarrow> sched_exc + store" where
  "recover_each now st [] = Inr st"
| "recover_each now st (job # jobs) =
     rbind (if stale job then save st (recovered now job) else Inr st) (\<lambda>st. recover_each now st jobs)"

definition recover :: "store \<Rightarrow> instant \<Rightarrow> sched_exc + (store \<times> string list)" where
  "recover st now =
     rbind (list_active st) (\<lambda>jobs.
     rbind (recover_each now st jobs) (\<lambda>st'.
       Inr (st', map j_id (filter (\<lambda>j. j_status j = RUNNING) jobs))))"

text \<open>Overdue jobs beyond the catch-up limit move to their next run; a job whose next run cannot be
  computed or saved is logged and left as it is.\<close>

fun fast_forward :: "zone_db \<Rightarrow> instant \<Rightarrow> store \<Rightarrow> cron_job list \<Rightarrow> store" where
  "fast_forward zone now st [] = st"
| "fast_forward zone now st (job # jobs) =
     fast_forward zone now
       (if j_schedule_kind job = AT then st
        else case next_run zone job now of
               Inl e \<Rightarrow> st
             | Inr t \<Rightarrow>
                 (case save st (job\<lparr>j_next_run_at := Some t, j_updated_at := now\<rparr>) of
                    Inl e \<Rightarrow> st | Inr st' \<Rightarrow> st'))
       jobs"

definition startup_catchup ::
  "zone_db \<Rightarrow> (nat \<Rightarrow> rat) \<Rightarrow> timer \<Rightarrow> instant \<Rightarrow> string list \<Rightarrow>
   sched_exc + (timer \<times> (job_reservation \<times> rat) list)" where
  "startup_catchup zone wobble tm now tokens =
     rbind (recover (tm_store tm) now) (\<lambda>(st, recovered_ids).
     rbind (iter_due st now) (\<lambda>due.
       let missed = filter (\<lambda>j. j_id j \<notin> set recovered_ids) due in
       if missed = [] then Inr (tm\<lparr>tm_store := st\<rparr>, [])
       else
         rbind (reserve_each now ''startup'' ''scheduler-startup'' st
                  (zip (take (tm_max_catchup tm) missed) tokens)) (\<lambda>(st, rvs).
           let delays = spread_jobs wobble catchup_stagger (map (\<lambda>rv. j_id (rv_job rv)) rvs);
               delay = (\<lambda>rv. case map_of delays (j_id (rv_job rv)) of None \<Rightarrow> 0 | Some d \<Rightarrow> d);
               st = fast_forward zone now st (drop (tm_max_catchup tm) missed)
           in Inr (tm\<lparr>tm_store := st,
                      tm_running := fold (\<lambda>rv r. start_task (j_id (rv_job rv)) r) rvs (tm_running tm)\<rparr>,
                   map (\<lambda>rv. (rv, delay rv)) rvs))))"

section \<open>Manual runs\<close>

definition manual_result_from_rejection :: "job_rejected \<Rightarrow> manual_run_result" where
  "manual_result_from_rejection rj =
     (let reason = rejection_reason_value (rj_reason rj);
          (status, error) =
            (case rj_reason rj of
               NOT_FOUND \<Rightarrow> (M_NOT_FOUND, ''Cron job not found'')
             | BUSY \<Rightarrow> (M_BUSY, ''Cron job is already running'')
             | R_DISABLED \<Rightarrow> (M_DISABLED, ''Cron job is disabled'')
             | _ \<Rightarrow> (M_BLOCKED, ''Cron job cannot run now: '' @ reason))
      in \<lparr>mr_status = status, mr_execution = None, mr_reason = reason, mr_error = Some error,
          mr_current_status = (case rj_job rj of None \<Rightarrow> [] | Some j \<Rightarrow> job_status_value (j_status j)),
          mr_backoff_until = (case rj_job rj of None \<Rightarrow> None | Some j \<Rightarrow> j_backoff_until j)\<rparr>)"

definition run_job_now ::
  "zone_db \<Rightarrow> string list \<Rightarrow> store \<Rightarrow> string \<Rightarrow> instant \<Rightarrow> string \<Rightarrow> run_inputs \<Rightarrow>
   sched_exc + (store \<times> manual_run_result)" where
  "run_job_now zone handlers st jid now token x =
     rbind (get st jid) (\<lambda>current.
       case current of
         None \<Rightarrow> Inr (st, \<lparr>mr_status = M_NOT_FOUND, mr_execution = None,
           mr_reason = rejection_reason_value NOT_FOUND, mr_error = Some ''Cron job not found'',
           mr_current_status = [], mr_backoff_until = None\<rparr>)
       | Some job \<Rightarrow>
           if j_handler_key job \<notin> set handlers then
             Inr (st, \<lparr>mr_status = M_NO_HANDLER, mr_execution = None, mr_reason = ''no_handler'',
               mr_error = Some (no_handler_text (j_handler_key job)),
               mr_current_status = job_status_value (j_status job), mr_backoff_until = None\<rparr>)
           else
             rbind (reserve_manual_job st jid now ''manual'' ''scheduler-manual'' token) (\<lambda>(st, res).
               case res of
                 Rejected rj \<Rightarrow> Inr (st, manual_result_from_rejection rj)
               | Reserved rv \<Rightarrow>
                   let (exe, alert) = execute_with_timeout (ri_dispatcher x) (ri_exec_id x) job
                                        (ri_outcome x) (ri_started x) (ri_finished x)
                   in rbind (save_execution st exe) (\<lambda>st.
                      rbind (apply_reserved_result zone st jid (rv_token rv) exe (ri_applied x)) (\<lambda>(st, _).
                        Inr (st, \<lparr>mr_status = M_ACCEPTED, mr_execution = Some exe, mr_reason = [],
                          mr_error = None, mr_current_status = [], mr_backoff_until = None\<rparr>)))))"

section \<open>The session reaper\<close>

definition is_isolated_cron_session :: "string \<Rightarrow> bool" where
  "is_isolated_cron_session key =
     (let parts = split_on colon key
      in length parts = 4 \<and> parts ! 0 = ''cron'' \<and> parts ! 2 = ''run'')"

text \<open>A session: its key, and the time of its last update in milliseconds.\<close>

definition reap_list :: "int \<Rightarrow> (string option \<times> int option) list \<Rightarrow> string list" where
  "reap_list cutoff_ms sessions =
     concat (map (\<lambda>(key, updated_at).
       case (key, updated_at) of
         (Some k, Some u) \<Rightarrow>
           if k \<noteq> [] \<and> is_isolated_cron_session k \<and> u < cutoff_ms then [k] else []
       | _ \<Rightarrow> []) sessions)"

definition min_reap_interval :: int where "min_reap_interval = 300 * sec"

text \<open>\<open>maybe_reap\<close>: the time of the last reap, and whether this call reaps.\<close>

definition maybe_reap :: "int \<Rightarrow> int \<Rightarrow> int \<times> bool" where
  "maybe_reap last_reap now = (if now - last_reap < min_reap_interval then (last_reap, False) else (now, True))"

section \<open>Spreading keeps jobs apart\<close>

lemma slot_delay_lt:
  fixes window slot w v :: rat
  assumes "i < j" and "\<bar>w\<bar> \<le> slot / 10" and "\<bar>v\<bar> \<le> slot / 10" and "0 < slot"
    and "1 / 1000 < 9 / 10 * slot" and "of_nat (Suc j) * slot \<le> window"
  shows "0 \<le> slot_delay window slot i w \<and> slot_delay window slot i w < slot_delay window slot j v \<and>
    slot_delay window slot j v < window"
proof -
  have "of_nat (Suc i) * slot \<le> of_nat j * slot" using assms(1,4) by (intro mult_right_mono) auto
  then have ij: "of_nat i * slot + slot \<le> of_nat j * slot" by (simp add: distrib_right)
  have jw: "of_nat j * slot + slot \<le> window" using assms(6) by (simp add: distrib_right add.commute)
  have w: "w \<le> slot / 10" "- (slot / 10) \<le> v" "v \<le> slot / 10" using assms(2,3) by (simp_all add: abs_le_iff)
  have i0: "0 \<le> of_nat i * slot" using assms(4) by simp
  define a b c where "a = of_nat i * slot + w" and "b = of_nat j * slot + v" and "c = window - 1 / 1000"
  have "a < b" "0 < b" "a < c" "0 < c" "c < window"
    using ij jw w i0 assms(4,5) unfolding a_def b_def c_def by linarith+
  then show ?thesis unfolding slot_delay_def a_def [symmetric] b_def [symmetric] c_def [symmetric]
    by (auto simp: max_def min_def)
qed

theorem spread_jobs_distinct_slots:
  fixes wobble :: "nat \<Rightarrow> rat"
  assumes "0 < window" and "1 / 1000 < 9 / 10 * (window / of_nat (length job_ids))"
    and "\<forall>i. \<bar>wobble i\<bar> \<le> window / of_nat (length job_ids) / 10"
  shows "map fst (spread_jobs wobble window job_ids) = sort job_ids \<and>
    sorted_wrt (<) (map snd (spread_jobs wobble window job_ids)) \<and>
    (length job_ids \<ge> 2 \<longrightarrow> (\<forall>d \<in> set (map snd (spread_jobs wobble window job_ids)). 0 \<le> d \<and> d < window))"
proof (cases "job_ids = []")
  case False
  define n slot where "n = length job_ids" and "slot = window / of_nat n"
  have n: "0 < n" using False by (simp add: n_def)
  have slot: "0 < slot" using assms(1) n by (simp add: slot_def)
  have full: "of_nat n * slot = window" using n by (simp add: slot_def)
  have le: "of_nat (Suc j) * slot \<le> window" if "j < n" for j
    unfolding full [symmetric] using that slot by (intro mult_right_mono) (auto simp del: of_nat_Suc)
  have sp: "spread_jobs wobble window job_ids =
      map (\<lambda>(i, jid). (jid, slot_delay window slot i (wobble i))) (enumerate 0 (sort job_ids))"
    using False by (simp add: spread_jobs_def Let_def n_def slot_def)
  have snd: "map snd (spread_jobs wobble window job_ids) = map (\<lambda>i. slot_delay window slot i (wobble i)) [0..<n]"
    unfolding sp by (rule nth_equalityI) (simp_all add: n_def nth_enumerate_eq)
  have lt: "0 \<le> slot_delay window slot i (wobble i) \<and>
      slot_delay window slot i (wobble i) < slot_delay window slot j (wobble j) \<and>
      slot_delay window slot j (wobble j) < window" if "i < j" "j < n" for i j
    using slot_delay_lt [of i j "wobble i" slot "wobble j" window] that assms(2,3) slot le [of j]
    by (simp add: slot_def n_def)
  have "map fst (spread_jobs wobble window job_ids) = sort job_ids"
    unfolding sp by (rule nth_equalityI) (simp_all add: nth_enumerate_eq)
  moreover have "sorted_wrt (<) (map snd (spread_jobs wobble window job_ids))"
    unfolding snd sorted_wrt_map by (rule sorted_wrt_mono_rel [OF _ sorted_wrt_upt]) (use lt in auto)
  moreover have "0 \<le> slot_delay window slot i (wobble i) \<and> slot_delay window slot i (wobble i) < window"
    if "i < n" "2 \<le> n" for i
  proof (cases "i = 0")
    case True
    then show ?thesis using lt [of 0 1] that by force
  next
    case False
    then show ?thesis using lt [of 0 i] that by force
  qed
  ultimately show ?thesis unfolding snd by (auto simp: n_def)
qed (simp add: spread_jobs_def)

section \<open>The reaper\<close>

lemma agent_key_not_cron: "is_isolated_cron_session (''agent:'' @ s) = False"
  by (auto simp: is_isolated_cron_session_def Let_def)

theorem reaper_spares_agent_sessions:
  assumes "key \<in> set (reap_list cutoff sessions)"
  shows "is_isolated_cron_session key \<and> (\<forall>s. key \<noteq> ''agent:'' @ s) \<and>
    (\<exists>u < cutoff. (Some key, Some u) \<in> set sessions)"
  using assms agent_key_not_cron by (auto simp: reap_list_def split: option.splits if_splits)

lemma reaper_spares_agent_sessions_witness:
  "\<exists>u < 5. (Some ''cron:a:run:b'', Some u) \<in> set [(Some ''cron:a:run:b'', Some (3::int)), (None, None)]"
  by (rule reaper_spares_agent_sessions [THEN conjunct2, THEN conjunct2]) code_simp

section \<open>Runs end their reservation\<close>

lemma store_ok_runs [simp]: "store_ok (st\<lparr>st_runs := rs\<rparr>) = store_ok st"
  by (simp add: store_ok_def)

lemma lease_holder_runs [simp]: "lease_holder (st\<lparr>st_runs := rs\<rparr>) k = lease_holder st k"
  by (simp add: lease_holder_def)

lemma save_runs: "save st job = Inr st' \<Longrightarrow> st_runs st' = st_runs st"
  by (auto simp: save_def split: if_splits)

lemma give_action_runs: "give_action op st job = Inr st' \<Longrightarrow> st_runs st' = st_runs st"
  by (cases "give_deletes op job") (auto simp: give_action_def delete_def dest: save_runs)

lemma end_reservation_runs:
  assumes "end_reservation op st jid tok = Inr (st', b)"
  shows "st_runs st' = st_runs st"
proof -
  obtain cur where c: "get st jid = Inr cur" using assms by (auto simp: end_reservation_alt if_owner_def)
  show ?thesis
  proof (cases cur)
    case None
    then show ?thesis using assms c by (simp add: end_reservation_alt if_owner_def)
  next
    case (Some job)
    show ?thesis
    proof (cases "j_reservation_token job = tok")
      case True
      then have "give_action op st job = Inr st'"
        using assms c Some by (simp add: end_reservation_alt if_owner_def)
      then show ?thesis by (rule give_action_runs)
    next
      case False
      then show ?thesis using assms c Some by (simp add: end_reservation_alt if_owner_def)
    qed
  qed
qed

lemma end_reservation_result:
  assumes "store_ok st" and "tok \<noteq> []" and "lease_holder st jid = Some tok"
    and "end_reservation op st jid tok = Inr (st', b)"
  shows "store_ok st' \<and> lease_holder st' jid = None \<and>
    (\<forall>k. k \<noteq> jid \<longrightarrow> lease_holder st' k = lease_holder st k) \<and> st_runs st' = st_runs st"
proof -
  have "give_reservation op st jid tok = st'" using assms(4) by (simp add: give_reservation_def after_def)
  then show ?thesis
    using give_reservation_own [OF assms(1-3), of op] end_reservation_runs [OF assms(4)] by simp
qed

lemma save_execution_Inr:
  "save_execution st e = Inr st' \<longleftrightarrow> je_id e \<notin> je_id ` set (st_runs st) \<and> st' = st\<lparr>st_runs := st_runs st @ [e]\<rparr>"
proof -
  have "list_ex (\<lambda>r. je_id r = je_id e) (st_runs st) \<longleftrightarrow> je_id e \<in> je_id ` set (st_runs st)"
    unfolding list_ex_iff image_iff by (metis (lifting))
  then show ?thesis by (auto simp: save_execution_def)
qed

lemma run_single_result:
  assumes "store_ok st" and "rv_token rv \<noteq> []" and "lease_holder st (j_id (rv_job rv)) = Some (rv_token rv)"
    and "run_single zone handlers st rv x = Inr st'"
  shows "store_ok st' \<and> lease_holder st' (j_id (rv_job rv)) = None \<and>
    (\<forall>k. k \<noteq> j_id (rv_job rv) \<longrightarrow> lease_holder st' k = lease_holder st k) \<and>
    (\<exists>e. st_runs st' = st_runs st @ [e] \<and> je_job_id e = j_id (rv_job rv))"
proof (cases "j_handler_key (rv_job rv) \<in> set handlers")
  case False
  then obtain st1 b e where f: "end_reservation (G_Missing_Handler
        (no_handler_text (j_handler_key (rv_job rv))) (ri_started x)) st (j_id (rv_job rv)) (rv_token rv) = Inr (st1, b)"
      and s: "save_execution st1 e = Inr st'" "je_job_id e = j_id (rv_job rv)"
    using assms(4) by (auto simp: run_single_def Let_def blank_execution_def)
  from end_reservation_result [OF assms(1-3) f] s show ?thesis by (auto simp: save_execution_Inr)
next
  case True
  obtain exe alert where e: "execute_with_timeout (ri_dispatcher x) (ri_exec_id x) (rv_job rv) (ri_outcome x)
      (ri_started x) (ri_finished x) = (exe, alert)" by fastforce
  have jid: "je_job_id exe = j_id (rv_job rv)"
    using e by (auto simp: execute_with_timeout_def Let_def outcome_execution_def blank_execution_def
        split: handler_outcome.splits option.splits list.splits)
  obtain st1 b where s: "save_execution st exe = Inr st1" and
      f: "end_reservation (G_Finish zone exe (ri_applied x)) st1 (j_id (rv_job rv)) (rv_token rv) = Inr (st', b)"
    using assms(4) True e by (auto simp: run_single_def Let_def)
  have st1: "st1 = st\<lparr>st_runs := st_runs st @ [exe]\<rparr>" using s by (simp add: save_execution_Inr)
  have "store_ok st1" "lease_holder st1 (j_id (rv_job rv)) = Some (rv_token rv)"
    using assms(1,3) by (simp_all add: st1)
  from end_reservation_result [OF this(1) assms(2) this(2) f] show ?thesis
    using jid by (simp add: st1)
qed

theorem run_single_ends_reservation:
  assumes "store_ok st" and "rv_token rv \<noteq> []" and "lease_holder st (j_id (rv_job rv)) = Some (rv_token rv)"
    and "run_single zone handlers st rv x = Inr st'"
  shows "lease_holder st' (j_id (rv_job rv)) = None \<and>
    (\<forall>k. k \<noteq> j_id (rv_job rv) \<longrightarrow> lease_holder st' k = lease_holder st k) \<and>
    (\<exists>e. st_runs st' = st_runs st @ [e] \<and> je_job_id e = j_id (rv_job rv))"
  using run_single_result [OF assms] by blast

section \<open>Ticks respect the limits\<close>

lemma reserve_due_result:
  assumes "store_ok st" and "tok \<noteq> []" and "reserve_due_job st jid now src ow tok = Inr (st', res)"
  shows "store_ok st' \<and> st_runs st' = st_runs st \<and>
    (case res of
       Rejected rj \<Rightarrow> st' = st
     | Reserved rv \<Rightarrow> j_id (rv_job rv) = jid \<and> rv_token rv = tok \<and> lease_holder st jid = None \<and>
         lease_holder st' jid = Some tok \<and> (\<forall>k. k \<noteq> jid \<longrightarrow> lease_holder st' k = lease_holder st k) \<and>
         (\<exists>r. find_row jid (st_jobs st) = Some r \<and> reservable True now r) \<and>
         (\<forall>k. k \<noteq> jid \<longrightarrow> find_row k (st_jobs st') = find_row k (st_jobs st)))"
proof (cases res)
  case (Rejected rj)
  then show ?thesis
    using assms reserve_cases [OF assms(1), of jid now True src ow tok]
    by (auto simp: reserve_due_job_def split: option.splits if_splits)
next
  case (Reserved rv)
  obtain r where r: "find_row jid (st_jobs st) = Some r" "reservable True now r"
      "st' = st\<lparr>st_jobs := reserve_rows jid now True src ow tok (st_jobs st)\<rparr>"
      "rv_job rv = read_back (mark_reserved tok now ow src r)" "rv_token rv = tok"
    using assms(3) Reserved reserve_cases [OF assms(1), of jid now True src ow tok]
    by (auto simp: reserve_due_job_def split: option.splits if_splits)
  have "take_reservation (Reserve_Args now True src ow) st jid tok = Some st'"
    using assms(3) Reserved by (simp add: reserve_due_job_def)
  from take_reservation_free [OF assms(1,2) this] r Reserved find_row_Some [OF r(1)]
  show ?thesis by (auto simp: find_reserve_rows map_option_case split: option.splits)
qed

text \<open>Reserving a list of jobs: what was granted is held under its own token, and was due when asked.\<close>

lemma reserve_each_result:
  "store_ok st \<Longrightarrow> \<forall>(job, tok) \<in> set jts. tok \<noteq> [] \<Longrightarrow> reserve_each now src ow st jts = Inr (st', rvs) \<Longrightarrow>
   store_ok st' \<and> length rvs \<le> length jts \<and>
   (\<forall>k t. lease_holder st k = Some t \<longrightarrow> lease_holder st' k = Some t) \<and>
   (\<forall>rv \<in> set rvs. (\<exists>job. (job, rv_token rv) \<in> set jts \<and> j_id job = j_id (rv_job rv)) \<and>
      lease_holder st (j_id (rv_job rv)) = None \<and> lease_holder st' (j_id (rv_job rv)) = Some (rv_token rv))"
proof (induction jts arbitrary: st st' rvs)
  case (Cons jt jts)
  obtain job tok where jt: "jt = (job, tok)" by (cases jt)
  obtain st1 res rvs1 where s1: "reserve_due_job st (j_id job) now src ow tok = Inr (st1, res)"
      and s2: "reserve_each now src ow st1 jts = Inr (st', rvs1)"
      and rvs: "rvs = (case res of Reserved rv \<Rightarrow> rv # rvs1 | Rejected rj \<Rightarrow> rvs1)"
    using Cons.prems(3) by (auto simp: jt)
  have tok: "tok \<noteq> []" using Cons.prems(2) by (simp add: jt)
  note r1 = reserve_due_result [OF Cons.prems(1) tok s1]
  have ih: "store_ok st' \<and> length rvs1 \<le> length jts \<and>
   (\<forall>k t. lease_holder st1 k = Some t \<longrightarrow> lease_holder st' k = Some t) \<and>
   (\<forall>rv \<in> set rvs1. (\<exists>job. (job, rv_token rv) \<in> set jts \<and> j_id job = j_id (rv_job rv)) \<and>
      lease_holder st1 (j_id (rv_job rv)) = None \<and> lease_holder st' (j_id (rv_job rv)) = Some (rv_token rv))"
    using Cons.IH [OF _ _ s2] r1 Cons.prems(2) by (auto simp: jt)
  have mono: "lease_holder st k = Some t \<Longrightarrow> lease_holder st1 k = Some t" for k t
    using r1 by (cases "k = j_id job") (auto split: reservation_result.splits)
  show ?case
  proof (cases res)
    case (Rejected rj)
    then show ?thesis using ih r1 rvs by (auto simp: jt)
  next
    case (Reserved rv)
    have "lease_holder st1 (j_id job) = Some tok" "j_id (rv_job rv) = j_id job" "rv_token rv = tok"
        "lease_holder st (j_id job) = None"
      using r1 Reserved by simp_all
    moreover have "lease_holder st k = None" if "lease_holder st1 k = None" for k
      using mono [of k] that by (cases "lease_holder st k") auto
    ultimately show ?thesis using ih mono Reserved rvs by (auto simp: jt)
  qed
qed simp

lemma length_start_tasks: "length (fold (\<lambda>rv r. start_task (f rv) r) rvs running) \<le> length running + length rvs"
proof (induction rvs arbitrary: running)
  case (Cons rv rvs)
  have "length (AList.update k v xs) \<le> Suc (length xs)" for k v and xs :: "(string \<times> bool) list"
    by (induction xs) auto
  then have "length (start_task (f rv) running) \<le> Suc (length running)" by (simp add: start_task_def)
  with Cons [of "start_task (f rv) running"] show ?case by simp
qed simp

theorem tick_respects_limits:
  assumes "store_ok (tm_store tm)" and "tick tm now tokens = Inr (tm', rvs)" and "\<forall>tok \<in> set tokens. tok \<noteq> []"
  shows "store_ok (tm_store tm') \<and>
    int (length (tm_running tm')) \<le>
      max (int (length (filter (\<lambda>(jid, done). \<not> done) (tm_running tm)))) (tm_max_concurrent tm) \<and>
    (\<forall>rv \<in> set rvs.
       lease_holder (tm_store tm) (j_id (rv_job rv)) = None \<and>
       lease_holder (tm_store tm') (j_id (rv_job rv)) = Some (rv_token rv) \<and>
       (\<exists>r \<in> set (st_jobs (tm_store tm)). j_id r = j_id (rv_job rv) \<and> is_due now r \<and> \<not> ran_recently now r))"
proof -
  define due where "due = filter (\<lambda>job. \<not> ran_recently now job)
    (map read_back (sort_key due_instant (filter (is_due now) (st_jobs (tm_store tm)))))"
  define running where "running = filter (\<lambda>(jid, done). \<not> done) (tm_running tm)"
  define slots where "slots = tm_max_concurrent tm - int (length running)"
  have t: "(if slots \<le> 0 then Inr (tm\<lparr>tm_running := running\<rparr>, [])
      else rbind (reserve_each now ''timer'' ''scheduler-timer'' (tm_store tm) (zip (take (nat slots) due) tokens))
        (\<lambda>(st, rvs). Inr (tm\<lparr>tm_running := running, tm_store := st,
              tm_running := fold (\<lambda>rv r. start_task (j_id (rv_job rv)) r) rvs running\<rparr>, rvs))) = Inr (tm', rvs)"
    using assms(2) iter_due_ok [OF assms(1), of now]
    by (simp add: tick_def Let_def due_def running_def slots_def cong: if_cong)
  show ?thesis
  proof (cases "slots \<le> 0")
    case True
    then show ?thesis using t assms(1) by (auto simp: running_def [symmetric])
  next
    case False
    obtain st' where s: "reserve_each now ''timer'' ''scheduler-timer'' (tm_store tm)
        (zip (take (nat slots) due) tokens) = Inr (st', rvs)"
      and tm': "tm_store tm' = st'" "tm_running tm' = fold (\<lambda>rv r. start_task (j_id (rv_job rv)) r) rvs running"
      using t False by auto
    have "\<forall>(job, tok) \<in> set (zip (take (nat slots) due) tokens). tok \<noteq> []"
      using assms(3) by (auto dest: set_zip_rightD)
    from reserve_each_result [OF assms(1) this s]
    have r: "store_ok st'" "length rvs \<le> length (zip (take (nat slots) due) tokens)"
      and rv: "\<And>rv. rv \<in> set rvs \<Longrightarrow> (\<exists>job. (job, rv_token rv) \<in> set (zip (take (nat slots) due) tokens) \<and>
            j_id job = j_id (rv_job rv)) \<and> lease_holder (tm_store tm) (j_id (rv_job rv)) = None \<and>
          lease_holder st' (j_id (rv_job rv)) = Some (rv_token rv)"
      by auto
    have "length rvs \<le> nat slots" using r(2) by simp
    then have "int (length (tm_running tm')) \<le> int (length running) + slots"
      using False length_start_tasks [of "\<lambda>rv. j_id (rv_job rv)" rvs running] tm'(2) by simp
    moreover have "\<exists>r \<in> set (st_jobs (tm_store tm)). j_id r = j_id (rv_job x) \<and> is_due now r \<and> \<not> ran_recently now r"
      if x: "x \<in> set rvs" for x
    proof -
      obtain job where "job \<in> set due" "j_id job = j_id (rv_job x)"
        using rv [OF x] by (auto dest!: set_zip_leftD in_set_takeD)
      then show ?thesis by (auto simp: due_def ran_recently_def)
    qed
    ultimately show ?thesis using r(1) rv tm'(1) by (simp add: slots_def running_def)
  qed
qed

theorem loop_delay_bounds:
  "sec div 10 \<le> loop_delay next_due now \<and> loop_delay next_due now \<le> max_timer_delay \<and>
   (case next_due of
      None \<Rightarrow> loop_delay next_due now = max_timer_delay
    | Some t \<Rightarrow> now + loop_delay next_due now \<le> max t (now + sec div 10))"
  by (auto simp: loop_delay_def max_timer_delay_def sec_def split: option.splits)

section \<open>Manual runs\<close>

theorem run_job_now_outcome:
  assumes "store_ok st" and "tok \<noteq> []" and "run_job_now zone handlers st jid now tok x = Inr (st', res)"
  shows "(mr_status res = M_ACCEPTED \<longleftrightarrow> mr_execution res \<noteq> None) \<and>
    (mr_status res \<noteq> M_ACCEPTED \<longrightarrow> st' = st \<and> mr_error res \<noteq> None) \<and>
    (mr_status res = M_ACCEPTED \<longrightarrow> lease_holder st jid = None \<and> lease_holder st' jid = None \<and>
       (\<forall>k. k \<noteq> jid \<longrightarrow> lease_holder st' k = lease_holder st k) \<and>
       st_runs st' = st_runs st @ [the (mr_execution res)])"
proof (cases "find_row jid (st_jobs st)")
  case None
  then show ?thesis using assms get_ok [OF assms(1), of jid] by (auto simp: run_job_now_def)
next
  case (Some r)
  have g: "get st jid = Inr (Some (read_back r))" using Some get_ok [OF assms(1), of jid] by simp
  show ?thesis
  proof (cases "j_handler_key r \<in> set handlers")
    case False
    then show ?thesis using assms(3) g by (auto simp: run_job_now_def)
  next
    case True
    show ?thesis
    proof (cases "reservable False now r")
      case False
      define rj where "rj = classify_rejection False now jid (Some (read_back r))"
      have "reserve_manual_job st jid now ''manual'' ''scheduler-manual'' tok = Inr (st, Rejected rj)"
        using False Some reserve_cases [OF assms(1), of jid now False "''manual''" "''scheduler-manual''" tok]
        by (simp add: reserve_manual_job_def rj_def)
      then have "st' = st" "res = manual_result_from_rejection rj"
        using assms(3) g True by (auto simp: run_job_now_def)
      then show ?thesis
        by (cases "rj_reason rj") (simp_all add: manual_result_from_rejection_def Let_def)
    next
      case res: True
      obtain st1 rv where s1: "reserve_manual_job st jid now ''manual'' ''scheduler-manual'' tok = Inr (st1, Reserved rv)"
          and rv: "rv_token rv = tok"
        using res Some reserve_cases [OF assms(1), of jid now False "''manual''" "''scheduler-manual''" tok]
        by (simp add: reserve_manual_job_def)
      have "take_reservation (Reserve_Args now False ''manual'' ''scheduler-manual'') st jid tok = Some st1"
        using s1 by (simp add: reserve_manual_job_def)
      note l1 = take_reservation_free [OF assms(1,2) this]
      have runs1: "st_runs st1 = st_runs st"
        using s1 res Some reserve_cases [OF assms(1), of jid now False "''manual''" "''scheduler-manual''" tok]
        by (auto simp: reserve_manual_job_def)
      obtain exe alert where e: "execute_with_timeout (ri_dispatcher x) (ri_exec_id x) (read_back r)
          (ri_outcome x) (ri_started x) (ri_finished x) = (exe, alert)" by fastforce
      obtain st2 b where s2: "save_execution st1 exe = Inr st2"
          and s3: "end_reservation (G_Finish zone exe (ri_applied x)) st2 jid tok = Inr (st', b)"
          and r: "mr_status res = M_ACCEPTED" "mr_execution res = Some exe"
        using assms(3) g True s1 e rv by (auto simp: run_job_now_def)
      have st2: "st2 = st1\<lparr>st_runs := st_runs st1 @ [exe]\<rparr>" using s2 by (simp add: save_execution_Inr)
      have "store_ok st2" "lease_holder st2 jid = Some tok" using l1 by (simp_all add: st2)
      from end_reservation_result [OF this(1) assms(2) this(2) s3] show ?thesis
        using l1 r runs1 by (simp add: st2)
    qed
  qed
qed

section \<open>Recovery at startup\<close>

lemma stale_read_back [simp]: "stale (read_back r) = stale r"
  by (simp add: stale_def)

lemma recovered_facts [simp]:
  "j_id (recovered now j) = j_id j" "j_idempotency_key (recovered now j) = j_idempotency_key j"
  "j_reservation_token (recovered now j) = []"
  "j_status (recovered now j) = (if j_status j = RUNNING then PENDING else j_status j)"
  by (simp_all add: recovered_def)

lemma row_normal_recovered [simp]: "row_normal (recovered now j) = row_normal j"
  by (rule row_normal_cong) (simp_all add: recovered_def clear_reservation_def)

lemma recover_each_result:
  "store_ok st \<Longrightarrow> distinct (map j_id jobs) \<Longrightarrow>
   \<forall>j \<in> set jobs. \<exists>r. find_row (j_id j) (st_jobs st) = Some r \<and> j = read_back r \<Longrightarrow>
   \<exists>st'. recover_each now st jobs = Inr st' \<and> store_ok st' \<and>
     (\<forall>k. k \<notin> j_id ` set jobs \<longrightarrow> find_row k (st_jobs st') = find_row k (st_jobs st)) \<and>
     (\<forall>j \<in> set jobs. \<exists>r. find_row (j_id j) (st_jobs st') = Some r \<and> \<not> stale r)"
proof (induction jobs arbitrary: st)
  case (Cons j jobs)
  obtain r where r: "find_row (j_id j) (st_jobs st) = Some r" "j = read_back r" using Cons.prems(3) by auto
  have n: "row_normal j" using find_row_Some [OF r(1)] Cons.prems(1) r(2) by (auto simp: store_ok_def)
  obtain st1 where st1: "(if stale j then save st (recovered now j) else Inr st) = Inr st1" "store_ok st1"
      "\<forall>k. k \<noteq> j_id j \<longrightarrow> find_row k (st_jobs st1) = find_row k (st_jobs st)"
      "\<exists>q. find_row (j_id j) (st_jobs st1) = Some q \<and> \<not> stale q"
  proof (cases "stale j")
    case True
    have "row_normal (recovered now j)" "j_id (recovered now j) = j_id j"
        "j_idempotency_key (recovered now j) = j_idempotency_key r"
      using n r(2) by simp_all
    from find_save_modified [OF Cons.prems(1) r(1) this] obtain st' where
      s: "save st (recovered now j) = Inr st'" "store_ok st'"
      and f: "\<forall>k. find_row k (st_jobs st') = (if k = j_id j
         then Some (recovered now j\<lparr>j_created_at := j_created_at r, j_deduplicated := False\<rparr>)
         else find_row k (st_jobs st))" by blast
    have "\<not> stale (recovered now j\<lparr>j_created_at := j_created_at r, j_deduplicated := False\<rparr>)"
      by (simp add: stale_def)
    then show ?thesis using that [of st'] s f True by simp
  next
    case False
    then show ?thesis using that [of st] Cons.prems(1) r by auto
  qed
  have "find_row (j_id i) (st_jobs st1) = find_row (j_id i) (st_jobs st)" if "i \<in> set jobs" for i
    using st1(3) Cons.prems(2) that by (metis distinct.simps(2) image_eqI list.set_map list.simps(9))
  then have "\<forall>i \<in> set jobs. \<exists>r. find_row (j_id i) (st_jobs st1) = Some r \<and> i = read_back r"
    using Cons.prems(3) by simp
  from Cons.IH [OF st1(2) _ this] Cons.prems(2) obtain st' where ih: "recover_each now st1 jobs = Inr st'"
     "store_ok st'" "\<forall>k. k \<notin> j_id ` set jobs \<longrightarrow> find_row k (st_jobs st') = find_row k (st_jobs st1)"
     "\<forall>j \<in> set jobs. \<exists>r. find_row (j_id j) (st_jobs st') = Some r \<and> \<not> stale r" by auto
  have "j_id j \<notin> j_id ` set jobs" using Cons.prems(2) by simp
  then have "find_row (j_id j) (st_jobs st') = find_row (j_id j) (st_jobs st1)" using ih(3) by blast
  moreover have "recover_each now st (j # jobs) = Inr st'" using st1(1) ih(1) by simp
  ultimately show ?case using ih st1(3,4) by auto
qed simp

theorem recovery_clears_everything:
  assumes "store_ok st" and "\<forall>r \<in> set (st_jobs st). j_status r \<noteq> DELETED"
  shows "\<exists>st' ids. recover st now = Inr (st', ids) \<and> store_ok st' \<and>
    (\<forall>r \<in> set (st_jobs st'). j_status r \<noteq> RUNNING \<and> j_reservation_token r = []) \<and>
    set ids = {j_id r | r. r \<in> set (st_jobs st) \<and> j_status r = RUNNING}"
proof -
  define rows where "rows = sort_key j_created_at (filter (\<lambda>r. j_status r \<noteq> DELETED) (st_jobs st))"
  define jobs where "jobs = map read_back rows"
  have d: "distinct (map j_id (st_jobs st))" using assms(1) by (simp add: store_ok_def)
  have set: "set rows = set (st_jobs st)" using assms(2) by (auto simp: rows_def)
  have la: "list_active st = Inr jobs"
    using assms(1) unfolding list_active_def jobs_def rows_def [symmetric]
    by (intro read_rows_ok) (simp add: set store_ok_def)
  have "distinct (map j_id jobs)"
    using distinct_map_filter [OF d, of "\<lambda>r. j_status r \<noteq> DELETED"]
    by (simp add: jobs_def rows_def distinct_map comp_def)
  moreover have "\<forall>j \<in> set jobs. \<exists>r. find_row (j_id j) (st_jobs st) = Some r \<and> j = read_back r"
    using find_row_distinct [OF d] by (auto simp: jobs_def set)
  ultimately obtain st' where r: "recover_each now st jobs = Inr st'" "store_ok st'"
      "\<forall>k. k \<notin> j_id ` set jobs \<longrightarrow> find_row k (st_jobs st') = find_row k (st_jobs st)"
      "\<forall>j \<in> set jobs. \<exists>r. find_row (j_id j) (st_jobs st') = Some r \<and> \<not> stale r"
    using recover_each_result [OF assms(1)] by blast
  have ids: "j_id ` set jobs = j_id ` set (st_jobs st)" by (auto simp: jobs_def set image_iff)
  have "\<not> stale q" if q: "q \<in> set (st_jobs st')" for q
  proof -
    have f: "find_row (j_id q) (st_jobs st') = Some q"
      using r(2) q by (intro find_row_distinct) (simp_all add: store_ok_def)
    show ?thesis
    proof (cases "j_id q \<in> j_id ` set jobs")
      case True
      then show ?thesis using r(4) f by auto
    next
      case False
      then have "find_row (j_id q) (st_jobs st) = Some q" using r(3) f by simp
      then show ?thesis using False find_row_Some [of "j_id q" "st_jobs st" q] unfolding ids by blast
    qed
  qed
  moreover have "recover st now = Inr (st', map j_id (filter (\<lambda>j. j_status j = RUNNING) jobs))"
    using la r(1) by (simp add: recover_def)
  moreover have "set (map j_id (filter (\<lambda>j. j_status j = RUNNING) jobs)) =
      {j_id r | r. r \<in> set (st_jobs st) \<and> j_status r = RUNNING}"
    unfolding jobs_def filter_map list.map_comp by (auto simp: set comp_def)
  ultimately show ?thesis using r(2) by (auto simp: stale_def)
qed

section \<open>Instances\<close>

lemma held_one:
  "store_ok (one_job (\<lambda>j. j\<lparr>j_status := RUNNING, j_reservation_token := ''t''\<rparr>)) \<and>
   lease_holder (one_job (\<lambda>j. j\<lparr>j_status := RUNNING, j_reservation_token := ''t''\<rparr>)) ''j'' = Some ''t''"
proof -
  have "row_normal ((default_job ''j'' 0)\<lparr>j_status := RUNNING, j_reservation_token := ''t''\<rparr>)"
    using row_normal_default [of "''j''" 0] by (simp add: row_normal_def job_contract_def)
  then have "store_ok (one_job (\<lambda>j. j\<lparr>j_status := RUNNING, j_reservation_token := ''t''\<rparr>))"
    by (rule store_ok_one)
  then show ?thesis by (simp add: one_job_def lease_holder_def find_row_def default_job_def)
qed

lemma recovery_clears_everything_witness:
  "\<exists>st' ids. recover (one_job (\<lambda>j. j\<lparr>j_status := RUNNING, j_reservation_token := ''t''\<rparr>)) 9 = Inr (st', ids) \<and>
     set ids = {''j''} \<and> (\<forall>r \<in> set (st_jobs st'). j_status r \<noteq> RUNNING)"
proof -
  have "\<forall>r \<in> set (st_jobs (one_job (\<lambda>j. j\<lparr>j_status := RUNNING, j_reservation_token := ''t''\<rparr>))). j_status r \<noteq> DELETED"
    by (simp add: one_job_def)
  from recovery_clears_everything [OF conjunct1 [OF held_one] this, of 9]
  show ?thesis by (auto simp: one_job_def default_job_def)
qed

definition sample_run :: run_inputs where
  "sample_run = \<lparr>ri_outcome = H_Other, ri_exec_id = ''e'', ri_started = 1, ri_finished = 2, ri_applied = 3,
     ri_dispatcher = False\<rparr>"

lemma run_single_ends_reservation_witness:
  "\<exists>st rv st'. run_single (\<lambda>_. None) [] st rv sample_run = Inr st' \<and> lease_holder st ''j'' = Some ''t'' \<and>
     lease_holder st' ''j'' = None"
proof -
  define st where "st = one_job (\<lambda>j. j\<lparr>j_status := RUNNING, j_reservation_token := ''t''\<rparr>)"
  have st: "store_ok st" "lease_holder st ''j'' = Some ''t''" using held_one by (simp_all add: st_def)
  define rv where "rv = \<lparr>rv_job = default_job ''j'' 0, rv_token = ''t'', rv_reserved_at = 0,
    rv_reserved_by = [], rv_reservation_source = [], rv_scheduled_run_at = None\<rparr>"
  have id: "j_id (rv_job rv) = ''j''" "rv_token rv = ''t''" by (simp_all add: rv_def default_job_def)
  obtain r where r: "find_row ''j'' (st_jobs st) = Some r" "j_reservation_token r = ''t''"
    using st(2) by (auto simp: lease_holder_def split: option.splits if_splits)
  have n: "row_normal (read_back r)" "j_id r = ''j''"
    using st(1) find_row_Some [OF r(1)] by (auto simp: store_ok_def)
  define op where "op = G_Missing_Handler (no_handler_text []) 1"
  have "frees (read_back r) (give_job op (read_back r))" by (rule give_job_frees [OF n(1)]) (simp add: op_def)
  then obtain st1 where s1: "save st (give_job op (read_back r)) = Inr st1" "st_runs st1 = st_runs st"
    using find_save_modified [OF st(1) r(1), of "give_job op (read_back r)"] n(2) by (auto simp: frees_def)
  then have "end_reservation op st ''j'' ''t'' = Inr (st1, True)"
    using r if_owner_cases [OF st(1), of "''j''" "''t''"] unfolding end_reservation_alt
    by (simp add: give_action_def op_def)
  then have f: "finalize_reserved_missing_handler st ''j'' ''t'' (no_handler_text []) 1 = Inr (st1, True)"
    by (simp add: op_def)
  have "st_runs st1 = []" using s1(2) by (simp add: st_def one_job_def)
  then obtain st' where run: "run_single (\<lambda>_. None) [] st rv sample_run = Inr st'"
    using f by (simp add: run_single_def rv_def sample_run_def Let_def default_job_def save_execution_def)
  from run_single_ends_reservation [OF st(1) _ _ run] st id have "lease_holder st' ''j'' = None" by simp
  then show ?thesis using run st by blast
qed

lemma tick_respects_limits_witness:
  "\<exists>tm' rvs. tick \<lparr>tm_store = one_job id, tm_running = [(''a'', False), (''b'', True)],
        tm_max_concurrent = 1, tm_max_catchup = 5\<rparr> 9 [''t''] = Inr (tm', rvs) \<and>
     int (length (tm_running tm')) \<le> 1"
proof -
  define tm where "tm = \<lparr>tm_store = one_job id, tm_running = [(''a'', False), (''b'', True)],
        tm_max_concurrent = 1, tm_max_catchup = 5\<rparr>"
  have ok: "store_ok (tm_store tm)" using store_ok_one [of id] by (simp add: tm_def)
  obtain tm' rvs where t: "tick tm 9 [''t''] = Inr (tm', rvs)"
    using iter_due_ok [OF ok, of 9] by (simp add: tick_def tm_def)
  from tick_respects_limits [OF ok t] show ?thesis using t by (auto simp: tm_def)
qed

lemma run_job_now_outcome_witness:
  "\<exists>res. run_job_now (\<lambda>_. None) [] (one_job id) ''nope'' 9 ''t'' sample_run = Inr (one_job id, res) \<and>
     mr_status res \<noteq> M_ACCEPTED \<and> mr_error res \<noteq> None"
proof -
  have ok: "store_ok (one_job id)" using store_ok_one [of id] by simp
  obtain res where r: "run_job_now (\<lambda>_. None) [] (one_job id) ''nope'' 9 ''t'' sample_run = Inr (one_job id, res)"
      "mr_status res \<noteq> M_ACCEPTED"
    using get_ok [OF ok, of "''nope''"] by (simp add: run_job_now_def one_job_def find_row_def default_job_def)
  from run_job_now_outcome [OF ok _ r(1)] show ?thesis using r by simp
qed

lemma spread_jobs_distinct_slots_witness:
  "map fst (spread_jobs (\<lambda>_. 0) 10 [''b'', ''a'']) = [''a'', ''b'']"
proof -
  have "sort [''b'', ''a''] = [''a'', ''b'']" by code_simp
  with spread_jobs_distinct_slots [of 10 "[''b'', ''a'']" "\<lambda>_. 0"] show ?thesis by simp
qed

end
