(* ===== verification/Sched_Race.thy ===== *)
theory Sched_Race
  imports Sched_Timer
begin

text \<open>
  The scheduler's operations interleaved. Every operation of \<open>ops.py\<close> on an existing job reads the
  row, changes it in memory and writes the whole row back, and other tasks run at the \<open>await\<close>s in
  between. Two step relations over the same world tell what that costs: \<open>atomic_step\<close>, where a
  change is one transition, and \<open>race_step\<close>, where reading and writing back are two.
\<close>

datatype writer =
    W_Update outside job_patch instant
  | W_Pause instant
  | W_Resume zone_db instant

fun writer_change :: "writer \<Rightarrow> cron_job \<Rightarrow> sched_exc + cron_job" where
  "writer_change (W_Update out p now) job = patch_job out now p job"
| "writer_change (W_Pause now) job = Inr (job\<lparr>j_status := PAUSED, j_updated_at := now\<rparr>)"
| "writer_change (W_Resume zone now) job = revive zone now job"

text \<open>The store, the rows read and not yet written back, and the runs in progress.\<close>

record world =
  w_store :: store
  w_reads :: "(writer \<times> cron_job) list"
  w_active :: "(string \<times> string) list"

definition ids_in_use :: "world \<Rightarrow> string set" where
  "ids_in_use w = j_id ` set (st_jobs (w_store w)) \<union> fst ` set (w_active w)"

inductive atomic_step :: "world \<Rightarrow> world \<Rightarrow> bool" where
  change: "modify (w_store w) jid (writer_change wr) = Inr (st', res) \<Longrightarrow>
    atomic_step w (w\<lparr>w_store := st'\<rparr>)"
| create: "save (w_store w) job = Inr st' \<Longrightarrow> j_id job \<notin> ids_in_use w \<Longrightarrow> j_reservation_token job = [] \<Longrightarrow>
    atomic_step w (w\<lparr>w_store := st'\<rparr>)"
| remove: "remove (w_store w) jid = Inr (st', b) \<Longrightarrow> atomic_step w (w\<lparr>w_store := st'\<rparr>)"
| start: "take_reservation a (w_store w) jid tok = Some st' \<Longrightarrow> tok \<noteq> [] \<Longrightarrow>
    atomic_step w (w\<lparr>w_store := st', w_active := (jid, tok) # w_active w\<rparr>)"
| finished: "(jid, tok) \<in> set (w_active w) \<Longrightarrow>
    atomic_step w (w\<lparr>w_store := give_reservation op (w_store w) jid tok,
                     w_active := remove1 (jid, tok) (w_active w)\<rparr>)"

inductive race_step :: "world \<Rightarrow> world \<Rightarrow> bool" where
  read: "get (w_store w) jid = Inr (Some job) \<Longrightarrow> race_step w (w\<lparr>w_reads := (wr, job) # w_reads w\<rparr>)"
| commit: "(wr, job) \<in> set (w_reads w) \<Longrightarrow> writer_change wr job = Inr job' \<Longrightarrow> save (w_store w) job' = Inr st' \<Longrightarrow>
    race_step w (w\<lparr>w_store := st', w_reads := remove1 (wr, job) (w_reads w)\<rparr>)"
| run: "take_reservation a (w_store w) jid tok = Some st' \<Longrightarrow> tok \<noteq> [] \<Longrightarrow>
    race_step w (w\<lparr>w_store := st', w_active := (jid, tok) # w_active w\<rparr>)"
| complete: "(jid, tok) \<in> set (w_active w) \<Longrightarrow>
    race_step w (w\<lparr>w_store := give_reservation op (w_store w) jid tok,
                   w_active := remove1 (jid, tok) (w_active w)\<rparr>)"

section \<open>Atomic operations\<close>

lemma writer_keeps: "keeps_lease (writer_change wr)"
  using patch_job_keeps revive_keeps pause_keeps
  by (cases wr) (auto simp: keeps_lease_def)

definition owned :: "store \<Rightarrow> string \<times> string \<Rightarrow> bool" where
  "owned st p \<longleftrightarrow> lease_holder st (fst p) = Some (snd p) \<or> find_row (fst p) (st_jobs st) = None"

definition world_ok :: "world \<Rightarrow> bool" where
  "world_ok w \<longleftrightarrow> store_ok (w_store w) \<and> distinct (map fst (w_active w)) \<and>
     (\<forall>p \<in> set (w_active w). snd p \<noteq> [] \<and> owned (w_store w) p)"

lemma modify_find_None:
  assumes "store_ok st" and "modify st jid f = Inr (st', res)" and "keeps_lease f"
  shows "find_row k (st_jobs st') = None \<longleftrightarrow> find_row k (st_jobs st) = None"
proof (cases "find_row jid (st_jobs st)")
  case None
  then show ?thesis using assms get_ok [OF assms(1), of jid] by (simp add: modify_def)
next
  case (Some r)
  then obtain job' where j: "f (read_back r) = Inr job'" "save st job' = Inr st'"
    using assms(2) get_ok [OF assms(1), of jid] by (auto simp: modify_def)
  then have "j_id job' = jid" using assms(3) find_row_Some [OF Some] by (auto simp: keeps_lease_def)
  then show ?thesis using save_find [OF j(2)] Some by (cases "k = jid") auto
qed

lemma give_find_None:
  assumes "store_ok st" and "tok \<noteq> []" and "find_row k (st_jobs st) = None"
  shows "find_row k (st_jobs (give_reservation op st jid tok)) = None"
proof (cases "lease_holder st jid = Some tok")
  case False
  then show ?thesis using give_reservation_other [OF assms(1,2)] assms(3) by simp
next
  case True
  obtain r where r: "find_row jid (st_jobs st) = Some r" "j_reservation_token r = tok"
    using True by (auto simp: lease_holder_def split: option.splits if_splits)
  have n: "row_normal (read_back r)" "j_id r = jid"
    using assms(1) find_row_Some [OF r(1)] by (auto simp: store_ok_def)
  have jk: "k \<noteq> jid" using r(1) assms(3) by auto
  have e: "end_reservation op st jid tok = rbind (give_action op st (read_back r)) (\<lambda>st'. Inr (st', True))"
    using r if_owner_cases [OF assms(1), of jid tok] by (simp add: end_reservation_alt)
  show ?thesis
  proof (cases "give_deletes op (read_back r)")
    case True
    then show ?thesis using e n(2) assms(3)
      by (simp add: give_reservation_def after_def give_action_def find_delete)
  next
    case False
    from give_job_frees [OF n(1) False] obtain st1 where s: "save st (give_job op (read_back r)) = Inr st1"
        "\<forall>i. i \<noteq> jid \<longrightarrow> find_row i (st_jobs st1) = find_row i (st_jobs st)"
      using find_save_modified [OF assms(1) r(1), of "give_job op (read_back r)"] n(2)
      by (auto simp: frees_def)
    then show ?thesis using e False assms(3) jk
      by (simp add: give_reservation_def after_def give_action_def)
  qed
qed

lemma take_find_None:
  "store_ok st \<Longrightarrow> take_reservation a st jid tok = Some st' \<Longrightarrow>
   find_row k (st_jobs st') = None \<longleftrightarrow> find_row k (st_jobs st) = None"
  using reserve_cases [of st]
  by (cases a) (auto simp: find_reserve_rows split: option.splits if_splits)

lemma take_find_Some:
  "store_ok st \<Longrightarrow> take_reservation a st jid tok = Some st' \<Longrightarrow> find_row jid (st_jobs st) \<noteq> None"
  using reserve_cases [of st] by (cases a) (auto split: option.splits if_splits)


lemma save_new_holder:
  assumes "store_ok st" and "save st job = Inr st'" and "j_id job \<notin> j_id ` set (st_jobs st)"
  shows "k \<noteq> j_id job \<Longrightarrow> find_row k (st_jobs st') = find_row k (st_jobs st) \<and> lease_holder st' k = lease_holder st k"
  using save_find [OF assms(2)] by (auto simp: lease_holder_def)

text \<open>Every atomic step keeps the store well-formed and each active run the only one of its job.\<close>

lemma atomic_step_ok:
  assumes "atomic_step w w'" and "world_ok w"
  shows "world_ok w'"
  using assms
proof cases
  case (change jid wr st' res)
  have ok: "store_ok (w_store w)" using assms(2) by (simp add: world_ok_def)
  show ?thesis
    using modify_keeps [OF ok writer_keeps change(2)] modify_find_None [OF ok change(2) writer_keeps]
      assms(2) change(1) by (simp add: world_ok_def owned_def)
next
  case (create job st')
  have ok: "store_ok (w_store w)" using assms(2) by (simp add: world_ok_def)
  have new: "j_id job \<notin> j_id ` set (st_jobs (w_store w))" "j_id job \<notin> fst ` set (w_active w)"
    using create(3) by (auto simp: ids_in_use_def)
  have "owned st' p" if "p \<in> set (w_active w)" for p
  proof -
    have "fst p \<noteq> j_id job" using new(2) that by (metis image_eqI)
    with save_new_holder [OF ok create(2) new(1)] assms(2) that show ?thesis
      by (simp add: world_ok_def owned_def)
  qed
  then show ?thesis using assms(2) create(1) save_ok [OF ok create(2)] by (simp add: world_ok_def)
next
  case (remove jid st' b)
  have ok: "store_ok (w_store w)" using assms(2) by (simp add: world_ok_def)
  have st': "st' = w_store w \<or> st' = delete (w_store w) jid"
    using remove(2) get_ok [OF ok, of jid] by (auto simp: Sched_Ops.remove_def split: option.splits)
  have "owned (delete (w_store w) jid) p" if "owned (w_store w) p" for p
    using that by (auto simp: owned_def find_delete lease_holder_def)
  then show ?thesis
    using assms(2) remove(1) st' delete_ok [OF ok, of jid] by (auto simp: world_ok_def)
next
  case (start a jid tok st')
  have ok: "store_ok (w_store w)" using assms(2) by (simp add: world_ok_def)
  note t = take_reservation_free [OF ok start(3,2)]
  have other: "owned st' p \<and> fst p \<noteq> jid" if "p \<in> set (w_active w)" for p
  proof -
    have o: "owned (w_store w) p" using assms(2) that by (simp add: world_ok_def)
    then have "fst p \<noteq> jid" using t take_find_Some [OF ok start(2)] by (auto simp: owned_def)
    then show ?thesis using o t take_find_None [OF ok start(2)] by (auto simp: owned_def)
  qed
  then have "jid \<notin> fst ` set (w_active w)" by (metis imageE)
  moreover have "owned st' (jid, tok)" "store_ok st'" using t by (simp_all add: owned_def)
  ultimately show ?thesis using assms(2) start(1,3) other by (simp add: world_ok_def)
next
  case (finished jid tok op)
  have ok: "store_ok (w_store w)" and d: "distinct (map fst (w_active w))"
    and own: "\<And>p. p \<in> set (w_active w) \<Longrightarrow> snd p \<noteq> [] \<and> owned (w_store w) p"
    using assms(2) by (auto simp: world_ok_def)
  have tok: "tok \<noteq> []" using own [OF finished(2)] by simp
  define st' where "st' = give_reservation op (w_store w) jid tok"
  have ok': "store_ok st'" and keep: "\<And>k. k \<noteq> jid \<Longrightarrow> lease_holder st' k = lease_holder (w_store w) k"
    using give_reservation_own [OF ok tok, of jid op] give_reservation_other [OF ok tok, of jid op] ok
    by (cases "lease_holder (w_store w) jid = Some tok"; simp add: st'_def)+
  have "owned st' p" if "p \<in> set (remove1 (jid, tok) (w_active w))" for p
  proof -
    have p: "p \<in> set (w_active w)" "p \<noteq> (jid, tok)"
      using that d by (auto simp: distinct_map dest: notin_set_remove1)
    have "inj_on fst (set (w_active w))" using d by (simp add: distinct_map)
    from inj_onD [OF this, of p "(jid, tok)"] have "fst p \<noteq> jid" using p finished(2) by auto
    then show ?thesis
      using own [OF p(1)] keep give_find_None [OF ok tok, of "fst p" op jid] by (auto simp: owned_def st'_def)
  qed
  moreover have "distinct (map fst (remove1 (jid, tok) (w_active w)))"
    using d by (simp add: distinct_map inj_on_diff)
  moreover have "snd p \<noteq> []" if "p \<in> set (remove1 (jid, tok) (w_active w))" for p
    using own [of p] set_remove1_subset [of "(jid, tok)" "w_active w"] that by blast
  ultimately show ?thesis using finished(1) ok' by (simp add: world_ok_def st'_def)
qed

theorem atomic_runs_exclusive:
  assumes "atomic_step\<^sup>*\<^sup>* w w'" and "store_ok (w_store w)" and "w_active w = []"
  shows "distinct (map fst (w_active w')) \<and> store_ok (w_store w')"
proof -
  have "world_ok w" using assms(2,3) by (simp add: world_ok_def)
  with assms(1) have "world_ok w'" by (induction rule: rtranclp_induct) (auto intro: atomic_step_ok)
  then show ?thesis by (simp add: world_ok_def)
qed


section \<open>Interleaved operations\<close>

definition empty_patch :: job_patch where
  "empty_patch =
     \<lparr>up_payload = [], up_tz = None, up_schedule_kind = None, up_schedule_value = None, up_schedule_tz = None,
      up_schedule_raw = False, up_name = Some ''renamed'', up_timeout_seconds = None, up_enabled = None,
      up_origin_session_key = None, up_tool_policy = None, up_wake_mode = None, up_session_target = None,
      up_session_key = None, up_delivery = None\<rparr>"

definition start_world :: world where
  "start_world = \<lparr>w_store = one_job id, w_reads = [], w_active = []\<rparr>"

lemma rename_default:
  "patch_job nothing_outside 8 empty_patch (default_job ''j'' 0) =
     Inr ((default_job ''j'' 0)\<lparr>j_name := ''renamed'', j_updated_at := 8\<rparr>)"
  by (simp add: patch_job_def patch_tz_def patch_schedule_def patch_fields_def revalidate_def empty_patch_def
      set_opt_def Let_def job_contract_def normalize_contract_def known_handler_keys_def kind_outside_def
      bind_session_def default_job_def validate_main_agent_def normalize_delivery_for_target_def
      normalize_origin_session_key_def default_delivery_def)

lemma get_one: "get (one_job id) ''j'' = Inr (Some (read_back (default_job ''j'' 0)))"
proof -
  have "store_ok (one_job id)" by (rule store_ok_one) simp
  moreover have "find_row ''j'' (st_jobs (one_job id)) = Some (default_job ''j'' 0)"
    by (simp add: one_job_def find_row_def) (simp add: default_job_def)
  ultimately show ?thesis using get_ok by simp
qed

lemma read_back_default [simp]: "read_back (default_job i t) = default_job i t"
  by (simp add: read_back_def default_job_def effective_delivery_for_target_def default_delivery_def sec_def)

lemma reserve_free_job:
  assumes "store_ok st" and "find_row jid (st_jobs st) = Some r" and "reservable due now r"
  shows "\<exists>st'. take_reservation (Reserve_Args now due src ow) st jid tok = Some st' \<and>
    st' = st\<lparr>st_jobs := reserve_rows jid now due src ow tok (st_jobs st)\<rparr>"
  using reserve_cases [OF assms(1), of jid now due src ow tok] assms(2,3) by simp

text \<open>C40: When an update reads a job before it is reserved and writes it back afterwards, the stale
  row wipes the reservation: a world with two runs of the same job in progress is reachable by
  renaming an idle job.\<close>

theorem rename_can_double_run:
  "\<exists>w. race_step\<^sup>*\<^sup>* start_world w \<and> w_active w = [(''j'', ''b''), (''j'', ''a'')]"
proof -
  define job where "job = default_job ''j'' 0"
  define job' where "job' = job\<lparr>j_name := ''renamed'', j_updated_at := 8\<rparr>"
  define wr where "wr = W_Update nothing_outside empty_patch 8"
  define w1 where "w1 = start_world\<lparr>w_reads := [(wr, job)]\<rparr>"
  have ok: "store_ok (one_job id)" using store_ok_one [of id] by simp
  have "race_step start_world (start_world\<lparr>w_reads := (wr, job) # w_reads start_world\<rparr>)"
    by (rule race_step.read [of _ "''j''"]) (simp add: start_world_def get_one job_def)
  then have s1: "race_step start_world w1" by (simp add: w1_def start_world_def)
  have f0: "find_row ''j'' (st_jobs (one_job id)) = Some job"
    by (simp add: one_job_def find_row_def job_def default_job_def)
  have free: "reservable False 9 job" "reservable False 9 (job'\<lparr>j_created_at := c, j_deduplicated := False\<rparr>)" for c
    by (simp_all add: job_def job'_def reservable_def past_backoff_def default_job_def)
  obtain st1 where t1: "take_reservation (Reserve_Args 9 False ''timer'' ''t'') (one_job id) ''j'' ''a'' = Some st1"
      and st1: "st1 = (one_job id)\<lparr>st_jobs := reserve_rows ''j'' 9 False ''timer'' ''t'' ''a'' (st_jobs (one_job id))\<rparr>"
    using reserve_free_job [OF ok f0 free(1)] by blast
  define w2 where "w2 = w1\<lparr>w_store := st1, w_active := [(''j'', ''a'')]\<rparr>"
  have "race_step w1 (w1\<lparr>w_store := st1, w_active := (''j'', ''a'') # w_active w1\<rparr>)"
    using t1 by (intro race_step.run [where a = "Reserve_Args 9 False ''timer'' ''t''"])
      (simp_all add: w1_def start_world_def del: take_reservation.simps)
  then have s2: "race_step w1 w2" by (simp add: w2_def w1_def start_world_def)
  have ok1: "store_ok st1" unfolding st1 by (rule reserve_rows_ok [OF ok])
  have f1: "find_row ''j'' (st_jobs st1) = Some (mark_reserved ''a'' 9 ''t'' ''timer'' job)"
    using f0 free(1) by (simp add: st1 find_reserve_rows)
  have n': "row_normal job'" "j_id job' = ''j''" "j_idempotency_key job' = j_idempotency_key (mark_reserved ''a'' 9 ''t'' ''timer'' job)"
    using row_normal_default [of "''j''" 0]
    by (simp_all add: job'_def job_def row_normal_def job_contract_def) (simp_all add: default_job_def)
  obtain st2 where c2: "save st1 job' = Inr st2" "store_ok st2"
      and f2: "find_row ''j'' (st_jobs st2) = Some (job'\<lparr>j_created_at := j_created_at (mark_reserved ''a'' 9 ''t'' ''timer'' job), j_deduplicated := False\<rparr>)"
    using find_save_modified [OF ok1 f1 n'] by auto
  define w3 where "w3 = w2\<lparr>w_store := st2, w_reads := []\<rparr>"
  have "race_step w2 (w2\<lparr>w_store := st2, w_reads := remove1 (wr, job) (w_reads w2)\<rparr>)"
    using c2(1) rename_default
    by (intro race_step.commit) (simp_all add: w2_def w1_def wr_def job_def job'_def)
  then have s3: "race_step w2 w3" by (simp add: w3_def w2_def w1_def)
  obtain st3 where t3: "take_reservation (Reserve_Args 9 False ''timer'' ''t'') st2 ''j'' ''b'' = Some st3"
    using reserve_free_job [OF c2(2) f2 free(2)] by blast
  have "race_step w3 (w3\<lparr>w_store := st3, w_active := (''j'', ''b'') # w_active w3\<rparr>)"
    using t3 by (intro race_step.run [where a = "Reserve_Args 9 False ''timer'' ''t''"])
      (simp_all add: w3_def del: take_reservation.simps)
  then have "race_step\<^sup>*\<^sup>* start_world (w3\<lparr>w_store := st3, w_active := (''j'', ''b'') # w_active w3\<rparr>)"
    using s1 s2 s3 by (meson rtranclp.rtrancl_into_rtrancl rtranclp.rtrancl_refl)
  then show ?thesis by (intro exI conjI) (assumption, simp add: w3_def w2_def)
qed

lemma atomic_runs_exclusive_witness:
  "\<exists>w'. atomic_step\<^sup>*\<^sup>* start_world w' \<and> distinct (map fst (w_active w'))"
proof -
  have "atomic_step\<^sup>*\<^sup>* start_world start_world" by simp
  from atomic_runs_exclusive [OF this] show ?thesis
    using \<open>atomic_step\<^sup>*\<^sup>* start_world start_world\<close> store_ok_one [of id] by (auto simp: start_world_def)
qed

end
