(* ===== verification/Tables.thy ===== *)
theory Tables
  imports Py_Prelude
begin

text \<open>
  Tables of rows, as the session store keeps them in SQLite. A table is the list of its rows in
  insertion order. \<open>UPDATE t SET .. WHERE p\<close> rewrites the rows satisfying \<open>p\<close>, every right-hand
  side reading the old row; \<open>rowcount\<close> is the number of rows that satisfied \<open>p\<close>; \<open>DELETE\<close> drops
  them. Looking a row up by a unique column is the interface \<open>keyed_rows\<close>.

  The other half of the theory is what the rows hold: JSON documents, their compact text, and
  its length in UTF-8.
\<close>

section \<open>SQL statements on rows\<close>

definition sql_update :: "('r \<Rightarrow> bool) \<Rightarrow> ('r \<Rightarrow> 'r) \<Rightarrow> 'r list \<Rightarrow> 'r list" where
  "sql_update p f rows = map (\<lambda>r. if p r then f r else r) rows"

definition rowcount :: "('r \<Rightarrow> bool) \<Rightarrow> 'r list \<Rightarrow> nat" where
  "rowcount p rows = length (filter p rows)"

definition sql_delete :: "('r \<Rightarrow> bool) \<Rightarrow> 'r list \<Rightarrow> 'r list" where
  "sql_delete p rows = filter (\<lambda>r. \<not> p r) rows"

lemma set_sql_update: "r \<in> set (sql_update p f rows) \<longleftrightarrow> (\<exists>q \<in> set rows. r = (if p q then f q else q))"
  by (auto simp: sql_update_def)

lemma sql_update_none: "\<forall>r \<in> set rows. \<not> p r \<Longrightarrow> sql_update p f rows = rows"
  by (simp add: sql_update_def map_idI)

lemma map_sql_update: "(\<And>r. h (f r) = h r) \<Longrightarrow> map h (sql_update p f rows) = map h rows"
  by (simp add: sql_update_def comp_def)

section \<open>Interface: rows found by a unique column\<close>

locale keyed_rows =
  fixes key :: "'r \<Rightarrow> 'k" and lookup :: "'k \<Rightarrow> 'r list \<Rightarrow> 'r option"
  assumes lookup_Nil [simp]: "lookup k [] = None"
    and lookup_Cons [simp]: "lookup k (r # rows) = (if key r = k then Some r else lookup k rows)"
begin

lemma lookup_Some: "lookup k rows = Some r \<Longrightarrow> r \<in> set rows \<and> key r = k"
  by (induction rows) (auto split: if_splits)

lemma lookup_None_iff: "lookup k rows = None \<longleftrightarrow> (\<forall>r \<in> set rows. key r \<noteq> k)"
  by (induction rows) auto

lemma lookup_member:
  "distinct (map key rows) \<Longrightarrow> lookup k rows = Some r \<longleftrightarrow> r \<in> set rows \<and> key r = k"
  by (induction rows) (auto simp: image_iff)

lemma lookup_unique: "distinct (map key rows) \<Longrightarrow> r \<in> set rows \<Longrightarrow> lookup (key r) rows = Some r"
  by (simp add: lookup_member)

lemma lookup_append: "lookup k (rows @ rows') =
    (case lookup k rows of Some r \<Rightarrow> Some r | None \<Rightarrow> lookup k rows')"
  by (induction rows) auto

lemma lookup_update:
  "(\<And>r. key (f r) = key r) \<Longrightarrow>
   lookup k (sql_update p f rows) = map_option (\<lambda>r. if p r then f r else r) (lookup k rows)"
  by (induction rows) (auto simp: sql_update_def)

lemma lookup_delete:
  "distinct (map key rows) \<Longrightarrow> lookup k (sql_delete p rows) =
     (case lookup k rows of Some r \<Rightarrow> if p r then None else Some r | None \<Rightarrow> None)"
  by (induction rows) (auto simp: sql_delete_def lookup_None_iff dest!: lookup_Some split: option.splits)

lemma keys_delete: "distinct (map key rows) \<Longrightarrow> distinct (map key (sql_delete p rows))"
  by (simp add: sql_delete_def distinct_map_filter)

text \<open>A statement guarded by the key touches the one row that has it.\<close>

lemma update_guarded:
  assumes "distinct (map key rows)" and "lookup k rows = Some r" and "\<And>r. key (f r) = key r"
  shows "sql_update (\<lambda>x. key x = k \<and> q x) f rows =
    map (\<lambda>x. if key x = k then (if q r then f r else r) else x) rows"
proof -
  have "x = r" if "x \<in> set rows" "key x = k" for x
    using lookup_unique [OF assms(1) that(1)] that(2) assms(2) by simp
  then show ?thesis unfolding sql_update_def by (intro map_cong) auto
qed

lemma rowcount_guarded:
  assumes "distinct (map key rows)" and "lookup k rows = Some r"
  shows "rowcount (\<lambda>x. key x = k \<and> q x) rows = (if q r then 1 else 0)"
proof -
  have "filter (\<lambda>x. key x = k \<and> q x) rows = (if q r then [r] else [])"
    using assms by (induction rows) (auto simp: lookup_None_iff filter_empty_conv image_iff split: if_splits)
  then show ?thesis by (simp add: rowcount_def)
qed

end

section \<open>JSON documents\<close>

text \<open>Comparison of a JSON value with a small integer literal: \<open>True == 1\<close> and \<open>1.0 == 1\<close> hold.\<close>

fun py_eq_int :: "pyval \<Rightarrow> int \<Rightarrow> bool" where
  "py_eq_int (PyInt i) n = (i = n)"
| "py_eq_int (PyBool b) n = (n = (if b then 1 else 0))"
| "py_eq_int (PyFloat s) n = (s = int_str n @ ''.0'')"
| "py_eq_int _ n = False"

fun as_dict :: "pyval \<Rightarrow> pydict option" where
  "as_dict (PyDict d) = Some d"
| "as_dict _ = None"

definition opt_str :: "string option \<Rightarrow> pyval" where
  "opt_str s = (case s of None \<Rightarrow> PyNone | Some t \<Rightarrow> PyStr t)"

definition opt_int :: "int option \<Rightarrow> pyval" where
  "opt_int i = (case i of None \<Rightarrow> PyNone | Some n \<Rightarrow> PyInt n)"

text \<open>\<open>d.pop(k, None)\<close>.\<close>

definition dpop :: "string \<Rightarrow> pydict \<Rightarrow> pydict" where
  "dpop k d = AList.delete k d"

lemma dget_dpop: "dget (dpop k d) k' = (if k' = k then PyNone else dget d k')"
  by (simp add: dget_def dpop_def delete_conv')

text \<open>\<open>json.dumps(v, ensure_ascii=False, sort_keys=True, separators=(",", ":"))\<close>.\<close>

definition json_char :: "char \<Rightarrow> string" where
  "json_char c =
     (let n = code c; bs = char_of (92::nat) in
      if n = 34 \<or> n = 92 then [bs, c]
      else if n = 10 then [bs, CHR ''n'']
      else if n = 13 then [bs, CHR ''r'']
      else if n = 9 then [bs, CHR ''t'']
      else if n = 8 then [bs, CHR ''b'']
      else if n = 12 then [bs, CHR ''f'']
      else if n < 32 then [bs, CHR ''u'', CHR ''0'', CHR ''0'', hex_digit (n div 16), hex_digit (n mod 16)]
      else [c])"

definition json_str :: "string \<Rightarrow> string" where
  "json_str s = char_of (34::nat) # concat (map json_char s) @ [char_of (34::nat)]"

fun json_text :: "pyval \<Rightarrow> string" where
  "json_text PyNone = ''null''"
| "json_text (PyBool b) = (if b then ''true'' else ''false'')"
| "json_text (PyInt i) = int_str i"
| "json_text (PyFloat s) = s"
| "json_text (PyStr s) = json_str s"
| "json_text (PyList xs) = ''['' @ join '','' (map json_text xs) @ '']''"
| "json_text (PyDict d) =
     ''{'' @ join '','' (map snd (sort_key fst
        (map (\<lambda>kv. (fst kv, json_str (fst kv) @ '':'' @ json_text (snd kv))) d))) @ ''}''"

text \<open>The number of bytes of \<open>s.encode("utf-8")\<close>: a Latin-1 code point from 128 on takes two.\<close>

definition utf8_length :: "string \<Rightarrow> nat" where
  "utf8_length s = length s + length (filter (\<lambda>c. 128 \<le> code c) s)"

lemma utf8_length_append [simp]: "utf8_length (a @ b) = utf8_length a + utf8_length b"
  by (simp add: utf8_length_def)

section \<open>Canonical UUID text\<close>

definition hex_val :: "char \<Rightarrow> nat option" where
  "hex_val c =
     (let n = code c in
      if 48 \<le> n \<and> n \<le> 57 then Some (n - 48)
      else if 97 \<le> n \<and> n \<le> 102 then Some (n - 87)
      else if 65 \<le> n \<and> n \<le> 70 then Some (n - 55) else None)"

text \<open>
  The digits of \<open>int(s, 16)\<close>, single underscores between them allowed; the flag says whether
  an underscore may come next.
\<close>

fun hex_digits_val :: "nat \<Rightarrow> bool \<Rightarrow> string \<Rightarrow> nat option" where
  "hex_digits_val acc ok [] = (if ok then Some acc else None)"
| "hex_digits_val acc ok (c # cs) =
     (case hex_val c of
        Some v \<Rightarrow> hex_digits_val (acc * 16 + v) True cs
      | None \<Rightarrow> if c = CHR ''_'' \<and> ok then hex_digits_val acc False cs else None)"

definition hex_prefixed :: "string \<Rightarrow> nat option" where
  "hex_prefixed s =
     (if starts_with ''0x'' s \<or> starts_with ''0X'' s
      then (if starts_with ''_'' (drop 2 s) then hex_digits_val 0 False (drop 3 s)
            else hex_digits_val 0 False (drop 2 s))
      else hex_digits_val 0 False s)"

definition py_int16 :: "string \<Rightarrow> int option" where
  "py_int16 s =
     (case py_strip s of
        [] \<Rightarrow> None
      | c # cs \<Rightarrow>
          if c = CHR ''-'' then map_option (\<lambda>n. - int n) (hex_prefixed cs)
          else if c = CHR ''+'' then map_option int (hex_prefixed cs)
          else map_option int (hex_prefixed (c # cs)))"

text \<open>\<open>uuid.UUID(s).int\<close>; \<open>None\<close> is its \<open>ValueError\<close>.\<close>

definition uuid_int :: "string \<Rightarrow> int option" where
  "uuid_int s =
     (let braces = (\<lambda>c. c = CHR ''{'' \<or> c = CHR ''}'');
          t = py_replace ''uuid:'' [] (py_replace ''urn:'' [] s);
          u = rev (dropWhile braces (rev (dropWhile braces t)));
          hex = filter (\<lambda>c. c \<noteq> CHR ''-'') u
      in if length hex \<noteq> 32 then None
         else (case py_int16 hex of
                 Some n \<Rightarrow> if 0 \<le> n \<and> n < 2 ^ 128 then Some n else None
               | None \<Rightarrow> None))"

text \<open>\<open>'%032x' % n\<close> with its hyphens: \<open>str(uuid)\<close>.\<close>

fun hex_fixed :: "nat \<Rightarrow> int \<Rightarrow> string" where
  "hex_fixed 0 n = []"
| "hex_fixed (Suc k) n = hex_fixed k (n div 16) @ [hex_digit (nat (n mod 16))]"

definition uuid_str :: "int \<Rightarrow> string" where
  "uuid_str n =
     (let h = hex_fixed 32 n in
      take 8 h @ ''-'' @ take 4 (drop 8 h) @ ''-'' @ take 4 (drop 12 h) @ ''-'' @
      take 4 (drop 16 h) @ ''-'' @ drop 20 h)"

text \<open>\<open>uuid.version\<close>: defined for the RFC 4122 variant only.\<close>

definition uuid_version :: "int \<Rightarrow> int option" where
  "uuid_version n = (if (n div 2 ^ 62) mod 4 = 2 then Some ((n div 2 ^ 76) mod 16) else None)"

lemma length_hex_fixed [simp]: "length (hex_fixed k n) = k"
  by (induction k n rule: hex_fixed.induct) auto

lemma length_uuid_str: "length (uuid_str n) = 36"
  by (simp add: uuid_str_def Let_def)

end
