(* ===== verification/Goal_Types.thy ===== *)
theory Goal_Types
  imports Tables Session_Keys
begin

text \<open>
  Durable session goals, \<open>src/src/openstarry_code/session/goals.py\<close>, with the row types of
  \<open>session/models.py\<close> it builds. Record fields carry a prefix (\<open>g_\<close> for \<open>GoalRecord\<close>, \<open>c_\<close> for
  \<open>GoalTurnContext\<close>, ...); the six token counters of a goal row, always read and added together,
  are one record. Timestamps are arguments. \<open>GoalValidationError\<close> and \<open>GoalConflictError\<close> are
  values of \<open>goal_error\<close>, with their code and message.
\<close>

section \<open>Rows\<close>

datatype goal_status = Active | Paused | Blocked | Usage_Limited | Complete

fun goal_status_value :: "goal_status \<Rightarrow> string" where
  "goal_status_value Active = ''active''"
| "goal_status_value Paused = ''paused''"
| "goal_status_value Blocked = ''blocked''"
| "goal_status_value Usage_Limited = ''usage_limited''"
| "goal_status_value Complete = ''complete''"

definition goal_status_of :: "string \<Rightarrow> goal_status option" where
  "goal_status_of s = enum_of goal_status_value [Active, Paused, Blocked, Usage_Limited, Complete] s"

interpretation goal_status_enum: str_enum goal_status_value goal_status_of
proof
  fix e show "goal_status_of (goal_status_value e) = Some e"
    by (cases e) (simp_all add: goal_status_of_def enum_of_def)
qed (simp add: goal_status_of_def enum_of_Some)

record token_usage =
  input_tokens :: int
  output_tokens :: int
  reasoning_tokens :: int
  cache_read_tokens :: int
  cache_write_tokens :: int
  total_tokens :: int

definition no_usage :: token_usage where
  "no_usage = \<lparr>input_tokens = 0, output_tokens = 0, reasoning_tokens = 0, cache_read_tokens = 0,
     cache_write_tokens = 0, total_tokens = 0\<rparr>"

definition add_usage :: "token_usage \<Rightarrow> token_usage \<Rightarrow> token_usage" where
  "add_usage a b =
     \<lparr>input_tokens = input_tokens a + input_tokens b,
      output_tokens = output_tokens a + output_tokens b,
      reasoning_tokens = reasoning_tokens a + reasoning_tokens b,
      cache_read_tokens = cache_read_tokens a + cache_read_tokens b,
      cache_write_tokens = cache_write_tokens a + cache_write_tokens b,
      total_tokens = total_tokens a + total_tokens b\<rparr>"

record goal_record =
  g_session_key :: string
  g_session_id :: string
  g_epoch :: int
  g_goal_id :: string
  g_objective :: string
  g_status :: goal_status
  g_state_revision :: int
  g_objective_revision :: int
  g_progress_revision :: int
  g_progress :: "pydict option"
  g_continuation_seq :: int
  g_active_task :: "string option"
  g_source_message :: "string option"
  g_terminal_task :: "string option"
  g_turns_started :: int
  g_turns_settled :: int
  g_window_turns :: int
  g_active_time :: int
  g_window_time :: int
  g_usage :: token_usage
  g_pause_reason :: "string option"
  g_blocked_reason :: "string option"
  g_terminal_reason :: "string option"
  g_created_at :: int
  g_updated_at :: int
  g_finished_at :: "int option"

text \<open>
  \<open>Integrity\<close> stands for the constraint violations of SQLite, \<open>Workspace_State\<close> for
  \<open>ProjectWorkspaceStateError\<close>, and \<open>Unhashable\<close> for the \<open>TypeError\<close> of a set membership test.
\<close>

datatype goal_error =
    Goal_Invalid (ge_code: string) (ge_text: string)
  | Goal_Conflict (ge_code: string) (ge_text: string) (ge_current: "goal_record option")
  | Workspace_State string
  | Integrity
  | Unhashable

section \<open>Limits\<close>

definition max_goal_objective_chars :: nat where "max_goal_objective_chars = 4000"

definition max_goal_progress_steps :: nat where "max_goal_progress_steps = 20"

definition max_goal_progress_step_chars :: nat where "max_goal_progress_step_chars = 200"

definition max_goal_progress_explanation_chars :: nat where "max_goal_progress_explanation_chars = 1000"

definition max_goal_progress_json_bytes :: nat where "max_goal_progress_json_bytes = 16 * 1024"

definition max_goal_reason_chars :: nat where "max_goal_reason_chars = 1000"

lemmas goal_limits = max_goal_objective_chars_def max_goal_progress_steps_def
  max_goal_progress_step_chars_def max_goal_progress_explanation_chars_def
  max_goal_progress_json_bytes_def max_goal_reason_chars_def

section \<open>Normalising what clients send\<close>

definition normalize_client_request_id :: "pyval \<Rightarrow> goal_error + string" where
  "normalize_client_request_id value =
     (case value of
        PyStr s \<Rightarrow>
          (case uuid_int s of
             None \<Rightarrow> Inl (Goal_Invalid ''INVALID_GOAL_COMMAND'' ''clientRequestId must be a UUID v4'')
           | Some n \<Rightarrow>
               if uuid_version n \<noteq> Some 4 \<or> uuid_str n \<noteq> s
               then Inl (Goal_Invalid ''INVALID_GOAL_COMMAND'' ''clientRequestId must be a canonical UUID v4'')
               else Inr s)
      | _ \<Rightarrow> Inl (Goal_Invalid ''INVALID_GOAL_COMMAND'' ''clientRequestId must be a UUID v4''))"

definition normalize_goal_objective :: "pyval \<Rightarrow> goal_error + string" where
  "normalize_goal_objective value =
     (let bad = Goal_Invalid ''INVALID_GOAL_OBJECTIVE'' in
      case value of
        PyStr s \<Rightarrow>
          (let normalized = py_strip s in
           if normalized = [] then Inl (bad ''Goal objective must not be empty'')
           else if length normalized > max_goal_objective_chars
           then Inl (bad ''Goal objective exceeds 4000 characters'')
           else Inr normalized)
      | _ \<Rightarrow> Inl (bad ''Goal objective must be a string''))"

definition normalize_goal_reason :: "pyval \<Rightarrow> goal_error + string option" where
  "normalize_goal_reason value =
     (let bad = Goal_Invalid ''INVALID_GOAL_REASON'' in
      case value of
        PyNone \<Rightarrow> Inr None
      | PyStr s \<Rightarrow>
          (let normalized = py_strip s in
           if normalized = [] then Inr None
           else if length normalized > max_goal_reason_chars
           then Inl (bad ''Goal reason exceeds 1000 characters'')
           else Inr (Some normalized))
      | _ \<Rightarrow> Inl (bad ''Goal reason must be a string''))"

definition bad_progress :: "string \<Rightarrow> goal_error" where
  "bad_progress m = Goal_Invalid ''INVALID_GOAL_PROGRESS'' m"

definition normalize_explanation :: "pyval \<Rightarrow> goal_error + string option" where
  "normalize_explanation explanation =
     (case explanation of
        PyNone \<Rightarrow> Inr None
      | PyStr s \<Rightarrow>
          (let normalized = py_strip s in
           if normalized = [] then Inr None
           else if length normalized > max_goal_progress_explanation_chars
           then Inl (bad_progress ''Goal progress explanation exceeds 1000 characters'')
           else Inr (Some normalized))
      | _ \<Rightarrow> Inl (bad_progress ''Goal progress explanation must be a string''))"

text \<open>One element of \<open>steps\<close>; \<open>status not in {..}\<close> raises for a list or a dictionary.\<close>

definition progress_statuses :: "string set" where
  "progress_statuses = {''pending'', ''in_progress'', ''completed''}"

fun check_step_status :: "goal_error \<Rightarrow> pyval \<Rightarrow> goal_error + string" where
  "check_step_status e (PyStr status) = (if status \<in> progress_statuses then Inr status else Inl e)"
| "check_step_status e (PyList _) = Inl Unhashable"
| "check_step_status e (PyDict _) = Inl Unhashable"
| "check_step_status e _ = Inl e"

definition normalize_progress_step :: "nat \<Rightarrow> pyval \<Rightarrow> goal_error + (string \<times> string)" where
  "normalize_progress_step index raw_step =
     (let who = ''Goal progress step '' @ nat_str index in
      case as_dict raw_step of
        None \<Rightarrow> Inl (bad_progress (who @ '' must be an object''))
      | Some d \<Rightarrow>
          rbind (ensure (set (map fst d) = {''step'', ''status''})
                   (bad_progress (who @ '' must contain only step and status''))) (\<lambda>_.
          case as_str (dget d ''step'') of
            None \<Rightarrow> Inl (bad_progress (who @ '' step must not be empty''))
          | Some raw \<Rightarrow>
              let text = py_strip raw in
              rbind (ensure (text \<noteq> []) (bad_progress (who @ '' step must not be empty''))) (\<lambda>_.
              rbind (ensure (length text \<le> max_goal_progress_step_chars)
                       (bad_progress (who @ '' exceeds 200 characters''))) (\<lambda>_.
              rbind (check_step_status (bad_progress (who @ '' has an invalid status'')) (dget d ''status''))
                (\<lambda>status. Inr (text, status))))))"

fun normalize_progress_steps :: "nat \<Rightarrow> pyval list \<Rightarrow> goal_error + (string \<times> string) list" where
  "normalize_progress_steps index [] = Inr []"
| "normalize_progress_steps index (raw # rest) =
     rbind (normalize_progress_step index raw) (\<lambda>step.
     rbind (normalize_progress_steps (Suc index) rest) (\<lambda>steps. Inr (step # steps)))"

definition progress_doc :: "string option \<Rightarrow> (string \<times> string) list \<Rightarrow> pydict" where
  "progress_doc explanation steps =
     [(''explanation'', opt_str explanation),
      (''steps'', PyList (map (\<lambda>(t, s). PyDict [(''step'', PyStr t), (''status'', PyStr s)]) steps))]"

definition too_large :: "pydict \<Rightarrow> bool" where
  "too_large progress = (utf8_length (json_text (PyDict progress)) > max_goal_progress_json_bytes)"

definition normalize_goal_progress :: "pyval \<Rightarrow> pyval \<Rightarrow> goal_error + pydict" where
  "normalize_goal_progress explanation steps =
     rbind (normalize_explanation explanation) (\<lambda>normalized_explanation.
     case steps of
       PyList raw_steps \<Rightarrow>
         rbind (ensure (length raw_steps \<le> max_goal_progress_steps)
                  (bad_progress ''Goal progress supports at most 20 steps'')) (\<lambda>_.
         rbind (normalize_progress_steps 0 raw_steps) (\<lambda>normalized_steps.
         rbind (ensure (length (filter (\<lambda>st. snd st = ''in_progress'') normalized_steps) \<le> 1)
                  (bad_progress ''Goal progress may contain at most one in_progress step'')) (\<lambda>_.
         let progress = progress_doc normalized_explanation normalized_steps in
         rbind (ensure (\<not> too_large progress) (bad_progress ''Goal progress exceeds 16384 bytes'')) (\<lambda>_.
         Inr progress))))
     | _ \<Rightarrow> Inl (bad_progress ''Goal progress steps must be an array''))"

section \<open>Commands\<close>

record goal_command =
  cmd_source_scope :: string
  cmd_session_key :: string
  cmd_client_request_id :: string
  cmd_action :: string
  cmd_fingerprint :: string

definition is_lower_hex :: "char \<Rightarrow> bool" where
  "is_lower_hex c = (let n = code c in (48 \<le> n \<and> n \<le> 57) \<or> (97 \<le> n \<and> n \<le> 102))"

definition validate_command :: "goal_command \<Rightarrow> goal_error + unit" where
  "validate_command cmd =
     (let bad = Goal_Invalid ''INVALID_GOAL_COMMAND'' in
      rbind (ensure (py_strip (cmd_source_scope cmd) \<noteq> []) (bad ''source_scope is required'')) (\<lambda>_.
      rbind (ensure (py_strip (cmd_session_key cmd) \<noteq> []) (bad ''request_session_key is required'')) (\<lambda>_.
      rbind (normalize_client_request_id (PyStr (cmd_client_request_id cmd))) (\<lambda>_.
      rbind (ensure (cmd_action cmd \<in> {''set'', ''edit'', ''pause'', ''resume'', ''clear''})
               (bad (''unknown Goal action: '' @ cmd_action cmd))) (\<lambda>_.
      ensure (length (cmd_fingerprint cmd) = 64 \<and> py_lower (cmd_fingerprint cmd) = cmd_fingerprint cmd \<and>
              list_all is_lower_hex (cmd_fingerprint cmd))
        (bad ''request_fingerprint must be a lower-case SHA-256 digest''))))))"

record expected_goal =
  x_session_id :: string
  x_epoch :: int
  x_goal_id :: string
  x_state_revision :: int

section \<open>What a task carries of a goal\<close>

record goal_candidate =
  cand_session_id :: string
  cand_epoch :: int
  cand_goal_id :: string

definition candidate_detail :: "goal_candidate \<Rightarrow> pyval" where
  "candidate_detail c =
     PyDict [(''schemaVersion'', PyInt 1), (''sessionId'', PyStr (cand_session_id c)),
             (''epoch'', PyInt (cand_epoch c)), (''goalId'', PyStr (cand_goal_id c))]"

text \<open>A non-empty string, and an integer that is not a boolean and at least a bound.\<close>

definition nonempty_str :: "pyval \<Rightarrow> string option" where
  "nonempty_str v = (case v of PyStr s \<Rightarrow> if s = [] then None else Some s | _ \<Rightarrow> None)"

definition int_from :: "int \<Rightarrow> pyval \<Rightarrow> int option" where
  "int_from lo v = (case v of PyInt i \<Rightarrow> if lo \<le> i then Some i else None | _ \<Rightarrow> None)"

fun as_bool :: "pyval \<Rightarrow> bool option" where
  "as_bool (PyBool b) = Some b"
| "as_bool _ = None"

definition candidate_from_detail :: "pyval \<Rightarrow> goal_candidate option" where
  "candidate_from_detail value =
     (case as_dict value of
        None \<Rightarrow> None
      | Some d \<Rightarrow>
          if \<not> py_eq_int (dget d ''schemaVersion'') 1 then None
          else
            (case (nonempty_str (dget d ''sessionId''), int_from 0 (dget d ''epoch''),
                   nonempty_str (dget d ''goalId'')) of
               (Some sid, Some ep, Some gid) \<Rightarrow>
                 Some \<lparr>cand_session_id = sid, cand_epoch = ep, cand_goal_id = gid\<rparr>
             | _ \<Rightarrow> None))"

record goal_context =
  c_session_id :: string
  c_epoch :: int
  c_goal_id :: string
  c_objective_revision :: int
  c_objective :: string
  c_task_id :: string
  c_continuation_seq :: int
  c_automatic :: bool

definition context_detail :: "goal_context \<Rightarrow> pyval" where
  "context_detail c =
     PyDict [(''schemaVersion'', PyInt 1), (''sessionId'', PyStr (c_session_id c)),
             (''epoch'', PyInt (c_epoch c)), (''goalId'', PyStr (c_goal_id c)),
             (''objectiveRevision'', PyInt (c_objective_revision c)),
             (''objectiveSnapshot'', PyStr (c_objective c)), (''taskId'', PyStr (c_task_id c)),
             (''continuationSeq'', PyInt (c_continuation_seq c)),
             (''automatic'', PyBool (c_automatic c))]"

definition context_from_detail :: "pyval \<Rightarrow> goal_context option" where
  "context_from_detail value =
     (case as_dict value of
        None \<Rightarrow> None
      | Some d \<Rightarrow>
          if \<not> py_eq_int (dget d ''schemaVersion'') 1 then None
          else
            (case (nonempty_str (dget d ''sessionId''), nonempty_str (dget d ''goalId''),
                   nonempty_str (dget d ''objectiveSnapshot''), nonempty_str (dget d ''taskId'')) of
               (Some sid, Some gid, Some snap, Some tid) \<Rightarrow>
                 (case (int_from 0 (dget d ''epoch''), int_from 1 (dget d ''objectiveRevision''),
                        int_from 0 (dget_or d ''continuationSeq'' (PyInt 0))) of
                    (Some ep, Some orev, Some seq) \<Rightarrow>
                      if snap \<noteq> py_strip snap \<or> length snap > max_goal_objective_chars then None
                      else
                        (case as_bool (dget_or d ''automatic'' (PyBool False)) of
                           None \<Rightarrow> None
                         | Some aut \<Rightarrow>
                             Some \<lparr>c_session_id = sid, c_epoch = ep, c_goal_id = gid,
                               c_objective_revision = orev, c_objective = snap, c_task_id = tid,
                               c_continuation_seq = seq, c_automatic = aut\<rparr>)
                  | _ \<Rightarrow> None)
             | _ \<Rightarrow> None))"

datatype update_status = Pending | Claimed | Applied | Revoked

fun update_status_value :: "update_status \<Rightarrow> string" where
  "update_status_value Pending = ''pending''"
| "update_status_value Claimed = ''claimed''"
| "update_status_value Applied = ''applied''"
| "update_status_value Revoked = ''revoked''"

definition update_status_of :: "string \<Rightarrow> update_status option" where
  "update_status_of s = enum_of update_status_value [Pending, Claimed, Applied, Revoked] s"

interpretation update_status_enum: str_enum update_status_value update_status_of
proof
  fix e show "update_status_of (update_status_value e) = Some e"
    by (cases e) (simp_all add: update_status_of_def enum_of_def)
qed (simp add: update_status_of_def enum_of_Some)

record objective_update =
  u_context :: goal_context
  u_state_revision :: int
  u_accepted_at :: int
  u_status :: update_status

definition update_detail :: "objective_update \<Rightarrow> pydict" where
  "update_detail u =
     [(''schemaVersion'', PyInt 1), (''status'', PyStr (update_status_value (u_status u))),
      (''stateRevision'', PyInt (u_state_revision u)), (''acceptedAtMs'', PyInt (u_accepted_at u)),
      (''context'', context_detail (u_context u))]"

text \<open>
  A stored status that is a list or a dictionary, which no writer produces, is read here as an
  unknown one.
\<close>

definition update_from_detail :: "pyval \<Rightarrow> objective_update option" where
  "update_from_detail value =
     (case as_dict value of
        None \<Rightarrow> None
      | Some d \<Rightarrow>
          if \<not> py_eq_int (dget d ''schemaVersion'') 1 then None
          else
            (case (context_from_detail (dget d ''context''), int_from 1 (dget d ''stateRevision''),
                   int_from 0 (dget d ''acceptedAtMs''),
                   Option.bind (as_str (dget d ''status'')) update_status_of) of
               (Some ctx, Some srev, Some at, Some st) \<Rightarrow>
                 Some \<lparr>u_context = ctx, u_state_revision = srev, u_accepted_at = at, u_status = st\<rparr>
             | _ \<Rightarrow> None))"

abbreviation effective_key :: string where
  "effective_key \<equiv> ''goal_effective_context''"

abbreviation update_key :: string where
  "update_key \<equiv> ''goal_objective_update''"

definition effective_goal_turn_context :: "pydict \<Rightarrow> goal_context option" where
  "effective_goal_turn_context details =
     (case context_from_detail (dget details effective_key) of
        Some c \<Rightarrow> Some c
      | None \<Rightarrow> context_from_detail (dget details ''goal_context''))"

section \<open>Building goals, task identities and snapshots\<close>

text \<open>
  \<open>uuid.uuid5(NAMESPACE_URL, name)\<close> is a hash of the name and stays a parameter. Booleans, which
  the code rejects, are not integers of the model.
\<close>

definition automatic_goal_task_id ::
    "(string \<Rightarrow> string) \<Rightarrow> string \<Rightarrow> int \<Rightarrow> int \<Rightarrow> goal_error + string" where
  "automatic_goal_task_id uuid5_url goal_id objective_revision continuation_seq =
     (let bad = Goal_Invalid ''INVALID_GOAL_COMMAND'' in
      rbind (ensure (goal_id \<noteq> []) (bad ''goal_id is required for automatic continuation'')) (\<lambda>_.
      rbind (ensure (1 \<le> objective_revision) (bad ''objective_revision must be a positive integer'')) (\<lambda>_.
      rbind (ensure (1 \<le> continuation_seq) (bad ''continuation_seq must be a positive integer'')) (\<lambda>_.
      Inr (uuid5_url (goal_id @ '':'' @ int_str objective_revision @ '':'' @ int_str continuation_seq))))))"

definition new_goal ::
    "string \<Rightarrow> string \<Rightarrow> string \<Rightarrow> int \<Rightarrow> string \<Rightarrow> string option \<Rightarrow> string option \<Rightarrow> int \<Rightarrow>
     goal_error + goal_record" where
  "new_goal goal_id session_key session_id session_epoch objective task_id source_message timestamp =
     (let bad = Goal_Invalid ''INVALID_GOAL_COMMAND'' in
      rbind (normalize_goal_objective (PyStr objective)) (\<lambda>normalized.
      rbind (ensure (goal_id \<noteq> [] \<and> session_key \<noteq> [] \<and> session_id \<noteq> [])
               (bad ''goal_id, session_key and session_id are required'')) (\<lambda>_.
      rbind (ensure (0 \<le> session_epoch) (bad ''session_epoch must be a non-negative integer'')) (\<lambda>_.
      let source = map_option py_strip source_message in
      rbind (ensure (source \<noteq> Some []) (bad ''source_user_message_id must not be blank'')) (\<lambda>_.
      let started = (if task_id = None then 0 else 1) in
      Inr \<lparr>g_session_key = session_key, g_session_id = session_id, g_epoch = session_epoch,
        g_goal_id = goal_id, g_objective = normalized, g_status = Active, g_state_revision = 1,
        g_objective_revision = 1, g_progress_revision = 0, g_progress = None,
        g_continuation_seq = 0, g_active_task = task_id, g_source_message = source,
        g_terminal_task = None, g_turns_started = started, g_turns_settled = 0,
        g_window_turns = started, g_active_time = 0, g_window_time = 0, g_usage = no_usage,
        g_pause_reason = None, g_blocked_reason = None, g_terminal_reason = None,
        g_created_at = timestamp, g_updated_at = timestamp, g_finished_at = None\<rparr>)))))"

definition goal_turn_context :: "goal_record \<Rightarrow> string \<Rightarrow> bool \<Rightarrow> goal_context" where
  "goal_turn_context g task_id automatic =
     \<lparr>c_session_id = g_session_id g, c_epoch = g_epoch g, c_goal_id = g_goal_id g,
      c_objective_revision = g_objective_revision g, c_objective = g_objective g,
      c_task_id = task_id, c_continuation_seq = g_continuation_seq g, c_automatic = automatic\<rparr>"

definition usage_snapshot :: "token_usage \<Rightarrow> pyval" where
  "usage_snapshot u =
     PyDict [(''inputTokens'', PyInt (input_tokens u)), (''outputTokens'', PyInt (output_tokens u)),
             (''reasoningTokens'', PyInt (reasoning_tokens u)),
             (''cacheReadTokens'', PyInt (cache_read_tokens u)),
             (''cacheWriteTokens'', PyInt (cache_write_tokens u)),
             (''totalTokens'', PyInt (total_tokens u))]"

definition goal_snapshot :: "goal_record \<Rightarrow> string option \<Rightarrow> string option \<Rightarrow> pydict" where
  "goal_snapshot g execution_state deferred =
     [(''goalId'', PyStr (g_goal_id g)), (''sessionKey'', PyStr (g_session_key g)),
      (''sessionId'', PyStr (g_session_id g)), (''epoch'', PyInt (g_epoch g)),
      (''objective'', PyStr (g_objective g)), (''status'', PyStr (goal_status_value (g_status g))),
      (''stateRevision'', PyInt (g_state_revision g)),
      (''objectiveRevision'', PyInt (g_objective_revision g)),
      (''progressRevision'', PyInt (g_progress_revision g)),
      (''progress'', case g_progress g of None \<Rightarrow> PyNone | Some d \<Rightarrow> PyDict d),
      (''continuationSeq'', PyInt (g_continuation_seq g)),
      (''activeTaskId'', opt_str (g_active_task g)),
      (''sourceMessageId'', opt_str (g_source_message g)),
      (''terminalTurnId'', opt_str (g_terminal_task g)),
      (''executionState'', PyStr (case execution_state of
          None \<Rightarrow> if g_active_task g = None then ''idle'' else ''working'' | Some s \<Rightarrow> s)),
      (''continuationDeferredReason'', opt_str deferred),
      (''turnsStarted'', PyInt (g_turns_started g)), (''turnsSettled'', PyInt (g_turns_settled g)),
      (''windowTurnsStarted'', PyInt (g_window_turns g)),
      (''activeTimeMs'', PyInt (g_active_time g)), (''windowActiveTimeMs'', PyInt (g_window_time g)),
      (''usage'', usage_snapshot (g_usage g)),
      (''pauseReason'', opt_str (g_pause_reason g)),
      (''blockedReason'', opt_str (if g_status g = Blocked then g_blocked_reason g else None)),
      (''terminalReason'', opt_str (g_terminal_reason g)),
      (''createdAt'', PyInt (g_created_at g)), (''updatedAt'', PyInt (g_updated_at g)),
      (''finishedAt'', opt_int (g_finished_at g))]"

section \<open>Laws of the normalisers\<close>

definition objective_ok :: "string \<Rightarrow> bool" where
  "objective_ok s = (s \<noteq> [] \<and> py_strip s = s \<and> length s \<le> max_goal_objective_chars)"

lemma normalize_goal_objective_Inr:
  "normalize_goal_objective v = Inr s \<longleftrightarrow> (\<exists>t. v = PyStr t \<and> s = py_strip t \<and> objective_ok s)"
  by (cases v) (auto simp: normalize_goal_objective_def objective_ok_def Let_def)

lemma normalize_goal_objective_again:
  "normalize_goal_objective v = Inr s \<Longrightarrow> normalize_goal_objective (PyStr s) = Inr s"
  by (auto simp: normalize_goal_objective_Inr)

lemma normalize_goal_reason_Inr:
  "normalize_goal_reason v = Inr (Some s) \<Longrightarrow>
   s \<noteq> [] \<and> py_strip s = s \<and> length s \<le> max_goal_reason_chars"
  by (cases v) (auto simp: normalize_goal_reason_def Let_def split: if_splits)

lemma client_request_id_Inr:
  "normalize_client_request_id v = Inr s \<Longrightarrow> v = PyStr s \<and> length s = 36"
  by (cases v) (auto simp: normalize_client_request_id_def split: option.splits if_splits
      dest: sym simp: length_uuid_str)

section \<open>Round trips of what a task carries\<close>

definition context_ok :: "goal_context \<Rightarrow> bool" where
  "context_ok c = (c_session_id c \<noteq> [] \<and> c_goal_id c \<noteq> [] \<and> c_task_id c \<noteq> [] \<and> 0 \<le> c_epoch c \<and>
     1 \<le> c_objective_revision c \<and> 0 \<le> c_continuation_seq c \<and> objective_ok (c_objective c))"

lemma nonempty_str_Some: "nonempty_str v = Some s \<longleftrightarrow> v = PyStr s \<and> s \<noteq> []"
  by (cases v) (auto simp: nonempty_str_def)

lemma int_from_Some: "int_from lo v = Some i \<longleftrightarrow> v = PyInt i \<and> lo \<le> i"
  by (cases v) (auto simp: int_from_def)

lemma context_roundtrip: "context_ok c \<Longrightarrow> context_from_detail (context_detail c) = Some c"
  by (simp add: context_ok_def objective_ok_def context_from_detail_def context_detail_def
      nonempty_str_def int_from_def dget_or_def)

lemma context_from_detail_ok: "context_from_detail v = Some c \<Longrightarrow> context_ok c"
  unfolding context_from_detail_def
  by (auto simp: context_ok_def objective_ok_def nonempty_str_Some int_from_Some
      split: option.splits if_splits)

lemma update_roundtrip:
  "context_ok (u_context u) \<Longrightarrow> 1 \<le> u_state_revision u \<Longrightarrow> 0 \<le> u_accepted_at u \<Longrightarrow>
   update_from_detail (PyDict (update_detail u)) = Some u"
  by (simp add: update_from_detail_def update_detail_def int_from_def context_roundtrip
      update_status_enum.of_val_val)

lemma update_from_detail_ok:
  "update_from_detail v = Some u \<Longrightarrow>
   context_ok (u_context u) \<and> 1 \<le> u_state_revision u \<and> 0 \<le> u_accepted_at u"
  unfolding update_from_detail_def
  by (auto simp: int_from_Some dest: context_from_detail_ok split: option.splits if_splits)

lemma candidate_roundtrip:
  "cand_session_id c \<noteq> [] \<Longrightarrow> cand_goal_id c \<noteq> [] \<Longrightarrow> 0 \<le> cand_epoch c \<Longrightarrow>
   candidate_from_detail (candidate_detail c) = Some c"
  by (simp add: candidate_from_detail_def candidate_detail_def nonempty_str_def int_from_def)

section \<open>Progress documents\<close>

definition step_doc :: "string \<times> string \<Rightarrow> pyval" where
  "step_doc st = PyDict [(''step'', PyStr (fst st)), (''status'', PyStr (snd st))]"

definition step_ok :: "string \<times> string \<Rightarrow> bool" where
  "step_ok st = (fst st \<noteq> [] \<and> py_strip (fst st) = fst st \<and>
     length (fst st) \<le> max_goal_progress_step_chars \<and> snd st \<in> progress_statuses)"

lemma progress_doc_steps: "progress_doc e steps = [(''explanation'', opt_str e), (''steps'', PyList (map step_doc steps))]"
  by (auto simp: progress_doc_def step_doc_def)

lemma check_step_status_Inr: "check_step_status e v = Inr s \<longleftrightarrow> v = PyStr s \<and> s \<in> progress_statuses"
  by (cases v) auto

lemma progress_step_ok:
  assumes "normalize_progress_step i raw = Inr st"
  shows "step_ok st"
proof (cases raw)
  case (PyDict d)
  show ?thesis
  proof (cases "dget d ''step''")
    case (PyStr t)
    define who where "who = ''Goal progress step '' @ nat_str i"
    have "fst st = py_strip t \<and> py_strip t \<noteq> [] \<and> length (py_strip t) \<le> max_goal_progress_step_chars \<and>
        snd st \<in> progress_statuses"
      using assms unfolding normalize_progress_step_def who_def [symmetric]
      by (simp add: PyDict PyStr Let_def check_step_status_Inr) (metis fst_conv snd_conv)
    then show ?thesis by (simp add: step_ok_def)
  qed (use assms in \<open>simp_all add: normalize_progress_step_def PyDict Let_def\<close>)
qed (use assms in \<open>simp_all add: normalize_progress_step_def\<close>)

lemma progress_step_doc:
  assumes "step_ok st" shows "normalize_progress_step i (step_doc st) = Inr st"
proof -
  have "set (map fst [(''step'', PyStr (fst st)), (''status'', PyStr (snd st))]) = {''step'', ''status''}"
    by simp
  then show ?thesis using assms
    by (simp add: normalize_progress_step_def step_doc_def step_ok_def Let_def ensure_def)
qed

lemma progress_steps_ok:
  "normalize_progress_steps i raws = Inr steps \<Longrightarrow> list_all step_ok steps \<and> length steps = length raws"
  by (induction i raws arbitrary: steps rule: normalize_progress_steps.induct)
    (auto dest: progress_step_ok)

lemma progress_steps_doc:
  "list_all step_ok steps \<Longrightarrow> normalize_progress_steps i (map step_doc steps) = Inr steps"
  by (induction steps arbitrary: i) (auto simp: progress_step_doc)

lemma explanation_ok: "normalize_explanation v = Inr e \<Longrightarrow> normalize_explanation (opt_str e) = Inr e"
  by (cases v) (auto simp: normalize_explanation_def opt_str_def Let_def split: if_splits)

lemma goal_progress_Inr:
  "normalize_goal_progress explanation steps = Inr doc \<longleftrightarrow>
   (\<exists>e raws sts. normalize_explanation explanation = Inr e \<and> steps = PyList raws \<and> length raws \<le> 20 \<and>
     normalize_progress_steps 0 raws = Inr sts \<and>
     length (filter (\<lambda>st. snd st = ''in_progress'') sts) \<le> 1 \<and> doc = progress_doc e sts \<and>
     \<not> too_large doc)"
  by (cases steps)
    (auto simp: normalize_goal_progress_def Let_def goal_limits simp del: One_nat_def)

text \<open>C37: An accepted progress document has at most twenty well-formed steps, at most one in
  progress, and at most 16384 bytes as JSON; normalising it again gives the same document.\<close>

theorem goal_progress_stable:
  assumes "normalize_goal_progress explanation steps = Inr doc"
  shows "normalize_goal_progress (dget doc ''explanation'') (dget doc ''steps'') = Inr doc \<and>
    (\<exists>e sts. doc = progress_doc e sts \<and> list_all step_ok sts \<and> length sts \<le> 20 \<and>
      length (filter (\<lambda>st. snd st = ''in_progress'') sts) \<le> 1 \<and>
      utf8_length (json_text (PyDict doc)) \<le> 16384)"
proof -
  obtain e raws sts where doc: "normalize_explanation explanation = Inr e" "length raws \<le> 20"
      "normalize_progress_steps 0 raws = Inr sts"
      "length (filter (\<lambda>st. snd st = ''in_progress'') sts) \<le> 1" "doc = progress_doc e sts"
      "\<not> too_large doc"
    using assms unfolding goal_progress_Inr by blast
  have ok: "list_all step_ok sts" "length sts \<le> 20" using progress_steps_ok [OF doc(3)] doc(2) by auto
  have parts: "dget doc ''explanation'' = opt_str e" "dget doc ''steps'' = PyList (map step_doc sts)"
    by (simp_all add: doc(5) progress_doc_steps)
  have "normalize_goal_progress (dget doc ''explanation'') (dget doc ''steps'') = Inr doc"
    unfolding goal_progress_Inr parts using doc(4,5,6) ok explanation_ok [OF doc(1)] progress_steps_doc [OF ok(1)]
    by auto
  moreover have "utf8_length (json_text (PyDict doc)) \<le> 16384"
    using doc(6) by (simp only: too_large_def goal_limits not_less)
  ultimately show ?thesis using doc ok by blast
qed

lemma goal_progress_stable_witness:
  "\<exists>doc. normalize_goal_progress PyNone
     (PyList [PyDict [(''step'', PyStr '' a''), (''status'', PyStr ''pending'')]]) = Inr doc \<and>
   normalize_goal_progress (dget doc ''explanation'') (dget doc ''steps'') = Inr doc"
proof -
  have "utf8_length (json_text (PyDict (progress_doc None [(''a'', ''pending'')]))) = 62"
    by (simp add: progress_doc_def opt_str_def json_str_def json_char_def code_def utf8_length_def Let_def)
  then have "\<not> too_large (progress_doc None [(''a'', ''pending'')])"
    by (simp add: too_large_def goal_limits)
  moreover have "normalize_progress_steps 0 [PyDict [(''step'', PyStr '' a''), (''status'', PyStr ''pending'')]]
      = Inr [(''a'', ''pending'')]"
    by code_simp
  ultimately have "normalize_goal_progress PyNone
     (PyList [PyDict [(''step'', PyStr '' a''), (''status'', PyStr ''pending'')]]) =
     Inr (progress_doc None [(''a'', ''pending'')])"
    unfolding goal_progress_Inr by (auto simp: normalize_explanation_def)
  with goal_progress_stable [OF this] show ?thesis by blast
qed

end
