(* ===== verification/Session_Db.thy ===== *)
theory Session_Db
  imports Goal_Types
begin

text \<open>
  The rows of the session database that goals and plan runs read and write: sessions, agent
  tasks, goals, command receipts, plan runs, plan revisions, usage events and project workspaces
  (\<open>session/models.py\<close>; of each, the columns the modelled operations use). One database is one
  record of tables. An operation of \<open>SessionStorage\<close> is one transaction: it returns an error,
  which stands for the raised exception and the rollback, or the new database with its result.
\<close>

section \<open>Enumerations\<close>

datatype task_status = Queued | Running | Succeeded | Failed | Cancelled | Timeout | Abandoned

fun task_status_value :: "task_status \<Rightarrow> string" where
  "task_status_value Queued = ''queued''"
| "task_status_value Running = ''running''"
| "task_status_value Succeeded = ''succeeded''"
| "task_status_value Failed = ''failed''"
| "task_status_value Cancelled = ''cancelled''"
| "task_status_value Timeout = ''timeout''"
| "task_status_value Abandoned = ''abandoned''"

datatype plan_run_status =
  Run_Queued | Run_Running | Run_Paused | Run_Blocked | Run_Completed | Run_Cancelled | Run_Superseded

fun plan_run_status_value :: "plan_run_status \<Rightarrow> string" where
  "plan_run_status_value Run_Queued = ''queued''"
| "plan_run_status_value Run_Running = ''running''"
| "plan_run_status_value Run_Paused = ''paused''"
| "plan_run_status_value Run_Blocked = ''blocked''"
| "plan_run_status_value Run_Completed = ''completed''"
| "plan_run_status_value Run_Cancelled = ''cancelled''"
| "plan_run_status_value Run_Superseded = ''superseded''"

datatype collaboration_mode = Default_Mode | Plan_Mode

section \<open>Rows\<close>

record session_row =
  s_session_key :: string
  s_session_id :: string
  s_epoch :: int
  s_collaboration_mode :: collaboration_mode
  s_collaboration_revision :: int
  s_active_plan_revision :: "string option"
  s_workspace_id :: "string option"
  s_updated_at :: int

record agent_task =
  t_task_id :: string
  t_session_key :: string
  t_agent_id :: string
  t_status :: task_status
  t_created_at :: int
  t_updated_at :: int
  t_started_at :: "int option"
  t_finished_at :: "int option"
  t_terminal_reason :: "string option"
  t_error_class :: "string option"
  t_details :: "pydict option"

record goal_receipt =
  r_source_scope :: string
  r_session_key :: string
  r_client_request_id :: string
  r_action :: string
  r_fingerprint :: string
  r_session_id :: string
  r_session_epoch :: int
  r_response :: pydict

record plan_revision =
  v_revision_id :: string
  v_plan_id :: string
  v_parent_revision :: "string option"
  v_generation :: int
  v_session_key :: string
  v_session_id :: string
  v_epoch :: int
  v_turn_id :: "string option"
  v_message_id :: "string option"
  v_title :: string
  v_markdown :: string
  v_steps :: "(string \<times> string \<times> string option) list"
  v_content_hash :: string
  v_created_at :: int

record step_state =
  st_id :: string
  st_title :: string
  st_status :: string
  st_reason :: "string option"

record plan_run =
  p_run_id :: string
  p_session_key :: string
  p_session_id :: string
  p_epoch :: int
  p_revision_id :: string
  p_supersedes :: "string option"
  p_driver_kind :: string
  p_driver_id :: "string option"
  p_status :: plan_run_status
  p_steps :: "step_state list"
  p_current_step :: "string option"
  p_state_revision :: int
  p_active_task :: "string option"
  p_pause_reason :: "string option"
  p_terminal_reason :: "string option"
  p_created_at :: int
  p_updated_at :: int
  p_started_at :: "int option"
  p_finished_at :: "int option"

record usage_event =
  e_turn_id :: string
  e_session_id :: string
  e_epoch :: int
  e_finalized :: bool
  e_usage :: token_usage

record workspace_row =
  w_id :: string
  w_path :: string
  w_path_key :: string
  w_removed_at :: "int option"
  w_trusted_at :: "int option"

record workspace_guard =
  guard_id :: string
  guard_path :: string
  guard_path_key :: string

record session_db =
  sessions :: "session_row list"
  tasks :: "agent_task list"
  goals :: "goal_record list"
  receipts :: "goal_receipt list"
  plan_revisions :: "plan_revision list"
  plan_runs :: "plan_run list"
  usage_events :: "usage_event list"
  workspaces :: "workspace_row list"

definition empty_db :: session_db where
  "empty_db = \<lparr>sessions = [], tasks = [], goals = [], receipts = [], plan_revisions = [],
     plan_runs = [], usage_events = [], workspaces = []\<rparr>"

section \<open>Lookups\<close>

definition session_of :: "string \<Rightarrow> session_row list \<Rightarrow> session_row option" where
  "session_of k rows = find (\<lambda>s. s_session_key s = k) rows"

definition task_of :: "string \<Rightarrow> agent_task list \<Rightarrow> agent_task option" where
  "task_of k rows = find (\<lambda>t. t_task_id t = k) rows"

definition goal_of_key :: "string \<Rightarrow> goal_record list \<Rightarrow> goal_record option" where
  "goal_of_key k rows = find (\<lambda>g. g_session_key g = k) rows"

definition goal_of_id :: "string \<Rightarrow> goal_record list \<Rightarrow> goal_record option" where
  "goal_of_id k rows = find (\<lambda>g. g_goal_id g = k) rows"

definition run_of :: "string \<Rightarrow> plan_run list \<Rightarrow> plan_run option" where
  "run_of k rows = find (\<lambda>p. p_run_id p = k) rows"

definition revision_of :: "string \<Rightarrow> plan_revision list \<Rightarrow> plan_revision option" where
  "revision_of k rows = find (\<lambda>v. v_revision_id v = k) rows"

definition workspace_of :: "string \<Rightarrow> workspace_row list \<Rightarrow> workspace_row option" where
  "workspace_of k rows = find (\<lambda>w. w_id w = k) rows"

interpretation session_rows: keyed_rows s_session_key session_of
  by unfold_locales (simp_all add: session_of_def)

interpretation task_rows: keyed_rows t_task_id task_of
  by unfold_locales (simp_all add: task_of_def)

interpretation goal_rows: keyed_rows g_session_key goal_of_key
  by unfold_locales (simp_all add: goal_of_key_def)

interpretation goal_ids: keyed_rows g_goal_id goal_of_id
  by unfold_locales (simp_all add: goal_of_id_def)

interpretation run_rows: keyed_rows p_run_id run_of
  by unfold_locales (simp_all add: run_of_def)

interpretation revision_rows: keyed_rows v_revision_id revision_of
  by unfold_locales (simp_all add: revision_of_def)

text \<open>\<open>dict(task.details or {})\<close>.\<close>

definition details_of :: "agent_task \<Rightarrow> pydict" where
  "details_of t = (case t_details t of None \<Rightarrow> [] | Some d \<Rightarrow> d)"

definition task_context :: "agent_task \<Rightarrow> goal_context option" where
  "task_context t = effective_goal_turn_context (details_of t)"

definition unfinished :: "agent_task \<Rightarrow> bool" where
  "unfinished t = (t_status t = Queued \<or> t_status t = Running)"

section \<open>Statements on one table\<close>

definition update_goals :: "(goal_record \<Rightarrow> bool) \<Rightarrow> (goal_record \<Rightarrow> goal_record) \<Rightarrow> session_db \<Rightarrow> session_db" where
  "update_goals p f db = db\<lparr>goals := sql_update p f (goals db)\<rparr>"

definition update_tasks :: "(agent_task \<Rightarrow> bool) \<Rightarrow> (agent_task \<Rightarrow> agent_task) \<Rightarrow> session_db \<Rightarrow> session_db" where
  "update_tasks p f db = db\<lparr>tasks := sql_update p f (tasks db)\<rparr>"

definition update_runs :: "(plan_run \<Rightarrow> bool) \<Rightarrow> (plan_run \<Rightarrow> plan_run) \<Rightarrow> session_db \<Rightarrow> session_db" where
  "update_runs p f db = db\<lparr>plan_runs := sql_update p f (plan_runs db)\<rparr>"

lemmas db_updates = update_goals_def update_tasks_def update_runs_def

lemma update_tables [simp]:
  "goals (update_tasks p f db) = goals db" "goals (update_runs q h db) = goals db"
  "tasks (update_goals p' f' db) = tasks db" "tasks (update_runs q h db) = tasks db"
  "plan_runs (update_goals p' f' db) = plan_runs db" "plan_runs (update_tasks p f db) = plan_runs db"
  "sessions (update_goals p' f' db) = sessions db" "sessions (update_tasks p f db) = sessions db"
  "sessions (update_runs q h db) = sessions db"
  "receipts (update_goals p' f' db) = receipts db" "receipts (update_tasks p f db) = receipts db"
  "receipts (update_runs q h db) = receipts db"
  "usage_events (update_goals p' f' db) = usage_events db" "usage_events (update_tasks p f db) = usage_events db"
  "goals (update_goals p' f' db) = sql_update p' f' (goals db)"
  "tasks (update_tasks p f db) = sql_update p f (tasks db)"
  "plan_runs (update_runs q h db) = sql_update q h (plan_runs db)"
  by (simp_all add: db_updates)

text \<open>\<open>UPDATE agent_tasks SET details = .., updated_at = .. WHERE task_id = ..\<close>.\<close>

definition set_details :: "string \<Rightarrow> pydict \<Rightarrow> int \<Rightarrow> session_db \<Rightarrow> session_db" where
  "set_details task_id details timestamp db =
     update_tasks (\<lambda>t. t_task_id t = task_id) (\<lambda>t. t\<lparr>t_details := Some details, t_updated_at := timestamp\<rparr>) db"

lemma set_details_tables [simp]:
  "goals (set_details i d ts db) = goals db" "sessions (set_details i d ts db) = sessions db"
  "receipts (set_details i d ts db) = receipts db" "plan_runs (set_details i d ts db) = plan_runs db"
  "usage_events (set_details i d ts db) = usage_events db"
  by (simp_all add: set_details_def)

lemma set_details_lookup:
  "task_of i (tasks (set_details j d ts db)) =
     map_option (\<lambda>t. if i = j then t\<lparr>t_details := Some d, t_updated_at := ts\<rparr> else t) (task_of i (tasks db))"
proof -
  have "task_of i (tasks (set_details j d ts db)) =
    map_option (\<lambda>t. if t_task_id t = j then t\<lparr>t_details := Some d, t_updated_at := ts\<rparr> else t) (task_of i (tasks db))"
    by (simp add: set_details_def task_rows.lookup_update)
  then show ?thesis using task_rows.lookup_Some by (cases "task_of i (tasks db)") auto
qed

text \<open>\<open>INSERT INTO agent_tasks\<close>: the task id is the primary key.\<close>

definition insert_agent_task :: "agent_task \<Rightarrow> session_db \<Rightarrow> goal_error + session_db" where
  "insert_agent_task t db =
     (if task_of (t_task_id t) (tasks db) \<noteq> None then Inl Integrity
      else Inr (db\<lparr>tasks := tasks db @ [t]\<rparr>))"

definition create_agent_task :: "agent_task \<Rightarrow> session_db \<Rightarrow> goal_error + session_db \<times> agent_task" where
  "create_agent_task t db =
     (let t' = t\<lparr>t_session_key := canonicalize_session_key (Some (t_session_key t)),
                 t_agent_id := normalize_agent_id (Some (t_agent_id t))\<rparr>
      in rbind (insert_agent_task t' db) (\<lambda>db'. Inr (db', t')))"

end
