(* ===== verification/Goal_Store.thy ===== *)
theory Goal_Store
  imports Session_Db
begin

text \<open>
  The goal transitions of \<open>SessionStorage\<close>, \<open>src/src/openstarry_code/session/storage.py\<close>. Each is one
  write transaction on the session database: an error rolls it back. The clock reading is the
  argument \<open>timestamp\<close>. A command is answered once: its receipt, found by source scope, session
  key and request id, is replayed afterwards.
\<close>

section \<open>Commands and their receipts\<close>

definition receipt_of :: "goal_command \<Rightarrow> goal_receipt list \<Rightarrow> goal_receipt option" where
  "receipt_of cmd rows =
     find (\<lambda>r. r_source_scope r = cmd_source_scope cmd \<and> r_session_key r = cmd_session_key cmd \<and>
               r_client_request_id r = cmd_client_request_id cmd) rows"

text \<open>A command's answer: the response, the goal row, and whether it was replayed.\<close>

type_synonym command_result = "pydict \<times> goal_record option \<times> bool"

definition replay_goal_command :: "goal_command \<Rightarrow> session_db \<Rightarrow> goal_error + command_result option" where
  "replay_goal_command cmd db =
     (case receipt_of cmd (receipts db) of
        None \<Rightarrow> Inr None
      | Some r \<Rightarrow>
          if r_action r \<noteq> cmd_action cmd \<or> r_fingerprint r \<noteq> cmd_fingerprint cmd
          then Inl (Goal_Conflict ''IDEMPOTENCY_CONFLICT''
                      ''clientRequestId was already used for a different Goal command'' None)
          else Inr (Some (r_response r, goal_of_key (cmd_session_key cmd) (goals db), True)))"

definition insert_receipt :: "goal_command \<Rightarrow> string \<Rightarrow> int \<Rightarrow> pydict \<Rightarrow> session_db \<Rightarrow> session_db" where
  "insert_receipt cmd session_id epoch response db =
     db\<lparr>receipts := receipts db @
        [\<lparr>r_source_scope = cmd_source_scope cmd, r_session_key = cmd_session_key cmd,
          r_client_request_id = cmd_client_request_id cmd, r_action = cmd_action cmd,
          r_fingerprint = cmd_fingerprint cmd, r_session_id = session_id,
          r_session_epoch = epoch, r_response = response\<rparr>]\<rparr>"

definition prepare_goal_command :: "goal_command \<Rightarrow> string \<Rightarrow> string \<Rightarrow> goal_error + goal_command" where
  "prepare_goal_command cmd action session_key =
     rbind (validate_command cmd) (\<lambda>_.
     let canonical_key = canonicalize_session_key (Some session_key) in
     rbind (ensure (cmd_action cmd = action)
              (Goal_Invalid ''INVALID_GOAL_COMMAND''
                 (''expected Goal action '' @ action @ '', got '' @ cmd_action cmd))) (\<lambda>_.
     rbind (ensure (canonicalize_session_key (Some (cmd_session_key cmd)) = canonical_key)
              (Goal_Invalid ''INVALID_GOAL_COMMAND'' ''Goal command session key does not match its target'')) (\<lambda>_.
     Inr (cmd\<lparr>cmd_session_key := canonical_key\<rparr>))))"

definition mutation_response ::
    "goal_command \<Rightarrow> goal_record option \<Rightarrow> string \<Rightarrow> int \<Rightarrow> string option \<Rightarrow> string option \<Rightarrow>
     string option \<Rightarrow> string option \<Rightarrow> pydict" where
  "mutation_response cmd goal session_id epoch task_id user_message_id previous_goal_id execution_state =
     [(''accepted'', PyBool True), (''clientRequestId'', PyStr (cmd_client_request_id cmd)),
      (''sessionKey'', PyStr (cmd_session_key cmd)), (''sessionId'', PyStr session_id),
      (''epoch'', PyInt epoch), (''taskId'', opt_str task_id),
      (''userMessageId'', opt_str user_message_id), (''previousGoalId'', opt_str previous_goal_id),
      (''goal'', case goal of None \<Rightarrow> PyNone | Some g \<Rightarrow> PyDict (goal_snapshot g execution_state None))]"

definition goal_execution_state :: "session_db \<Rightarrow> goal_record \<Rightarrow> string" where
  "goal_execution_state db g =
     (case g_active_task g of
        None \<Rightarrow> ''idle''
      | Some tid \<Rightarrow>
          (case task_of tid (tasks db) of
             Some t \<Rightarrow> if t_status t = Queued then ''queued'' else ''working''
           | None \<Rightarrow> ''working''))"

text \<open>The common end of edit, pause and resume: answer with the updated row and keep a receipt.\<close>

definition answer :: "goal_command \<Rightarrow> goal_record \<Rightarrow> session_db \<Rightarrow> session_db \<times> command_result" where
  "answer cmd g db =
     (let response = mutation_response cmd (Some g) (g_session_id g) (g_epoch g) None None None
                       (Some (goal_execution_state db g))
      in (insert_receipt cmd (g_session_id g) (g_epoch g) response db, (response, Some g, False)))"

text \<open>A command runs once: a second arrival is answered from its receipt.\<close>

definition once ::
    "goal_command \<Rightarrow> (session_db \<Rightarrow> goal_error + session_db \<times> command_result) \<Rightarrow> session_db \<Rightarrow>
     goal_error + session_db \<times> command_result" where
  "once cmd body db =
     rbind (replay_goal_command cmd db) (\<lambda>replay.
     case replay of Some result \<Rightarrow> Inr (db, result) | None \<Rightarrow> body db)"

definition get_goal :: "string \<Rightarrow> session_db \<Rightarrow> goal_record option" where
  "get_goal session_key db = goal_of_key (canonicalize_session_key (Some session_key)) (goals db)"

definition get_goal_command_receipt :: "goal_command \<Rightarrow> session_db \<Rightarrow> goal_error + command_result option" where
  "get_goal_command_receipt cmd db =
     rbind (prepare_goal_command cmd (cmd_action cmd) (cmd_session_key cmd)) (\<lambda>cmd'.
     replay_goal_command cmd' db)"

section \<open>Fences\<close>

definition require_expected_goal :: "string \<Rightarrow> expected_goal \<Rightarrow> session_db \<Rightarrow> goal_error + goal_record" where
  "require_expected_goal session_key expected db =
     (case goal_of_key session_key (goals db) of
        None \<Rightarrow> Inl (Goal_Conflict ''GOAL_NOT_FOUND'' ''No Goal exists for this session'' None)
      | Some g \<Rightarrow>
          if g_session_id g \<noteq> x_session_id expected \<or> g_epoch g \<noteq> x_epoch expected
          then Inl (Goal_Conflict ''SESSION_GENERATION_CHANGED''
                      ''The session generation changed before the Goal command'' (Some g))
          else if g_goal_id g \<noteq> x_goal_id expected \<or> g_state_revision g \<noteq> x_state_revision expected
          then Inl (Goal_Conflict ''STALE_GOAL'' ''The Goal changed before the command'' (Some g))
          else Inr g)"

definition goal_session :: "goal_record \<Rightarrow> session_db \<Rightarrow> session_row option" where
  "goal_session g db =
     find (\<lambda>s. s_session_key s = g_session_key g \<and> s_session_id s = g_session_id g \<and>
               s_epoch s = g_epoch g) (sessions db)"

definition active_run_statuses :: "plan_run_status list" where
  "active_run_statuses = [Run_Queued, Run_Running, Run_Paused, Run_Blocked]"

definition require_default_goal_mode :: "goal_record \<Rightarrow> session_db \<Rightarrow> goal_error + unit" where
  "require_default_goal_mode g db =
     (case goal_session g db of
        None \<Rightarrow> Inl (Goal_Conflict ''SESSION_GENERATION_CHANGED''
                       ''The session generation changed before Goal admission'' (Some g))
      | Some s \<Rightarrow>
          if s_collaboration_mode s \<noteq> Default_Mode
          then Inl (Goal_Conflict ''PLAN_MODE_ACTIVE''
                      ''Goal execution cannot start while Plan mode is active'' (Some g))
          else if \<exists>p \<in> set (plan_runs db). p_session_key p = g_session_key g \<and>
                    p_driver_kind p = ''manual'' \<and> p_status p \<in> set active_run_statuses
          then Inl (Goal_Conflict ''PLAN_RUN_ACTIVE''
                      ''A manual Plan run is active for this session'' (Some g))
          else Inr ())"

definition require_idle_goal_session :: "string \<Rightarrow> string option \<Rightarrow> session_db \<Rightarrow> goal_error + unit" where
  "require_idle_goal_session session_key exclude_task_id db =
     (if \<exists>t \<in> set (tasks db). t_session_key t = session_key \<and> unfinished t \<and>
           (case exclude_task_id of None \<Rightarrow> True | Some i \<Rightarrow> t_task_id t \<noteq> i)
      then Inl (Goal_Conflict ''GOAL_BUSY'' ''The session already has a queued or running task'' None)
      else Inr ())"

text \<open>\<open>_verify_project_workspace_guard\<close>; \<open>node\<close> is the workspace id of a prepared session.\<close>

definition verify_workspace_guard ::
    "string option option \<Rightarrow> string \<Rightarrow> workspace_guard option \<Rightarrow> session_db \<Rightarrow> goal_error + unit" where
  "verify_workspace_guard node entry_key guard db =
     (let row = session_of entry_key (sessions db);
          persisted = (case row of None \<Rightarrow> None | Some s \<Rightarrow> s_workspace_id s);
          prepared = (case node of None \<Rightarrow> persisted | Some w \<Rightarrow> w)
      in rbind (ensure (\<not> (row \<noteq> None \<and> node \<noteq> None \<and> persisted \<noteq> prepared))
                  (Workspace_State ''binding_changed'')) (\<lambda>_.
      case prepared of
        None \<Rightarrow> ensure (guard = None) (Workspace_State ''binding_changed'')
      | Some bound \<Rightarrow>
          (case guard of
             None \<Rightarrow> Inl (Workspace_State ''guard_required'')
           | Some gd \<Rightarrow>
               rbind (ensure (guard_id gd = bound) (Workspace_State ''binding_changed'')) (\<lambda>_.
               case workspace_of bound (workspaces db) of
                 None \<Rightarrow> Inl (Workspace_State ''not_found'')
               | Some w \<Rightarrow>
                   rbind (ensure (w_removed_at w = None) (Workspace_State ''removed'')) (\<lambda>_.
                   rbind (ensure (w_trusted_at w \<noteq> None) (Workspace_State ''untrusted'')) (\<lambda>_.
                   ensure (w_path w = guard_path gd \<and> w_path_key w = guard_path_key gd)
                     (Workspace_State ''binding_changed'')))))))"

section \<open>User commands\<close>

text \<open>The row a command's statement addresses.\<close>

definition fenced :: "string \<Rightarrow> expected_goal \<Rightarrow> goal_record \<Rightarrow> bool" where
  "fenced session_key expected g =
     (g_session_key g = session_key \<and> g_goal_id g = x_goal_id expected \<and>
      g_state_revision g = x_state_revision expected)"

definition edited :: "string \<Rightarrow> int \<Rightarrow> goal_record \<Rightarrow> goal_record" where
  "edited objective timestamp g =
     (let fresh = (g_status g = Complete) in
      g\<lparr>g_objective := objective, g_objective_revision := g_objective_revision g + 1,
        g_progress := None, g_progress_revision := g_progress_revision g + 1,
        g_state_revision := g_state_revision g + 1,
        g_status := (if fresh then Active else g_status g), g_terminal_task := None,
        g_window_turns := (if fresh then 0 else g_window_turns g),
        g_window_time := (if fresh then 0 else g_window_time g),
        g_pause_reason := (if fresh then None else g_pause_reason g),
        g_blocked_reason := None,
        g_terminal_reason := (if g_status g = Blocked \<or> g_status g = Complete then None
                              else g_terminal_reason g),
        g_updated_at := timestamp,
        g_finished_at := (if fresh then None else g_finished_at g)\<rparr>)"

text \<open>
  An edit made while its own task runs is left for that task as a pending update, under the
  context the task was accepted with.
\<close>

definition adopt_edit :: "string option \<Rightarrow> goal_record \<Rightarrow> int \<Rightarrow> session_db \<Rightarrow> session_db" where
  "adopt_edit adoption_task_id updated timestamp db =
     (case adoption_task_id of
        None \<Rightarrow> db
      | Some tid \<Rightarrow>
          if g_active_task updated \<noteq> Some tid then db
          else
            (case task_of tid (tasks db) of
               None \<Rightarrow> db
             | Some t \<Rightarrow>
                 (case task_context t of
                    None \<Rightarrow> db
                  | Some acc \<Rightarrow>
                      if t_session_key t = g_session_key updated \<and> unfinished t \<and>
                         c_session_id acc = g_session_id updated \<and> c_epoch acc = g_epoch updated \<and>
                         c_goal_id acc = g_goal_id updated \<and> c_task_id acc = tid
                      then
                        (let ctx = \<lparr>c_session_id = g_session_id updated, c_epoch = g_epoch updated,
                               c_goal_id = g_goal_id updated,
                               c_objective_revision = g_objective_revision updated,
                               c_objective = g_objective updated, c_task_id = tid,
                               c_continuation_seq = c_continuation_seq acc,
                               c_automatic = c_automatic acc\<rparr>;
                             pending = \<lparr>u_context = ctx, u_state_revision = g_state_revision updated,
                               u_accepted_at = timestamp, u_status = Pending\<rparr>;
                             details = dset update_key (PyDict (update_detail pending)) (details_of t)
                         in update_tasks (\<lambda>x. t_task_id x = tid \<and> unfinished x)
                              (\<lambda>x. x\<lparr>t_details := Some details, t_updated_at := timestamp\<rparr>) db)
                      else db)))"

definition edit_goal ::
    "string \<Rightarrow> expected_goal \<Rightarrow> pyval \<Rightarrow> goal_command \<Rightarrow> string option \<Rightarrow> int \<Rightarrow> session_db \<Rightarrow>
     goal_error + session_db \<times> command_result" where
  "edit_goal key expected objective cmd adoption_task_id timestamp db =
     (let session_key = canonicalize_session_key (Some key) in
      rbind (prepare_goal_command cmd ''edit'' session_key) (\<lambda>cmd.
      rbind (normalize_goal_objective objective) (\<lambda>objective.
      once cmd (\<lambda>db.
          rbind (require_expected_goal session_key expected db) (\<lambda>g.
          rbind (ensure (\<not> (g_status g = Complete \<and> g_active_task g \<noteq> None))
                   (Goal_Conflict ''GOAL_BUSY'' ''The completed Goal is still settling its terminal task''
                      (Some g))) (\<lambda>_.
          rbind (ensure (rowcount (fenced session_key expected) (goals db) = 1)
                   (Goal_Conflict ''STALE_GOAL'' ''The Goal changed before it could be edited'' None)) (\<lambda>_.
          let updated = edited objective timestamp g;
              db1 = update_goals (fenced session_key expected) (edited objective timestamp) db;
              db2 = adopt_edit adoption_task_id updated timestamp db1
          in Inr (answer cmd updated db2))))) db)))"

definition paused_by_user :: "string \<Rightarrow> int \<Rightarrow> goal_record \<Rightarrow> goal_record" where
  "paused_by_user reason timestamp g =
     g\<lparr>g_status := Paused, g_state_revision := g_state_revision g + 1, g_terminal_task := None,
       g_pause_reason := Some reason, g_terminal_reason := None, g_updated_at := timestamp,
       g_finished_at := None\<rparr>"

definition pause_goal ::
    "string \<Rightarrow> expected_goal \<Rightarrow> goal_command \<Rightarrow> string \<Rightarrow> int \<Rightarrow> session_db \<Rightarrow>
     goal_error + session_db \<times> command_result" where
  "pause_goal key expected cmd reason timestamp db =
     (let session_key = canonicalize_session_key (Some key) in
      rbind (prepare_goal_command cmd ''pause'' session_key) (\<lambda>cmd.
      rbind (normalize_goal_reason (PyStr reason)) (\<lambda>normalized.
      let reason = (case normalized of None \<Rightarrow> ''user'' | Some r \<Rightarrow> r) in
      once cmd (\<lambda>db.
          rbind (require_expected_goal session_key expected db) (\<lambda>g.
          rbind (ensure (g_status g = Active)
                   (Goal_Conflict ''GOAL_NOT_RESUMABLE'' ''Only an active Goal can be paused'' (Some g))) (\<lambda>_.
          Inr (answer cmd (paused_by_user reason timestamp g)
                 (update_goals (fenced session_key expected) (paused_by_user reason timestamp) db))))) db)))"

definition resumed :: "int \<Rightarrow> goal_record \<Rightarrow> goal_record" where
  "resumed timestamp g =
     g\<lparr>g_status := Active, g_state_revision := g_state_revision g + 1, g_terminal_task := None,
       g_window_turns := 0, g_window_time := 0, g_pause_reason := None, g_terminal_reason := None,
       g_updated_at := timestamp, g_finished_at := None\<rparr>"

definition resume_goal ::
    "string \<Rightarrow> expected_goal \<Rightarrow> goal_command \<Rightarrow> int \<Rightarrow> session_db \<Rightarrow>
     goal_error + session_db \<times> command_result" where
  "resume_goal key expected cmd timestamp db =
     (let session_key = canonicalize_session_key (Some key) in
      rbind (prepare_goal_command cmd ''resume'' session_key) (\<lambda>cmd.
      once cmd (\<lambda>db.
          rbind (require_expected_goal session_key expected db) (\<lambda>g.
          rbind (ensure (g_status g \<in> {Paused, Blocked, Usage_Limited})
                   (Goal_Conflict ''GOAL_NOT_RESUMABLE'' ''This Goal is not resumable'' (Some g))) (\<lambda>_.
          Inr (answer cmd (resumed timestamp g)
                 (update_goals (fenced session_key expected) (resumed timestamp) db))))) db))"

definition revoke_update :: "goal_record \<Rightarrow> session_db \<Rightarrow> session_db" where
  "revoke_update g db =
     (case g_active_task g of
        None \<Rightarrow> db
      | Some tid \<Rightarrow>
          (case task_of tid (tasks db) of
             None \<Rightarrow> db
           | Some t \<Rightarrow>
               (case update_from_detail (dget (details_of t) update_key) of
                  None \<Rightarrow> db
                | Some u \<Rightarrow>
                    if u_status u = Applied then db
                    else
                      (let details = dset update_key
                             (PyDict (update_detail (u\<lparr>u_status := Revoked\<rparr>))) (details_of t)
                       in update_tasks (\<lambda>x. t_task_id x = tid) (\<lambda>x. x\<lparr>t_details := Some details\<rparr>) db))))"

definition clear_goal ::
    "string \<Rightarrow> expected_goal \<Rightarrow> goal_command \<Rightarrow> session_db \<Rightarrow> goal_error + session_db \<times> command_result" where
  "clear_goal key expected cmd db =
     (let session_key = canonicalize_session_key (Some key) in
      rbind (prepare_goal_command cmd ''clear'' session_key) (\<lambda>cmd.
      once cmd (\<lambda>db.
          rbind (require_expected_goal session_key expected db) (\<lambda>g.
          let db1 = revoke_update g db in
          rbind (ensure (rowcount (fenced session_key expected) (goals db1) = 1)
                   (Goal_Conflict ''STALE_GOAL'' ''The Goal changed before it could be cleared'' None)) (\<lambda>_.
          let db2 = db1\<lparr>goals := sql_delete (fenced session_key expected) (goals db1)\<rparr>;
              response = mutation_response cmd None (g_session_id g) (g_epoch g) None None
                           (Some (g_goal_id g)) None
          in Inr (insert_receipt cmd (g_session_id g) (g_epoch g) response db2,
                  (response, None, False))))) db))"

section \<open>Objective edits consumed by the running task\<close>

text \<open>The task's update as stored, if the goal and its running task still match the caller's one.\<close>

definition live_update :: "objective_update \<Rightarrow> session_db \<Rightarrow> (agent_task \<times> objective_update) option" where
  "live_update u db =
     (let ctx = u_context u in
      case goal_of_id (c_goal_id ctx) (goals db) of
        None \<Rightarrow> None
      | Some g \<Rightarrow>
          if g_session_id g \<noteq> c_session_id ctx \<or> g_epoch g \<noteq> c_epoch ctx \<or>
             g_objective_revision g \<noteq> c_objective_revision ctx \<or> g_objective g \<noteq> c_objective ctx \<or>
             g_active_task g \<noteq> Some (c_task_id ctx) \<or> g_status g \<notin> {Active, Paused}
          then None
          else
            (case task_of (c_task_id ctx) (tasks db) of
               None \<Rightarrow> None
             | Some t \<Rightarrow>
                 (case update_from_detail (dget (details_of t) update_key) of
                    None \<Rightarrow> None
                  | Some stored \<Rightarrow>
                      if t_status t \<noteq> Running \<or> t_session_key t \<noteq> g_session_key g \<or>
                         u_context stored \<noteq> ctx \<or> u_state_revision stored \<noteq> u_state_revision u
                      then None else Some (t, stored))))"

definition claim_goal_objective_update ::
    "objective_update \<Rightarrow> int \<Rightarrow> session_db \<Rightarrow> session_db \<times> objective_update option" where
  "claim_goal_objective_update u timestamp db =
     (case live_update u db of
        None \<Rightarrow> (db, None)
      | Some (t, pending) \<Rightarrow>
          if u_status pending \<notin> {Pending, Claimed} then (db, None)
          else
            (let claimed = pending\<lparr>u_status := Claimed\<rparr>;
                 details = dset update_key (PyDict (update_detail claimed)) (details_of t)
             in (set_details (c_task_id (u_context u)) details timestamp db, Some claimed)))"

definition apply_goal_objective_update ::
    "objective_update \<Rightarrow> int \<Rightarrow> string \<Rightarrow> int \<Rightarrow> session_db \<Rightarrow> session_db \<times> objective_update option" where
  "apply_goal_objective_update u iteration model_call_id timestamp db =
     (case live_update u db of
        None \<Rightarrow> (db, None)
      | Some (t, claimed) \<Rightarrow>
          if u_status claimed \<noteq> Claimed then (db, None)
          else
            (let applied = claimed\<lparr>u_status := Applied\<rparr>;
                 applied_detail = update_detail applied @
                   [(''appliedIteration'', PyInt iteration), (''modelCallId'', PyStr model_call_id),
                    (''appliedAtMs'', PyInt timestamp)];
                 details = dset update_key (PyDict applied_detail)
                   (dset effective_key (context_detail (u_context u)) (details_of t))
             in (set_details (c_task_id (u_context u)) details timestamp db, Some applied)))"

section \<open>Binding a task to a goal\<close>

text \<open>The task's details once a goal owns it.\<close>

definition bind_details :: "goal_context \<Rightarrow> int \<Rightarrow> pydict \<Rightarrow> pydict" where
  "bind_details ctx collaboration_revision details =
     (let d1 = dset ''goal_context'' (context_detail ctx) (dpop ''goal_candidate'' details);
          metadata = (case as_dict (dget d1 ''metadata'') of None \<Rightarrow> [] | Some m \<Rightarrow> m);
          m1 = dset ''required_collaboration_mode'' (PyStr ''default'') metadata;
          m2 = dset ''required_collaboration_revision'' (PyInt collaboration_revision) m1
      in dset ''metadata'' (PyDict m2) d1)"

text \<open>The partial unique index on \<open>active_task_id\<close>: no second goal may own the task.\<close>

definition owner_free :: "string \<Rightarrow> string \<Rightarrow> session_db \<Rightarrow> bool" where
  "owner_free session_key task_id db =
     (\<forall>g \<in> set (goals db). g_session_key g \<noteq> session_key \<longrightarrow> g_active_task g \<noteq> Some task_id)"

definition check_guardrails :: "int \<Rightarrow> int \<Rightarrow> goal_error + unit" where
  "check_guardrails max_turns runtime_budget_seconds =
     rbind (ensure (1 \<le> max_turns \<and> max_turns \<le> 500)
              (Goal_Invalid ''INVALID_GOAL_GUARDRAIL'' ''max_turns must be between 1 and 500'')) (\<lambda>_.
     ensure (60 \<le> runtime_budget_seconds \<and> runtime_budget_seconds \<le> 86400)
       (Goal_Invalid ''INVALID_GOAL_GUARDRAIL'' ''runtime_budget_seconds must be between 60 and 86400''))"

definition guardrail_reason :: "int \<Rightarrow> int \<Rightarrow> goal_record \<Rightarrow> string option" where
  "guardrail_reason max_turns runtime_budget_seconds g =
     (if g_window_turns g \<ge> max_turns then Some ''turn_limit''
      else if g_window_time g \<ge> runtime_budget_seconds * 1000 then Some ''runtime_limit''
      else None)"

definition guardrail_paused :: "string \<Rightarrow> int \<Rightarrow> goal_record \<Rightarrow> goal_record" where
  "guardrail_paused reason timestamp g =
     g\<lparr>g_status := Paused, g_state_revision := g_state_revision g + 1, g_pause_reason := Some reason,
       g_terminal_reason := Some reason, g_updated_at := timestamp\<rparr>"

definition continued :: "string \<Rightarrow> int \<Rightarrow> int \<Rightarrow> goal_record \<Rightarrow> goal_record" where
  "continued task_id next_seq timestamp g =
     g\<lparr>g_active_task := Some task_id, g_terminal_task := None, g_continuation_seq := next_seq,
       g_turns_started := g_turns_started g + 1, g_window_turns := g_window_turns g + 1,
       g_state_revision := g_state_revision g + 1, g_updated_at := timestamp\<rparr>"

text \<open>The row a continuation may change: the fenced one, still idle and active.\<close>

definition idle_fenced :: "goal_record \<Rightarrow> goal_record \<Rightarrow> bool" where
  "idle_fenced g r = (g_session_key r = g_session_key g \<and> g_goal_id r = g_goal_id g \<and>
     g_state_revision r = g_state_revision g \<and> g_active_task r = None \<and> g_status r = Active)"

datatype continuation = Accepted goal_record goal_context | Guardrail goal_record string

text \<open>The checks of a continuation before it is bound, in order; the goal and its session.\<close>

definition admit_continuation ::
    "expected_goal \<Rightarrow> int \<Rightarrow> string \<Rightarrow> workspace_guard option \<Rightarrow> session_db \<Rightarrow>
     goal_error + goal_record \<times> session_row" where
  "admit_continuation expected expected_seq key guard db =
     rbind (require_expected_goal key expected db) (\<lambda>g.
     rbind (ensure (g_status g = Active)
              (Goal_Conflict ''GOAL_NOT_RESUMABLE'' ''Only an active Goal can continue'' (Some g))) (\<lambda>_.
     rbind (ensure (g_active_task g = None)
              (Goal_Conflict ''GOAL_BUSY'' ''The Goal already owns a task'' (Some g))) (\<lambda>_.
     rbind (ensure (g_continuation_seq g = expected_seq)
              (Goal_Conflict ''STALE_GOAL'' ''The Goal continuation sequence changed'' (Some g))) (\<lambda>_.
     rbind (require_default_goal_mode g db) (\<lambda>_.
     case goal_session g db of
       None \<Rightarrow> Inl (Goal_Conflict ''SESSION_GENERATION_CHANGED''
                      ''The Goal session generation no longer exists'' (Some g))
     | Some s \<Rightarrow>
         rbind (verify_workspace_guard None key guard db) (\<lambda>_.
         rbind (require_idle_goal_session key None db) (\<lambda>_. Inr (g, s))))))))"

text \<open>Inserting the task and making it the goal's owner.\<close>

definition bind_continuation ::
    "(string \<Rightarrow> string) \<Rightarrow> agent_task \<Rightarrow> goal_record \<Rightarrow> session_row \<Rightarrow> int \<Rightarrow> session_db \<Rightarrow>
     goal_error + session_db \<times> continuation" where
  "bind_continuation uuid5_url task g s timestamp db =
     (let next_seq = g_continuation_seq g + 1; tid = t_task_id task in
      rbind (automatic_goal_task_id uuid5_url (g_goal_id g) (g_objective_revision g) next_seq) (\<lambda>expected_id.
      rbind (ensure (tid = expected_id)
               (Goal_Invalid ''INVALID_GOAL_COMMAND''
                  ''Automatic Goal task id does not match its continuation fence'')) (\<lambda>_.
      let ctx = (goal_turn_context g tid True)\<lparr>c_continuation_seq := next_seq\<rparr>;
          bound = task\<lparr>t_details := Some (bind_details ctx (s_collaboration_revision s) (details_of task))\<rparr>
      in rbind (insert_agent_task bound db) (\<lambda>db1.
         rbind (ensure (rowcount (idle_fenced g) (goals db1) = 1)
                  (Goal_Conflict ''STALE_GOAL'' ''The Goal changed before continuation acceptance'' None)) (\<lambda>_.
         rbind (ensure (owner_free (g_session_key g) tid db1) Integrity) (\<lambda>_.
         Inr (update_goals (idle_fenced g) (continued tid next_seq timestamp) db1,
              Accepted (continued tid next_seq timestamp g) ctx)))))))"

definition accept_goal_continuation ::
    "(string \<Rightarrow> string) \<Rightarrow> expected_goal \<Rightarrow> int \<Rightarrow> agent_task \<Rightarrow> int \<Rightarrow> int \<Rightarrow> workspace_guard option \<Rightarrow>
     int \<Rightarrow> session_db \<Rightarrow> goal_error + session_db \<times> continuation" where
  "accept_goal_continuation uuid5_url expected expected_seq task0 max_turns runtime_budget guard timestamp db =
     rbind (ensure (t_status task0 = Queued)
              (Goal_Invalid ''INVALID_GOAL_COMMAND'' ''A Goal continuation task must start queued'')) (\<lambda>_.
     rbind (check_guardrails max_turns runtime_budget) (\<lambda>_.
     let task = task0\<lparr>t_session_key := canonicalize_session_key (Some (t_session_key task0))\<rparr> in
     rbind (admit_continuation expected expected_seq (t_session_key task) guard db) (\<lambda>(g, s).
     case guardrail_reason max_turns runtime_budget g of
       Some reason \<Rightarrow>
         rbind (ensure (rowcount (idle_fenced g) (goals db) = 1)
                  (Goal_Conflict ''STALE_GOAL'' ''The Goal changed before guardrail evaluation'' None)) (\<lambda>_.
         Inr (update_goals (idle_fenced g) (guardrail_paused reason timestamp) db,
              Guardrail (guardrail_paused reason timestamp g) reason))
     | None \<Rightarrow> bind_continuation uuid5_url task g s timestamp db)))"

definition claimed_by :: "string \<Rightarrow> int \<Rightarrow> goal_record \<Rightarrow> goal_record" where
  "claimed_by task_id timestamp g =
     g\<lparr>g_active_task := Some task_id, g_terminal_task := None,
       g_turns_started := g_turns_started g + 1, g_window_turns := g_window_turns g + 1,
       g_state_revision := g_state_revision g + 1, g_updated_at := timestamp\<rparr>"

definition claimable :: "goal_candidate \<Rightarrow> goal_record \<Rightarrow> bool" where
  "claimable cand g = (g_session_id g = cand_session_id cand \<and> g_epoch g = cand_epoch cand \<and>
     g_goal_id g = cand_goal_id cand \<and> g_status g = Active \<and> g_active_task g = None)"

text \<open>The errors of the mode check that only mean that the claim does not happen.\<close>

fun soft_conflict :: "goal_error \<Rightarrow> bool" where
  "soft_conflict (Goal_Conflict c m g) =
     (c \<in> {''SESSION_GENERATION_CHANGED'', ''PLAN_MODE_ACTIVE'', ''PLAN_RUN_ACTIVE''})"
| "soft_conflict _ = False"

definition claim_goal_for_queued_task ::
    "goal_candidate \<Rightarrow> string \<Rightarrow> collaboration_mode \<Rightarrow> int \<Rightarrow> session_db \<Rightarrow>
     goal_error + session_db \<times> (goal_record \<times> goal_context) option" where
  "claim_goal_for_queued_task cand task_id frozen_mode timestamp db =
     (let skip = Inr (db, None) in
      if frozen_mode \<noteq> Default_Mode then skip
      else
        (case task_of task_id (tasks db) of
           None \<Rightarrow> skip
         | Some t \<Rightarrow>
             if t_status t \<noteq> Queued \<or>
                candidate_from_detail (dget (details_of t) ''goal_candidate'') \<noteq> Some cand
             then skip
             else
               (case goal_of_key (t_session_key t) (goals db) of
                  None \<Rightarrow> skip
                | Some g \<Rightarrow>
                    if \<not> claimable cand g then skip
                    else
                      (case require_default_goal_mode g db of
                         Inl e \<Rightarrow> if soft_conflict e then skip else Inl e
                       | Inr _ \<Rightarrow>
                           (case goal_session g db of
                              None \<Rightarrow> skip
                            | Some s \<Rightarrow>
                                if \<exists>x \<in> set (tasks db). t_session_key x = t_session_key t \<and>
                                     t_task_id x \<noteq> task_id \<and> t_status x = Running
                                then skip
                                else
                                  (let ctx = goal_turn_context g task_id False;
                                       details = bind_details ctx (s_collaboration_revision s) (details_of t);
                                       db1 = set_details task_id details timestamp db;
                                       idle = (\<lambda>r. g_session_key r = t_session_key t \<and>
                                                 g_goal_id r = g_goal_id g \<and> g_active_task r = None)
                                   in rbind (ensure (rowcount idle (goals db1) = 1)
                                               (Goal_Conflict ''STALE_GOAL''
                                                  ''The Goal changed during queued-task claim'' None)) (\<lambda>_.
                                      rbind (ensure (owner_free (t_session_key t) task_id db1) Integrity) (\<lambda>_.
                                      Inr (update_goals idle (claimed_by task_id timestamp) db1,
                                           Some (claimed_by task_id timestamp g, ctx))))))))))"

section \<open>Writes of the owning task\<close>

definition require_persisted_context ::
    "goal_context \<Rightarrow> string \<Rightarrow> goal_record \<Rightarrow> session_db \<Rightarrow> goal_error + agent_task" where
  "require_persisted_context ctx expected_session_key current db =
     (case task_of (c_task_id ctx) (tasks db) of
        None \<Rightarrow> Inl (Goal_Conflict ''STALE_GOAL'' ''The owning Goal task no longer exists'' (Some current))
      | Some t \<Rightarrow>
          if t_session_key t \<noteq> expected_session_key \<or> task_context t \<noteq> Some ctx
          then Inl (Goal_Conflict ''STALE_GOAL'' ''The task does not carry this Goal generation'' (Some current))
          else Inr t)"

text \<open>The row a write of the owning task addresses.\<close>

definition owned_row :: "goal_context \<Rightarrow> goal_record \<Rightarrow> bool" where
  "owned_row ctx g = (g_goal_id g = c_goal_id ctx \<and> g_objective_revision g = c_objective_revision ctx \<and>
     g_active_task g = Some (c_task_id ctx))"

definition finished_by_model :: "goal_status \<Rightarrow> string option \<Rightarrow> string \<Rightarrow> int \<Rightarrow> goal_record \<Rightarrow> goal_record" where
  "finished_by_model status reason task_id timestamp g =
     g\<lparr>g_status := status, g_state_revision := g_state_revision g + 1,
       g_terminal_task := Some task_id,
       g_blocked_reason := (if status = Blocked then reason else None), g_pause_reason := None,
       g_terminal_reason := Some (if status = Blocked then ''model_blocked'' else ''model_complete''),
       g_updated_at := timestamp,
       g_finished_at := (if status = Complete then Some timestamp else None)\<rparr>"

definition same_generation :: "goal_context \<Rightarrow> goal_record \<Rightarrow> bool" where
  "same_generation ctx g = (g_session_id g = c_session_id ctx \<and> g_epoch g = c_epoch ctx)"

text \<open>The same result may be committed again by the same task; anything else is too late.\<close>

definition commit_on_goal ::
    "goal_context \<Rightarrow> goal_status \<Rightarrow> string option \<Rightarrow> int \<Rightarrow> goal_record \<Rightarrow> session_db \<Rightarrow>
     goal_error + session_db \<times> goal_record" where
  "commit_on_goal ctx status reason timestamp g db =
     (if g_status g \<in> {Complete, Blocked}
      then (if g_status g = status \<and> g_terminal_task g = Some (c_task_id ctx) then Inr (db, g)
            else Inl (Goal_Conflict ''STALE_GOAL'' ''The Goal already has a different terminal result'' (Some g)))
      else
        rbind (ensure (g_status g \<in> {Active, Paused} \<and> g_active_task g = Some (c_task_id ctx))
                 (Goal_Conflict ''STALE_GOAL'' ''The task no longer owns this Goal'' (Some g))) (\<lambda>_.
        Inr (update_goals (owned_row ctx) (finished_by_model status reason (c_task_id ctx) timestamp) db,
             finished_by_model status reason (c_task_id ctx) timestamp g)))"

definition terminal_status :: "string \<Rightarrow> goal_error + goal_status" where
  "terminal_status text =
     (case goal_status_of text of
        Some Complete \<Rightarrow> Inr Complete
      | Some Blocked \<Rightarrow> Inr Blocked
      | _ \<Rightarrow> Inl (Goal_Invalid ''INVALID_GOAL_STATUS'' ''update_goal status must be complete or blocked''))"

definition commit_goal_terminal ::
    "goal_context \<Rightarrow> string \<Rightarrow> pyval \<Rightarrow> int \<Rightarrow> session_db \<Rightarrow> goal_error + session_db \<times> goal_record" where
  "commit_goal_terminal ctx status_text blocked_reason timestamp db =
     rbind (terminal_status status_text) (\<lambda>status.
     rbind (normalize_goal_reason blocked_reason) (\<lambda>reason.
     rbind (ensure (\<not> (status = Complete \<and> reason \<noteq> None))
              (Goal_Invalid ''INVALID_GOAL_REASON'' ''blocked reason is only valid for blocked Goals'')) (\<lambda>_.
     case goal_of_id (c_goal_id ctx) (goals db) of
       None \<Rightarrow> Inl (Goal_Conflict ''GOAL_NOT_FOUND'' ''The Goal no longer exists'' None)
     | Some g \<Rightarrow>
         rbind (ensure (same_generation ctx g \<and> g_objective_revision g = c_objective_revision ctx)
                  (Goal_Conflict ''STALE_GOAL'' ''The Goal objective changed before terminal commit'' (Some g))) (\<lambda>_.
         rbind (require_persisted_context ctx (g_session_key g) g db) (\<lambda>_.
         commit_on_goal ctx status reason timestamp g db)))))"

definition with_progress :: "pydict \<Rightarrow> int \<Rightarrow> goal_record \<Rightarrow> goal_record" where
  "with_progress progress timestamp g =
     g\<lparr>g_progress := Some progress, g_progress_revision := g_progress_revision g + 1,
       g_updated_at := timestamp\<rparr>"

definition update_goal_progress ::
    "goal_context \<Rightarrow> pyval \<Rightarrow> pyval \<Rightarrow> int \<Rightarrow> session_db \<Rightarrow> goal_error + session_db \<times> goal_record" where
  "update_goal_progress ctx explanation steps timestamp db =
     rbind (normalize_goal_progress explanation steps) (\<lambda>progress.
     case goal_of_id (c_goal_id ctx) (goals db) of
       None \<Rightarrow> Inl (Goal_Conflict ''GOAL_NOT_FOUND'' ''The Goal no longer exists'' None)
     | Some g \<Rightarrow>
         rbind (ensure (same_generation ctx g \<and> g_objective_revision g = c_objective_revision ctx \<and>
                        g_active_task g = Some (c_task_id ctx) \<and> g_status g \<in> {Active, Paused})
                  (Goal_Conflict ''STALE_GOAL'' ''The task no longer owns this Goal objective'' (Some g))) (\<lambda>_.
         rbind (require_persisted_context ctx (g_session_key g) g db) (\<lambda>_.
         Inr (update_goals (owned_row ctx) (with_progress progress timestamp) db,
              with_progress progress timestamp g))))"

section \<open>Settling the owning task\<close>

definition clip_usage :: "token_usage \<Rightarrow> token_usage" where
  "clip_usage u =
     \<lparr>input_tokens = max 0 (input_tokens u), output_tokens = max 0 (output_tokens u),
      reasoning_tokens = max 0 (reasoning_tokens u), cache_read_tokens = max 0 (cache_read_tokens u),
      cache_write_tokens = max 0 (cache_write_tokens u), total_tokens = max 0 (total_tokens u)\<rparr>"

definition turn_usage_totals :: "goal_context \<Rightarrow> session_db \<Rightarrow> token_usage" where
  "turn_usage_totals ctx db =
     clip_usage (foldl add_usage no_usage (map e_usage (filter (\<lambda>e. e_turn_id e = c_task_id ctx \<and>
       e_session_id e = c_session_id ctx \<and> e_epoch e = c_epoch ctx \<and> e_finalized e) (usage_events db))))"

record settlement =
  z_status :: goal_status
  z_pause :: "string option"
  z_blocked :: "string option"
  z_terminal :: "string option"
  z_finished :: "int option"

definition keep_settlement :: "goal_record \<Rightarrow> settlement" where
  "keep_settlement g =
     \<lparr>z_status = g_status g, z_pause = g_pause_reason g, z_blocked = g_blocked_reason g,
      z_terminal = g_terminal_reason g, z_finished = g_finished_at g\<rparr>"

definition settle_paused :: "string \<Rightarrow> settlement \<Rightarrow> settlement" where
  "settle_paused reason z = z\<lparr>z_status := Paused, z_pause := Some reason, z_terminal := Some reason\<rparr>"

definition py_or_str :: "string option \<Rightarrow> string option \<Rightarrow> string option" where
  "py_or_str a b = (case a of Some s \<Rightarrow> if s = [] then b else Some s | None \<Rightarrow> b)"

text \<open>
  The classification of a finished task for an active goal. The reason of a failure is
  normalised, which raises when the stored error class is too long.
\<close>

definition settle_active ::
    "int \<Rightarrow> int \<Rightarrow> bool \<Rightarrow> bool \<Rightarrow> bool \<Rightarrow> bool \<Rightarrow> goal_record \<Rightarrow> agent_task \<Rightarrow> int \<Rightarrow> settlement \<Rightarrow>
     goal_error + settlement" where
  "settle_active max_turns runtime_budget usage_limited successor_expected process_restart
       same_objective g t window_active_after z =
     (if usage_limited
      then Inr (z\<lparr>z_status := Usage_Limited, z_pause := Some ''usage_limited'', z_blocked := None,
                  z_terminal := Some ''usage_limited'', z_finished := None\<rparr>)
      else
        (case t_status t of
           Succeeded \<Rightarrow>
             if \<not> same_objective then Inr z
             else if g_window_turns g \<ge> max_turns then Inr (settle_paused ''turn_limit'' z)
             else if window_active_after \<ge> runtime_budget * 1000 then Inr (settle_paused ''runtime_limit'' z)
             else Inr z
         | Cancelled \<Rightarrow>
             if successor_expected then Inr (z\<lparr>z_status := Active, z_pause := None\<rparr>)
             else if process_restart then Inr (settle_paused ''process_restart'' z)
             else Inr (settle_paused ''user_cancelled'' z)
         | Abandoned \<Rightarrow> Inr (settle_paused ''process_restart'' z)
         | Queued \<Rightarrow> Inr z
         | Running \<Rightarrow> Inr z
         | _ \<Rightarrow>
             if t_error_class t = Some ''goal_checkpoint_required''
             then Inr ((settle_paused ''goal_checkpoint_required'' z)\<lparr>z_blocked := None\<rparr>)
             else
               rbind (normalize_goal_reason
                        (opt_str (py_or_str (t_error_class t)
                           (py_or_str (t_terminal_reason t) (Some ''turn_error''))))) (\<lambda>reason.
               Inr (z\<lparr>z_status := Blocked, z_pause := None, z_blocked := reason,
                      z_terminal := Some ''turn_error'', z_finished := None\<rparr>))))"

definition kept_terminal_task :: "goal_context \<Rightarrow> goal_record \<Rightarrow> string option" where
  "kept_terminal_task ctx g =
     (if g_status g \<in> {Complete, Blocked} \<and> g_terminal_task g = Some (c_task_id ctx)
      then g_terminal_task g else None)"

definition settled :: "settlement \<Rightarrow> string option \<Rightarrow> int \<Rightarrow> token_usage \<Rightarrow> int \<Rightarrow> goal_record \<Rightarrow> goal_record" where
  "settled z terminal_task duration_ms usage timestamp g =
     g\<lparr>g_status := z_status z, g_state_revision := g_state_revision g + 1, g_active_task := None,
       g_terminal_task := terminal_task, g_turns_settled := g_turns_settled g + 1,
       g_active_time := g_active_time g + duration_ms, g_window_time := g_window_time g + duration_ms,
       g_usage := add_usage (g_usage g) usage, g_pause_reason := z_pause z,
       g_blocked_reason := z_blocked z, g_terminal_reason := z_terminal z,
       g_finished_at := z_finished z, g_updated_at := timestamp\<rparr>"

text \<open>The row owned by the task, whatever its objective is by now.\<close>

definition owner_row :: "goal_context \<Rightarrow> goal_record \<Rightarrow> bool" where
  "owner_row ctx g = (g_goal_id g = c_goal_id ctx \<and> g_active_task g = Some (c_task_id ctx))"

definition task_duration :: "agent_task \<Rightarrow> int" where
  "task_duration t =
     (case (t_started_at t, t_finished_at t) of (Some a, Some b) \<Rightarrow> max 0 (b - a) | _ \<Rightarrow> 0)"

definition settle_goal_task ::
    "goal_context \<Rightarrow> int \<Rightarrow> int \<Rightarrow> bool \<Rightarrow> bool \<Rightarrow> bool \<Rightarrow> int \<Rightarrow> session_db \<Rightarrow>
     goal_error + session_db \<times> goal_record option" where
  "settle_goal_task ctx max_turns runtime_budget usage_limited successor_expected process_restart timestamp db =
     rbind (check_guardrails max_turns runtime_budget) (\<lambda>_.
     case task_of (c_task_id ctx) (tasks db) of
       None \<Rightarrow> Inl (Goal_Conflict ''GOAL_BUSY'' ''The authoritative Goal task is unavailable'' None)
     | Some t \<Rightarrow>
         rbind (ensure (\<not> unfinished t)
                  (Goal_Conflict ''GOAL_BUSY'' ''The Goal task has not reached a durable terminal state'' None)) (\<lambda>_.
         rbind (ensure (task_context t = Some ctx)
                  (Goal_Conflict ''STALE_GOAL'' ''The terminal task does not carry this Goal generation'' None)) (\<lambda>_.
         case goal_of_id (c_goal_id ctx) (goals db) of
           None \<Rightarrow> Inr (db, None)
         | Some g \<Rightarrow>
             if \<not> same_generation ctx g \<or> t_session_key t \<noteq> g_session_key g \<or>
                g_active_task g \<noteq> Some (c_task_id ctx)
             then Inr (db, None)
             else
               (let usage = turn_usage_totals ctx db;
                    duration_ms = task_duration t;
                    same_objective = (g_objective_revision g = c_objective_revision ctx);
                    z0 = keep_settlement g;
                    z1 = (if same_objective \<and> t_started_at t \<noteq> None \<and> g_status g \<in> {Active, Paused}
                          then z0\<lparr>z_blocked := None\<rparr> else z0)
                in rbind (if g_status g = Active
                          then settle_active max_turns runtime_budget usage_limited successor_expected
                                 process_restart same_objective g t (g_window_time g + duration_ms) z1
                          else Inr z1) (\<lambda>z.
                   let f = settled z (kept_terminal_task ctx g) duration_ms usage timestamp
                   in Inr (update_goals (owner_row ctx) f db, Some (f g)))))))"

definition compensated ::
    "string \<Rightarrow> string option \<Rightarrow> bool \<Rightarrow> int \<Rightarrow> token_usage \<Rightarrow> int \<Rightarrow> goal_record \<Rightarrow> goal_record" where
  "compensated reason terminal_task consumed duration_ms usage timestamp g =
     (let preserve = (g_status g \<in> {Complete, Blocked}) in
      g\<lparr>g_status := (if preserve then g_status g else Paused),
        g_state_revision := g_state_revision g + 1, g_active_task := None,
        g_terminal_task := terminal_task, g_turns_settled := g_turns_settled g + 1,
        g_active_time := g_active_time g + duration_ms, g_window_time := g_window_time g + duration_ms,
        g_usage := add_usage (g_usage g) usage,
        g_pause_reason := (if preserve then g_pause_reason g else Some reason),
        g_terminal_reason := (if preserve then g_terminal_reason g else Some reason),
        g_blocked_reason := (if g_status g \<in> {Active, Paused} \<and> consumed then None else g_blocked_reason g),
        g_updated_at := timestamp\<rparr>)"

definition abandon_task :: "string \<Rightarrow> string \<Rightarrow> int \<Rightarrow> session_db \<Rightarrow> session_db" where
  "abandon_task task_id reason timestamp db =
     update_tasks (\<lambda>t. t_task_id t = task_id \<and> unfinished t)
       (\<lambda>t. t\<lparr>t_status := Abandoned, t_terminal_reason := Some reason, t_updated_at := timestamp,
             t_finished_at := (case t_finished_at t of None \<Rightarrow> Some timestamp | Some f \<Rightarrow> Some f)\<rparr>) db"

definition compensate_goal_task ::
    "goal_context \<Rightarrow> string \<Rightarrow> int \<Rightarrow> session_db \<Rightarrow> goal_error + session_db \<times> goal_record option" where
  "compensate_goal_task ctx reason timestamp db =
     (case task_of (c_task_id ctx) (tasks db) of
        None \<Rightarrow> Inr (db, None)
      | Some t \<Rightarrow>
          rbind (ensure (task_context t = Some ctx)
                   (Goal_Conflict ''STALE_GOAL'' ''The compensated task does not carry this Goal generation'' None)) (\<lambda>_.
          let usage = turn_usage_totals ctx db;
              duration_ms = (case t_started_at t of
                 None \<Rightarrow> 0
               | Some a \<Rightarrow> max 0 ((case t_finished_at t of None \<Rightarrow> timestamp | Some f \<Rightarrow> f) - a));
              db1 = abandon_task (c_task_id ctx) reason timestamp db
          in case goal_of_id (c_goal_id ctx) (goals db1) of
               None \<Rightarrow> Inr (db1, None)
             | Some g \<Rightarrow>
                 if \<not> same_generation ctx g \<or> g_active_task g \<noteq> Some (c_task_id ctx) then Inr (db1, None)
                 else
                   (let consumed = (t_started_at t \<noteq> None \<and> g_objective_revision g = c_objective_revision ctx);
                        f = compensated reason (kept_terminal_task ctx g) consumed duration_ms usage timestamp
                    in Inr (update_goals (owner_row ctx) f db1, Some (f g)))))"

definition compensate_activation_failure ::
    "goal_context \<Rightarrow> string \<Rightarrow> int \<Rightarrow> session_db \<Rightarrow> goal_error + session_db \<times> goal_record option" where
  "compensate_activation_failure ctx reason timestamp db =
     rbind (ensure (reason \<in> {''activation_failed'', ''feature_disabled'', ''lease_revoked'', ''process_restart''})
              (Goal_Invalid ''INVALID_GOAL_COMMAND'' ''Invalid Goal activation compensation reason'')) (\<lambda>_.
     compensate_goal_task ctx reason timestamp db)"

definition compensate_persistence_failure ::
    "goal_context \<Rightarrow> int \<Rightarrow> session_db \<Rightarrow> goal_error + session_db \<times> goal_record option" where
  "compensate_persistence_failure ctx timestamp db = compensate_goal_task ctx ''persistence_error'' timestamp db"

section \<open>Lifecycle boundaries\<close>

definition system_paused :: "string \<Rightarrow> int \<Rightarrow> goal_record \<Rightarrow> goal_record" where
  "system_paused reason timestamp g =
     g\<lparr>g_status := Paused, g_state_revision := g_state_revision g + 1, g_terminal_task := None,
       g_pause_reason := Some reason, g_terminal_reason := Some reason, g_updated_at := timestamp,
       g_finished_at := None\<rparr>"

definition pause_goal_for_system ::
    "string \<Rightarrow> string \<Rightarrow> int \<Rightarrow> string \<Rightarrow> int \<Rightarrow> session_db \<Rightarrow> goal_error + session_db \<times> goal_record option" where
  "pause_goal_for_system key goal_id expected_revision reason timestamp db =
     (let session_key = canonicalize_session_key (Some key) in
      rbind (normalize_goal_reason (PyStr reason)) (\<lambda>normalized.
      let reason = (case normalized of None \<Rightarrow> ''system'' | Some r \<Rightarrow> r) in
      case goal_of_key session_key (goals db) of
        None \<Rightarrow> Inr (db, None)
      | Some g \<Rightarrow>
          if g_goal_id g \<noteq> goal_id \<or> g_state_revision g \<noteq> expected_revision \<or> g_status g \<noteq> Active
          then Inr (db, None)
          else Inr (update_goals (\<lambda>r. g_session_key r = session_key \<and> g_goal_id r = goal_id \<and>
                                      g_state_revision r = expected_revision)
                      (system_paused reason timestamp) db,
                    Some (system_paused reason timestamp g))))"

text \<open>
  The goal part of \<open>mark_abandoned_agent_tasks\<close>, the startup recovery. The owners are read
  before the statement that abandons unfinished tasks, and their last heartbeat is the cutoff.
\<close>

definition restart_settled :: "string \<Rightarrow> bool \<Rightarrow> int \<Rightarrow> token_usage \<Rightarrow> int \<Rightarrow> goal_record \<Rightarrow> goal_record" where
  "restart_settled reason started duration_ms usage timestamp g =
     (let act = (g_status g = Active) in
      g\<lparr>g_status := (if act then Paused else g_status g), g_state_revision := g_state_revision g + 1,
        g_active_task := None, g_turns_settled := g_turns_settled g + 1,
        g_active_time := g_active_time g + duration_ms, g_window_time := g_window_time g + duration_ms,
        g_usage := add_usage (g_usage g) usage,
        g_pause_reason := (if act then Some reason else g_pause_reason g),
        g_terminal_reason := (if act then Some reason else g_terminal_reason g),
        g_blocked_reason := (if g_status g \<in> {Active, Paused} \<and> started then None else g_blocked_reason g),
        g_updated_at := timestamp\<rparr>)"

definition restart_released :: "string \<Rightarrow> int \<Rightarrow> goal_record \<Rightarrow> goal_record" where
  "restart_released reason timestamp g =
     (let act = (g_status g = Active) in
      g\<lparr>g_status := (if act then Paused else g_status g), g_state_revision := g_state_revision g + 1,
        g_active_task := None, g_pause_reason := (if act then Some reason else g_pause_reason g),
        g_terminal_reason := (if act then Some reason else g_terminal_reason g),
        g_updated_at := timestamp\<rparr>)"

definition heartbeat_duration :: "agent_task \<Rightarrow> int" where
  "heartbeat_duration t =
     (case t_started_at t of
        None \<Rightarrow> 0
      | Some a \<Rightarrow> max 0 ((case t_finished_at t of None \<Rightarrow> t_updated_at t | Some f \<Rightarrow> f) - a))"

text \<open>Goals with the task that owns them, as the join reads them.\<close>

definition goal_owners :: "session_db \<Rightarrow> (goal_record \<times> agent_task) list" where
  "goal_owners db =
     List.map_filter (\<lambda>g. case g_active_task g of
          None \<Rightarrow> None
        | Some tid \<Rightarrow> map_option (\<lambda>t. (g, t)) (task_of tid (tasks db))) (goals db)"

definition settle_owner :: "string \<Rightarrow> int \<Rightarrow> session_db \<Rightarrow> goal_record \<times> agent_task \<Rightarrow> session_db" where
  "settle_owner reason timestamp db owner =
     (let g = fst owner; t = snd owner in
      case task_context t of
        None \<Rightarrow> db
      | Some ctx \<Rightarrow>
          if Some (c_task_id ctx) \<noteq> g_active_task g \<or> c_goal_id ctx \<noteq> g_goal_id g \<or>
             \<not> same_generation ctx g \<or> t_session_key t \<noteq> g_session_key g
          then db
          else update_goals (owner_row ctx)
                 (restart_settled reason (t_started_at t \<noteq> None) (heartbeat_duration t)
                    (turn_usage_totals ctx db) timestamp) db)"

definition restart_goals :: "string \<Rightarrow> int \<Rightarrow> (goal_record \<times> agent_task) list \<Rightarrow> session_db \<Rightarrow> session_db" where
  "restart_goals reason timestamp owners db =
     update_goals (\<lambda>g. g_status g = Active \<or> g_active_task g \<noteq> None) (restart_released reason timestamp)
       (foldl (settle_owner reason timestamp) db owners)"

text \<open>\<open>increment_epoch\<close>: a reset fences every older write by removing the goal.\<close>

definition increment_epoch :: "string \<Rightarrow> session_db \<Rightarrow> (session_db \<times> int) option" where
  "increment_epoch key db =
     (let session_key = canonicalize_session_key (Some key);
          rows = sql_update (\<lambda>s. s_session_key s = session_key) (\<lambda>s. s\<lparr>s_epoch := s_epoch s + 1\<rparr>) (sessions db);
          db' = db\<lparr>sessions := rows, goals := sql_delete (\<lambda>g. g_session_key g = session_key) (goals db)\<rparr>
      in map_option (\<lambda>s. (db', s_epoch s)) (session_of session_key rows))"

definition has_queued_goal_successor :: "string \<Rightarrow> goal_context \<Rightarrow> session_db \<Rightarrow> bool" where
  "has_queued_goal_successor session_key ctx db =
     (\<exists>t \<in> set (tasks db). t_session_key t = canonicalize_session_key (Some session_key) \<and>
        t_status t = Queued \<and>
        ((case candidate_from_detail (dget (details_of t) ''goal_candidate'') of
            None \<Rightarrow> False
          | Some c \<Rightarrow> cand_session_id c = c_session_id ctx \<and> cand_epoch c = c_epoch ctx \<and>
                      cand_goal_id c = c_goal_id ctx) \<or>
         (case context_from_detail (dget (details_of t) ''goal_context'') of
            None \<Rightarrow> False
          | Some c \<Rightarrow> c_session_id c = c_session_id ctx \<and> c_epoch c = c_epoch ctx \<and>
                      c_goal_id c = c_goal_id ctx)))"

section \<open>Goals at the acceptance of a user turn\<close>

text \<open>
  The goal part of \<open>accept_turn\<close>, for a turn with a new task; the transcript entry, the
  session update and the ingress receipt of the same transaction touch none of these tables.
\<close>

definition bind_accepted :: "goal_context \<Rightarrow> int \<Rightarrow> agent_task \<Rightarrow> agent_task" where
  "bind_accepted ctx collaboration_revision task =
     task\<lparr>t_details := Some (bind_details ctx collaboration_revision (details_of task))\<rparr>"

definition fresh_goal :: "goal_record \<Rightarrow> string \<Rightarrow> string \<Rightarrow> bool" where
  "fresh_goal g task_id message_id = (g_status g = Active \<and> g_state_revision g = 1 \<and>
     g_objective_revision g = 1 \<and> g_progress_revision g = 0 \<and> g_continuation_seq g = 0 \<and>
     g_active_task g = Some task_id \<and> g_source_message g = Some message_id \<and>
     g_terminal_task g = None \<and> g_turns_started g = 1 \<and> g_turns_settled g = 0 \<and> g_window_turns g = 1)"

definition insert_goal :: "goal_record \<Rightarrow> session_db \<Rightarrow> goal_error + session_db" where
  "insert_goal g db =
     (if goal_of_key (g_session_key g) (goals db) \<noteq> None \<or> goal_of_id (g_goal_id g) (goals db) \<noteq> None \<or>
         (g_active_task g \<noteq> None \<and> (\<exists>r \<in> set (goals db). g_active_task r = g_active_task g))
      then Inl Integrity else Inr (db\<lparr>goals := goals db @ [g]\<rparr>))"

text \<open>\<open>new_goal\<close> has built the row; it must still be the one for this task and message.\<close>

definition start_goal ::
    "goal_record \<Rightarrow> goal_command \<Rightarrow> agent_task \<Rightarrow> string \<Rightarrow> session_db \<Rightarrow> goal_error + session_db \<times> command_result" where
  "start_goal g cmd task message_id db =
     (let key = g_session_key g in
      rbind (ensure (fresh_goal g (t_task_id task) message_id)
               (Goal_Invalid ''INVALID_GOAL_COMMAND'' ''Goal set requires a fresh Goal bound to its first task'')) (\<lambda>_.
      let current = goal_of_key key (goals db) in
      rbind (case current of
               None \<Rightarrow> Inr ()
             | Some c \<Rightarrow>
                 rbind (ensure (g_status c = Complete)
                          (Goal_Conflict ''GOAL_ACTIVE'' ''An unfinished Goal already exists for this session'' current)) (\<lambda>_.
                 ensure (g_active_task c = None)
                   (Goal_Conflict ''GOAL_BUSY'' ''The completed Goal still owns an unsettled task'' current))) (\<lambda>_.
      rbind (require_default_goal_mode g db) (\<lambda>_.
      rbind (require_idle_goal_session key None db) (\<lambda>_.
      case goal_session g db of
        None \<Rightarrow> Inl (Goal_Conflict ''SESSION_GENERATION_CHANGED''
                       ''The session generation changed before Goal admission'' (Some g))
      | Some s \<Rightarrow>
          let db1 = db\<lparr>goals := sql_delete (\<lambda>r. g_session_key r = key) (goals db)\<rparr>;
              ctx = goal_turn_context g (t_task_id task) False
          in rbind (insert_goal g db1) (\<lambda>db2.
             rbind (insert_agent_task (bind_accepted ctx (s_collaboration_revision s) task) db2) (\<lambda>db3.
             let response = mutation_response cmd (Some g) (g_session_id g) (g_epoch g)
                   (Some (t_task_id task)) (Some message_id) (map_option g_goal_id current) (Some ''queued'')
             in Inr (insert_receipt cmd (g_session_id g) (g_epoch g) response db3,
                     (response, Some g, False)))))))))"

definition claimable_now :: "goal_record \<Rightarrow> session_db \<Rightarrow> bool" where
  "claimable_now g db =
     ((case goal_session g db of None \<Rightarrow> False | Some s \<Rightarrow> s_collaboration_mode s = Default_Mode) \<and>
      g_active_task g = None \<and>
      \<not> (\<exists>t \<in> set (tasks db). t_session_key t = g_session_key g \<and> unfinished t) \<and>
      \<not> (\<exists>p \<in> set (plan_runs db). p_session_key p = g_session_key g \<and> p_driver_kind p = ''manual'' \<and>
           p_status p \<in> set active_run_statuses))"

text \<open>
  A user turn claims the active goal of its session generation when nothing else runs there,
  and otherwise carries it as a candidate for \<open>claim_goal_for_queued_task\<close>.
\<close>

definition claim_current_goal ::
    "string \<Rightarrow> int \<Rightarrow> agent_task \<Rightarrow> int \<Rightarrow> session_db \<Rightarrow> goal_error + session_db \<times> goal_record option" where
  "claim_current_goal session_id epoch task timestamp db =
     (let key = t_session_key task;
          plain = task\<lparr>t_details := Some (dpop ''goal_candidate'' (details_of task))\<rparr>
      in case goal_of_key key (goals db) of
           None \<Rightarrow> rbind (insert_agent_task plain db) (\<lambda>db'. Inr (db', None))
         | Some g \<Rightarrow>
             if g_session_id g \<noteq> session_id \<or> g_epoch g \<noteq> epoch \<or> g_status g \<noteq> Active
             then rbind (insert_agent_task plain db) (\<lambda>db'. Inr (db', None))
             else if claimable_now g db
             then
               (let ctx = goal_turn_context g (t_task_id task) False;
                    rev = (case goal_session g db of None \<Rightarrow> 0 | Some s \<Rightarrow> s_collaboration_revision s);
                    idle = (\<lambda>r. g_session_key r = key \<and> g_goal_id r = g_goal_id g \<and>
                              g_active_task r = None \<and> g_status r = Active)
                in rbind (ensure (owner_free key (t_task_id task) db) Integrity) (\<lambda>_.
                   rbind (insert_agent_task (bind_accepted ctx rev task) db) (\<lambda>db1.
                   Inr (update_goals idle (claimed_by (t_task_id task) timestamp) db1,
                        Some (claimed_by (t_task_id task) timestamp g)))))
             else
               (let cand = \<lparr>cand_session_id = g_session_id g, cand_epoch = g_epoch g, cand_goal_id = g_goal_id g\<rparr>;
                    carried = task\<lparr>t_details := Some (dset ''goal_candidate'' (candidate_detail cand) (details_of task))\<rparr>
                in rbind (insert_agent_task carried db) (\<lambda>db'. Inr (db', None))))"

text \<open>\<open>GoalService.set\<close> as far as the store is concerned: build the row, then accept it.\<close>

definition set_goal ::
    "string \<Rightarrow> string \<Rightarrow> int \<Rightarrow> string \<Rightarrow> string \<Rightarrow> agent_task \<Rightarrow> string \<Rightarrow> goal_command \<Rightarrow> int \<Rightarrow> session_db \<Rightarrow>
     goal_error + session_db \<times> command_result" where
  "set_goal key session_id epoch objective goal_id task message_id cmd timestamp db =
     rbind (new_goal goal_id (canonicalize_session_key (Some key)) session_id epoch objective
              (Some (t_task_id task)) (Some message_id) timestamp) (\<lambda>g.
     rbind (prepare_goal_command cmd ''set'' (g_session_key g)) (\<lambda>cmd.
     once cmd (start_goal g cmd task message_id) db))"

end
