(* ===== verification/Plan_Types.thy ===== *)
theory Plan_Types
  imports Session_Db
begin

text \<open>
  Plans and their execution overlay (\<open>src/src/openstarry_code/session/plans.py\<close>): validation of a
  revision, the state of its steps, and the monotonic checkpoint that moves a run from step to
  step. A revision's steps are (id, title, details) triples; \<open>sha256\<close> is the hash of the hashing
  library, a parameter.
\<close>

section \<open>Errors and limits\<close>

text \<open>
  \<open>Unknown_Key\<close> is a \<open>KeyError\<close>, \<open>Stale_Epoch\<close> the error of \<open>_raise_stale_epoch\<close>, \<open>Broken_Constraint\<close>
  a constraint violation of SQLite, \<open>Unhashable_Status\<close> the \<open>TypeError\<close> of a set membership test.
\<close>

datatype plan_error =
    Plan_Invalid string
  | Plan_Conflict string
  | Run_Conflict string
  | Unknown_Key string
  | Stale_Epoch
  | Broken_Constraint
  | Unhashable_Status

definition max_plan_steps :: nat where "max_plan_steps = 64"

definition max_plan_title_chars :: nat where "max_plan_title_chars = 512"

definition max_plan_markdown_chars :: nat where "max_plan_markdown_chars = 100000"

definition max_plan_step_id_chars :: nat where "max_plan_step_id_chars = 128"

definition max_plan_step_title_chars :: nat where "max_plan_step_title_chars = 240"

definition max_plan_step_details_chars :: nat where "max_plan_step_details_chars = 4000"

definition max_plan_step_reason_chars :: nat where "max_plan_step_reason_chars = 2000"

definition plan_run_active_statuses :: "plan_run_status list" where
  "plan_run_active_statuses = [Run_Queued, Run_Running, Run_Paused, Run_Blocked]"

definition run_active :: "plan_run \<Rightarrow> bool" where
  "run_active p = (p_status p \<in> set plan_run_active_statuses)"

definition plan_run_terminal_statuses :: "plan_run_status list" where
  "plan_run_terminal_statuses = [Run_Completed, Run_Cancelled, Run_Superseded]"

definition plan_step_statuses :: "string list" where
  "plan_step_statuses = [''pending'', ''in_progress'', ''completed'', ''blocked'', ''skipped'']"

definition plan_step_terminal_statuses :: "string list" where
  "plan_step_terminal_statuses = [''completed'', ''skipped'']"

definition step_closed :: "step_state \<Rightarrow> bool" where
  "step_closed s = (st_status s \<in> set plan_step_terminal_statuses)"

section \<open>Validation of a revision\<close>

definition bounded_text :: "pyval \<Rightarrow> string \<Rightarrow> nat \<Rightarrow> plan_error + string" where
  "bounded_text value field maximum =
     (case as_str value of
        None \<Rightarrow> Inl (Plan_Invalid (field @ '' must be a string''))
      | Some raw \<Rightarrow>
          let normalized = py_strip raw in
          rbind (ensure (normalized \<noteq> []) (Plan_Invalid (field @ '' must not be empty''))) (\<lambda>_.
          rbind (ensure (length normalized \<le> maximum)
                   (Plan_Invalid (field @ '' exceeds '' @ nat_str maximum @ '' characters''))) (\<lambda>_.
          Inr normalized)))"

text \<open>\<open>_STEP_ID_PATTERN\<close>: a letter or digit, then up to 127 letters, digits, dots, underscores, colons or dashes.\<close>

definition id_start :: "char \<Rightarrow> bool" where
  "id_start c = (let n = code c in (48 \<le> n \<and> n \<le> 57) \<or> (65 \<le> n \<and> n \<le> 90) \<or> (97 \<le> n \<and> n \<le> 122))"

definition id_char :: "char \<Rightarrow> bool" where
  "id_char c = (id_start c \<or> c \<in> {CHR ''.'', CHR ''_'', CHR '':'', CHR ''-''})"

definition step_id_ok :: "string \<Rightarrow> bool" where
  "step_id_ok s =
     (case s of [] \<Rightarrow> False
      | c # cs \<Rightarrow> id_start c \<and> list_all id_char cs \<and> length cs \<le> max_plan_step_id_chars - 1)"

type_synonym plan_step = "string \<times> string \<times> string option"

abbreviation at_index :: "nat \<Rightarrow> string \<Rightarrow> string" where
  "at_index i rest \<equiv> ''steps['' @ nat_str i @ '']'' @ rest"

definition step_details :: "nat \<Rightarrow> pyval \<Rightarrow> plan_error + string option" where
  "step_details i v =
     (case v of
        PyNone \<Rightarrow> Inr None
      | _ \<Rightarrow> rbind (bounded_text v (at_index i ''.details'') max_plan_step_details_chars) (\<lambda>d. Inr (Some d)))"

definition normalize_plan_step :: "nat \<Rightarrow> string list \<Rightarrow> pyval \<Rightarrow> plan_error + plan_step" where
  "normalize_plan_step i seen raw =
     (case as_dict raw of
        None \<Rightarrow> Inl (Plan_Invalid (at_index i '' must be an object''))
      | Some d \<Rightarrow>
          (case as_str (dget_or d ''step_id'' (dget_or d ''stepId'' (PyStr (''step-'' @ nat_str (i + 1))))) of
             None \<Rightarrow> Inl (Plan_Invalid (at_index i ''.step_id must be a string''))
           | Some raw_id \<Rightarrow>
               let step_id = py_strip raw_id in
               rbind (ensure (step_id_ok step_id)
                        (Plan_Invalid (at_index i ''.step_id must be 1-128 portable identifier characters''))) (\<lambda>_.
               rbind (ensure (step_id \<notin> set seen) (Plan_Invalid (''duplicate plan step id: '' @ step_id))) (\<lambda>_.
               rbind (bounded_text (dget d ''title'') (at_index i ''.title'') max_plan_step_title_chars) (\<lambda>title.
               rbind (step_details i (dget d ''details'')) (\<lambda>details.
               Inr (step_id, title, details)))))))"

fun normalize_steps_from :: "nat \<Rightarrow> string list \<Rightarrow> pyval list \<Rightarrow> plan_error + plan_step list" where
  "normalize_steps_from i seen [] = Inr []"
| "normalize_steps_from i seen (raw # rest) =
     rbind (normalize_plan_step i seen raw) (\<lambda>step.
     rbind (normalize_steps_from (Suc i) (seen @ [fst step]) rest) (\<lambda>steps. Inr (step # steps)))"

definition normalize_plan_steps :: "pyval \<Rightarrow> plan_error + plan_step list" where
  "normalize_plan_steps value =
     (case value of
        PyList steps \<Rightarrow>
          rbind (ensure (steps \<noteq> []) (Plan_Invalid ''a plan must contain at least one step'')) (\<lambda>_.
          rbind (ensure (length steps \<le> max_plan_steps)
                   (Plan_Invalid ''a plan may contain at most 64 steps'')) (\<lambda>_.
          normalize_steps_from 0 [] steps))
      | _ \<Rightarrow> Inl (Plan_Invalid ''steps must be a sequence''))"

text \<open>The dictionary of a normalised step.\<close>

definition step_dict :: "plan_step \<Rightarrow> pyval" where
  "step_dict s =
     (case s of (i, t, d) \<Rightarrow>
        PyDict ([(''step_id'', PyStr i), (''title'', PyStr t)] @
                (case d of None \<Rightarrow> [] | Some x \<Rightarrow> [(''details'', PyStr x)])))"

definition plan_content_hash :: "(string \<Rightarrow> string) \<Rightarrow> string \<Rightarrow> string \<Rightarrow> plan_step list \<Rightarrow> string" where
  "plan_content_hash sha256 title markdown steps =
     sha256 (json_text (PyDict [(''title'', PyStr title), (''markdown'', PyStr markdown),
                                (''steps'', PyList (map step_dict steps))]))"

text \<open>A revision as a caller passes it: its steps are not yet normalised.\<close>

definition prepare_plan_revision ::
    "(string \<Rightarrow> string) \<Rightarrow> plan_revision \<Rightarrow> pyval \<Rightarrow> plan_error + plan_revision" where
  "prepare_plan_revision sha256 v raw_steps =
     rbind (bounded_text (PyStr (v_title v)) ''title'' max_plan_title_chars) (\<lambda>title.
     rbind (bounded_text (PyStr (v_markdown v)) ''markdown'' max_plan_markdown_chars) (\<lambda>markdown.
     rbind (normalize_plan_steps raw_steps) (\<lambda>steps.
     let expected = plan_content_hash sha256 title markdown steps in
     rbind (ensure (v_content_hash v = [] \<or> v_content_hash v = expected)
              (Plan_Invalid ''content_hash does not match the canonical plan body'')) (\<lambda>_.
     rbind (ensure (1 \<le> v_generation v) (Plan_Invalid ''generation must be positive'')) (\<lambda>_.
     rbind (ensure (v_revision_id v \<noteq> [] \<and> v_plan_id v \<noteq> [])
              (Plan_Invalid ''revision_id and plan_id are required'')) (\<lambda>_.
     rbind (ensure (v_session_id v \<noteq> []) (Plan_Invalid ''source_session_id is required'')) (\<lambda>_.
     rbind (ensure (0 \<le> v_epoch v) (Plan_Invalid ''source_epoch must be non-negative'')) (\<lambda>_.
     Inr (v\<lparr>v_title := title, v_markdown := markdown, v_steps := steps, v_content_hash := expected\<rparr>)))))))))"

text \<open>\<open>new_plan_revision\<close>; the ids drawn by default and the clock are arguments.\<close>

definition new_plan_revision ::
    "(string \<Rightarrow> string) \<Rightarrow> string \<Rightarrow> string \<Rightarrow> string \<Rightarrow> string \<Rightarrow> int \<Rightarrow> string \<Rightarrow> string \<Rightarrow> pyval \<Rightarrow>
     plan_revision option \<Rightarrow> string option \<Rightarrow> string option \<Rightarrow> int \<Rightarrow> plan_error + plan_revision" where
  "new_plan_revision sha256 revision_id plan_id session_key session_id epoch title markdown steps
       parent turn_id message_id created_at =
     prepare_plan_revision sha256
       \<lparr>v_revision_id = revision_id,
        v_plan_id = (case parent of None \<Rightarrow> plan_id | Some p \<Rightarrow> v_plan_id p),
        v_parent_revision = map_option v_revision_id parent,
        v_generation = (case parent of None \<Rightarrow> 1 | Some p \<Rightarrow> v_generation p + 1),
        v_session_key = session_key, v_session_id = session_id, v_epoch = epoch,
        v_turn_id = turn_id, v_message_id = message_id, v_title = title, v_markdown = markdown,
        v_steps = [], v_content_hash = [], v_created_at = created_at\<rparr> steps"

section \<open>The execution overlay\<close>

definition initial_plan_step_states :: "plan_step list \<Rightarrow> step_state list" where
  "initial_plan_step_states steps =
     map (\<lambda>(i, t, d). \<lparr>st_id = i, st_title = t, st_status = ''pending'', st_reason = None\<rparr>) steps"

fun check_plan_step_status :: "pyval \<Rightarrow> plan_error + string" where
  "check_plan_step_status (PyStr s) =
     (if s \<in> set plan_step_statuses then Inr s else Inl (Plan_Invalid (''invalid plan step status: '' @ s)))"
| "check_plan_step_status (PyList xs) = Inl Unhashable_Status"
| "check_plan_step_status (PyDict d) = Inl Unhashable_Status"
| "check_plan_step_status v = Inl (Plan_Invalid (''invalid plan step status: '' @ py_str v))"

definition state_reason :: "nat \<Rightarrow> string \<Rightarrow> pyval \<Rightarrow> plan_error + string option" where
  "state_reason i status v =
     (case v of
        PyNone \<Rightarrow> Inr None
      | _ \<Rightarrow>
          rbind (ensure (status = ''blocked'' \<or> status = ''skipped'')
                   (Plan_Invalid ''a step reason is valid only for blocked or skipped state'')) (\<lambda>_.
          rbind (bounded_text v (''step_states['' @ nat_str i @ ''].reason'') max_plan_step_reason_chars) (\<lambda>r.
          Inr (Some r))))"

definition normalize_step_state :: "nat \<Rightarrow> pyval \<Rightarrow> plan_step \<Rightarrow> plan_error + step_state" where
  "normalize_step_state i raw step =
     (case as_dict raw of
        None \<Rightarrow> Inl (Plan_Invalid (''step_states['' @ nat_str i @ ''] must be an object''))
      | Some d \<Rightarrow>
          rbind (ensure (dget_or d ''step_id'' (dget d ''stepId'') = PyStr (fst step))
                   (Plan_Invalid ''step_states must preserve revision step order and ids'')) (\<lambda>_.
          rbind (check_plan_step_status (dget d ''status'')) (\<lambda>status.
          rbind (state_reason i status (dget d ''reason'')) (\<lambda>reason.
          Inr \<lparr>st_id = fst step, st_title = fst (snd step), st_status = status, st_reason = reason\<rparr>))))"

fun normalize_states_from :: "nat \<Rightarrow> pyval list \<Rightarrow> plan_step list \<Rightarrow> plan_error + step_state list" where
  "normalize_states_from i (raw # raws) (step # steps) =
     rbind (normalize_step_state i raw step) (\<lambda>s.
     rbind (normalize_states_from (Suc i) raws steps) (\<lambda>ss. Inr (s # ss)))"
| "normalize_states_from i _ _ = Inr []"

definition normalize_plan_step_states :: "pyval list \<Rightarrow> plan_step list \<Rightarrow> plan_error + step_state list" where
  "normalize_plan_step_states states steps =
     rbind (ensure (length states = length steps)
              (Plan_Invalid ''step_states must cover every revision step exactly once'')) (\<lambda>_.
     normalize_states_from 0 states steps)"

text \<open>A run as a caller passes it, with the step states it brings.\<close>

definition prepare_plan_run :: "plan_run \<Rightarrow> pyval list \<Rightarrow> plan_revision \<Rightarrow> plan_error + plan_run" where
  "prepare_plan_run run raw_states revision =
     rbind (ensure (p_status run = Run_Queued) (Plan_Invalid ''a new plan run must start in queued status'')) (\<lambda>_.
     rbind (ensure (p_revision_id run = v_revision_id revision)
              (Plan_Invalid ''plan run revision does not match the selected revision'')) (\<lambda>_.
     rbind (ensure (p_run_id run \<noteq> [] \<and> p_session_id run \<noteq> []) (Plan_Invalid ''run_id and session_id are required'')) (\<lambda>_.
     rbind (ensure (0 \<le> p_epoch run) (Plan_Invalid ''session_epoch must be non-negative'')) (\<lambda>_.
     rbind (ensure (p_driver_kind run = ''manual'' \<or> p_driver_kind run = ''goal'')
              (Plan_Invalid ''driver_kind must be manual or goal'')) (\<lambda>_.
     rbind (ensure (\<not> (p_driver_kind run = ''goal'' \<and> (p_driver_id run = None \<or> p_driver_id run = Some [])))
              (Plan_Invalid ''goal-driven runs require driver_id'')) (\<lambda>_.
     rbind (ensure (p_state_revision run = 0) (Plan_Invalid ''a new plan run must start at state_revision 0'')) (\<lambda>_.
     rbind (case p_active_task run of
              None \<Rightarrow> Inr None
            | Some t \<Rightarrow> rbind (bounded_text (PyStr t) ''active_task_id'' 256) (\<lambda>x. Inr (Some x))) (\<lambda>active_task.
     rbind (if raw_states \<noteq> [] then normalize_plan_step_states raw_states (v_steps revision)
            else Inr (initial_plan_step_states (v_steps revision))) (\<lambda>states.
     rbind (ensure (\<forall>s \<in> set states. st_status s = ''pending'')
              (Plan_Invalid ''a new plan run must start with pending steps'')) (\<lambda>_.
     Inr (run\<lparr>p_steps := states, p_current_step := None, p_active_task := active_task,
              p_started_at := None, p_finished_at := None, p_pause_reason := None,
              p_terminal_reason := None\<rparr>)))))))))))"

section \<open>Checkpoints\<close>

text \<open>\<open>by_id\<close> of the code maps an id to the last state that carries it.\<close>

fun last_index :: "string \<Rightarrow> step_state list \<Rightarrow> nat option" where
  "last_index i [] = None"
| "last_index i (s # ss) =
     (case last_index i ss of Some k \<Rightarrow> Some (Suc k) | None \<Rightarrow> if st_id s = i then Some 0 else None)"

definition closing_reason :: "string \<Rightarrow> pyval \<Rightarrow> plan_error + string option" where
  "closing_reason step_status reason =
     (if step_status = ''blocked'' \<or> step_status = ''skipped''
      then rbind (bounded_text reason ''reason'' max_plan_step_reason_chars) (\<lambda>r. Inr (Some r))
      else Inr None)"

definition open_next :: "step_state list \<Rightarrow> plan_error + step_state list \<times> string option \<times> plan_run_status" where
  "open_next states =
     (case find (\<lambda>s. \<not> step_closed s) states of
        None \<Rightarrow> Inl (Plan_Invalid ''next_step_id must identify a non-terminal plan step'')
      | Some s \<Rightarrow>
          (case last_index (st_id s) states of
             None \<Rightarrow> Inl (Plan_Invalid ''next_step_id must identify a non-terminal plan step'')
           | Some k \<Rightarrow>
               if step_closed (states ! k)
               then Inl (Plan_Invalid ''next_step_id cannot identify a terminal plan step'')
               else Inr (states[k := (states ! k)\<lparr>st_status := ''in_progress''\<rparr>], Some (st_id s), Run_Running)))"

definition after_checkpoint ::
    "string \<Rightarrow> string \<Rightarrow> step_state list \<Rightarrow> plan_error + step_state list \<times> string option \<times> plan_run_status" where
  "after_checkpoint step_id step_status updated =
     (if step_status = ''blocked'' then Inr (updated, Some step_id, Run_Blocked)
      else if step_status = ''in_progress'' then Inr (updated, Some step_id, Run_Running)
      else if list_all step_closed updated then Inr (updated, None, Run_Running)
      else open_next updated)"

text \<open>\<open>checkpoint_plan_step_states\<close>; its argument \<open>next_step_id\<close> is ignored by the code.\<close>

definition checkpoint_plan_step_states ::
    "step_state list \<Rightarrow> string \<Rightarrow> string \<Rightarrow> pyval \<Rightarrow>
     plan_error + step_state list \<times> string option \<times> plan_run_status" where
  "checkpoint_plan_step_states states step_id step_status reason =
     rbind (ensure (step_status \<in> {''in_progress'', ''completed'', ''blocked'', ''skipped''})
              (Plan_Invalid (''invalid checkpoint step status: '' @ step_status))) (\<lambda>_.
     case last_index step_id states of
       None \<Rightarrow> Inl (Plan_Invalid (''unknown plan step id: '' @ step_id))
     | Some k \<Rightarrow>
         rbind (ensure (\<not> step_closed (states ! k))
                  (Plan_Invalid (''terminal plan step cannot transition from '' @ st_status (states ! k)))) (\<lambda>_.
         rbind (closing_reason step_status reason) (\<lambda>r.
         after_checkpoint step_id step_status
           (states[k := (states ! k)\<lparr>st_status := step_status, st_reason := r\<rparr>]))))"

section \<open>Snapshots\<close>

definition plan_revision_snapshot :: "plan_revision \<Rightarrow> bool \<Rightarrow> pydict" where
  "plan_revision_snapshot v current =
     [(''revisionId'', PyStr (v_revision_id v)), (''planId'', PyStr (v_plan_id v)),
      (''parentRevisionId'', opt_str (v_parent_revision v)), (''generation'', PyInt (v_generation v)),
      (''title'', PyStr (v_title v)), (''markdown'', PyStr (v_markdown v)),
      (''steps'', PyList (map (\<lambda>(i, t, d). PyDict ([(''stepId'', PyStr i), (''title'', PyStr t)] @
          (case d of None \<Rightarrow> [] | Some x \<Rightarrow> [(''details'', PyStr x)]))) (v_steps v))),
      (''current'', PyBool current), (''createdAt'', PyInt (v_created_at v))]"

definition plan_run_snapshot :: "plan_run \<Rightarrow> pydict" where
  "plan_run_snapshot p =
     [(''runId'', PyStr (p_run_id p)), (''planRevisionId'', PyStr (p_revision_id p)),
      (''status'', PyStr (plan_run_status_value (p_status p))), (''currentStepId'', opt_str (p_current_step p)),
      (''steps'', PyList (map (\<lambda>s. PyDict ([(''stepId'', PyStr (st_id s)), (''title'', PyStr (st_title s)),
          (''status'', PyStr (st_status s))] @
          (case st_reason s of None \<Rightarrow> [] | Some r \<Rightarrow> [(''reason'', PyStr r)]))) (p_steps p))),
      (''stateRevision'', PyInt (p_state_revision p)), (''driverKind'', PyStr (p_driver_kind p)),
      (''driverId'', opt_str (p_driver_id p)), (''activeTaskId'', opt_str (p_active_task p)),
      (''pauseReason'', opt_str (p_pause_reason p)), (''terminalReason'', opt_str (p_terminal_reason p)),
      (''createdAt'', PyInt (p_created_at p)), (''updatedAt'', PyInt (p_updated_at p)),
      (''startedAt'', opt_int (p_started_at p)), (''finishedAt'', opt_int (p_finished_at p))]"

end
