(* ===== verification/Plan_Store.thy ===== *)
theory Plan_Store
  imports Plan_Types
begin

text \<open>
  Plan revisions and plan runs in \<open>SessionStorage\<close> (\<open>src/src/openstarry_code/session/storage.py\<close>):
  the collaboration mode of a session, creating revisions, starting a run, and the compare-and-set
  transitions of a run. The clock reading is the argument \<open>now\<close>.
\<close>

section \<open>Collaboration mode\<close>

definition collaboration_mode_of :: "string \<Rightarrow> collaboration_mode option" where
  "collaboration_mode_of s =
     (if s = ''default'' then Some Default_Mode else if s = ''plan'' then Some Plan_Mode else None)"

definition update_sessions ::
    "(session_row \<Rightarrow> bool) \<Rightarrow> (session_row \<Rightarrow> session_row) \<Rightarrow> session_db \<Rightarrow> session_db" where
  "update_sessions p f db = db\<lparr>sessions := sql_update p f (sessions db)\<rparr>"

definition set_collaboration_mode ::
    "string \<Rightarrow> string \<Rightarrow> int \<Rightarrow> int \<Rightarrow> session_db \<Rightarrow> plan_error + session_db \<times> session_row" where
  "set_collaboration_mode key mode expected_revision now db =
     (let session_key = canonicalize_session_key (Some key);
          row = (\<lambda>s. s_session_key s = session_key \<and> s_collaboration_revision s = expected_revision)
      in case collaboration_mode_of mode of
           None \<Rightarrow> Inl (Plan_Invalid (''unsupported collaboration mode: '' @ mode))
         | Some m \<Rightarrow>
             rbind (ensure (0 \<le> expected_revision)
                      (Plan_Invalid ''expected_revision must be non-negative'')) (\<lambda>_.
             case session_of session_key (sessions db) of
               None \<Rightarrow> Inl (Unknown_Key (''Session not found: '' @ session_key))
             | Some s \<Rightarrow>
                 rbind (ensure (s_collaboration_revision s = expected_revision)
                          (Plan_Conflict ''collaboration state changed before the mode update'')) (\<lambda>_.
                 if s_collaboration_mode s = m then Inr (db, s)
                 else
                   (let f = (\<lambda>s. s\<lparr>s_collaboration_mode := m,
                               s_collaboration_revision := s_collaboration_revision s + 1,
                               s_updated_at := now\<rparr>)
                    in rbind (ensure (rowcount row (sessions db) \<noteq> 0)
                                (Plan_Conflict ''collaboration state changed before the mode update'')) (\<lambda>_.
                       Inr (update_sessions row f db, f s))))))"

section \<open>Revisions\<close>

definition message_revision :: "plan_revision \<Rightarrow> plan_revision list \<Rightarrow> plan_revision option" where
  "message_revision v rows =
     find (\<lambda>r. v_session_id r = v_session_id v \<and> v_message_id r \<noteq> None \<and> v_message_id r = v_message_id v) rows"

definition find_idempotent_plan_revision :: "plan_revision \<Rightarrow> session_db \<Rightarrow> plan_error + plan_revision option" where
  "find_idempotent_plan_revision v db =
     (let by_id = revision_of (v_revision_id v) (plan_revisions db);
          found = (if by_id = None \<and> v_message_id v \<noteq> None \<and> v_message_id v \<noteq> Some []
                   then message_revision v (plan_revisions db) else by_id)
      in case found of
           None \<Rightarrow> Inr None
         | Some r \<Rightarrow>
             rbind (ensure (v_content_hash r = v_content_hash v \<and> v_parent_revision r = v_parent_revision v \<and>
                            v_session_key r = v_session_key v \<and> v_session_id r = v_session_id v \<and>
                            v_epoch r = v_epoch v)
                      (Plan_Conflict ''revision identity was already used for different plan content'')) (\<lambda>_.
             Inr (Some r)))"

definition active_run_of :: "string \<Rightarrow> session_db \<Rightarrow> plan_run option" where
  "active_run_of session_key db = find (\<lambda>p. p_session_key p = session_key \<and> run_active p) (plan_runs db)"

definition check_lineage :: "plan_revision \<Rightarrow> string option \<Rightarrow> session_db \<Rightarrow> plan_error + unit" where
  "check_lineage v expected_parent db =
     (case expected_parent of
        None \<Rightarrow> ensure (v_generation v = 1) (Plan_Invalid ''an initial plan revision must use generation 1'')
      | Some pid \<Rightarrow>
          (case revision_of pid (plan_revisions db) of
             None \<Rightarrow> Inl (Plan_Conflict ''parent plan revision no longer exists'')
           | Some parent \<Rightarrow>
               rbind (ensure (v_plan_id v = v_plan_id parent) (Plan_Invalid ''a replan must preserve plan_id'')) (\<lambda>_.
               ensure (v_generation v = v_generation parent + 1)
                 (Plan_Invalid ''a replan generation must immediately follow its parent''))))"

text \<open>The unique indexes of the table.\<close>

definition insert_plan_revision :: "plan_revision \<Rightarrow> session_db \<Rightarrow> plan_error + session_db" where
  "insert_plan_revision v db =
     (if \<exists>r \<in> set (plan_revisions db). v_revision_id r = v_revision_id v \<or>
           (v_plan_id r = v_plan_id v \<and> v_generation r = v_generation v) \<or>
           (v_message_id v \<noteq> None \<and> v_session_id r = v_session_id v \<and> v_message_id r = v_message_id v)
      then Inl Broken_Constraint
      else Inr (db\<lparr>plan_revisions := plan_revisions db @ [v]\<rparr>))"

definition superseded :: "string \<Rightarrow> int \<Rightarrow> plan_run \<Rightarrow> plan_run" where
  "superseded reason timestamp p =
     p\<lparr>p_status := Run_Superseded, p_state_revision := p_state_revision p + 1, p_active_task := None,
       p_terminal_reason := Some reason, p_updated_at := timestamp, p_finished_at := Some timestamp\<rparr>"

definition retire :: "plan_run option \<Rightarrow> string \<Rightarrow> int \<Rightarrow> session_db \<Rightarrow> session_db" where
  "retire act reason timestamp db =
     (case act of
        None \<Rightarrow> db
      | Some p \<Rightarrow> update_runs (\<lambda>r. p_run_id r = p_run_id p) (superseded reason timestamp) db)"

definition activate_revision :: "plan_revision \<Rightarrow> string option \<Rightarrow> session_db \<Rightarrow> session_db" where
  "activate_revision v expected_parent db =
     update_sessions
       (\<lambda>s. s_session_key s = v_session_key v \<and> s_session_id s = v_session_id v \<and>
            s_epoch s = v_epoch v \<and> s_active_plan_revision s = expected_parent)
       (\<lambda>s. s\<lparr>s_active_plan_revision := Some (v_revision_id v),
              s_collaboration_revision := s_collaboration_revision s + 1,
              s_updated_at := max (s_updated_at s) (v_created_at v)\<rparr>) db"

text \<open>\<open>_create_plan_revision_on_conn\<close> without a transcript entry.\<close>

definition create_revision_row ::
    "plan_revision \<Rightarrow> string option \<Rightarrow> session_db \<Rightarrow> plan_error + session_db \<times> plan_revision" where
  "create_revision_row v expected_parent db =
     rbind (find_idempotent_plan_revision v db) (\<lambda>existing.
     case existing of
       Some r \<Rightarrow> Inr (db, r)
     | None \<Rightarrow>
         (case session_of (v_session_key v) (sessions db) of
            None \<Rightarrow> Inl (Unknown_Key (''Session not found: '' @ v_session_key v))
          | Some s \<Rightarrow>
              rbind (ensure (s_session_id s = v_session_id v \<and> s_epoch s = v_epoch v) Stale_Epoch) (\<lambda>_.
              rbind (ensure (s_active_plan_revision s = expected_parent)
                       (Plan_Conflict ''active plan revision changed before the revision was committed'')) (\<lambda>_.
              rbind (ensure (v_parent_revision v = expected_parent)
                       (Plan_Invalid ''revision parent must match expected_parent_revision_id'')) (\<lambda>_.
              let act = active_run_of (v_session_key v) db in
              rbind (ensure (\<not> (\<exists>p. act = Some p \<and> p_status p \<in> {Run_Queued, Run_Running}))
                       (Run_Conflict ''cannot replace a plan while its implementation task is active'')) (\<lambda>_.
              rbind (check_lineage v expected_parent db) (\<lambda>_.
              rbind (insert_plan_revision v db) (\<lambda>db1.
              Inr (retire act ''superseded_by_new_revision'' (v_created_at v)
                     (activate_revision v expected_parent db1), v)))))))))"

definition create_plan_revision ::
    "(string \<Rightarrow> string) \<Rightarrow> plan_revision \<Rightarrow> pyval \<Rightarrow> string option \<Rightarrow> session_db \<Rightarrow>
     plan_error + session_db \<times> plan_revision" where
  "create_plan_revision sha256 v raw_steps expected_parent db =
     rbind (prepare_plan_revision sha256 v raw_steps) (\<lambda>prepared.
     create_revision_row
       (prepared\<lparr>v_session_key := canonicalize_session_key (Some (v_session_key prepared))\<rparr>)
       expected_parent db)"

definition get_current_plan_revision :: "string \<Rightarrow> session_db \<Rightarrow> plan_revision option" where
  "get_current_plan_revision key db =
     (case session_of (canonicalize_session_key (Some key)) (sessions db) of
        None \<Rightarrow> None
      | Some s \<Rightarrow>
          (case s_active_plan_revision s of
             None \<Rightarrow> None
           | Some i \<Rightarrow>
               if \<exists>p \<in> set (plan_runs db). p_revision_id p = i \<and> p_driver_kind p = ''goal'' then None
               else revision_of i (plan_revisions db)))"

section \<open>Starting a run\<close>

text \<open>Driver ids are compared with the empty one read as absent.\<close>

definition nonempty_id :: "string option \<Rightarrow> string option" where
  "nonempty_id d = (if d = Some [] then None else d)"

definition requeued :: "string \<Rightarrow> int \<Rightarrow> plan_run \<Rightarrow> plan_run" where
  "requeued task_id timestamp p =
     p\<lparr>p_status := Run_Queued, p_state_revision := p_state_revision p + 1, p_active_task := Some task_id,
       p_pause_reason := None, p_terminal_reason := None, p_updated_at := timestamp\<rparr>"

definition at_revision :: "string \<Rightarrow> int \<Rightarrow> plan_run \<Rightarrow> bool" where
  "at_revision run_id n p = (p_run_id p = run_id \<and> p_state_revision p = n)"

text \<open>The run exists already: it is returned, or queued again for another task.\<close>

definition attach_run :: "plan_run \<Rightarrow> plan_run \<Rightarrow> int \<Rightarrow> session_db \<Rightarrow> plan_error + session_db \<times> plan_run" where
  "attach_run existing run now db =
     rbind (ensure (p_session_key existing = p_session_key run \<and> p_session_id existing = p_session_id run \<and>
                    p_epoch existing = p_epoch run \<and> p_revision_id existing = p_revision_id run)
              (Run_Conflict ''run_id was already used for a different plan run'')) (\<lambda>_.
     rbind (ensure (p_driver_kind existing = p_driver_kind run \<and> p_driver_id existing = p_driver_id run)
              (Run_Conflict ''plan run is owned by a different execution driver'')) (\<lambda>_.
     let task = py_strip (case p_active_task run of None \<Rightarrow> [] | Some t \<Rightarrow> t) in
     if task = [] then Inr (db, existing)
     else if p_status existing = Run_Paused \<or> p_status existing = Run_Blocked
     then
       rbind (ensure (p_state_revision run = p_state_revision existing)
                (Run_Conflict ''the paused plan run changed before it was queued'')) (\<lambda>_.
       Inr (update_runs (at_revision (p_run_id run) (p_state_revision existing)) (requeued task now) db,
            requeued task now existing))
     else if p_status existing = Run_Queued \<and> p_active_task existing = Some task
     then Inr (db, existing)
     else Inl (Run_Conflict (''cannot attach a task to a '' @ plan_run_status_value (p_status existing) @ '' plan run''))))"

definition newest_created_at :: "string \<Rightarrow> session_db \<Rightarrow> int" where
  "newest_created_at session_key db =
     foldl max (-1) (map p_created_at (filter (\<lambda>p. p_session_key p = session_key) (plan_runs db)))"

definition check_active_run :: "plan_run option \<Rightarrow> plan_run \<Rightarrow> plan_error + unit" where
  "check_active_run act prepared =
     (case act of
        None \<Rightarrow> Inr ()
      | Some p \<Rightarrow>
          rbind (ensure (p_status p \<noteq> Run_Queued \<and> p_status p \<noteq> Run_Running)
                   (Run_Conflict ''an implementation task is already queued or running'')) (\<lambda>_.
          rbind (ensure (p_driver_kind p = p_driver_kind prepared \<and>
                         nonempty_id (p_driver_id p) = p_driver_id prepared)
                   (Run_Conflict ''the active plan run is owned by a different execution driver'')) (\<lambda>_.
          ensure (p_driver_kind p \<noteq> ''goal'')
            (Run_Conflict ''an active Goal plan run must be resumed by its existing run_id''))))"

text \<open>The new run takes the place of the one that is paused or blocked.\<close>

definition launch_run :: "plan_run \<Rightarrow> int \<Rightarrow> session_db \<Rightarrow> plan_error + session_db \<times> plan_run" where
  "launch_run prepared now db =
     (let act = active_run_of (p_session_key prepared) db;
          old = map_option p_run_id act;
          timestamp = max (max (p_created_at prepared) now) (newest_created_at (p_session_key prepared) db + 1);
          new = prepared\<lparr>p_supersedes := old, p_created_at := timestamp, p_updated_at := timestamp\<rparr>;
          db1 = retire act ''superseded_by_new_run'' timestamp db
      in rbind (ensure (p_supersedes prepared = None \<or> p_supersedes prepared = old)
                  (Run_Conflict ''the active run changed before implementation'')) (\<lambda>_.
         rbind (check_active_run act prepared) (\<lambda>_.
         Inr (db1\<lparr>plan_runs := plan_runs db1 @ [new]\<rparr>, new))))"

definition start_plan_run ::
    "plan_run \<Rightarrow> pyval list \<Rightarrow> int \<Rightarrow> session_db \<Rightarrow> plan_error + session_db \<times> plan_run" where
  "start_plan_run run0 raw_states now db =
     (let run = run0\<lparr>p_session_key := canonicalize_session_key (Some (p_session_key run0))\<rparr>;
          key = p_session_key run
      in case run_of (p_run_id run) (plan_runs db) of
           Some existing \<Rightarrow> attach_run existing run now db
         | None \<Rightarrow>
             (case session_of key (sessions db) of
                None \<Rightarrow> Inl (Unknown_Key (''Session not found: '' @ key))
              | Some s \<Rightarrow>
                  rbind (ensure (s_session_id s = p_session_id run \<and> s_epoch s = p_epoch run) Stale_Epoch) (\<lambda>_.
                  rbind (ensure (s_active_plan_revision s = Some (p_revision_id run))
                           (Plan_Conflict ''only the current plan revision can be implemented'')) (\<lambda>_.
                  case revision_of (p_revision_id run) (plan_revisions db) of
                    None \<Rightarrow> Inl (Plan_Conflict ''plan revision no longer exists'')
                  | Some revision \<Rightarrow>
                      rbind (prepare_plan_run run raw_states revision) (\<lambda>prepared.
                      launch_run prepared now db)))))"

definition get_active_plan_run :: "string \<Rightarrow> session_db \<Rightarrow> plan_run option" where
  "get_active_plan_run key db = active_run_of (canonicalize_session_key (Some key)) db"

definition supersede_active_plan_runs :: "string \<Rightarrow> string \<Rightarrow> int \<Rightarrow> session_db \<Rightarrow> session_db \<times> nat" where
  "supersede_active_plan_runs key reason timestamp db =
     (let row = (\<lambda>p. p_session_key p = canonicalize_session_key (Some key) \<and> run_active p)
      in (update_runs row (superseded reason timestamp) db, rowcount row (plan_runs db)))"

section \<open>Transitions of a run\<close>

definition load_plan_run_for_cas :: "string \<Rightarrow> int \<Rightarrow> session_db \<Rightarrow> plan_error + plan_run" where
  "load_plan_run_for_cas run_id expected db =
     (case run_of run_id (plan_runs db) of
        None \<Rightarrow> Inl (Unknown_Key (''Plan run not found: '' @ run_id))
      | Some p \<Rightarrow>
          rbind (ensure (p_state_revision p = expected)
                   (Run_Conflict ''plan run state changed before the update'')) (\<lambda>_.
          rbind (ensure (\<exists>s. session_of (p_session_key p) (sessions db) = Some s \<and>
                             s_session_id s = p_session_id p \<and> s_epoch s = p_epoch p)
                   (Run_Conflict ''plan run belongs to a stale session epoch'')) (\<lambda>_.
          Inr p)))"

text \<open>The update of a transition, at the revision that was checked, and the updated row.\<close>

definition cas :: "string \<Rightarrow> int \<Rightarrow> (plan_run \<Rightarrow> plan_run) \<Rightarrow> plan_run \<Rightarrow> session_db \<Rightarrow> session_db \<times> plan_run" where
  "cas run_id expected f p db = (update_runs (at_revision run_id expected) f db, f p)"

definition cannot :: "string \<Rightarrow> plan_run \<Rightarrow> string \<Rightarrow> plan_error" where
  "cannot verb p rest = Run_Conflict (''cannot '' @ verb @ '' a '' @ plan_run_status_value (p_status p) @ '' plan run'' @ rest)"

definition first_open :: "step_state list \<Rightarrow> string option" where
  "first_open states = map_option st_id (find (\<lambda>s. \<not> step_closed s) states)"

text \<open>The first state with the given id is put in progress.\<close>

fun start_step :: "string \<Rightarrow> step_state list \<Rightarrow> step_state list" where
  "start_step i [] = []"
| "start_step i (s # ss) =
     (if st_id s = i then s\<lparr>st_status := ''in_progress'', st_reason := None\<rparr> # ss else s # start_step i ss)"

definition started :: "step_state list \<Rightarrow> string option \<Rightarrow> string \<Rightarrow> int \<Rightarrow> plan_run \<Rightarrow> plan_run" where
  "started states current task_id timestamp p =
     p\<lparr>p_status := Run_Running, p_steps := states, p_current_step := current,
       p_state_revision := p_state_revision p + 1, p_active_task := Some task_id,
       p_pause_reason := None, p_terminal_reason := None,
       p_started_at := (case p_started_at p of None \<Rightarrow> Some timestamp | Some t \<Rightarrow> Some t),
       p_updated_at := timestamp\<rparr>"

text \<open>
  The revision of the run is compared before its status is looked at: a run of a stale revision
  becomes superseded, whatever its status.
\<close>

definition mark_plan_run_running ::
    "string \<Rightarrow> int \<Rightarrow> string \<Rightarrow> int \<Rightarrow> session_db \<Rightarrow> plan_error + session_db \<times> plan_run" where
  "mark_plan_run_running run_id expected task_id now db =
     rbind (ensure (task_id \<noteq> []) (Plan_Invalid ''active_task_id is required'')) (\<lambda>_.
     rbind (load_plan_run_for_cas run_id expected db) (\<lambda>p.
     if \<not> (\<exists>s. session_of (p_session_key p) (sessions db) = Some s \<and> s_session_id s = p_session_id p \<and>
              s_epoch s = p_epoch p \<and> s_active_plan_revision s = Some (p_revision_id p))
     then Inr (cas run_id expected (superseded ''stale_plan_revision'' now) p db)
     else
       rbind (ensure (p_status p \<in> {Run_Queued, Run_Paused, Run_Blocked})
                (cannot ''mark'' p '' as running'')) (\<lambda>_.
       rbind (ensure (p_active_task p = None \<or> p_active_task p = Some task_id)
                (Run_Conflict ''plan run is owned by another task'')) (\<lambda>_.
       let current = (case p_current_step p of None \<Rightarrow> first_open (p_steps p) | Some i \<Rightarrow> Some i);
           delivery_ready = (p_steps p \<noteq> [] \<and> list_all step_closed (p_steps p))
       in rbind (ensure (current \<noteq> None \<or> delivery_ready)
                   (Run_Conflict ''plan run has no resumable execution step'')) (\<lambda>_.
          let states = (case current of None \<Rightarrow> p_steps p | Some i \<Rightarrow> start_step i (p_steps p))
          in Inr (cas run_id expected (started states current task_id now) p db))))))"

definition checkpointed ::
    "plan_run_status \<Rightarrow> step_state list \<Rightarrow> string option \<Rightarrow> string option \<Rightarrow> int \<Rightarrow> plan_run \<Rightarrow> plan_run" where
  "checkpointed status states current reason timestamp p =
     p\<lparr>p_status := status, p_steps := states, p_current_step := current,
       p_state_revision := p_state_revision p + 1,
       p_active_task := (if status = Run_Blocked then None else p_active_task p),
       p_pause_reason := (if status = Run_Blocked then reason else None),
       p_terminal_reason := None, p_updated_at := timestamp, p_finished_at := None\<rparr>"

text \<open>The stored pause reason of a blocked run is the text as it was passed, not its normal form.\<close>

definition checkpoint_plan_run ::
    "string \<Rightarrow> int \<Rightarrow> string \<Rightarrow> string \<Rightarrow> string option \<Rightarrow> string option \<Rightarrow> int \<Rightarrow> session_db \<Rightarrow>
     plan_error + session_db \<times> plan_run" where
  "checkpoint_plan_run run_id expected step_id step_status expected_task reason now db =
     rbind (load_plan_run_for_cas run_id expected db) (\<lambda>p.
     rbind (ensure (p_status p = Run_Running) (cannot ''checkpoint'' p [])) (\<lambda>_.
     rbind (ensure (expected_task = None \<or> p_active_task p = expected_task)
              (Run_Conflict ''plan run is owned by another task'')) (\<lambda>_.
     rbind (ensure (p_current_step p = Some step_id)
              (Run_Conflict ''only the current plan step may be checkpointed'')) (\<lambda>_.
     rbind (checkpoint_plan_step_states (p_steps p) step_id step_status (opt_str reason)) (\<lambda>(states, current, status).
     Inr (cas run_id expected (checkpointed status states current reason now) p db))))))"

definition completed :: "int \<Rightarrow> plan_run \<Rightarrow> plan_run" where
  "completed timestamp p =
     p\<lparr>p_status := Run_Completed, p_state_revision := p_state_revision p + 1, p_active_task := None,
       p_pause_reason := None, p_terminal_reason := None, p_updated_at := timestamp,
       p_finished_at := Some timestamp\<rparr>"

definition complete_plan_run ::
    "string \<Rightarrow> int \<Rightarrow> string \<Rightarrow> int \<Rightarrow> session_db \<Rightarrow> plan_error + session_db \<times> plan_run" where
  "complete_plan_run run_id expected expected_task now db =
     rbind (ensure (expected_task \<noteq> []) (Plan_Invalid ''expected_active_task_id is required'')) (\<lambda>_.
     rbind (load_plan_run_for_cas run_id expected db) (\<lambda>p.
     rbind (ensure (p_status p = Run_Running) (cannot ''complete'' p [])) (\<lambda>_.
     rbind (ensure (p_active_task p = Some expected_task)
              (Run_Conflict ''plan run is owned by another task'')) (\<lambda>_.
     rbind (ensure (p_current_step p = None)
              (Run_Conflict ''plan run cannot complete before its final checkpoint'')) (\<lambda>_.
     rbind (ensure (p_steps p \<noteq> [] \<and> list_all step_closed (p_steps p))
              (Run_Conflict ''plan run cannot complete with unfinished steps'')) (\<lambda>_.
     Inr (cas run_id expected (completed now) p db)))))))"

definition reopened :: "string \<Rightarrow> int \<Rightarrow> plan_run \<Rightarrow> plan_run" where
  "reopened reason timestamp p =
     (let s = hd (p_steps p) in
      p\<lparr>p_status := Run_Paused,
        p_steps := s\<lparr>st_status := ''in_progress'', st_reason := None\<rparr> # tl (p_steps p),
        p_current_step := Some (st_id s), p_state_revision := p_state_revision p + 1,
        p_active_task := None, p_pause_reason := Some reason, p_terminal_reason := None,
        p_finished_at := None, p_updated_at := timestamp\<rparr>)"

text \<open>The partial unique index of active runs: one per session.\<close>

definition reopen_completed_plan_run ::
    "string \<Rightarrow> int \<Rightarrow> string \<Rightarrow> int \<Rightarrow> session_db \<Rightarrow> plan_error + session_db \<times> plan_run" where
  "reopen_completed_plan_run run_id expected raw_reason now db =
     (let reason = py_strip raw_reason in
      rbind (ensure (reason \<noteq> []) (Plan_Invalid ''reopen reason is required'')) (\<lambda>_.
      rbind (load_plan_run_for_cas run_id expected db) (\<lambda>p.
      rbind (ensure (p_status p = Run_Completed) (cannot ''reopen'' p [])) (\<lambda>_.
      rbind (ensure (p_steps p \<noteq> []) (Run_Conflict ''plan run has no steps to reopen'')) (\<lambda>_.
      rbind (ensure (active_run_of (p_session_key p) db = None) Broken_Constraint) (\<lambda>_.
      Inr (cas run_id expected (reopened reason now) p db)))))))"

definition paused :: "string \<Rightarrow> int \<Rightarrow> plan_run \<Rightarrow> plan_run" where
  "paused reason timestamp p =
     p\<lparr>p_status := Run_Paused, p_state_revision := p_state_revision p + 1, p_active_task := None,
       p_pause_reason := Some reason, p_updated_at := timestamp\<rparr>"

definition pause_plan_run ::
    "string \<Rightarrow> int \<Rightarrow> string \<Rightarrow> string option \<Rightarrow> string option \<Rightarrow> string option \<Rightarrow> int \<Rightarrow> session_db \<Rightarrow>
     plan_error + session_db \<times> plan_run" where
  "pause_plan_run run_id expected raw_reason expected_task driver_kind driver_id now db =
     (let reason = py_strip raw_reason in
      rbind (ensure (reason \<noteq> []) (Plan_Invalid ''pause reason is required'')) (\<lambda>_.
      rbind (load_plan_run_for_cas run_id expected db) (\<lambda>p.
      rbind (ensure (p_status p \<in> {Run_Queued, Run_Running, Run_Blocked}) (cannot ''pause'' p [])) (\<lambda>_.
      rbind (ensure (expected_task = None \<or> p_active_task p = expected_task)
               (Run_Conflict ''plan run is owned by another task'')) (\<lambda>_.
      rbind (ensure (driver_kind = None \<or> driver_kind = Some (p_driver_kind p))
               (Run_Conflict ''plan run is owned by a different execution driver'')) (\<lambda>_.
      rbind (ensure (driver_id = None \<or> p_driver_id p = driver_id)
               (Run_Conflict ''plan run is owned by a different execution driver'')) (\<lambda>_.
      Inr (cas run_id expected (paused reason now) p db))))))))"

definition cancelled :: "string \<Rightarrow> int \<Rightarrow> plan_run \<Rightarrow> plan_run" where
  "cancelled reason timestamp p =
     p\<lparr>p_status := Run_Cancelled, p_state_revision := p_state_revision p + 1, p_active_task := None,
       p_terminal_reason := Some reason, p_updated_at := timestamp, p_finished_at := Some timestamp\<rparr>"

definition cancel_plan_run ::
    "string \<Rightarrow> int \<Rightarrow> string \<Rightarrow> string option \<Rightarrow> int \<Rightarrow> session_db \<Rightarrow> plan_error + session_db \<times> plan_run" where
  "cancel_plan_run run_id expected raw_reason expected_task now db =
     (let reason = py_strip raw_reason in
      rbind (ensure (reason \<noteq> []) (Plan_Invalid ''cancel reason is required'')) (\<lambda>_.
      rbind (load_plan_run_for_cas run_id expected db) (\<lambda>p.
      rbind (ensure (run_active p) (cannot ''cancel'' p [])) (\<lambda>_.
      rbind (ensure (expected_task = None \<or> p_active_task p = expected_task)
               (Run_Conflict ''plan run is owned by another task'')) (\<lambda>_.
      Inr (cas run_id expected (cancelled reason now) p db))))))"

end
