(* ===== verification/Session_Recovery.thy ===== *)
theory Session_Recovery
  imports Goal_Store Plan_Store
begin

text \<open>
  The startup recovery of the session database, \<open>mark_abandoned_agent_tasks\<close>
  (\<open>src/src/openstarry_code/session/storage.py\<close>): one transaction that abandons the tasks of the
  previous process, settles and pauses its goals, and pauses, cancels or completes its plan runs.
  Both the goal and the plan histories contain it.
\<close>

section \<open>Agent tasks\<close>

text \<open>
  What the statements read of tables and columns that the rows here leave out: the tasks of the
  accepted meta control intents, and the sessions (by key) whose status is terminal.
\<close>

record restart_reads =
  accepted_control :: "string \<Rightarrow> bool"
  ended_session :: "string \<Rightarrow> bool"

definition restart_task :: "agent_task \<Rightarrow> bool" where
  "restart_task t = (unfinished t \<or> (t_status t = Abandoned \<and> t_terminal_reason t = Some ''process_restart''))"

definition awaits_control :: "restart_reads \<Rightarrow> session_db \<Rightarrow> agent_task \<Rightarrow> bool" where
  "awaits_control env db t =
     (t_status t = Queued \<and> accepted_control env (t_task_id t) \<and>
      (\<exists>s \<in> set (sessions db). s_session_key s = t_session_key t \<and> \<not> ended_session env (s_session_key s)))"

definition abandoned_at_restart :: "restart_reads \<Rightarrow> session_db \<Rightarrow> int \<Rightarrow> agent_task \<Rightarrow> agent_task" where
  "abandoned_at_restart env db timestamp t =
     t\<lparr>t_status := Abandoned, t_updated_at := timestamp,
       t_finished_at := (case t_finished_at t of None \<Rightarrow> Some timestamp | Some f \<Rightarrow> Some f),
       t_terminal_reason :=
         (if awaits_control env db t then Some ''meta_control_restart_before_start''
          else case t_terminal_reason t of None \<Rightarrow> Some ''process_restart'' | Some r \<Rightarrow> Some r)\<rparr>"

definition restart_outcome :: pyval where
  "restart_outcome =
     PyDict [(''kind'', PyStr ''interrupted''), (''reason'', PyStr ''process_restart''),
             (''error_class'', PyStr ''process_restart''), (''retryable'', PyBool True)]"

definition ended_by_restart :: "agent_task \<Rightarrow> bool" where
  "ended_by_restart t = (t_status t = Abandoned \<and> t_terminal_reason t = Some ''process_restart'')"

text \<open>The details are those read before the tasks are abandoned.\<close>

definition note_outcome :: "session_db \<Rightarrow> agent_task \<Rightarrow> session_db" where
  "note_outcome db t =
     update_tasks (\<lambda>r. t_task_id r = t_task_id t \<and> ended_by_restart r)
       (\<lambda>r. r\<lparr>t_details := Some (dset ''turn_outcome'' restart_outcome (details_of t))\<rparr>) db"

definition restart_tasks :: "restart_reads \<Rightarrow> int \<Rightarrow> session_db \<Rightarrow> session_db" where
  "restart_tasks env timestamp db =
     foldl note_outcome (update_tasks unfinished (abandoned_at_restart env db timestamp) db)
       (filter restart_task (tasks db))"

section \<open>Plan runs\<close>

definition run_halted :: "string \<Rightarrow> int \<Rightarrow> plan_run \<Rightarrow> plan_run" where
  "run_halted reason timestamp p =
     p\<lparr>p_status := Run_Paused, p_state_revision := p_state_revision p + 1, p_active_task := None,
       p_pause_reason := Some reason, p_terminal_reason := Some reason, p_updated_at := timestamp,
       p_finished_at := None\<rparr>"

definition run_never_started :: "int \<Rightarrow> plan_run \<Rightarrow> plan_run" where
  "run_never_started timestamp p =
     p\<lparr>p_status := Run_Cancelled, p_state_revision := p_state_revision p + 1, p_active_task := None,
       p_pause_reason := None, p_terminal_reason := Some ''implementation_turn_ended_before_start'',
       p_updated_at := timestamp, p_finished_at := Some timestamp\<rparr>"

definition run_left :: "string \<Rightarrow> int \<Rightarrow> plan_run \<Rightarrow> plan_run" where
  "run_left reason timestamp p =
     p\<lparr>p_status := Run_Paused, p_state_revision := p_state_revision p + 1, p_active_task := None,
       p_pause_reason := Some reason, p_updated_at := timestamp, p_finished_at := None\<rparr>"

definition in_flight :: "plan_run \<Rightarrow> bool" where
  "in_flight p = (p_status p = Run_Queued \<or> p_status p = Run_Running)"

text \<open>The first statement: the runs of tasks that the restart ended.\<close>

definition pause_restarted_runs :: "int \<Rightarrow> session_db \<Rightarrow> session_db" where
  "pause_restarted_runs timestamp db =
     update_runs (\<lambda>p. in_flight p \<and> (\<exists>t \<in> set (tasks db). p_active_task p = Some (t_task_id t) \<and> ended_by_restart t))
       (run_halted ''process_restart'' timestamp) db"

definition delivery_ready :: "plan_run \<Rightarrow> bool" where
  "delivery_ready p = (p_current_step p = None \<and> p_steps p \<noteq> [] \<and> list_all step_closed (p_steps p))"

definition left_reason :: "plan_run \<Rightarrow> task_status \<Rightarrow> string" where
  "left_reason p owner_status =
     (let driver_kind = (if p_driver_kind p = [] then ''manual'' else p_driver_kind p)
      in if owner_status = Succeeded
         then (if driver_kind = ''manual'' then ''manual_turn_finished'' else ''goal_turn_finished'')
         else driver_kind @ ''_turn_'' @ task_status_value owner_status)"

text \<open>The status that the join reads for the owner of a run.\<close>

definition owner_status :: "session_db \<Rightarrow> plan_run \<Rightarrow> task_status option" where
  "owner_status db p =
     (case p_active_task p of None \<Rightarrow> None | Some i \<Rightarrow> map_option t_status (task_of i (tasks db)))"

text \<open>The row as it was read guards the statement.\<close>

definition same_row :: "plan_run \<Rightarrow> plan_run \<Rightarrow> bool" where
  "same_row p r =
     (p_run_id r = p_run_id p \<and> p_state_revision r = p_state_revision p \<and> p_status r = p_status p \<and>
      p_active_task r = p_active_task p)"

definition settle_plan_run :: "int \<Rightarrow> session_db \<Rightarrow> plan_run \<times> task_status option \<Rightarrow> session_db" where
  "settle_plan_run timestamp db row =
     (let p = fst row in
      case snd row of
        None \<Rightarrow> update_runs (same_row p) (run_halted ''orphaned_plan_run_owner'' timestamp) db
      | Some st \<Rightarrow>
          if st = Queued \<or> st = Running then db
          else if p_status p = Run_Queued
          then update_runs (same_row p) (run_never_started timestamp) db
          else if st = Succeeded \<and> delivery_ready p
          then update_runs (\<lambda>r. same_row p r \<and> p_current_step r = None) (completed timestamp) db
          else update_runs (same_row p) (run_left (left_reason p st) timestamp) db)"

definition unsettled_plan_runs :: "session_db \<Rightarrow> (plan_run \<times> task_status option) list" where
  "unsettled_plan_runs db =
     map (\<lambda>p. (p, owner_status db p))
       (sort_key p_created_at (sort_key p_run_id (filter in_flight (plan_runs db))))"

definition restart_runs :: "int \<Rightarrow> session_db \<Rightarrow> session_db" where
  "restart_runs timestamp db =
     (let db1 = pause_restarted_runs timestamp db
      in foldl (settle_plan_run timestamp) db1 (unsettled_plan_runs db1))"

section \<open>The transaction\<close>

text \<open>Of the sessions that fail, the time of their update.\<close>

definition fail_sessions :: "restart_reads \<Rightarrow> int \<Rightarrow> string set \<Rightarrow> session_db \<Rightarrow> session_db" where
  "fail_sessions env timestamp keys db =
     update_sessions
       (\<lambda>s. s_session_key s \<in> keys \<and> \<not> ended_session env (s_session_key s) \<and>
            \<not> (\<exists>t \<in> set (tasks db). t_session_key t = s_session_key s \<and> t_status t = Abandoned \<and>
                 t_terminal_reason t = Some ''meta_control_restart_before_start''))
       (\<lambda>s. s\<lparr>s_updated_at := timestamp\<rparr>) db"

text \<open>
  The owners of the goals, the sessions and the details of the tasks are read first. The result
  counts the tasks that were abandoned. A wrong reason raises \<open>ValueError\<close>.
\<close>

definition mark_abandoned_agent_tasks ::
    "restart_reads \<Rightarrow> string \<Rightarrow> int \<Rightarrow> session_db \<Rightarrow> string + session_db \<times> nat" where
  "mark_abandoned_agent_tasks env goal_pause_reason timestamp db =
     rbind (ensure (goal_pause_reason \<in> {''process_restart'', ''feature_disabled''})
              ''goal_pause_reason must be process_restart or feature_disabled'') (\<lambda>_.
     let owners = goal_owners db;
         keys = set (filter (\<lambda>k. \<not> ended_session env k \<and> session_of k (sessions db) \<noteq> None)
                  (map t_session_key (filter restart_task (tasks db))));
         db1 = restart_tasks env timestamp db;
         db2 = restart_goals goal_pause_reason timestamp owners db1;
         db3 = restart_runs timestamp db2
     in Inr (fail_sessions env timestamp keys db3, length (filter unfinished (tasks db))))"

section \<open>What each part leaves alone\<close>

lemma foldl_keeps: "(\<And>x y. c (f x y) = c x) \<Longrightarrow> c (foldl f x ys) = c x"
  by (induction ys arbitrary: x) auto

lemma note_outcome_tables [simp]:
  "goals (note_outcome db t) = goals db" "plan_runs (note_outcome db t) = plan_runs db"
  "plan_revisions (note_outcome db t) = plan_revisions db" "sessions (note_outcome db t) = sessions db"
  "receipts (note_outcome db t) = receipts db"
  by (simp_all add: note_outcome_def db_updates)

lemma restart_tasks_tables [simp]:
  "goals (restart_tasks env ts db) = goals db" "plan_runs (restart_tasks env ts db) = plan_runs db"
  "plan_revisions (restart_tasks env ts db) = plan_revisions db" "sessions (restart_tasks env ts db) = sessions db"
  "receipts (restart_tasks env ts db) = receipts db"
  by (simp_all add: restart_tasks_def foldl_keeps db_updates)

lemma settle_owner_tables [simp]:
  "tasks (settle_owner r ts db ow) = tasks db" "plan_runs (settle_owner r ts db ow) = plan_runs db"
  "plan_revisions (settle_owner r ts db ow) = plan_revisions db" "receipts (settle_owner r ts db ow) = receipts db"
  by (auto simp: settle_owner_def Let_def db_updates split: option.splits)

lemma restart_goals_tables [simp]:
  "tasks (restart_goals r ts ows db) = tasks db" "plan_runs (restart_goals r ts ows db) = plan_runs db"
  "plan_revisions (restart_goals r ts ows db) = plan_revisions db" "receipts (restart_goals r ts ows db) = receipts db"
  by (simp_all add: restart_goals_def foldl_keeps db_updates)

lemma settle_plan_run_tables [simp]:
  "tasks (settle_plan_run ts db row) = tasks db" "goals (settle_plan_run ts db row) = goals db"
  "plan_revisions (settle_plan_run ts db row) = plan_revisions db"
  "receipts (settle_plan_run ts db row) = receipts db"
  by (auto simp: settle_plan_run_def Let_def db_updates split: option.splits)

lemma restart_runs_tables [simp]:
  "tasks (restart_runs ts db) = tasks db" "goals (restart_runs ts db) = goals db"
  "plan_revisions (restart_runs ts db) = plan_revisions db" "receipts (restart_runs ts db) = receipts db"
  by (simp_all add: restart_runs_def pause_restarted_runs_def foldl_keeps db_updates Let_def)

lemma fail_sessions_tables [simp]:
  "tasks (fail_sessions env ts ks db) = tasks db" "goals (fail_sessions env ts ks db) = goals db"
  "plan_runs (fail_sessions env ts ks db) = plan_runs db" "receipts (fail_sessions env ts ks db) = receipts db"
  "plan_revisions (fail_sessions env ts ks db) = plan_revisions db"
  by (simp_all add: fail_sessions_def update_sessions_def)

lemma recovery_tables:
  assumes "mark_abandoned_agent_tasks env r ts db = Inr (db', n)"
  shows "goals db' = goals (restart_goals r ts (goal_owners db) (restart_tasks env ts db))"
    and "receipts db' = receipts db" and "tasks db' = tasks (restart_tasks env ts db)"
    and "plan_revisions db' = plan_revisions db"
    and "plan_runs db' = plan_runs (restart_runs ts (restart_goals r ts (goal_owners db) (restart_tasks env ts db)))"
  using assms by (auto simp: mark_abandoned_agent_tasks_def Let_def)

section \<open>Goals at a restart\<close>

text \<open>The evidence for the turn of an owning task, without which it is not settled but only released.\<close>

definition evidence :: "goal_record \<Rightarrow> agent_task \<Rightarrow> bool" where
  "evidence g t =
     (case task_context t of
        None \<Rightarrow> False
      | Some ctx \<Rightarrow> Some (c_task_id ctx) = g_active_task g \<and> c_goal_id ctx = g_goal_id g \<and>
          same_generation ctx g \<and> t_session_key t = g_session_key g)"

definition attributed :: "session_db \<Rightarrow> goal_record \<Rightarrow> bool" where
  "attributed db g =
     (case g_active_task g of
        None \<Rightarrow> False
      | Some i \<Rightarrow> (case task_of i (tasks db) of None \<Rightarrow> False | Some t \<Rightarrow> evidence g t))"

lemma heartbeat_nonneg: "0 \<le> heartbeat_duration t"
  by (auto simp: heartbeat_duration_def split: option.splits)

lemma settle_owner_evidence:
  "settle_owner r ts db (g, t) =
     (if evidence g t
      then update_goals (\<lambda>x. g_goal_id x = g_goal_id g \<and> g_active_task x = g_active_task g)
             (restart_settled r (t_started_at t \<noteq> None) (heartbeat_duration t)
               (turn_usage_totals (the (task_context t)) db) ts) db
      else db)"
proof (cases "task_context t")
  case (Some ctx)
  have "owner_row ctx = (\<lambda>x. g_goal_id x = g_goal_id g \<and> g_active_task x = g_active_task g)" if "evidence g t"
    using that by (auto simp: evidence_def Some owner_row_def fun_eq_iff)
  then show ?thesis
    by (cases "evidence g t") (simp_all add: settle_owner_def Some del: not_None_eq, auto simp: evidence_def Some)
qed (simp add: settle_owner_def evidence_def)

lemma settle_owner_at:
  "goal_of_key k (goals (settle_owner r ts db (g, t))) =
     map_option (\<lambda>x. if evidence g t \<and> g_goal_id x = g_goal_id g \<and> g_active_task x = g_active_task g
        then restart_settled r (t_started_at t \<noteq> None) (heartbeat_duration t)
               (turn_usage_totals (the (task_context t)) db) ts x else x) (goal_of_key k (goals db))"
  by (cases "evidence g t")
    (simp_all add: settle_owner_evidence update_goals_def goal_rows.lookup_update restart_settled_def Let_def
      option.map_ident del: not_None_eq)

lemma settle_owner_other:
  "goal_of_key k (goals db) = Some g \<Longrightarrow> g_goal_id (fst ow) \<noteq> g_goal_id g \<Longrightarrow>
   goal_of_key k (goals (settle_owner r ts db ow)) = Some g"
  by (cases ow) (simp add: settle_owner_at)

lemma settle_owner_own:
  "goal_of_key k (goals db) = Some g \<Longrightarrow>
   \<exists>b u. goal_of_key k (goals (settle_owner r ts db (g, t))) =
     Some (if evidence g t then restart_settled r b (heartbeat_duration t) u ts g else g)"
  by (simp only: settle_owner_at option.map if_True simp_thms) blast

lemma settle_owners_other:
  "goal_of_key k (goals db) = Some g \<Longrightarrow> \<forall>ow \<in> set ows. g_goal_id (fst ow) \<noteq> g_goal_id g \<Longrightarrow>
   goal_of_key k (goals (foldl (settle_owner r ts) db ows)) = Some g"
  by (induction ows arbitrary: db) (auto simp: settle_owner_other)

lemma settle_owners_own:
  assumes "goal_of_key k (goals db) = Some g" and "(g, t) \<in> set ows"
    and "distinct (map (\<lambda>ow. g_goal_id (fst ow)) ows)"
  shows "\<exists>b u. goal_of_key k (goals (foldl (settle_owner r ts) db ows)) =
    Some (if evidence g t then restart_settled r b (heartbeat_duration t) u ts g else g)"
  using assms
proof (induction ows arbitrary: db)
  case (Cons ow ows)
  show ?case
  proof (cases "ow = (g, t)")
    case True
    obtain b u where "goal_of_key k (goals (settle_owner r ts db ow)) =
        Some (if evidence g t then restart_settled r b (heartbeat_duration t) u ts g else g)"
      using settle_owner_own [OF Cons.prems(1)] unfolding True by blast
    moreover have "\<forall>ow \<in> set ows. g_goal_id (fst ow) \<noteq> g_goal_id g" using Cons.prems(3) True by force
    ultimately have "goal_of_key k (goals (foldl (settle_owner r ts) (settle_owner r ts db ow) ows)) =
        Some (if evidence g t then restart_settled r b (heartbeat_duration t) u ts g else g)"
      by (intro settle_owners_other) (simp_all add: restart_settled_def Let_def)
    then show ?thesis by auto
  next
    case False
    then have in_ows: "(g, t) \<in> set ows" using Cons.prems(2) by auto
    then have "g_goal_id (fst ow) \<noteq> g_goal_id g" using Cons.prems(3) by force
    then show ?thesis using Cons.IH [OF settle_owner_other [OF Cons.prems(1)] in_ows] Cons.prems(3) by auto
  qed
qed simp

lemma goal_owners_member:
  "(g, t) \<in> set (goal_owners db) \<longleftrightarrow>
   g \<in> set (goals db) \<and> (\<exists>i. g_active_task g = Some i \<and> task_of i (tasks db) = Some t)"
proof -
  have "(g, t) \<in> set (List.map_filter (\<lambda>g. case g_active_task g of None \<Rightarrow> None
      | Some i \<Rightarrow> map_option (\<lambda>t. (g, t)) (task_of i (tasks db))) gs) \<longleftrightarrow>
    g \<in> set gs \<and> (\<exists>i. g_active_task g = Some i \<and> task_of i (tasks db) = Some t)" for gs
    by (induction gs) (auto simp: map_filter_simps split: option.splits)
  then show ?thesis by (simp add: goal_owners_def)
qed

lemma goal_owners_distinct:
  assumes "distinct (map g_goal_id (goals db))"
  shows "distinct (map (\<lambda>ow. g_goal_id (fst ow)) (goal_owners db))"
proof -
  let ?own = "\<lambda>g. case g_active_task g of None \<Rightarrow> None | Some i \<Rightarrow> map_option (\<lambda>t. (g, t)) (task_of i (tasks db))"
  have ids: "g_goal_id (fst ow) \<in> g_goal_id ` set gs" if "ow \<in> set (List.map_filter ?own gs)" for ow gs
    using that by (induction gs) (auto simp: map_filter_simps split: option.splits)
  have "distinct (map g_goal_id gs) \<Longrightarrow> distinct (map (\<lambda>ow. g_goal_id (fst ow)) (List.map_filter ?own gs))" for gs
    by (induction gs) (use ids in \<open>fastforce simp: map_filter_simps split: option.splits\<close>)+
  then show ?thesis using assms by (simp add: goal_owners_def)
qed

text \<open>What a restart makes of the goal of a session.\<close>

definition halted :: "session_db \<Rightarrow> string \<Rightarrow> int \<Rightarrow> bool \<Rightarrow> int \<Rightarrow> token_usage \<Rightarrow> goal_record \<Rightarrow> goal_record" where
  "halted db reason timestamp b d u g =
     (if attributed db g then restart_settled reason b d u timestamp g
      else if g_status g = Active \<or> g_active_task g \<noteq> None then restart_released reason timestamp g else g)"

lemma restart_goal_of_key:
  assumes "distinct (map g_goal_id (goals db))" and "goals db1 = goals db" and "goal_of_key k (goals db) = Some g"
  shows "\<exists>b d u. 0 \<le> d \<and> goal_of_key k (goals (restart_goals r ts (goal_owners db) db1)) = Some (halted db r ts b d u g)"
proof -
  have g: "g \<in> set (goals db)" using assms(3) goal_rows.lookup_Some by blast
  have "\<exists>b d u. 0 \<le> d \<and> goal_of_key k (goals (foldl (settle_owner r ts) db1 (goal_owners db))) =
      Some (if attributed db g then restart_settled r b d u ts g else g)"
  proof (cases "\<exists>t. (g, t) \<in> set (goal_owners db)")
    case True
    then obtain i t where t: "(g, t) \<in> set (goal_owners db)" "g_active_task g = Some i" "task_of i (tasks db) = Some t"
      by (auto simp: goal_owners_member)
    then have "attributed db g = evidence g t" by (simp add: attributed_def)
    then obtain b u where "goal_of_key k (goals (foldl (settle_owner r ts) db1 (goal_owners db))) =
        Some (if attributed db g then restart_settled r b (heartbeat_duration t) u ts g else g)"
      using settle_owners_own [OF _ t(1) goal_owners_distinct [OF assms(1)], of k db1 r ts] assms(2,3) by auto
    then show ?thesis by (intro exI [of _ b] exI [of _ "heartbeat_duration t"] exI [of _ u]) (simp add: heartbeat_nonneg)
  next
    case False
    then have no: "\<not> attributed db g" using g by (auto simp: attributed_def goal_owners_member split: option.splits)
    have "g_goal_id (fst ow) \<noteq> g_goal_id g" if "ow \<in> set (goal_owners db)" for ow
    proof
      assume "g_goal_id (fst ow) = g_goal_id g"
      moreover have "fst ow \<in> set (goals db)" using that goal_owners_member [of "fst ow" "snd ow" db] by simp
      ultimately have "fst ow = g" using assms(1) g by (auto simp: distinct_map dest: inj_onD)
      then show False using that False by (metis prod.collapse)
    qed
    then have "goal_of_key k (goals (foldl (settle_owner r ts) db1 (goal_owners db))) = Some g"
      using assms(2,3) by (intro settle_owners_other) simp_all
    then show ?thesis using no by (intro exI [of _ "0::int"] exI) simp
  qed
  then obtain b d u where "0 \<le> d" "goal_of_key k (goals (foldl (settle_owner r ts) db1 (goal_owners db))) =
      Some (if attributed db g then restart_settled r b d u ts g else g)" by blast
  then show ?thesis
    by (intro exI [of _ b] exI [of _ d] exI [of _ u])
      (simp add: restart_goals_def update_goals_def goal_rows.lookup_update restart_released_def Let_def halted_def
        restart_settled_def)
qed

lemma settle_owner_ids:
  "map g_session_key (goals (settle_owner r ts db ow)) = map g_session_key (goals db)"
  "map g_goal_id (goals (settle_owner r ts db ow)) = map g_goal_id (goals db)"
  by (auto simp: settle_owner_def Let_def update_goals_def map_sql_update restart_settled_def split: option.splits)

lemma restart_goals_ids [simp]:
  "map g_session_key (goals (restart_goals r ts ows db)) = map g_session_key (goals db)"
  "map g_goal_id (goals (restart_goals r ts ows db)) = map g_goal_id (goals db)"
  using foldl_keeps [of "\<lambda>db. map g_session_key (goals db)", OF settle_owner_ids(1)]
    foldl_keeps [of "\<lambda>db. map g_goal_id (goals db)", OF settle_owner_ids(2)]
  by (simp_all add: restart_goals_def update_goals_def map_sql_update restart_released_def Let_def)

section \<open>Plan runs at a restart\<close>

text \<open>What becomes of one run, given the status of its owner; and of any row of the table.\<close>

definition settled_run :: "int \<Rightarrow> task_status option \<Rightarrow> plan_run \<Rightarrow> plan_run" where
  "settled_run timestamp owner p =
     (case owner of
        None \<Rightarrow> run_halted ''orphaned_plan_run_owner'' timestamp p
      | Some st \<Rightarrow>
          if st = Queued \<or> st = Running then p
          else if p_status p = Run_Queued then run_never_started timestamp p
          else if st = Succeeded \<and> delivery_ready p then completed timestamp p
          else run_left (left_reason p st) timestamp p)"

definition owner_restarted :: "session_db \<Rightarrow> plan_run \<Rightarrow> bool" where
  "owner_restarted db p = (\<exists>t \<in> set (tasks db). p_active_task p = Some (t_task_id t) \<and> ended_by_restart t)"

definition recovered_run :: "int \<Rightarrow> session_db \<Rightarrow> plan_run \<Rightarrow> plan_run" where
  "recovered_run timestamp db p =
     (if \<not> in_flight p then p
      else if owner_restarted db p then run_halted ''process_restart'' timestamp p
      else settled_run timestamp (owner_status db p) p)"

lemmas run_rewrites = run_halted_def run_never_started_def run_left_def completed_def

lemma settled_run_id [simp]: "p_run_id (settled_run ts st p) = p_run_id p"
  by (auto simp: settled_run_def run_rewrites split: option.split)

lemma settle_one_run:
  assumes "distinct (map p_run_id (plan_runs db))" and "p \<in> set (plan_runs db)"
  shows "plan_runs (settle_plan_run ts db (p, st)) =
    map (\<lambda>r. if r = p then settled_run ts st p else r) (plan_runs db)"
proof -
  have same: "same_row p r \<longleftrightarrow> r = p" if "r \<in> set (plan_runs db)" for r
    using assms that by (auto simp: same_row_def distinct_map dest: inj_onD)
  have upd: "sql_update q f (plan_runs db) = map (\<lambda>r. if r = p then f p else r) (plan_runs db)"
    if "\<And>r. r \<in> set (plan_runs db) \<Longrightarrow> q r \<longleftrightarrow> r = p" for q f
    unfolding sql_update_def using that by (intro map_cong) auto
  have part: "sql_update (\<lambda>r. same_row p r \<and> p_current_step r = None) (completed ts) (plan_runs db) =
      map (\<lambda>r. if r = p then completed ts p else r) (plan_runs db)" if "delivery_ready p"
    using that same by (intro upd) (auto simp: delivery_ready_def)
  show ?thesis
  proof (cases "st = Some Queued \<or> st = Some Running")
    case True
    then have "settled_run ts st p = p" by (auto simp: settled_run_def)
    then have "(\<lambda>r. if r = p then settled_run ts st p else r) = (\<lambda>r. r)" by auto
    then show ?thesis using True by (auto simp: settle_plan_run_def Let_def)
  next
    case False
    then show ?thesis
      using upd [of "same_row p"] same part by (cases st) (auto simp: settle_plan_run_def settled_run_def Let_def)
  qed
qed

lemma settle_runs:
  assumes "distinct (map p_run_id (plan_runs db))" and "distinct (map p_run_id ps)" and "set ps \<subseteq> set (plan_runs db)"
  shows "plan_runs (foldl (settle_plan_run ts) db (map (\<lambda>p. (p, ow p)) ps)) =
    map (\<lambda>r. if r \<in> set ps then settled_run ts (ow r) r else r) (plan_runs db)"
  using assms
proof (induction ps arbitrary: db)
  case (Cons p ps)
  let ?db = "settle_plan_run ts db (p, ow p)"
  let ?f = "\<lambda>r. if r = p then settled_run ts (ow p) p else r"
  have rows: "plan_runs ?db = map ?f (plan_runs db)" using Cons.prems by (intro settle_one_run) simp_all
  have ids: "map p_run_id (plan_runs ?db) = map p_run_id (plan_runs db)" by (simp add: rows comp_def)
  have other: "r \<noteq> p \<and> r \<noteq> settled_run ts (ow p) p" if "r \<in> set ps" for r
    using that Cons.prems(2) by (auto simp: image_iff)
  then have "set ps \<subseteq> set (plan_runs ?db)" using Cons.prems(3) by (auto simp: rows image_iff)
  then have "plan_runs (foldl (settle_plan_run ts) ?db (map (\<lambda>p. (p, ow p)) ps)) =
      map (\<lambda>r. if r \<in> set ps then settled_run ts (ow r) r else r) (map ?f (plan_runs db))"
    using Cons.IH [of ?db] Cons.prems(1,2) by (simp add: ids) (simp add: rows)
  also have "\<dots> = map (\<lambda>r. if r \<in> set (p # ps) then settled_run ts (ow r) r else r) (plan_runs db)"
    using other by (auto simp: comp_def)
  finally show ?case by simp
qed simp

text \<open>The sweep, row by row.\<close>

lemma restart_runs_rows:
  assumes "distinct (map p_run_id (plan_runs db))"
  shows "plan_runs (restart_runs ts db) = map (recovered_run ts db) (plan_runs db)"
proof -
  let ?db = "pause_restarted_runs ts db"
  let ?ps = "sort_key p_created_at (sort_key p_run_id (filter in_flight (plan_runs ?db)))"
  let ?h = "\<lambda>p. if in_flight p \<and> owner_restarted db p then run_halted ''process_restart'' ts p else p"
  have rows: "plan_runs ?db = map ?h (plan_runs db)" and t: "tasks ?db = tasks db"
    by (simp_all add: pause_restarted_runs_def sql_update_def owner_restarted_def)
  have owner: "owner_status ?db = owner_status db" unfolding owner_status_def t ..
  have "map p_run_id (plan_runs ?db) = map p_run_id (plan_runs db)"
    by (simp add: rows comp_def run_halted_def)
  then have ids: "distinct (map p_run_id (plan_runs ?db))" using assms by (simp only:)
  then have "distinct (map p_run_id (filter in_flight (plan_runs ?db)))" by (rule distinct_map_filter)
  then have "distinct (map p_run_id ?ps)" by (simp add: distinct_map)
  then have "plan_runs (restart_runs ts db) =
      map (\<lambda>r. if r \<in> set ?ps then settled_run ts (owner_status ?db r) r else r) (plan_runs ?db)"
    using settle_runs [OF ids, of ?ps ts "owner_status ?db"]
    by (auto simp: restart_runs_def unsettled_plan_runs_def Let_def)
  also have "\<dots> = map (\<lambda>r. if in_flight r then settled_run ts (owner_status db r) r else r) (plan_runs ?db)"
    by (intro map_cong) (auto simp: owner)
  also have "\<dots> = map (recovered_run ts db) (plan_runs db)"
    unfolding rows by (auto simp: recovered_run_def in_flight_def run_halted_def)
  finally show ?thesis .
qed

section \<open>Nothing is left running\<close>

lemma foldl_note_tasks:
  "map (\<lambda>t. (t_task_id t, t_status t, t_terminal_reason t)) (tasks (foldl note_outcome db ts)) =
   map (\<lambda>t. (t_task_id t, t_status t, t_terminal_reason t)) (tasks db)"
  by (rule foldl_keeps) (simp add: note_outcome_def map_sql_update)

lemma restart_tasks_finished:
  assumes "t \<in> set (tasks (restart_tasks env ts db))"
  shows "\<not> unfinished t"
proof -
  let ?v = "\<lambda>t. (t_task_id t, t_status t, t_terminal_reason t)"
  have "?v t \<in> set (map ?v (tasks (restart_tasks env ts db)))" using assms by simp
  then have "?v t \<in> set (map ?v (tasks (update_tasks unfinished (abandoned_at_restart env db ts) db)))"
    unfolding restart_tasks_def foldl_note_tasks .
  then obtain q where "t_status t = t_status (if unfinished q then abandoned_at_restart env db ts q else q)"
    by (auto simp: set_sql_update)
  then show ?thesis by (cases "unfinished q") (auto simp: abandoned_at_restart_def unfinished_def)
qed

lemma settled_run_flight:
  "in_flight p \<Longrightarrow> st \<noteq> Some Queued \<Longrightarrow> st \<noteq> Some Running \<Longrightarrow> \<not> in_flight (settled_run ts st p)"
  by (auto simp: settled_run_def in_flight_def run_rewrites split: option.splits)

lemma find_status: "task_of i rows = Some t \<Longrightarrow> \<forall>t \<in> set rows. \<not> unfinished t \<Longrightarrow> \<not> unfinished t"
  using task_rows.lookup_Some by blast

lemma recovered_run_flight:
  assumes "\<forall>t \<in> set (tasks db). \<not> unfinished t"
  shows "\<not> in_flight (recovered_run ts db p)"
proof -
  have "owner_status db p \<noteq> Some Queued \<and> owner_status db p \<noteq> Some Running"
    using assms find_status by (fastforce simp: owner_status_def unfinished_def split: option.splits)
  then show ?thesis
    using settled_run_flight [of p "owner_status db p" ts] by (auto simp: recovered_run_def in_flight_def run_halted_def)
qed

lemma recovery_rows:
  assumes "distinct (map p_run_id (plan_runs db))" and "mark_abandoned_agent_tasks env r ts db = Inr (db', n)"
  shows "plan_runs db' = map (recovered_run ts db') (plan_runs db)"
proof -
  let ?db = "restart_goals r ts (goal_owners db) (restart_tasks env ts db)"
  have "plan_runs db' = map (recovered_run ts ?db) (plan_runs db)"
    using restart_runs_rows [of ?db ts] assms(1) recovery_tables(5) [OF assms(2)] by simp
  moreover have t: "tasks ?db = tasks db'" using recovery_tables(3) [OF assms(2)] by simp
  have "recovered_run ts ?db = recovered_run ts db'"
    unfolding recovered_run_def owner_restarted_def owner_status_def t ..
  ultimately show ?thesis by simp
qed

lemma recovered_run_keeps [simp]:
  "p_run_id (recovered_run ts db p) = p_run_id p" "p_session_key (recovered_run ts db p) = p_session_key p"
  "p_revision_id (recovered_run ts db p) = p_revision_id p" "p_steps (recovered_run ts db p) = p_steps p"
  "p_current_step (recovered_run ts db p) = p_current_step p"
  by (auto simp: recovered_run_def settled_run_def run_rewrites split: option.split)

lemma recovered_run_standing:
  assumes "in_flight p" and "\<forall>t \<in> set (tasks db). \<not> unfinished t"
  shows "p_active_task (recovered_run ts db p) = None \<and>
    (p_status (recovered_run ts db p) = Run_Paused \<or>
     p_status (recovered_run ts db p) = Run_Cancelled \<and> p_status p = Run_Queued \<or>
     p_status (recovered_run ts db p) = Run_Completed \<and> owner_status db p = Some Succeeded \<and> delivery_ready p)"
  using assms recovered_run_flight [OF assms(2), of ts p]
  by (auto simp: recovered_run_def settled_run_def run_rewrites split: option.splits if_splits)

lemma recovered_run_idle: "\<not> in_flight p \<Longrightarrow> recovered_run ts db p = p"
  by (simp add: recovered_run_def)

lemma restart_goals_idle:
  "h \<in> set (goals (restart_goals reason ts owners db)) \<Longrightarrow> g_status h \<noteq> Active \<and> g_active_task h = None"
proof -
  assume "h \<in> set (goals (restart_goals reason ts owners db))"
  then obtain q where "h = (if g_status q = Active \<or> g_active_task q \<noteq> None then restart_released reason ts q else q)"
    unfolding restart_goals_def update_goals_def by (auto simp: set_sql_update)
  then show ?thesis
    by (cases "g_status q = Active \<or> g_active_task q \<noteq> None") (simp_all add: restart_released_def Let_def)
qed

text \<open>C25: After the startup recovery of a database with distinct run ids, no task is queued or
  running, no goal is active or owned, and every plan run keeps its id and steps: one that was
  queued or running has no owner any more and is paused, or cancelled (only if it was queued),
  or completed (only if all its steps are closed and its owner had succeeded); every other run
  is exactly as it was.\<close>

theorem recovery_leaves_nothing_running:
  assumes "distinct (map p_run_id (plan_runs db))" and "mark_abandoned_agent_tasks env r ts db = Inr (db', n)"
  shows "(\<forall>t \<in> set (tasks db'). \<not> unfinished t) \<and>
    (\<forall>g \<in> set (goals db'). g_status g \<noteq> Active \<and> g_active_task g = None) \<and>
    (\<forall>p \<in> set (plan_runs db). \<exists>q \<in> set (plan_runs db'). p_run_id q = p_run_id p \<and> p_steps q = p_steps p \<and>
       (if in_flight p
        then p_active_task q = None \<and>
          (p_status q = Run_Paused \<or> p_status q = Run_Cancelled \<and> p_status p = Run_Queued \<or>
           p_status q = Run_Completed \<and> owner_status db' p = Some Succeeded \<and> delivery_ready p)
        else q = p))"
proof -
  have fin: "\<forall>t \<in> set (tasks db'). \<not> unfinished t"
    using restart_tasks_finished by (auto simp: recovery_tables(3) [OF assms(2)])
  have "\<forall>g \<in> set (goals db'). g_status g \<noteq> Active \<and> g_active_task g = None"
    using restart_goals_idle by (simp add: recovery_tables(1) [OF assms(2)])
  moreover have "\<exists>q \<in> set (plan_runs db'). p_run_id q = p_run_id p \<and> p_steps q = p_steps p \<and>
       (if in_flight p
        then p_active_task q = None \<and>
          (p_status q = Run_Paused \<or> p_status q = Run_Cancelled \<and> p_status p = Run_Queued \<or>
           p_status q = Run_Completed \<and> owner_status db' p = Some Succeeded \<and> delivery_ready p)
        else q = p)" if "p \<in> set (plan_runs db)" for p
  proof (rule bexI [of _ "recovered_run ts db' p"])
    show "recovered_run ts db' p \<in> set (plan_runs db')" using that by (subst recovery_rows [OF assms]) simp
  qed (use recovered_run_standing [OF _ fin] recovered_run_idle in auto)
  ultimately show ?thesis using fin by blast
qed

end
