(* ===== verification/Goal_Machine.thy ===== *)
theory Goal_Machine
  imports Session_Recovery
begin

text \<open>
  What the goal transactions guarantee together. \<open>goal_move\<close> is the step relation of one goal row,
  a rule per transition; every transaction of \<open>Goal_Store\<close> performs at most one such step, on one
  session, and leaves every other session's goal alone; the startup recovery of
  \<open>Session_Recovery\<close> performs at most one on the goal of each session. Invariants, the fences against stale writers, the refinement of an abstract ownership
  machine and the end of the automatic loop follow from the step relation.
\<close>

section \<open>The step relation of a goal row\<close>

definition settlement_ok :: "goal_record \<Rightarrow> settlement \<Rightarrow> bool" where
  "settlement_ok g z =
     (if g_status g = Active
      then z_status z \<noteq> Complete \<and> z_finished z \<in> {None, g_finished_at g} \<and>
           (z_status z = Active \<longrightarrow> z_pause z \<in> {None, g_pause_reason g})
      else z_status z = g_status g \<and> z_pause z = g_pause_reason g \<and> z_finished z = g_finished_at g)"

definition kept_result :: "string \<Rightarrow> goal_record \<Rightarrow> string option" where
  "kept_result t g =
     (if g_status g \<in> {Complete, Blocked} \<and> g_terminal_task g = Some t then Some t else None)"

text \<open>What kind of transition it is, with what it brings: a new goal's id, the turn limit, the settled task.\<close>

datatype move_kind =
    M_Set string | M_Edit | M_Pause | M_Resume | M_Clear | M_Limit | M_Continue int | M_Claim | M_Result
  | M_Progress | M_Settle string | M_Compensate string | M_System_Pause | M_Restart

inductive goal_move :: "move_kind \<Rightarrow> goal_record option \<Rightarrow> goal_record option \<Rightarrow> bool" where
  Set_Goal: "(\<And>c. old = Some c \<Longrightarrow> g_status c = Complete \<and> g_active_task c = None) \<Longrightarrow>
     new_goal gid key sid ep obj (Some t) (Some m) ts = Inr g \<Longrightarrow> goal_move (M_Set gid) old (Some g)"
| Edit: "objective_ok obj \<Longrightarrow> \<not> (g_status g = Complete \<and> g_active_task g \<noteq> None) \<Longrightarrow>
     goal_move M_Edit (Some g) (Some (edited obj ts g))"
| Pause: "g_status g = Active \<Longrightarrow> goal_move M_Pause (Some g) (Some (paused_by_user r ts g))"
| Resume: "g_status g \<in> {Paused, Blocked, Usage_Limited} \<Longrightarrow> goal_move M_Resume (Some g) (Some (resumed ts g))"
| Clear: "goal_move M_Clear (Some g) None"
| Limit: "g_status g = Active \<Longrightarrow> g_active_task g = None \<Longrightarrow> guardrail_reason mt rb g = Some r \<Longrightarrow>
     goal_move M_Limit (Some g) (Some (guardrail_paused r ts g))"
| Continue: "g_status g = Active \<Longrightarrow> g_active_task g = None \<Longrightarrow> guardrail_reason mt rb g = None \<Longrightarrow>
     mt \<le> 500 \<Longrightarrow> goal_move (M_Continue mt) (Some g) (Some (continued t (g_continuation_seq g + 1) ts g))"
| Claim: "g_status g = Active \<Longrightarrow> g_active_task g = None \<Longrightarrow> goal_move M_Claim (Some g) (Some (claimed_by t ts g))"
| Result: "g_status g \<in> {Active, Paused} \<Longrightarrow> g_active_task g = Some t \<Longrightarrow> st \<in> {Complete, Blocked} \<Longrightarrow>
     goal_move M_Result (Some g) (Some (finished_by_model st r t ts g))"
| Progress: "g_status g \<in> {Active, Paused} \<Longrightarrow> g_active_task g = Some t \<Longrightarrow>
     goal_move M_Progress (Some g) (Some (with_progress doc ts g))"
| Settle: "g_active_task g = Some t \<Longrightarrow> 0 \<le> d \<Longrightarrow> settlement_ok g z \<Longrightarrow>
     goal_move (M_Settle t) (Some g) (Some (settled z (kept_result t g) d u ts g))"
| Compensate: "g_active_task g = Some t \<Longrightarrow> 0 \<le> d \<Longrightarrow>
     goal_move (M_Compensate t) (Some g) (Some (compensated r (kept_result t g) cons d u ts g))"
| System_Pause: "g_status g = Active \<Longrightarrow> goal_move M_System_Pause (Some g) (Some (system_paused r ts g))"
| Restart_Settle: "g_active_task g = Some t \<Longrightarrow> 0 \<le> d \<Longrightarrow>
     goal_move M_Restart (Some g) (Some (restart_settled r b d u ts g))"
| Restart_Release: "g_status g = Active \<or> g_active_task g \<noteq> None \<Longrightarrow>
     goal_move M_Restart (Some g) (Some (restart_released r ts g))"

lemmas row_moves = edited_def paused_by_user_def resumed_def guardrail_paused_def continued_def
  claimed_by_def finished_by_model_def with_progress_def settled_def compensated_def
  system_paused_def restart_settled_def restart_released_def

lemma move_keys [simp]:
  "g_session_key (edited obj ts g) = g_session_key g" "g_goal_id (edited obj ts g) = g_goal_id g"
  "g_session_key (paused_by_user r ts g) = g_session_key g" "g_goal_id (paused_by_user r ts g) = g_goal_id g"
  "g_session_key (resumed ts g) = g_session_key g" "g_goal_id (resumed ts g) = g_goal_id g"
  "g_session_key (guardrail_paused r ts g) = g_session_key g" "g_goal_id (guardrail_paused r ts g) = g_goal_id g"
  "g_session_key (continued t n ts g) = g_session_key g" "g_goal_id (continued t n ts g) = g_goal_id g"
  "g_session_key (claimed_by t ts g) = g_session_key g" "g_goal_id (claimed_by t ts g) = g_goal_id g"
  "g_session_key (finished_by_model st rr t ts g) = g_session_key g" "g_goal_id (finished_by_model st rr t ts g) = g_goal_id g"
  "g_session_key (with_progress doc ts g) = g_session_key g" "g_goal_id (with_progress doc ts g) = g_goal_id g"
  "g_session_key (settled z tt d u ts g) = g_session_key g" "g_goal_id (settled z tt d u ts g) = g_goal_id g"
  "g_session_key (compensated r tt b d u ts g) = g_session_key g" "g_goal_id (compensated r tt b d u ts g) = g_goal_id g"
  "g_session_key (system_paused r ts g) = g_session_key g" "g_goal_id (system_paused r ts g) = g_goal_id g"
  "g_session_key (restart_settled r b d u ts g) = g_session_key g" "g_goal_id (restart_settled r b d u ts g) = g_goal_id g"
  "g_session_key (restart_released r ts g) = g_session_key g" "g_goal_id (restart_released r ts g) = g_goal_id g"
  by (simp_all add: row_moves Let_def)

section \<open>One transaction, one step\<close>

definition goal_at :: "session_db \<Rightarrow> string \<Rightarrow> goal_record option" where
  "goal_at db k = goal_of_key k (goals db)"

definition keys_ok :: "session_db \<Rightarrow> bool" where
  "keys_ok db = (distinct (map g_session_key (goals db)) \<and> distinct (map g_goal_id (goals db)))"

definition one_move :: "move_kind set \<Rightarrow> session_db \<Rightarrow> session_db \<Rightarrow> bool" where
  "one_move L db db' =
     (keys_ok db' \<and>
      ((\<forall>k. goal_at db' k = goal_at db k) \<or>
       (\<exists>k. \<exists>l \<in> L. goal_move l (goal_at db k) (goal_at db' k) \<and> (\<forall>k'. k' \<noteq> k \<longrightarrow> goal_at db' k' = goal_at db k'))))"

lemma goal_at_Some: "keys_ok db \<Longrightarrow> goal_at db k = Some g \<longleftrightarrow> g \<in> set (goals db) \<and> g_session_key g = k"
  by (simp add: goal_at_def keys_ok_def goal_rows.lookup_member)

lemma goal_of_id_Some: "keys_ok db \<Longrightarrow> goal_of_id i (goals db) = Some g \<longleftrightarrow> g \<in> set (goals db) \<and> g_goal_id g = i"
  by (simp add: keys_ok_def goal_ids.lookup_member)

lemma same_key: "keys_ok db \<Longrightarrow> g \<in> set (goals db) \<Longrightarrow> r \<in> set (goals db) \<Longrightarrow>
    g_session_key r = g_session_key g \<Longrightarrow> r = g"
  by (auto simp: keys_ok_def distinct_map dest: inj_onD)

lemma same_id: "keys_ok db \<Longrightarrow> g \<in> set (goals db) \<Longrightarrow> r \<in> set (goals db) \<Longrightarrow>
    g_goal_id r = g_goal_id g \<Longrightarrow> r = g"
  by (auto simp: keys_ok_def distinct_map dest: inj_onD)

lemma one_move_refl: "keys_ok db \<Longrightarrow> goals db' = goals db \<Longrightarrow> one_move L db db'"
  by (simp add: one_move_def keys_ok_def goal_at_def)

text \<open>The shape of every transition: one statement, whose condition selects the row that was checked.\<close>

lemma one_move_update:
  assumes "keys_ok db" and g: "g \<in> set (goals db)"
    and "\<And>r. g_session_key (f r) = g_session_key r \<and> g_goal_id (f r) = g_goal_id r"
    and "\<And>r. r \<in> set (goals db) \<Longrightarrow> p r \<Longrightarrow> r = g"
    and "goal_move l (Some g) (Some (f g))" and "l \<in> L"
    and db': "goals db' = sql_update p f (goals db)"
  shows "one_move L db db'"
proof -
  have at: "goal_at db' k = map_option (\<lambda>r. if p r then f r else r) (goal_at db k)" for k
    using assms(3) by (simp add: goal_at_def db' goal_rows.lookup_update)
  have keys: "keys_ok db'"
    using assms(1,3) by (simp add: keys_ok_def db' map_sql_update)
  have here: "goal_at db (g_session_key g) = Some g" using assms(1) g by (simp add: goal_at_Some)
  have elsewhere: "goal_at db' k = goal_at db k" if "k \<noteq> g_session_key g \<or> \<not> p g" for k
  proof (cases "goal_at db k")
    case (Some r)
    then have r: "r \<in> set (goals db)" "g_session_key r = k" using assms(1) by (simp_all add: goal_at_Some)
    have "\<not> p r" using that assms(4) [OF r(1)] r(2) by auto
    then show ?thesis by (simp add: at Some)
  qed (simp add: at)
  show ?thesis
  proof (cases "p g")
    case True
    then have "goal_move l (goal_at db (g_session_key g)) (goal_at db' (g_session_key g))"
      using here assms(5) by (simp add: at)
    then show ?thesis using keys elsewhere \<open>l \<in> L\<close> unfolding one_move_def by blast
  qed (use keys elsewhere in \<open>auto simp: one_move_def\<close>)
qed

lemmas update_by_key = one_move_update [OF _ _ _ same_key]
lemmas update_by_id = one_move_update [OF _ _ _ same_id]

lemma one_move_delete:
  assumes "keys_ok db" and "g \<in> set (goals db)" and "goals db' = sql_delete p (goals db)"
    and "\<And>r. r \<in> set (goals db) \<Longrightarrow> p r \<Longrightarrow> r = g" and "p g" and "M_Clear \<in> L"
  shows "one_move L db db'"
proof -
  have at: "goal_at db' k = (case goal_at db k of Some r \<Rightarrow> if p r then None else Some r | None \<Rightarrow> None)" for k
    using assms(1) by (simp add: goal_at_def assms(3) keys_ok_def goal_rows.lookup_delete)
  have keys: "keys_ok db'"
    using assms(1) by (simp add: keys_ok_def assms(3) goal_rows.keys_delete goal_ids.keys_delete)
  have here: "goal_at db (g_session_key g) = Some g" using assms(1,2) by (simp add: goal_at_Some)
  have "goal_move M_Clear (goal_at db (g_session_key g)) (goal_at db' (g_session_key g))"
    using here assms(5) by (simp add: at goal_move.Clear)
  moreover have "goal_at db' k = goal_at db k" if "k \<noteq> g_session_key g" for k
  proof (cases "goal_at db k")
    case (Some r)
    then have r: "r \<in> set (goals db)" "g_session_key r = k" using assms(1) by (simp_all add: goal_at_Some)
    then have "\<not> p r" using that assms(4) [OF r(1)] by auto
    then show ?thesis by (simp add: at Some)
  qed (simp add: at)
  ultimately show ?thesis using keys assms(6) unfolding one_move_def by blast
qed

lemma require_expected_Inr:
  "require_expected_goal k x db = Inr g \<longleftrightarrow>
   goal_at db k = Some g \<and> g_session_id g = x_session_id x \<and> g_epoch g = x_epoch x \<and>
   g_goal_id g = x_goal_id x \<and> g_state_revision g = x_state_revision x"
  by (auto simp: require_expected_goal_def goal_at_def split: option.splits)

lemma answer_tables [simp]:
  "goals (fst (answer cmd g db)) = goals db" "tasks (fst (answer cmd g db)) = tasks db"
  "sessions (fst (answer cmd g db)) = sessions db"
  by (simp_all add: answer_def insert_receipt_def Let_def)

lemma adopt_edit_goals [simp]: "goals (adopt_edit i g ts db) = goals db"
  by (auto simp: adopt_edit_def Let_def split: option.splits)

lemma revoke_update_goals [simp]: "goals (revoke_update g db) = goals db"
  by (auto simp: revoke_update_def Let_def split: option.splits)

text \<open>The fenced statement of a user command, and its answer.\<close>

lemma fenced_move:
  assumes "keys_ok db" and "require_expected_goal k x db = Inr g"
    and "\<And>r. g_session_key (f r) = g_session_key r \<and> g_goal_id (f r) = g_goal_id r"
    and "goal_move l (Some g) (Some (f g))" and "l \<in> L"
    and "goals db' = sql_update (fenced k x) f (goals db)"
  shows "one_move L db db'"
proof (rule one_move_update [OF assms(1) _ assms(3) _ assms(4,5,6)])
  have g: "g \<in> set (goals db)" "g_session_key g = k"
    using assms(1,2) by (auto simp: require_expected_Inr goal_at_Some)
  then show "g \<in> set (goals db)" by simp
  show "r = g" if "r \<in> set (goals db)" "fenced k x r" for r
    using same_key [OF assms(1) g(1) that(1)] that(2) g(2) by (simp add: fenced_def)
qed

lemma once_Inr:
  "once cmd body db = Inr (db', res) \<longleftrightarrow>
   (replay_goal_command cmd db = Inr (Some res) \<and> db' = db) \<or>
   (replay_goal_command cmd db = Inr None \<and> body db = Inr (db', res))"
  unfolding once_def by (auto split: option.splits)

text \<open>The four fenced commands: a replay changes nothing, a fresh one runs its body.\<close>

definition ran :: "goal_command \<Rightarrow> (session_db \<Rightarrow> session_db \<Rightarrow> command_result \<Rightarrow> bool) \<Rightarrow> session_db \<Rightarrow>
    session_db \<Rightarrow> command_result \<Rightarrow> bool" where
  "ran c body db db' res =
     ((replay_goal_command c db = Inr (Some res) \<and> db' = db) \<or>
      (replay_goal_command c db = Inr None \<and> body db db' res))"

lemma edit_cases:
  assumes "edit_goal key x obj cmd adopt ts db = Inr (db', res)"
  shows "\<exists>c o'. prepare_goal_command cmd ''edit'' (canonicalize_session_key (Some key)) = Inr c \<and>
    normalize_goal_objective obj = Inr o' \<and>
    ran c (\<lambda>db db' res. \<exists>g. require_expected_goal (canonicalize_session_key (Some key)) x db = Inr g \<and>
      \<not> (g_status g = Complete \<and> g_active_task g \<noteq> None) \<and>
      answer c (edited o' ts g) (adopt_edit adopt (edited o' ts g) ts
        (update_goals (fenced (canonicalize_session_key (Some key)) x) (edited o' ts) db)) = (db', res)) db db' res"
  using assms unfolding edit_goal_def ran_def by (auto simp: Let_def once_Inr)

lemma pause_cases:
  assumes "pause_goal key x cmd r ts db = Inr (db', res)"
  shows "\<exists>c rr. prepare_goal_command cmd ''pause'' (canonicalize_session_key (Some key)) = Inr c \<and>
    ran c (\<lambda>db db' res. \<exists>g. require_expected_goal (canonicalize_session_key (Some key)) x db = Inr g \<and> g_status g = Active \<and>
      answer c (paused_by_user rr ts g)
        (update_goals (fenced (canonicalize_session_key (Some key)) x) (paused_by_user rr ts) db) = (db', res)) db db' res"
  using assms unfolding pause_goal_def ran_def by (auto simp: Let_def once_Inr)

lemma resume_cases:
  assumes "resume_goal key x cmd ts db = Inr (db', res)"
  shows "\<exists>c. prepare_goal_command cmd ''resume'' (canonicalize_session_key (Some key)) = Inr c \<and>
    ran c (\<lambda>db db' res. \<exists>g. require_expected_goal (canonicalize_session_key (Some key)) x db = Inr g \<and>
      g_status g \<in> {Paused, Blocked, Usage_Limited} \<and>
      answer c (resumed ts g)
        (update_goals (fenced (canonicalize_session_key (Some key)) x) (resumed ts) db) = (db', res)) db db' res"
  using assms unfolding resume_goal_def ran_def by (auto simp: Let_def once_Inr)

lemma clear_cases:
  assumes "clear_goal key x cmd db = Inr (db', res)"
  shows "\<exists>c. prepare_goal_command cmd ''clear'' (canonicalize_session_key (Some key)) = Inr c \<and>
    ran c (\<lambda>db db' res. \<exists>g response. require_expected_goal (canonicalize_session_key (Some key)) x db = Inr g \<and>
      db' = insert_receipt c (g_session_id g) (g_epoch g) response ((revoke_update g db)\<lparr>goals :=
        sql_delete (fenced (canonicalize_session_key (Some key)) x) (goals db)\<rparr>) \<and>
      res = (response, None, False)) db db' res"
  using assms unfolding clear_goal_def ran_def by (auto simp: Let_def once_Inr)

lemma answer_goals: "answer c g db = (db', res) \<Longrightarrow> goals db' = goals db"
  using answer_tables(1) [of c g db] by simp

text \<open>The fenced update of a fresh command, and the step it is.\<close>

lemma fenced_update_move:
  assumes "keys_ok db" and "require_expected_goal k x db = Inr g"
    and "\<And>r. g_session_key (f r) = g_session_key r \<and> g_goal_id (f r) = g_goal_id r"
    and "goal_move l (Some g) (Some (f g))"
    and "goals db1 = goals (update_goals (fenced k x) f db)" and "answer c h db1 = (db', res)"
  shows "one_move {l} db db'"
  using answer_goals [OF assms(6)] assms(5) by (intro fenced_move [OF assms(1,2,3,4)]) simp_all

lemma edit_move:
  assumes "keys_ok db" and "edit_goal key x obj cmd adopt ts db = Inr (db', res)"
  shows "one_move {M_Edit} db db'"
  using edit_cases [OF assms(2)] unfolding ran_def
proof (elim exE conjE disjE)
  fix c o' g
  assume "normalize_goal_objective obj = Inr o'"
    and g: "require_expected_goal (canonicalize_session_key (Some key)) x db = Inr g"
      "\<not> (g_status g = Complete \<and> g_active_task g \<noteq> None)"
    and a: "answer c (edited o' ts g) (adopt_edit adopt (edited o' ts g) ts
        (update_goals (fenced (canonicalize_session_key (Some key)) x) (edited o' ts) db)) = (db', res)"
  then have "goal_move M_Edit (Some g) (Some (edited o' ts g))"
    by (intro goal_move.Edit) (auto simp: normalize_goal_objective_Inr)
  then show ?thesis by (intro fenced_update_move [OF assms(1) g(1) _ _ _ a]) auto
qed (simp add: assms one_move_refl)

lemma pause_move:
  assumes "keys_ok db" and "pause_goal key x cmd r ts db = Inr (db', res)"
  shows "one_move {M_Pause} db db'"
  using pause_cases [OF assms(2)] unfolding ran_def
proof (elim exE conjE disjE)
  fix c rr g
  assume g: "require_expected_goal (canonicalize_session_key (Some key)) x db = Inr g" "g_status g = Active"
    and a: "answer c (paused_by_user rr ts g)
        (update_goals (fenced (canonicalize_session_key (Some key)) x) (paused_by_user rr ts) db) = (db', res)"
  show ?thesis using goal_move.Pause [OF g(2)] by (intro fenced_update_move [OF assms(1) g(1) _ _ _ a]) auto
qed (simp add: assms one_move_refl)

lemma resume_move:
  assumes "keys_ok db" and "resume_goal key x cmd ts db = Inr (db', res)"
  shows "one_move {M_Resume} db db'"
  using resume_cases [OF assms(2)] unfolding ran_def
proof (elim exE conjE disjE)
  fix c g
  assume g: "require_expected_goal (canonicalize_session_key (Some key)) x db = Inr g"
      "g_status g \<in> {Paused, Blocked, Usage_Limited}"
    and a: "answer c (resumed ts g)
        (update_goals (fenced (canonicalize_session_key (Some key)) x) (resumed ts) db) = (db', res)"
  show ?thesis using goal_move.Resume [OF g(2)] by (intro fenced_update_move [OF assms(1) g(1) _ _ _ a]) auto
qed (simp add: assms one_move_refl)

lemma clear_move:
  assumes "keys_ok db" and "clear_goal key x cmd db = Inr (db', res)"
  shows "one_move {M_Clear} db db'"
  using clear_cases [OF assms(2)] unfolding ran_def
proof (elim exE conjE disjE)
  fix c g response
  let ?k = "canonicalize_session_key (Some key)"
  assume g: "require_expected_goal ?k x db = Inr g"
    and "db' = insert_receipt c (g_session_id g) (g_epoch g) response
      ((revoke_update g db)\<lparr>goals := sql_delete (fenced ?k x) (goals db)\<rparr>)"
  then have db': "goals db' = sql_delete (fenced ?k x) (goals db)" by (simp add: insert_receipt_def)
  have mem: "g \<in> set (goals db)" "g_session_key g = ?k" "fenced ?k x g"
    using assms(1) g by (auto simp: require_expected_Inr goal_at_Some fenced_def)
  show ?thesis
  proof (rule one_move_delete [OF assms(1) mem(1) db' _ mem(3)])
    show "r = g" if "r \<in> set (goals db)" "fenced ?k x r" for r
      using same_key [OF assms(1) mem(1) that(1)] that(2) mem(2) by (simp add: fenced_def)
  qed simp
qed (simp add: assms one_move_refl)

text \<open>The task-side transactions.\<close>

lemma insert_agent_task_Inr:
  "insert_agent_task t db = Inr db' \<longleftrightarrow> task_of (t_task_id t) (tasks db) = None \<and> db' = db\<lparr>tasks := tasks db @ [t]\<rparr>"
  by (auto simp: insert_agent_task_def)

lemma admit_continuation_Inr:
  assumes "admit_continuation x seq key guard db = Inr (g, s)"
  shows "goal_at db key = Some g \<and> g_status g = Active \<and> g_active_task g = None \<and>
    g_continuation_seq g = seq \<and> g_state_revision g = x_state_revision x \<and>
    require_idle_goal_session key None db = Inr () \<and> require_default_goal_mode g db = Inr () \<and>
    goal_session g db = Some s"
  using assms unfolding admit_continuation_def
  by (auto simp: require_expected_Inr split: option.splits)

lemma bind_continuation_Inr:
  "bind_continuation u5 task g s ts db = Inr (db', res) \<longleftrightarrow>
   (let ctx = (goal_turn_context g (t_task_id task) True)\<lparr>c_continuation_seq := g_continuation_seq g + 1\<rparr>;
        row = continued (t_task_id task) (g_continuation_seq g + 1) ts;
        db1 = db\<lparr>tasks := tasks db @ [task\<lparr>t_details :=
                Some (bind_details ctx (s_collaboration_revision s) (details_of task))\<rparr>]\<rparr>
    in automatic_goal_task_id u5 (g_goal_id g) (g_objective_revision g) (g_continuation_seq g + 1) = Inr (t_task_id task) \<and>
       task_of (t_task_id task) (tasks db) = None \<and> rowcount (idle_fenced g) (goals db) = 1 \<and>
       owner_free (g_session_key g) (t_task_id task) db \<and>
       db' = update_goals (idle_fenced g) row db1 \<and> res = Accepted (row g) ctx)"
  unfolding bind_continuation_def Let_def
  by (auto simp: insert_agent_task_Inr owner_free_def)

lemma continuation_cases:
  assumes "accept_goal_continuation u5 x seq task mt rb guard ts db = Inr (db', res)"
  shows "\<exists>g. goal_at db (canonicalize_session_key (Some (t_session_key task))) = Some g \<and>
    g_status g = Active \<and> g_active_task g = None \<and> g_continuation_seq g = seq \<and>
    g_state_revision g = x_state_revision x \<and> 1 \<le> mt \<and> mt \<le> 500 \<and>
    ((\<exists>r. guardrail_reason mt rb g = Some r \<and> db' = update_goals (idle_fenced g) (guardrail_paused r ts) db \<and>
        res = Guardrail (guardrail_paused r ts g) r) \<or>
     (\<exists>bound ctx. guardrail_reason mt rb g = None \<and> t_task_id bound = t_task_id task \<and>
        task_of (t_task_id task) (tasks db) = None \<and>
        db' = update_goals (idle_fenced g) (continued (t_task_id task) (seq + 1) ts) (db\<lparr>tasks := tasks db @ [bound]\<rparr>) \<and>
        res = Accepted (continued (t_task_id task) (seq + 1) ts g) ctx))"
proof -
  let ?t = "task\<lparr>t_session_key := canonicalize_session_key (Some (t_session_key task))\<rparr>"
  obtain g s where g: "admit_continuation x seq (t_session_key ?t) guard db = Inr (g, s)"
    and mt: "1 \<le> mt" "mt \<le> 500"
    and rest: "(case guardrail_reason mt rb g of
        Some r \<Rightarrow> rowcount (idle_fenced g) (goals db) = 1 \<and> db' = update_goals (idle_fenced g) (guardrail_paused r ts) db \<and>
          res = Guardrail (guardrail_paused r ts g) r
      | None \<Rightarrow> bind_continuation u5 ?t g s ts db = Inr (db', res))"
    using assms unfolding accept_goal_continuation_def check_guardrails_def Let_def
    by (auto split: option.splits)
  note adm = admit_continuation_Inr [OF g]
  show ?thesis
  proof (cases "guardrail_reason mt rb g")
    case None
    then have "bind_continuation u5 ?t g s ts db = Inr (db', res)" using rest by simp
    then show ?thesis using adm mt None unfolding bind_continuation_Inr Let_def
      by (intro exI [of _ g] conjI disjI2 exI) (auto simp: update_goals_def)
  next
    case (Some r)
    then show ?thesis using rest adm mt by auto
  qed
qed

lemma continuation_move:
  assumes "keys_ok db" and "accept_goal_continuation u5 x seq task mt rb guard ts db = Inr (db', res)"
  shows "one_move {M_Limit, M_Continue mt} db db'"
proof -
  obtain g where g: "goal_at db (canonicalize_session_key (Some (t_session_key task))) = Some g"
      "g_status g = Active" "g_active_task g = None" "g_continuation_seq g = seq" "mt \<le> 500"
    and rest: "(\<exists>r. guardrail_reason mt rb g = Some r \<and> goals db' = sql_update (idle_fenced g) (guardrail_paused r ts) (goals db)) \<or>
      guardrail_reason mt rb g = None \<and> goals db' = sql_update (idle_fenced g) (continued (t_task_id task) (seq + 1) ts) (goals db)"
    using continuation_cases [OF assms(2)] by auto
  have mem: "g \<in> set (goals db)" using g(1) assms(1) by (simp add: goal_at_Some)
  have only: "r = g" if "r \<in> set (goals db)" "idle_fenced g r" for r
    using same_key [OF assms(1) mem that(1)] that(2) by (simp add: idle_fenced_def)
  show ?thesis
  proof (cases "guardrail_reason mt rb g")
    case None
    then show ?thesis using rest goal_move.Continue [OF g(2,3) None g(5)] g(4)
      by (intro one_move_update [OF assms(1) mem _ only]) auto
  next
    case (Some r)
    then show ?thesis using rest goal_move.Limit [OF g(2,3) Some]
      by (intro one_move_update [OF assms(1) mem _ only]) auto
  qed
qed

lemma claim_queued_cases:
  assumes "claim_goal_for_queued_task cand tid mode ts db = Inr (db', res)"
  shows "(db' = db \<and> res = None) \<or>
    (\<exists>t g ctx. task_of tid (tasks db) = Some t \<and> t_status t = Queued \<and>
       candidate_from_detail (dget (details_of t) ''goal_candidate'') = Some cand \<and>
       goal_at db (t_session_key t) = Some g \<and> g_status g = Active \<and> g_active_task g = None \<and>
       claimable cand g \<and>
       goals db' = sql_update (\<lambda>r. g_session_key r = t_session_key t \<and> g_goal_id r = g_goal_id g \<and>
         g_active_task r = None) (claimed_by tid ts) (goals db) \<and> res = Some (claimed_by tid ts g, ctx))"
  using assms unfolding claim_goal_for_queued_task_def Let_def goal_at_def
  by (auto simp: claimable_def split: option.splits if_splits sum.splits)

lemma claim_queued_move:
  assumes "keys_ok db" and "claim_goal_for_queued_task cand tid mode ts db = Inr (db', res)"
  shows "one_move {M_Claim} db db'"
  using claim_queued_cases [OF assms(2)]
proof (elim disjE exE conjE)
  fix t g ctx
  assume g: "goal_at db (t_session_key t) = Some g" "g_status g = Active" "g_active_task g = None"
    and db': "goals db' = sql_update (\<lambda>r. g_session_key r = t_session_key t \<and> g_goal_id r = g_goal_id g \<and>
         g_active_task r = None) (claimed_by tid ts) (goals db)"
  have mem: "g \<in> set (goals db)" "g_session_key g = t_session_key t" using g(1) assms(1) by (simp_all add: goal_at_Some)
  show ?thesis
    using goal_move.Claim [OF g(2,3)] same_key [OF assms(1) mem(1)] mem(2)
    by (intro one_move_update [OF assms(1) mem(1) _ _ _ _ db']) auto
qed (simp add: assms one_move_refl)

lemma claim_current_move:
  assumes "keys_ok db" and "claim_current_goal sid ep task ts db = Inr (db', res)"
  shows "one_move {M_Claim} db db'"
proof -
  let ?k = "t_session_key task"
  have "goals db' = goals db \<or> (\<exists>g. goal_at db ?k = Some g \<and> g_status g = Active \<and> g_active_task g = None \<and>
      goals db' = sql_update (\<lambda>r. g_session_key r = ?k \<and> g_goal_id r = g_goal_id g \<and> g_active_task r = None \<and>
         g_status r = Active) (claimed_by (t_task_id task) ts) (goals db))"
    using assms(2) unfolding claim_current_goal_def Let_def goal_at_def
    by (auto simp: insert_agent_task_Inr claimable_now_def split: option.splits if_splits)
  then show ?thesis
  proof (elim disjE exE conjE)
    fix g
    assume g: "goal_at db ?k = Some g" "g_status g = Active" "g_active_task g = None"
      and db': "goals db' = sql_update (\<lambda>r. g_session_key r = ?k \<and> g_goal_id r = g_goal_id g \<and>
         g_active_task r = None \<and> g_status r = Active) (claimed_by (t_task_id task) ts) (goals db)"
    have mem: "g \<in> set (goals db)" "g_session_key g = ?k" using g(1) assms(1) by (simp_all add: goal_at_Some)
    show ?thesis
      using goal_move.Claim [OF g(2,3)] same_key [OF assms(1) mem(1)] mem(2)
      by (intro one_move_update [OF assms(1) mem(1) _ _ _ _ db']) auto
  qed (simp add: assms one_move_refl)
qed

lemma insert_goal_Inr:
  "insert_goal g db = Inr db' \<longleftrightarrow> goal_of_key (g_session_key g) (goals db) = None \<and>
     goal_of_id (g_goal_id g) (goals db) = None \<and>
     (g_active_task g = None \<or> (\<forall>r \<in> set (goals db). g_active_task r \<noteq> g_active_task g)) \<and>
     db' = db\<lparr>goals := goals db @ [g]\<rparr>"
  by (auto simp: insert_goal_def)

lemma start_goal_Inr:
  assumes "start_goal g cmd task mid db = Inr (db', res)"
  shows "fresh_goal g (t_task_id task) mid \<and>
    (\<forall>c. goal_at db (g_session_key g) = Some c \<longrightarrow> g_status c = Complete \<and> g_active_task c = None) \<and>
    (let rest = sql_delete (\<lambda>r. g_session_key r = g_session_key g) (goals db)
     in goal_of_key (g_session_key g) rest = None \<and> goal_of_id (g_goal_id g) rest = None \<and>
        goals db' = rest @ [g])"
  using assms unfolding start_goal_def Let_def goal_at_def
  by (auto simp: insert_goal_Inr insert_agent_task_Inr insert_receipt_def split: option.splits)

lemma set_cases:
  assumes "set_goal key sid ep obj gid task mid cmd ts db = Inr (db', res)"
  shows "\<exists>g c. new_goal gid (canonicalize_session_key (Some key)) sid ep obj
        (Some (t_task_id task)) (Some mid) ts = Inr g \<and>
    prepare_goal_command cmd ''set'' (g_session_key g) = Inr c \<and>
    ran c (\<lambda>db db' res. start_goal g c task mid db = Inr (db', res)) db db' res"
  using assms unfolding set_goal_def ran_def by (auto simp: once_Inr)

lemma set_move:
  assumes "keys_ok db" and "set_goal key sid ep obj gid task mid cmd ts db = Inr (db', res)"
  shows "one_move {M_Set gid} db db'"
proof (cases "db' = db")
  case False
  then obtain g c where new: "new_goal gid (canonicalize_session_key (Some key)) sid ep obj
        (Some (t_task_id task)) (Some mid) ts = Inr g"
    and start: "start_goal g c task mid db = Inr (db', res)"
    using set_cases [OF assms(2)] unfolding ran_def by blast
  define k where "k = g_session_key g"
  define rest where "rest = sql_delete (\<lambda>r. g_session_key r = k) (goals db)"
  have st: "\<forall>c. goal_at db k = Some c \<longrightarrow> g_status c = Complete \<and> g_active_task c = None"
      "goal_of_key k rest = None" "goal_of_id (g_goal_id g) rest = None" "goals db' = rest @ [g]"
    using start_goal_Inr [OF start] by (simp_all add: Let_def rest_def k_def)
  have keys: "keys_ok db'"
    using assms(1) st(2,3) unfolding keys_ok_def st(4)
    by (auto simp: rest_def goal_rows.keys_delete goal_ids.keys_delete goal_rows.lookup_None_iff
        goal_ids.lookup_None_iff k_def)
  have at: "goal_at db' k' = (if k' = k then Some g else goal_at db k')" for k'
  proof (cases "k' = k")
    case True
    then show ?thesis using st(2,4) by (simp add: goal_at_def goal_rows.lookup_append k_def)
  next
    case other: False
    have "goal_of_key k' rest = goal_at db k'"
      using assms(1) other goal_rows.lookup_Some [of k' "goals db"]
      by (auto simp: rest_def keys_ok_def goal_rows.lookup_delete goal_at_def split: option.splits)
    then show ?thesis using other st(4)
      by (simp add: goal_at_def goal_rows.lookup_append k_def split: option.splits)
  qed
  have "goal_move (M_Set gid) (goal_at db k) (Some g)"
    using st(1) goal_move.Set_Goal [OF _ new] by blast
  then show ?thesis using keys at by (auto simp: one_move_def)
qed (simp add: assms one_move_refl)

lemma terminal_status_Inr: "terminal_status t = Inr s \<Longrightarrow> s \<in> {Complete, Blocked}"
  by (auto simp: terminal_status_def split: option.splits goal_status.splits)

lemma commit_on_goal_Inr:
  "commit_on_goal ctx s r ts g db = Inr (db', g') \<longleftrightarrow>
   (g_status g \<in> {Complete, Blocked} \<and> db' = db \<and> g' = g \<and> g_status g = s \<and> g_terminal_task g = Some (c_task_id ctx)) \<or>
   (g_status g \<in> {Active, Paused} \<and> g_active_task g = Some (c_task_id ctx) \<and>
      db' = update_goals (owned_row ctx) (finished_by_model s r (c_task_id ctx) ts) db \<and>
      g' = finished_by_model s r (c_task_id ctx) ts g)"
  by (auto simp: commit_on_goal_def)

lemma persisted_context_Inr:
  "require_persisted_context ctx k g db = Inr t \<longleftrightarrow>
   task_of (c_task_id ctx) (tasks db) = Some t \<and> t_session_key t = k \<and> task_context t = Some ctx"
  by (auto simp: require_persisted_context_def split: option.splits)

lemma commit_cases:
  assumes "commit_goal_terminal ctx st rs ts db = Inr (db', g')"
  shows "\<exists>g s r t. goal_of_id (c_goal_id ctx) (goals db) = Some g \<and> terminal_status st = Inr s \<and>
    same_generation ctx g \<and> g_objective_revision g = c_objective_revision ctx \<and>
    task_of (c_task_id ctx) (tasks db) = Some t \<and> t_session_key t = g_session_key g \<and> task_context t = Some ctx \<and>
    commit_on_goal ctx s r ts g db = Inr (db', g')"
  using assms unfolding commit_goal_terminal_def
  by (cases "goal_of_id (c_goal_id ctx) (goals db)")
    (auto simp: persisted_context_Inr)

lemma commit_move:
  assumes "keys_ok db" and "commit_goal_terminal ctx st rs ts db = Inr (db', g')"
  shows "one_move {M_Result} db db'"
proof (cases "db' = db")
  case False
  then obtain g s r where g: "goal_of_id (c_goal_id ctx) (goals db) = Some g" "s \<in> {Complete, Blocked}"
      "g_status g \<in> {Active, Paused}" "g_active_task g = Some (c_task_id ctx)"
      "db' = update_goals (owned_row ctx) (finished_by_model s r (c_task_id ctx) ts) db"
    using commit_cases [OF assms(2)] terminal_status_Inr unfolding commit_on_goal_Inr by blast
  have mem: "g \<in> set (goals db)" "g_goal_id g = c_goal_id ctx"
    using g(1) assms(1) by (simp_all add: goal_of_id_Some)
  show ?thesis
    using goal_move.Result [OF g(3,4,2)] same_id [OF assms(1) mem(1)] mem(2) g(5)
    by (intro one_move_update [OF assms(1) mem(1)]) (auto simp: owned_row_def)
qed (simp add: assms one_move_refl)

lemma progress_cases:
  assumes "update_goal_progress ctx ex sts ts db = Inr (db', g')"
  shows "\<exists>g doc. goal_of_id (c_goal_id ctx) (goals db) = Some g \<and> normalize_goal_progress ex sts = Inr doc \<and>
    g_status g \<in> {Active, Paused} \<and> g_active_task g = Some (c_task_id ctx) \<and> same_generation ctx g \<and>
    g_objective_revision g = c_objective_revision ctx \<and>
    db' = update_goals (owned_row ctx) (with_progress doc ts) db \<and> g' = with_progress doc ts g"
  using assms unfolding update_goal_progress_def by (auto split: option.splits)

lemma progress_move:
  assumes "keys_ok db" and "update_goal_progress ctx ex sts ts db = Inr (db', g')"
  shows "one_move {M_Progress} db db'"
proof -
  obtain g doc where g: "goal_of_id (c_goal_id ctx) (goals db) = Some g" "g_status g \<in> {Active, Paused}"
      "g_active_task g = Some (c_task_id ctx)" "db' = update_goals (owned_row ctx) (with_progress doc ts) db"
    using progress_cases [OF assms(2)] by blast
  have mem: "g \<in> set (goals db)" "g_goal_id g = c_goal_id ctx"
    using g(1) assms(1) by (simp_all add: goal_of_id_Some)
  show ?thesis
    using goal_move.Progress [OF g(2,3)] same_id [OF assms(1) mem(1)] mem(2) g(4)
    by (intro one_move_update [OF assms(1) mem(1)]) (auto simp: owned_row_def)
qed

lemma settle_active_ok:
  assumes "settle_active mt rb ul se pr so g t w z = Inr z'" and "g_status g = Active"
    and "z_status z = Active" and "z_pause z = g_pause_reason g" and "z_finished z = g_finished_at g"
  shows "settlement_ok g z'"
  using assms unfolding settle_active_def settlement_ok_def settle_paused_def
  by (auto split: task_status.splits if_splits)

lemma settle_cases:
  assumes "settle_goal_task ctx mt rb ul se pr ts db = Inr (db', g')"
  shows "(db' = db \<and> g' = None) \<or>
    (\<exists>g z t. task_of (c_task_id ctx) (tasks db) = Some t \<and> \<not> unfinished t \<and> task_context t = Some ctx \<and>
       goal_of_id (c_goal_id ctx) (goals db) = Some g \<and> same_generation ctx g \<and>
       g_active_task g = Some (c_task_id ctx) \<and> settlement_ok g z \<and>
       db' = update_goals (owner_row ctx) (settled z (kept_result (c_task_id ctx) g) (task_duration t)
               (turn_usage_totals ctx db) ts) db \<and>
       g' = Some (settled z (kept_result (c_task_id ctx) g) (task_duration t) (turn_usage_totals ctx db) ts g))"
proof -
  have kept: "kept_terminal_task ctx g = kept_result (c_task_id ctx) g" for g
    by (auto simp: kept_terminal_task_def kept_result_def)
  obtain t where t: "task_of (c_task_id ctx) (tasks db) = Some t" "\<not> unfinished t" "task_context t = Some ctx"
    using assms unfolding settle_goal_task_def by (auto split: option.splits)
  show ?thesis
  proof (cases "goal_of_id (c_goal_id ctx) (goals db)")
    case None
    then show ?thesis using assms t unfolding settle_goal_task_def by auto
  next
    case (Some g)
    define z1 where "z1 = (if g_objective_revision g = c_objective_revision ctx \<and> t_started_at t \<noteq> None \<and>
        g_status g \<in> {Active, Paused} then (keep_settlement g)\<lparr>z_blocked := None\<rparr> else keep_settlement g)"
    have z1: "z_status z1 = g_status g" "z_pause z1 = g_pause_reason g" "z_finished z1 = g_finished_at g"
      by (simp_all add: z1_def keep_settlement_def)
    show ?thesis
    proof (cases "same_generation ctx g \<and> t_session_key t = g_session_key g \<and> g_active_task g = Some (c_task_id ctx)")
      case False
      then have "db' = db \<and> g' = None"
        using assms t Some unfolding settle_goal_task_def by auto
      then show ?thesis by blast
    next
      case True
      then obtain z where z: "if g_status g = Active then settle_active mt rb ul se pr
              (g_objective_revision g = c_objective_revision ctx) g t (g_window_time g + task_duration t) z1 = Inr z
            else z = z1"
        and res: "db' = update_goals (owner_row ctx) (settled z (kept_result (c_task_id ctx) g) (task_duration t)
               (turn_usage_totals ctx db) ts) db"
          "g' = Some (settled z (kept_result (c_task_id ctx) g) (task_duration t) (turn_usage_totals ctx db) ts g)"
        using assms t Some unfolding settle_goal_task_def
        by (auto simp: Let_def z1_def kept split: if_splits)
      have "settlement_ok g z"
      proof (cases "g_status g = Active")
        case act: True
        then show ?thesis using z z1 by (intro settle_active_ok) auto
      next
        case False
        then show ?thesis using z z1 by (simp add: settlement_ok_def)
      qed
      then show ?thesis using True t Some res by blast
    qed
  qed
qed

lemma task_duration_nonneg: "0 \<le> task_duration t"
  by (auto simp: task_duration_def split: option.splits)

lemma settle_move:
  assumes "keys_ok db" and "settle_goal_task ctx mt rb ul se pr ts db = Inr (db', g')"
  shows "one_move {M_Settle (c_task_id ctx)} db db'"
  using settle_cases [OF assms(2)]
proof (elim disjE exE conjE)
  fix g z t
  assume g: "goal_of_id (c_goal_id ctx) (goals db) = Some g" "g_active_task g = Some (c_task_id ctx)"
      "settlement_ok g z" and db': "db' = update_goals (owner_row ctx)
        (settled z (kept_result (c_task_id ctx) g) (task_duration t) (turn_usage_totals ctx db) ts) db"
  have mem: "g \<in> set (goals db)" "g_goal_id g = c_goal_id ctx"
    using g(1) assms(1) by (simp_all add: goal_of_id_Some)
  show ?thesis
    using goal_move.Settle [OF g(2) task_duration_nonneg g(3)] same_id [OF assms(1) mem(1)] mem(2) db'
    by (intro one_move_update [OF assms(1) mem(1)]) (auto simp: owner_row_def)
qed (simp add: assms one_move_refl)

lemma abandon_task_tables [simp]: "goals (abandon_task i r ts db) = goals db"
  by (simp add: abandon_task_def)

lemma compensate_cases:
  assumes "compensate_goal_task ctx r ts db = Inr (db', g')"
  shows "(goals db' = goals db \<and> g' = None) \<or>
    (\<exists>g d cons u. goal_of_id (c_goal_id ctx) (goals db) = Some g \<and> same_generation ctx g \<and>
       g_active_task g = Some (c_task_id ctx) \<and> 0 \<le> d \<and>
       goals db' = sql_update (owner_row ctx) (compensated r (kept_result (c_task_id ctx) g) cons d u ts) (goals db) \<and>
       g' = Some (compensated r (kept_result (c_task_id ctx) g) cons d u ts g))"
proof -
  have kept: "kept_terminal_task ctx g = kept_result (c_task_id ctx) g" for g
    by (auto simp: kept_terminal_task_def kept_result_def)
  define dur where "dur t = (case t_started_at t of None \<Rightarrow> 0
      | Some a \<Rightarrow> max 0 ((case t_finished_at t of None \<Rightarrow> ts | Some f \<Rightarrow> f) - a))" for t :: agent_task
  have dur: "0 \<le> dur t" for t by (simp add: dur_def split: option.split)
  show ?thesis
  proof (cases "task_of (c_task_id ctx) (tasks db)")
    case (Some t)
    then have t: "task_context t = Some ctx"
      using assms unfolding compensate_goal_task_def by auto
    show ?thesis
    proof (cases "goal_of_id (c_goal_id ctx) (goals db)")
      case None
      then show ?thesis using assms Some t unfolding compensate_goal_task_def by (auto simp: Let_def)
    next
      case g: (Some g)
      define cons where "cons = (t_started_at t \<noteq> None \<and> g_objective_revision g = c_objective_revision ctx)"
      show ?thesis
      proof (cases "same_generation ctx g \<and> g_active_task g = Some (c_task_id ctx)")
        case True
        let ?f = "compensated r (kept_result (c_task_id ctx) g) cons (dur t) (turn_usage_totals ctx db) ts"
        have "goals db' = sql_update (owner_row ctx) ?f (goals db) \<and> g' = Some (?f g)"
          using assms Some t g True unfolding compensate_goal_task_def dur_def [symmetric] cons_def
          by (auto simp: Let_def kept)
        then show ?thesis using True g dur [of t] by blast
      next
        case False
        then show ?thesis using assms Some t g unfolding compensate_goal_task_def
          by (auto simp: Let_def)
      qed
    qed
  qed (use assms in \<open>auto simp: compensate_goal_task_def\<close>)
qed

lemma compensate_move:
  assumes "keys_ok db" and "compensate_goal_task ctx r ts db = Inr (db', g')"
  shows "one_move {M_Compensate (c_task_id ctx)} db db'"
  using compensate_cases [OF assms(2)]
proof (elim disjE exE conjE)
  fix g d cons u
  assume g: "goal_of_id (c_goal_id ctx) (goals db) = Some g" "g_active_task g = Some (c_task_id ctx)" "0 \<le> d"
    and db': "goals db' = sql_update (owner_row ctx) (compensated r (kept_result (c_task_id ctx) g) cons d u ts) (goals db)"
  have mem: "g \<in> set (goals db)" "g_goal_id g = c_goal_id ctx"
    using g(1) assms(1) by (simp_all add: goal_of_id_Some)
  show ?thesis
    using goal_move.Compensate [OF g(2,3)] same_id [OF assms(1) mem(1)] mem(2)
    by (intro one_move_update [OF assms(1) mem(1) _ _ _ _ db']) (auto simp: owner_row_def)
qed (simp add: assms one_move_refl)

lemma system_pause_move:
  assumes "keys_ok db" and "pause_goal_for_system key gid n r ts db = Inr (db', g')"
  shows "one_move {M_System_Pause} db db'"
proof -
  let ?k = "canonicalize_session_key (Some key)"
  obtain nr where nr: "normalize_goal_reason (PyStr r) = Inr nr"
    using assms(2) unfolding pause_goal_for_system_def by (auto simp: Let_def)
  have "db' = db \<or> (\<exists>g rr. goal_at db ?k = Some g \<and> g_status g = Active \<and>
      goals db' = sql_update (\<lambda>x. g_session_key x = ?k \<and> g_goal_id x = gid \<and> g_state_revision x = n)
        (system_paused rr ts) (goals db))"
  proof (cases "goal_at db ?k")
    case (Some g)
    then show ?thesis using assms(2) nr unfolding pause_goal_for_system_def goal_at_def
      by (auto simp: Let_def update_goals_def split: if_splits)
  qed (use assms(2) nr in \<open>simp add: pause_goal_for_system_def goal_at_def Let_def\<close>)
  then show ?thesis
  proof (elim disjE exE conjE)
    fix g rr
    assume g: "goal_at db ?k = Some g" "g_status g = Active"
      and db': "goals db' = sql_update (\<lambda>x. g_session_key x = ?k \<and> g_goal_id x = gid \<and> g_state_revision x = n)
        (system_paused rr ts) (goals db)"
    have mem: "g \<in> set (goals db)" "g_session_key g = ?k" using g(1) assms(1) by (simp_all add: goal_at_Some)
    show ?thesis
      using goal_move.System_Pause [OF g(2)] same_key [OF assms(1) mem(1)] mem(2)
      by (intro one_move_update [OF assms(1) mem(1) _ _ _ _ db']) auto
  qed (simp add: assms one_move_refl)
qed

lemma update_claims_goals:
  "goals (fst (claim_goal_objective_update u ts db)) = goals db"
  "goals (fst (apply_goal_objective_update u it mc ts db)) = goals db"
  by (auto simp: claim_goal_objective_update_def apply_goal_objective_update_def Let_def
      split: option.splits)

lemma epoch_move:
  assumes "keys_ok db" and "increment_epoch key db = Some (db', n)"
  shows "one_move {M_Clear} db db'"
proof -
  let ?k = "canonicalize_session_key (Some key)"
  have db': "goals db' = sql_delete (\<lambda>g. g_session_key g = ?k) (goals db)"
    using assms(2) by (auto simp: increment_epoch_def Let_def)
  show ?thesis
  proof (cases "goal_at db ?k")
    case None
    then have "goals db' = goals db"
      by (auto simp: db' goal_at_def goal_rows.lookup_None_iff sql_delete_def filter_id_conv)
    then show ?thesis using assms(1) by (simp add: one_move_refl)
  next
    case (Some g)
    then have mem: "g \<in> set (goals db)" "g_session_key g = ?k" using assms(1) by (simp_all add: goal_at_Some)
    show ?thesis
    proof (rule one_move_delete [OF assms(1) mem(1) db'])
      show "r = g" if "r \<in> set (goals db)" "g_session_key r = ?k" for r
        using same_key [OF assms(1) mem(1) that(1)] that(2) mem(2) by simp
    qed (simp_all add: mem)
  qed
qed

section \<open>Histories\<close>

text \<open>
  Every transaction that can touch a goal, with its arguments, and \<open>Tasks_Change\<close> for what the
  task runtime does to its own table. A failed transaction is rolled back.
\<close>

datatype goal_op =
    Set_Op string string int string string agent_task string goal_command int
  | Edit_Op string expected_goal pyval goal_command "string option" int
  | Pause_Op string expected_goal goal_command string int
  | Resume_Op string expected_goal goal_command int
  | Clear_Op string expected_goal goal_command
  | Continue_Op expected_goal int agent_task int int "workspace_guard option" int
  | Claim_Queued_Op goal_candidate string collaboration_mode int
  | Claim_Current_Op string int agent_task int
  | Commit_Op goal_context string pyval int
  | Progress_Op goal_context pyval pyval int
  | Claim_Update_Op objective_update int
  | Apply_Update_Op objective_update int string int
  | Settle_Op goal_context int int bool bool bool int
  | Compensate_Op goal_context string int
  | System_Pause_Op string string int string int
  | Epoch_Op string
  | Restart_Op restart_reads string int
  | Tasks_Change "agent_task list \<Rightarrow> agent_task list"

definition after :: "session_db \<Rightarrow> 'e + session_db \<times> 'a \<Rightarrow> session_db" where
  "after db r = (case r of Inl _ \<Rightarrow> db | Inr p \<Rightarrow> fst p)"

fun goal_step :: "(string \<Rightarrow> string) \<Rightarrow> session_db \<Rightarrow> goal_op \<Rightarrow> session_db" where
  "goal_step u5 db (Set_Op k sid ep obj gid t m cmd ts) = after db (set_goal k sid ep obj gid t m cmd ts db)"
| "goal_step u5 db (Edit_Op k x obj cmd ad ts) = after db (edit_goal k x obj cmd ad ts db)"
| "goal_step u5 db (Pause_Op k x cmd r ts) = after db (pause_goal k x cmd r ts db)"
| "goal_step u5 db (Resume_Op k x cmd ts) = after db (resume_goal k x cmd ts db)"
| "goal_step u5 db (Clear_Op k x cmd) = after db (clear_goal k x cmd db)"
| "goal_step u5 db (Continue_Op x n t mt rb gd ts) = after db (accept_goal_continuation u5 x n t mt rb gd ts db)"
| "goal_step u5 db (Claim_Queued_Op c t m ts) = after db (claim_goal_for_queued_task c t m ts db)"
| "goal_step u5 db (Claim_Current_Op sid ep t ts) = after db (claim_current_goal sid ep t ts db)"
| "goal_step u5 db (Commit_Op c st r ts) = after db (commit_goal_terminal c st r ts db)"
| "goal_step u5 db (Progress_Op c e s ts) = after db (update_goal_progress c e s ts db)"
| "goal_step u5 db (Claim_Update_Op u ts) = fst (claim_goal_objective_update u ts db)"
| "goal_step u5 db (Apply_Update_Op u i mc ts) = fst (apply_goal_objective_update u i mc ts db)"
| "goal_step u5 db (Settle_Op c mt rb ul se pr ts) = after db (settle_goal_task c mt rb ul se pr ts db)"
| "goal_step u5 db (Compensate_Op c r ts) = after db (compensate_goal_task c r ts db)"
| "goal_step u5 db (System_Pause_Op k g n r ts) = after db (pause_goal_for_system k g n r ts db)"
| "goal_step u5 db (Epoch_Op k) = (case increment_epoch k db of None \<Rightarrow> db | Some p \<Rightarrow> fst p)"
| "goal_step u5 db (Restart_Op env r ts) = after db (mark_abandoned_agent_tasks env r ts db)"
| "goal_step u5 db (Tasks_Change f) = db\<lparr>tasks := f (tasks db)\<rparr>"

definition goal_run :: "(string \<Rightarrow> string) \<Rightarrow> session_db \<Rightarrow> goal_op list \<Rightarrow> session_db" where
  "goal_run u5 db ops = foldl (goal_step u5) db ops"

lemma goal_run_simps [simp]:
  "goal_run u5 db [] = db" "goal_run u5 db (x # xs) = goal_run u5 (goal_step u5 db x) xs"
  by (simp_all add: goal_run_def)

lemma one_move_after:
  assumes "keys_ok db" and "\<And>db' a. r = Inr (db', a) \<Longrightarrow> one_move L db db'"
  shows "one_move L db (after db r)"
proof (cases r)
  case (Inl e)
  then show ?thesis using assms(1) by (simp add: after_def one_move_refl)
next
  case (Inr p)
  then show ?thesis using assms(2) by (cases p) (simp add: after_def)
qed

lemmas op_moves = set_move edit_move pause_move resume_move clear_move continuation_move
  claim_queued_move claim_current_move commit_move progress_move settle_move compensate_move
  system_pause_move

text \<open>The transitions an operation may be.\<close>

fun op_kinds :: "goal_op \<Rightarrow> move_kind set" where
  "op_kinds (Set_Op k sid ep obj gid t m cmd ts) = {M_Set gid}"
| "op_kinds (Edit_Op k x obj cmd ad ts) = {M_Edit}"
| "op_kinds (Pause_Op k x cmd r ts) = {M_Pause}"
| "op_kinds (Resume_Op k x cmd ts) = {M_Resume}"
| "op_kinds (Clear_Op k x cmd) = {M_Clear}"
| "op_kinds (Continue_Op x n t mt rb gd ts) = {M_Limit, M_Continue mt}"
| "op_kinds (Claim_Queued_Op c t m ts) = {M_Claim}"
| "op_kinds (Claim_Current_Op sid ep t ts) = {M_Claim}"
| "op_kinds (Commit_Op c st r ts) = {M_Result}"
| "op_kinds (Progress_Op c e s ts) = {M_Progress}"
| "op_kinds (Claim_Update_Op u ts) = {}"
| "op_kinds (Apply_Update_Op u i mc ts) = {}"
| "op_kinds (Settle_Op c mt rb ul se pr ts) = {M_Settle (c_task_id c)}"
| "op_kinds (Compensate_Op c r ts) = {M_Compensate (c_task_id c)}"
| "op_kinds (System_Pause_Op k g n r ts) = {M_System_Pause}"
| "op_kinds (Epoch_Op k) = {M_Clear}"
| "op_kinds (Restart_Op env r ts) = {M_Restart}"
| "op_kinds (Tasks_Change f) = {}"

text \<open>A restart moves the goals of many sessions, each of them once.\<close>

definition each_move :: "move_kind set \<Rightarrow> session_db \<Rightarrow> session_db \<Rightarrow> bool" where
  "each_move L db db' =
     (keys_ok db' \<and>
      (\<forall>k. goal_at db' k = goal_at db k \<or> (\<exists>l \<in> L. goal_move l (goal_at db k) (goal_at db' k))))"

lemma one_each: "one_move L db db' \<Longrightarrow> each_move L db db'"
  unfolding one_move_def each_move_def by metis

lemma halted_move: "0 \<le> d \<Longrightarrow> halted db r ts b d u g = g \<or> goal_move M_Restart (Some g) (Some (halted db r ts b d u g))"
  by (auto simp: halted_def attributed_def intro: goal_move.intros split: option.splits)

lemma recovery_goal_at:
  assumes "keys_ok db" and "mark_abandoned_agent_tasks env r ts db = Inr (db', n)" and "goal_at db k = Some g"
  shows "\<exists>b d u. 0 \<le> d \<and> goal_at db' k = Some (halted db r ts b d u g)"
  using restart_goal_of_key [of db "restart_tasks env ts db" k g r ts] assms recovery_tables(1) [OF assms(2)]
  by (simp add: goal_at_def keys_ok_def)

lemma recovery_move:
  assumes "keys_ok db" and "mark_abandoned_agent_tasks env r ts db = Inr (db', n)"
  shows "each_move {M_Restart} db db'"
  unfolding each_move_def
proof (intro conjI allI)
  have ids: "map g_session_key (goals db') = map g_session_key (goals db)" "map g_goal_id (goals db') = map g_goal_id (goals db)"
    by (simp_all add: recovery_tables(1) [OF assms(2)])
  then show "keys_ok db'" using assms(1) by (simp add: keys_ok_def)
  show "goal_at db' k = goal_at db k \<or> (\<exists>l \<in> {M_Restart}. goal_move l (goal_at db k) (goal_at db' k))" for k
  proof (cases "goal_at db k")
    case None
    then have "k \<notin> set (map g_session_key (goals db'))"
      unfolding ids by (auto simp: goal_at_def goal_rows.lookup_None_iff)
    then have "goal_at db' k = None" by (auto simp: goal_at_def goal_rows.lookup_None_iff)
    then show ?thesis using None by simp
  next
    case (Some g)
    then obtain b d u where "0 \<le> d" "goal_at db' k = Some (halted db r ts b d u g)"
      using recovery_goal_at [OF assms] by blast
    then show ?thesis using Some halted_move [of d db r ts b u g] by auto
  qed
qed

lemma step_one_move:
  assumes "keys_ok db" and "\<And>env r ts. op \<noteq> Restart_Op env r ts"
  shows "one_move (op_kinds op) db (goal_step u5 db op)"
proof (cases op)
  case (Epoch_Op k)
  then show ?thesis using assms(1) epoch_move [of db k] one_move_refl
    by (cases "increment_epoch k db") (auto split: prod.splits)
next
  case (Claim_Update_Op u ts)
  then show ?thesis using assms(1) by (simp add: one_move_refl update_claims_goals)
next
  case (Apply_Update_Op u it mc ts)
  then show ?thesis using assms(1) by (simp add: one_move_refl update_claims_goals)
next
  case (Tasks_Change f)
  then show ?thesis using assms(1) by (simp add: one_move_refl)
qed (use assms in \<open>auto intro!: one_move_after [OF assms(1)] intro: op_moves [OF assms(1)]\<close>)

lemma step_move:
  assumes "keys_ok db"
  shows "each_move (op_kinds op) db (goal_step u5 db op)"
proof (cases "\<exists>env r ts. op = Restart_Op env r ts")
  case True
  then obtain env r ts where op: "op = Restart_Op env r ts" by blast
  show ?thesis
  proof (cases "mark_abandoned_agent_tasks env r ts db")
    case (Inl e)
    then show ?thesis using assms by (simp add: op after_def each_move_def)
  next
    case (Inr p)
    then show ?thesis using recovery_move [OF assms, of env r ts "fst p" "snd p"] by (simp add: op after_def)
  qed
next
  case False
  then show ?thesis using step_one_move [OF assms] by (intro one_each) blast
qed

end
