(* ===== verification/Goal_Safety.thy ===== *)
theory Goal_Safety
  imports Goal_Machine
begin

text \<open>
  What holds of every history of the goal transactions: the accounting invariant of a row, the
  fences against stale writers, single answers to commands, ownership, the end of the automatic
  loop and the refinement of an abstract ownership machine.
\<close>

section \<open>The invariant of a goal row\<close>

definition owned :: "goal_record \<Rightarrow> int" where
  "owned g = (if g_active_task g = None then 0 else 1)"

text \<open>
  No turn is settled that was not started, and the one in progress is not settled yet; a goal is
  finished exactly when it is complete; an active goal carries no pause reason; a recorded result
  means a result.
\<close>

definition goal_ok :: "goal_record \<Rightarrow> bool" where
  "goal_ok g =
     (objective_ok (g_objective g) \<and> 1 \<le> g_state_revision g \<and> 1 \<le> g_objective_revision g \<and>
      0 \<le> g_progress_revision g \<and> 0 \<le> g_continuation_seq g \<and>
      g_turns_settled g + owned g \<le> g_turns_started g \<and> 0 \<le> g_turns_settled g \<and>
      0 \<le> g_window_turns g \<and> g_window_turns g \<le> g_turns_started g \<and>
      0 \<le> g_active_time g \<and> 0 \<le> g_window_time g \<and> g_window_time g \<le> g_active_time g \<and>
      (g_status g = Complete \<longleftrightarrow> g_finished_at g \<noteq> None) \<and>
      (g_status g = Active \<longrightarrow> g_pause_reason g = None) \<and>
      (g_terminal_task g \<noteq> None \<longrightarrow> g_status g = Complete \<or> g_status g = Blocked))"

text \<open>No turn got lost: every started turn but the one in progress is settled.\<close>

definition turns_exact :: "goal_record \<Rightarrow> bool" where
  "turns_exact g = (g_turns_started g = g_turns_settled g + owned g)"

lemma new_goal_ok:
  assumes "new_goal gid key sid ep obj t m ts = Inr g"
  shows "goal_ok g \<and> turns_exact g \<and> g_session_key g = key \<and> g_goal_id g = gid \<and> g_status g = Active \<and>
    g_active_task g = t"
  using assms unfolding new_goal_def Let_def
  by (auto simp: goal_ok_def turns_exact_def owned_def normalize_goal_objective_Inr split: if_splits)

lemma restart_settled_ok:
  "goal_ok g \<Longrightarrow> g_active_task g \<noteq> None \<Longrightarrow> 0 \<le> d \<Longrightarrow> goal_ok (restart_settled r b d u ts g)"
  by (cases "g_status g") (simp_all add: goal_ok_def restart_settled_def owned_def Let_def)

lemma restart_released_ok: "goal_ok g \<Longrightarrow> goal_ok (restart_released r ts g)"
  by (cases "g_status g"; cases "g_active_task g") (simp_all add: goal_ok_def restart_released_def owned_def Let_def)

lemma move_ok:
  assumes "goal_move l a b" and "\<And>g. a = Some g \<Longrightarrow> goal_ok g" and "b = Some h"
  shows "goal_ok h"
  using assms(1)
proof cases
  case (Set_Goal gid key sid ep obj t m ts g)
  then show ?thesis using new_goal_ok assms(3) by fastforce
next
  case (Settle g t d z u ts)
  then have ok: "goal_ok g" and h: "h = settled z (kept_result t g) d u ts g" using assms by simp_all
  have "z_status z = Complete \<longleftrightarrow> z_finished z \<noteq> None"
    using Settle ok by (cases "g_status g") (auto simp: settlement_ok_def goal_ok_def split: if_splits)
  moreover have "z_status z = Active \<longrightarrow> z_pause z = None"
    using Settle ok by (auto simp: settlement_ok_def goal_ok_def split: if_splits)
  moreover have "kept_result t g \<noteq> None \<longrightarrow> z_status z = Complete \<or> z_status z = Blocked"
    using Settle by (auto simp: settlement_ok_def kept_result_def split: if_splits)
  ultimately show ?thesis using ok Settle
    by (simp add: h goal_ok_def settled_def owned_def)
next
  case (Compensate g t d r cons u ts)
  then have ok: "goal_ok g" and h: "h = compensated r (kept_result t g) cons d u ts g" using assms by simp_all
  show ?thesis using ok Compensate
    by (cases "g_status g") (simp_all add: h goal_ok_def compensated_def owned_def kept_result_def)
next
  case (Edit obj g ts)
  then have ok: "goal_ok g" and h: "h = edited obj ts g" using assms by simp_all
  show ?thesis using ok Edit by (cases "g_status g") (auto simp: h goal_ok_def edited_def owned_def Let_def)
next
  case (Pause g r ts)
  then have "goal_ok g" "h = paused_by_user r ts g" using assms by simp_all
  with Pause show ?thesis by (simp add: goal_ok_def paused_by_user_def owned_def)
next
  case (Resume g ts)
  then have "goal_ok g" "h = resumed ts g" using assms by simp_all
  then show ?thesis by (simp add: goal_ok_def resumed_def owned_def)
next
  case (Limit g mt rb r ts)
  then have "goal_ok g" "h = guardrail_paused r ts g" using assms by simp_all
  with Limit show ?thesis by (simp add: goal_ok_def guardrail_paused_def owned_def)
next
  case (Continue g mt rb t ts)
  then have "goal_ok g" "h = continued t (g_continuation_seq g + 1) ts g" using assms by simp_all
  with Continue show ?thesis by (simp add: goal_ok_def continued_def owned_def)
next
  case (Claim g t ts)
  then have "goal_ok g" "h = claimed_by t ts g" using assms by simp_all
  with Claim show ?thesis by (simp add: goal_ok_def claimed_by_def owned_def)
next
  case (Result g t st r ts)
  then have "goal_ok g" "h = finished_by_model st r t ts g" using assms by simp_all
  with Result show ?thesis by (auto simp: goal_ok_def finished_by_model_def owned_def)
next
  case (Progress g t doc ts)
  then have "goal_ok g" "h = with_progress doc ts g" using assms by simp_all
  with Progress show ?thesis by (auto simp: goal_ok_def with_progress_def owned_def)
next
  case (System_Pause g r ts)
  then have "goal_ok g" "h = system_paused r ts g" using assms by simp_all
  with System_Pause show ?thesis by (simp add: goal_ok_def system_paused_def owned_def)
next
  case (Restart_Settle g t d r b u ts)
  then show ?thesis using restart_settled_ok assms(2,3) by simp
next
  case (Restart_Release g r ts)
  then show ?thesis using restart_released_ok assms(2,3) by simp
qed (use assms in simp_all)

lemma move_exact:
  "goal_move l a b \<Longrightarrow> l \<noteq> M_Restart \<Longrightarrow> (\<And>g. a = Some g \<Longrightarrow> turns_exact g) \<Longrightarrow> b = Some h \<Longrightarrow> turns_exact h"
  by (erule goal_move.cases) (auto simp: turns_exact_def owned_def row_moves Let_def dest!: new_goal_ok)

definition db_ok :: "session_db \<Rightarrow> bool" where
  "db_ok db = (keys_ok db \<and> (\<forall>k g. goal_at db k = Some g \<longrightarrow> goal_ok g))"

lemma each_move_at:
  "each_move L db db' \<Longrightarrow> goal_at db' k = goal_at db k \<or> (\<exists>l \<in> L. goal_move l (goal_at db k) (goal_at db' k))"
  unfolding each_move_def by blast

lemma each_move_ok:
  assumes "db_ok db" and "each_move L db db'"
  shows "db_ok db'"
  unfolding db_ok_def
proof (intro conjI allI impI)
  show "keys_ok db'" using assms(2) by (simp add: each_move_def)
  fix k h assume h: "goal_at db' k = Some h"
  have old: "goal_ok g" if "goal_at db k = Some g" for g using assms(1) that by (simp add: db_ok_def)
  show "goal_ok h"
    using each_move_at [OF assms(2), of k] old h move_ok [OF _ old h] by metis
qed

lemma goal_step_ok: "db_ok db \<Longrightarrow> db_ok (goal_step u5 db op)"
  by (rule each_move_ok [OF _ step_move]) (simp_all add: db_ok_def)

lemma run_ok: "db_ok db \<Longrightarrow> db_ok (goal_run u5 db ops)"
  by (induction ops arbitrary: db) (auto simp: goal_step_ok)

lemma db_ok_no_goals: "goals db = [] \<Longrightarrow> db_ok db"
  by (simp add: db_ok_def keys_ok_def goal_at_def)

lemma run_keys: "keys_ok db \<Longrightarrow> keys_ok (goal_run u5 db ops)"
  using step_move by (induction ops arbitrary: db) (auto simp: each_move_def)

text \<open>
  A restart settles the turn of an owner whose task still carries its evidence, and drops the
  others uncounted. The histories in which no turn of a session's goal was dropped:
\<close>

fun drops_turn :: "string \<Rightarrow> session_db \<Rightarrow> goal_op \<Rightarrow> bool" where
  "drops_turn k db (Restart_Op env r ts) =
     (case goal_at db k of
        None \<Rightarrow> False
      | Some g \<Rightarrow> g_active_task g \<noteq> None \<and> \<not> attributed db g)"
| "drops_turn k db _ = False"

fun no_turn_dropped :: "string \<Rightarrow> (string \<Rightarrow> string) \<Rightarrow> session_db \<Rightarrow> goal_op list \<Rightarrow> bool" where
  "no_turn_dropped k u5 db [] = True"
| "no_turn_dropped k u5 db (op # ops) = (\<not> drops_turn k db op \<and> no_turn_dropped k u5 (goal_step u5 db op) ops)"

lemma restart_exact:
  assumes "keys_ok db" and "\<not> drops_turn k db (Restart_Op env r ts)" and "goal_at db k = Some g" and "turns_exact g"
    and "goal_at (goal_step u5 db (Restart_Op env r ts)) k = Some h"
  shows "turns_exact h"
proof (cases "mark_abandoned_agent_tasks env r ts db")
  case (Inl e)
  then show ?thesis using assms(3-5) by (simp add: after_def)
next
  case (Inr p)
  then obtain b d u where "h = halted db r ts b d u g"
    using recovery_goal_at [OF assms(1), of env r ts "fst p" "snd p" k g] assms(3,5) by (auto simp: after_def)
  moreover have "attributed db g \<longrightarrow> g_active_task g \<noteq> None" by (auto simp: attributed_def split: option.splits)
  ultimately show ?thesis using assms(2-4)
    by (auto simp: halted_def turns_exact_def owned_def restart_settled_def restart_released_def Let_def split: if_splits)
qed

lemma step_exact:
  assumes "keys_ok db" and "\<not> drops_turn k db op" and "\<And>g. goal_at db k = Some g \<Longrightarrow> turns_exact g"
    and "goal_at (goal_step u5 db op) k = Some h"
  shows "turns_exact h"
proof (cases "M_Restart \<in> op_kinds op")
  case True
  then obtain env r ts where op: "op = Restart_Op env r ts" by (cases op) auto
  show ?thesis
  proof (cases "goal_at db k")
    case None
    then show ?thesis using each_move_at [OF step_move [OF assms(1), of op u5], of k] assms(4)
      by (auto simp: op elim: goal_move.cases)
  qed (use restart_exact assms op in blast)
next
  case False
  then show ?thesis using each_move_at [OF step_move [OF assms(1), of op u5], of k] move_exact assms(3,4) by metis
qed

lemma run_exact:
  "keys_ok db \<Longrightarrow> no_turn_dropped k u5 db ops \<Longrightarrow> (\<And>g. goal_at db k = Some g \<Longrightarrow> turns_exact g) \<Longrightarrow>
   goal_at (goal_run u5 db ops) k = Some h \<Longrightarrow> turns_exact h"
proof (induction ops arbitrary: db)
  case (Cons op ops)
  have "keys_ok (goal_step u5 db op)" using run_keys [OF Cons.prems(1), of u5 "[op]"] by simp
  then show ?case using Cons.IH [of "goal_step u5 db op"] Cons.prems step_exact by auto
qed simp

text \<open>C2: From a database without goals, after any sequence of goal transactions, the startup recovery
  after a restart included: no goal has more turns settled, plus the one its owner still runs,
  than turns started, and the two are equal whenever no recovery of that history dropped the
  turn of this session's goal (released its owner although the task's details no longer
  attribute the turn to the goal; such a turn is never counted as settled). Always, its window
  counts no more turns than were started, it has a finish time exactly when complete, an active
  goal has no pause reason, and a terminal task is recorded only for a complete or blocked goal.\<close>

theorem turns_settled_once:
  assumes "goals db = []" and "goal_at (goal_run u5 db ops) k = Some g"
  shows "g_turns_settled g + (if g_active_task g = None then 0 else 1) \<le> g_turns_started g \<and>
    (no_turn_dropped k u5 db ops \<longrightarrow>
       g_turns_started g = g_turns_settled g + (if g_active_task g = None then 0 else 1)) \<and>
    0 \<le> g_window_turns g \<and> g_window_turns g \<le> g_turns_started g \<and>
    (g_status g = Complete \<longleftrightarrow> g_finished_at g \<noteq> None) \<and>
    (g_status g = Active \<longrightarrow> g_pause_reason g = None) \<and>
    (g_terminal_task g \<noteq> None \<longrightarrow> g_status g \<in> {Complete, Blocked})"
proof -
  have ok: "db_ok db" by (rule db_ok_no_goals [OF assms(1)])
  then have "goal_ok g" using run_ok [of db u5 ops] assms(2) unfolding db_ok_def by blast
  moreover have "no_turn_dropped k u5 db ops \<longrightarrow> turns_exact g"
    using run_exact [of db k u5 ops g] ok assms unfolding db_ok_def by (auto simp: goal_at_def)
  ultimately show ?thesis unfolding goal_ok_def turns_exact_def owned_def by blast
qed

section \<open>Paths of one goal\<close>

text \<open>What the goal of a session goes through while the operations are of the kinds \<open>L\<close>.\<close>

definition moves :: "move_kind set \<Rightarrow> goal_record option \<Rightarrow> goal_record option \<Rightarrow> bool" where
  "moves L = (\<lambda>a b. \<exists>l \<in> L. goal_move l a b)\<^sup>*\<^sup>*"

lemma moves_refl: "moves L a a"
  by (simp add: moves_def)

lemma each_move_moves: "each_move L db db' \<Longrightarrow> moves L (goal_at db k) (goal_at db' k)"
  using each_move_at [of L db db' k] unfolding moves_def by auto

lemma moves_trans: "moves L a b \<Longrightarrow> moves L b c \<Longrightarrow> moves L a c"
  unfolding moves_def by (rule rtranclp_trans)

lemma each_move_mono: "each_move L db db' \<Longrightarrow> L \<subseteq> M \<Longrightarrow> each_move M db db'"
  unfolding each_move_def by blast

lemma run_moves:
  "keys_ok db \<Longrightarrow> \<forall>op \<in> set ops. op_kinds op \<subseteq> L \<Longrightarrow> moves L (goal_at db k) (goal_at (goal_run u5 db ops) k)"
proof (induction ops arbitrary: db)
  case (Cons op ops)
  have one: "each_move L db (goal_step u5 db op)"
    using step_move [OF Cons.prems(1)] Cons.prems(2) by (auto intro: each_move_mono)
  then have "keys_ok (goal_step u5 db op)" by (simp add: each_move_def)
  with Cons one show ?case by (auto intro: moves_trans [OF each_move_moves])
qed (simp add: moves_refl)

lemma moves_induct [consumes 1, case_names start step]:
  assumes "moves L a b" and "P a" and "\<And>l b c. l \<in> L \<Longrightarrow> P b \<Longrightarrow> goal_move l b c \<Longrightarrow> P c"
  shows "P b"
  using assms(1) unfolding moves_def by (induction rule: rtranclp_induct) (use assms in blast)+

lemma moves_None: "moves L None b \<Longrightarrow> \<forall>i. M_Set i \<notin> L \<Longrightarrow> b = None"
  by (induction rule: moves_induct) (auto elim: goal_move.cases)

section \<open>The automatic loop ends\<close>

text \<open>
  Only the user's set, edit and resume open a new window of turns. Without them the accepted
  continuations of a session are bounded by what the turn limit leaves in its window.
\<close>

fun user_grant :: "goal_op \<Rightarrow> bool" where
  "user_grant (Set_Op k sid ep obj gid t m cmd ts) = True"
| "user_grant (Edit_Op k x obj cmd ad ts) = True"
| "user_grant (Resume_Op k x cmd ts) = True"
| "user_grant _ = False"

fun turn_limit_of :: "goal_op \<Rightarrow> int" where
  "turn_limit_of (Continue_Op x n t mt rb gd ts) = mt"
| "turn_limit_of _ = 0"

definition no_grant :: "int \<Rightarrow> move_kind set" where
  "no_grant n = {l. (\<forall>i. l \<noteq> M_Set i) \<and> l \<noteq> M_Edit \<and> l \<noteq> M_Resume \<and> (\<forall>mt. l = M_Continue mt \<longrightarrow> mt \<le> n)}"

lemma no_grant_kinds: "\<not> user_grant op \<Longrightarrow> turn_limit_of op \<le> n \<Longrightarrow> op_kinds op \<subseteq> no_grant n"
  by (cases op) (auto simp: no_grant_def)

lemma spend_move:
  assumes "goal_move l (Some g) (Some h)" and "l \<in> no_grant n"
  shows "g_window_turns g \<le> g_window_turns h \<and>
    (g_continuation_seq h = g_continuation_seq g \<or>
     g_continuation_seq h = g_continuation_seq g + 1 \<and> g_window_turns g < n \<and>
     g_window_turns h = g_window_turns g + 1)"
  using assms by cases (auto simp: no_grant_def row_moves guardrail_reason_def Let_def split: if_splits)

lemma moves_spend:
  assumes "moves (no_grant n) (Some g) b"
  shows "case b of None \<Rightarrow> True | Some h \<Rightarrow>
    g_continuation_seq g \<le> g_continuation_seq h \<and>
    g_continuation_seq h - g_continuation_seq g \<le> g_window_turns h - g_window_turns g \<and>
    g_continuation_seq h - g_continuation_seq g \<le> max 0 (n - g_window_turns g)"
  using assms
proof (induction rule: moves_induct)
  case (step l b c)
  show ?case
  proof (cases c)
    case (Some h')
    then obtain h where h: "b = Some h"
      using step by (cases b) (auto simp: no_grant_def elim: goal_move.cases)
    then show ?thesis using step(2) spend_move [of l h h' n] step(1,3) Some by auto
  qed simp
qed simp

text \<open>C15: As long as the user does not set, edit or resume, the automatic continuations accepted for
  a goal, in any history, are no more than its turn limit leaves over from the turns its window
  has already counted.\<close>

theorem continuations_bounded:
  assumes "db_ok db" and "goal_at db k = Some g" and "goal_at (goal_run u5 db ops) k = Some h"
    and "\<forall>op \<in> set ops. \<not> user_grant op \<and> turn_limit_of op \<le> limit"
  shows "g_continuation_seq g \<le> g_continuation_seq h \<and>
    g_continuation_seq h - g_continuation_seq g \<le> max 0 (limit - g_window_turns g)"
proof -
  have "moves (no_grant limit) (goal_at db k) (goal_at (goal_run u5 db ops) k)"
    using assms(1,4) no_grant_kinds by (intro run_moves) (simp_all add: db_ok_def)
  then show ?thesis using moves_spend [of limit g "Some h"] assms(2,3) by simp
qed

text \<open>Of an infinite schedule without such commands only finitely many steps are continuations.\<close>

definition continued_at :: "string \<Rightarrow> session_db \<Rightarrow> session_db \<Rightarrow> bool" where
  "continued_at k db db' =
     (case (goal_at db k, goal_at db' k) of
        (Some g, Some h) \<Rightarrow> g_continuation_seq g < g_continuation_seq h | _ \<Rightarrow> False)"

definition turns_left :: "string \<Rightarrow> session_db \<Rightarrow> nat" where
  "turns_left k db = (case goal_at db k of None \<Rightarrow> 0 | Some g \<Rightarrow> nat (500 - g_window_turns g))"

lemma continue_limit: "goal_move (M_Continue mt) a b \<Longrightarrow> mt \<le> 500"
  by (erule goal_move.cases) simp_all

lemma step_spends:
  assumes "keys_ok db" and "\<not> user_grant op"
  shows "turns_left k (goal_step u5 db op) \<le> turns_left k db \<and>
    (continued_at k db (goal_step u5 db op) \<longrightarrow> turns_left k (goal_step u5 db op) < turns_left k db)"
proof -
  let ?db = "goal_step u5 db op"
  consider "goal_at ?db k = goal_at db k" | l where "l \<in> op_kinds op" "goal_move l (goal_at db k) (goal_at ?db k)"
    using each_move_at [OF step_move [OF assms(1), of op u5], of k] by auto
  then show ?thesis
  proof cases
    case 1
    then show ?thesis by (simp add: turns_left_def continued_at_def split: option.split)
  next
    case (2 l)
    have l: "l \<in> no_grant 500"
      using no_grant_kinds [OF assms(2) order_refl] 2 continue_limit by (auto simp: no_grant_def)
    show ?thesis
    proof (cases "goal_at ?db k")
      case (Some h)
      then obtain g where g: "goal_at db k = Some g"
        using 2 l by (cases "goal_at db k") (auto simp: no_grant_def elim: goal_move.cases)
      then show ?thesis using spend_move [of l g h 500] 2 l Some
        by (auto simp: turns_left_def continued_at_def)
    qed (simp add: turns_left_def continued_at_def split: option.split)
  qed
qed

text \<open>C16: In an infinite history of transactions without a user's set, edit or resume, automatic
  continuation of a session's goal happens only finitely often: from some point on it never
  happens again.\<close>

theorem automatic_loop_ends:
  assumes "db_ok (hist 0)" and "\<And>i. hist (Suc i) = goal_step u5 (hist i) (ops i)"
    and "\<And>i. \<not> user_grant (ops i)"
  shows "\<exists>n. \<forall>m \<ge> n. \<not> continued_at k (hist m) (hist (Suc m))"
proof -
  have ok: "db_ok (hist i)" for i using assms(1,2) by (induction i) (auto simp: goal_step_ok)
  then have step: "turns_left k (hist (Suc i)) \<le> turns_left k (hist i) \<and>
      (continued_at k (hist i) (hist (Suc i)) \<longrightarrow> turns_left k (hist (Suc i)) < turns_left k (hist i))" for i
    using step_spends [of "hist i" "ops i" k u5] assms(2,3) by (simp add: db_ok_def)
  obtain n where n: "\<And>m. turns_left k (hist n) \<le> turns_left k (hist m)"
    using ex_has_least_nat [of "\<lambda>_. True" 0 "\<lambda>m. turns_left k (hist m)"] by auto
  have low: "turns_left k (hist m) \<le> turns_left k (hist n)" if "n \<le> m" for m
    using that step by (induction rule: dec_induct) (auto intro: order_trans)
  have "\<not> continued_at k (hist m) (hist (Suc m))" if "n \<le> m" for m
    using step [of m] n [of "Suc m"] low [OF that] by auto
  then show ?thesis by blast
qed

section \<open>Stale writers\<close>

text \<open>Revisions of a goal only grow; a goal id is past a revision when no row of it is at or below.\<close>

definition past_state :: "string \<Rightarrow> int \<Rightarrow> session_db \<Rightarrow> bool" where
  "past_state gid n db = (\<forall>k g. goal_at db k = Some g \<longrightarrow> g_goal_id g = gid \<longrightarrow> n < g_state_revision g)"

definition past_objective :: "string \<Rightarrow> int \<Rightarrow> session_db \<Rightarrow> bool" where
  "past_objective gid n db = (\<forall>k g. goal_at db k = Some g \<longrightarrow> g_goal_id g = gid \<longrightarrow> n < g_objective_revision g)"

lemma move_id: "goal_move l a (Some h) \<Longrightarrow>
    (\<exists>i. l = M_Set i \<and> g_goal_id h = i) \<or> ((\<forall>i. l \<noteq> M_Set i) \<and> (\<exists>g. a = Some g \<and> g_goal_id h = g_goal_id g))"
  by (erule goal_move.cases) (auto dest: new_goal_ok)

lemma move_revisions:
  "goal_move l (Some g) (Some h) \<Longrightarrow> \<forall>i. l \<noteq> M_Set i \<Longrightarrow>
   g_state_revision g + (if l = M_Progress then 0 else 1) = g_state_revision h \<and>
   g_objective_revision g + (if l = M_Edit then 1 else 0) = g_objective_revision h"
  by (erule goal_move.cases) (simp_all add: row_moves Let_def)

definition sets_other :: "string \<Rightarrow> goal_op list \<Rightarrow> bool" where
  "sets_other gid ops = (\<forall>op \<in> set ops. M_Set gid \<notin> op_kinds op)"

text \<open>A counter of the row that only a new goal resets.\<close>

definition grows :: "(goal_record \<Rightarrow> int) \<Rightarrow> bool" where
  "grows rv = (\<forall>l g h. goal_move l (Some g) (Some h) \<longrightarrow> (\<forall>i. l \<noteq> M_Set i) \<longrightarrow> rv g \<le> rv h)"

lemma revisions_grow: "grows g_state_revision" "grows g_objective_revision"
  unfolding grows_def using move_revisions by (fastforce split: if_splits)+

lemma moves_grow:
  assumes "grows rv" and "moves L a b" and "M_Set gid \<notin> L"
    and "\<And>g. a = Some g \<Longrightarrow> g_goal_id g = gid \<Longrightarrow> n < rv g"
  shows "\<forall>h. b = Some h \<longrightarrow> g_goal_id h = gid \<longrightarrow> n < rv h"
  using assms(2)
proof (induction rule: moves_induct)
  case (step l b c)
  show ?case
  proof (intro allI impI)
    fix h assume h: "c = Some h" "g_goal_id h = gid"
    have "l \<noteq> M_Set gid" using step.hyps(1) assms(3) by auto
    then have ns: "\<forall>i. l \<noteq> M_Set i" and "\<exists>g. b = Some g \<and> g_goal_id h = g_goal_id g"
      using move_id [of l b h] step.hyps(2) h by auto
    then obtain g where g: "b = Some g" "g_goal_id g = gid" using h(2) by auto
    then have "rv g \<le> rv h" using assms(1) ns step.hyps(2) h(1) unfolding grows_def by blast
    then show "n < rv h" using step.IH g by auto
  qed
qed (use assms(4) in blast)

lemma run_past:
  assumes "keys_ok db" and "sets_other gid ops"
  shows "past_state gid n db \<Longrightarrow> past_state gid n (goal_run u5 db ops)"
    and "past_objective gid n db \<Longrightarrow> past_objective gid n (goal_run u5 db ops)"
proof -
  have path: "moves {l. l \<noteq> M_Set gid} (goal_at db k) (goal_at (goal_run u5 db ops) k)" for k
    using assms by (intro run_moves) (auto simp: sets_other_def)
  have all: "\<forall>h. goal_at (goal_run u5 db ops) k = Some h \<longrightarrow> g_goal_id h = gid \<longrightarrow> n < rv h"
    if "grows rv" and "\<forall>k g. goal_at db k = Some g \<longrightarrow> g_goal_id g = gid \<longrightarrow> n < rv g" for rv k
    using that by (intro moves_grow [OF _ path]) auto
  show "past_state gid n (goal_run u5 db ops)" if "past_state gid n db"
    using all [OF revisions_grow(1)] that unfolding past_state_def by blast
  show "past_objective gid n (goal_run u5 db ops)" if "past_objective gid n db"
    using all [OF revisions_grow(2)] that unfolding past_objective_def by blast
qed

text \<open>A fresh fenced command leaves its goal past the revision its fence named.\<close>

lemma fenced_past:
  assumes "keys_ok db" and "require_expected_goal k x db = Inr g"
    and "\<And>r. g_session_key (f r) = g_session_key r \<and> g_goal_id (f r) = g_goal_id r"
    and "\<And>r. g_state_revision (f r) = g_state_revision r + 1"
    and "goals db' = sql_update (fenced k x) f (goals db)"
  shows "past_state (x_goal_id x) (x_state_revision x) db'"
  unfolding past_state_def
proof (intro allI impI)
  fix k' h assume h: "goal_at db' k' = Some h" "g_goal_id h = x_goal_id x"
  have "goal_at db' k' = map_option (\<lambda>r. if fenced k x r then f r else r) (goal_at db k')"
    using assms(3) by (simp add: goal_at_def assms(5) goal_rows.lookup_update)
  then obtain r where r: "goal_at db k' = Some r" "h = (if fenced k x r then f r else r)"
    using h(1) by (cases "goal_at db k'") auto
  have "g_goal_id r = x_goal_id x" using r(2) h(2) assms(3) by (simp split: if_splits)
  then have "r = g" using assms(1,2) r(1)
    by (intro same_id [OF assms(1)]) (auto simp: require_expected_Inr goal_at_Some)
  then show "x_state_revision x < g_state_revision h"
    using assms(2,4) r by (auto simp: require_expected_Inr goal_at_Some [OF assms(1)] fenced_def)
qed

lemma cleared_past:
  assumes "keys_ok db" and "require_expected_goal k x db = Inr g"
    and "goals db' = sql_delete (fenced k x) (goals db)"
  shows "past_state (x_goal_id x) (x_state_revision x) db'"
  unfolding past_state_def
proof (intro allI impI)
  fix k' h assume h: "goal_at db' k' = Some h" "g_goal_id h = x_goal_id x"
  then have "h \<in> set (goals db)" "\<not> fenced k x h"
    using goal_rows.lookup_Some [of k' "goals db'" h] by (auto simp: goal_at_def assms(3) sql_delete_def)
  moreover have "h = g" using assms(1,2) h(2) calculation(1)
    by (intro same_id [OF assms(1)]) (auto simp: require_expected_Inr goal_at_Some)
  ultimately show "x_state_revision x < g_state_revision h"
    using assms(1,2) by (auto simp: require_expected_Inr goal_at_Some fenced_def)
qed

lemma past_refuses: "keys_ok db \<Longrightarrow> past_state (x_goal_id x) (x_state_revision x) db \<Longrightarrow>
    require_expected_goal k x db \<noteq> Inr g"
  unfolding require_expected_Inr past_state_def by fastforce

end
