(* ===== verification/Goal_Commands.thy ===== *)
theory Goal_Commands
  imports Goal_Safety
begin

text \<open>
  Guarantees to the callers of the goal store: a command is carried out once however often it is
  sent, a fence admits one change, an objective edit cuts off its predecessor's writers, a task
  keeps its goal until it is settled, and startup recovery leaves nothing running.
\<close>

section \<open>Receipts\<close>

text \<open>The operations that are user commands, and the goal row their fence names.\<close>

fun command_run :: "goal_op \<Rightarrow> (session_db \<Rightarrow> goal_error + session_db \<times> command_result) option" where
  "command_run (Set_Op k sid ep obj gid t m cmd ts) = Some (set_goal k sid ep obj gid t m cmd ts)"
| "command_run (Edit_Op k x obj cmd ad ts) = Some (edit_goal k x obj cmd ad ts)"
| "command_run (Pause_Op k x cmd r ts) = Some (pause_goal k x cmd r ts)"
| "command_run (Resume_Op k x cmd ts) = Some (resume_goal k x cmd ts)"
| "command_run (Clear_Op k x cmd) = Some (clear_goal k x cmd)"
| "command_run _ = None"

fun fence_of :: "goal_op \<Rightarrow> expected_goal option" where
  "fence_of (Edit_Op k x obj cmd ad ts) = Some x"
| "fence_of (Pause_Op k x cmd r ts) = Some x"
| "fence_of (Resume_Op k x cmd ts) = Some x"
| "fence_of (Clear_Op k x cmd) = Some x"
| "fence_of _ = None"

definition was_replayed :: "command_result \<Rightarrow> bool" where
  "was_replayed res = snd (snd res)"

definition receipts_extend :: "session_db \<Rightarrow> session_db \<Rightarrow> bool" where
  "receipts_extend db db' = (\<exists>rs. receipts db' = receipts db @ rs)"

lemma receipts_same: "receipts db' = receipts db \<Longrightarrow> receipts_extend db db'"
  by (simp add: receipts_extend_def)

lemma receipts_refl [simp]: "receipts_extend db db"
  by (simp add: receipts_extend_def)

lemma receipts_trans: "receipts_extend a b \<Longrightarrow> receipts_extend b c \<Longrightarrow> receipts_extend a c"
  by (auto simp: receipts_extend_def)

lemma receipts_insert: "receipts db0 = receipts db \<Longrightarrow> receipts_extend db (insert_receipt c sid ep resp db0)"
  by (simp add: receipts_extend_def insert_receipt_def)

lemma task_edits_receipts [simp]:
  "receipts (adopt_edit i g ts db) = receipts db" "receipts (revoke_update g db) = receipts db"
  "receipts (abandon_task tid r ts db) = receipts db" "receipts (set_details tid d ts db) = receipts db"
  "receipts (update_goals p f db) = receipts db" "receipts (update_tasks q h db) = receipts db"
  by (auto simp: adopt_edit_def revoke_update_def abandon_task_def set_details_def update_goals_def
      update_tasks_def Let_def split: option.splits)

lemma find_append: "find p (xs @ ys) = (case find p xs of None \<Rightarrow> find p ys | Some x \<Rightarrow> Some x)"
  by (induction xs) auto

lemma receipt_stays: "receipt_of c (receipts db) = Some r \<Longrightarrow> receipts_extend db db' \<Longrightarrow>
    receipt_of c (receipts db') = Some r"
  by (auto simp: receipts_extend_def receipt_of_def find_append)

text \<open>A fresh command leaves its receipt behind, with the response it gave.\<close>

definition answered :: "goal_command \<Rightarrow> command_result \<Rightarrow> session_db \<Rightarrow> bool" where
  "answered c res db =
     (\<exists>r. receipt_of c (receipts db) = Some r \<and> r_action r = cmd_action c \<and>
          r_fingerprint r = cmd_fingerprint c \<and> r_response r = fst res)"

lemma replay_iff:
  "replay_goal_command c db = Inr (Some res) \<longleftrightarrow>
   answered c res db \<and> res = (fst res, goal_of_key (cmd_session_key c) (goals db), True)"
  by (cases res) (auto simp: replay_goal_command_def answered_def split: option.splits)

lemma answered_insert:
  assumes "replay_goal_command c db = Inr None" and "receipts db0 = receipts db"
  shows "answered c (resp, g, b) (insert_receipt c sid ep resp db0)"
  using assms
  by (auto simp: replay_goal_command_def answered_def insert_receipt_def receipt_of_def find_append
      split: option.splits if_splits)

lemma answered_stays: "answered c res db \<Longrightarrow> receipts_extend db db' \<Longrightarrow> answered c res db'"
  using receipt_stays unfolding answered_def by blast

lemma once_again:
  assumes "answered c res db"
  shows "once c body db = Inr (db, (fst res, goal_of_key (cmd_session_key c) (goals db), True))"
proof -
  have "answered c (fst res, goal_of_key (cmd_session_key c) (goals db), True) db"
    using assms by (simp add: answered_def)
  then have "replay_goal_command c db = Inr (Some (fst res, goal_of_key (cmd_session_key c) (goals db), True))"
    by (simp add: replay_iff)
  then show ?thesis by (simp add: once_Inr)
qed

definition answering :: "session_db \<Rightarrow> goal_command \<Rightarrow> session_db \<Rightarrow> command_result \<Rightarrow> bool" where
  "answering db c db1 res = (\<exists>db0 sid ep resp g. receipts db0 = receipts db \<and>
     db1 = insert_receipt c sid ep resp db0 \<and> res = (resp, g, False))"

lemma answering_insert:
  "receipts db0 = receipts db \<Longrightarrow> answering db c (insert_receipt c sid ep resp db0) (resp, g, False)"
  by (auto simp: answering_def)

lemma answering_answer:
  "answer c g db0 = (db1, res) \<Longrightarrow> receipts db0 = receipts db \<Longrightarrow> answering db c db1 res"
  by (auto simp: answer_def Let_def intro: answering_insert)

lemma ran_answered:
  assumes "ran c body db db' res" and "\<And>db1 res1. body db db1 res1 \<Longrightarrow> answering db c db1 res1"
  shows "answered c res db' \<and> receipts_extend db db' \<and> (was_replayed res \<longrightarrow> db' = db)"
  using assms(1) unfolding ran_def
proof (elim disjE conjE)
  assume "replay_goal_command c db = Inr None" "body db db' res"
  from assms(2) [OF this(2)] obtain db0 sid ep resp g where "receipts db0 = receipts db"
      "db' = insert_receipt c sid ep resp db0" "res = (resp, g, False)" unfolding answering_def by blast
  then show ?thesis using \<open>replay_goal_command c db = Inr None\<close>
    by (simp add: answered_insert receipts_insert was_replayed_def)
qed (simp add: replay_iff)

text \<open>Every command that succeeds can be sent again, at any later time, with no effect.\<close>

definition retryable ::
    "goal_command \<Rightarrow> (session_db \<Rightarrow> goal_error + session_db \<times> command_result) \<Rightarrow> session_db \<Rightarrow> session_db \<Rightarrow>
     command_result \<Rightarrow> bool" where
  "retryable c f db db' res =
     (answered c res db' \<and> receipts_extend db db' \<and> (was_replayed res \<longrightarrow> db' = db) \<and>
      (\<forall>db2. answered c res db2 \<longrightarrow>
         f db2 = Inr (db2, (fst res, goal_of_key (cmd_session_key c) (goals db2), True))))"

lemma set_retryable:
  assumes "set_goal k sid ep obj gid t m cmd ts db = Inr (db', res)"
  shows "\<exists>c. retryable c (set_goal k sid ep obj gid t m cmd ts) db db' res"
proof -
  obtain g c where g: "new_goal gid (canonicalize_session_key (Some k)) sid ep obj
        (Some (t_task_id t)) (Some m) ts = Inr g" "prepare_goal_command cmd ''set'' (g_session_key g) = Inr c"
    and ran: "ran c (\<lambda>db db' res. start_goal g c t m db = Inr (db', res)) db db' res"
    using set_cases [OF assms] by blast
  have "answered c res db' \<and> receipts_extend db db' \<and> (was_replayed res \<longrightarrow> db' = db)"
  proof (rule ran_answered [OF ran])
    fix db1 res1 assume "start_goal g c t m db = Inr (db1, res1)"
    then show "answering db c db1 res1"
      unfolding start_goal_def Let_def
      by (auto simp: insert_goal_Inr insert_agent_task_Inr intro!: answering_insert split: option.splits)
  qed
  moreover have "set_goal k sid ep obj gid t m cmd ts db2 =
      Inr (db2, (fst res, goal_of_key (cmd_session_key c) (goals db2), True))" if "answered c res db2" for db2
    using g once_again [OF that] by (simp add: set_goal_def)
  ultimately show ?thesis unfolding retryable_def by blast
qed

lemma edit_retryable:
  assumes "edit_goal k x obj cmd ad ts db = Inr (db', res)"
  shows "\<exists>c. retryable c (edit_goal k x obj cmd ad ts) db db' res"
proof -
  obtain c o' where c: "prepare_goal_command cmd ''edit'' (canonicalize_session_key (Some k)) = Inr c"
      "normalize_goal_objective obj = Inr o'"
    and ran: "ran c (\<lambda>db db' res. \<exists>g. require_expected_goal (canonicalize_session_key (Some k)) x db = Inr g \<and>
      \<not> (g_status g = Complete \<and> g_active_task g \<noteq> None) \<and>
      answer c (edited o' ts g) (adopt_edit ad (edited o' ts g) ts
        (update_goals (fenced (canonicalize_session_key (Some k)) x) (edited o' ts) db)) = (db', res)) db db' res"
    using edit_cases [OF assms] by blast
  have "answered c res db' \<and> receipts_extend db db' \<and> (was_replayed res \<longrightarrow> db' = db)"
    by (rule ran_answered [OF ran]) (auto elim!: answering_answer)
  moreover have "edit_goal k x obj cmd ad ts db2 =
      Inr (db2, (fst res, goal_of_key (cmd_session_key c) (goals db2), True))" if "answered c res db2" for db2
    using c once_again [OF that] by (simp add: edit_goal_def Let_def)
  ultimately show ?thesis unfolding retryable_def by blast
qed

lemma pause_retryable:
  assumes "pause_goal k x cmd r ts db = Inr (db', res)"
  shows "\<exists>c. retryable c (pause_goal k x cmd r ts) db db' res"
proof -
  obtain c rr where c: "prepare_goal_command cmd ''pause'' (canonicalize_session_key (Some k)) = Inr c"
    and ran: "ran c (\<lambda>db db' res. \<exists>g. require_expected_goal (canonicalize_session_key (Some k)) x db = Inr g \<and>
      g_status g = Active \<and> answer c (paused_by_user rr ts g)
        (update_goals (fenced (canonicalize_session_key (Some k)) x) (paused_by_user rr ts) db) = (db', res)) db db' res"
    using pause_cases [OF assms] by blast
  have "answered c res db' \<and> receipts_extend db db' \<and> (was_replayed res \<longrightarrow> db' = db)"
    by (rule ran_answered [OF ran]) (auto elim!: answering_answer)
  moreover obtain nr where "normalize_goal_reason (PyStr r) = Inr nr"
    using assms c unfolding pause_goal_def by (auto simp: Let_def)
  then have "pause_goal k x cmd r ts db2 =
      Inr (db2, (fst res, goal_of_key (cmd_session_key c) (goals db2), True))" if "answered c res db2" for db2
    using c once_again [OF that] by (simp add: pause_goal_def Let_def)
  ultimately show ?thesis unfolding retryable_def by blast
qed

lemma resume_retryable:
  assumes "resume_goal k x cmd ts db = Inr (db', res)"
  shows "\<exists>c. retryable c (resume_goal k x cmd ts) db db' res"
proof -
  obtain c where c: "prepare_goal_command cmd ''resume'' (canonicalize_session_key (Some k)) = Inr c"
    and ran: "ran c (\<lambda>db db' res. \<exists>g. require_expected_goal (canonicalize_session_key (Some k)) x db = Inr g \<and>
      g_status g \<in> {Paused, Blocked, Usage_Limited} \<and> answer c (resumed ts g)
        (update_goals (fenced (canonicalize_session_key (Some k)) x) (resumed ts) db) = (db', res)) db db' res"
    using resume_cases [OF assms] by blast
  have "answered c res db' \<and> receipts_extend db db' \<and> (was_replayed res \<longrightarrow> db' = db)"
    by (rule ran_answered [OF ran]) (auto elim!: answering_answer)
  moreover have "resume_goal k x cmd ts db2 =
      Inr (db2, (fst res, goal_of_key (cmd_session_key c) (goals db2), True))" if "answered c res db2" for db2
    using c once_again [OF that] by (simp add: resume_goal_def Let_def)
  ultimately show ?thesis unfolding retryable_def by blast
qed

lemma clear_retryable:
  assumes "clear_goal k x cmd db = Inr (db', res)"
  shows "\<exists>c. retryable c (clear_goal k x cmd) db db' res"
proof -
  obtain c where c: "prepare_goal_command cmd ''clear'' (canonicalize_session_key (Some k)) = Inr c"
    and ran: "ran c (\<lambda>db db' res. \<exists>g response. require_expected_goal (canonicalize_session_key (Some k)) x db = Inr g \<and>
      db' = insert_receipt c (g_session_id g) (g_epoch g) response ((revoke_update g db)\<lparr>goals :=
        sql_delete (fenced (canonicalize_session_key (Some k)) x) (goals db)\<rparr>) \<and>
      res = (response, None, False)) db db' res"
    using clear_cases [OF assms] by blast
  have "answered c res db' \<and> receipts_extend db db' \<and> (was_replayed res \<longrightarrow> db' = db)"
    by (rule ran_answered [OF ran]) (auto intro!: answering_insert)
  moreover have "clear_goal k x cmd db2 =
      Inr (db2, (fst res, goal_of_key (cmd_session_key c) (goals db2), True))" if "answered c res db2" for db2
    using c once_again [OF that] by (simp add: clear_goal_def Let_def)
  ultimately show ?thesis unfolding retryable_def by blast
qed

lemma command_retryable:
  assumes "command_run op = Some f" and "f db = Inr (db', res)"
  shows "\<exists>c. retryable c f db db' res"
  using assms
  by (cases op) (auto intro!: set_retryable edit_retryable pause_retryable resume_retryable clear_retryable)

text \<open>Receipts are never withdrawn.\<close>

lemma task_side_receipts:
  "accept_goal_continuation u5 x n t mt rb gd ts db = Inr (db', r1) \<Longrightarrow> receipts db' = receipts db"
  "claim_goal_for_queued_task cand tid m ts db = Inr (db', r2) \<Longrightarrow> receipts db' = receipts db"
  "claim_current_goal sid ep t ts db = Inr (db', r3) \<Longrightarrow> receipts db' = receipts db"
  "commit_goal_terminal c st rs ts db = Inr (db', r4) \<Longrightarrow> receipts db' = receipts db"
  "update_goal_progress c e s ts db = Inr (db', r4) \<Longrightarrow> receipts db' = receipts db"
  "settle_goal_task c mt rb ul se pr ts db = Inr (db', r3) \<Longrightarrow> receipts db' = receipts db"
proof -
  show "receipts db' = receipts db" if "accept_goal_continuation u5 x n t mt rb gd ts db = Inr (db', r1)"
    using continuation_cases [OF that] by auto
  show "receipts db' = receipts db" if "claim_goal_for_queued_task cand tid m ts db = Inr (db', r2)"
    using that unfolding claim_goal_for_queued_task_def Let_def
    by (auto split: option.splits if_splits sum.splits)
  show "receipts db' = receipts db" if "claim_current_goal sid ep t ts db = Inr (db', r3)"
    using that unfolding claim_current_goal_def Let_def
    by (auto simp: insert_agent_task_Inr split: option.splits if_splits)
  show "receipts db' = receipts db" if "commit_goal_terminal c st rs ts db = Inr (db', r4)"
    using commit_cases [OF that] by (auto simp: commit_on_goal_Inr)
  show "receipts db' = receipts db" if "update_goal_progress c e s ts db = Inr (db', r4)"
    using progress_cases [OF that] by auto
  show "receipts db' = receipts db" if "settle_goal_task c mt rb ul se pr ts db = Inr (db', r3)"
    using settle_cases [OF that] by auto
qed

lemma boundary_receipts:
  "compensate_goal_task c r ts db = Inr (db', r3) \<Longrightarrow> receipts db' = receipts db"
  "pause_goal_for_system k gid n r ts db = Inr (db', r3) \<Longrightarrow> receipts db' = receipts db"
  "increment_epoch k db = Some (db', e) \<Longrightarrow> receipts db' = receipts db"
  "receipts (fst (claim_goal_objective_update u ts db)) = receipts db"
  "receipts (fst (apply_goal_objective_update u i mc ts db)) = receipts db"
proof -
  show "receipts db' = receipts db" if "compensate_goal_task c r ts db = Inr (db', r3)"
    using that unfolding compensate_goal_task_def by (auto simp: Let_def split: option.splits if_splits)
  show "receipts db' = receipts db" if "pause_goal_for_system k gid n r ts db = Inr (db', r3)"
    using that unfolding pause_goal_for_system_def by (auto simp: Let_def split: option.splits if_splits)
  show "receipts db' = receipts db" if "increment_epoch k db = Some (db', e)"
    using that by (auto simp: increment_epoch_def Let_def)
  show "receipts (fst (claim_goal_objective_update u ts db)) = receipts db"
    by (auto simp: claim_goal_objective_update_def Let_def split: option.splits)
  show "receipts (fst (apply_goal_objective_update u i mc ts db)) = receipts db"
    by (auto simp: apply_goal_objective_update_def Let_def split: option.splits)
qed

lemma step_command: "command_run op = Some f \<Longrightarrow> goal_step u5 db op = after db (f db)"
  by (cases op) auto

lemma after_receipts:
  "(\<And>db' a. r = Inr (db', a) \<Longrightarrow> receipts db' = receipts db) \<Longrightarrow> receipts (after db r) = receipts db"
  by (cases r) (auto simp: after_def)

lemma step_receipts: "receipts_extend db (goal_step u5 db op)"
proof (cases "command_run op")
  case None
  then have "receipts (goal_step u5 db op) = receipts db"
    by (cases op) (auto intro!: after_receipts dest: task_side_receipts boundary_receipts(1-3) recovery_tables(2)
        simp: boundary_receipts(4,5) split: option.split)
  then show ?thesis by (rule receipts_same)
next
  case (Some f)
  have "receipts_extend db (after db (f db))"
    using command_retryable [OF Some, of db] by (cases "f db") (auto simp: after_def retryable_def)
  then show ?thesis by (simp add: step_command [OF Some])
qed

lemma run_receipts: "receipts_extend db (goal_run u5 db ops)"
  by (induction ops arbitrary: db) (auto intro: receipts_trans [OF step_receipts])

section \<open>Commands are carried out once\<close>

text \<open>C14: A goal command (set, edit, pause, resume or clear) sent again after any further
  transactions changes nothing and is answered with the recorded response, flagged as replayed.\<close>

theorem command_carried_out_once:
  assumes "command_run op = Some f" and "f db = Inr (db', res)"
  shows "\<exists>goal. f (goal_run u5 db' ops) = Inr (goal_run u5 db' ops, (fst res, goal, True))"
proof -
  obtain c where c: "retryable c f db db' res" using command_retryable [OF assms] by blast
  then have "answered c res (goal_run u5 db' ops)"
    using answered_stays [OF _ run_receipts] by (simp add: retryable_def)
  then show ?thesis using c unfolding retryable_def by blast
qed

section \<open>A fence admits one change\<close>

lemma ran_fresh: "ran c body db db' res \<Longrightarrow> \<not> was_replayed res \<Longrightarrow> body db db' res"
  unfolding ran_def replay_iff was_replayed_def by (metis snd_conv)

lemma fresh_past:
  assumes "keys_ok db" and "command_run op = Some f" and "fence_of op = Some x"
    and "f db = Inr (db', res)" and "\<not> was_replayed res"
  shows "past_state (x_goal_id x) (x_state_revision x) db'"
proof (cases op)
  case (Edit_Op k x' obj cmd ad ts)
  then have "edit_goal k x obj cmd ad ts db = Inr (db', res)" using assms(2-4) by auto
  from edit_cases [OF this] ran_fresh [OF _ assms(5)] obtain c o' g where
      g: "require_expected_goal (canonicalize_session_key (Some k)) x db = Inr g"
    and a: "answer c (edited o' ts g) (adopt_edit ad (edited o' ts g) ts
        (update_goals (fenced (canonicalize_session_key (Some k)) x) (edited o' ts) db)) = (db', res)"
    by blast
  show ?thesis using answer_goals [OF a]
    by (intro fenced_past [OF assms(1) g, of "edited o' ts"]) (simp_all add: edited_def Let_def)
next
  case (Pause_Op k x' cmd r ts)
  then have "pause_goal k x cmd r ts db = Inr (db', res)" using assms(2-4) by auto
  from pause_cases [OF this] ran_fresh [OF _ assms(5)] obtain c rr g where
      g: "require_expected_goal (canonicalize_session_key (Some k)) x db = Inr g"
    and a: "answer c (paused_by_user rr ts g)
        (update_goals (fenced (canonicalize_session_key (Some k)) x) (paused_by_user rr ts) db) = (db', res)"
    by blast
  show ?thesis using answer_goals [OF a]
    by (intro fenced_past [OF assms(1) g, of "paused_by_user rr ts"]) (simp_all add: paused_by_user_def)
next
  case (Resume_Op k x' cmd ts)
  then have "resume_goal k x cmd ts db = Inr (db', res)" using assms(2-4) by auto
  from resume_cases [OF this] ran_fresh [OF _ assms(5)] obtain c g where
      g: "require_expected_goal (canonicalize_session_key (Some k)) x db = Inr g"
    and a: "answer c (resumed ts g)
        (update_goals (fenced (canonicalize_session_key (Some k)) x) (resumed ts) db) = (db', res)"
    by blast
  show ?thesis using answer_goals [OF a]
    by (intro fenced_past [OF assms(1) g, of "resumed ts"]) (simp_all add: resumed_def)
next
  case (Clear_Op k x' cmd)
  then have "clear_goal k x cmd db = Inr (db', res)" using assms(2-4) by auto
  from clear_cases [OF this] ran_fresh [OF _ assms(5)] obtain c g response where
      g: "require_expected_goal (canonicalize_session_key (Some k)) x db = Inr g"
    and "db' = insert_receipt c (g_session_id g) (g_epoch g) response ((revoke_update g db)\<lparr>goals :=
        sql_delete (fenced (canonicalize_session_key (Some k)) x) (goals db)\<rparr>)"
    by blast
  then show ?thesis by (intro cleared_past [OF assms(1) g]) (simp add: insert_receipt_def)
qed (use assms in simp_all)

text \<open>C35: Of the commands that carry the same expectation of a goal (its id and state revision), one
  changes it; any later one, whatever transactions lie between, is refused or only replays a
  recorded answer.\<close>

theorem fence_admits_one_change:
  assumes "keys_ok db" and "command_run op = Some f" and "fence_of op = Some x"
    and "f db = Inr (db', res)" and "\<not> was_replayed res"
    and "sets_other (x_goal_id x) ops" and "command_run op' = Some f'" and "fence_of op' = Some x"
    and "f' (goal_run u5 db' ops) = Inr (db2, res')"
  shows "was_replayed res' \<and> db2 = goal_run u5 db' ops"
proof -
  have keys': "keys_ok db'"
    using step_move [OF assms(1), of op u5] assms(2,4)
    by (cases op) (auto simp: each_move_def after_def)
  then have keys: "keys_ok (goal_run u5 db' ops)" by (rule run_keys)
  have past: "past_state (x_goal_id x) (x_state_revision x) (goal_run u5 db' ops)"
    using run_past(1) [OF keys' assms(6)] fresh_past [OF assms(1-5)] by blast
  have "was_replayed res'"
  proof (rule ccontr)
    assume fresh: "\<not> was_replayed res'"
    have "\<exists>k g. require_expected_goal k x (goal_run u5 db' ops) = Inr g"
      using assms(7-9) fresh
      by (cases op') (auto dest!: edit_cases pause_cases resume_cases clear_cases ran_fresh)
    then show False using past_refuses [OF keys past] by blast
  qed
  moreover have "was_replayed res' \<longrightarrow> db2 = goal_run u5 db' ops"
    using command_retryable [OF assms(7,9)] by (auto simp: retryable_def)
  ultimately show ?thesis by blast
qed

section \<open>An edited objective cuts off the turn that worked on the old one\<close>

lemma edit_objective_past:
  assumes "keys_ok db" and "edit_goal k x obj cmd ad ts db = Inr (db', res)" and "\<not> was_replayed res"
    and "goal_of_id (x_goal_id x) (goals db) = Some g"
  shows "past_objective (x_goal_id x) (g_objective_revision g) db'"
  unfolding past_objective_def
proof (intro allI impI)
  fix k' h assume h: "goal_at db' k' = Some h" "g_goal_id h = x_goal_id x"
  let ?k = "canonicalize_session_key (Some k)"
  from edit_cases [OF assms(2)] ran_fresh [OF _ assms(3)] obtain c o' g' where
      g': "require_expected_goal ?k x db = Inr g'"
    and a: "answer c (edited o' ts g') (adopt_edit ad (edited o' ts g') ts
        (update_goals (fenced ?k x) (edited o' ts) db)) = (db', res)"
    by blast
  have db': "goals db' = sql_update (fenced ?k x) (edited o' ts) (goals db)"
    using answer_goals [OF a] by simp
  have g: "g \<in> set (goals db)" "g_goal_id g = x_goal_id x" "g' = g" "fenced ?k x g"
    using assms(1,4) g' same_id [OF assms(1), of g g']
    by (auto simp: goal_of_id_Some require_expected_Inr goal_at_Some fenced_def)
  obtain r where r: "r \<in> set (goals db)" "h = (if fenced ?k x r then edited o' ts r else r)"
    using goal_rows.lookup_Some [of k' "goals db'" h] h(1) by (auto simp: goal_at_def db' set_sql_update)
  then have "r = g" using h(2) g by (intro same_id [OF assms(1)]) (auto split: if_splits)
  then show "g_objective_revision g < g_objective_revision h" using r g by (simp add: edited_def Let_def)
qed

text \<open>C36: After an edit of the objective, whatever goal transactions follow (none of them reusing the
  goal's id for a new goal), a terminal commit, complete or blocked, and a report of progress by
  a turn that works for an earlier objective revision are refused. The settlement of such a turn
  is not covered: it can still block the goal when the turn failed.\<close>

theorem edited_objective_refuses_old_turn:
  assumes "keys_ok db" and "edit_goal k x obj cmd ad ts db = Inr (db', res)" and "\<not> was_replayed res"
    and "goal_of_id (x_goal_id x) (goals db) = Some g"
    and "c_goal_id ctx = x_goal_id x" and "c_objective_revision ctx \<le> g_objective_revision g"
    and "sets_other (x_goal_id x) ops"
  shows "(\<exists>e. commit_goal_terminal ctx st rs ts' (goal_run u5 db' ops) = Inl e) \<and>
    (\<exists>e. update_goal_progress ctx ex steps ts' (goal_run u5 db' ops) = Inl e)"
proof -
  let ?db = "goal_run u5 db' ops"
  have keys': "keys_ok db'" using edit_move [OF assms(1,2)] by (simp add: one_move_def)
  have past: "past_objective (x_goal_id x) (g_objective_revision g) ?db"
    using run_past(2) [OF keys' assms(7)] edit_objective_past [OF assms(1-4)] by blast
  have no: "g_objective_revision h \<noteq> c_objective_revision ctx"
    if "goal_of_id (c_goal_id ctx) (goals ?db) = Some h" for h
  proof -
    have "h \<in> set (goals ?db)" "g_goal_id h = x_goal_id x"
      using that assms(5) run_keys [OF keys'] by (simp_all add: goal_of_id_Some)
    then have "g_objective_revision g < g_objective_revision h"
      using past run_keys [OF keys'] unfolding past_objective_def by (metis goal_at_Some)
    then show ?thesis using assms(6) by simp
  qed
  have "\<nexists>p. commit_goal_terminal ctx st rs ts' ?db = Inr p"
    using commit_cases [of ctx st rs ts' ?db] no by fastforce
  moreover have "\<nexists>p. update_goal_progress ctx ex steps ts' ?db = Inr p"
    using progress_cases [of ctx ex steps ts' ?db] no by fastforce
  ultimately show ?thesis by (metis sum.exhaust)
qed

section \<open>A task keeps its goal until it is settled\<close>

lemma move_owner:
  assumes "goal_move l (Some g) (Some h)" and "g_active_task g = Some t" and "\<forall>i. l \<noteq> M_Set i"
    and "l \<noteq> M_Settle t" and "l \<noteq> M_Compensate t" and "l \<noteq> M_Restart"
  shows "g_active_task h = Some t"
  using assms by cases (auto simp: row_moves Let_def)

lemma moves_owner:
  assumes "moves {l. l \<noteq> M_Set gid \<and> l \<noteq> M_Settle t \<and> l \<noteq> M_Compensate t \<and> l \<noteq> M_Restart} a b"
    and "\<And>g. a = Some g \<Longrightarrow> g_goal_id g = gid \<Longrightarrow> g_active_task g = Some t"
  shows "\<forall>h. b = Some h \<longrightarrow> g_goal_id h = gid \<longrightarrow> g_active_task h = Some t"
  using assms(1)
proof (induction rule: moves_induct)
  case (step l b c)
  show ?case
  proof (intro allI impI)
    fix h assume h: "c = Some h" "g_goal_id h = gid"
    then have ns: "\<forall>i. l \<noteq> M_Set i" and "\<exists>g. b = Some g \<and> g_goal_id h = g_goal_id g"
      using move_id [of l b h] step.hyps by auto
    then obtain g where g: "b = Some g" "g_goal_id g = gid" using h(2) by auto
    then show "g_active_task h = Some t"
      using move_owner [of l g h t] step.IH step.hyps ns h(1) by auto
  qed
qed (use assms(2) in blast)

text \<open>The settlements of a history, by the task they settle; a restart settles or releases every owner.\<close>

definition settles :: "string \<Rightarrow> goal_op \<Rightarrow> bool" where
  "settles t op = (M_Settle t \<in> op_kinds op \<or> M_Compensate t \<in> op_kinds op \<or> M_Restart \<in> op_kinds op)"

theorem owner_kept_until_settled:
  assumes "keys_ok db" and "goal_at db k = Some g" and "g_active_task g = Some t"
    and "\<forall>op \<in> set ops. \<not> settles t op" and "sets_other (g_goal_id g) ops"
    and "goal_at (goal_run u5 db ops) k = Some h"
  shows "g_goal_id h = g_goal_id g \<longrightarrow> g_active_task h = Some t"
proof -
  have "moves {l. l \<noteq> M_Set (g_goal_id g) \<and> l \<noteq> M_Settle t \<and> l \<noteq> M_Compensate t \<and> l \<noteq> M_Restart}
      (goal_at db k) (goal_at (goal_run u5 db ops) k)"
    using assms(1,4,5) by (intro run_moves) (auto simp: sets_other_def settles_def)
  then show ?thesis using moves_owner [of "g_goal_id g" t] assms(2,3,6) by auto
qed

section \<open>Settlement happens once\<close>

lemma update_goals_lookup:
  assumes "keys_ok db" and "goal_of_id i (goals db) = Some g"
    and "\<And>r. g_session_key (f r) = g_session_key r \<and> g_goal_id (f r) = g_goal_id r" and "p g"
  shows "goal_of_id i (goals (update_goals p f db)) = Some (f g)"
  using assms by (simp add: update_goals_def goal_ids.lookup_update)

theorem settled_once:
  assumes "keys_ok db" and "settle_goal_task ctx mt rb ul se pr ts db = Inr (db', Some g)"
    and "1 \<le> mt'" and "mt' \<le> 500" and "60 \<le> rb'" and "rb' \<le> 86400"
  shows "g_active_task g = None \<and> settle_goal_task ctx mt' rb' ul' se' pr' ts' db' = Inr (db', None) \<and>
    (\<exists>db2. compensate_goal_task ctx r ts' db' = Inr (db2, None) \<and> goals db2 = goals db')"
proof -
  obtain g0 z t where g0: "task_of (c_task_id ctx) (tasks db) = Some t" "\<not> unfinished t" "task_context t = Some ctx"
      "goal_of_id (c_goal_id ctx) (goals db) = Some g0" "g_active_task g0 = Some (c_task_id ctx)"
    and db': "db' = update_goals (owner_row ctx) (settled z (kept_result (c_task_id ctx) g0) (task_duration t)
               (turn_usage_totals ctx db) ts) db"
    and g: "g = settled z (kept_result (c_task_id ctx) g0) (task_duration t) (turn_usage_totals ctx db) ts g0"
    using settle_cases [OF assms(2)] by blast
  have idle: "g_active_task g = None" by (simp add: g settled_def)
  have "owner_row ctx g0" using g0 assms(1) by (simp add: owner_row_def goal_of_id_Some)
  then have row: "goal_of_id (c_goal_id ctx) (goals db') = Some g"
    unfolding db' g using update_goals_lookup [OF assms(1) g0(4)] by simp
  have task: "task_of (c_task_id ctx) (tasks db') = Some t" using g0(1) by (simp add: db' update_goals_def)
  have "settle_goal_task ctx mt' rb' ul' se' pr' ts' db' = Inr (db', None)"
    using task g0 row idle assms(3-) by (simp add: settle_goal_task_def check_guardrails_def)
  moreover have "compensate_goal_task ctx r ts' db' = Inr (abandon_task (c_task_id ctx) r ts' db', None)"
    using task g0 row idle by (simp add: compensate_goal_task_def Let_def)
  ultimately show ?thesis using idle by simp
qed

section \<open>Startup recovery leaves nothing running\<close>

definition recovered :: "goal_record \<Rightarrow> goal_record \<Rightarrow> bool" where
  "recovered g h =
     (g_goal_id h = g_goal_id g \<and> g_objective h = g_objective g \<and> g_progress h = g_progress g \<and>
      (g_status h = g_status g \<or> g_status g = Active \<and> g_status h = Paused))"

lemma update_goals_at:
  "(\<And>r. g_session_key (f r) = g_session_key r) \<Longrightarrow>
   goal_at (update_goals p f db) k = map_option (\<lambda>r. if p r then f r else r) (goal_at db k)"
  by (simp add: goal_at_def update_goals_def goal_rows.lookup_update)

lemma settle_owner_recovered:
  "\<exists>h'. goal_at (settle_owner reason ts db ow) k = map_option h' (goal_at db k) \<and> (\<forall>h. recovered h (h' h))"
proof (cases "settle_owner reason ts db ow = db")
  case True
  then show ?thesis by (intro exI [of _ id]) (simp add: recovered_def option.map_id)
next
  case False
  then obtain ctx u d b where "settle_owner reason ts db ow = update_goals (owner_row ctx) (restart_settled reason b d u ts) db"
    unfolding settle_owner_def Let_def by (auto split: option.splits if_splits)
  then show ?thesis
    by (intro exI [of _ "\<lambda>r. if owner_row ctx r then restart_settled reason b d u ts r else r"])
      (simp add: update_goals_at recovered_def restart_settled_def Let_def)
qed

lemma settle_owners_recovered:
  "goal_at db k = Some g \<Longrightarrow> \<exists>h. goal_at (foldl (settle_owner reason ts) db owners) k = Some h \<and> recovered g h"
proof (induction owners arbitrary: db g)
  case (Cons ow owners)
  obtain h' where h': "goal_at (settle_owner reason ts db ow) k = Some (h' g)" "recovered g (h' g)"
    using settle_owner_recovered [of reason ts db ow k] Cons.prems by auto
  from Cons.IH [OF h'(1)] show ?case using h'(2) by (auto simp: recovered_def)
qed (simp add: recovered_def)

theorem recovery_stops_every_goal:
  "(\<forall>g \<in> set (goals (restart_goals reason ts owners db)). g_status g \<noteq> Active \<and> g_active_task g = None) \<and>
   (\<forall>k g. goal_at db k = Some g \<longrightarrow> (\<exists>h. goal_at (restart_goals reason ts owners db) k = Some h \<and>
      g_goal_id h = g_goal_id g \<and> g_objective h = g_objective g \<and> g_progress h = g_progress g \<and>
      g_status h = (if g_status g = Active then Paused else g_status g)))"
proof (intro conjI allI impI)
  show "\<forall>g \<in> set (goals (restart_goals reason ts owners db)). g_status g \<noteq> Active \<and> g_active_task g = None"
    using restart_goals_idle by blast
  fix k g assume "goal_at db k = Some g"
  then obtain h where h: "goal_at (foldl (settle_owner reason ts) db owners) k = Some h" "recovered g h"
    using settle_owners_recovered by blast
  define f where "f r = (if g_status r = Active \<or> g_active_task r \<noteq> None then restart_released reason ts r else r)" for r
  have at: "goal_at (restart_goals reason ts owners db) k = Some (f h)"
    using h(1) by (simp add: restart_goals_def update_goals_at f_def)
  moreover have "recovered g (f h)" using h(2) by (auto simp: recovered_def f_def restart_released_def Let_def)
  moreover have "g_status (f h) \<noteq> Active" by (simp add: f_def restart_released_def Let_def)
  ultimately show "\<exists>h. goal_at (restart_goals reason ts owners db) k = Some h \<and>
      g_goal_id h = g_goal_id g \<and> g_objective h = g_objective g \<and> g_progress h = g_progress g \<and>
      g_status h = (if g_status g = Active then Paused else g_status g)"
    by (auto simp: recovered_def)
qed

end
