(* ===== verification/Goal_Ownership.thy ===== *)
theory Goal_Ownership
  imports Goal_Commands
begin

text \<open>
  The abstract contract of a session's goal: its status and the task that owns it, and the few
  events that change them. Every history of goal transactions is, seen through this view, a run
  of the abstract machine, in which each transaction is at most one event, of its own kind.
\<close>

section \<open>The abstract machine\<close>

datatype goal_view = No_Goal | Goal_In goal_status "string option"

datatype view_event =
    is_Open: Open string
  | Revise
  | Suspend
  | Reopen
  | Drop
  | is_Take_Turn: Take_Turn string
  | is_Deliver: Deliver goal_status
  | is_Release: Release goal_status
  | Halt

text \<open>A turn that ends may leave an active goal in any status but complete.\<close>

fun release_ok :: "goal_status \<Rightarrow> goal_status \<Rightarrow> bool" where
  "release_ok Active s' = (s' \<noteq> Complete)"
| "release_ok Usage_Limited s' = (s' = Usage_Limited \<or> s' = Paused)"
| "release_ok s s' = (s' = s)"

fun view_next :: "view_event \<Rightarrow> goal_view \<Rightarrow> goal_view option" where
  "view_next (Open t) No_Goal = Some (Goal_In Active (Some t))"
| "view_next (Open t) (Goal_In s w) =
     (if s = Complete \<and> w = None then Some (Goal_In Active (Some t)) else None)"
| "view_next Revise (Goal_In s w) =
     (if s \<noteq> Complete then Some (Goal_In s w) else if w = None then Some (Goal_In Active None) else None)"
| "view_next Suspend (Goal_In s w) = (if s = Active then Some (Goal_In Paused w) else None)"
| "view_next Reopen (Goal_In s w) =
     (if s = Active \<or> s = Complete then None else Some (Goal_In Active w))"
| "view_next Drop (Goal_In s w) = Some No_Goal"
| "view_next (Take_Turn t) (Goal_In s w) =
     (if s = Active \<and> w = None then Some (Goal_In Active (Some t)) else None)"
| "view_next (Deliver r) (Goal_In s w) =
     (if (s = Active \<or> s = Paused) \<and> w \<noteq> None \<and> (r = Complete \<or> r = Blocked) then Some (Goal_In r w) else None)"
| "view_next (Release s') (Goal_In s w) =
     (if w \<noteq> None \<and> release_ok s s' then Some (Goal_In s' None) else None)"
| "view_next Halt (Goal_In s w) =
     (if s = Active \<or> w \<noteq> None then Some (Goal_In (if s = Active then Paused else s) None) else None)"
| "view_next _ No_Goal = None"

text \<open>The events that a transaction may be.\<close>

fun allowed :: "goal_op \<Rightarrow> view_event \<Rightarrow> bool" where
  "allowed (Set_Op k sid ep obj gid t m cmd ts) e = is_Open e"
| "allowed (Edit_Op k x obj cmd ad ts) e = (e = Revise)"
| "allowed (Pause_Op k x cmd r ts) e = (e = Suspend)"
| "allowed (Resume_Op k x cmd ts) e = (e = Reopen)"
| "allowed (Clear_Op k x cmd) e = (e = Drop)"
| "allowed (Continue_Op x n t mt rb gd ts) e = (e = Suspend \<or> is_Take_Turn e)"
| "allowed (Claim_Queued_Op c t m ts) e = is_Take_Turn e"
| "allowed (Claim_Current_Op sid ep t ts) e = is_Take_Turn e"
| "allowed (Commit_Op c st r ts) e = is_Deliver e"
| "allowed (Progress_Op c ex s ts) e = False"
| "allowed (Claim_Update_Op u ts) e = False"
| "allowed (Apply_Update_Op u i mc ts) e = False"
| "allowed (Settle_Op c mt rb ul se pr ts) e = is_Release e"
| "allowed (Compensate_Op c r ts) e = is_Release e"
| "allowed (System_Pause_Op k g n r ts) e = (e = Suspend)"
| "allowed (Epoch_Op k) e = (e = Drop)"
| "allowed (Restart_Op env r ts) e = (e = Halt)"
| "allowed (Tasks_Change f) e = False"

text \<open>A history of the abstract machine along a history of transactions.\<close>

inductive view_path :: "goal_op list \<Rightarrow> goal_view \<Rightarrow> goal_view \<Rightarrow> bool" where
  Done: "view_path [] v v"
| Skip: "view_path ops v w \<Longrightarrow> view_path (op # ops) v w"
| Event: "allowed op e \<Longrightarrow> view_next e v = Some u \<Longrightarrow> view_path ops u w \<Longrightarrow> view_path (op # ops) v w"

inductive_cases view_path_Cons: "view_path (op # ops) v w"

definition view_of :: "goal_record option \<Rightarrow> goal_view" where
  "view_of a = (case a of None \<Rightarrow> No_Goal | Some g \<Rightarrow> Goal_In (g_status g) (g_active_task g))"

section \<open>Simulation\<close>

lemma allowed_kinds:
  "M_Set i \<in> op_kinds op \<Longrightarrow> allowed op (Open t)"
  "M_Edit \<in> op_kinds op \<Longrightarrow> allowed op Revise"
  "M_Pause \<in> op_kinds op \<Longrightarrow> allowed op Suspend"
  "M_Resume \<in> op_kinds op \<Longrightarrow> allowed op Reopen"
  "M_Clear \<in> op_kinds op \<Longrightarrow> allowed op Drop"
  "M_Limit \<in> op_kinds op \<Longrightarrow> allowed op Suspend"
  "M_Continue mt \<in> op_kinds op \<Longrightarrow> allowed op (Take_Turn t)"
  "M_Claim \<in> op_kinds op \<Longrightarrow> allowed op (Take_Turn t)"
  "M_Result \<in> op_kinds op \<Longrightarrow> allowed op (Deliver st)"
  "M_Settle t \<in> op_kinds op \<Longrightarrow> allowed op (Release st)"
  "M_Compensate t \<in> op_kinds op \<Longrightarrow> allowed op (Release st)"
  "M_System_Pause \<in> op_kinds op \<Longrightarrow> allowed op Suspend"
  "M_Restart \<in> op_kinds op \<Longrightarrow> allowed op Halt"
  by (cases op; simp)+

lemma move_view:
  assumes "goal_move l a b" and "l \<in> op_kinds op"
  shows "view_of b = view_of a \<or> (\<exists>e. allowed op e \<and> view_next e (view_of a) = Some (view_of b))"
proof -
  have one: ?thesis if "allowed op e" and "view_next e (view_of a) = Some (view_of b)" for e
    using that by blast
  from assms(1) show ?thesis
  proof cases
    case (Set_Goal gid key sid ep obj t m ts g)
    have ok: "allowed op (Open t)" using Set_Goal(1) assms(2) by (auto intro: allowed_kinds(1))
    have "g_status g = Active" "g_active_task g = Some t" using Set_Goal new_goal_ok by blast+
    then show ?thesis using Set_Goal ok by (intro one [of "Open t"]) (auto simp: view_of_def split: option.split)
  next
    case (Edit obj g ts)
    have ok: "allowed op Revise" using Edit(1) assms(2) by (auto intro: allowed_kinds(2))
    show ?thesis by (rule one [OF ok]) (use Edit in \<open>auto simp: view_of_def edited_def Let_def\<close>)
  next
    case (Pause g r ts)
    have ok: "allowed op Suspend" using Pause(1) assms(2) by (auto intro: allowed_kinds(3))
    show ?thesis by (rule one [OF ok]) (use Pause in \<open>simp add: view_of_def paused_by_user_def\<close>)
  next
    case (Resume g ts)
    have ok: "allowed op Reopen" using Resume(1) assms(2) by (auto intro: allowed_kinds(4))
    show ?thesis by (rule one [OF ok]) (use Resume in \<open>auto simp: view_of_def resumed_def\<close>)
  next
    case (Clear g)
    have ok: "allowed op Drop" using Clear(1) assms(2) by (auto intro: allowed_kinds(5))
    show ?thesis by (rule one [OF ok]) (use Clear in \<open>simp add: view_of_def\<close>)
  next
    case (Limit g mt rb r ts)
    have ok: "allowed op Suspend" using Limit(1) assms(2) by (auto intro: allowed_kinds(6))
    show ?thesis by (rule one [OF ok]) (use Limit in \<open>simp add: view_of_def guardrail_paused_def\<close>)
  next
    case (Continue g mt rb t ts)
    have ok: "allowed op (Take_Turn t)" using Continue(1) assms(2) by (auto intro: allowed_kinds(7))
    show ?thesis by (rule one [OF ok]) (use Continue in \<open>simp add: view_of_def continued_def\<close>)
  next
    case (Claim g t ts)
    have ok: "allowed op (Take_Turn t)" using Claim(1) assms(2) by (auto intro: allowed_kinds(8))
    show ?thesis by (rule one [OF ok]) (use Claim in \<open>simp add: view_of_def claimed_by_def\<close>)
  next
    case (Result g t st r ts)
    have ok: "allowed op (Deliver st)" using Result(1) assms(2) by (auto intro: allowed_kinds(9))
    show ?thesis by (rule one [OF ok]) (use Result in \<open>auto simp: view_of_def finished_by_model_def\<close>)
  next
    case (Progress g t doc ts)
    then show ?thesis by (simp add: view_of_def with_progress_def)
  next
    case (Settle g t d z u ts)
    have ok: "allowed op (Release (z_status z))" using Settle(1) assms(2) by (auto intro: allowed_kinds(10))
    have "release_ok (g_status g) (z_status z)"
      using Settle by (cases "g_status g") (simp_all add: settlement_ok_def split: if_splits)
    then show ?thesis using Settle ok by (intro one [of "Release (z_status z)"]) (simp_all add: view_of_def settled_def)
  next
    case (Compensate g t d r cons u ts)
    have ok: "allowed op (Release (if g_status g \<in> {Complete, Blocked} then g_status g else Paused))" using Compensate(1) assms(2) by (auto intro: allowed_kinds(11))
    show ?thesis
      by (rule one [OF ok]) (use Compensate in \<open>cases "g_status g"; simp add: view_of_def compensated_def\<close>)
  next
    case (System_Pause g r ts)
    have ok: "allowed op Suspend" using System_Pause(1) assms(2) by (auto intro: allowed_kinds(12))
    show ?thesis by (rule one [OF ok]) (use System_Pause in \<open>simp add: view_of_def system_paused_def\<close>)
  next
    case (Restart_Settle g t d r b u ts)
    have ok: "allowed op Halt" using Restart_Settle(1) assms(2) by (auto intro: allowed_kinds(13))
    show ?thesis by (rule one [OF ok]) (use Restart_Settle in \<open>auto simp: view_of_def restart_settled_def Let_def\<close>)
  next
    case (Restart_Release g r ts)
    have ok: "allowed op Halt" using Restart_Release(1) assms(2) by (auto intro: allowed_kinds(13))
    show ?thesis by (rule one [OF ok]) (use Restart_Release in \<open>auto simp: view_of_def restart_released_def Let_def\<close>)
  qed
qed

text \<open>C3: Seen as its status and owning task, the goal of every session moves along an abstract
  ownership machine: in any history, each transaction is at most one event of it, and only one
  of its own kind (set opens, edit revises, pauses suspend, resume reopens, clear and a new
  epoch drop, continuation and claims take a turn of a free active goal, a terminal commit
  delivers, settlement and compensation release the owner, the startup recovery halts).
  Continuation may also suspend; a report of progress and a change of other tasks are none.\<close>

theorem goals_refine_ownership:
  assumes "keys_ok db"
  shows "view_path ops (view_of (goal_at db k)) (view_of (goal_at (goal_run u5 db ops) k))"
  using assms
proof (induction ops arbitrary: db)
  case (Cons op ops)
  let ?db = "goal_step u5 db op"
  have one: "each_move (op_kinds op) db ?db" by (rule step_move [OF Cons.prems])
  then have "keys_ok ?db" by (simp add: each_move_def)
  then have rest: "view_path ops (view_of (goal_at ?db k)) (view_of (goal_at (goal_run u5 ?db ops) k))" by (rule Cons.IH)
  have "view_of (goal_at ?db k) = view_of (goal_at db k) \<or>
      (\<exists>e. allowed op e \<and> view_next e (view_of (goal_at db k)) = Some (view_of (goal_at ?db k)))"
    using each_move_at [OF one, of k] move_view by metis
  then show ?case using rest by (auto intro: Skip Event)
qed (simp add: Done)

section \<open>Completion\<close>

text \<open>Nothing but the owning task's own result completes a goal.\<close>

lemma not_completed:
  "goal_move l (Some g) (Some h) \<Longrightarrow> l \<noteq> M_Result \<Longrightarrow> \<forall>i. l \<noteq> M_Set i \<Longrightarrow> g_status g \<noteq> Complete \<Longrightarrow> g_status h \<noteq> Complete"
  by (erule goal_move.cases) (auto simp: row_moves Let_def settlement_ok_def split: if_splits)

definition is_commit :: "goal_op \<Rightarrow> bool" where
  "is_commit op = (M_Result \<in> op_kinds op)"

theorem completed_by_its_task:
  assumes "keys_ok db" and "\<forall>k g. goal_at db k = Some g \<longrightarrow> g_status g \<noteq> Complete"
    and "goal_at (goal_run u5 db ops) k = Some h" and "g_status h = Complete"
  shows "\<exists>op \<in> set ops. is_commit op"
proof (rule ccontr)
  assume none: "\<not> (\<exists>op \<in> set ops. is_commit op)"
  have path: "moves {l. l \<noteq> M_Result} (goal_at db k) (goal_at (goal_run u5 db ops) k)"
    using assms(1) none by (intro run_moves) (auto simp: is_commit_def)
  have "\<forall>h. goal_at (goal_run u5 db ops) k = Some h \<longrightarrow> g_status h \<noteq> Complete"
    using path
  proof (induction rule: moves_induct)
    case (step l b c)
    show ?case
    proof (intro allI impI)
      fix h assume h: "c = Some h"
      show "g_status h \<noteq> Complete"
      proof (cases "\<exists>i. l = M_Set i")
        case True
        then show ?thesis using step.hyps(2) h by (auto elim!: goal_move.cases dest: new_goal_ok)
      next
        case False
        then obtain g where "b = Some g" using move_id [of l b h] step.hyps(2) h by auto
        then show ?thesis using not_completed [of l g h] step False h by auto
      qed
    qed
  qed (use assms(2) in blast)
  then show False using assms(3,4) by blast
qed

end
