(* ===== verification/Goal_Witnesses.thy ===== *)
theory Goal_Witnesses
  imports Goal_Ownership
begin

text \<open>
  A worked example: one session, its goal and the goal's first turn. Each property of the goal
  store is applied to it.
\<close>

section \<open>The example\<close>

definition demo_session :: session_row where
  "demo_session = \<lparr>s_session_key = ''k'', s_session_id = ''s'', s_epoch = 0,
     s_collaboration_mode = Default_Mode, s_collaboration_revision = 0,
     s_active_plan_revision = None, s_workspace_id = None, s_updated_at = 0\<rparr>"

definition demo_goal :: goal_record where
  "demo_goal = \<lparr>g_session_key = ''k'', g_session_id = ''s'', g_epoch = 0, g_goal_id = ''g'',
     g_objective = ''ship'', g_status = Active, g_state_revision = 1, g_objective_revision = 1,
     g_progress_revision = 0, g_progress = None, g_continuation_seq = 0, g_active_task = Some ''t'',
     g_source_message = Some ''m'', g_terminal_task = None, g_turns_started = 1,
     g_turns_settled = 0, g_window_turns = 1, g_active_time = 0, g_window_time = 0,
     g_usage = no_usage, g_pause_reason = None, g_blocked_reason = None,
     g_terminal_reason = None, g_created_at = 5, g_updated_at = 5, g_finished_at = None\<rparr>"

definition demo_context :: goal_context where
  "demo_context = goal_turn_context demo_goal ''t'' False"

definition demo_task :: "task_status \<Rightarrow> pydict option \<Rightarrow> agent_task" where
  "demo_task st d = \<lparr>t_task_id = ''t'', t_session_key = ''k'', t_agent_id = ''main'', t_status = st,
     t_created_at = 0, t_updated_at = 0, t_started_at = Some 5, t_finished_at = Some 9,
     t_terminal_reason = None, t_error_class = None, t_details = d\<rparr>"

definition demo_db :: "task_status \<Rightarrow> session_db" where
  "demo_db st = empty_db\<lparr>sessions := [demo_session], goals := [demo_goal],
     tasks := [demo_task st (Some [(''goal_context'', context_detail demo_context)])]\<rparr>"

definition demo_command :: "string \<Rightarrow> goal_command" where
  "demo_command action = \<lparr>cmd_source_scope = ''ui'', cmd_session_key = ''k'',
     cmd_client_request_id = ''00000000-0000-4000-8000-000000000000'', cmd_action = action,
     cmd_fingerprint = replicate 64 CHR ''a''\<rparr>"

definition demo_fence :: expected_goal where
  "demo_fence = \<lparr>x_session_id = ''s'', x_epoch = 0, x_goal_id = ''g'', x_state_revision = 1\<rparr>"

lemma demo_strip [simp]: "py_strip ''k'' = ''k''" "py_strip ''ui'' = ''ui''" "py_strip ''m'' = ''m''"
  "py_strip ''ship'' = ''ship''" "py_strip ''user'' = ''user''" "py_strip ''fly'' = ''fly''"
  by (simp_all add: py_strip_def py_lstrip_def py_rstrip_def py_isspace_def code_def)

lemma demo_key [simp]: "canonicalize_session_key (Some ''k'') = ''k''"
  by (simp add: canonicalize_session_key.simps starts_with_def)

lemma demo_digits: "hex_val CHR ''0'' = Some 0" "hex_val CHR ''4'' = Some 4" "hex_val CHR ''8'' = Some 8"
  by (simp_all add: hex_val_def code_def)

lemma demo_hex: "py_int16 ''00000000000040008000000000000000'' = Some 0x40008000000000000000"
  by (simp add: py_int16_def py_strip_def py_lstrip_def py_rstrip_def py_isspace_def code_def hex_prefixed_def
      starts_with_def demo_digits)

lemma demo_uuid_int: "uuid_int ''00000000-0000-4000-8000-000000000000'' = Some 0x40008000000000000000"
  by (simp add: uuid_int_def starts_with_def demo_hex)

lemma hex_fixed_numeral:
  "hex_fixed (numeral k) n = hex_fixed (pred_numeral k) (n div 16) @ [hex_digit (nat (n mod 16))]"
  by (simp add: numeral_eq_Suc)

lemma demo_digit_chars: "hex_digit 0 = CHR ''0''" "hex_digit 4 = CHR ''4''" "hex_digit 8 = CHR ''8''"
  by code_simp+

lemma demo_uuid_str: "uuid_str 0x40008000000000000000 = ''00000000-0000-4000-8000-000000000000''"
  by (simp add: uuid_str_def Let_def hex_fixed_numeral demo_digit_chars)

lemma demo_uuid [simp]: "normalize_client_request_id (PyStr ''00000000-0000-4000-8000-000000000000'') =
    Inr ''00000000-0000-4000-8000-000000000000''"
  by (simp add: normalize_client_request_id_def demo_uuid_int demo_uuid_str uuid_version_def)

lemma demo_fingerprint: "py_lower (replicate 64 CHR ''a'') = replicate 64 CHR ''a''"
    "list_all is_lower_hex (replicate 64 CHR ''a'')"
  by (simp_all add: py_lower_def map_replicate is_lower_hex_def lower_char_def code_def Let_def list_all_iff)

lemma demo_prepare [simp]:
  "action \<in> {''set'', ''edit'', ''pause'', ''resume'', ''clear''} \<Longrightarrow>
   prepare_goal_command (demo_command action) action ''k'' = Inr (demo_command action)"
  by (simp add: prepare_goal_command_def validate_command_def demo_command_def demo_fingerprint ensure_def Let_def)

lemma demo_db_tables [simp]:
  "goals (demo_db st) = [demo_goal]" "receipts (demo_db st) = []" "sessions (demo_db st) = [demo_session]"
  "tasks (demo_db st) = [demo_task st (Some [(''goal_context'', context_detail demo_context)])]"
  "plan_runs (demo_db st) = []" "usage_events (demo_db st) = []"
  by (simp_all add: demo_db_def empty_db_def)

lemma demo_ok [simp]: "keys_ok (demo_db st)" "goal_at (demo_db st) ''k'' = Some demo_goal" "db_ok (demo_db st)"
proof -
  show keys: "keys_ok (demo_db st)" by (simp add: keys_ok_def)
  show "goal_at (demo_db st) ''k'' = Some demo_goal" by (simp add: goal_at_def goal_of_key_def demo_goal_def)
  have "goal_ok demo_goal"
    by (simp add: goal_ok_def demo_goal_def owned_def objective_ok_def max_goal_objective_chars_def)
  then show "db_ok (demo_db st)" using keys
    by (auto simp: db_ok_def goal_at_def goal_of_key_def split: if_splits)
qed

section \<open>Operations of the example\<close>

definition demo_start :: session_db where
  "demo_start = empty_db\<lparr>sessions := [demo_session]\<rparr>"

lemma demo_lookups [simp]:
  "goal_of_key ''k'' [demo_goal] = Some demo_goal" "goal_of_id ''g'' [demo_goal] = Some demo_goal"
  "task_of ''t'' [demo_task st d] = Some (demo_task st d)"
  "require_expected_goal ''k'' demo_fence (demo_db st) = Inr demo_goal"
  "goal_session demo_goal (demo_db st) = Some demo_session"
  by (simp_all add: goal_of_key_def goal_of_id_def task_of_def demo_goal_def demo_task_def
      require_expected_goal_def demo_fence_def goal_session_def demo_session_def)

lemma demo_goal_fields [simp]:
  "g_session_key demo_goal = ''k''" "g_session_id demo_goal = ''s''" "g_epoch demo_goal = 0"
  "g_goal_id demo_goal = ''g''" "g_status demo_goal = Active" "g_state_revision demo_goal = 1"
  "g_objective_revision demo_goal = 1" "g_active_task demo_goal = Some ''t''"
  "g_window_turns demo_goal = 1" "g_continuation_seq demo_goal = 0"
  by (simp_all add: demo_goal_def)

lemma demo_fence_fields [simp]: "x_goal_id demo_fence = ''g''" "x_state_revision demo_fence = 1"
  "fenced ''k'' demo_fence demo_goal"
  by (simp_all add: demo_fence_def fenced_def)

lemma demo_context_ok [simp]: "c_goal_id demo_context = ''g''" "c_objective_revision demo_context = 1"
  "c_task_id demo_context = ''t''" "same_generation demo_context demo_goal"
  "task_context (demo_task st (Some [(''goal_context'', context_detail demo_context)])) = Some demo_context"
proof -
  have "context_ok demo_context"
    by (simp add: demo_context_def goal_turn_context_def demo_goal_def context_ok_def objective_ok_def
        max_goal_objective_chars_def)
  moreover have "context_from_detail PyNone = None" by (simp add: context_from_detail_def)
  ultimately show "task_context (demo_task st (Some [(''goal_context'', context_detail demo_context)])) = Some demo_context"
    by (simp add: task_context_def details_of_def demo_task_def effective_goal_turn_context_def context_roundtrip)
qed (simp_all add: demo_context_def goal_turn_context_def same_generation_def)

lemma demo_no_receipt [simp]: "replay_goal_command c (demo_db st) = Inr None" "replay_goal_command c demo_start = Inr None"
  by (simp_all add: replay_goal_command_def receipt_of_def demo_start_def empty_db_def)

definition demo_pause :: goal_op where
  "demo_pause = Pause_Op ''k'' demo_fence (demo_command ''pause'') ''user'' 7"

lemma demo_reason: "normalize_goal_reason (PyStr ''user'') = Inr (Some ''user'')"
  by (simp add: normalize_goal_reason_def max_goal_reason_chars_def)

lemma demo_pause_run:
  "pause_goal ''k'' demo_fence (demo_command ''pause'') ''user'' 7 (demo_db st) =
     Inr (answer (demo_command ''pause'') (paused_by_user ''user'' 7 demo_goal)
       (update_goals (fenced ''k'' demo_fence) (paused_by_user ''user'' 7) (demo_db st)))"
  by (simp add: pause_goal_def Let_def demo_reason once_def ensure_def)

lemma demo_edit_run:
  "\<exists>db' res. edit_goal ''k'' demo_fence (PyStr ''fly'') (demo_command ''edit'') None 7 (demo_db st) = Inr (db', res) \<and>
     \<not> was_replayed res"
proof -
  have "normalize_goal_objective (PyStr ''fly'') = Inr ''fly''"
    by (simp add: normalize_goal_objective_def max_goal_objective_chars_def)
  then show ?thesis
    by (simp add: edit_goal_def Let_def once_def ensure_def rowcount_def answer_def was_replayed_def)
qed

lemma demo_settle_run:
  "\<exists>db' g. settle_goal_task demo_context 10 600 False False False 9 (demo_db Succeeded) = Inr (db', Some g)"
  by (simp add: settle_goal_task_def check_guardrails_def Let_def ensure_def unfinished_def settle_active_def)
    (simp add: demo_task_def)

lemma demo_commit_run:
  "\<exists>g. commit_goal_terminal demo_context ''complete'' PyNone 9 (demo_db Running) =
     Inr (update_goals (owned_row demo_context) (finished_by_model Complete None ''t'' 9) (demo_db Running), g)"
proof -
  have "terminal_status ''complete'' = Inr Complete" by code_simp
  moreover have "normalize_goal_reason PyNone = Inr None" by (simp add: normalize_goal_reason_def)
  ultimately show ?thesis
    by (simp add: commit_goal_terminal_def ensure_def require_persisted_context_def commit_on_goal_def)
      (simp add: demo_task_def)
qed

lemma demo_set_run:
  "\<exists>db' res. set_goal ''k'' ''s'' 0 ''ship'' ''g'' (demo_task Queued None) ''m'' (demo_command ''set'') 5 demo_start =
     Inr (db', res) \<and> goals db' = [demo_goal]"
proof -
  have new: "new_goal ''g'' ''k'' ''s'' 0 ''ship'' (Some ''t'') (Some ''m'') 5 = Inr demo_goal"
    by (simp add: new_goal_def normalize_goal_objective_def max_goal_objective_chars_def Let_def ensure_def demo_goal_def)
  have "\<exists>db' res. start_goal demo_goal (demo_command ''set'') (demo_task Queued None) ''m'' demo_start = Inr (db', res) \<and>
      goals db' = [demo_goal]"
    by (simp add: start_goal_def Let_def ensure_def fresh_goal_def demo_start_def empty_db_def goal_of_key_def
        goal_of_id_def require_default_goal_mode_def goal_session_def require_idle_goal_session_def insert_goal_def
        insert_agent_task_def task_of_def bind_accepted_def insert_receipt_def sql_delete_def)
      (auto simp: demo_goal_def demo_session_def demo_task_def)
  then show ?thesis by (simp add: set_goal_def new once_def demo_task_def)
qed

lemma demo_pause_step: "goal_at (goal_run u5 (demo_db st) [demo_pause]) ''k'' = Some (paused_by_user ''user'' 7 demo_goal)"
proof -
  have "goals (goal_run u5 (demo_db st) [demo_pause]) = [paused_by_user ''user'' 7 demo_goal]"
    by (simp add: demo_pause_def demo_pause_run after_def sql_update_def)
  then show ?thesis by (simp add: goal_at_def goal_of_key_def)
qed

section \<open>The properties at the example\<close>

lemma turns_settled_once_witness:
  "\<exists>g. goal_at (goal_run (\<lambda>s. s) demo_start
      [Set_Op ''k'' ''s'' 0 ''ship'' ''g'' (demo_task Queued None) ''m'' (demo_command ''set'') 5]) ''k'' = Some g \<and>
    g_turns_started g = g_turns_settled g + (if g_active_task g = None then 0 else 1)"
proof -
  let ?run = "goal_run (\<lambda>s. s) demo_start
      [Set_Op ''k'' ''s'' 0 ''ship'' ''g'' (demo_task Queued None) ''m'' (demo_command ''set'') 5]"
  have "goals demo_start = []" by (simp add: demo_start_def empty_db_def)
  moreover have at: "goal_at ?run ''k'' = Some demo_goal"
    using demo_set_run by (auto simp: after_def goal_at_def)
  moreover have "no_turn_dropped ''k'' (\<lambda>s. s) demo_start
      [Set_Op ''k'' ''s'' 0 ''ship'' ''g'' (demo_task Queued None) ''m'' (demo_command ''set'') 5]" by simp
  ultimately show ?thesis using turns_settled_once [of demo_start "\<lambda>s. s" _ "''k''" demo_goal] by blast
qed

lemma continuations_bounded_witness:
  "g_continuation_seq (paused_by_user ''user'' 7 demo_goal) - g_continuation_seq demo_goal \<le> max 0 (10 - g_window_turns demo_goal)"
  using continuations_bounded [OF demo_ok(3) demo_ok(2) demo_pause_step, of 10] by (simp add: demo_pause_def)

lemma automatic_loop_ends_witness:
  "\<exists>n. \<forall>m \<ge> n. \<not> continued_at ''k'' (goal_run (\<lambda>s. s) (demo_db Running) (replicate m demo_pause))
     (goal_run (\<lambda>s. s) (demo_db Running) (replicate (Suc m) demo_pause))"
proof -
  have step: "goal_run (\<lambda>s. s) (demo_db Running) (replicate (Suc i) demo_pause) =
      goal_step (\<lambda>s. s) (goal_run (\<lambda>s. s) (demo_db Running) (replicate i demo_pause)) demo_pause" for i
    by (simp only: goal_run_def replicate_Suc replicate_append_same [symmetric] foldl_append) simp
  show ?thesis
  proof (rule automatic_loop_ends [of "\<lambda>i. goal_run (\<lambda>s. s) (demo_db Running) (replicate i demo_pause)"
        "\<lambda>s. s" "\<lambda>_. demo_pause" "''k''"])
    show "db_ok (goal_run (\<lambda>s. s) (demo_db Running) (replicate 0 demo_pause))" by simp
    show "\<not> user_grant demo_pause" for i :: nat by (simp add: demo_pause_def)
  qed (rule step)
qed

lemma command_carried_out_once_witness:
  "\<exists>db' res goal. pause_goal ''k'' demo_fence (demo_command ''pause'') ''user'' 7 (demo_db Running) = Inr (db', res) \<and>
    pause_goal ''k'' demo_fence (demo_command ''pause'') ''user'' 7 (goal_run (\<lambda>s. s) db' [Epoch_Op ''k'']) =
      Inr (goal_run (\<lambda>s. s) db' [Epoch_Op ''k''], (fst res, goal, True))"
proof -
  obtain db' res where run: "pause_goal ''k'' demo_fence (demo_command ''pause'') ''user'' 7 (demo_db Running) = Inr (db', res)"
    unfolding demo_pause_run by (metis surj_pair)
  show ?thesis using run command_carried_out_once [OF command_run.simps(3) run, of "\<lambda>s. s" "[Epoch_Op ''k'']"] by blast
qed

lemma fence_admits_one_change_witness:
  "\<exists>db' res res'. pause_goal ''k'' demo_fence (demo_command ''pause'') ''user'' 7 (demo_db Running) = Inr (db', res) \<and>
    pause_goal ''k'' demo_fence (demo_command ''pause'') ''user'' 7 db' = Inr (db', res') \<and> was_replayed res'"
proof -
  let ?f = "pause_goal ''k'' demo_fence (demo_command ''pause'') ''user'' 7"
  obtain db' res where run: "?f (demo_db Running) = Inr (db', res)" "\<not> was_replayed res"
    unfolding demo_pause_run answer_def was_replayed_def by (simp add: Let_def)
  obtain c where c: "retryable c ?f (demo_db Running) db' res"
    using command_retryable [OF command_run.simps(3) run(1)] by blast
  then obtain db2 res' where again: "?f (goal_run (\<lambda>s. s) db' []) = Inr (db2, res')"
    by (auto simp: retryable_def)
  have "was_replayed res' \<and> db2 = goal_run (\<lambda>s. s) db' []"
    by (rule fence_admits_one_change [OF demo_ok(1) command_run.simps(3) fence_of.simps(2) run _
        command_run.simps(3) fence_of.simps(2) again]) (simp add: sets_other_def)
  then have "?f db' = Inr (db', res')" "was_replayed res'" using again by simp_all
  then show ?thesis using run(1) by blast
qed

lemma edited_objective_refuses_old_turn_witness:
  "\<exists>db' res e. edit_goal ''k'' demo_fence (PyStr ''fly'') (demo_command ''edit'') None 7 (demo_db Running) = Inr (db', res) \<and>
    commit_goal_terminal demo_context ''complete'' PyNone 9 (goal_run (\<lambda>s. s) db' []) = Inl e"
proof -
  obtain db' res where run: "edit_goal ''k'' demo_fence (PyStr ''fly'') (demo_command ''edit'') None 7 (demo_db Running) =
      Inr (db', res)" "\<not> was_replayed res"
    using demo_edit_run by blast
  have "\<exists>e. commit_goal_terminal demo_context ''complete'' PyNone 9 (goal_run (\<lambda>s. s) db' []) = Inl e"
    using edited_objective_refuses_old_turn [OF demo_ok(1) run, of demo_goal demo_context "[]"
        "''complete''" PyNone 9 "\<lambda>s. s"] by (simp add: sets_other_def)
  then show ?thesis using run(1) by blast
qed

lemma owner_kept_until_settled_witness:
  "g_active_task (paused_by_user ''user'' 7 demo_goal) = Some ''t''"
  using owner_kept_until_settled [OF demo_ok(1,2), of "''t''" "[demo_pause]" "\<lambda>s. s", OF _ _ _ demo_pause_step]
  by (simp add: settles_def sets_other_def demo_pause_def)

lemma settled_once_witness:
  "\<exists>db' g. settle_goal_task demo_context 10 600 False False False 9 (demo_db Succeeded) = Inr (db', Some g) \<and>
    settle_goal_task demo_context 10 600 False False False 10 db' = Inr (db', None)"
proof -
  obtain db' g where run: "settle_goal_task demo_context 10 600 False False False 9 (demo_db Succeeded) = Inr (db', Some g)"
    using demo_settle_run by blast
  show ?thesis using run settled_once [OF demo_ok(1) run, of 10 600 False False False 10] by auto
qed

lemma recovery_stops_every_goal_witness:
  "\<exists>h. goal_at (restart_goals ''process_restart'' 9 (goal_owners (demo_db Running)) (demo_db Running)) ''k'' = Some h \<and>
    g_objective h = ''ship'' \<and> g_status h = Paused"
  using recovery_stops_every_goal [of "''process_restart''" 9 "goal_owners (demo_db Running)" "demo_db Running"] demo_ok(2)
  by (fastforce simp: demo_goal_def)

lemma goals_refine_ownership_witness:
  "view_path [demo_pause] (Goal_In Active (Some ''t'')) (Goal_In Paused (Some ''t''))"
  using goals_refine_ownership [OF demo_ok(1), of "[demo_pause]" Running "''k''" "\<lambda>s. s"]
  by (simp only: demo_ok(2) demo_pause_step) (simp add: view_of_def paused_by_user_def)

lemma completed_by_its_task_witness:
  "\<exists>op \<in> set [Commit_Op demo_context ''complete'' PyNone 9]. is_commit op"
proof -
  let ?run = "goal_run (\<lambda>s. s) (demo_db Running) [Commit_Op demo_context ''complete'' PyNone 9]"
  obtain g where "goals ?run = sql_update (owned_row demo_context) (finished_by_model Complete None ''t'' 9) [demo_goal]"
    using demo_commit_run by (auto simp: after_def)
  then have "goals ?run = [finished_by_model Complete None ''t'' 9 demo_goal]"
    by (simp add: sql_update_def owned_row_def)
  then have at: "goal_at ?run ''k'' = Some (finished_by_model Complete None ''t'' 9 demo_goal)"
    by (simp add: goal_at_def goal_of_key_def finished_by_model_def)
  have "\<forall>k g. goal_at (demo_db Running) k = Some g \<longrightarrow> g_status g \<noteq> Complete"
    by (simp add: goal_at_def goal_of_key_def)
  then show ?thesis
    by (rule completed_by_its_task [OF demo_ok(1) _ at]) (simp add: finished_by_model_def)
qed

end
