(* ===== verification/Plan_Machine.thy ===== *)
theory Plan_Machine
  imports Plan_Store
begin

text \<open>
  What plan runs guarantee: a normalised plan is a fixed point, checkpoints are monotonic and walk
  through the steps in order, a session has at most one active run, and every operation keeps
  that so.
\<close>

section \<open>Normalised plans\<close>

definition text_ok :: "nat \<Rightarrow> string \<Rightarrow> bool" where
  "text_ok n s = (s \<noteq> [] \<and> py_strip s = s \<and> length s \<le> n)"

definition plan_step_ok :: "plan_step \<Rightarrow> bool" where
  "plan_step_ok s = (step_id_ok (fst s) \<and> py_strip (fst s) = fst s \<and>
     text_ok max_plan_step_title_chars (fst (snd s)) \<and>
     (\<forall>d. snd (snd s) = Some d \<longrightarrow> text_ok max_plan_step_details_chars d))"

lemma bounded_text_Inr: "bounded_text v field n = Inr s \<longleftrightarrow> (\<exists>t. v = PyStr t \<and> s = py_strip t \<and> text_ok n s)"
  by (cases v) (auto simp: bounded_text_def text_ok_def Let_def)

lemma bounded_text_again: "text_ok n s \<Longrightarrow> bounded_text (PyStr s) field n = Inr s"
  by (auto simp: bounded_text_Inr text_ok_def)

lemma step_details_Inr:
  "step_details i v = Inr d \<longleftrightarrow>
   (v = PyNone \<and> d = None) \<or> (\<exists>t. v = PyStr t \<and> d = Some (py_strip t) \<and> text_ok max_plan_step_details_chars (py_strip t))"
  by (cases v) (auto simp: step_details_def bounded_text_Inr)

lemma plan_step_Inr:
  assumes "normalize_plan_step i seen raw = Inr s"
  shows "plan_step_ok s \<and> fst s \<notin> set seen"
proof (cases raw)
  case (PyDict d)
  show ?thesis
  proof (cases "as_str (dget_or d ''step_id'' (dget_or d ''stepId'' (PyStr (''step-'' @ nat_str (i + 1)))))")
    case None
    then show ?thesis using assms by (simp add: normalize_plan_step_def PyDict)
  next
    case (Some t)
    then show ?thesis using assms
      by (auto simp: normalize_plan_step_def PyDict plan_step_ok_def Let_def bounded_text_Inr step_details_Inr)
  qed
qed (use assms in \<open>simp_all add: normalize_plan_step_def\<close>)

lemma plan_step_again:
  assumes "plan_step_ok s" and "fst s \<notin> set seen"
  shows "normalize_plan_step i seen (step_dict s) = Inr s"
proof -
  obtain a t d where s: "s = (a, t, d)" by (cases s) auto
  have dict: "step_dict s = PyDict ([(''step_id'', PyStr a), (''title'', PyStr t)] @
      (case d of None \<Rightarrow> [] | Some x \<Rightarrow> [(''details'', PyStr x)]))"
    by (simp add: s step_dict_def)
  have "step_details i (case d of None \<Rightarrow> PyNone | Some x \<Rightarrow> PyStr x) = Inr d"
    using assms(1) by (cases d) (auto simp: s plan_step_ok_def step_details_Inr text_ok_def)
  moreover obtain dd where "step_dict s = PyDict dd"
      "as_str (dget_or dd ''step_id'' (dget_or dd ''stepId'' (PyStr (''step-'' @ nat_str (i + 1))))) = Some a"
      "dget dd ''title'' = PyStr t" "dget dd ''details'' = (case d of None \<Rightarrow> PyNone | Some x \<Rightarrow> PyStr x)"
    unfolding dict by (cases d) (simp_all add: dget_or_def)
  ultimately show ?thesis using assms
    by (simp add: normalize_plan_step_def s plan_step_ok_def bounded_text_again ensure_def Let_def)
qed

lemma steps_from_Inr:
  "normalize_steps_from i seen raws = Inr steps \<Longrightarrow> distinct seen \<Longrightarrow>
   list_all plan_step_ok steps \<and> distinct (seen @ map fst steps) \<and> length steps = length raws"
proof (induction i seen raws arbitrary: steps rule: normalize_steps_from.induct)
  case (2 i seen raw rest)
  then obtain s ss where s: "normalize_plan_step i seen raw = Inr s"
      "normalize_steps_from (Suc i) (seen @ [fst s]) rest = Inr ss" "steps = s # ss"
    by auto
  have "distinct (seen @ [fst s])" using plan_step_Inr [OF s(1)] "2.prems"(2) by simp
  then show ?case using "2.IH" [OF s(2)] plan_step_Inr [OF s(1)] s(3) by simp
qed simp

lemma steps_from_again:
  "list_all plan_step_ok steps \<Longrightarrow> distinct (seen @ map fst steps) \<Longrightarrow>
   normalize_steps_from i seen (map step_dict steps) = Inr steps"
  by (induction steps arbitrary: i seen) (simp_all add: plan_step_again)

definition plan_steps_ok :: "plan_step list \<Rightarrow> bool" where
  "plan_steps_ok steps = (steps \<noteq> [] \<and> length steps \<le> max_plan_steps \<and> list_all plan_step_ok steps \<and>
     distinct (map fst steps))"

lemma normalize_plan_steps_ok: "normalize_plan_steps v = Inr steps \<Longrightarrow> plan_steps_ok steps"
  by (cases v) (auto simp: normalize_plan_steps_def plan_steps_ok_def dest!: steps_from_Inr)

lemma normalize_plan_steps_again: "plan_steps_ok steps \<Longrightarrow> normalize_plan_steps (PyList (map step_dict steps)) = Inr steps"
  by (simp add: normalize_plan_steps_def plan_steps_ok_def steps_from_again ensure_def)

text \<open>C38: A plan revision accepted by validation has between one and 64 steps with distinct ids and
  carries the hash of its canonical text; submitting its own steps again gives the same
  revision.\<close>

theorem prepared_plan_is_canonical:
  assumes "prepare_plan_revision sha256 v raw = Inr w"
  shows "prepare_plan_revision sha256 w (PyList (map step_dict (v_steps w))) = Inr w \<and>
    distinct (map fst (v_steps w)) \<and> v_steps w \<noteq> [] \<and> length (v_steps w) \<le> 64 \<and>
    v_content_hash w = plan_content_hash sha256 (v_title w) (v_markdown w) (v_steps w)"
proof -
  obtain steps where steps: "normalize_plan_steps raw = Inr steps" "v_steps w = steps"
    and w: "text_ok max_plan_title_chars (v_title w)" "text_ok max_plan_markdown_chars (v_markdown w)"
      "v_content_hash w = plan_content_hash sha256 (v_title w) (v_markdown w) steps"
      "1 \<le> v_generation w" "v_revision_id w \<noteq> []" "v_plan_id w \<noteq> []" "v_session_id w \<noteq> []" "0 \<le> v_epoch w"
    using assms by (auto simp: prepare_plan_revision_def Let_def bounded_text_Inr)
  have ok: "plan_steps_ok steps" using normalize_plan_steps_ok steps(1) by blast
  have "prepare_plan_revision sha256 w (PyList (map step_dict (v_steps w))) = Inr w"
    using w steps(2) normalize_plan_steps_again [OF ok]
    by (simp add: prepare_plan_revision_def bounded_text_again Let_def ensure_def)
  then show ?thesis using ok w(3) steps(2) by (simp add: plan_steps_ok_def max_plan_steps_def)
qed

section \<open>The steps of a run\<close>

definition labels :: "step_state list \<Rightarrow> (string \<times> string) list" where
  "labels states = map (\<lambda>s. (st_id s, st_title s)) states"

definition step_labels :: "plan_step list \<Rightarrow> (string \<times> string) list" where
  "step_labels steps = map (\<lambda>s. (fst s, fst (snd s))) steps"

definition open_count :: "step_state list \<Rightarrow> nat" where
  "open_count states = length (filter (\<lambda>s. \<not> step_closed s) states)"

text \<open>The open steps besides the current one wait untouched.\<close>

definition waiting :: "step_state \<Rightarrow> bool" where
  "waiting s = (step_closed s \<or> st_status s = ''pending'' \<and> st_reason s = None)"

text \<open>
  The overlay of a run: ids are distinct; with a current step, everything before it is closed and
  everything after it is closed or waiting; without one, nothing has been started.
\<close>

definition overlay_ok :: "step_state list \<Rightarrow> string option \<Rightarrow> bool" where
  "overlay_ok states current =
     (states \<noteq> [] \<and> distinct (map st_id states) \<and>
      (case current of
         None \<Rightarrow> list_all waiting states
       | Some i \<Rightarrow> \<exists>xs s ys. states = xs @ s # ys \<and> st_id s = i \<and> \<not> step_closed s \<and>
           list_all step_closed xs \<and> list_all waiting ys))"

lemma overlay_current:
  assumes "list_all step_closed xs" and "\<not> step_closed s" and "list_all waiting ys" and "distinct (map st_id (xs @ s # ys))"
  shows "overlay_ok (xs @ s # ys) (Some (st_id s))"
  using assms unfolding overlay_ok_def option.case by blast

lemma closed_status: "step_closed (s\<lparr>st_status := x, st_reason := r\<rparr>) \<longleftrightarrow> x = ''completed'' \<or> x = ''skipped''"
  by (simp add: step_closed_def plan_step_terminal_statuses_def)

lemma closed_status': "step_closed (s\<lparr>st_status := x\<rparr>) \<longleftrightarrow> x = ''completed'' \<or> x = ''skipped''"
  by (simp add: step_closed_def plan_step_terminal_statuses_def)

lemma last_index_none: "last_index i states = None \<longleftrightarrow> i \<notin> set (map st_id states)"
  by (induction states) (auto split: option.splits)

lemma last_index_at: "st_id s \<notin> set (map st_id ys) \<Longrightarrow> last_index (st_id s) (xs @ s # ys) = Some (length xs)"
  by (induction xs) (auto simp: last_index_none split: option.split)

lemma find_open: "list_all step_closed xs \<Longrightarrow> \<not> step_closed s \<Longrightarrow> find (\<lambda>s. \<not> step_closed s) (xs @ s # ys) = Some s"
  by (induction xs) auto

lemma split_open: "\<not> list_all step_closed l \<Longrightarrow> \<exists>xs s ys. l = xs @ s # ys \<and> list_all step_closed xs \<and> \<not> step_closed s"
proof (induction l)
  case (Cons a l)
  show ?case
  proof (cases "step_closed a")
    case True
    then obtain xs s ys where "l = xs @ s # ys" "list_all step_closed xs" "\<not> step_closed s"
      using Cons by auto
    then show ?thesis using True by (intro exI [of _ "a # xs"] exI [of _ s] exI [of _ ys]) simp
  next
    case False
    then show ?thesis by (intro exI [of _ "[]"] exI [of _ a] exI [of _ l]) simp
  qed
qed simp

lemma labels_simps [simp]:
  "labels [] = []" "labels (s # ss) = (st_id s, st_title s) # labels ss" "labels (xs @ ys) = labels xs @ labels ys"
  by (simp_all add: labels_def)

lemma labels_ids: "labels a = labels b \<Longrightarrow> map st_id a = map st_id b"
  by (metis (no_types, lifting) labels_def list.map_comp comp_def fst_conv list.map_cong0)

lemma open_count_simps [simp]:
  "open_count [] = 0" "open_count (s # ss) = (if step_closed s then 0 else 1) + open_count ss"
  "open_count (xs @ ys) = open_count xs + open_count ys"
  by (simp_all add: open_count_def)

lemma open_count_closed: "list_all step_closed xs \<longleftrightarrow> open_count xs = 0"
  by (auto simp: open_count_def filter_empty_conv list_all_iff)

lemma distinct_middle: "distinct (map st_id (xs @ s # ys)) \<Longrightarrow> st_id s \<notin> set (map st_id ys)"
  by simp

text \<open>Closing the current step puts the next open one in progress.\<close>

lemma open_next_split:
  assumes "list_all step_closed xs" and "\<not> step_closed u" and "distinct (map st_id (xs @ u # ys))"
  shows "open_next (xs @ u # ys) = Inr (xs @ u\<lparr>st_status := ''in_progress''\<rparr> # ys, Some (st_id u), Run_Running)"
  using find_open [OF assms(1,2), of ys] last_index_at [OF distinct_middle [OF assms(3)], of xs] assms(2)
  by (simp add: open_next_def)

definition closing :: "string \<Rightarrow> bool" where
  "closing step_status = (step_status = ''completed'' \<or> step_status = ''skipped'')"

text \<open>
  What a checkpoint of the step \<open>i\<close> makes of a step, when \<open>cur\<close> is the current step afterwards: the
  step itself gets the status and its reason, the new current step is in progress.
\<close>

definition stepped :: "string \<Rightarrow> string \<Rightarrow> string option \<Rightarrow> string option \<Rightarrow> step_state \<Rightarrow> step_state" where
  "stepped i step_status reason cur s =
     (if st_id s = i then s\<lparr>st_status := step_status, st_reason := reason\<rparr>
      else if cur = Some (st_id s) then s\<lparr>st_status := ''in_progress''\<rparr>
      else s)"

lemma stepped_others: "\<forall>s \<in> set ss. st_id s \<noteq> i \<and> cur \<noteq> Some (st_id s) \<Longrightarrow> map (stepped i st r cur) ss = ss"
  by (rule map_idI) (simp add: stepped_def)

lemma checkpoint_ok:
  assumes "overlay_ok states (Some i)" and "checkpoint_plan_step_states states i step_status reason = Inr (states', current', status)"
  shows "labels states' = labels states \<and> overlay_ok states' current' \<and>
    open_count states' + (if closing step_status then 1 else 0) = open_count states \<and>
    (current' = None \<longleftrightarrow> list_all step_closed states') \<and>
    (\<forall>k < length states. step_closed (states ! k) \<longrightarrow> states' ! k = states ! k) \<and>
    status = (if step_status = ''blocked'' then Run_Blocked else Run_Running) \<and>
    (\<exists>r. closing_reason step_status reason = Inr r \<and> states' = map (stepped i step_status r current') states)"
proof -
  let ?main = "labels states' = labels states \<and> overlay_ok states' current' \<and>
    open_count states' + (if closing step_status then 1 else 0) = open_count states \<and>
    (current' = None \<longleftrightarrow> list_all step_closed states') \<and>
    (\<forall>k < length states. step_closed (states ! k) \<longrightarrow> states' ! k = states ! k) \<and>
    status = (if step_status = ''blocked'' then Run_Blocked else Run_Running)"
  obtain xs s ys where st: "states = xs @ s # ys" "st_id s = i" "\<not> step_closed s"
      "list_all step_closed xs" "list_all waiting ys" and dist: "distinct (map st_id states)"
    using assms(1) unfolding overlay_ok_def option.case by blast
  have idx: "last_index i states = Some (length xs)"
    using last_index_at [OF distinct_middle, of xs s ys xs] dist st(1,2) by simp
  obtain r where r: "step_status \<in> {''in_progress'', ''completed'', ''blocked'', ''skipped''}"
      "closing_reason step_status reason = Inr r"
    using assms(2) idx by (auto simp: checkpoint_plan_step_states_def)
  define s' where "s' = s\<lparr>st_status := step_status, st_reason := r\<rparr>"
  define u where "u = xs @ s' # ys"
  have upd: "states[length xs := (states ! length xs)\<lparr>st_status := step_status, st_reason := r\<rparr>] = u"
    by (simp add: st(1) u_def s'_def)
  have u: "labels u = labels states" "distinct (map st_id u)"
    using dist by (simp_all add: u_def s'_def st(1))
  have kept: "u ! k = states ! k" if "k < length states" "step_closed (states ! k)" for k
    using that st by (cases "k = length xs") (auto simp: u_def nth_append nth_Cons')
  have "after_checkpoint i step_status u = Inr (states', current', status)"
    using assms(2) idx r(2) by (simp add: checkpoint_plan_step_states_def upd)
  note res = this [unfolded after_checkpoint_def]
  have closed': "step_closed s' \<longleftrightarrow> closing step_status" by (simp add: s'_def closed_status closing_def)
  have ids: "\<forall>x \<in> set xs \<union> set ys. st_id x \<noteq> i"
    using dist st(2) unfolding st(1) by (auto simp: rev_image_eqI)
  have here: "map (stepped i step_status r cur) states = u"
    if "\<forall>x \<in> set xs \<union> set ys. cur \<noteq> Some (st_id x)" for cur
  proof -
    have "map (stepped i step_status r cur) xs = xs" "map (stepped i step_status r cur) ys = ys"
      using that ids by (intro stepped_others; blast)+
    then show ?thesis using st(2) by (simp add: st(1) u_def s'_def stepped_def)
  qed
  show ?thesis
  proof (cases "closing step_status")
    case False
    then have ns: "states' = u" "current' = Some i" "step_status = ''blocked'' \<or> step_status = ''in_progress''"
        "status = (if step_status = ''blocked'' then Run_Blocked else Run_Running)"
      using res r(1) by (auto simp: closing_def split: if_splits)
    have "overlay_ok u (Some i)"
      using overlay_current [of xs s' ys] u(2) st False closed' by (simp add: u_def s'_def)
    moreover have "open_count u = open_count states" using False closed' st by (simp add: u_def)
    moreover have "\<not> list_all step_closed u" using False closed' by (simp add: u_def)
    moreover have "map (stepped i step_status r (Some i)) states = u"
      using dist st(1,2) by (intro here) auto
    ultimately show ?thesis using ns u(1) kept False r(2) by simp
  next
    case True
    have count: "open_count u + 1 = open_count states" using True closed' st by (simp add: u_def)
    have ns: "step_status \<noteq> ''blocked''" "step_status \<noteq> ''in_progress''" using True by (auto simp: closing_def)
    show ?thesis
    proof (cases "list_all step_closed u")
      case all: True
      then have "states' = u" "current' = None" "status = Run_Running" using res ns by simp_all
      moreover have "overlay_ok u None"
        using all u(2) unfolding overlay_ok_def by (auto simp: u_def waiting_def list_all_iff)
      moreover have "map (stepped i step_status r None) states = u" by (rule here) simp
      ultimately show ?thesis using all u(1) kept True count ns r(2) by simp
    next
      case False
      then have "\<not> list_all step_closed ys" using True closed' st(4) by (simp add: u_def)
      then obtain as w bs where ys: "ys = as @ w # bs" "list_all step_closed as" "\<not> step_closed w"
        using split_open by blast
      define ps where "ps = xs @ s' # as"
      have u': "u = ps @ w # bs" "list_all step_closed ps"
        using ys st(4) True closed' by (simp_all add: u_def ps_def)
      then have "open_next u = Inr (ps @ w\<lparr>st_status := ''in_progress''\<rparr> # bs, Some (st_id w), Run_Running)"
        using open_next_split u(2) ys(3) by simp
      then have new: "states' = ps @ w\<lparr>st_status := ''in_progress''\<rparr> # bs" "current' = Some (st_id w)" "status = Run_Running"
        using res ns False by simp_all
      have w: "waiting w" "list_all waiting bs" using st(5) ys by simp_all
      have "overlay_ok states' current'"
        using overlay_current [of ps "w\<lparr>st_status := ''in_progress''\<rparr>" bs] u(2) u' w(2)
        by (simp add: new closed_status')
      moreover have "labels states' = labels states" using u(1) by (simp add: new u')
      moreover have "open_count states' = open_count u" using ys(3) by (simp add: new u' closed_status')
      moreover have "states' ! k = u ! k" if "step_closed (u ! k)" for k
        using that ys(3) by (cases "k = length ps") (auto simp: new u' nth_append nth_Cons')
      moreover have "\<not> list_all step_closed states'" by (simp add: new closed_status')
      ultimately have main: ?main using kept True count ns new by simp
      have "states' = map (stepped i step_status r current') states"
      proof -
        have "st_id w \<noteq> i" using dist st(1,2) ys(1) by auto
        moreover have "map (stepped i step_status r current') xs = xs" "map (stepped i step_status r current') as = as"
            "map (stepped i step_status r current') bs = bs"
          using dist ids unfolding st(1) ys(1) new(2)
          by (intro stepped_others; auto simp: rev_image_eqI)+
        ultimately show ?thesis using st(2) by (simp add: new ps_def st(1) ys(1) s'_def stepped_def)
      qed
      then show ?thesis using main r(2) by blast
    qed
  qed
qed

section \<open>Runs\<close>

definition run_ok :: "plan_run \<Rightarrow> bool" where
  "run_ok p =
     (overlay_ok (p_steps p) (p_current_step p) \<and>
      (p_status p = Run_Running \<and> p_current_step p = None \<longrightarrow> list_all step_closed (p_steps p)) \<and>
      (p_status p = Run_Completed \<longrightarrow> list_all step_closed (p_steps p) \<and> p_current_step p = None) \<and>
      (p_active_task p \<noteq> None \<longrightarrow> p_status p = Run_Queued \<or> p_status p = Run_Running) \<and>
      (p_status p = Run_Running \<longrightarrow> p_active_task p \<noteq> None) \<and>
      (p_finished_at p \<noteq> None \<longleftrightarrow> \<not> run_active p))"

lemma run_active_iff:
  "run_active p \<longleftrightarrow> p_status p = Run_Queued \<or> p_status p = Run_Running \<or> p_status p = Run_Paused \<or> p_status p = Run_Blocked"
  by (auto simp: run_active_def plan_run_active_statuses_def)

lemma run_moves_ok:
  "run_ok p \<Longrightarrow> run_ok (superseded reason ts p)"
  "run_ok p \<Longrightarrow> p_status p = Run_Paused \<or> p_status p = Run_Blocked \<Longrightarrow> run_ok (requeued t ts p)"
  "run_ok p \<Longrightarrow> p_status p = Run_Running \<Longrightarrow> list_all step_closed (p_steps p) \<Longrightarrow> p_current_step p = None \<Longrightarrow>
     run_ok (completed ts p)"
  "run_ok p \<Longrightarrow> run_active p \<Longrightarrow> run_ok (paused reason ts p)"
  "run_ok p \<Longrightarrow> run_ok (cancelled reason ts p)"
  by (auto simp: run_ok_def run_active_iff superseded_def requeued_def completed_def paused_def cancelled_def)

lemma reopened_ok:
  assumes "run_ok p" and "p_status p = Run_Completed"
  shows "run_ok (reopened reason ts p) \<and> labels (p_steps (reopened reason ts p)) = labels (p_steps p)"
proof -
  have closed: "list_all step_closed (p_steps p)" and dist: "distinct (map st_id (p_steps p))" and "p_steps p \<noteq> []"
    using assms by (simp_all add: run_ok_def overlay_ok_def)
  then obtain s ss where st: "p_steps p = s # ss" by (cases "p_steps p") auto
  let ?s = "s\<lparr>st_status := ''in_progress'', st_reason := None\<rparr>"
  have "list_all waiting ss" using closed st by (auto simp: list_all_iff waiting_def)
  then have "overlay_ok ([] @ ?s # ss) (Some (st_id ?s))"
    using dist st by (intro overlay_current) (simp_all add: closed_status)
  then show ?thesis using st by (simp add: run_ok_def reopened_def Let_def run_active_iff)
qed

lemma checkpointed_ok:
  assumes "run_ok p" and "p_status p = Run_Running" and "p_current_step p = Some i"
    and "checkpoint_plan_step_states (p_steps p) i step_status reason = Inr (states, current, status)"
  shows "run_ok (checkpointed status states current r ts p) \<and> labels states = labels (p_steps p)"
proof -
  have "overlay_ok (p_steps p) (Some i)" using assms(1,3) by (simp add: run_ok_def)
  from checkpoint_ok [OF this assms(4)] assms(1,2) show ?thesis
    by (auto simp: run_ok_def checkpointed_def run_active_iff split: if_splits)
qed

text \<open>Entering the execution phase puts the current step, or the first open one, in progress.\<close>

lemma start_step_at: "st_id s \<notin> set (map st_id xs) \<Longrightarrow>
    start_step (st_id s) (xs @ s # ys) = xs @ s\<lparr>st_status := ''in_progress'', st_reason := None\<rparr> # ys"
  by (induction xs) auto

lemma start_step_ok:
  assumes "list_all step_closed xs" and "list_all waiting ys" and "distinct (map st_id (xs @ s # ys))"
  shows "overlay_ok (start_step (st_id s) (xs @ s # ys)) (Some (st_id s)) \<and>
    labels (start_step (st_id s) (xs @ s # ys)) = labels (xs @ s # ys)"
proof -
  let ?s = "s\<lparr>st_status := ''in_progress'', st_reason := None\<rparr>"
  have "start_step (st_id s) (xs @ s # ys) = xs @ ?s # ys" using assms(3) by (intro start_step_at) auto
  moreover have "overlay_ok (xs @ ?s # ys) (Some (st_id ?s))"
    using assms by (intro overlay_current) (simp_all add: closed_status)
  ultimately show ?thesis by simp
qed

lemma start_current_ok:
  assumes "overlay_ok states (Some i)"
  shows "overlay_ok (start_step i states) (Some i) \<and> labels (start_step i states) = labels states"
proof -
  obtain xs s ys where "states = xs @ s # ys" "st_id s = i" "list_all step_closed xs" "list_all waiting ys"
      and "distinct (map st_id states)"
    using assms unfolding overlay_ok_def option.case by blast
  then show ?thesis using start_step_ok by blast
qed

lemma start_first_ok:
  assumes "overlay_ok states None" and "first_open states = Some i"
  shows "overlay_ok (start_step i states) (Some i) \<and> labels (start_step i states) = labels states"
proof -
  have w: "list_all waiting states" "distinct (map st_id states)" using assms(1) by (simp_all add: overlay_ok_def)
  have "\<not> list_all step_closed states" using assms(2) by (auto simp: first_open_def find_Some_iff list_all_iff)
  then obtain xs s ys where st: "states = xs @ s # ys" "list_all step_closed xs" "\<not> step_closed s"
    using split_open by blast
  then have "i = st_id s" using assms(2) find_open [OF st(2,3), of ys] by (simp add: first_open_def)
  then show ?thesis using start_step_ok [OF st(2)] w st(1) by simp
qed

lemma started_ok:
  assumes "run_ok p" and "p_status p \<in> {Run_Queued, Run_Paused, Run_Blocked}"
    and "current = (case p_current_step p of None \<Rightarrow> first_open (p_steps p) | Some i \<Rightarrow> Some i)"
    and "current \<noteq> None \<or> list_all step_closed (p_steps p)"
    and "states = (case current of None \<Rightarrow> p_steps p | Some i \<Rightarrow> start_step i (p_steps p))"
  shows "run_ok (started states current t ts p) \<and> labels states = labels (p_steps p)"
proof -
  have ov: "overlay_ok (p_steps p) (p_current_step p)" using assms(1) by (simp add: run_ok_def)
  have "overlay_ok states current \<and> labels states = labels (p_steps p)"
  proof (cases "p_current_step p")
    case (Some i)
    then show ?thesis using start_current_ok ov assms(3,5) by simp
  next
    case None
    then show ?thesis using start_first_ok [of "p_steps p"] ov assms(3,5)
      by (cases "first_open (p_steps p)") auto
  qed
  moreover have "p_finished_at p = None" using assms(1,2) by (auto simp: run_ok_def run_active_iff)
  ultimately show ?thesis using assms(4,5)
    by (cases current) (auto simp: run_ok_def started_def run_active_iff)
qed

section \<open>The tables\<close>

definition plans_ok :: "session_db \<Rightarrow> bool" where
  "plans_ok db =
     (distinct (map p_run_id (plan_runs db)) \<and> distinct (map v_revision_id (plan_revisions db)) \<and>
      (\<forall>v \<in> set (plan_revisions db). plan_steps_ok (v_steps v)) \<and>
      (\<forall>p \<in> set (plan_runs db). run_ok p \<and>
         (\<exists>v. revision_of (p_revision_id p) (plan_revisions db) = Some v \<and> labels (p_steps p) = step_labels (v_steps v))) \<and>
      (\<forall>p \<in> set (plan_runs db). \<forall>q \<in> set (plan_runs db).
         run_active p \<longrightarrow> run_active q \<longrightarrow> p_session_key p = p_session_key q \<longrightarrow> p = q))"

text \<open>What an update may do to a run that it selects.\<close>

definition good_move :: "session_db \<Rightarrow> (plan_run \<Rightarrow> plan_run) \<Rightarrow> plan_run \<Rightarrow> bool" where
  "good_move db f p =
     (p_run_id (f p) = p_run_id p \<and> p_session_key (f p) = p_session_key p \<and>
      p_revision_id (f p) = p_revision_id p \<and> labels (p_steps (f p)) = labels (p_steps p) \<and> run_ok (f p) \<and>
      (run_active (f p) \<longrightarrow> run_active p \<or> active_run_of (p_session_key p) db = None))"

lemma active_run_None:
  "active_run_of k db = None \<longleftrightarrow> (\<forall>q \<in> set (plan_runs db). p_session_key q = k \<longrightarrow> \<not> run_active q)"
  by (auto simp: active_run_of_def find_None_iff)

lemma active_run_Some: "active_run_of k db = Some p \<Longrightarrow> p \<in> set (plan_runs db) \<and> p_session_key p = k \<and> run_active p"
  by (auto simp: active_run_of_def find_Some_iff)

lemma run_of_mem: "plans_ok db \<Longrightarrow> run_of i (plan_runs db) = Some p \<longleftrightarrow> p \<in> set (plan_runs db) \<and> p_run_id p = i"
  by (simp add: plans_ok_def run_rows.lookup_member)

text \<open>One selected run.\<close>

lemma plans_ok_update_one:
  assumes ok: "plans_ok db" and p: "p \<in> set (plan_runs db)" and sel: "\<And>r. r \<in> set (plan_runs db) \<Longrightarrow> sel r \<Longrightarrow> r = p"
    and good: "good_move db f p"
    and db': "plan_runs db' = sql_update sel f (plan_runs db)" "plan_revisions db' = plan_revisions db"
  shows "plans_ok db'"
proof -
  have rows: "plan_runs db' = map (\<lambda>r. if r = p \<and> sel p then f p else r) (plan_runs db)"
    unfolding db' sql_update_def by (rule map_cong [OF refl]) (metis sel)
  have ids: "map p_run_id (plan_runs db') = map p_run_id (plan_runs db)"
    using good by (simp add: rows good_move_def comp_def)
  have old: "\<exists>q \<in> set (plan_runs db). r = q \<or> (q = p \<and> r = f p)" if "r \<in> set (plan_runs db')" for r
    using that by (auto simp: rows split: if_splits)
  have each: "run_ok r \<and> (\<exists>v. revision_of (p_revision_id r) (plan_revisions db) = Some v \<and> labels (p_steps r) = step_labels (v_steps v))"
    if "r \<in> set (plan_runs db')" for r
    using old [OF that] ok good p by (auto simp: plans_ok_def good_move_def)
  have keep: "run_active q" if "r \<in> set (plan_runs db')" "q \<in> set (plan_runs db)" "r = q" "run_active r" for r q
    using that by simp
  have one: "r1 = r2" if r: "r1 \<in> set (plan_runs db')" "r2 \<in> set (plan_runs db')" "run_active r1" "run_active r2"
      "p_session_key r1 = p_session_key r2" for r1 r2
  proof -
    define g where "g r = (if r = p \<and> sel p then f p else r)" for r
    obtain q1 q2 where q: "q1 \<in> set (plan_runs db)" "q2 \<in> set (plan_runs db)" "r1 = g q1" "r2 = g q2"
      using r(1,2) by (auto simp: rows g_def)
    have key: "p_session_key (g q) = p_session_key q" for q using good by (simp add: g_def good_move_def)
    have act: "run_active q \<or> active_run_of (p_session_key q) db = None \<and> q = p" if "run_active (g q)" for q
      using that good by (auto simp: g_def good_move_def split: if_splits)
    have same: "p_session_key q1 = p_session_key q2" using r(5) key q by simp
    have "q1 = q2"
      using act [of q1] act [of q2] r(3,4) q same ok unfolding plans_ok_def active_run_None by metis
    then show ?thesis using q by simp
  qed
  show ?thesis unfolding plans_ok_def using ok ids each one by (simp add: db' plans_ok_def)
qed

lemma load_Inr:
  "load_plan_run_for_cas i n db = Inr p \<longleftrightarrow>
   run_of i (plan_runs db) = Some p \<and> p_state_revision p = n \<and>
   (\<exists>s. session_of (p_session_key p) (sessions db) = Some s \<and> s_session_id s = p_session_id p \<and> s_epoch s = p_epoch p)"
  by (auto simp: load_plan_run_for_cas_def split: option.splits)

lemma plans_ok_cas:
  assumes "plans_ok db" and "run_of i (plan_runs db) = Some p" and "good_move db f p"
  shows "plans_ok (fst (cas i n f p db))"
proof (rule plans_ok_update_one [OF assms(1) _ _ assms(3)])
  show "p \<in> set (plan_runs db)" using assms(1,2) by (simp add: run_of_mem)
  show "r = p" if "r \<in> set (plan_runs db)" "at_revision i n r" for r
    using that assms(1,2) run_of_mem [OF assms(1), of i r] by (simp add: at_revision_def)
qed (simp_all add: cas_def db_updates)

lemma plans_ok_tables: "plans_ok db \<Longrightarrow> plan_runs db' = plan_runs db \<Longrightarrow> plan_revisions db' = plan_revisions db \<Longrightarrow> plans_ok db'"
  by (simp add: plans_ok_def)

text \<open>A statement on many runs.\<close>

lemma plans_ok_map:
  assumes ok: "plans_ok db" and db': "plan_runs db' = map f (plan_runs db)" "plan_revisions db' = plan_revisions db"
    and id: "\<And>p. p_run_id (f p) = p_run_id p" and key: "\<And>p. p_session_key (f p) = p_session_key p"
    and rev: "\<And>p. p_revision_id (f p) = p_revision_id p" and steps: "\<And>p. p_steps (f p) = p_steps p"
    and good: "\<And>p. p \<in> set (plan_runs db) \<Longrightarrow> run_ok p \<Longrightarrow> run_ok (f p) \<and> (run_active (f p) \<longrightarrow> run_active p)"
  shows "plans_ok db'"
  unfolding plans_ok_def
proof (intro conjI)
  show "distinct (map p_run_id (plan_runs db'))" using ok id by (simp add: plans_ok_def db' comp_def)
  show "\<forall>p \<in> set (plan_runs db'). run_ok p \<and>
     (\<exists>v. revision_of (p_revision_id p) (plan_revisions db') = Some v \<and> labels (p_steps p) = step_labels (v_steps v))"
    using ok good by (auto simp: plans_ok_def db' rev steps)
  show "\<forall>p \<in> set (plan_runs db'). \<forall>q \<in> set (plan_runs db').
     run_active p \<longrightarrow> run_active q \<longrightarrow> p_session_key p = p_session_key q \<longrightarrow> p = q"
  proof (intro ballI impI)
    fix p q assume pq: "p \<in> set (plan_runs db')" "q \<in> set (plan_runs db')" "run_active p" "run_active q"
        "p_session_key p = p_session_key q"
    then obtain a b where ab: "a \<in> set (plan_runs db)" "b \<in> set (plan_runs db)" "p = f a" "q = f b" by (auto simp: db')
    then have "run_active a" "run_active b" "p_session_key a = p_session_key b"
      using pq good ok key unfolding plans_ok_def by metis+
    then have "a = b" using ab ok unfolding plans_ok_def by blast
    then show "p = q" using ab by simp
  qed
qed (use ok in \<open>simp_all add: plans_ok_def db'(2)\<close>)

lemma plans_ok_run: "plans_ok db \<Longrightarrow> run_of i (plan_runs db) = Some p \<Longrightarrow> run_ok p"
  by (auto simp: run_of_mem plans_ok_def)

end
