(* ===== verification/Plan_Runs.thy ===== *)
theory Plan_Runs
  imports Plan_Machine Session_Recovery
begin

text \<open>
  Histories of plan operations: every operation keeps the tables well-formed, the checkpoints of a
  run are bounded by its steps, and what happens to runs of stale revisions.
\<close>

section \<open>Every operation keeps the tables well-formed\<close>

lemma good_moves:
  assumes "run_ok p"
  shows "good_move db (superseded reason ts) p"
    and "p_status p = Run_Paused \<or> p_status p = Run_Blocked \<Longrightarrow> good_move db (requeued t ts) p"
    and "p_status p = Run_Running \<Longrightarrow> list_all step_closed (p_steps p) \<Longrightarrow> p_current_step p = None \<Longrightarrow>
      good_move db (completed ts) p"
    and "run_active p \<Longrightarrow> good_move db (paused reason ts) p"
    and "good_move db (cancelled reason ts) p"
    and "p_status p = Run_Completed \<Longrightarrow> active_run_of (p_session_key p) db = None \<Longrightarrow> good_move db (reopened reason ts) p"
  using run_moves_ok [OF assms] reopened_ok [OF assms]
  by (auto simp: good_move_def run_active_iff superseded_def requeued_def completed_def paused_def cancelled_def
      reopened_def Let_def)

lemma mark_keeps:
  assumes "plans_ok db" and "mark_plan_run_running i n t now db = Inr (db', q)"
  shows "plans_ok db'"
proof -
  obtain p where p: "run_of i (plan_runs db) = Some p"
    and res: "(db', q) = cas i n (superseded ''stale_plan_revision'' now) p db \<or>
      (p_status p \<in> {Run_Queued, Run_Paused, Run_Blocked} \<and>
       (let current = (case p_current_step p of None \<Rightarrow> first_open (p_steps p) | Some i \<Rightarrow> Some i)
        in (current \<noteq> None \<or> list_all step_closed (p_steps p)) \<and>
           (db', q) = cas i n (started (case current of None \<Rightarrow> p_steps p | Some i \<Rightarrow> start_step i (p_steps p))
             current t now) p db))"
    using assms(2) unfolding mark_plan_run_running_def Let_def
    by (auto simp: load_Inr split: if_splits)
  note ok = plans_ok_run [OF assms(1) p]
  from res show ?thesis
  proof
    assume "(db', q) = cas i n (superseded ''stale_plan_revision'' now) p db"
    then show ?thesis using plans_ok_cas [OF assms(1) p good_moves(1) [OF ok], of n] by (metis fst_conv)
  next
    define current where "current = (case p_current_step p of None \<Rightarrow> first_open (p_steps p) | Some i \<Rightarrow> Some i)"
    define states where "states = (case current of None \<Rightarrow> p_steps p | Some i \<Rightarrow> start_step i (p_steps p))"
    assume "p_status p \<in> {Run_Queued, Run_Paused, Run_Blocked} \<and>
       (let current = (case p_current_step p of None \<Rightarrow> first_open (p_steps p) | Some i \<Rightarrow> Some i)
        in (current \<noteq> None \<or> list_all step_closed (p_steps p)) \<and>
           (db', q) = cas i n (started (case current of None \<Rightarrow> p_steps p | Some i \<Rightarrow> start_step i (p_steps p))
             current t now) p db)"
    then have st: "p_status p \<in> {Run_Queued, Run_Paused, Run_Blocked}"
        "current \<noteq> None \<or> list_all step_closed (p_steps p)" "(db', q) = cas i n (started states current t now) p db"
      by (simp_all add: Let_def current_def states_def)
    have "good_move db (started states current t now) p"
      using started_ok [OF ok st(1) current_def st(2) states_def, of t now] st(1)
      by (auto simp: good_move_def started_def run_active_iff)
    then show ?thesis using plans_ok_cas [OF assms(1) p, of _ n] st(3) by (metis fst_conv)
  qed
qed

lemma checkpoint_Inr:
  assumes "checkpoint_plan_run i n sid st et reason now db = Inr (db', q)"
  shows "\<exists>p states current status. run_of i (plan_runs db) = Some p \<and> p_state_revision p = n \<and>
    p_status p = Run_Running \<and> p_current_step p = Some sid \<and>
    checkpoint_plan_step_states (p_steps p) sid st (opt_str reason) = Inr (states, current, status) \<and>
    (db', q) = cas i n (checkpointed status states current reason now) p db"
  using assms unfolding checkpoint_plan_run_def by (auto simp: load_Inr)

lemma checkpoint_keeps:
  assumes "plans_ok db" and "checkpoint_plan_run i n sid st et reason now db = Inr (db', q)"
  shows "plans_ok db'"
proof -
  obtain p states current status where p: "run_of i (plan_runs db) = Some p" "p_status p = Run_Running"
      "p_current_step p = Some sid"
      "checkpoint_plan_step_states (p_steps p) sid st (opt_str reason) = Inr (states, current, status)"
    and res: "(db', q) = cas i n (checkpointed status states current reason now) p db"
    using checkpoint_Inr [OF assms(2)] by blast
  note ok = plans_ok_run [OF assms(1) p(1)]
  have "good_move db (checkpointed status states current reason now) p"
    using checkpointed_ok [OF ok p(2,3,4), of reason now] p(2)
    by (auto simp: good_move_def checkpointed_def run_active_iff)
  then show ?thesis using plans_ok_cas [OF assms(1) p(1), of _ n] res by (metis fst_conv)
qed

lemma transition_keeps:
  assumes "plans_ok db" and "run_of i (plan_runs db) = Some p" and "good_move db f p" and "cas i n f p db = (db', q)"
  shows "plans_ok db'"
  using plans_ok_cas [OF assms(1-3), of n] assms(4) by simp

lemma complete_keeps:
  assumes "plans_ok db" and "complete_plan_run i n t now db = Inr (db', q)"
  shows "plans_ok db'"
proof -
  obtain p where p: "run_of i (plan_runs db) = Some p" "p_status p = Run_Running" "p_current_step p = None"
      "list_all step_closed (p_steps p)" "cas i n (completed now) p db = (db', q)"
    using assms(2) unfolding complete_plan_run_def by (auto simp: load_Inr)
  then show ?thesis using good_moves(3) [OF plans_ok_run [OF assms(1) p(1)]] transition_keeps [OF assms(1) p(1)] by blast
qed

lemma reopen_keeps:
  assumes "plans_ok db" and "reopen_completed_plan_run i n raw now db = Inr (db', q)"
  shows "plans_ok db'"
proof -
  obtain p reason where p: "run_of i (plan_runs db) = Some p" "p_status p = Run_Completed"
      "active_run_of (p_session_key p) db = None" "cas i n (reopened reason now) p db = (db', q)"
    using assms(2) unfolding reopen_completed_plan_run_def by (auto simp: load_Inr Let_def)
  then show ?thesis using good_moves(6) [OF plans_ok_run [OF assms(1) p(1)]] transition_keeps [OF assms(1) p(1)] by blast
qed

lemma pause_run_keeps:
  assumes "plans_ok db" and "pause_plan_run i n raw et dk di now db = Inr (db', q)"
  shows "plans_ok db'"
proof -
  obtain p reason where p: "run_of i (plan_runs db) = Some p" "p_status p \<in> {Run_Queued, Run_Running, Run_Blocked}"
      "cas i n (paused reason now) p db = (db', q)"
    using assms(2) unfolding pause_plan_run_def by (auto simp: load_Inr Let_def)
  then have "run_active p" by (auto simp: run_active_iff)
  then show ?thesis using good_moves(4) [OF plans_ok_run [OF assms(1) p(1)]] transition_keeps [OF assms(1) p(1)] p(3) by blast
qed

lemma cancel_keeps:
  assumes "plans_ok db" and "cancel_plan_run i n raw et now db = Inr (db', q)"
  shows "plans_ok db'"
proof -
  obtain p reason where p: "run_of i (plan_runs db) = Some p" "cas i n (cancelled reason now) p db = (db', q)"
    using assms(2) unfolding cancel_plan_run_def by (auto simp: load_Inr Let_def)
  then show ?thesis using good_moves(5) [OF plans_ok_run [OF assms(1) p(1)]] transition_keeps [OF assms(1) p(1)] by blast
qed

text \<open>The startup recovery.\<close>

lemma recovered_run_ok:
  assumes "run_ok p"
  shows "run_ok (recovered_run ts db p) \<and> (run_active (recovered_run ts db p) \<longrightarrow> run_active p)"
proof (cases "in_flight p")
  case True
  then show ?thesis using assms
    by (cases "owner_status db p")
      (auto simp: recovered_run_def settled_run_def run_rewrites in_flight_def delivery_ready_def run_ok_def run_active_iff)
qed (use assms in \<open>simp add: recovered_run_def\<close>)

lemma recovery_keeps:
  assumes "plans_ok db" and "mark_abandoned_agent_tasks env r ts db = Inr (db', n)"
  shows "plans_ok db'"
proof (rule plans_ok_map [OF assms(1) _ recovery_tables(4) [OF assms(2)]])
  show "plan_runs db' = map (recovered_run ts db') (plan_runs db)"
    using assms by (intro recovery_rows) (simp_all add: plans_ok_def)
qed (use recovered_run_ok in simp_all)

text \<open>Superseding the active run of a session.\<close>

lemma supersede_keeps:
  assumes "plans_ok db" and "\<And>r. r \<in> set (plan_runs db) \<Longrightarrow> sel r \<Longrightarrow> active_run_of k db = Some r"
    and "plan_runs db' = sql_update sel (superseded reason ts) (plan_runs db)" and "plan_revisions db' = plan_revisions db"
  shows "plans_ok db'"
proof (cases "active_run_of k db")
  case None
  then have "plan_runs db' = plan_runs db" using assms(2,3) by (auto intro: sql_update_none)
  then show ?thesis using plans_ok_tables [OF assms(1)] assms(4) by blast
next
  case (Some p)
  then have p: "p \<in> set (plan_runs db)" using active_run_Some by blast
  then have ok: "run_ok p" using assms(1) by (simp add: plans_ok_def)
  show ?thesis
    by (rule plans_ok_update_one [OF assms(1) p _ good_moves(1) [OF ok] assms(3,4)]) (use Some assms(2) in auto)
qed

lemma supersede_active_keeps:
  assumes "plans_ok db"
  shows "plans_ok (fst (supersede_active_plan_runs k reason ts db))"
proof (rule supersede_keeps [OF assms, where k = "canonicalize_session_key (Some k)"])
  let ?k = "canonicalize_session_key (Some k)"
  fix r assume r: "r \<in> set (plan_runs db)" "p_session_key r = ?k \<and> run_active r"
  then obtain q where q: "active_run_of ?k db = Some q" using active_run_None [of ?k db] by blast
  then show "active_run_of ?k db = Some r"
    using active_run_Some [OF q] r assms unfolding plans_ok_def by metis
qed (simp_all add: supersede_active_plan_runs_def Let_def db_updates)

text \<open>Starting a run.\<close>

lemma states_from_pending:
  "normalize_states_from i raws steps = Inr ss \<Longrightarrow> length raws = length steps \<Longrightarrow>
   labels ss = step_labels steps \<and> (\<forall>s \<in> set ss. st_status s = ''pending'' \<longrightarrow> st_reason s = None)"
proof (induction i raws steps arbitrary: ss rule: normalize_states_from.induct)
  case (1 i raw raws step steps)
  then obtain s rest where s: "normalize_step_state i raw step = Inr s"
      "normalize_states_from (Suc i) raws steps = Inr rest" "ss = s # rest" by auto
  have "st_id s = fst step \<and> st_title s = fst (snd step) \<and> (st_status s = ''pending'' \<longrightarrow> st_reason s = None)"
  proof (cases "as_dict raw")
    case (Some d)
    then show ?thesis using s(1)
      by (cases "dget d ''reason''") (auto simp: normalize_step_state_def state_reason_def)
  qed (use s(1) in \<open>simp add: normalize_step_state_def\<close>)
  then show ?case using "1.IH" [OF s(2)] "1.prems"(2) s(3) by (simp add: step_labels_def labels_def)
qed (simp_all add: step_labels_def)

lemma step_labels_ids: "labels states = step_labels steps \<Longrightarrow> map st_id states = map fst steps"
proof -
  assume eq: "labels states = step_labels steps"
  have "map fst (labels states) = map st_id states" by (simp add: labels_def comp_def)
  moreover have "map fst (step_labels steps) = map fst steps" by (simp add: step_labels_def comp_def)
  ultimately show ?thesis using eq by simp
qed

lemma prepared_run_ok:
  assumes "prepare_plan_run run raw v = Inr p" and "plan_steps_ok (v_steps v)"
  shows "run_ok p \<and> labels (p_steps p) = step_labels (v_steps v) \<and> p_run_id p = p_run_id run \<and>
    p_session_key p = p_session_key run \<and> p_revision_id p = v_revision_id v \<and> p_status p = Run_Queued"
proof -
  obtain states where states: "p_steps p = states" "\<forall>s \<in> set states. st_status s = ''pending''"
      "(if raw \<noteq> [] then normalize_plan_step_states raw (v_steps v) else Inr (initial_plan_step_states (v_steps v))) = Inr states"
    and p: "p_run_id p = p_run_id run" "p_session_key p = p_session_key run" "p_revision_id p = v_revision_id v"
      "p_status p = Run_Queued" "p_current_step p = None" "p_finished_at p = None"
    using assms(1) unfolding prepare_plan_run_def by (auto split: if_splits)
  have lab: "labels states = step_labels (v_steps v)" and reasons: "\<forall>s \<in> set states. st_status s = ''pending'' \<longrightarrow> st_reason s = None"
    using states(3) states_from_pending [of 0 raw "v_steps v" states]
    by (auto simp: normalize_plan_step_states_def initial_plan_step_states_def labels_def step_labels_def split: if_splits)
  have "map st_id states = map fst (v_steps v)" by (rule step_labels_ids [OF lab])
  moreover from this have "states \<noteq> []" using assms(2) by (auto simp: plan_steps_ok_def)
  moreover have "list_all waiting states" using states(2) reasons by (auto simp: list_all_iff waiting_def)
  ultimately have "overlay_ok states None" using assms(2) by (simp add: overlay_ok_def plan_steps_ok_def)
  then show ?thesis using states(1) p lab by (simp add: run_ok_def run_active_iff)
qed

lemma plans_ok_insert:
  assumes "plans_ok db" and "run_of (p_run_id new) (plan_runs db) = None" and "run_ok new"
    and "revision_of (p_revision_id new) (plan_revisions db) = Some v" and "labels (p_steps new) = step_labels (v_steps v)"
    and "active_run_of (p_session_key new) db = None"
  shows "plans_ok (db\<lparr>plan_runs := plan_runs db @ [new]\<rparr>)"
proof -
  have fresh: "p_run_id new \<notin> set (map p_run_id (plan_runs db))"
    using assms(2) by (auto simp: run_rows.lookup_None_iff)
  have idle: "\<forall>q \<in> set (plan_runs db). p_session_key q = p_session_key new \<longrightarrow> \<not> run_active q"
    using assms(6) by (simp add: active_run_None)
  show ?thesis unfolding plans_ok_def
  proof (intro conjI)
    show "\<forall>p \<in> set (plan_runs (db\<lparr>plan_runs := plan_runs db @ [new]\<rparr>)).
        \<forall>q \<in> set (plan_runs (db\<lparr>plan_runs := plan_runs db @ [new]\<rparr>)).
         run_active p \<longrightarrow> run_active q \<longrightarrow> p_session_key p = p_session_key q \<longrightarrow> p = q"
      using idle assms(1) by (auto simp: plans_ok_def)
  qed (use assms fresh in \<open>auto simp: plans_ok_def\<close>)
qed

lemma retire_keeps:
  assumes ok: "plans_ok db" and act: "act = active_run_of k db"
  shows "plans_ok (retire act reason ts db) \<and> active_run_of k (retire act reason ts db) = None \<and>
    plan_revisions (retire act reason ts db) = plan_revisions db \<and>
    map p_run_id (plan_runs (retire act reason ts db)) = map p_run_id (plan_runs db)"
proof (cases act)
  case None
  then show ?thesis using assms by (simp add: retire_def)
next
  case (Some p)
  let ?db = "retire act reason ts db"
  have rows: "plan_runs ?db = sql_update (\<lambda>r. p_run_id r = p_run_id p) (superseded reason ts) (plan_runs db)"
      "plan_revisions ?db = plan_revisions db"
    by (simp_all add: retire_def Some db_updates)
  have p: "active_run_of k db = Some p" using act Some by simp
  have only: "r = p" if "r \<in> set (plan_runs db)" "p_run_id r = p_run_id p" for r
    using that active_run_Some [OF p] ok by (auto simp: plans_ok_def distinct_map dest: inj_onD)
  have "active_run_of k ?db = None"
    unfolding active_run_None
  proof (intro ballI impI notI)
    fix q assume q: "q \<in> set (plan_runs ?db)" "p_session_key q = k" "run_active q"
    then obtain r where r: "r \<in> set (plan_runs db)" "q = (if p_run_id r = p_run_id p then superseded reason ts r else r)"
      by (auto simp: rows set_sql_update)
    have "p_run_id r \<noteq> p_run_id p" using q(3) r(2) by (auto simp: superseded_def run_active_iff split: if_splits)
    then have "q = r" "r \<noteq> p" using r(2) by auto
    then show False using ok active_run_Some [OF p] q(2,3) r(1) unfolding plans_ok_def by metis
  qed
  moreover have "plans_ok ?db" using supersede_keeps [OF ok _ rows] only p by blast
  moreover have "map p_run_id (plan_runs ?db) = map p_run_id (plan_runs db)"
    by (simp add: rows map_sql_update superseded_def)
  ultimately show ?thesis using rows(2) by blast
qed

lemma attach_keeps:
  assumes "plans_ok db" and "run_of (p_run_id run) (plan_runs db) = Some e" and "attach_run e run now db = Inr (db', q)"
  shows "plans_ok db'"
proof -
  have "db' = db \<or> (\<exists>t. (p_status e = Run_Paused \<or> p_status e = Run_Blocked) \<and>
      cas (p_run_id run) (p_state_revision e) (requeued t now) e db = (db', q))"
    using assms(3) unfolding attach_run_def cas_def Let_def by (auto split: if_splits)
  then show ?thesis
    using good_moves(2) [OF plans_ok_run [OF assms(1,2)]] transition_keeps [OF assms(1,2)] assms(1) by blast
qed

lemma run_of_fresh: "run_of i rows = None \<longleftrightarrow> i \<notin> set (map p_run_id rows)"
  by (auto simp: run_rows.lookup_None_iff)

lemma launch_keeps:
  assumes ok: "plans_ok db" and "launch_run prepared now db = Inr (db', q)" and "run_ok prepared"
    and "p_status prepared = Run_Queued" and v: "revision_of (p_revision_id prepared) (plan_revisions db) = Some v"
    and "labels (p_steps prepared) = step_labels (v_steps v)" and new: "run_of (p_run_id prepared) (plan_runs db) = None"
  shows "plans_ok db'"
proof -
  obtain act ts where act: "act = active_run_of (p_session_key prepared) db"
    and q: "q = prepared\<lparr>p_supersedes := map_option p_run_id act, p_created_at := ts, p_updated_at := ts\<rparr>"
    and db': "db' = (retire act ''superseded_by_new_run'' ts db)\<lparr>plan_runs :=
        plan_runs (retire act ''superseded_by_new_run'' ts db) @ [q]\<rparr>"
    using assms(2) unfolding launch_run_def Let_def by auto
  note ret = retire_keeps [OF ok act, of "''superseded_by_new_run''" ts]
  have ids: "map p_run_id (plan_runs (retire act ''superseded_by_new_run'' ts db)) = map p_run_id (plan_runs db)"
    using ret by blast
  have "p_run_id q = p_run_id prepared" by (simp add: q)
  then have "run_of (p_run_id q) (plan_runs (retire act ''superseded_by_new_run'' ts db)) = None"
    using new unfolding run_of_fresh ids by simp
  then show ?thesis unfolding db'
    using ret assms(3,4,6) v by (intro plans_ok_insert [of _ _ v]) (simp_all add: q run_ok_def run_active_iff)
qed

lemma start_keeps:
  assumes ok: "plans_ok db" and "start_plan_run run0 raw now db = Inr (db', q)"
  shows "plans_ok db'"
proof -
  define run where "run = run0\<lparr>p_session_key := canonicalize_session_key (Some (p_session_key run0))\<rparr>"
  show ?thesis
  proof (cases "run_of (p_run_id run) (plan_runs db)")
    case (Some e)
    then have "attach_run e run now db = Inr (db', q)" using assms(2) by (simp add: start_plan_run_def Let_def run_def)
    then show ?thesis using attach_keeps [OF ok Some] by blast
  next
    case None
    then obtain v prepared where v: "revision_of (p_revision_id run) (plan_revisions db) = Some v"
        "prepare_plan_run run raw v = Inr prepared" "launch_run prepared now db = Inr (db', q)"
      using assms(2) unfolding start_plan_run_def Let_def run_def [symmetric] by (auto split: option.splits)
    have "plan_steps_ok (v_steps v)" "v_revision_id v = p_revision_id run"
      using ok v(1) revision_rows.lookup_Some unfolding plans_ok_def by blast+
    then show ?thesis
      using launch_keeps [OF ok v(3), of v] prepared_run_ok [OF v(2)] None v(1) by simp
  qed
qed

text \<open>A new revision is appended; older ones and their runs are untouched.\<close>

lemma revisions_append_keeps:
  assumes "plans_ok db" and "insert_plan_revision v db = Inr db'" and "plan_steps_ok (v_steps v)"
  shows "plans_ok db'"
proof -
  have db': "db' = db\<lparr>plan_revisions := plan_revisions db @ [v]\<rparr>"
    and new: "\<forall>r \<in> set (plan_revisions db). v_revision_id r \<noteq> v_revision_id v"
    using assms(2) by (auto simp: insert_plan_revision_def split: if_splits)
  have "revision_of i (plan_revisions db') = Some w" if "revision_of i (plan_revisions db) = Some w" for i w
    using that by (simp add: db' revision_rows.lookup_append)
  then show ?thesis using assms(1,3) new unfolding plans_ok_def by (auto simp: db')
qed

lemma create_keeps:
  assumes ok: "plans_ok db" and "create_plan_revision sha v raw parent db = Inr (db', w)"
  shows "plans_ok db'"
proof -
  obtain p where p: "prepare_plan_revision sha v raw = Inr p"
    and row: "create_revision_row (p\<lparr>v_session_key := canonicalize_session_key (Some (v_session_key p))\<rparr>) parent db = Inr (db', w)"
    using assms(2) by (auto simp: create_plan_revision_def)
  define n where "n = p\<lparr>v_session_key := canonicalize_session_key (Some (v_session_key p))\<rparr>"
  have steps: "plan_steps_ok (v_steps n)"
    using p normalize_plan_steps_ok by (auto simp: n_def prepare_plan_revision_def Let_def)
  have "db' = db \<or> (\<exists>db1. insert_plan_revision n db = Inr db1 \<and>
      db' = retire (active_run_of (v_session_key n) db) ''superseded_by_new_revision'' (v_created_at n) (activate_revision n parent db1))"
    using row unfolding n_def [symmetric] create_revision_row_def Let_def by (auto split: option.splits)
  then show ?thesis
  proof (elim disjE exE conjE)
    fix db1 assume db1: "insert_plan_revision n db = Inr db1"
      and db': "db' = retire (active_run_of (v_session_key n) db) ''superseded_by_new_revision'' (v_created_at n) (activate_revision n parent db1)"
    have "plans_ok db1" by (rule revisions_append_keeps [OF ok db1 steps])
    then have ok2: "plans_ok (activate_revision n parent db1)"
      by (rule plans_ok_tables) (simp_all add: activate_revision_def update_sessions_def)
    have "plan_runs (activate_revision n parent db1) = plan_runs db"
      using db1 by (auto simp: activate_revision_def update_sessions_def insert_plan_revision_def split: if_splits)
    then have "active_run_of (v_session_key n) db = active_run_of (v_session_key n) (activate_revision n parent db1)"
      by (simp add: active_run_of_def)
    then show ?thesis unfolding db' using retire_keeps [OF ok2] by blast
  qed (simp add: ok)
qed

section \<open>Histories\<close>

datatype plan_op =
    Mode_Op string string int int
  | Revise_Op plan_revision pyval "string option"
  | Start_Op plan_run "pyval list" int
  | Mark_Op string int string int
  | Check_Op string int string string "string option" "string option" int
  | Complete_Op string int string int
  | Reopen_Op string int string int
  | Pause_Op string int string "string option" "string option" "string option" int
  | Cancel_Op string int string "string option" int
  | Supersede_Op string string int
  | Recover_Op restart_reads string int

definition committed :: "session_db \<Rightarrow> 'e + session_db \<times> 'a \<Rightarrow> session_db" where
  "committed db r = (case r of Inl _ \<Rightarrow> db | Inr p \<Rightarrow> fst p)"

fun plan_op_step :: "(string \<Rightarrow> string) \<Rightarrow> session_db \<Rightarrow> plan_op \<Rightarrow> session_db" where
  "plan_op_step sha db (Mode_Op k m n now) = committed db (set_collaboration_mode k m n now db)"
| "plan_op_step sha db (Revise_Op v raw parent) = committed db (create_plan_revision sha v raw parent db)"
| "plan_op_step sha db (Start_Op run raw now) = committed db (start_plan_run run raw now db)"
| "plan_op_step sha db (Mark_Op i n t now) = committed db (mark_plan_run_running i n t now db)"
| "plan_op_step sha db (Check_Op i n s st et r now) = committed db (checkpoint_plan_run i n s st et r now db)"
| "plan_op_step sha db (Complete_Op i n t now) = committed db (complete_plan_run i n t now db)"
| "plan_op_step sha db (Reopen_Op i n r now) = committed db (reopen_completed_plan_run i n r now db)"
| "plan_op_step sha db (Pause_Op i n r et dk di now) = committed db (pause_plan_run i n r et dk di now db)"
| "plan_op_step sha db (Cancel_Op i n r et now) = committed db (cancel_plan_run i n r et now db)"
| "plan_op_step sha db (Supersede_Op k r ts) = fst (supersede_active_plan_runs k r ts db)"
| "plan_op_step sha db (Recover_Op env r ts) = committed db (mark_abandoned_agent_tasks env r ts db)"

definition plan_history :: "(string \<Rightarrow> string) \<Rightarrow> session_db \<Rightarrow> plan_op list \<Rightarrow> session_db" where
  "plan_history sha db ops = foldl (plan_op_step sha) db ops"

lemma plan_history_simps [simp]:
  "plan_history sha db [] = db" "plan_history sha db (x # xs) = plan_history sha (plan_op_step sha db x) xs"
  by (simp_all add: plan_history_def)

lemma committed_keeps: "plans_ok db \<Longrightarrow> (\<And>db' a. r = Inr (db', a) \<Longrightarrow> plans_ok db') \<Longrightarrow> plans_ok (committed db r)"
  by (cases r) (auto simp: committed_def)

lemma mode_keeps:
  assumes "plans_ok db" and "set_collaboration_mode k m n now db = Inr (db', s)"
  shows "plan_runs db' = plan_runs db \<and> plan_revisions db' = plan_revisions db"
  using assms(2) unfolding set_collaboration_mode_def Let_def
  by (auto simp: update_sessions_def split: option.splits if_splits)

lemma op_keeps: "plans_ok db \<Longrightarrow> plans_ok (plan_op_step sha db op)"
proof (cases op)
  case (Mode_Op k m n now)
  assume "plans_ok db"
  then show ?thesis unfolding Mode_Op plan_op_step.simps
    by (rule committed_keeps) (use mode_keeps plans_ok_tables \<open>plans_ok db\<close> in blast)
qed (auto intro!: committed_keeps supersede_active_keeps
    intro: create_keeps start_keeps mark_keeps checkpoint_keeps complete_keeps reopen_keeps pause_run_keeps cancel_keeps recovery_keeps)

lemma history_keeps: "plans_ok db \<Longrightarrow> plans_ok (plan_history sha db ops)"
  by (induction ops arbitrary: db) (auto intro: op_keeps)

lemma first_open_current: "overlay_ok states (Some i) \<Longrightarrow> first_open states = Some i"
  unfolding overlay_ok_def first_open_def option.case using find_open by fastforce

text \<open>C4: From a database without plans, after any sequence of plan transactions and startup
  recoveries, every run shows exactly the steps of its revision in order; its current step is
  its first open one; a completed run has only closed steps, a running one has an owner, a run
  has a finish time exactly when it is terminal, and a session has at most one active run.\<close>

theorem plan_runs_sound:
  assumes "plan_runs db = []" and "plan_revisions db = []" and "p \<in> set (plan_runs (plan_history sha db ops))"
  shows "(p_current_step p \<noteq> None \<longrightarrow> p_current_step p = first_open (p_steps p)) \<and>
    (p_status p = Run_Completed \<longrightarrow> list_all step_closed (p_steps p)) \<and>
    (p_status p = Run_Running \<longrightarrow> p_active_task p \<noteq> None) \<and>
    (p_finished_at p \<noteq> None \<longleftrightarrow> p_status p \<in> set plan_run_terminal_statuses) \<and>
    (\<exists>v. revision_of (p_revision_id p) (plan_revisions (plan_history sha db ops)) = Some v \<and>
       labels (p_steps p) = step_labels (v_steps v)) \<and>
    (\<forall>q \<in> set (plan_runs (plan_history sha db ops)).
       run_active p \<and> run_active q \<and> p_session_key p = p_session_key q \<longrightarrow> p = q)"
proof -
  have "plans_ok db" using assms(1,2) by (simp add: plans_ok_def)
  then have ok: "plans_ok (plan_history sha db ops)" by (rule history_keeps)
  then have p: "run_ok p" using assms(3) by (simp add: plans_ok_def)
  have "p_current_step p = first_open (p_steps p)" if "p_current_step p = Some i" for i
    using p that first_open_current [of "p_steps p" i] by (simp add: run_ok_def)
  then have "p_current_step p \<noteq> None \<longrightarrow> p_current_step p = first_open (p_steps p)" by auto
  moreover have "\<not> run_active p \<longleftrightarrow> p_status p \<in> set plan_run_terminal_statuses"
    by (cases "p_status p") (simp_all add: run_active_iff plan_run_terminal_statuses_def)
  ultimately show ?thesis using ok assms(3) p unfolding run_ok_def plans_ok_def by blast
qed

section \<open>Checkpoints\<close>

lemma checkpoint_effect:
  assumes "plans_ok db" and "checkpoint_plan_run i n sid st et reason now db = Inr (db', q)"
  shows "\<exists>p r. run_of i (plan_runs db) = Some p \<and> run_of i (plan_runs db') = Some q \<and>
    p_status p = Run_Running \<and> p_current_step p = Some sid \<and> first_open (p_steps p) = Some sid \<and>
    closing_reason st (opt_str reason) = Inr r \<and>
    p_steps q = map (stepped sid st r (p_current_step q)) (p_steps p) \<and>
    p_current_step q = first_open (p_steps q) \<and>
    (\<forall>k < length (p_steps p). step_closed (p_steps p ! k) \<longrightarrow> p_steps q ! k = p_steps p ! k) \<and>
    open_count (p_steps q) + (if closing st then 1 else 0) = open_count (p_steps p) \<and>
    p_state_revision q = p_state_revision p + 1 \<and>
    p_status q = (if st = ''blocked'' then Run_Blocked else Run_Running) \<and>
    p_active_task q = (if st = ''blocked'' then None else p_active_task p)"
proof -
  obtain p states current status where p: "run_of i (plan_runs db) = Some p" "p_status p = Run_Running"
      "p_current_step p = Some sid" "p_state_revision p = n"
      "checkpoint_plan_step_states (p_steps p) sid st (opt_str reason) = Inr (states, current, status)"
    and res: "(db', q) = cas i n (checkpointed status states current reason now) p db"
    using checkpoint_Inr [OF assms(2)] by blast
  have ov: "overlay_ok (p_steps p) (Some sid)" using plans_ok_run [OF assms(1) p(1)] p(3) by (simp add: run_ok_def)
  note chk = checkpoint_ok [OF ov p(5)]
  then obtain r where r: "closing_reason st (opt_str reason) = Inr r" "states = map (stepped sid st r current) (p_steps p)"
    by blast
  have q: "q = checkpointed status states current reason now p" using res by (simp add: cas_def)
  have "p_run_id p = i" using p(1) run_rows.lookup_Some by blast
  then have row: "run_of i (plan_runs db') = Some q"
    using res p(1,4) by (simp add: cas_def q db_updates run_rows.lookup_update checkpointed_def at_revision_def)
  have cur: "current = first_open states"
  proof (cases current)
    case None
    then have "list_all step_closed states" using chk by simp
    then show ?thesis using None by (auto simp: first_open_def find_None_iff list_all_iff)
  next
    case (Some c)
    then show ?thesis using chk first_open_current by auto
  qed
  have fields: "p_steps q = states" "p_current_step q = current" "p_status q = status"
      "p_state_revision q = p_state_revision p + 1"
    by (simp_all add: q checkpointed_def)
  have "p_active_task q = (if st = ''blocked'' then None else p_active_task p)"
    using chk by (simp add: q checkpointed_def)
  then show ?thesis
    unfolding fields using p(1-3) r row cur chk first_open_current [OF ov]
    by (intro exI [of _ p] exI [of _ r]) (intro conjI; blast)
qed

text \<open>C19: An accepted checkpoint of a sound database is on the current step of a running run, which
  is its first open one. That step, and no other, takes the given status, with the reason that
  belongs to it; of the other steps only the new current one changes, which becomes in progress.
  Closed steps stay as they were; one step less is open exactly when the status closes
  (completed or skipped), the current step is then the first open one or none, the revision is
  one higher, and the run gives up its task and is blocked exactly when the step is blocked.\<close>

theorem checkpoint_advances:
  assumes "plans_ok db" and "checkpoint_plan_run i n sid st et reason now db = Inr (db', q)"
  shows "\<exists>p r. run_of i (plan_runs db) = Some p \<and> run_of i (plan_runs db') = Some q \<and>
    p_status p = Run_Running \<and> p_current_step p = Some sid \<and> first_open (p_steps p) = Some sid \<and>
    closing_reason st (opt_str reason) = Inr r \<and>
    p_steps q = map (stepped sid st r (p_current_step q)) (p_steps p) \<and>
    p_current_step q = first_open (p_steps q) \<and>
    (\<forall>k < length (p_steps p). step_closed (p_steps p ! k) \<longrightarrow> p_steps q ! k = p_steps p ! k) \<and>
    open_count (p_steps q) + (if closing st then 1 else 0) = open_count (p_steps p) \<and>
    p_state_revision q = p_state_revision p + 1 \<and>
    p_status q = (if st = ''blocked'' then Run_Blocked else Run_Running) \<and>
    p_active_task q = (if st = ''blocked'' then None else p_active_task p)"
  by (rule checkpoint_effect [OF assms])

end
