(* ===== verification/Plan_Progress.thy ===== *)
theory Plan_Progress
  imports Plan_Runs
begin

text \<open>
  Progress of plan runs: a run that is worked off step by step completes, no history closes more
  steps than a plan has, a revision is created once, and a run of a stale revision is superseded
  even when it is already finished.
\<close>

section \<open>Working off a run\<close>

text \<open>The task closes its current step again and again.\<close>

fun work_off :: "nat \<Rightarrow> string \<Rightarrow> int \<Rightarrow> session_db \<Rightarrow> session_db option" where
  "work_off 0 i now db = Some db"
| "work_off (Suc n) i now db =
     (case run_of i (plan_runs db) of
        None \<Rightarrow> None
      | Some p \<Rightarrow>
          (case p_current_step p of
             None \<Rightarrow> None
           | Some s \<Rightarrow>
               (case checkpoint_plan_run i (p_state_revision p) s ''completed'' None None now db of
                  Inl _ \<Rightarrow> None
                | Inr (db', _) \<Rightarrow> work_off n i now db')))"

text \<open>A run whose session is still at its epoch.\<close>

definition live_run :: "session_db \<Rightarrow> plan_run \<Rightarrow> bool" where
  "live_run db p = (\<exists>s. session_of (p_session_key p) (sessions db) = Some s \<and>
     s_session_id s = p_session_id p \<and> s_epoch s = p_epoch p)"

lemma checkpoint_current_possible:
  assumes "overlay_ok states (Some i)"
  shows "\<exists>r. checkpoint_plan_step_states states i ''completed'' reason = Inr r"
proof -
  obtain xs s ys where st: "states = xs @ s # ys" "st_id s = i" "\<not> step_closed s"
      "list_all step_closed xs" and dist: "distinct (map st_id states)"
    using assms unfolding overlay_ok_def option.case by blast
  have idx: "last_index i states = Some (length xs)"
    using last_index_at [OF distinct_middle, of xs s ys xs] dist st(1,2) by simp
  define u where "u = states[length xs := (states ! length xs)\<lparr>st_status := ''completed'', st_reason := None\<rparr>]"
  have "checkpoint_plan_step_states states i ''completed'' reason = after_checkpoint i ''completed'' u"
    using idx st by (simp add: checkpoint_plan_step_states_def closing_reason_def u_def ensure_def)
  moreover have "\<exists>r. after_checkpoint i ''completed'' u = Inr r"
  proof (cases "list_all step_closed u")
    case False
    then obtain as w bs where u: "u = as @ w # bs" "list_all step_closed as" "\<not> step_closed w"
      using split_open by blast
    have "distinct (map st_id u)" using dist st(1) by (simp add: u_def)
    then show ?thesis using False open_next_split [OF u(2,3)] u(1) by (simp add: after_checkpoint_def)
  qed (simp add: after_checkpoint_def)
  ultimately show ?thesis by simp
qed

lemma one_step:
  assumes ok: "plans_ok db" and p: "run_of i (plan_runs db) = Some p" "p_status p = Run_Running" "live_run db p"
    and "p_current_step p = Some s"
  shows "\<exists>db' q. checkpoint_plan_run i (p_state_revision p) s ''completed'' None None now db = Inr (db', q) \<and>
    plans_ok db' \<and> run_of i (plan_runs db') = Some q \<and> p_status q = Run_Running \<and> live_run db' q \<and>
    p_active_task q = p_active_task p \<and> p_state_revision q = p_state_revision p + 1 \<and>
    open_count (p_steps q) + 1 = open_count (p_steps p)"
proof -
  have ov: "overlay_ok (p_steps p) (Some s)" using plans_ok_run [OF ok p(1)] assms(5) by (simp add: run_ok_def)
  obtain states current status where chk: "checkpoint_plan_step_states (p_steps p) s ''completed'' PyNone = Inr (states, current, status)"
    using checkpoint_current_possible [OF ov] by (metis prod_cases3)
  let ?q = "checkpointed status states current None now p"
  let ?db = "update_runs (at_revision i (p_state_revision p)) (checkpointed status states current None now) db"
  have run: "checkpoint_plan_run i (p_state_revision p) s ''completed'' None None now db = Inr (?db, ?q)"
    using p assms(5) chk by (simp add: checkpoint_plan_run_def load_plan_run_for_cas_def live_run_def opt_str_def cas_def ensure_def)
  obtain p' where adv: "run_of i (plan_runs db) = Some p'" "run_of i (plan_runs ?db) = Some ?q"
      "p_state_revision ?q = p_state_revision p' + 1"
      "open_count (p_steps ?q) + (if closing ''completed'' then 1 else 0) = open_count (p_steps p')"
      "p_status ?q = (if ''completed'' = ''blocked'' then Run_Blocked else Run_Running)"
      "p_active_task ?q = (if ''completed'' = ''blocked'' then None else p_active_task p')"
    using checkpoint_effect [OF ok run] by blast
  moreover have "live_run ?db ?q" using p(3) by (simp add: live_run_def checkpointed_def)
  moreover have "plans_ok ?db" by (rule checkpoint_keeps [OF ok run])
  ultimately show ?thesis using run p(1) by (intro exI [of _ ?db] exI [of _ ?q]) (simp add: closing_def)
qed

lemma work_off_reaches:
  assumes "plans_ok db" and "run_of i (plan_runs db) = Some p" and "p_status p = Run_Running" and "live_run db p"
    and "open_count (p_steps p) = n"
  shows "\<exists>db' q. work_off n i now db = Some db' \<and> plans_ok db' \<and> run_of i (plan_runs db') = Some q \<and>
    p_status q = Run_Running \<and> live_run db' q \<and> p_active_task q = p_active_task p \<and>
    p_state_revision q = p_state_revision p + int n \<and> open_count (p_steps q) = 0"
  using assms
proof (induction n arbitrary: db p)
  case (Suc n)
  have "\<not> list_all step_closed (p_steps p)" using Suc.prems(5) by (simp add: open_count_closed)
  then obtain s where s: "p_current_step p = Some s"
    using plans_ok_run [OF Suc.prems(1,2)] Suc.prems(3) by (cases "p_current_step p") (auto simp: run_ok_def)
  from one_step [OF Suc.prems(1,2,3,4) s, of now] obtain db1 q1 where
      one: "checkpoint_plan_run i (p_state_revision p) s ''completed'' None None now db = Inr (db1, q1)"
      "plans_ok db1" "run_of i (plan_runs db1) = Some q1" "p_status q1 = Run_Running" "live_run db1 q1"
      "p_active_task q1 = p_active_task p" "p_state_revision q1 = p_state_revision p + 1"
      "open_count (p_steps q1) + 1 = open_count (p_steps p)" by blast
  have "open_count (p_steps q1) = n" using one(8) Suc.prems(5) by simp
  from Suc.IH [OF one(2-5) this] show ?case using Suc.prems(2) s one(1,6,7) by auto
qed auto

lemma overlay_closed: "overlay_ok states c \<Longrightarrow> list_all step_closed states \<Longrightarrow> c = None"
  by (cases c) (auto simp: overlay_ok_def)

text \<open>C20: A running run of a live session that closes its current step again and again has closed all
  of them after as many checkpoints as it had open steps, none of which is refused, and its
  completion by the owning task is then accepted.\<close>

theorem worked_off_run_completes:
  assumes "plans_ok db" and "run_of i (plan_runs db) = Some p" and "p_status p = Run_Running"
    and "p_active_task p = Some t" and "t \<noteq> []" and "live_run db p"
  shows "\<exists>db' db'' q. work_off (open_count (p_steps p)) i now db = Some db' \<and>
    complete_plan_run i (p_state_revision p + int (open_count (p_steps p))) t now db' = Inr (db'', q) \<and>
    p_status q = Run_Completed"
proof -
  obtain db' q where run: "work_off (open_count (p_steps p)) i now db = Some db'" "plans_ok db'"
      "run_of i (plan_runs db') = Some q" "p_status q = Run_Running" "live_run db' q" "p_active_task q = p_active_task p"
      "p_state_revision q = p_state_revision p + int (open_count (p_steps p))" "open_count (p_steps q) = 0"
    using work_off_reaches [OF assms(1-3,6) refl] by blast
  have q: "run_ok q" by (rule plans_ok_run [OF run(2,3)])
  have closed: "list_all step_closed (p_steps q)" using run(8) by (simp add: open_count_closed)
  have "overlay_ok (p_steps q) (p_current_step q)" using q by (simp add: run_ok_def)
  then have "p_current_step q = None" using closed by (rule overlay_closed)
  moreover have "p_steps q \<noteq> []" using q by (simp add: run_ok_def overlay_ok_def)
  ultimately have "complete_plan_run i (p_state_revision q) t now db' = Inr (cas i (p_state_revision q) (completed now) q db')"
    using run assms(4,5) closed
    by (simp add: complete_plan_run_def load_plan_run_for_cas_def live_run_def ensure_def)
  then show ?thesis using run(1,7) by (auto simp: cas_def completed_def)
qed

section \<open>No more steps are closed than there are\<close>

definition open_of :: "string \<Rightarrow> session_db \<Rightarrow> nat" where
  "open_of i db = (case run_of i (plan_runs db) of None \<Rightarrow> max_plan_steps | Some p \<Rightarrow> open_count (p_steps p))"

fun reopens :: "plan_op \<Rightarrow> bool" where
  "reopens (Reopen_Op i n r now) = True"
| "reopens _ = False"

fun closes :: "string \<Rightarrow> session_db \<Rightarrow> plan_op \<Rightarrow> bool" where
  "closes i db (Check_Op j n s st et r now) =
     (j = i \<and> closing st \<and> is_ok (checkpoint_plan_run j n s st et r now db))"
| "closes i db _ = False"

fun closings :: "(string \<Rightarrow> string) \<Rightarrow> string \<Rightarrow> session_db \<Rightarrow> plan_op list \<Rightarrow> nat" where
  "closings sha i db [] = 0"
| "closings sha i db (op # ops) = (if closes i db op then 1 else 0) + closings sha i (plan_op_step sha db op) ops"

lemma open_of_update:
  assumes "plan_runs db' = sql_update sel f (plan_runs db)" and "\<And>r. p_run_id (f r) = p_run_id r"
    and "\<And>r. r \<in> set (plan_runs db) \<Longrightarrow> sel r \<Longrightarrow> open_count (p_steps (f r)) \<le> open_count (p_steps r)"
  shows "open_of i db' \<le> open_of i db"
proof (cases "run_of i (plan_runs db)")
  case (Some r)
  then have "r \<in> set (plan_runs db)" using run_rows.lookup_Some by blast
  then show ?thesis using Some assms(2,3) by (simp add: open_of_def assms(1) run_rows.lookup_update)
qed (simp add: open_of_def assms(1,2) run_rows.lookup_update)

lemma open_of_same: "plan_runs db' = plan_runs db \<Longrightarrow> open_of i db' = open_of i db"
  by (simp add: open_of_def)

lemma open_of_cas:
  assumes "\<And>r. p_run_id (f r) = p_run_id r" and "\<And>r. p_steps (f r) = p_steps r" and "cas j n f p db = (db', q)"
  shows "open_of i db' \<le> open_of i db"
  using assms(3) by (intro open_of_update [of _ "at_revision j n" f]) (auto simp: cas_def db_updates assms(1,2))

lemma open_of_retire: "open_of i (retire act reason ts db) \<le> open_of i db"
proof (cases act)
  case (Some p)
  show ?thesis unfolding retire_def Some option.case
    by (rule open_of_update [of _ _ "superseded reason ts"]) (auto simp: db_updates superseded_def)
qed (simp add: retire_def)

lemma start_step_count: "overlay_ok states (Some i) \<Longrightarrow> open_count (start_step i states) = open_count states"
proof -
  assume "overlay_ok states (Some i)"
  then obtain xs s ys where "states = xs @ s # ys" "st_id s = i" "\<not> step_closed s" "distinct (map st_id states)"
    unfolding overlay_ok_def option.case by blast
  then show ?thesis using start_step_at [of s xs ys] by (simp add: closed_status)
qed

lemma start_first_count:
  assumes "overlay_ok states None" and "first_open states = Some i"
  shows "open_count (start_step i states) = open_count states"
proof -
  have "\<not> list_all step_closed states" using assms(2) by (auto simp: first_open_def find_Some_iff list_all_iff)
  then obtain xs s ys where st: "states = xs @ s # ys" "list_all step_closed xs" "\<not> step_closed s"
    using split_open by blast
  then have "i = st_id s" using assms(2) find_open [OF st(2,3), of ys] by (simp add: first_open_def)
  then show ?thesis using st assms(1) start_step_at [of s xs ys] by (simp add: closed_status overlay_ok_def)
qed

lemma mark_open:
  assumes "plans_ok db" and "mark_plan_run_running j n t now db = Inr (db', q)"
  shows "open_of i db' \<le> open_of i db"
proof -
  obtain p where p: "run_of j (plan_runs db) = Some p"
    and res: "cas j n (superseded ''stale_plan_revision'' now) p db = (db', q) \<or>
      (\<exists>current. current = (case p_current_step p of None \<Rightarrow> first_open (p_steps p) | Some i \<Rightarrow> Some i) \<and>
         cas j n (started (case current of None \<Rightarrow> p_steps p | Some i \<Rightarrow> start_step i (p_steps p)) current t now) p db = (db', q))"
    using assms(2) unfolding mark_plan_run_running_def Let_def by (auto simp: load_Inr split: if_splits)
  from res show ?thesis
  proof (elim disjE exE conjE)
    assume "cas j n (superseded ''stale_plan_revision'' now) p db = (db', q)"
    then show ?thesis by (rule open_of_cas [rotated 2]) (simp_all add: superseded_def)
  next
    fix current
    assume cur: "current = (case p_current_step p of None \<Rightarrow> first_open (p_steps p) | Some i \<Rightarrow> Some i)"
      and c: "cas j n (started (case current of None \<Rightarrow> p_steps p | Some i \<Rightarrow> start_step i (p_steps p)) current t now) p db = (db', q)"
    have ov: "overlay_ok (p_steps p) (p_current_step p)" using plans_ok_run [OF assms(1) p] by (simp add: run_ok_def)
    define states where "states = (case current of None \<Rightarrow> p_steps p | Some i \<Rightarrow> start_step i (p_steps p))"
    have count: "open_count states = open_count (p_steps p)"
      using ov cur start_step_count start_first_count
      by (cases "p_current_step p"; cases "first_open (p_steps p)") (auto simp: states_def)
    have only: "r = p" if "r \<in> set (plan_runs db)" "at_revision j n r" for r
      using that p run_of_mem [OF assms(1), of j r] by (simp add: at_revision_def)
    show ?thesis
      using c count only unfolding states_def [symmetric] cas_def
      by (intro open_of_update [of _ "at_revision j n" "started states current t now"]) (auto simp: db_updates started_def)
  qed
qed

lemma labels_length: "labels states = step_labels steps \<Longrightarrow> length states = length steps"
  by (metis labels_def length_map step_labels_def)

lemma prepared_count:
  assumes "prepare_plan_run run raw v = Inr p" and "plan_steps_ok (v_steps v)"
  shows "open_count (p_steps p) \<le> max_plan_steps"
proof -
  have "labels (p_steps p) = step_labels (v_steps v)" using prepared_run_ok [OF assms] by blast
  then have "length (p_steps p) = length (v_steps v)" by (rule labels_length)
  moreover have "open_count (p_steps p) \<le> length (p_steps p)" by (simp add: open_count_def)
  ultimately show ?thesis using assms(2) by (simp add: plan_steps_ok_def)
qed

lemma start_open:
  assumes ok: "plans_ok db" and "start_plan_run run0 raw now db = Inr (db', q)"
  shows "open_of i db' \<le> open_of i db"
proof -
  define run where "run = run0\<lparr>p_session_key := canonicalize_session_key (Some (p_session_key run0))\<rparr>"
  show ?thesis
  proof (cases "run_of (p_run_id run) (plan_runs db)")
    case (Some e)
    then have "attach_run e run now db = Inr (db', q)" using assms(2) by (simp add: start_plan_run_def Let_def run_def)
    then have "db' = db \<or> (\<exists>t. cas (p_run_id run) (p_state_revision e) (requeued t now) e db = (db', q))"
      unfolding attach_run_def cas_def Let_def by (auto split: if_splits)
    then show ?thesis
    proof (elim disjE exE)
      fix t assume "cas (p_run_id run) (p_state_revision e) (requeued t now) e db = (db', q)"
      then show ?thesis by (rule open_of_cas [rotated 2]) (simp_all add: requeued_def)
    qed simp
  next
    case None
    then obtain v prepared where v: "revision_of (p_revision_id run) (plan_revisions db) = Some v"
        "prepare_plan_run run raw v = Inr prepared" "launch_run prepared now db = Inr (db', q)"
      using assms(2) unfolding start_plan_run_def Let_def run_def [symmetric] by (auto split: option.splits)
    have ok_v: "plan_steps_ok (v_steps v)"
      using ok v(1) revision_rows.lookup_Some unfolding plans_ok_def by blast
    obtain ts where db': "db' = (retire (active_run_of (p_session_key prepared) db) ''superseded_by_new_run'' ts db)\<lparr>plan_runs :=
        plan_runs (retire (active_run_of (p_session_key prepared) db) ''superseded_by_new_run'' ts db) @ [q]\<rparr>"
      and q: "p_steps q = p_steps prepared"
      using v(3) unfolding launch_run_def Let_def by auto
    let ?r = "retire (active_run_of (p_session_key prepared) db) ''superseded_by_new_run'' ts db"
    have "open_of i db' \<le> open_of i ?r"
      using prepared_count [OF v(2) ok_v] by (auto simp: open_of_def db' run_rows.lookup_append q split: option.splits)
    then show ?thesis using open_of_retire le_trans by blast
  qed
qed

lemma create_open:
  assumes "create_plan_revision sha v raw parent db = Inr (db', w)"
  shows "open_of i db' \<le> open_of i db"
proof -
  obtain p where "create_revision_row (p\<lparr>v_session_key := canonicalize_session_key (Some (v_session_key p))\<rparr>) parent db = Inr (db', w)"
    using assms by (auto simp: create_plan_revision_def)
  then obtain n where row: "create_revision_row n parent db = Inr (db', w)" by blast
  have "db' = db \<or> (\<exists>db1. insert_plan_revision n db = Inr db1 \<and>
      db' = retire (active_run_of (v_session_key n) db) ''superseded_by_new_revision'' (v_created_at n) (activate_revision n parent db1))"
    using row unfolding create_revision_row_def Let_def by (auto split: option.splits)
  then show ?thesis
  proof (elim disjE exE conjE)
    fix db1 assume db1: "insert_plan_revision n db = Inr db1"
      and db': "db' = retire (active_run_of (v_session_key n) db) ''superseded_by_new_revision'' (v_created_at n) (activate_revision n parent db1)"
    have "plan_runs (activate_revision n parent db1) = plan_runs db"
      using db1 by (auto simp: activate_revision_def update_sessions_def insert_plan_revision_def split: if_splits)
    from open_of_same [OF this] show ?thesis unfolding db' by (metis open_of_retire)
  qed simp
qed

lemma checkpoint_open:
  assumes "plans_ok db" and run: "checkpoint_plan_run j n s st et r now db = Inr (db', q)"
  shows "open_of i db' + (if j = i \<and> closing st then 1 else 0) \<le> open_of i db"
proof -
  obtain p where p: "run_of j (plan_runs db) = Some p" "run_of j (plan_runs db') = Some q"
      "open_count (p_steps q) + (if closing st then 1 else 0) = open_count (p_steps p)"
    using checkpoint_effect [OF assms] by blast
  obtain f where f: "plan_runs db' = sql_update (at_revision j n) f (plan_runs db)" "\<And>r. p_run_id (f r) = p_run_id r"
    using run unfolding checkpoint_plan_run_def cas_def
    by (auto simp: db_updates checkpointed_def split: prod.splits)
  show ?thesis
  proof (cases "j = i")
    case False
    then have "run_of i (plan_runs db') = run_of i (plan_runs db)"
      by (cases "run_of i (plan_runs db)")
         (auto simp: f(1,2) at_revision_def run_rows.lookup_update dest!: run_rows.lookup_Some)
    then show ?thesis using False by (simp add: open_of_def)
  qed (use p in \<open>simp add: open_of_def\<close>)
qed

lemma committed_open:
  "(\<And>db' a. r = Inr (db', a) \<Longrightarrow> open_of i db' \<le> open_of i db) \<Longrightarrow> open_of i (committed db r) \<le> open_of i db"
  by (cases r) (auto simp: committed_def)

lemma moves_open:
  "complete_plan_run j n t now db = Inr (db', q) \<Longrightarrow> open_of i db' \<le> open_of i db"
  "pause_plan_run j n r et dk di now db = Inr (db', q) \<Longrightarrow> open_of i db' \<le> open_of i db"
  "cancel_plan_run j n r et now db = Inr (db', q) \<Longrightarrow> open_of i db' \<le> open_of i db"
proof -
  assume "complete_plan_run j n t now db = Inr (db', q)"
  then obtain p where "cas j n (completed now) p db = (db', q)" by (auto simp: complete_plan_run_def)
  then show "open_of i db' \<le> open_of i db" by (rule open_of_cas [rotated 2]) (simp_all add: completed_def)
next
  assume "pause_plan_run j n r et dk di now db = Inr (db', q)"
  then obtain p where "cas j n (paused (py_strip r) now) p db = (db', q)" by (auto simp: pause_plan_run_def Let_def)
  then show "open_of i db' \<le> open_of i db" by (rule open_of_cas [rotated 2]) (simp_all add: paused_def)
next
  assume "cancel_plan_run j n r et now db = Inr (db', q)"
  then obtain p where "cas j n (cancelled (py_strip r) now) p db = (db', q)" by (auto simp: cancel_plan_run_def Let_def)
  then show "open_of i db' \<le> open_of i db" by (rule open_of_cas [rotated 2]) (simp_all add: cancelled_def)
qed

lemma supersede_open: "open_of i (fst (supersede_active_plan_runs k r ts db)) \<le> open_of i db"
  by (rule open_of_update [of _ _ "superseded r ts"])
     (auto simp: supersede_active_plan_runs_def Let_def db_updates superseded_def)

lemma recovery_open:
  assumes "plans_ok db" and "mark_abandoned_agent_tasks env r ts db = Inr (db', n)"
  shows "open_of i db' \<le> open_of i db"
proof (rule open_of_update [of db' "\<lambda>_. True" "recovered_run ts db'"])
  show "plan_runs db' = sql_update (\<lambda>_. True) (recovered_run ts db') (plan_runs db)"
    using assms recovery_rows [of db env r ts db' n] by (simp add: plans_ok_def sql_update_def)
qed simp_all

lemma mode_open: "set_collaboration_mode k m n now db = Inr (db', s) \<Longrightarrow> open_of i db' \<le> open_of i db"
  unfolding set_collaboration_mode_def Let_def
  by (auto simp: open_of_def update_sessions_def split: option.splits if_splits)

lemma op_open:
  assumes "plans_ok db" and "\<not> reopens op"
  shows "open_of i (plan_op_step sha db op) + (if closes i db op then 1 else 0) \<le> open_of i db"
proof (cases op)
  case check: (Check_Op j n s st et r now)
  show ?thesis
  proof (cases "checkpoint_plan_run j n s st et r now db")
    case (Inr b)
    then obtain db' q where run: "checkpoint_plan_run j n s st et r now db = Inr (db', q)" by (cases b) auto
    then show ?thesis using checkpoint_open [OF assms(1) run, of i] by (simp add: check committed_def)
  qed (simp add: check committed_def)
qed (use assms(1,2) in \<open>auto intro!: committed_open supersede_open
    intro: mode_open create_open start_open mark_open moves_open recovery_open\<close>)

text \<open>C34: In any history of plan transactions and startup recoveries that does not reopen a completed
  run, the accepted checkpoints that close a step of a given run are no more than its open
  steps, at most 64: no sequence of pauses, resumptions, replans and restarts makes a run close
  more.\<close>

theorem plan_walk_ends:
  assumes "plans_ok db" and "\<forall>op \<in> set ops. \<not> reopens op"
  shows "closings sha i db ops + open_of i (plan_history sha db ops) \<le> open_of i db \<and> open_of i db \<le> 64"
proof
  show "closings sha i db ops + open_of i (plan_history sha db ops) \<le> open_of i db"
    using assms
  proof (induction ops arbitrary: db)
    case (Cons op ops)
    have "closings sha i (plan_op_step sha db op) ops + open_of i (plan_history sha db (op # ops))
        \<le> open_of i (plan_op_step sha db op)"
      using Cons.IH [OF op_keeps [OF Cons.prems(1)]] Cons.prems(2) by simp
    moreover have "open_of i (plan_op_step sha db op) + (if closes i db op then 1 else 0) \<le> open_of i db"
      using op_open [OF Cons.prems(1)] Cons.prems(2) by simp
    ultimately show ?case by simp
  qed simp
  show "open_of i db \<le> 64"
  proof (cases "run_of i (plan_runs db)")
    case (Some p)
    obtain v where "revision_of (p_revision_id p) (plan_revisions db) = Some v" "labels (p_steps p) = step_labels (v_steps v)"
      using assms(1) Some run_rows.lookup_Some unfolding plans_ok_def by blast
    moreover have "plan_steps_ok (v_steps v)"
      using assms(1) calculation(1) revision_rows.lookup_Some unfolding plans_ok_def by blast
    ultimately have "length (p_steps p) \<le> 64"
      using labels_length by (simp add: plan_steps_ok_def max_plan_steps_def)
    moreover have "open_count (p_steps p) \<le> length (p_steps p)" by (simp add: open_count_def)
    ultimately show ?thesis by (simp add: open_of_def Some)
  qed (simp add: open_of_def max_plan_steps_def)
qed

section \<open>Repeated and stale requests\<close>

lemma find_created:
  assumes "v_revision_id r = v_revision_id v" and "revision_of (v_revision_id v) (plan_revisions db) = Some r"
    and "v_content_hash r = v_content_hash v" "v_parent_revision r = v_parent_revision v"
      "v_session_key r = v_session_key v" "v_session_id r = v_session_id v" "v_epoch r = v_epoch v"
  shows "create_revision_row v parent db = Inr (db, r)"
  using assms by (simp add: create_revision_row_def find_idempotent_plan_revision_def Let_def ensure_def)

lemma created_row_found:
  assumes "create_revision_row v parent db = Inr (db', w)"
  shows "create_revision_row v parent db' = Inr (db', w)"
proof (cases "db' = db")
  case False
  then obtain db1 where w: "w = v" "find_idempotent_plan_revision v db = Inr None"
    and db1: "insert_plan_revision v db = Inr db1"
    and db': "db' = retire (active_run_of (v_session_key v) db) ''superseded_by_new_revision'' (v_created_at v) (activate_revision v parent db1)"
    using assms unfolding create_revision_row_def Let_def by (auto split: option.splits)
  have "plan_revisions db' = plan_revisions db1"
    by (simp add: db' retire_def activate_revision_def update_sessions_def db_updates split: option.split)
  then have rows: "plan_revisions db' = plan_revisions db @ [v]" "\<forall>r \<in> set (plan_revisions db). v_revision_id r \<noteq> v_revision_id v"
    using db1 by (auto simp: insert_plan_revision_def split: if_splits)
  then have "revision_of (v_revision_id v) (plan_revisions db') = Some v"
    using revision_rows.lookup_None_iff [of "v_revision_id v" "plan_revisions db"] by (simp add: revision_rows.lookup_append)
  then show ?thesis using find_created [OF refl] w(1) by simp
qed (use assms in simp)

theorem revision_created_once:
  assumes "create_plan_revision sha v raw parent db = Inr (db', w)"
  shows "create_plan_revision sha v raw parent db' = Inr (db', w)"
proof -
  obtain p where p: "prepare_plan_revision sha v raw = Inr p"
    and row: "create_revision_row (p\<lparr>v_session_key := canonicalize_session_key (Some (v_session_key p))\<rparr>) parent db = Inr (db', w)"
    using assms by (auto simp: create_plan_revision_def)
  then show ?thesis using created_row_found [OF row] by (simp add: create_plan_revision_def)
qed

theorem stale_run_loses_completion:
  assumes "run_of i (plan_runs db) = Some p" and "p_status p = Run_Completed" and "live_run db p"
    and "session_of (p_session_key p) (sessions db) = Some s" and "s_active_plan_revision s \<noteq> Some (p_revision_id p)"
    and "t \<noteq> []"
  shows "\<exists>db' q. mark_plan_run_running i (p_state_revision p) t now db = Inr (db', q) \<and>
    run_of i (plan_runs db') = Some q \<and> p_status q = Run_Superseded \<and> p_finished_at q = Some now"
proof -
  have "p_run_id p = i" using assms(1) run_rows.lookup_Some by blast
  then show ?thesis using assms
    by (simp add: mark_plan_run_running_def load_plan_run_for_cas_def live_run_def ensure_def cas_def db_updates
        run_rows.lookup_update at_revision_def superseded_def)
qed

end
