(* ===== verification/Plan_Witnesses.thy ===== *)
theory Plan_Witnesses
  imports Plan_Progress Goal_Witnesses
begin

text \<open>
  A worked example for plans: one session, a plan of two steps and its run. Each property of
  plans is applied to it.
\<close>

section \<open>The example\<close>

definition demo_draft :: plan_revision where
  "demo_draft = \<lparr>v_revision_id = ''v'', v_plan_id = ''p'', v_parent_revision = None, v_generation = 1,
     v_session_key = ''k'', v_session_id = ''s'', v_epoch = 0, v_turn_id = None, v_message_id = None,
     v_title = ''ship'', v_markdown = ''fly'', v_steps = [], v_content_hash = [], v_created_at = 5\<rparr>"

definition demo_steps :: pyval where
  "demo_steps = PyList [PyDict [(''step_id'', PyStr ''k''), (''title'', PyStr ''ship'')],
                        PyDict [(''step_id'', PyStr ''m''), (''title'', PyStr ''fly'')]]"

definition demo_sha :: "string \<Rightarrow> string" where
  "demo_sha s = ''h''"

definition demo_revision :: plan_revision where
  "demo_revision = demo_draft\<lparr>v_steps := [(''k'', ''ship'', None), (''m'', ''fly'', None)], v_content_hash := ''h''\<rparr>"

definition demo_states :: "step_state list" where
  "demo_states = [\<lparr>st_id = ''k'', st_title = ''ship'', st_status = ''in_progress'', st_reason = None\<rparr>,
                  \<lparr>st_id = ''m'', st_title = ''fly'', st_status = ''pending'', st_reason = None\<rparr>]"

definition demo_run :: plan_run where
  "demo_run = \<lparr>p_run_id = ''r'', p_session_key = ''k'', p_session_id = ''s'', p_epoch = 0,
     p_revision_id = ''v'', p_supersedes = None, p_driver_kind = ''manual'', p_driver_id = None,
     p_status = Run_Running, p_steps = demo_states, p_current_step = Some ''k'', p_state_revision = 1,
     p_active_task = Some ''t'', p_pause_reason = None, p_terminal_reason = None, p_created_at = 6,
     p_updated_at = 6, p_started_at = Some 6, p_finished_at = None\<rparr>"

definition demo_plan_db :: session_db where
  "demo_plan_db = empty_db\<lparr>sessions := [demo_session\<lparr>s_active_plan_revision := Some ''v''\<rparr>],
     plan_revisions := [demo_revision], plan_runs := [demo_run]\<rparr>"

lemma demo_step_ids: "step_id_ok ''k''" "step_id_ok ''m''"
  by (simp_all add: step_id_ok_def id_start_def code_def Let_def max_plan_step_id_chars_def)

lemma demo_plan_ok: "plan_steps_ok (v_steps demo_revision)"
  by (simp add: plan_steps_ok_def demo_revision_def demo_draft_def plan_step_ok_def text_ok_def demo_step_ids
      max_plan_steps_def max_plan_step_title_chars_def)

lemma demo_prepared: "prepare_plan_revision demo_sha demo_draft demo_steps = Inr demo_revision"
  by (simp add: prepare_plan_revision_def normalize_plan_steps_def normalize_plan_step_def demo_steps_def
      demo_draft_def demo_revision_def demo_step_ids bounded_text_def step_details_def ensure_def Let_def dget_or_def
      max_plan_steps_def max_plan_step_title_chars_def max_plan_title_chars_def max_plan_markdown_chars_def
      plan_content_hash_def demo_sha_def)

abbreviation demo_created_db :: session_db where
  "demo_created_db \<equiv> demo_start\<lparr>plan_revisions := [demo_revision],
     sessions := [demo_session\<lparr>s_active_plan_revision := Some ''v'', s_collaboration_revision := 1, s_updated_at := 5\<rparr>]\<rparr>"

lemma demo_row: "create_revision_row demo_revision None demo_start = Inr (demo_created_db, demo_revision)"
  by (simp add: create_revision_row_def find_idempotent_plan_revision_def
      demo_revision_def demo_draft_def demo_start_def empty_db_def demo_session_def session_of_def revision_of_def
      active_run_of_def check_lineage_def insert_plan_revision_def retire_def activate_revision_def update_sessions_def
      sql_update_def ensure_def Let_def)

lemma demo_created: "create_plan_revision demo_sha demo_draft demo_steps None demo_start = Inr (demo_created_db, demo_revision)"
proof -
  have "demo_revision\<lparr>v_session_key := canonicalize_session_key (Some (v_session_key demo_revision))\<rparr> = demo_revision"
    by (simp add: demo_revision_def demo_draft_def)
  then show ?thesis unfolding create_plan_revision_def demo_prepared rbind.simps demo_row by (simp add: demo_row)
qed

text \<open>The run as it is started.\<close>

definition demo_queued :: plan_run where
  "demo_queued = demo_run\<lparr>p_status := Run_Queued, p_state_revision := 0\<rparr>"

abbreviation demo_new_run :: plan_run where
  "demo_new_run \<equiv> demo_queued\<lparr>p_steps := initial_plan_step_states (v_steps demo_revision),
     p_current_step := None, p_started_at := None, p_created_at := 6, p_updated_at := 6\<rparr>"

lemma demo_strip_task [simp]: "py_strip ''t'' = ''t''"
  by (simp add: py_strip_def py_lstrip_def py_rstrip_def py_isspace_def code_def)

lemma demo_prepared_run: "prepare_plan_run demo_queued [] demo_revision =
    Inr (demo_queued\<lparr>p_steps := initial_plan_step_states (v_steps demo_revision), p_current_step := None, p_started_at := None\<rparr>)"
  by (simp add: prepare_plan_run_def demo_queued_def demo_run_def demo_revision_def demo_draft_def ensure_def
      bounded_text_def Let_def initial_plan_step_states_def)

lemma demo_launched: "launch_run (demo_queued\<lparr>p_steps := st, p_current_step := None, p_started_at := None\<rparr>) 6 demo_created_db =
    Inr (demo_created_db\<lparr>plan_runs := [demo_queued\<lparr>p_steps := st, p_current_step := None, p_started_at := None,
      p_created_at := 6, p_updated_at := 6\<rparr>]\<rparr>,
      demo_queued\<lparr>p_steps := st, p_current_step := None, p_started_at := None, p_created_at := 6, p_updated_at := 6\<rparr>)"
  by (simp add: launch_run_def demo_queued_def demo_run_def active_run_of_def demo_start_def empty_db_def newest_created_at_def
      retire_def check_active_run_def ensure_def Let_def)

lemma demo_started: "start_plan_run demo_queued [] 6 demo_created_db =
    Inr (demo_created_db\<lparr>plan_runs := [demo_new_run]\<rparr>, demo_new_run)"
proof -
  have key: "demo_queued\<lparr>p_session_key := canonicalize_session_key (Some (p_session_key demo_queued))\<rparr> = demo_queued"
    by (simp add: demo_queued_def demo_run_def)
  have at: "run_of (p_run_id demo_queued) (plan_runs demo_created_db) = None"
      "session_of (p_session_key demo_queued) (sessions demo_created_db) =
         Some (demo_session\<lparr>s_active_plan_revision := Some ''v'', s_collaboration_revision := 1, s_updated_at := 5\<rparr>)"
      "revision_of (p_revision_id demo_queued) (plan_revisions demo_created_db) = Some demo_revision"
      "p_session_id demo_queued = ''s''" "p_epoch demo_queued = 0" "p_revision_id demo_queued = ''v''"
    by (simp_all add: run_of_def session_of_def revision_of_def demo_queued_def demo_run_def demo_start_def empty_db_def
        demo_session_def demo_revision_def demo_draft_def)
  show ?thesis
    unfolding start_plan_run_def key Let_def at(1-3) option.case demo_prepared_run demo_launched rbind.simps
    by (simp add: at(4-) demo_session_def ensure_def)
qed

lemma demo_plan_tables [simp]:
  "plan_runs demo_plan_db = [demo_run]" "plan_revisions demo_plan_db = [demo_revision]"
  "sessions demo_plan_db = [demo_session\<lparr>s_active_plan_revision := Some ''v''\<rparr>]"
  by (simp_all add: demo_plan_db_def)

lemma demo_run_fields [simp]:
  "p_run_id demo_run = ''r''" "p_session_key demo_run = ''k''" "p_session_id demo_run = ''s''" "p_epoch demo_run = 0"
  "p_status demo_run = Run_Running" "p_steps demo_run = demo_states" "p_current_step demo_run = Some ''k''"
  "p_state_revision demo_run = 1" "p_active_task demo_run = Some ''t''" "p_revision_id demo_run = ''v''"
  by (simp_all add: demo_run_def)

lemma demo_states_ok: "overlay_ok demo_states (Some ''k'')"
  using overlay_current [of "[]" "hd demo_states" "tl demo_states"]
  by (simp add: demo_states_def step_closed_def plan_step_terminal_statuses_def waiting_def)

lemma demo_plan_ok_db: "plans_ok demo_plan_db"
proof -
  have "run_ok demo_run" by (simp add: run_ok_def demo_states_ok run_active_iff demo_run_def)
  moreover have "labels demo_states = step_labels (v_steps demo_revision)"
    by (simp add: demo_states_def step_labels_def demo_revision_def)
  moreover have "revision_of ''v'' [demo_revision] = Some demo_revision"
    by (simp add: revision_of_def demo_revision_def demo_draft_def)
  ultimately show ?thesis using demo_plan_ok by (simp add: plans_ok_def)
qed

lemma demo_run_at: "run_of ''r'' (plan_runs demo_plan_db) = Some demo_run" "live_run demo_plan_db demo_run"
  by (simp_all add: run_of_def live_run_def session_of_def demo_session_def)

section \<open>Witnesses\<close>

lemma prepared_plan_is_canonical_witness:
  "prepare_plan_revision demo_sha demo_revision (PyList (map step_dict (v_steps demo_revision))) = Inr demo_revision \<and>
   length (v_steps demo_revision) \<le> 64"
  using prepared_plan_is_canonical [OF demo_prepared] by blast

lemma plan_runs_sound_witness:
  "demo_new_run \<in> set (plan_runs (plan_history demo_sha demo_start [Revise_Op demo_draft demo_steps None, Start_Op demo_queued [] 6])) \<and>
   p_finished_at demo_new_run = None"
proof -
  have p: "demo_new_run \<in> set (plan_runs (plan_history demo_sha demo_start [Revise_Op demo_draft demo_steps None, Start_Op demo_queued [] 6]))"
    by (simp add: committed_def demo_created demo_started)
  have "plan_runs demo_start = []" "plan_revisions demo_start = []" by (simp_all add: demo_start_def empty_db_def)
  from plan_runs_sound [OF this p] show ?thesis
    using p by (simp add: plan_run_terminal_statuses_def demo_queued_def)
qed

lemma demo_checkpoint: "is_ok (checkpoint_plan_run ''r'' 1 ''k'' ''completed'' None None 7 demo_plan_db)"
  using one_step [OF demo_plan_ok_db demo_run_at(1) _ demo_run_at(2), of "''k''" 7] by (auto simp: is_ok_iff)

lemma checkpoint_advances_witness:
  "\<exists>db' q r. checkpoint_plan_run ''r'' 1 ''k'' ''completed'' None None 7 demo_plan_db = Inr (db', q) \<and>
     p_steps q = map (stepped ''k'' ''completed'' r (p_current_step q)) demo_states \<and>
     open_count (p_steps q) = 1 \<and> p_state_revision q = 2"
proof -
  obtain db' q where run: "checkpoint_plan_run ''r'' 1 ''k'' ''completed'' None None 7 demo_plan_db = Inr (db', q)"
    using demo_checkpoint by (auto simp: is_ok_iff)
  have "open_count demo_states = 2" by (simp add: demo_states_def step_closed_def plan_step_terminal_statuses_def)
  then show ?thesis using run checkpoint_advances [OF demo_plan_ok_db run] demo_run_at(1)
    by (auto simp: closing_def)
qed

lemma worked_off_run_completes_witness:
  "\<exists>db' db'' q. work_off 2 ''r'' 7 demo_plan_db = Some db' \<and> complete_plan_run ''r'' 3 ''t'' 7 db' = Inr (db'', q) \<and>
     p_status q = Run_Completed"
proof -
  have "open_count demo_states = 2" by (simp add: demo_states_def step_closed_def plan_step_terminal_statuses_def)
  then show ?thesis using worked_off_run_completes [OF demo_plan_ok_db demo_run_at(1) _ _ _ demo_run_at(2), of "''t''" 7] by simp
qed

lemma plan_walk_ends_witness:
  "closings demo_sha ''r'' demo_plan_db [Check_Op ''r'' 1 ''k'' ''completed'' None None 7] = 1 \<and>
   open_of ''r'' (plan_history demo_sha demo_plan_db [Check_Op ''r'' 1 ''k'' ''completed'' None None 7]) \<le> 1"
proof -
  let ?ops = "[Check_Op ''r'' 1 ''k'' ''completed'' None None 7]"
  have one: "closings demo_sha ''r'' demo_plan_db ?ops = 1" by (simp add: closing_def demo_checkpoint)
  have "open_of ''r'' demo_plan_db = 2"
    by (simp add: open_of_def demo_run_at(1) [simplified] demo_states_def step_closed_def plan_step_terminal_statuses_def)
  then show ?thesis using one plan_walk_ends [OF demo_plan_ok_db, of ?ops demo_sha "''r''"] by simp
qed

lemma recovery_leaves_nothing_running_witness:
  "\<exists>db' n q. mark_abandoned_agent_tasks \<lparr>accepted_control = (\<lambda>_. False), ended_session = (\<lambda>_. False)\<rparr>
       ''process_restart'' 9 demo_plan_db = Inr (db', n) \<and>
     q \<in> set (plan_runs db') \<and> p_run_id q = ''r'' \<and> p_steps q = demo_states \<and> p_active_task q = None"
proof -
  let ?run = "mark_abandoned_agent_tasks \<lparr>accepted_control = (\<lambda>_. False), ended_session = (\<lambda>_. False)\<rparr>
       ''process_restart'' 9 demo_plan_db"
  obtain db' n where run: "?run = Inr (db', n)" by (simp add: mark_abandoned_agent_tasks_def Let_def ensure_def)
  have "distinct (map p_run_id (plan_runs demo_plan_db))" using demo_plan_ok_db by (simp add: plans_ok_def)
  note quiet = recovery_leaves_nothing_running [OF this run]
  have row: "demo_run \<in> set (plan_runs demo_plan_db)" using demo_run_at(1) run_rows.lookup_Some by blast
  have fields: "in_flight demo_run" "p_run_id demo_run = ''r''" "p_steps demo_run = demo_states"
    by (simp_all add: in_flight_def)
  have "\<exists>q \<in> set (plan_runs db'). p_run_id q = ''r'' \<and> p_steps q = demo_states \<and> p_active_task q = None"
    using bspec [OF conjunct2 [OF conjunct2 [OF quiet]] row] by (auto simp only: fields if_True)
  then show ?thesis using run by blast
qed

lemma revision_created_once_witness:
  "\<exists>db'. create_plan_revision demo_sha demo_draft demo_steps None demo_start = Inr (db', demo_revision) \<and>
     create_plan_revision demo_sha demo_draft demo_steps None db' = Inr (db', demo_revision)"
  using demo_created revision_created_once [OF demo_created] by blast

definition demo_stale_db :: session_db where
  "demo_stale_db = empty_db\<lparr>sessions := [demo_session], plan_runs := [demo_run\<lparr>p_status := Run_Completed\<rparr>]\<rparr>"

lemma stale_run_loses_completion_witness:
  "\<exists>db' q. mark_plan_run_running ''r'' 1 ''t'' 9 demo_stale_db = Inr (db', q) \<and> p_status q = Run_Superseded"
proof -
  have at: "run_of ''r'' (plan_runs demo_stale_db) = Some (demo_run\<lparr>p_status := Run_Completed\<rparr>)"
      "session_of ''k'' (sessions demo_stale_db) = Some demo_session"
      "live_run demo_stale_db (demo_run\<lparr>p_status := Run_Completed\<rparr>)"
    by (simp_all add: demo_stale_db_def run_of_def session_of_def live_run_def demo_session_def)
  then show ?thesis using stale_run_loses_completion [OF at(1) _ at(3), of demo_session "''t''" 9]
    by (auto simp: demo_session_def)
qed

end
