(* ===== verification/Provider_Registry.thy ===== *)
theory Provider_Registry
  imports Py_Prelude
begin

text \<open>
  The registry of model providers (\<open>src/src/openstarry_code/provider/registry.py\<close>): the static
  rows, reduced to the fields that selection, failure classification and the construction of
  an adapter read, and the lookup of a row by its id.
\<close>

record provider_spec =
  spec_id :: string
  spec_backend :: string
  spec_kind :: string
  spec_env_key :: string
  spec_base_url :: string
  spec_family :: string
  spec_supported :: bool

definition spec :: "string \<Rightarrow> string \<Rightarrow> string \<Rightarrow> string \<Rightarrow> string \<Rightarrow> string \<Rightarrow> bool \<Rightarrow> provider_spec" where
  "spec i backend kind env_key base_url family supported =
     \<lparr>spec_id = i, spec_backend = backend, spec_kind = kind, spec_env_key = env_key,
      spec_base_url = base_url, spec_family = family, spec_supported = supported\<rparr>"

definition keyless_providers :: "string list" where
  "keyless_providers =
     [''ollama'', ''lm_studio'', ''ovms'', ''custom_anthropic'', ''custom_responses'',
      ''custom'', ''custom_2'', ''custom_3'', ''custom_4'']"

definition requires_api_key :: "provider_spec \<Rightarrow> bool" where
  "requires_api_key s =
     (spec_id s \<notin> set keyless_providers \<and> spec_env_key s \<noteq> [] \<and> spec_env_key s \<noteq> ''OAuth'')"

definition requires_base_url :: "provider_spec \<Rightarrow> bool" where
  "requires_base_url s = (spec_supported s \<and> spec_base_url s = [])"

section \<open>The rows\<close>

definition specs_global :: "provider_spec list" where
  "specs_global =
    [spec ''openrouter'' ''openai_compat'' ''openrouter'' ''OPENROUTER_API_KEY'' ''https://openrouter.ai/api/v1'' ''openai_compat'' True,
     spec ''openai'' ''openai_compat'' ''openai'' ''OPENAI_API_KEY'' ''https://api.openai.com/v1'' ''openai_compat'' True,
     spec ''openai_responses'' ''openai_responses'' ''openai_responses'' ''OPENAI_API_KEY'' ''https://api.openai.com/v1'' ''openai_compat'' True,
     spec ''azure'' ''openai_compat'' ''azure'' ''AZURE_OPENAI_API_KEY'' [] ''openai_compat'' True,
     spec ''anthropic'' ''anthropic'' ''anthropic'' ''ANTHROPIC_API_KEY'' ''https://api.anthropic.com'' ''anthropic'' True,
     spec ''ollama'' ''ollama'' ''ollama'' ''OLLAMA_API_KEY'' ''http://localhost:11434'' ''ollama'' True,
     spec ''deepseek'' ''openai_compat'' ''deepseek'' ''DEEPSEEK_API_KEY'' ''https://api.deepseek.com'' ''openai_compat'' True,
     spec ''gemini'' ''openai_compat'' ''gemini'' ''GEMINI_API_KEY'' ''https://generativelanguage.googleapis.com/v1beta/openai'' ''openai_compat'' True,
     spec ''dashscope'' ''openai_compat'' ''dashscope'' ''DASHSCOPE_API_KEY'' ''https://dashscope.aliyuncs.com/compatible-mode/v1'' ''openai_compat'' True,
     spec ''bailian_coding'' ''openai_compat'' ''bailian_coding'' ''BAILIAN_API_KEY'' ''https://coding-intl.dashscope.aliyuncs.com/v1'' ''openai_compat'' True,
     spec ''bailian_coding_cn'' ''openai_compat'' ''bailian_coding'' ''BAILIAN_API_KEY'' ''https://coding.dashscope.aliyuncs.com/v1'' ''openai_compat'' True]"

definition specs_plans :: "provider_spec list" where
  "specs_plans =
    [spec ''qwen_token_plan'' ''openai_compat'' ''qwen_token_plan'' ''QWEN_TOKEN_PLAN_API_KEY'' ''https://token-plan.cn-beijing.maas.aliyuncs.com/compatible-mode/v1'' ''openai_compat'' True,
     spec ''qwen_token_plan_anthropic'' ''anthropic'' ''qwen_token_plan'' ''QWEN_TOKEN_PLAN_API_KEY'' ''https://token-plan.cn-beijing.maas.aliyuncs.com/apps/anthropic'' ''anthropic'' True,
     spec ''moonshot'' ''openai_compat'' ''moonshot'' ''MOONSHOT_API_KEY'' ''https://api.moonshot.ai/v1'' ''openai_compat'' True,
     spec ''kimi_coding_openai'' ''openai_compat'' ''moonshot'' ''KIMI_CODING_API_KEY'' ''https://api.kimi.com/coding/v1'' ''openai_compat'' True,
     spec ''kimi_coding_anthropic'' ''anthropic'' ''moonshot'' ''KIMI_CODING_API_KEY'' ''https://api.kimi.com/coding'' ''anthropic'' True,
     spec ''minimax'' ''anthropic'' ''minimax'' ''MINIMAX_API_KEY'' ''https://api.minimaxi.com/anthropic'' ''anthropic'' True,
     spec ''minimax_openai'' ''openai_compat'' ''minimax'' ''MINIMAX_API_KEY'' ''https://api.minimax.io/v1'' ''openai_compat'' True,
     spec ''minimax_coding_openai'' ''openai_compat'' ''minimax'' ''MINIMAX_CODING_API_KEY'' ''https://api.minimaxi.com/v1'' ''openai_compat'' True,
     spec ''minimax_coding_anthropic'' ''anthropic'' ''minimax'' ''MINIMAX_CODING_API_KEY'' ''https://api.minimaxi.com/anthropic'' ''anthropic'' True,
     spec ''minimax_cn'' ''anthropic'' ''minimax'' ''MINIMAX_CN_API_KEY'' ''https://api.minimaxi.com/anthropic'' ''anthropic'' True,
     spec ''minimax_global'' ''anthropic'' ''minimax'' ''MINIMAX_API_KEY'' ''https://api.minimax.io/anthropic'' ''anthropic'' True,
     spec ''mimo_openai'' ''openai_compat'' ''mimo'' ''MIMO_API_KEY'' ''https://token-plan-cn.xiaomimimo.com/v1'' ''openai_compat'' True,
     spec ''mimo_anthropic'' ''anthropic'' ''mimo'' ''MIMO_API_KEY'' ''https://token-plan-cn.xiaomimimo.com/anthropic'' ''anthropic'' True,
     spec ''mistral'' ''openai_compat'' ''mistral'' ''MISTRAL_API_KEY'' ''https://api.mistral.ai/v1'' ''openai_compat'' True]"

definition specs_regional :: "provider_spec list" where
  "specs_regional =
    [spec ''groq'' ''openai_compat'' ''groq'' ''GROQ_API_KEY'' ''https://api.groq.com/openai/v1'' ''openai_compat'' True,
     spec ''zhipu'' ''openai_compat'' ''zhipu'' ''ZAI_API_KEY'' ''https://open.bigmodel.cn/api/paas/v4'' ''openai_compat'' True,
     spec ''qianfan'' ''openai_compat'' ''qianfan'' ''QIANFAN_API_KEY'' ''https://qianfan.baidubce.com/v2'' ''openai_compat'' True,
     spec ''siliconflow'' ''openai_compat'' ''siliconflow'' ''SILICONFLOW_API_KEY'' ''https://api.siliconflow.cn/v1'' ''openai_compat'' True,
     spec ''aihubmix'' ''openai_compat'' ''aihubmix'' ''AIHUBMIX_API_KEY'' ''https://aihubmix.com/v1'' ''openai_compat'' True,
     spec ''volcengine'' ''openai_compat'' ''volcengine'' ''VOLCENGINE_API_KEY'' ''https://ark.cn-beijing.volces.com/api/v3'' ''openai_compat'' True,
     spec ''byteplus'' ''openai_compat'' ''byteplus'' ''BYTEPLUS_API_KEY'' ''https://ark.ap-southeast.bytepluses.com/api/v3'' ''openai_compat'' True,
     spec ''tencent_tokenhub'' ''openai_compat'' ''tencent_tokenhub'' ''TENCENT_TOKENHUB_API_KEY'' ''https://tokenhub.tencentmaas.com/v1'' ''openai_compat'' True,
     spec ''tencent_tokenhub_anthropic'' ''anthropic'' ''tencent_tokenhub'' ''TENCENT_TOKENHUB_API_KEY'' ''https://tokenhub.tencentmaas.com'' ''anthropic'' True,
     spec ''tencent_tokenhub_intl'' ''openai_compat'' ''tencent_tokenhub'' ''TENCENT_TOKENHUB_INTL_API_KEY'' ''https://tokenhub-intl.tencentcloudmaas.com/v1'' ''openai_compat'' True,
     spec ''tencent_token_plan'' ''openai_compat'' ''tencent_tokenhub'' ''TENCENT_TOKEN_PLAN_API_KEY'' ''https://api.lkeap.cloud.tencent.com/plan/v3'' ''openai_compat'' True,
     spec ''tencent_token_plan_anthropic'' ''anthropic'' ''tencent_tokenhub'' ''TENCENT_TOKEN_PLAN_API_KEY'' ''https://api.lkeap.cloud.tencent.com/plan/anthropic'' ''anthropic'' True,
     spec ''tokenrhythm'' ''openai_compat'' ''tokenrhythm'' ''TOKENRHYTHM_API_KEY'' ''https://tokenrhythm.studio/v1'' ''openai_compat'' True]"

definition specs_local :: "provider_spec list" where
  "specs_local =
    [spec ''custom'' ''openai_compat'' ''openai'' ''CUSTOM_LLM_API_KEY'' [] ''openai_compat'' True,
     spec ''custom_2'' ''openai_compat'' ''openai'' ''CUSTOM_LLM_2_API_KEY'' [] ''openai_compat'' True,
     spec ''custom_3'' ''openai_compat'' ''openai'' ''CUSTOM_LLM_3_API_KEY'' [] ''openai_compat'' True,
     spec ''custom_4'' ''openai_compat'' ''openai'' ''CUSTOM_LLM_4_API_KEY'' [] ''openai_compat'' True,
     spec ''custom_anthropic'' ''anthropic'' ''anthropic'' ''CUSTOM_ANTHROPIC_API_KEY'' [] ''anthropic'' True,
     spec ''custom_responses'' ''openai_responses'' ''openai_responses'' ''CUSTOM_RESPONSES_API_KEY'' [] ''openai_compat'' True,
     spec ''vllm'' ''openai_compat'' ''openai'' [] [] ''openai_compat'' True,
     spec ''lm_studio'' ''openai_compat'' ''lm_studio'' [] ''http://localhost:1234/v1'' ''openai_compat'' True,
     spec ''ovms'' ''openai_compat'' ''ovms'' [] ''http://localhost:8000/v3'' ''openai_compat'' True,
     spec ''litellm_proxy'' ''openai_compat'' ''litellm_proxy'' ''LITELLM_API_KEY'' ''http://localhost:4000/v1'' ''openai_compat'' True,
     spec ''volcengine_coding_plan'' ''openai_responses'' ''volcengine_coding_plan'' ''VOLCENGINE_API_KEY'' ''https://ark.cn-beijing.volces.com/api/coding/v3'' ''openai_compat'' True,
     spec ''volcengine_coding_plan_anthropic'' ''anthropic'' ''volcengine_coding_plan_anthropic'' ''VOLCENGINE_API_KEY'' ''https://ark.cn-beijing.volces.com/api/coding'' ''anthropic'' True,
     spec ''byteplus_coding_plan'' ''openai_responses'' ''byteplus_coding_plan'' ''BYTEPLUS_API_KEY'' ''https://ark.ap-southeast.bytepluses.com/api/coding/v3'' ''openai_compat'' True,
     spec ''byteplus_coding_plan_anthropic'' ''anthropic'' ''byteplus_coding_plan_anthropic'' ''BYTEPLUS_API_KEY'' ''https://ark.ap-southeast.bytepluses.com/api/coding'' ''anthropic'' True,
     spec ''openai_codex'' ''openai_codex'' ''openai_codex'' ''OAuth'' ''https://chatgpt.com/backend-api'' ''openai_compat'' True,
     spec ''github_copilot'' ''unsupported_oauth'' ''github_copilot'' ''OAuth'' ''https://api.githubcopilot.com'' ''openai_compat'' False]"

definition provider_specs :: "provider_spec list" where
  "provider_specs = specs_global @ specs_plans @ specs_regional @ specs_local"

text \<open>The rows are registered one after the other into a dict: the last one of an id counts.\<close>

definition get_provider_spec :: "string \<Rightarrow> provider_spec option" where
  "get_provider_spec provider_id = find (\<lambda>s. spec_id s = provider_id) (rev provider_specs)"

lemma get_provider_spec_Some:
  "get_provider_spec i = Some s \<Longrightarrow> s \<in> set provider_specs \<and> spec_id s = i"
  by (auto simp: get_provider_spec_def find_Some_iff in_set_conv_nth) (metis length_rev nth_mem set_rev in_set_conv_nth)

end
