(* ===== verification/Provider_Failures.thy ===== *)
theory Provider_Failures
  imports Provider_Registry
begin

text \<open>
  Classification of provider errors (\<open>src/src/openstarry_code/provider/failures.py\<close>): the tables of
  matcher rows, walked in order, the pattern that scopes gateway status codes, the recovery
  action of a kind, and the retry policy of \<open>engine/fallback.py\<close>. Strings are Latin-1, so the one
  marker in Chinese characters has no row here.
\<close>

section \<open>Kinds and actions\<close>

datatype failure_kind =
    Rate_Limited | Provider_Overloaded | Auth_Invalid | Context_Overflow | Unsupported_Feature
  | Insufficient_Credits | Model_Not_Found | Transport_Transient | Policy_Refusal | Empty_Response
  | Malformed_Response | Bad_Request | Unknown_Failure

fun failure_kind_value :: "failure_kind \<Rightarrow> string" where
  "failure_kind_value Rate_Limited = ''rate_limited''"
| "failure_kind_value Provider_Overloaded = ''provider_overloaded''"
| "failure_kind_value Auth_Invalid = ''auth_invalid''"
| "failure_kind_value Context_Overflow = ''context_overflow''"
| "failure_kind_value Unsupported_Feature = ''unsupported_feature''"
| "failure_kind_value Insufficient_Credits = ''insufficient_credits''"
| "failure_kind_value Model_Not_Found = ''model_not_found''"
| "failure_kind_value Transport_Transient = ''transport_transient''"
| "failure_kind_value Policy_Refusal = ''policy_refusal''"
| "failure_kind_value Empty_Response = ''empty_response''"
| "failure_kind_value Malformed_Response = ''malformed_response''"
| "failure_kind_value Bad_Request = ''bad_request''"
| "failure_kind_value Unknown_Failure = ''unknown''"

definition failure_kinds :: "failure_kind list" where
  "failure_kinds =
     [Rate_Limited, Provider_Overloaded, Auth_Invalid, Context_Overflow, Unsupported_Feature,
      Insufficient_Credits, Model_Not_Found, Transport_Transient, Policy_Refusal, Empty_Response,
      Malformed_Response, Bad_Request, Unknown_Failure]"

definition failure_kind_of :: "string \<Rightarrow> failure_kind option" where
  "failure_kind_of s = enum_of failure_kind_value failure_kinds s"

interpretation failure_kind_enum: str_enum failure_kind_value failure_kind_of
proof
  fix e show "failure_kind_of (failure_kind_value e) = Some e"
    by (cases e) (simp_all add: failure_kind_of_def enum_of_def failure_kinds_def)
qed (simp add: failure_kind_of_def enum_of_Some)

datatype recovery_action =
  Retry | Retry_Then_Fallback | Fallback_Provider | Compact_And_Retry | Fail_Config | Surface

fun recovery_action_value :: "recovery_action \<Rightarrow> string" where
  "recovery_action_value Retry = ''retry''"
| "recovery_action_value Retry_Then_Fallback = ''retry_then_fallback''"
| "recovery_action_value Fallback_Provider = ''fallback_provider''"
| "recovery_action_value Compact_And_Retry = ''compact_and_retry''"
| "recovery_action_value Fail_Config = ''fail_config''"
| "recovery_action_value Surface = ''surface''"

definition failure_family :: "string \<Rightarrow> string" where
  "failure_family provider = (case get_provider_spec provider of None \<Rightarrow> [] | Some s \<Rightarrow> spec_family s)"

section \<open>Patterns\<close>

text \<open>
  The regular expressions of the code, by the end positions of their matches. A position is the
  character before it and the rest of the text; \<open>Edge\<close> is the word boundary.
\<close>

datatype rx = Word string | Either rx rx | Then rx rx | Spaces | Gap nat | Edge

type_synonym rx_pos = "char option \<times> string"

definition at_edge :: "rx_pos \<Rightarrow> bool" where
  "at_edge p =
     ((case fst p of None \<Rightarrow> False | Some c \<Rightarrow> word_char c) \<noteq>
      (case snd p of [] \<Rightarrow> False | c # cs \<Rightarrow> word_char c))"

text \<open>The positions reached by reading at most \<open>n\<close> characters that satisfy \<open>ok\<close>.\<close>

fun runs :: "(char \<Rightarrow> bool) \<Rightarrow> nat \<Rightarrow> rx_pos \<Rightarrow> rx_pos list" where
  "runs ok 0 p = [p]"
| "runs ok (Suc n) (prev, []) = [(prev, [])]"
| "runs ok (Suc n) (prev, c # cs) = (prev, c # cs) # (if ok c then runs ok n (Some c, cs) else [])"

fun rx_ends :: "rx \<Rightarrow> rx_pos \<Rightarrow> rx_pos list" where
  "rx_ends (Word w) (prev, s) =
     (if starts_with w s then [(if w = [] then prev else Some (last w), drop (length w) s)] else [])"
| "rx_ends (Either a b) p = rx_ends a p @ rx_ends b p"
| "rx_ends (Then a b) p = concat (map (rx_ends b) (rx_ends a p))"
| "rx_ends Spaces p = runs py_isspace (length (snd p)) p"
| "rx_ends (Gap n) p = runs (\<lambda>c. code c \<noteq> 10) n p"
| "rx_ends Edge p = (if at_edge p then [p] else [])"

fun positions :: "char option \<Rightarrow> string \<Rightarrow> rx_pos list" where
  "positions prev [] = [(prev, [])]"
| "positions prev (c # cs) = (prev, c # cs) # positions (Some c) cs"

definition rx_search :: "rx \<Rightarrow> string \<Rightarrow> bool" where
  "rx_search r s = list_ex (\<lambda>p. rx_ends r p \<noteq> []) (positions None s)"

fun any_rx :: "rx list \<Rightarrow> rx" where
  "any_rx [] = Word []"
| "any_rx [r] = r"
| "any_rx (r # rs) = Either r (any_rx rs)"

fun seq_rx :: "rx list \<Rightarrow> rx" where
  "seq_rx [] = Word []"
| "seq_rx [r] = r"
| "seq_rx (r # rs) = Then r (seq_rx rs)"

definition opt_rx :: "rx \<Rightarrow> rx" where
  "opt_rx r = Either r (Word [])"

abbreviation any_word :: "string list \<Rightarrow> rx" where
  "any_word ws \<equiv> any_rx (map Word ws)"

definition gateway_codes :: rx where
  "gateway_codes = any_word [''499'', ''500'', ''502'', ''503'', ''504'', ''520'', ''521'', ''522'',
     ''523'', ''524'', ''529'']"

definition gateway_context :: rx where
  "gateway_context = any_word [''cloudflare'', ''openrouter'', ''upstream'', ''gateway'', ''backend'']"

definition gateway_error_terms :: rx where
  "gateway_error_terms = any_word [''error'', ''returned'', ''returning'', ''failed'', ''failure'',
     ''unreachable'', ''timeout'', ''timed out'', ''overloaded'', ''overload'', ''bad gateway'', ''origin'']"

definition status_words :: rx where
  "status_words = any_rx
     [Then (Word ''http'') (opt_rx (Word '' status'')),
      Then (Word ''status'') (opt_rx (Then (opt_rx (any_word [''_'', '' '', ''-''])) (Word ''code''))),
      Word ''error code'', Word ''code'']"

text \<open>\<open>_GATEWAY_TRANSIENT_RE\<close>.\<close>

definition gateway_transient_rx :: rx where
  "gateway_transient_rx = any_rx
     [seq_rx [Edge, status_words, Spaces, opt_rx (any_word ['':'', ''='']), Spaces, gateway_codes, Edge],
      seq_rx [Edge, gateway_context, Edge, Gap 80, Edge, gateway_error_terms, Edge, Gap 80, Edge, gateway_codes, Edge],
      seq_rx [Edge, gateway_context, Edge, Gap 80, Edge, gateway_codes, Edge, Gap 80, Edge, gateway_error_terms, Edge],
      seq_rx [Edge, gateway_codes, Edge, Gap 80, Edge, gateway_context, Edge, Gap 80, Edge, gateway_error_terms, Edge]]"

section \<open>Signals and matchers\<close>

record failure_signal =
  sig_status :: "int option"
  sig_raw_code :: string
  sig_message :: string
  sig_text :: string

definition status_text :: "int option \<Rightarrow> string" where
  "status_text status = (case status of None \<Rightarrow> [] | Some n \<Rightarrow> if n = 0 then [] else int_str n)"

definition joined :: "int option \<Rightarrow> string \<Rightarrow> string \<Rightarrow> string" where
  "joined status raw_code message = py_lower (status_text status @ '' '' @ raw_code @ '' '' @ message)"

record failure_matcher =
  fm_kind :: failure_kind
  fm_status :: "int list"
  fm_raw_codes :: "string list"
  fm_any :: "string list"
  fm_all :: "string list"
  fm_predicate :: "(failure_signal \<Rightarrow> bool) option"

text \<open>A row without a constraint is rejected when it is built.\<close>

definition constrained :: "failure_matcher \<Rightarrow> bool" where
  "constrained m = (fm_status m \<noteq> [] \<or> fm_raw_codes m \<noteq> [] \<or> fm_any m \<noteq> [] \<or> fm_all m \<noteq> [] \<or> fm_predicate m \<noteq> None)"

definition matches :: "failure_matcher \<Rightarrow> failure_signal \<Rightarrow> bool" where
  "matches m s =
     ((fm_status m \<noteq> [] \<longrightarrow> (case sig_status s of None \<Rightarrow> False | Some n \<Rightarrow> n \<in> set (fm_status m))) \<and>
      (fm_raw_codes m \<noteq> [] \<longrightarrow> sig_raw_code s \<in> set (fm_raw_codes m)) \<and>
      (fm_any m \<noteq> [] \<longrightarrow> list_ex (\<lambda>w. contains w (sig_text s)) (fm_any m)) \<and>
      list_all (\<lambda>w. contains w (sig_text s)) (fm_all m) \<and>
      (case fm_predicate m of None \<Rightarrow> True | Some p \<Rightarrow> p s))"

definition is_empty_response :: "failure_signal \<Rightarrow> bool" where
  "is_empty_response s =
     (sig_raw_code s = ''empty_response'' \<or>
      py_lower (py_strip (sig_message s)) \<in>
        {''empty_response'', ''empty response'', ''provider returned an empty response''})"

definition is_gateway_transient :: "failure_signal \<Rightarrow> bool" where
  "is_gateway_transient s = rx_search gateway_transient_rx (sig_text s)"

text \<open>Rows with one constraint.\<close>

definition row :: "failure_kind \<Rightarrow> failure_matcher" where
  "row k = \<lparr>fm_kind = k, fm_status = [], fm_raw_codes = [], fm_any = [], fm_all = [], fm_predicate = None\<rparr>"

definition on_status :: "failure_kind \<Rightarrow> int list \<Rightarrow> failure_matcher" where
  "on_status k ns = (row k)\<lparr>fm_status := ns\<rparr>"

definition on_raw :: "failure_kind \<Rightarrow> string list \<Rightarrow> failure_matcher" where
  "on_raw k ws = (row k)\<lparr>fm_raw_codes := ws\<rparr>"

definition on_text :: "failure_kind \<Rightarrow> string list \<Rightarrow> failure_matcher" where
  "on_text k ws = (row k)\<lparr>fm_any := ws\<rparr>"

definition on_pred :: "failure_kind \<Rightarrow> (failure_signal \<Rightarrow> bool) \<Rightarrow> failure_matcher" where
  "on_pred k p = (row k)\<lparr>fm_predicate := Some p\<rparr>"

section \<open>The tables\<close>

definition gateway_status_codes :: "int list" where
  "gateway_status_codes = [499, 500, 502, 503, 504, 520, 521, 522, 523, 524, 529]"

definition model_unavailable :: "string list" where
  "model_unavailable =
     [''no endpoints found'', ''model not found'', ''model is not available'', ''model not available'',
      ''not available in your region'', ''not available in the requested region'', ''model_not_available'']"

definition shared_pre :: "failure_matcher list" where
  "shared_pre =
     [on_status Insufficient_Credits [402],
      on_raw Insufficient_Credits
        [''billing_hard_limit'', ''insufficient_quota'', ''provider_quota_exceeded'', ''usage_limit'',
         ''usage_limit_reached'', ''usage_limited''],
      on_raw Bad_Request [''ensemble_multimodal_unsupported''],
      on_text Context_Overflow
        [''context length'', ''context window'', ''maximum context'', ''prompt is too long'',
         ''input is too long'', ''input exceeds'', ''provider_request_budget_exhausted'', ''too many tokens''],
      on_text Policy_Refusal
        [''content policy'', ''policy violation'', ''safety policy'', ''moderation'', ''refusal'',
         ''blocked by policy''],
      on_pred Empty_Response is_empty_response]"

definition openai_rows :: "failure_matcher list" where
  "openai_rows =
     [on_status Model_Not_Found [404],
      on_text Model_Not_Found model_unavailable,
      on_status Auth_Invalid [401, 403],
      on_text Auth_Invalid [''invalid api key'', ''unauthorized''],
      on_status Insufficient_Credits [402],
      on_text Insufficient_Credits [''insufficient credits'', ''no credits''],
      on_status Rate_Limited [429],
      on_text Rate_Limited [''rate limit'', ''rate_limit''],
      on_text Unsupported_Feature [''does not support'', ''unsupported''],
      on_status Provider_Overloaded gateway_status_codes,
      on_text Provider_Overloaded [''overloaded''],
      on_pred Provider_Overloaded is_gateway_transient,
      on_status Bad_Request [400],
      on_text Bad_Request [''invalid_request'']]"

definition anthropic_rows :: "failure_matcher list" where
  "anthropic_rows =
     [on_status Model_Not_Found [404],
      on_text Model_Not_Found (''not_found_error'' # model_unavailable),
      on_status Auth_Invalid [401, 403],
      on_text Auth_Invalid [''authentication_error''],
      on_status Insufficient_Credits [402],
      on_text Insufficient_Credits [''credit balance''],
      on_status Rate_Limited [429],
      on_text Rate_Limited [''rate_limit_error''],
      on_status Provider_Overloaded gateway_status_codes,
      on_text Provider_Overloaded [''overloaded_error''],
      on_text Bad_Request [''invalid_request_error'']]"

definition ollama_rows :: "failure_matcher list" where
  "ollama_rows =
     [on_text Model_Not_Found [''model not found''],
      (row Model_Not_Found)\<lparr>fm_all := [''pull'', ''model'']\<rparr>,
      on_status Auth_Invalid [401, 403],
      on_text Auth_Invalid [''unauthorized''],
      on_text Transport_Transient [''connection refused'', ''connection error'', ''request error'', ''timeout'']]"

definition family_rows :: "string \<Rightarrow> failure_matcher list" where
  "family_rows family =
     (if family = ''openai_compat'' then openai_rows
      else if family = ''anthropic'' then anthropic_rows
      else if family = ''ollama'' then ollama_rows
      else [])"

definition shared_tail :: "failure_matcher list" where
  "shared_tail =
     [on_status Rate_Limited [429],
      on_text Rate_Limited [''rate limit''],
      on_raw Rate_Limited [''provider_retry_after_deadline''],
      on_status Provider_Overloaded gateway_status_codes,
      on_pred Provider_Overloaded is_gateway_transient,
      on_raw Malformed_Response [''invalid_stream_frame'', ''invalid_stream_order''],
      on_raw Transport_Transient
        [''incomplete_stream'', ''incomplete_tool_call'', ''incomplete_tool_stream'',
         ''provider_pretext_buffer_exhausted'', ''request_error'', ''response_incomplete''],
      on_text Malformed_Response [''malformed'', ''invalid json''],
      on_text Transport_Transient [''timeout'', ''request error'']]"

definition failure_rows :: "string \<Rightarrow> failure_matcher list" where
  "failure_rows family = shared_pre @ family_rows family @ shared_tail"

definition signal_of :: "int option \<Rightarrow> string \<Rightarrow> string \<Rightarrow> failure_signal" where
  "signal_of status raw_code message =
     \<lparr>sig_status = status, sig_raw_code = py_lower (py_strip raw_code), sig_message = message,
      sig_text = joined status raw_code message\<rparr>"

definition classify_rows :: "failure_matcher list \<Rightarrow> failure_signal \<Rightarrow> failure_kind" where
  "classify_rows rows s = first_match matches fm_kind Unknown_Failure rows s"

interpretation failure_table: row_table matches fm_kind Unknown_Failure classify_rows
  by unfold_locales (simp_all add: classify_rows_def)

definition classify_provider_error :: "string \<Rightarrow> int option \<Rightarrow> string \<Rightarrow> string \<Rightarrow> failure_kind" where
  "classify_provider_error provider_name status raw_code message =
     classify_rows (failure_rows (failure_family (py_lower provider_name))) (signal_of status raw_code message)"

section \<open>Recovery\<close>

definition decide_recovery_action :: "failure_kind \<Rightarrow> recovery_action" where
  "decide_recovery_action kind =
     (if kind = Context_Overflow then Compact_And_Retry
      else if kind \<in> {Provider_Overloaded, Transport_Transient} then Retry_Then_Fallback
      else if kind \<in> {Rate_Limited, Insufficient_Credits, Model_Not_Found, Unsupported_Feature}
      then Fallback_Provider
      else if kind = Auth_Invalid then Fail_Config
      else Surface)"

text \<open>\<open>FallbackPolicy\<close>.\<close>

definition retryable_kinds :: "failure_kind list" where
  "retryable_kinds = [Rate_Limited, Provider_Overloaded, Transport_Transient, Context_Overflow]"

record fallback_policy =
  max_retries :: int
  fallback_models :: "string list"
  base_backoff_ms :: int
  max_backoff_ms :: int

definition default_policy :: fallback_policy where
  "default_policy = \<lparr>max_retries = 3, fallback_models = [], base_backoff_ms = 1000, max_backoff_ms = 30000\<rparr>"

definition should_retry :: "fallback_policy \<Rightarrow> failure_kind \<Rightarrow> int \<Rightarrow> bool" where
  "should_retry policy kind attempt = (attempt < max_retries policy \<and> kind \<in> set retryable_kinds)"

fun index_of :: "string \<Rightarrow> string list \<Rightarrow> nat option" where
  "index_of x [] = None"
| "index_of x (y # ys) = (if x = y then Some 0 else map_option Suc (index_of x ys))"

definition get_fallback_model :: "fallback_policy \<Rightarrow> string \<Rightarrow> string option" where
  "get_fallback_model policy current =
     (let models = fallback_models policy in
      if models = [] then None
      else (case index_of current models of
              Some i \<Rightarrow> if i + 1 < length models then Some (models ! (i + 1)) else None
            | None \<Rightarrow> Some (models ! 0)))"

text \<open>The delay in milliseconds; the drawn jitter is an argument.\<close>

definition backoff_sleep :: "nat \<Rightarrow> int \<Rightarrow> int \<Rightarrow> int \<Rightarrow> int" where
  "backoff_sleep attempt base_ms max_ms jitter = min (base_ms * 2 ^ attempt + jitter) max_ms"

end
