(* ===== verification/Provider_Health.thy ===== *)
theory Provider_Health
  imports Complex_Main Provider_Failures
begin

text \<open>
  The health ledger of model deployments (\<open>src/src/openstarry_code/engine/routing/health.py\<close>):
  strikes, benches with a cooldown, and the rule that routing is never left without a
  deployment. Instants and durations are exact rationals in seconds; every operation takes
  the clock reading. The lock makes each operation atomic, so a history is a list of operations.
\<close>

section \<open>The ledger\<close>

type_synonym deployment = "string \<times> string"

record health_ledger =
  failure_threshold :: int
  cooldown_s :: rat
  max_cooldown_s :: rat
  strikes :: "deployment \<rightharpoonup> int"
  benched_until :: "deployment \<rightharpoonup> rat"

definition new_ledger :: "int \<Rightarrow> rat \<Rightarrow> rat \<Rightarrow> string + health_ledger" where
  "new_ledger threshold cooldown max_cooldown =
     rbind (ensure (1 \<le> threshold) ''failure_threshold must be >= 1'') (\<lambda>_.
     rbind (ensure (0 < cooldown) ''cooldown_s must be positive'') (\<lambda>_.
     rbind (ensure (cooldown \<le> max_cooldown) ''max_cooldown_s must be >= cooldown_s'') (\<lambda>_.
     Inr \<lparr>failure_threshold = threshold, cooldown_s = cooldown, max_cooldown_s = max_cooldown,
          strikes = Map.empty, benched_until = Map.empty\<rparr>)))"

text \<open>The shared ledger, with its default limits.\<close>

definition default_ledger :: "string + health_ledger" where
  "default_ledger = new_ledger 3 30 900"

definition benchable_kinds :: "failure_kind list" where
  "benchable_kinds =
     [Rate_Limited, Provider_Overloaded, Transport_Transient, Empty_Response, Malformed_Response]"

definition deployment_key :: "deployment \<Rightarrow> deployment" where
  "deployment_key d = (py_lower (py_strip (fst d)), py_strip (snd d))"

interpretation deployment_names: normaliser deployment_key
  by unfold_locales (simp add: deployment_key_def py_strip_lower py_lower_idem py_strip_idem)

definition expire :: "deployment \<Rightarrow> rat \<Rightarrow> health_ledger \<Rightarrow> health_ledger" where
  "expire key ts l =
     (case benched_until l key of
        None \<Rightarrow> l
      | Some u \<Rightarrow> if u \<le> ts then l\<lparr>benched_until := (benched_until l)(key := None)\<rparr> else l)"

definition cooldown_for :: "health_ledger \<Rightarrow> rat option \<Rightarrow> rat" where
  "cooldown_for l retry_after =
     (case retry_after of None \<Rightarrow> cooldown_s l | Some r \<Rightarrow> min (max r 0) (max_cooldown_s l))"

definition record_failure ::
    "deployment \<Rightarrow> failure_kind \<Rightarrow> rat option \<Rightarrow> rat \<Rightarrow> health_ledger \<Rightarrow> health_ledger \<times> bool" where
  "record_failure d kind retry_after ts l0 =
     (let key = deployment_key d;
          l = expire key ts l0
      in if kind \<notin> set benchable_kinds then (l, benched_until l key \<noteq> None)
         else
           (let n = (case strikes l key of None \<Rightarrow> 0 | Some m \<Rightarrow> m) + 1
            in if kind \<noteq> Rate_Limited \<and> n < failure_threshold l
               then (l\<lparr>strikes := (strikes l)(key \<mapsto> n)\<rparr>, benched_until l key \<noteq> None)
               else
                 (let until = ts + cooldown_for l retry_after;
                      cleared = l\<lparr>strikes := (strikes l)(key := None)\<rparr>
                  in if (case benched_until l key of None \<Rightarrow> False | Some u \<Rightarrow> until \<le> u)
                     then (cleared, True)
                     else (cleared\<lparr>benched_until := (benched_until l)(key \<mapsto> until)\<rparr>, True))))"

definition record_success :: "deployment \<Rightarrow> health_ledger \<Rightarrow> health_ledger" where
  "record_success d l =
     l\<lparr>strikes := (strikes l)(deployment_key d := None),
       benched_until := (benched_until l)(deployment_key d := None)\<rparr>"

definition is_benched :: "deployment \<Rightarrow> rat \<Rightarrow> health_ledger \<Rightarrow> health_ledger \<times> bool" where
  "is_benched d ts l =
     (let key = deployment_key d; l' = expire key ts l in (l', benched_until l' key \<noteq> None))"

text \<open>
  The alternatives are a set in the code; the list gives one order of its iteration, and what
  is answered does not depend on it.
\<close>

fun scan_alternatives :: "rat \<Rightarrow> deployment list \<Rightarrow> health_ledger \<Rightarrow> health_ledger \<times> bool" where
  "scan_alternatives ts [] l = (l, True)"
| "scan_alternatives ts (a # as) l =
     (let l' = expire a ts l
      in if benched_until l' a = None then (l', False) else scan_alternatives ts as l')"

definition eligible :: "deployment \<Rightarrow> deployment list \<Rightarrow> rat \<Rightarrow> health_ledger \<Rightarrow> health_ledger \<times> bool" where
  "eligible d candidates ts l0 =
     (let key = deployment_key d; l = expire key ts l0
      in if benched_until l key = None then (l, True)
         else scan_alternatives ts (filter (\<lambda>a. a \<noteq> key) (remdups (map deployment_key candidates))) l)"

section \<open>What routing sees\<close>

declare split_paired_All [simp del] split_paired_Ex [simp del]

text \<open>The bench of a key that is still in force at an instant.\<close>

definition bench_at :: "rat \<Rightarrow> deployment \<Rightarrow> health_ledger \<Rightarrow> rat option" where
  "bench_at ts key l =
     (case benched_until l key of None \<Rightarrow> None | Some u \<Rightarrow> if ts < u then Some u else None)"

lemma expire_simps [simp]:
  "strikes (expire key ts l) = strikes l" "failure_threshold (expire key ts l) = failure_threshold l"
  "cooldown_s (expire key ts l) = cooldown_s l" "max_cooldown_s (expire key ts l) = max_cooldown_s l"
  "cooldown_for (expire key ts l) r = cooldown_for l r"
  "benched_until (expire key ts l) key = bench_at ts key l"
  "k \<noteq> key \<Longrightarrow> benched_until (expire key ts l) k = benched_until l k"
  by (auto simp: expire_def cooldown_for_def bench_at_def split: option.splits)

lemma bench_at_expire: "ts \<le> t \<Longrightarrow> bench_at t k (expire key ts l) = bench_at t k l"
  by (cases "k = key") (auto simp: bench_at_def [of t] bench_at_def [of ts] split: option.splits)

lemma scan_alternatives_result:
  "snd (scan_alternatives ts as l) \<longleftrightarrow> (\<forall>a \<in> set as. bench_at ts a l \<noteq> None)"
proof (induction as arbitrary: l)
  case (Cons a as)
  show ?case using Cons [of "expire a ts l"] by (simp add: Let_def bench_at_expire)
qed simp

lemma scan_alternatives_keeps:
  "ts \<le> t \<Longrightarrow> bench_at t k (fst (scan_alternatives ts as l)) = bench_at t k l"
  "strikes (fst (scan_alternatives ts as l)) = strikes l"
  "failure_threshold (fst (scan_alternatives ts as l)) = failure_threshold l"
  "cooldown_for (fst (scan_alternatives ts as l)) = cooldown_for l"
proof (induction as arbitrary: l)
  case (Cons a as)
  case 4 then show ?case using Cons(4) [of "expire a ts l"] by (auto simp: Let_def)
qed (simp_all add: Let_def bench_at_expire)

text \<open>
  A deployment is refused exactly when it is benched and some other candidate is not; so of any
  non-empty set of candidates one is accepted.
\<close>

lemma eligible_iff:
  "snd (eligible d candidates ts l) \<longleftrightarrow>
     bench_at ts (deployment_key d) l = None \<or> (\<forall>c \<in> set candidates. bench_at ts (deployment_key c) l \<noteq> None)"
proof (cases "bench_at ts (deployment_key d) l")
  case (Some u)
  then have "snd (eligible d candidates ts l) \<longleftrightarrow>
      (\<forall>a \<in> deployment_key ` set candidates - {deployment_key d}. bench_at ts a l \<noteq> None)"
    by (simp add: eligible_def Let_def scan_alternatives_result bench_at_expire Ball_def)
  also have "\<dots> \<longleftrightarrow> (\<forall>c \<in> set candidates. bench_at ts (deployment_key c) l \<noteq> None)" using Some by fastforce
  finally show ?thesis using Some by simp
qed (simp add: eligible_def Let_def)

text \<open>C28: Whatever is benched, of every non-empty set of candidate deployments at least one is
  accepted, and one that is not benched when there is one.\<close>

theorem routing_never_stranded:
  assumes "candidates \<noteq> []"
  shows "\<exists>d \<in> set candidates. snd (eligible d candidates ts l) \<and>
    ((\<exists>c \<in> set candidates. \<not> snd (is_benched c ts l)) \<longrightarrow> \<not> snd (is_benched d ts l))"
proof -
  have benched: "snd (is_benched c ts l) \<longleftrightarrow> bench_at ts (deployment_key c) l \<noteq> None" for c
    by (simp add: is_benched_def Let_def)
  show ?thesis
  proof (cases "\<exists>c \<in> set candidates. bench_at ts (deployment_key c) l = None")
    case True
    then obtain c where "c \<in> set candidates" "bench_at ts (deployment_key c) l = None" by blast
    then show ?thesis by (intro bexI [of _ c]) (simp_all add: eligible_iff benched)
  next
    case False
    then show ?thesis using assms by (intro bexI [of _ "hd candidates"]) (auto simp: eligible_iff benched)
  qed
qed

section \<open>Histories\<close>

datatype health_event =
    Failed deployment failure_kind "rat option" rat
  | Succeeded deployment
  | Asked deployment rat
  | Routed deployment "deployment list" rat

fun health_step :: "health_ledger \<Rightarrow> health_event \<Rightarrow> health_ledger" where
  "health_step l (Failed d kind r ts) = fst (record_failure d kind r ts l)"
| "health_step l (Succeeded d) = record_success d l"
| "health_step l (Asked d ts) = fst (is_benched d ts l)"
| "health_step l (Routed d cs ts) = fst (eligible d cs ts l)"

definition health_run :: "health_ledger \<Rightarrow> health_event list \<Rightarrow> health_ledger" where
  "health_run l es = foldl health_step l es"

lemma health_run_simps [simp]:
  "health_run l [] = l" "health_run l (e # es) = health_run (health_step l e) es"
  "health_run l (es @ fs) = health_run (health_run l es) fs"
  by (simp_all add: health_run_def)

text \<open>What one failure does to its own key.\<close>

definition failure_effect :: "health_ledger \<Rightarrow> failure_kind \<Rightarrow> rat option \<Rightarrow> rat \<Rightarrow> int option \<times> rat option \<Rightarrow> int option \<times> rat option" where
  "failure_effect l kind r ts sb =
     (if kind \<notin> set benchable_kinds then sb
      else
        (let n = (case fst sb of None \<Rightarrow> 0 | Some m \<Rightarrow> m) + 1; until = ts + cooldown_for l r
         in if kind \<noteq> Rate_Limited \<and> n < failure_threshold l then (Some n, snd sb)
            else (None, if (case snd sb of None \<Rightarrow> False | Some u \<Rightarrow> until \<le> u) then snd sb else Some until)))"

lemma record_failure_own:
  "(strikes (fst (record_failure d kind r ts l)) (deployment_key d),
    benched_until (fst (record_failure d kind r ts l)) (deployment_key d)) =
   failure_effect l kind r ts (strikes l (deployment_key d), bench_at ts (deployment_key d) l)"
  by (auto simp: record_failure_def failure_effect_def Let_def split: option.split)

lemma record_failure_result:
  "snd (record_failure d kind r ts l) \<longleftrightarrow> benched_until (fst (record_failure d kind r ts l)) (deployment_key d) \<noteq> None"
  by (auto simp: record_failure_def Let_def split: option.split)

lemma record_failure_other:
  "k \<noteq> deployment_key d \<Longrightarrow> strikes (fst (record_failure d kind r ts l)) k = strikes l k"
  "k \<noteq> deployment_key d \<Longrightarrow> benched_until (fst (record_failure d kind r ts l)) k = benched_until l k"
  by (auto simp: record_failure_def Let_def split: option.split)

lemma record_failure_limits [simp]:
  "failure_threshold (fst (record_failure d kind r ts l)) = failure_threshold l"
  "cooldown_for (fst (record_failure d kind r ts l)) = cooldown_for l"
  by (auto simp: record_failure_def Let_def cooldown_for_def split: option.split)

lemma cooldown_expire [simp]: "cooldown_for (expire key ts l) = cooldown_for l"
  by (rule ext) simp

lemma eligible_keeps [simp]:
  "ts \<le> t \<Longrightarrow> bench_at t k (fst (eligible d cs ts l)) = bench_at t k l"
  "strikes (fst (eligible d cs ts l)) = strikes l"
  "failure_threshold (fst (eligible d cs ts l)) = failure_threshold l"
  "cooldown_for (fst (eligible d cs ts l)) = cooldown_for l"
proof -
  define as where "as = filter (\<lambda>a. a \<noteq> deployment_key d) (remdups (map deployment_key cs))"
  have e: "fst (eligible d cs ts l) = (if benched_until (expire (deployment_key d) ts l) (deployment_key d) = None
      then expire (deployment_key d) ts l else fst (scan_alternatives ts as (expire (deployment_key d) ts l)))"
    by (simp only: eligible_def Let_def as_def [symmetric] if_distrib [of fst] fst_conv)
  show "ts \<le> t \<Longrightarrow> bench_at t k (fst (eligible d cs ts l)) = bench_at t k l"
    unfolding e by (simp add: scan_alternatives_keeps(1) bench_at_expire)
  show "strikes (fst (eligible d cs ts l)) = strikes l"
    unfolding e by (simp add: scan_alternatives_keeps(2))
  show "failure_threshold (fst (eligible d cs ts l)) = failure_threshold l"
    unfolding e by (simp add: scan_alternatives_keeps(3))
  show "cooldown_for (fst (eligible d cs ts l)) = cooldown_for l"
    unfolding e by (simp add: scan_alternatives_keeps(4))
qed

lemma is_benched_keeps [simp]:
  "ts \<le> t \<Longrightarrow> bench_at t k (fst (is_benched d ts l)) = bench_at t k l"
  "strikes (fst (is_benched d ts l)) = strikes l"
  by (auto simp: is_benched_def Let_def bench_at_expire)

lemma health_step_limits [simp]:
  "failure_threshold (health_step l e) = failure_threshold l"
  "cooldown_for (health_step l e) = cooldown_for l"
proof -
  have "cooldown_for (record_success d l) = cooldown_for l" for d
    by (rule ext) (simp add: cooldown_for_def record_success_def split: option.split)
  then show "cooldown_for (health_step l e) = cooldown_for l"
    by (cases e) (simp_all add: is_benched_def Let_def)
  show "failure_threshold (health_step l e) = failure_threshold l"
    by (cases e) (simp_all add: record_success_def is_benched_def Let_def)
qed

lemma health_run_limits [simp]:
  "failure_threshold (health_run l es) = failure_threshold l"
  "cooldown_for (health_run l es) = cooldown_for l"
  by (induction es arbitrary: l) simp_all

fun event_time :: "health_event \<Rightarrow> rat option" where
  "event_time (Failed d kind r ts) = Some ts"
| "event_time (Succeeded d) = None"
| "event_time (Asked d ts) = Some ts"
| "event_time (Routed d cs ts) = Some ts"

definition not_after :: "rat \<Rightarrow> health_event \<Rightarrow> bool" where
  "not_after t e = (case event_time e of None \<Rightarrow> True | Some ts \<Rightarrow> ts \<le> t)"

text \<open>Times do not decrease along a history that starts at \<open>t\<close>.\<close>

fun timed :: "rat \<Rightarrow> health_event list \<Rightarrow> bool" where
  "timed t [] = True"
| "timed t (e # es) = (case event_time e of None \<Rightarrow> timed t es | Some ts \<Rightarrow> t \<le> ts \<and> timed ts es)"

fun relevant :: "deployment \<Rightarrow> health_event \<Rightarrow> bool" where
  "relevant k (Failed d kind r ts) = (deployment_key d = k)"
| "relevant k (Succeeded d) = (deployment_key d = k)"
| "relevant k _ = False"

section \<open>Deployments do not disturb each other\<close>

lemma bench_at_later: "t \<le> t' \<Longrightarrow> bench_at t k l = bench_at t k l' \<Longrightarrow> bench_at t' k l = bench_at t' k l'"
  by (auto simp: bench_at_def split: option.splits if_splits)

lemma irrelevant_step:
  assumes "\<not> relevant k e" and "not_after t e"
  shows "strikes (health_step l e) k = strikes l k \<and> bench_at t k (health_step l e) = bench_at t k l"
proof (cases e)
  case (Failed d kind r ts)
  then show ?thesis using assms(1) record_failure_other [of k d kind r ts l] by (simp add: bench_at_def)
next
  case (Succeeded d)
  then show ?thesis using assms(1) by (simp add: record_success_def bench_at_def)
qed (use assms(2) in \<open>simp_all add: not_after_def\<close>)

lemma relevant_step:
  assumes "relevant k e" and "not_after t e" and "failure_threshold l = failure_threshold l'" and "cooldown_for l = cooldown_for l'"
    and "strikes l k = strikes l' k" and "\<forall>ts. event_time e = Some ts \<longrightarrow> bench_at ts k l = bench_at ts k l'"
  shows "strikes (health_step l e) k = strikes (health_step l' e) k \<and>
    bench_at t k (health_step l e) = bench_at t k (health_step l' e)"
proof (cases e)
  case (Failed d kind r ts)
  then have "(strikes (health_step l e) k, benched_until (health_step l e) k) =
      (strikes (health_step l' e) k, benched_until (health_step l' e) k)"
    using assms record_failure_own [of d kind r ts l] record_failure_own [of d kind r ts l']
    by (simp add: failure_effect_def)
  then show ?thesis by (simp add: bench_at_def)
qed (use assms(1) in \<open>auto simp: record_success_def bench_at_def\<close>)

lemma same_view:
  assumes "failure_threshold l = failure_threshold l'" and "cooldown_for l = cooldown_for l'"
    and "strikes l k = strikes l' k" and "bench_at t0 k l = bench_at t0 k l'"
    and "timed t0 es" and "\<forall>e \<in> set es. not_after t e" and "t0 \<le> t"
  shows "bench_at t k (health_run l es) = bench_at t k (health_run l' (filter (relevant k) es))"
  using assms
proof (induction es arbitrary: l l' t0)
  case (Cons e es)
  define t1 where "t1 = (case event_time e of None \<Rightarrow> t0 | Some ts \<Rightarrow> ts)"
  have t1: "t0 \<le> t1" "timed t1 es" "not_after t1 e" "t1 \<le> t"
    using Cons.prems(5-7) by (auto simp: t1_def not_after_def split: option.splits)
  have at: "bench_at t1 k l = bench_at t1 k l'" by (rule bench_at_later [OF t1(1) Cons.prems(4)])
  show ?case
  proof (cases "relevant k e")
    case True
    have "strikes (health_step l e) k = strikes (health_step l' e) k \<and>
        bench_at t1 k (health_step l e) = bench_at t1 k (health_step l' e)"
      using at by (intro relevant_step [OF True t1(3) Cons.prems(1-3)]) (auto simp: t1_def)
    then show ?thesis using Cons.IH [of "health_step l e" "health_step l' e" t1] Cons.prems t1 True by simp
  next
    case False
    then show ?thesis using Cons.IH [of "health_step l e" l' t1] irrelevant_step [OF False t1(3), of l] Cons.prems t1 at
      by simp
  qed
qed (auto intro: bench_at_later)

lemma is_benched_iff: "snd (is_benched d t l) \<longleftrightarrow> bench_at t (deployment_key d) l \<noteq> None"
  by (simp add: is_benched_def Let_def)

text \<open>C29: Whether a deployment is benched after any history with non-decreasing times is what the
  failures and successes of that deployment alone make it: other deployments, queries and
  expiries in between have no influence.\<close>

theorem deployments_independent:
  assumes "timed t0 es" and "\<forall>e \<in> set es. not_after t e" and "t0 \<le> t"
  shows "snd (is_benched d t (health_run l es)) =
    snd (is_benched d t (health_run l (filter (relevant (deployment_key d)) es)))"
  using same_view [OF refl refl refl refl assms] by (simp add: is_benched_iff)

section \<open>How long a bench holds\<close>

lemma bench_grows:
  assumes "bench_at t k l = Some u" and "not_after t e" and "\<forall>d. e = Succeeded d \<longrightarrow> deployment_key d \<noteq> k"
  shows "\<exists>u'. u \<le> u' \<and> bench_at t k (health_step l e) = Some u'"
proof (cases "relevant k e")
  case True
  then obtain d kind r ts where e: "e = Failed d kind r ts" "deployment_key d = k"
    using assms(3) by (cases e) auto
  have "bench_at ts k l = Some u" and u: "t < u" "ts \<le> t"
    using assms(1,2) e by (auto simp: bench_at_def not_after_def split: option.splits if_splits)
  then have "benched_until (health_step l e) k = snd (failure_effect l kind r ts (strikes l k, Some u))"
    using record_failure_own [of d kind r ts l] e by (metis health_step.simps(1) snd_conv)
  then have "\<exists>u' \<ge> u. benched_until (health_step l e) k = Some u'"
    by (auto simp: failure_effect_def Let_def)
  then show ?thesis using u by (auto simp: bench_at_def)
next
  case False
  then show ?thesis using irrelevant_step [OF False assms(2), of l] assms(1) by simp
qed

lemma bench_grows_run:
  assumes "bench_at t k l = Some u" and "\<forall>e \<in> set es. not_after t e" and "\<forall>d. Succeeded d \<in> set es \<longrightarrow> deployment_key d \<noteq> k"
  shows "bench_at t k (health_run l es) \<noteq> None"
  using assms
proof (induction es arbitrary: l u)
  case (Cons e es)
  have "not_after t e" "\<forall>d. e = Succeeded d \<longrightarrow> deployment_key d \<noteq> k" using Cons.prems(2,3) by auto
  then obtain u' where "bench_at t k (health_step l e) = Some u'"
    using bench_grows [OF Cons.prems(1)] by blast
  then show ?case using Cons.IH [of "health_step l e" u'] Cons.prems(2,3) by simp
qed simp

lemma rate_limited_until:
  assumes "ts \<le> t" and "t < ts + cooldown_for l r" and "\<forall>e \<in> set es. not_after t e"
    and "\<forall>d'. Succeeded d' \<in> set es \<longrightarrow> deployment_key d' \<noteq> deployment_key d"
  shows "snd (is_benched d t (health_run (fst (record_failure d Rate_Limited r ts l)) es))"
proof -
  let ?l = "fst (record_failure d Rate_Limited r ts l)"
  have "benched_until ?l (deployment_key d) =
      snd (failure_effect l Rate_Limited r ts (strikes l (deployment_key d), bench_at ts (deployment_key d) l))"
    using record_failure_own [of d Rate_Limited r ts l] by (metis snd_conv)
  then have "\<exists>u. bench_at t (deployment_key d) ?l = Some u"
    using assms(1,2) by (auto simp: failure_effect_def benchable_kinds_def Let_def bench_at_def split: option.split)
  then obtain u where "bench_at t (deployment_key d) ?l = Some u" by blast
  from bench_grows_run [OF this assms(3,4)] show ?thesis by (simp add: is_benched_iff)
qed

text \<open>Other failures bench a deployment only when as many as the threshold have come in a row.\<close>

definition plain_failure :: "deployment \<Rightarrow> health_event \<Rightarrow> bool" where
  "plain_failure d e = (\<exists>kind r ts. e = Failed d kind r ts \<and> kind \<in> set benchable_kinds \<and> kind \<noteq> Rate_Limited)"

lemma plain_failures_count:
  assumes "strikes l (deployment_key d) = (if n = 0 then None else Some (int n))" and "benched_until l (deployment_key d) = None"
    and "\<forall>e \<in> set es. plain_failure d e" and "int (n + length es) < failure_threshold l"
  shows "strikes (health_run l es) (deployment_key d) = (if n + length es = 0 then None else Some (int (n + length es))) \<and>
    benched_until (health_run l es) (deployment_key d) = None"
  using assms
proof (induction es arbitrary: l n)
  case (Cons e es)
  obtain kind r ts where e: "e = Failed d kind r ts" "kind \<in> set benchable_kinds" "kind \<noteq> Rate_Limited"
    using Cons.prems(3) by (auto simp: plain_failure_def)
  have "(strikes (health_step l e) (deployment_key d), benched_until (health_step l e) (deployment_key d)) = (Some (int (Suc n)), None)"
    using record_failure_own [of d kind r ts l] Cons.prems e
    by (simp add: failure_effect_def bench_at_def Let_def)
  then show ?case using Cons.IH [of "health_step l e" "Suc n"] Cons.prems by simp
qed simp

theorem threshold_benches:
  assumes "strikes l (deployment_key d) = None" and "benched_until l (deployment_key d) = None"
    and "\<forall>e \<in> set es. plain_failure d e" and "int (length es) + 1 = failure_threshold l"
    and "kind \<in> set benchable_kinds" and "kind \<noteq> Rate_Limited"
  shows "benched_until (health_run l es) (deployment_key d) = None \<and>
    benched_until (health_run l (es @ [Failed d kind r ts])) (deployment_key d) = Some (ts + cooldown_for l r) \<and>
    strikes (health_run l (es @ [Failed d kind r ts])) (deployment_key d) = None"
proof -
  let ?l = "health_run l es"
  have before: "strikes ?l (deployment_key d) = (if length es = 0 then None else Some (int (length es)))"
      "benched_until ?l (deployment_key d) = None"
    using plain_failures_count [of l d 0 es] assms(1-4) by auto
  have "(strikes (health_step ?l (Failed d kind r ts)) (deployment_key d),
      benched_until (health_step ?l (Failed d kind r ts)) (deployment_key d)) = (None, Some (ts + cooldown_for l r))"
    using record_failure_own [of d kind r ts ?l] before assms(4-6)
    by (auto simp: failure_effect_def bench_at_def Let_def split: if_splits)
  then show ?thesis using before by simp
qed

section \<open>Bounds\<close>

text \<open>Strikes stay below the threshold, and a bench ends within the ceiling after a failure that caused it.\<close>

definition ledger_ok :: "health_event list \<Rightarrow> health_ledger \<Rightarrow> bool" where
  "ledger_ok es l =
     (0 < cooldown_s l \<and> cooldown_s l \<le> max_cooldown_s l \<and>
      (\<forall>k n. strikes l k = Some n \<longrightarrow> 1 \<le> n \<and> n < failure_threshold l) \<and>
      (\<forall>k u. benched_until l k = Some u \<longrightarrow>
         (\<exists>d kind r ts. Failed d kind r ts \<in> set es \<and> deployment_key d = k \<and> kind \<in> set benchable_kinds \<and>
            ts \<le> u \<and> u \<le> ts + max_cooldown_s l)))"

lemma cooldown_bounds: "0 < cooldown_s l \<Longrightarrow> cooldown_s l \<le> max_cooldown_s l \<Longrightarrow> 0 \<le> cooldown_for l r \<and> cooldown_for l r \<le> max_cooldown_s l"
  by (auto simp: cooldown_for_def split: option.split)

lemma ledger_ok_mono: "ledger_ok es l \<Longrightarrow> set es \<subseteq> set fs \<Longrightarrow> ledger_ok fs l"
  unfolding ledger_ok_def by (meson subsetD)

lemma ledger_ok_less:
  assumes "ledger_ok es l" and "cooldown_s l' = cooldown_s l" "max_cooldown_s l' = max_cooldown_s l"
    "failure_threshold l' = failure_threshold l"
    and "\<forall>k n. strikes l' k = Some n \<longrightarrow> strikes l k = Some n"
    and "\<forall>k u. benched_until l' k = Some u \<longrightarrow> benched_until l k = Some u"
  shows "ledger_ok es l'"
  using assms unfolding ledger_ok_def assms(2-4) by blast

lemma expire_less: "benched_until (expire key ts l) k = Some u \<Longrightarrow> benched_until l k = Some u"
  by (auto simp: expire_def split: option.splits if_splits)

lemma ledger_ok_expire: "ledger_ok es l \<Longrightarrow> ledger_ok es (expire key ts l)"
  by (rule ledger_ok_less) (auto dest: expire_less)

lemma ledger_ok_scan: "ledger_ok es l \<Longrightarrow> ledger_ok es (fst (scan_alternatives ts as l))"
  by (induction as arbitrary: l) (simp_all add: Let_def ledger_ok_expire)

lemma ledger_ok_success: "ledger_ok es l \<Longrightarrow> ledger_ok es (record_success d l)"
  by (rule ledger_ok_less) (auto simp: record_success_def)

lemma record_failure_limits' [simp]:
  "cooldown_s (fst (record_failure d kind r ts l)) = cooldown_s l"
  "max_cooldown_s (fst (record_failure d kind r ts l)) = max_cooldown_s l"
  by (auto simp: record_failure_def Let_def split: option.split)

lemma ledger_ok_failure:
  assumes "ledger_ok es l"
  shows "ledger_ok (es @ [Failed d kind r ts]) (fst (record_failure d kind r ts l))"
proof -
  let ?l = "fst (record_failure d kind r ts l)" and ?k = "deployment_key d"
  have own: "(strikes ?l ?k, benched_until ?l ?k) = failure_effect l kind r ts (strikes l ?k, bench_at ts ?k l)"
    by (rule record_failure_own)
  have cool: "0 \<le> cooldown_for l r" "cooldown_for l r \<le> max_cooldown_s l"
    using cooldown_bounds assms by (auto simp: ledger_ok_def)
  have "1 \<le> n \<and> n < failure_threshold l" if "strikes ?l k = Some n" for k n
  proof (cases "k = ?k")
    case True
    then have n: "fst (failure_effect l kind r ts (strikes l ?k, bench_at ts ?k l)) = Some n"
      using that own by (metis fst_conv)
    have "1 \<le> m \<and> m < failure_threshold l" if "strikes l ?k = Some m" for m
      using assms that by (auto simp: ledger_ok_def)
    then show ?thesis using n by (cases "strikes l ?k") (force simp: failure_effect_def Let_def split: if_splits)+
  next
    case False
    then show ?thesis using that assms record_failure_other(1) [OF False] by (auto simp: ledger_ok_def)
  qed
  moreover have "\<exists>d' kind' r' ts'. Failed d' kind' r' ts' \<in> set (es @ [Failed d kind r ts]) \<and> deployment_key d' = k \<and>
      kind' \<in> set benchable_kinds \<and> ts' \<le> u \<and> u \<le> ts' + max_cooldown_s l"
    if "benched_until ?l k = Some u" for k u
  proof (cases "benched_until l k = Some u")
    case True
    then show ?thesis using assms unfolding ledger_ok_def by (metis Un_iff set_append)
  next
    case new: False
    then have k: "k = ?k" using that record_failure_other(2) by metis
    then have u: "snd (failure_effect l kind r ts (strikes l ?k, bench_at ts ?k l)) = Some u"
      using that own by (metis snd_conv)
    have "bench_at ts ?k l \<noteq> Some u" using new k by (auto simp: bench_at_def split: option.splits if_splits)
    then have "kind \<in> set benchable_kinds" "u = ts + cooldown_for l r"
      using u by (auto simp: failure_effect_def Let_def split: if_splits)
    then show ?thesis using k cool by (intro exI [of _ d] exI [of _ kind] exI [of _ r] exI [of _ ts]) auto
  qed
  ultimately show ?thesis using assms unfolding ledger_ok_def by simp
qed

lemma ledger_ok_step: "ledger_ok es l \<Longrightarrow> ledger_ok (es @ [e]) (health_step l e)"
proof (cases e)
  case (Failed d kind r ts)
  assume "ledger_ok es l"
  then show ?thesis using ledger_ok_failure by (simp add: Failed)
qed (auto simp: is_benched_def eligible_def Let_def
    intro!: ledger_ok_expire ledger_ok_scan ledger_ok_success intro: ledger_ok_mono)

lemma ledger_ok_run: "ledger_ok es l \<Longrightarrow> ledger_ok (es @ fs) (health_run l fs)"
proof (induction fs arbitrary: es l)
  case (Cons f fs)
  then show ?case using Cons.IH [OF ledger_ok_step [OF Cons.prems]] by simp
qed simp

lemma new_ledger_ok: "new_ledger threshold c mc = Inr l \<Longrightarrow>
    ledger_ok [] l \<and> failure_threshold l = threshold \<and> max_cooldown_s l = mc \<and> cooldown_s l = c"
  by (auto simp: new_ledger_def ledger_ok_def)

lemma health_run_max [simp]: "max_cooldown_s (health_run l es) = max_cooldown_s l"
proof (induction es arbitrary: l)
  case (Cons e es)
  have "max_cooldown_s (fst (scan_alternatives ts as l)) = max_cooldown_s l" for ts as l
    by (induction as arbitrary: l) (simp_all add: Let_def)
  then have "max_cooldown_s (health_step l e) = max_cooldown_s l"
    by (cases e) (simp_all add: record_success_def is_benched_def eligible_def Let_def)
  then show ?case using Cons by simp
qed simp

theorem bench_is_bounded:
  assumes "new_ledger threshold c mc = Inr l"
  shows "(\<forall>n. strikes (health_run l es) k = Some n \<longrightarrow> 1 \<le> n \<and> n < threshold) \<and>
    (\<forall>u. benched_until (health_run l es) k = Some u \<longrightarrow>
      (\<exists>d kind r ts. Failed d kind r ts \<in> set es \<and> deployment_key d = k \<and> kind \<in> set benchable_kinds \<and>
         ts \<le> u \<and> u \<le> ts + mc))"
proof -
  have l: "ledger_ok [] l" "failure_threshold l = threshold" "max_cooldown_s l = mc" using new_ledger_ok [OF assms] by auto
  have "ledger_ok es (health_run l es)" using ledger_ok_run [OF l(1), of es] by simp
  then show ?thesis unfolding ledger_ok_def using l(2,3) by simp
qed

end
