(* ===== verification/Provider_Pool.thy ===== *)
theory Provider_Pool
  imports Provider_Health
begin

text \<open>
  The pool of credentials (\<open>src/src/openstarry_code/provider/credentials.py\<close>): round robin with
  the least used first, and parking after a 429. The clock reading is an argument.
\<close>

section \<open>The pool\<close>

record credential =
  cred_id :: string
  cred_secret :: string
  acquisitions :: nat
  parked_until :: rat

record credential_pool =
  creds :: "credential list"
  cursor :: nat

datatype pool_error = No_Credentials | Pool_Value string | Unknown_Credential string

definition new_pool :: "credential list \<Rightarrow> pool_error + credential_pool" where
  "new_pool cs =
     (if cs = [] then Inl (Pool_Value ''CredentialPool requires at least one credential'')
      else Inr \<lparr>creds = cs, cursor = 0\<rparr>)"

text \<open>The first credential with an id, by its index.\<close>

fun cred_index :: "string \<Rightarrow> credential list \<Rightarrow> nat option" where
  "cred_index i [] = None"
| "cred_index i (c # cs) = (if cred_id c = i then Some 0 else map_option Suc (cred_index i cs))"

definition unparked :: "rat \<Rightarrow> credential \<Rightarrow> bool" where
  "unparked now c = (parked_until c \<le> now)"

definition available :: "string \<Rightarrow> rat \<Rightarrow> credential_pool \<Rightarrow> bool" where
  "available i now p = (case cred_index i (creds p) of None \<Rightarrow> False | Some k \<Rightarrow> unparked now (creds p ! k))"

text \<open>The eligible credentials in round-robin order from the cursor, as (offset, credential).\<close>

definition candidates_from :: "rat \<Rightarrow> credential_pool \<Rightarrow> (nat \<times> credential) list" where
  "candidates_from now p =
     (let n = length (creds p) in
      filter (\<lambda>oc. unparked now (snd oc))
        (map (\<lambda>offset. (offset, creds p ! ((cursor p + offset) mod n))) [0..<n]))"

definition acquire :: "rat \<Rightarrow> credential_pool \<Rightarrow> pool_error + credential_pool \<times> credential" where
  "acquire now p =
     (let n = length (creds p); ordered = candidates_from now p in
      if ordered = [] then Inl No_Credentials
      else
        (let min_hits = Min (set (map (\<lambda>oc. acquisitions (snd oc)) ordered))
         in case find (\<lambda>oc. acquisitions (snd oc) = min_hits) ordered of
              None \<Rightarrow> Inl No_Credentials
            | Some (offset, c) \<Rightarrow>
                (let k = (cursor p + offset) mod n; c' = c\<lparr>acquisitions := acquisitions c + 1\<rparr>
                 in Inr (p\<lparr>creds := (creds p)[k := c'], cursor := (cursor p + offset + 1) mod n\<rparr>, c'))))"

definition report_429 :: "string \<Rightarrow> rat \<Rightarrow> rat \<Rightarrow> credential_pool \<Rightarrow> pool_error + credential_pool" where
  "report_429 i cooldown now p =
     rbind (ensure (0 \<le> cooldown) (Pool_Value ''cooldown_seconds must be non-negative'')) (\<lambda>_.
     case cred_index i (creds p) of
       None \<Rightarrow> Inl (Unknown_Credential i)
     | Some k \<Rightarrow> Inr (p\<lparr>creds := (creds p)[k := (creds p ! k)\<lparr>parked_until := now + cooldown\<rparr>]\<rparr>))"

section \<open>What is acquired\<close>

definition pool_ok :: "credential_pool \<Rightarrow> bool" where
  "pool_ok p = (creds p \<noteq> [] \<and> cursor p < length (creds p))"

text \<open>The index that the offset of a candidate stands for.\<close>

definition slot :: "credential_pool \<Rightarrow> nat \<Rightarrow> nat" where
  "slot p offset = (cursor p + offset) mod length (creds p)"

lemma candidates_iff:
  "(j, c) \<in> set (candidates_from now p) \<longleftrightarrow> j < length (creds p) \<and> c = creds p ! slot p j \<and> unparked now c"
  by (auto simp: candidates_from_def slot_def Let_def)

lemma slot_less: "pool_ok p \<Longrightarrow> slot p j < length (creds p)"
  by (auto simp: pool_ok_def slot_def)

lemma every_slot: "pool_ok p \<Longrightarrow> k < length (creds p) \<Longrightarrow> \<exists>j < length (creds p). slot p j = k"
proof -
  assume ok: "pool_ok p" "k < length (creds p)"
  let ?n = "length (creds p)" and ?j = "(k + length (creds p) - cursor p) mod length (creds p)"
  have "(cursor p + (k + ?n - cursor p)) mod ?n = k" using ok by (simp add: pool_ok_def)
  then have "slot p ?j = k" unfolding slot_def by (metis mod_add_right_eq)
  moreover have "?j < ?n" using ok by (auto simp: pool_ok_def)
  ultimately show ?thesis by blast
qed

text \<open>
  What acquiring does: the slot that is chosen is free, least used among the free ones, and the
  nearest such one from the cursor.
\<close>

lemma acquire_Inr:
  assumes "pool_ok p" and "acquire now p = Inr (p', c)"
  shows "\<exists>j < length (creds p). unparked now (creds p ! slot p j) \<and>
    (\<forall>k < length (creds p). unparked now (creds p ! k) \<longrightarrow> acquisitions (creds p ! slot p j) \<le> acquisitions (creds p ! k)) \<and>
    (\<forall>i < j. unparked now (creds p ! slot p i) \<longrightarrow> acquisitions (creds p ! slot p j) < acquisitions (creds p ! slot p i)) \<and>
    c = (creds p ! slot p j)\<lparr>acquisitions := acquisitions (creds p ! slot p j) + 1\<rparr> \<and>
    creds p' = (creds p)[slot p j := c] \<and> cursor p' = (slot p j + 1) mod length (creds p)"
proof -
  let ?os = "candidates_from now p"
  define m where "m = Min (set (map (\<lambda>oc. acquisitions (snd oc)) ?os))"
  obtain j c0 where f: "find (\<lambda>oc. acquisitions (snd oc) = m) ?os = Some (j, c0)"
    and res: "c = c0\<lparr>acquisitions := acquisitions c0 + 1\<rparr>" "creds p' = (creds p)[slot p j := c]"
      "cursor p' = (cursor p + j + 1) mod length (creds p)"
    using assms(2) unfolding acquire_def Let_def m_def slot_def by (auto split: if_splits option.splits)
  obtain i where i: "i < length ?os" "?os ! i = (j, c0)" "acquisitions c0 = m"
      "\<forall>q < i. acquisitions (snd (?os ! q)) \<noteq> m"
    using f unfolding find_Some_iff by (metis snd_conv)
  have jc: "j < length (creds p)" "c0 = creds p ! slot p j" "unparked now c0"
    using candidates_iff [of j c0 now p] i(1,2) by (metis nth_mem)+
  have least: "m \<le> acquisitions (creds p ! k)" if "k < length (creds p)" "unparked now (creds p ! k)" for k
  proof -
    obtain q where q: "q < length (creds p)" "slot p q = k" using every_slot [OF assms(1) \<open>k < _\<close>] by blast
    then have "(q, creds p ! k) \<in> set ?os" using that(2) candidates_iff by blast
    then have "acquisitions (creds p ! k) \<in> set (map (\<lambda>oc. acquisitions (snd oc)) ?os)" by force
    then show ?thesis unfolding m_def by (intro Min_le) auto
  qed
  have sorted: "sorted_wrt (\<lambda>a b. fst a < fst b) ?os"
    unfolding candidates_from_def Let_def by (rule sorted_wrt_filter) (simp add: sorted_wrt_map)
  have "m < acquisitions (creds p ! slot p q)" if "q < j" "unparked now (creds p ! slot p q)" for q
  proof -
    have "(q, creds p ! slot p q) \<in> set ?os" using that jc(1) candidates_iff by auto
    then obtain r where r: "r < length ?os" "?os ! r = (q, creds p ! slot p q)" by (metis in_set_conv_nth)
    have "r < i"
    proof (rule ccontr)
      assume "\<not> r < i"
      then have "i = r \<or> fst (?os ! i) < fst (?os ! r)"
        using sorted_wrt_nth_less [OF sorted, of i r] r(1) by linarith
      then show False using i(2) r(2) that(1) by auto
    qed
    then have "acquisitions (creds p ! slot p q) \<noteq> m" using i(4) r(2) by (metis snd_conv)
    then show ?thesis using least [OF slot_less [OF assms(1)] that(2)] by simp
  qed
  moreover have "cursor p' = (slot p j + 1) mod length (creds p)" using res(3) by (simp add: slot_def mod_simps)
  ultimately show ?thesis using jc least res(1,2) i(3) by (intro exI [of _ j]) auto
qed

lemma acquire_ok: "pool_ok p \<Longrightarrow> acquire now p = Inr (p', c) \<Longrightarrow> pool_ok p' \<and> length (creds p') = length (creds p)"
proof -
  assume ok: "pool_ok p" "acquire now p = Inr (p', c)"
  then obtain j where "creds p' = (creds p)[slot p j := c]" "cursor p' = (slot p j + 1) mod length (creds p)"
    using acquire_Inr by blast
  then show ?thesis using ok(1) by (auto simp: pool_ok_def)
qed

theorem acquire_fails_iff_all_parked:
  assumes "pool_ok p"
  shows "(\<exists>e. acquire now p = Inl e) \<longleftrightarrow> (\<forall>c \<in> set (creds p). \<not> unparked now c)"
proof
  assume "\<exists>e. acquire now p = Inl e"
  show "\<forall>c \<in> set (creds p). \<not> unparked now c"
  proof (rule ccontr)
    assume "\<not> (\<forall>c \<in> set (creds p). \<not> unparked now c)"
    then obtain k where k: "k < length (creds p)" "unparked now (creds p ! k)" by (auto simp: in_set_conv_nth)
    then obtain j where "(j, creds p ! k) \<in> set (candidates_from now p)"
      using every_slot [OF assms k(1)] candidates_iff by blast
    then have ne: "candidates_from now p \<noteq> []" by auto
    define m where "m = Min (set (map (\<lambda>oc. acquisitions (snd oc)) (candidates_from now p)))"
    have "m \<in> set (map (\<lambda>oc. acquisitions (snd oc)) (candidates_from now p))"
      unfolding m_def using ne by (intro Min_in) auto
    then have "find (\<lambda>oc. acquisitions (snd oc) = m) (candidates_from now p) \<noteq> None"
      unfolding find_None_iff by auto
    then show False using \<open>\<exists>e. _\<close> ne unfolding m_def acquire_def Let_def by auto
  qed
next
  assume "\<forall>c \<in> set (creds p). \<not> unparked now c"
  then have "candidates_from now p = []"
    using candidates_iff [of _ _ now p] slot_less [OF assms] by (metis ex_in_conv nth_mem prod.exhaust set_empty)
  then show "\<exists>e. acquire now p = Inl e" by (simp add: acquire_def)
qed

section \<open>Fairness\<close>

fun acquire_all :: "rat list \<Rightarrow> credential_pool \<Rightarrow> pool_error + credential_pool \<times> credential list" where
  "acquire_all [] p = Inr (p, [])"
| "acquire_all (t # ts) p =
     rbind (acquire t p) (\<lambda>(p1, c). rbind (acquire_all ts p1) (\<lambda>(p2, cs). Inr (p2, c # cs)))"

text \<open>While nothing is parked, use counts differ by at most one.\<close>

definition balanced :: "credential_pool \<Rightarrow> bool" where
  "balanced p = (\<forall>a \<in> set (creds p). \<forall>b \<in> set (creds p). acquisitions a \<le> acquisitions b + 1)"

definition free_at :: "rat \<Rightarrow> credential_pool \<Rightarrow> bool" where
  "free_at t p = (\<forall>c \<in> set (creds p). parked_until c \<le> t)"

lemma acquire_balanced:
  assumes "pool_ok p" and "balanced p" and "free_at t0 p" and "t0 \<le> t" and "acquire t p = Inr (p', c)"
  shows "balanced p' \<and> free_at t0 p'"
proof -
  obtain j where j: "j < length (creds p)"
      "\<forall>k < length (creds p). unparked t (creds p ! k) \<longrightarrow> acquisitions (creds p ! slot p j) \<le> acquisitions (creds p ! k)"
      "c = (creds p ! slot p j)\<lparr>acquisitions := acquisitions (creds p ! slot p j) + 1\<rparr>"
      "creds p' = (creds p)[slot p j := c]"
    using acquire_Inr [OF assms(1,5)] by blast
  have s: "slot p j < length (creds p)" by (rule slot_less [OF assms(1)])
  have all_free: "unparked t a" if "a \<in> set (creds p)" for a
    using assms(3,4) that by (force simp: free_at_def unparked_def)
  then have least: "acquisitions (creds p ! slot p j) \<le> acquisitions a" if "a \<in> set (creds p)" for a
    using j(2) that by (auto simp: in_set_conv_nth)
  have mem: "a = c \<or> a \<in> set (creds p)" if "a \<in> set (creds p')" for a
    using that set_update_subset_insert [of "creds p" "slot p j" c] j(4) by auto
  have "acquisitions a \<le> acquisitions b + 1" if "a \<in> set (creds p')" "b \<in> set (creds p')" for a b
  proof -
    have "creds p ! slot p j \<in> set (creds p)" using s by simp
    then show ?thesis
      using mem [OF that(1)] mem [OF that(2)] least [of b] assms(2) j(3) unfolding balanced_def by fastforce
  qed
  moreover have "parked_until c \<le> t0" using j(3) s assms(3) by (simp add: free_at_def)
  ultimately show ?thesis using mem assms(3) unfolding balanced_def free_at_def by blast
qed

text \<open>Use counts over a history of acquisitions: balanced, and the total is the number of them.\<close>

definition total_uses :: "credential_pool \<Rightarrow> nat" where
  "total_uses p = sum_list (map acquisitions (creds p))"

lemma sum_list_map_update: "k < length xs \<Longrightarrow> sum_list (map f (xs[k := y])) + f (xs ! k) = sum_list (map f xs) + (f y :: nat)"
  by (induction xs arbitrary: k) (auto split: nat.split simp: algebra_simps)

lemma acquire_total: "pool_ok p \<Longrightarrow> acquire t p = Inr (p', c) \<Longrightarrow> total_uses p' = total_uses p + 1"
proof -
  assume ok: "pool_ok p" "acquire t p = Inr (p', c)"
  then obtain j where j: "c = (creds p ! slot p j)\<lparr>acquisitions := acquisitions (creds p ! slot p j) + 1\<rparr>"
      "creds p' = (creds p)[slot p j := c]"
    using acquire_Inr by blast
  then show ?thesis using sum_list_map_update [of "slot p j" "creds p" acquisitions c] slot_less [OF ok(1)]
    by (simp add: total_uses_def)
qed

theorem acquisitions_spread_evenly:
  assumes "pool_ok p" and "balanced p" and "free_at t0 p" and "\<forall>t \<in> set ts. t0 \<le> t"
  shows "\<exists>p' cs. acquire_all ts p = Inr (p', cs) \<and> length cs = length ts \<and> balanced p' \<and>
    total_uses p' = total_uses p + length ts \<and> length (creds p') = length (creds p)"
  using assms
proof (induction ts arbitrary: p)
  case (Cons t ts)
  have "\<not> (\<exists>e. acquire t p = Inl e)"
    using acquire_fails_iff_all_parked [OF Cons.prems(1), of t] Cons.prems
    by (cases "creds p") (force simp: pool_ok_def free_at_def unparked_def)+
  then obtain p1 c where one: "acquire t p = Inr (p1, c)" by (cases "acquire t p") auto
  have "balanced p1 \<and> free_at t0 p1" using acquire_balanced [OF Cons.prems(1-3) _ one] Cons.prems(4) by simp
  moreover have "pool_ok p1 \<and> length (creds p1) = length (creds p)" by (rule acquire_ok [OF Cons.prems(1) one])
  ultimately obtain p2 cs where two: "acquire_all ts p1 = Inr (p2, cs)" "length cs = length ts" "balanced p2"
      "total_uses p2 = total_uses p1 + length ts" "length (creds p2) = length (creds p1)"
    using Cons.IH [of p1] Cons.prems(4) by auto
  then show ?case using one acquire_total [OF Cons.prems(1) one] \<open>pool_ok p1 \<and> _\<close> by auto
qed simp

section \<open>Parking\<close>

datatype pool_event = Acquired rat | Reported string rat rat

definition pool_step :: "credential_pool \<Rightarrow> pool_event \<Rightarrow> credential_pool" where
  "pool_step p e =
     (case e of
        Acquired t \<Rightarrow> (case acquire t p of Inl _ \<Rightarrow> p | Inr (p', c) \<Rightarrow> p')
      | Reported i cooldown now \<Rightarrow> (case report_429 i cooldown now p of Inl _ \<Rightarrow> p | Inr p' \<Rightarrow> p'))"

definition parked_to :: "string \<Rightarrow> rat \<Rightarrow> credential_pool \<Rightarrow> bool" where
  "parked_to i u p = (\<forall>c \<in> set (creds p). cred_id c = i \<longrightarrow> u \<le> parked_until c)"

lemma cred_index_Some: "cred_index i cs = Some k \<Longrightarrow> k < length cs \<and> cred_id (cs ! k) = i"
  by (induction cs arbitrary: k) (auto split: if_splits)

lemma report_ok: "pool_ok p \<Longrightarrow> report_429 i cooldown now p = Inr p' \<Longrightarrow> pool_ok p'"
  by (auto simp: report_429_def pool_ok_def split: option.splits)

lemma pool_step_ok: "pool_ok p \<Longrightarrow> pool_ok (pool_step p e)"
proof (cases e)
  case (Acquired t)
  assume "pool_ok p"
  then show ?thesis using acquire_ok [of p t] by (cases "acquire t p") (auto simp: pool_step_def Acquired)
next
  case (Reported i cooldown now)
  assume "pool_ok p"
  then show ?thesis using report_ok [of p i cooldown now]
    by (cases "report_429 i cooldown now p") (auto simp: pool_step_def Reported)
qed

lemma pool_step_parked:
  assumes "pool_ok p" and "parked_to i u p" and "\<forall>j cooldown now. e = Reported j cooldown now \<and> j = i \<longrightarrow> u \<le> now + cooldown"
  shows "parked_to i u (pool_step p e)"
proof (cases e)
  case (Acquired t)
  show ?thesis
  proof (cases "acquire t p")
    case (Inr r)
    then obtain p' c where r: "acquire t p = Inr (p', c)" by (cases r) auto
    then obtain j where j: "c = (creds p ! slot p j)\<lparr>acquisitions := acquisitions (creds p ! slot p j) + 1\<rparr>"
        "creds p' = (creds p)[slot p j := c]"
      using acquire_Inr [OF assms(1)] by blast
    have "creds p ! slot p j \<in> set (creds p)" using slot_less [OF assms(1)] by simp
    then have "parked_to i u p'"
      using assms(2) set_update_subset_insert [of "creds p" "slot p j" c] j unfolding parked_to_def by fastforce
    then show ?thesis by (simp add: pool_step_def Acquired r)
  qed (use assms(2) in \<open>simp add: pool_step_def Acquired\<close>)
next
  case (Reported j cooldown now)
  show ?thesis
  proof (cases "report_429 j cooldown now p")
    case (Inr p')
    then obtain k where k: "cred_index j (creds p) = Some k"
        "creds p' = (creds p)[k := (creds p ! k)\<lparr>parked_until := now + cooldown\<rparr>]"
      by (auto simp: report_429_def split: option.splits)
    have "parked_to i u p'"
      using assms(2,3) cred_index_Some [OF k(1)] set_update_subset_insert [of "creds p" k] k(2) Reported
      unfolding parked_to_def by fastforce
    then show ?thesis by (simp add: pool_step_def Reported Inr)
  qed (use assms(2) in \<open>simp add: pool_step_def Reported\<close>)
qed

text \<open>C31: A credential reported for a 429 is not handed out before its cooldown is over, whatever
  acquisitions and reports that do not shorten it come in between.\<close>

theorem parked_credential_rests:
  assumes "pool_ok p" and "distinct (map cred_id (creds p))" and "report_429 i cooldown now p = Inr p1"
    and "\<forall>c n. Reported i c n \<in> set es \<longrightarrow> now + cooldown \<le> n + c"
    and "acquire t (foldl pool_step p1 es) = Inr (p2, c)" and "t < now + cooldown"
  shows "cred_id c \<noteq> i"
proof -
  obtain k where k: "cred_index i (creds p) = Some k"
      "creds p1 = (creds p)[k := (creds p ! k)\<lparr>parked_until := now + cooldown\<rparr>]" "cursor p1 = cursor p"
    using assms(3) by (auto simp: report_429_def split: option.splits)
  have at: "k < length (creds p)" "cred_id (creds p ! k) = i" using cred_index_Some [OF k(1)] by auto
  have "parked_to i (now + cooldown) p1"
    unfolding parked_to_def
  proof (intro ballI impI)
    fix a assume "a \<in> set (creds p1)" "cred_id a = i"
    then obtain m where m: "m < length (creds p)" "a = creds p1 ! m" by (auto simp: in_set_conv_nth k(2))
    have "m = k"
    proof (rule ccontr)
      assume "m \<noteq> k"
      then have "cred_id (creds p ! m) = i" using m \<open>cred_id a = i\<close> by (simp add: k(2))
      then show False using at m(1) \<open>m \<noteq> k\<close> assms(2) by (auto simp: distinct_conv_nth)
    qed
    then show "now + cooldown \<le> parked_until a" using m at(1) by (simp add: k(2))
  qed
  moreover have "pool_ok p1" using assms(1) k by (simp add: pool_ok_def)
  ultimately have "pool_ok (foldl pool_step p1 es) \<and> parked_to i (now + cooldown) (foldl pool_step p1 es)"
    using assms(4)
  proof (induction es arbitrary: p1)
    case (Cons e es)
    then show ?case using pool_step_ok [of p1 e] pool_step_parked [of p1 i "now + cooldown" e] by auto
  qed simp
  then have rest: "pool_ok (foldl pool_step p1 es)" "parked_to i (now + cooldown) (foldl pool_step p1 es)" by auto
  obtain j where j: "unparked t (creds (foldl pool_step p1 es) ! slot (foldl pool_step p1 es) j)"
      "cred_id c = cred_id (creds (foldl pool_step p1 es) ! slot (foldl pool_step p1 es) j)"
    using acquire_Inr [OF rest(1) assms(5)] by force
  show ?thesis
  proof
    assume "cred_id c = i"
    then have "now + cooldown \<le> t"
      using j rest(2) slot_less [OF rest(1), of j] unfolding parked_to_def unparked_def
      by (metis nth_mem order_trans)
    then show False using assms(6) by simp
  qed
qed

end
