(* ===== verification/Provider_Selector.thy ===== *)
theory Provider_Selector
  imports Provider_Registry "HOL-Library.Product_Lexorder"
begin

text \<open>
  The model selector (\<open>src/src/openstarry_code/provider/selector.py\<close>): the chain of provider
  configurations of a turn, failover along it, and the overrides that rewrite it. A dict is an
  association list. Two things are arguments: the host name that the URL parser finds, and what
  a plugin's failover hook returned (\<open>None\<close> when it raised or returned nothing).
\<close>

section \<open>Configurations\<close>

record provider_config =
  cfg_provider :: string
  cfg_model :: string
  cfg_api_key :: string
  cfg_base_url :: string
  cfg_complete_url :: string
  cfg_org_id :: string
  cfg_proxy :: string
  cfg_routing :: "(string \<times> string) list"
  cfg_replay :: bool
  cfg_headers :: "(string \<times> string) list"

text \<open>What makes two configurations the same deployment; the complete URL is not part of it.\<close>

definition config_identity ::
    "provider_config \<Rightarrow>
     (string \<times> string \<times> string \<times> string \<times> string \<times> string) \<times> bool \<times> (string \<times> string) list \<times> (string \<times> string) list" where
  "config_identity c =
     ((cfg_provider c, cfg_model c, cfg_api_key c, cfg_base_url c, cfg_org_id c, cfg_proxy c),
      cfg_replay c, sort (cfg_routing c), sort (map (\<lambda>(k, v). (py_lower k, v)) (cfg_headers c)))"

definition without_replay :: "provider_config \<Rightarrow> provider_config" where
  "without_replay c = c\<lparr>cfg_replay := False\<rparr>"

section \<open>Building a provider\<close>

datatype selector_error = Build_Error string | Not_Configured string | No_Fallback

text \<open>\<open>[A-Za-z0-9_-]{16,}\<close> after a fixed prefix.\<close>

definition key_char :: "char \<Rightarrow> bool" where
  "key_char c =
     (let n = code c in (48 \<le> n \<and> n \<le> 57) \<or> (65 \<le> n \<and> n \<le> 90) \<or> (97 \<le> n \<and> n \<le> 122) \<or> n = 95 \<or> n = 45)"

definition key_with_prefix :: "string \<Rightarrow> string \<Rightarrow> bool" where
  "key_with_prefix p s =
     (starts_with p s \<and> 16 \<le> length (drop (length p) s) \<and> list_all key_char (drop (length p) s))"

definition credential_provider_hint :: "string \<Rightarrow> string" where
  "credential_provider_hint api_key =
     (let key = py_strip api_key in
      if key_with_prefix ''sk_tr_'' key then ''tokenrhythm''
      else if key_with_prefix ''sk-or-v1-'' key then ''openrouter''
      else [])"

definition endpoint_provider_hint :: "(string \<Rightarrow> string option) \<Rightarrow> string \<Rightarrow> string" where
  "endpoint_provider_hint hostname base_url =
     (let value = py_strip base_url in
      if value = [] then []
      else (case hostname value of
              None \<Rightarrow> []
            | Some h \<Rightarrow>
                let name = py_lower (py_strip h) in
                if name = ''tokenrhythm.studio'' then ''tokenrhythm''
                else if name = ''openrouter.ai'' then ''openrouter''
                else []))"

record build_context =
  ctx_provider :: string
  ctx_backend :: string
  ctx_kind :: string
  ctx_model :: string
  ctx_api_key :: string
  ctx_base_url :: string
  ctx_complete_url :: string
  ctx_org_id :: string
  ctx_proxy :: string
  ctx_headers :: "(string \<times> string) list"
  ctx_routing :: "(string \<times> string) list"
  ctx_replay :: bool

definition context_of :: "provider_config \<Rightarrow> provider_spec \<Rightarrow> build_context" where
  "context_of c s =
     \<lparr>ctx_provider = cfg_provider c, ctx_backend = spec_backend s, ctx_kind = spec_kind s,
      ctx_model = cfg_model c, ctx_api_key = cfg_api_key c,
      ctx_base_url = (if cfg_base_url c \<noteq> [] then cfg_base_url c else spec_base_url s),
      ctx_complete_url = cfg_complete_url c, ctx_org_id = cfg_org_id c, ctx_proxy = cfg_proxy c,
      ctx_headers = cfg_headers c, ctx_routing = cfg_routing c, ctx_replay = cfg_replay c\<rparr>"

definition backend_factories :: "string list" where
  "backend_factories = [''anthropic'', ''openai_compat'', ''openai_responses'', ''ollama'', ''openai_codex'']"

definition unsupported_message :: "string \<Rightarrow> string" where
  "unsupported_message provider =
     ''Provider '' @ quoted provider @ '' is registered but runtime support is not enabled in this wave''"

definition unknown_message :: "string \<Rightarrow> string" where
  "unknown_message provider =
     ''Unknown provider '' @ quoted provider @ ''. Available: '' @
     join '', '' (sort (remdups (map spec_id provider_specs)))"

text \<open>\<open>_build_provider\<close> up to the call of the backend's factory with the context.\<close>

definition build_provider :: "(string \<Rightarrow> string option) \<Rightarrow> provider_config \<Rightarrow> selector_error + build_context" where
  "build_provider hostname c =
     (let provider_id = py_lower (py_strip (cfg_provider c));
          credential_hint = credential_provider_hint (cfg_api_key c);
          endpoint_hint = endpoint_provider_hint hostname (cfg_base_url c)
      in rbind (ensure (credential_hint = [] \<or> credential_hint = provider_id)
                  (Build_Error (''Credential format belongs to provider '' @ quoted credential_hint @
                     '', not configured provider '' @
                     quoted (if provider_id = [] then ''(unset)'' else provider_id)))) (\<lambda>_.
         rbind (ensure (credential_hint = [] \<or> endpoint_hint = [] \<or> credential_hint = endpoint_hint)
                  (Build_Error (''Credential format belongs to provider '' @ quoted credential_hint @
                     '', but the configured endpoint belongs to provider '' @ quoted endpoint_hint))) (\<lambda>_.
         case get_provider_spec (cfg_provider c) of
           None \<Rightarrow> Inl (Build_Error (unknown_message (cfg_provider c)))
         | Some s \<Rightarrow>
             rbind (ensure (spec_supported s) (Build_Error (unsupported_message (cfg_provider c)))) (\<lambda>_.
             let ctx = context_of c s in
             rbind (ensure (ctx_base_url ctx \<noteq> [] \<or> \<not> requires_base_url s)
                      (Build_Error (''Provider '' @ quoted (cfg_provider c) @ '' requires an explicit base_url''))) (\<lambda>_.
             rbind (ensure (spec_backend s \<in> set backend_factories)
                      (Build_Error (unsupported_message (cfg_provider c)))) (\<lambda>_.
             Inr ctx))))))"

section \<open>The selector\<close>

record selector =
  sel_primary :: provider_config
  sel_fallbacks :: "provider_config list"
  sel_chain :: "provider_config list"
  sel_index :: nat
  sel_replay_disabled :: bool

definition new_selector :: "provider_config \<Rightarrow> provider_config list \<Rightarrow> selector" where
  "new_selector p fs =
     \<lparr>sel_primary = p, sel_fallbacks = fs, sel_chain = p # fs, sel_index = 0, sel_replay_disabled = False\<rparr>"

definition current_config :: "selector \<Rightarrow> provider_config" where
  "current_config s = sel_chain s ! sel_index s"

definition config_usable :: "provider_config \<Rightarrow> bool" where
  "config_usable c =
     (py_strip (cfg_provider c) \<noteq> [] \<and>
      (cfg_api_key c \<noteq> [] \<or>
       \<not> (case get_provider_spec (cfg_provider c) of None \<Rightarrow> True | Some s \<Rightarrow> requires_api_key s)))"

definition is_configured :: "selector \<Rightarrow> bool" where
  "is_configured s = config_usable (current_config s)"

definition resolve :: "(string \<Rightarrow> string option) \<Rightarrow> selector \<Rightarrow> selector_error + build_context" where
  "resolve hostname s =
     (if \<not> is_configured s
      then Inl (Not_Configured (''Provider '' @
              quoted (if cfg_provider (current_config s) = [] then ''(unset)'' else cfg_provider (current_config s)) @
              '' is not configured yet (missing API key); add one via the Web UI settings or the [llm] section of config.toml''))
      else build_provider hostname (current_config s))"

definition has_fallback :: "selector \<Rightarrow> bool" where
  "has_fallback s = (sel_index s + 1 < length (sel_chain s))"

definition remaining_chain :: "selector \<Rightarrow> provider_config list" where
  "remaining_chain s = drop (sel_index s) (sel_chain s)"

text \<open>The index moves before the provider is built, so it has moved also when building fails.\<close>

definition next_fallback ::
    "(string \<Rightarrow> string option) \<Rightarrow> selector \<Rightarrow> selector \<times> (selector_error + build_context)" where
  "next_fallback hostname s =
     (if \<not> has_fallback s then (s, Inl No_Fallback)
      else (let s' = s\<lparr>sel_index := sel_index s + 1\<rparr> in (s', build_provider hostname (current_config s'))))"

text \<open>\<open>hook\<close> is \<open>None\<close> without a plugin, else what its failover hook gave.\<close>

definition failover_chain :: "provider_config list option option \<Rightarrow> selector \<Rightarrow> provider_config list" where
  "failover_chain hook s =
     (case hook of
        None \<Rightarrow> drop (sel_index s + 1) (sel_chain s)
      | Some (Some chain) \<Rightarrow> chain
      | Some None \<Rightarrow> sel_fallbacks s)"

definition next_fallback_after_failure ::
    "(string \<Rightarrow> string option) \<Rightarrow> provider_config list option option \<Rightarrow> selector \<Rightarrow>
     selector \<times> (selector_error + build_context)" where
  "next_fallback_after_failure hostname hook s =
     (let chain0 = failover_chain hook s;
          chain = (if sel_replay_disabled s then map without_replay chain0 else chain0)
      in if chain = [] then (s, Inl No_Fallback)
         else (let s' = s\<lparr>sel_chain := current_config s # chain, sel_index := 1\<rparr>
               in (s', build_provider hostname (current_config s'))))"

section \<open>Overrides\<close>

fun dedup_configs :: "provider_config list \<Rightarrow> provider_config list \<Rightarrow> provider_config list" where
  "dedup_configs seen [] = []"
| "dedup_configs seen (c # cs) =
     (if config_identity c \<in> set (map config_identity seen) then dedup_configs seen cs
      else c # dedup_configs (c # seen) cs)"

definition install :: "provider_config \<Rightarrow> provider_config list \<Rightarrow> selector \<Rightarrow> selector" where
  "install c rest s = s\<lparr>sel_chain := c # dedup_configs [c] rest, sel_index := 0\<rparr>"

definition override_provider_config :: "provider_config \<Rightarrow> selector \<Rightarrow> selector" where
  "override_provider_config c s =
     install (if sel_replay_disabled s then without_replay c else c) (hd (sel_chain s) # tl (sel_chain s)) s"

definition override_model :: "string \<Rightarrow> selector \<Rightarrow> selector" where
  "override_model model s =
     (let p = hd (sel_chain s) in
      if model \<noteq> [] \<and> model \<noteq> cfg_model p
      then install (p\<lparr>cfg_model := model\<rparr>) (p # tl (sel_chain s)) s
      else s)"

definition override_original_primary_model :: "string \<Rightarrow> selector \<Rightarrow> selector" where
  "override_original_primary_model model s =
     (let original = sel_primary s;
          restored = original\<lparr>cfg_model := (if model \<noteq> [] then model else cfg_model original)\<rparr>
      in install restored (sel_fallbacks s @ sel_chain s) s)"

definition disable_provider_state_replay :: "selector \<Rightarrow> selector" where
  "disable_provider_state_replay s =
     s\<lparr>sel_replay_disabled := True, sel_primary := without_replay (sel_primary s),
       sel_fallbacks := map without_replay (sel_fallbacks s), sel_chain := map without_replay (sel_chain s)\<rparr>"

text \<open>A router entry that is a mapping: its provider and model values.\<close>

definition router_link :: "provider_config \<Rightarrow> provider_config list \<Rightarrow> pyval \<Rightarrow> provider_config option" where
  "router_link current tail entry =
     (case entry of
        PyDict d \<Rightarrow>
          (let model = py_strip (if truthy (dget d ''model'') then py_str (dget d ''model'') else []);
               named = py_strip (if truthy (dget d ''provider'') then py_str (dget d ''provider'') else cfg_provider current);
               provider = (if named \<noteq> [] then named else cfg_provider current)
           in if model = [] then None
              else (case find (\<lambda>c. cfg_provider c = provider \<and> cfg_model c = model) (rev tail) of
                      Some c \<Rightarrow> Some c
                    | None \<Rightarrow>
                        if provider \<noteq> cfg_provider current then None
                        else Some (current\<lparr>cfg_model := model\<rparr>)))
      | _ \<Rightarrow> None)"

definition override_model_with_fallback_chain :: "string \<Rightarrow> pyval list \<Rightarrow> selector \<Rightarrow> selector" where
  "override_model_with_fallback_chain model entries s0 =
     (let s = override_model model s0 in
      if entries = [] then s
      else
        (let current = hd (sel_chain s); tail = tl (sel_chain s);
             links = concat (map (\<lambda>e. case router_link current tail e of None \<Rightarrow> [] | Some c \<Rightarrow> [c]) entries)
         in install current (links @ tail) s))"

definition reset :: "selector \<Rightarrow> selector" where
  "reset s = s\<lparr>sel_index := 0\<rparr>"

definition sync_primary :: "provider_config \<Rightarrow> selector \<Rightarrow> selector" where
  "sync_primary c0 s =
     (let c = (if sel_replay_disabled s then without_replay c0 else c0)
      in reset (s\<lparr>sel_primary := c, sel_chain := (sel_chain s)[0 := c]\<rparr>))"

definition clone :: "selector \<Rightarrow> selector" where
  "clone s = (new_selector (sel_primary s) (sel_fallbacks s))\<lparr>sel_replay_disabled := sel_replay_disabled s\<rparr>"

section \<open>Invariants\<close>

definition sel_ok :: "selector \<Rightarrow> bool" where
  "sel_ok s = (sel_index s < length (sel_chain s))"

definition no_replay :: "selector \<Rightarrow> bool" where
  "no_replay s = (sel_replay_disabled s \<and>
     (\<forall>c \<in> set (sel_primary s # sel_fallbacks s @ sel_chain s). \<not> cfg_replay c))"

declare split_paired_All [simp del] split_paired_Ex [simp del]

lemma dedup_subset: "set (dedup_configs seen cs) \<subseteq> set cs"
  by (induction seen cs rule: dedup_configs.induct) auto

lemma dedup_distinct:
  "distinct (map config_identity (dedup_configs seen cs)) \<and>
   set (map config_identity (dedup_configs seen cs)) = set (map config_identity cs) - set (map config_identity seen)"
proof (induction seen cs rule: dedup_configs.induct)
  case (2 seen c cs)
  show ?case
  proof (cases "config_identity c \<in> set (map config_identity seen)")
    case True
    then show ?thesis using 2(1) by auto
  next
    case False
    then have "distinct (map config_identity (dedup_configs (c # seen) cs)) \<and>
        set (map config_identity (dedup_configs (c # seen) cs)) =
        set (map config_identity cs) - set (map config_identity (c # seen))"
      by (rule 2(2))
    then show ?thesis using False by (simp add: insert_Diff_if) blast
  qed
qed simp

lemma install_chain:
  "sel_chain (install c rest s) = c # dedup_configs [c] rest" "sel_index (install c rest s) = 0"
  "sel_primary (install c rest s) = sel_primary s" "sel_fallbacks (install c rest s) = sel_fallbacks s"
  "sel_replay_disabled (install c rest s) = sel_replay_disabled s"
  by (simp_all add: install_def)

lemma install_identities:
  "distinct (map config_identity (sel_chain (install c rest s)))"
  "config_identity ` set (sel_chain (install c rest s)) = insert (config_identity c) (config_identity ` set rest)"
  using dedup_distinct [of "[c]" rest] by (auto simp: install_chain)

lemma install_no_replay: "no_replay s \<Longrightarrow> \<not> cfg_replay c \<Longrightarrow> \<forall>d \<in> set rest. \<not> cfg_replay d \<Longrightarrow> no_replay (install c rest s)"
  using dedup_subset [of "[c]" rest] by (auto simp: no_replay_def install_chain)

lemma without_replay_off [simp]: "\<not> cfg_replay (without_replay c)"
  by (simp add: without_replay_def)

datatype selector_op =
    Next_Op | After_Failure_Op "provider_config list option option" | Provider_Op provider_config | Model_Op string
  | Original_Op string | Router_Op string "pyval list" | Sync_Op provider_config | Reset_Op | Clone_Op | Disable_Op

fun selector_step :: "(string \<Rightarrow> string option) \<Rightarrow> selector \<Rightarrow> selector_op \<Rightarrow> selector" where
  "selector_step h s Next_Op = fst (next_fallback h s)"
| "selector_step h s (After_Failure_Op hook) = fst (next_fallback_after_failure h hook s)"
| "selector_step h s (Provider_Op c) = override_provider_config c s"
| "selector_step h s (Model_Op m) = override_model m s"
| "selector_step h s (Original_Op m) = override_original_primary_model m s"
| "selector_step h s (Router_Op m es) = override_model_with_fallback_chain m es s"
| "selector_step h s (Sync_Op c) = sync_primary c s"
| "selector_step h s Reset_Op = reset s"
| "selector_step h s Clone_Op = clone s"
| "selector_step h s Disable_Op = disable_provider_state_replay s"

definition selector_run :: "(string \<Rightarrow> string option) \<Rightarrow> selector \<Rightarrow> selector_op list \<Rightarrow> selector" where
  "selector_run h s ops = foldl (selector_step h) s ops"

lemma selector_run_simps [simp]:
  "selector_run h s [] = s" "selector_run h s (x # xs) = selector_run h (selector_step h s x) xs"
  "selector_run h s (xs @ ys) = selector_run h (selector_run h s xs) ys"
  by (simp_all add: selector_run_def)

lemma ok_chain: "sel_ok s \<Longrightarrow> sel_chain s \<noteq> []"
  by (auto simp: sel_ok_def)

lemma step_sel_ok: "sel_ok s \<Longrightarrow> sel_ok (selector_step h s op)"
  by (cases op)
     (auto simp: sel_ok_def next_fallback_def next_fallback_after_failure_def Let_def has_fallback_def
        override_provider_config_def override_model_def override_original_primary_model_def
        override_model_with_fallback_chain_def install_chain reset_def sync_primary_def clone_def new_selector_def
        disable_provider_state_replay_def)

lemma run_sel_ok: "sel_ok s \<Longrightarrow> sel_ok (selector_run h s ops)"
  by (induction ops arbitrary: s) (auto intro: step_sel_ok)

lemma chain_no_replay: "no_replay s \<Longrightarrow> sel_ok s \<Longrightarrow> \<not> cfg_replay (hd (sel_chain s)) \<and> (\<forall>c \<in> set (tl (sel_chain s)). \<not> cfg_replay c) \<and> \<not> cfg_replay (current_config s)"
proof -
  assume s: "no_replay s" "sel_ok s"
  then have all: "\<forall>c \<in> set (sel_chain s). \<not> cfg_replay c" by (simp add: no_replay_def)
  moreover have "current_config s \<in> set (sel_chain s)" using s(2) by (simp add: current_config_def sel_ok_def)
  ultimately show ?thesis using ok_chain [OF s(2)] by (cases "sel_chain s") auto
qed

lemma model_no_replay: "no_replay s \<Longrightarrow> sel_ok s \<Longrightarrow> no_replay (override_model m s)"
  using chain_no_replay [of s] by (auto simp: override_model_def Let_def intro!: install_no_replay)

lemma router_link_no_replay:
  assumes "router_link current tail e = Some c" and "\<not> cfg_replay current" and "\<forall>d \<in> set tail. \<not> cfg_replay d"
  shows "\<not> cfg_replay c"
proof (cases e)
  case (PyDict d)
  have found: "\<not> cfg_replay x" if "find P (rev tail) = Some x" for P x
    using that assms(3) by (metis find_Some_iff nth_mem set_rev)
  show ?thesis using assms PyDict
    by (auto simp: router_link_def Let_def split: if_splits option.splits dest!: found)
qed (use assms in \<open>simp_all add: router_link_def\<close>)

lemma step_no_replay:
  assumes "no_replay s" and "sel_ok s"
  shows "no_replay (selector_step h s op)"
proof (cases op)
  case (Router_Op m es)
  let ?s = "override_model m s"
  have s: "no_replay ?s" "sel_ok ?s"
    using model_no_replay [OF assms] step_sel_ok [OF assms(2), of h "Model_Op m"] by simp_all
  note chain = chain_no_replay [OF s]
  have "\<forall>d \<in> set (concat (map (\<lambda>e. case router_link (hd (sel_chain ?s)) (tl (sel_chain ?s)) e of None \<Rightarrow> [] | Some c \<Rightarrow> [c]) es) @
      tl (sel_chain ?s)). \<not> cfg_replay d"
    using chain router_link_no_replay by (fastforce split: option.splits)
  then show ?thesis using s chain
    by (simp add: Router_Op override_model_with_fallback_chain_def Let_def install_no_replay)
next
  case (After_Failure_Op hook)
  then show ?thesis using assms chain_no_replay [OF assms]
    by (auto simp: next_fallback_after_failure_def Let_def no_replay_def)
next
  case (Provider_Op c)
  have "sel_replay_disabled s" using assms(1) by (simp add: no_replay_def)
  then show ?thesis using chain_no_replay [OF assms] install_no_replay [OF assms(1)]
    by (simp add: Provider_Op override_provider_config_def)
next
  case (Model_Op m)
  then show ?thesis using model_no_replay [OF assms] by simp
next
  case (Original_Op m)
  have "\<not> cfg_replay (sel_primary s) \<and> (\<forall>c \<in> set (sel_fallbacks s @ sel_chain s). \<not> cfg_replay c)"
    using assms(1) by (simp add: no_replay_def)
  then show ?thesis using install_no_replay [OF assms(1)]
    by (simp add: Original_Op override_original_primary_model_def Let_def)
next
  case (Sync_Op c)
  then show ?thesis using assms set_update_subset_insert [of "sel_chain s" 0 "without_replay c"]
    by (auto simp: sync_primary_def Let_def reset_def no_replay_def)
qed (use assms in \<open>auto simp: next_fallback_def Let_def no_replay_def reset_def clone_def new_selector_def
    disable_provider_state_replay_def\<close>)

lemma run_no_replay: "no_replay s \<Longrightarrow> sel_ok s \<Longrightarrow> no_replay (selector_run h s ops)"
  by (induction ops arbitrary: s) (auto intro: step_no_replay step_sel_ok)

lemma build_replay: "build_provider h c = Inr ctx \<Longrightarrow> ctx_replay ctx = cfg_replay c \<and> ctx_provider ctx = cfg_provider c \<and> ctx_model ctx = cfg_model c"
  by (auto simp: build_provider_def Let_def context_of_def split: option.splits)

theorem replay_stays_disabled:
  assumes "sel_ok s" and "resolve h (selector_run h' (disable_provider_state_replay s) ops) = Inr ctx"
  shows "\<not> ctx_replay ctx"
proof -
  let ?d = "disable_provider_state_replay s"
  have d: "no_replay ?d" "sel_ok ?d"
    using assms(1) by (auto simp: disable_provider_state_replay_def no_replay_def sel_ok_def)
  have "\<not> cfg_replay (current_config (selector_run h' ?d ops))"
    using chain_no_replay run_no_replay [OF d] run_sel_ok [OF d(2)] by blast
  then show ?thesis using assms(2) build_replay by (auto simp: resolve_def split: if_splits)
qed

section \<open>Failover\<close>

text \<open>Failing over again and again without a plugin: the links that are tried.\<close>

fun failovers :: "(string \<Rightarrow> string option) \<Rightarrow> nat \<Rightarrow> selector \<Rightarrow> provider_config list" where
  "failovers h 0 s = []"
| "failovers h (Suc n) s =
     (let (s', r) = next_fallback_after_failure h None s in
      if r = Inl No_Fallback then [] else current_config s' # failovers h n s')"

lemma build_not_exhausted: "build_provider h c \<noteq> Inl No_Fallback"
  by (auto simp: build_provider_def Let_def rbind_Inl_iff split: option.splits)

lemma failover_step:
  assumes "sel_ok s" and "\<not> sel_replay_disabled s" and "drop (sel_index s + 1) (sel_chain s) = c # cs"
  shows "\<exists>s'. next_fallback_after_failure h None s = (s', build_provider h c) \<and> sel_ok s' \<and>
    \<not> sel_replay_disabled s' \<and> current_config s' = c \<and> drop (sel_index s' + 1) (sel_chain s') = cs"
  using assms by (simp add: next_fallback_after_failure_def failover_chain_def Let_def sel_ok_def current_config_def)

lemma failovers_remaining:
  assumes "sel_ok s" and "\<not> sel_replay_disabled s"
  shows "failovers h n s = take n (drop (sel_index s + 1) (sel_chain s))"
  using assms
proof (induction n arbitrary: s)
  case (Suc n)
  show ?case
  proof (cases "drop (sel_index s + 1) (sel_chain s)")
    case Nil
    then show ?thesis using Suc.prems by (simp add: next_fallback_after_failure_def failover_chain_def Let_def)
  next
    case (Cons c cs)
    obtain s' where s': "next_fallback_after_failure h None s = (s', build_provider h c)" "sel_ok s'"
        "\<not> sel_replay_disabled s'" "current_config s' = c" "drop (sel_index s' + 1) (sel_chain s') = cs"
      using failover_step [OF Suc.prems Cons] by blast
    have "failovers h (Suc n) s = c # failovers h n s'" using s'(1,4) build_not_exhausted by simp
    also have "failovers h n s' = take n cs" using Suc.IH [OF s'(2,3)] s'(5) by simp
    finally show ?thesis using Cons by simp
  qed
qed simp

theorem failover_tries_each_once:
  assumes "length (sel_chain (override_provider_config c s)) \<le> n" and "\<not> sel_replay_disabled s"
  shows "failovers h n (override_provider_config c s) = tl (sel_chain (override_provider_config c s)) \<and>
    distinct (map config_identity (c # failovers h n (override_provider_config c s))) \<and>
    (sel_chain s \<noteq> [] \<longrightarrow> config_identity ` set (c # failovers h n (override_provider_config c s)) =
       insert (config_identity c) (config_identity ` set (sel_chain s)))"
proof -
  let ?s = "override_provider_config c s"
  have chain: "sel_chain ?s = c # dedup_configs [c] (hd (sel_chain s) # tl (sel_chain s))" "sel_index ?s = 0"
      "\<not> sel_replay_disabled ?s"
    using assms(2) by (simp_all add: override_provider_config_def install_chain del: dedup_configs.simps)
  then have "sel_ok ?s" by (simp add: sel_ok_def)
  then have fail: "failovers h n ?s = tl (sel_chain ?s)"
    using failovers_remaining [OF _ chain(3)] chain(1,2) assms(1) by simp
  have "sel_chain ?s = c # failovers h n ?s" using fail chain(1) by simp
  moreover have "distinct (map config_identity (sel_chain ?s))"
      "config_identity ` set (sel_chain ?s) = insert (config_identity c) (config_identity ` set (hd (sel_chain s) # tl (sel_chain s)))"
    using install_identities [of c "hd (sel_chain s) # tl (sel_chain s)" s] assms(2)
    by (simp_all add: override_provider_config_def)
  ultimately show ?thesis using fail by (cases "sel_chain s") auto
qed

text \<open>After a second failover the head of the chain is no longer the primary, so a reset does not go back to it.\<close>

theorem reset_misses_primary:
  assumes "sel_chain s = a # b # c # cs" and "sel_index s = 0" and "\<not> sel_replay_disabled s"
  shows "current_config (reset (fst (next_fallback_after_failure h None (fst (next_fallback_after_failure h None s))))) = b"
  using assms by (simp add: next_fallback_after_failure_def failover_chain_def Let_def current_config_def reset_def)

text \<open>A fallback that differs from the override in its complete URL only is dropped.\<close>

theorem complete_url_ignored:
  assumes "sel_chain s = [c\<lparr>cfg_complete_url := u\<rparr>]" and "\<not> sel_replay_disabled s"
  shows "\<not> has_fallback (override_provider_config c s)"
proof -
  have "config_identity (c\<lparr>cfg_complete_url := u\<rparr>) = config_identity c" by (simp add: config_identity_def)
  then show ?thesis using assms by (simp add: has_fallback_def override_provider_config_def install_chain)
qed

end
