(* ===== verification/Provider_Recovery.thy ===== *)
theory Provider_Recovery
  imports Provider_Pool Provider_Selector
begin

text \<open>
  What an error of a provider leads to: the kind that the tables give it, whichever provider it
  comes from, and what that does to the health ledger. Then a worked example, with the
  properties of the provider theories applied to it.
\<close>

section \<open>Kinds that do not depend on the provider\<close>

lemma matches_rows [simp]:
  "matches (on_status k ns) s \<longleftrightarrow> (ns \<noteq> [] \<longrightarrow> (case sig_status s of None \<Rightarrow> False | Some n \<Rightarrow> n \<in> set ns))"
  "matches (on_raw k ws) s \<longleftrightarrow> (ws \<noteq> [] \<longrightarrow> sig_raw_code s \<in> set ws)"
  "matches (on_text k ws) s \<longleftrightarrow> (ws \<noteq> [] \<longrightarrow> list_ex (\<lambda>w. contains w (sig_text s)) ws)"
  "matches (on_pred k p) s \<longleftrightarrow> p s"
  "matches (row Model_Not_Found\<lparr>fm_all := ws\<rparr>) s \<longleftrightarrow> list_all (\<lambda>w. contains w (sig_text s)) ws"
  by (simp_all add: matches_def on_status_def on_raw_def on_text_def on_pred_def row_def split: option.split)

lemma row_kinds [simp]:
  "fm_kind (on_status k ns) = k" "fm_kind (on_raw k ws) = k" "fm_kind (on_text k ws) = k"
  "fm_kind (on_pred k p) = k" "fm_kind (row k\<lparr>fm_all := ws\<rparr>) = k"
  by (simp_all add: on_status_def on_raw_def on_text_def on_pred_def row_def)

lemma signal_simps [simp]:
  "sig_status (signal_of status raw message) = status"
  "sig_raw_code (signal_of status raw message) = py_lower (py_strip raw)"
  "sig_text (signal_of status raw message) = joined status raw message"
  by (simp_all add: signal_of_def)

definition billing_codes :: "string list" where
  "billing_codes = [''billing_hard_limit'', ''insufficient_quota'', ''provider_quota_exceeded'', ''usage_limit'',
     ''usage_limit_reached'', ''usage_limited'', ''ensemble_multimodal_unsupported'']"

definition overflow_words :: "string list" where
  "overflow_words = [''context length'', ''context window'', ''maximum context'', ''prompt is too long'',
     ''input is too long'', ''input exceeds'', ''provider_request_budget_exhausted'', ''too many tokens'']"

text \<open>A message about the context length leads to compaction, for every provider and every status but 402.\<close>

theorem overflow_compacts:
  assumes "status \<noteq> Some 402" and "py_lower (py_strip raw) \<notin> set billing_codes"
    and "w \<in> set overflow_words" and "contains w (joined status raw message)"
  shows "decide_recovery_action (classify_provider_error provider status raw message) = Compact_And_Retry"
proof -
  have "list_ex (\<lambda>w. contains w (joined status raw message)) overflow_words"
    using assms(3,4) by (auto simp: list_ex_iff)
  then have "classify_provider_error provider status raw message = Context_Overflow"
    using assms(1,2)
    by (simp add: classify_provider_error_def failure_rows_def shared_pre_def failure_table.classify_Cons
        billing_codes_def overflow_words_def split: option.split) fastforce
  then show ?thesis by (simp add: decide_recovery_action_def)
qed

text \<open>The phrases that a row before the one for status 429 looks for, in any family.\<close>

definition diverting_words :: "string list" where
  "diverting_words = overflow_words @
     [''content policy'', ''policy violation'', ''safety policy'', ''moderation'', ''refusal'', ''blocked by policy'',
      ''not_found_error'', ''no endpoints found'', ''model not found'', ''model is not available'',
      ''model not available'', ''not available in your region'', ''not available in the requested region'',
      ''model_not_available'', ''invalid api key'', ''unauthorized'', ''insufficient credits'', ''no credits'',
      ''authentication_error'', ''credit balance'', ''pull'', ''connection refused'', ''connection error'',
      ''request error'', ''timeout'']"

lemma plain_429:
  assumes "py_lower (py_strip raw) \<notin> set billing_codes"
    and "\<forall>w \<in> set diverting_words. \<not> contains w (joined (Some 429) raw message)"
    and "\<not> is_empty_response (signal_of (Some 429) raw message)"
  shows "classify_provider_error provider (Some 429) raw message = Rate_Limited"
proof -
  let ?s = "signal_of (Some 429) raw message"
  note words = assms(2) [unfolded diverting_words_def overflow_words_def]
  have pre: "\<forall>r \<in> set shared_pre. \<not> matches r ?s"
    using assms(1,3) words by (simp add: shared_pre_def billing_codes_def)
  have tail: "classify_rows shared_tail ?s = Rate_Limited"
    by (simp add: shared_tail_def failure_table.classify_Cons)
  have "classify_rows (family_rows f @ shared_tail) ?s = Rate_Limited" for f
    using words tail
    by (simp add: family_rows_def openai_rows_def anthropic_rows_def ollama_rows_def model_unavailable_def
        failure_table.classify_Cons gateway_status_codes_def)
  then show ?thesis
    using pre unfolding classify_provider_error_def failure_rows_def failure_table.classify_append by auto
qed

text \<open>
  From a plain 429 to the route: the deployment is benched at once, whatever its strikes, and
  as long as the provider asked within the ceiling; no other candidate is affected.
\<close>

text \<open>C27: A plain answer 429 (no billing code, no phrase that an earlier row of a table looks for)
  benches its deployment at once, for every provider and whatever strikes it has: routing
  refuses it until the time the provider asked for, within the ceiling, and keeps accepting
  another candidate that is not benched.\<close>

theorem rate_limit_response_benches:
  assumes "py_lower (py_strip raw) \<notin> set billing_codes"
    and "\<forall>w \<in> set diverting_words. \<not> contains w (joined (Some 429) raw message)"
    and "\<not> is_empty_response (signal_of (Some 429) raw message)"
    and "0 < wait" and "wait \<le> max_cooldown_s l" and "ts \<le> t" and "t < ts + wait"
    and "d' \<in> set candidates" and "bench_at t (deployment_key d') l = None" and "deployment_key d' \<noteq> deployment_key d"
  shows "\<not> snd (eligible d candidates t
      (fst (record_failure d (classify_provider_error provider (Some 429) raw message) (Some wait) ts l))) \<and>
    snd (eligible d' candidates t
      (fst (record_failure d (classify_provider_error provider (Some 429) raw message) (Some wait) ts l)))"
proof -
  let ?l = "fst (record_failure d Rate_Limited (Some wait) ts l)"
  have "cooldown_for l (Some wait) = wait" using assms(4,5) by (simp add: cooldown_for_def)
  then have "snd (is_benched d t (health_run ?l []))"
    using assms(6,7) by (intro rate_limited_until) simp_all
  then have "bench_at t (deployment_key d) ?l \<noteq> None" by (simp add: is_benched_iff)
  moreover have "bench_at t (deployment_key d') ?l = None"
    using assms(9,10) by (simp add: bench_at_def record_failure_other)
  ultimately show ?thesis
    using assms(8) unfolding plain_429 [OF assms(1-3)] eligible_iff by auto
qed

end
