(* ===== verification/Provider_Witnesses.thy ===== *)
theory Provider_Witnesses
  imports Provider_Recovery
begin

text \<open>
  A worked example for providers: a ledger with two deployments, a pool of two credentials and a
  selector with one configuration. The properties of the provider theories are applied to it.
\<close>

section \<open>The example\<close>

definition demo_ledger :: health_ledger where
  "demo_ledger = \<lparr>failure_threshold = 2, cooldown_s = 30, max_cooldown_s = 900, strikes = Map.empty,
     benched_until = Map.empty\<rparr>"

lemma demo_ledger_new: "new_ledger 2 30 900 = Inr demo_ledger"
  by (simp add: new_ledger_def demo_ledger_def ensure_def)

definition demo_credentials :: "rat \<Rightarrow> credential list" where
  "demo_credentials u =
     [\<lparr>cred_id = ''a'', cred_secret = ''k'', acquisitions = 0, parked_until = u\<rparr>,
      \<lparr>cred_id = ''b'', cred_secret = ''m'', acquisitions = 0, parked_until = 0\<rparr>]"

definition demo_pool :: "rat \<Rightarrow> credential_pool" where
  "demo_pool u = \<lparr>creds = demo_credentials u, cursor = 0\<rparr>"

definition demo_config :: provider_config where
  "demo_config = \<lparr>cfg_provider = ''lm_studio'', cfg_model = ''m'', cfg_api_key = [], cfg_base_url = [],
     cfg_complete_url = [], cfg_org_id = [], cfg_proxy = [], cfg_routing = [], cfg_replay = True, cfg_headers = []\<rparr>"

definition demo_selector :: selector where
  "demo_selector = new_selector demo_config [demo_config\<lparr>cfg_model := ''n''\<rparr>]"

definition no_host :: "string \<Rightarrow> string option" where
  "no_host url = None"

lemmas strip_simps = py_strip_def py_lstrip_def py_rstrip_def py_isspace_def py_lower_def lower_char_def code_def

lemma demo_keys: "deployment_key (''a'', ''m'') = (''a'', ''m'')" "deployment_key (''b'', ''m'') = (''b'', ''m'')"
  by (simp_all add: deployment_key_def strip_simps)

lemma demo_limits: "max_cooldown_s demo_ledger = 900" "bench_at t k demo_ledger = None"
  by (simp_all add: demo_ledger_def bench_at_def)

lemma demo_pool_ok: "pool_ok (demo_pool u)"
  by (simp add: pool_ok_def demo_pool_def demo_credentials_def)

lemma demo_names: "py_strip ''lm_studio'' = ''lm_studio''" "py_lower ''lm_studio'' = ''lm_studio''"
    "py_lower (py_strip ''busy'') = ''busy''" "py_strip [] = []" "py_lower [] = []"
  by (simp_all add: strip_simps)

lemma demo_spec: "get_provider_spec ''lm_studio'' =
    Some (spec ''lm_studio'' ''openai_compat'' ''lm_studio'' [] ''http://localhost:1234/v1'' ''openai_compat'' True)"
  by (simp add: get_provider_spec_def provider_specs_def specs_local_def spec_def)

definition demo_without_replay :: selector where
  "demo_without_replay = disable_provider_state_replay demo_selector"

lemma demo_resolved: "\<exists>ctx. resolve no_host demo_without_replay = Inr ctx"
  by (simp add: resolve_def is_configured_def config_usable_def build_provider_def demo_without_replay_def
      disable_provider_state_replay_def demo_selector_def new_selector_def current_config_def without_replay_def
      demo_config_def demo_spec demo_names spec_def credential_provider_hint_def endpoint_provider_hint_def key_with_prefix_def
      starts_with_def ensure_def requires_base_url_def requires_api_key_def context_of_def backend_factories_def Let_def)

section \<open>Health\<close>

lemma routing_never_stranded_witness:
  "\<exists>d \<in> set [(''a'', ''m'')]. snd (eligible d [(''a'', ''m'')] 5 demo_ledger)"
  using routing_never_stranded [of "[(''a'', ''m'')]" 5 demo_ledger] by blast

lemma deployments_independent_witness:
  "snd (is_benched (''a'', ''m'') 3 (health_run demo_ledger
      [Failed (''a'', ''m'') Rate_Limited None 1, Failed (''b'', ''m'') Rate_Limited None 2])) =
   snd (is_benched (''a'', ''m'') 3 (health_run demo_ledger [Failed (''a'', ''m'') Rate_Limited None 1]))"
  using deployments_independent [of 0 "[Failed (''a'', ''m'') Rate_Limited None 1, Failed (''b'', ''m'') Rate_Limited None 2]"
      3 "(''a'', ''m'')" demo_ledger]
  by (simp add: demo_keys not_after_def)

lemma threshold_benches_witness:
  "benched_until (health_run demo_ledger [Failed (''a'', ''m'') Empty_Response None 1, Failed (''a'', ''m'') Empty_Response None 2])
     (''a'', ''m'') = Some 32"
  using threshold_benches [of demo_ledger "(''a'', ''m'')" "[Failed (''a'', ''m'') Empty_Response None 1]" Empty_Response None 2]
  by (simp add: demo_keys plain_failure_def benchable_kinds_def demo_ledger_def cooldown_for_def)

lemma demo_bench:
  "benched_until (health_run demo_ledger [Failed (''a'', ''m'') Rate_Limited (Some 5000) 7]) (''a'', ''m'') = Some 907"
  by (simp add: record_failure_def demo_keys demo_ledger_def benchable_kinds_def expire_def cooldown_for_def Let_def)

lemma bench_is_bounded_witness:
  "\<exists>d kind r ts. Failed d kind r ts \<in> {Failed (''a'', ''m'') Rate_Limited (Some 5000) 7} \<and> ts \<le> 907 \<and> 907 \<le> ts + 900"
  using bench_is_bounded [OF demo_ledger_new, of "[Failed (''a'', ''m'') Rate_Limited (Some 5000) 7]" "(''a'', ''m'')"] demo_bench
  by auto

section \<open>Errors\<close>

lemma demo_chars: "char_of (52 :: nat) = CHR ''4''" "char_of (50 :: nat) = CHR ''2''" "char_of (57 :: nat) = CHR ''9''"
  by (simp_all add: char_of_def bit_0)

lemma demo_joined: "joined (Some 429) [] ''busy'' = ''429  busy''" "joined None [] ''too many tokens'' = ''  too many tokens''"
  by (simp_all add: joined_def status_text_def int_str_def nat_str.simps digit_char_def py_lower_def lower_char_def code_def
      demo_chars)

lemma overflow_compacts_witness:
  "decide_recovery_action (classify_provider_error ''ollama'' None [] ''too many tokens'') = Compact_And_Retry"
  by (rule overflow_compacts [of None "[]" "''too many tokens''"])
     (simp_all add: billing_codes_def overflow_words_def demo_joined demo_names starts_with_def)

lemma rate_limit_response_benches_witness:
  "\<not> snd (eligible (''a'', ''m'') [(''a'', ''m''), (''b'', ''m'')] 9
      (fst (record_failure (''a'', ''m'') (classify_provider_error ''ollama'' (Some 429) [] ''busy'') (Some 60) 1 demo_ledger)))"
  using rate_limit_response_benches [of "[]" "''busy''" 60 demo_ledger 1 9 "(''b'', ''m'')" "[(''a'', ''m''), (''b'', ''m'')]"
      "(''a'', ''m'')" "''ollama''"]
  by (simp add: billing_codes_def diverting_words_def overflow_words_def demo_joined demo_names starts_with_def
      is_empty_response_def signal_of_def demo_keys demo_limits)

section \<open>Credentials\<close>

lemma acquire_fails_iff_all_parked_witness: "\<not> (\<exists>e. acquire 5 (demo_pool 60) = Inl e)"
  unfolding acquire_fails_iff_all_parked [OF demo_pool_ok]
  by (simp add: demo_pool_def demo_credentials_def unparked_def)

lemma acquisitions_spread_evenly_witness:
  "\<exists>p cs. acquire_all [1, 2, 3] (demo_pool 0) = Inr (p, cs) \<and> balanced p \<and> total_uses p = 3"
  using acquisitions_spread_evenly [OF demo_pool_ok, of 0 0 "[1, 2, 3]"]
  by (auto simp: demo_pool_def demo_credentials_def balanced_def free_at_def total_uses_def)

lemma demo_report: "report_429 ''a'' 60 0 (demo_pool 0) = Inr (demo_pool 60)"
  by (simp add: report_429_def demo_pool_def demo_credentials_def ensure_def)

lemma demo_acquired: "\<exists>p c. acquire 5 (demo_pool 60) = Inr (p, c)"
proof -
  have "\<exists>c \<in> set (creds (demo_pool 60)). unparked 5 c" by (simp add: demo_pool_def demo_credentials_def unparked_def)
  then have "candidates_from 5 (demo_pool 60) = [(1, demo_credentials 60 ! 1)]"
    by (simp add: candidates_from_def demo_pool_def demo_credentials_def unparked_def)
  then show ?thesis by (simp add: acquire_def demo_pool_def demo_credentials_def Let_def)
qed

lemma parked_credential_rests_witness: "\<exists>p c. acquire 5 (demo_pool 60) = Inr (p, c) \<and> cred_id c \<noteq> ''a''"
proof -
  obtain p c where ac: "acquire 5 (foldl pool_step (demo_pool 60) []) = Inr (p, c)" using demo_acquired by auto
  have "distinct (map cred_id (creds (demo_pool 0)))" by (simp add: demo_pool_def demo_credentials_def)
  then have "cred_id c \<noteq> ''a''" by (rule parked_credential_rests [OF demo_pool_ok _ demo_report _ ac]) simp_all
  then show ?thesis using ac by auto
qed

section \<open>Selection\<close>

lemma replay_stays_disabled_witness: "\<exists>ctx. resolve no_host demo_without_replay = Inr ctx \<and> \<not> ctx_replay ctx"
proof -
  obtain ctx where r: "resolve no_host (selector_run no_host demo_without_replay []) = Inr ctx" using demo_resolved by auto
  have "sel_ok demo_selector" by (simp add: sel_ok_def demo_selector_def new_selector_def)
  then have "\<not> ctx_replay ctx" using r unfolding demo_without_replay_def by (rule replay_stays_disabled)
  then show ?thesis using r by auto
qed

lemma failover_tries_each_once_witness:
  "failovers no_host 3 (override_provider_config demo_config demo_selector) =
     tl (sel_chain (override_provider_config demo_config demo_selector))"
  using failover_tries_each_once [of demo_config demo_selector 3 no_host]
  by (simp add: demo_selector_def new_selector_def override_provider_config_def install_chain config_identity_def demo_config_def)

lemma reset_misses_primary_witness:
  "let s = new_selector demo_config [demo_config\<lparr>cfg_model := ''n''\<rparr>, demo_config\<lparr>cfg_model := ''o''\<rparr>] in
   cfg_model (current_config (reset (fst (next_fallback_after_failure no_host None
     (fst (next_fallback_after_failure no_host None s)))))) = ''n''"
  unfolding Let_def
  by (subst reset_misses_primary [where a = demo_config and b = "demo_config\<lparr>cfg_model := ''n''\<rparr>"
        and c = "demo_config\<lparr>cfg_model := ''o''\<rparr>" and cs = "[]"]) (simp_all add: new_selector_def)

lemma complete_url_ignored_witness:
  "\<not> has_fallback (override_provider_config demo_config (new_selector (demo_config\<lparr>cfg_complete_url := ''u''\<rparr>) []))"
  by (rule complete_url_ignored) (simp_all add: new_selector_def)

end
