(* ===== verification/Task_Runtime.thy ===== *)
theory Task_Runtime
  imports Complex_Main Session_Keys Session_Db
begin

text \<open>
  The task runtime of the gateway (\<open>src/src/openstarry_code/gateway/task_runtime.py\<close>): admission
  of tasks, the execution lock of a session, the global slots with their reserve for subagents
  and the rotation among sessions, cancellation, and settlement.

  The event loop runs one coroutine at a time and switches at suspensions only, and no lock of
  the runtime but those named below is held across a suspension. So an operation here is the
  code between two suspensions; a driver (the coroutine \<open>_execute\<close> of a task) remembers in its
  \<open>stage\<close> where it is suspended. A wakeup of a condition is a step that may be taken at any time:
  it re-checks its predicate. Left out are envelopes and transcripts, storage, events other than
  the terminal one, metrics, the content of steers, and shutdown.
\<close>

section \<open>Tasks and their drivers\<close>

datatype stage =
    Absent | No_Driver | New | At_Lock | At_Gate | At_Fair | Claimed | In_Turn | Closing task_status | Ended

record rtask =
  q_session :: string
  q_agent :: string
  q_subagent :: bool
  q_mode :: string
  q_message :: string
  q_status :: task_status
  q_started :: bool
  q_cancel :: bool
  q_dropped :: bool
  q_source :: "string option"
  q_settling :: bool
  q_settled :: bool
  q_slot :: bool
  q_collecting :: bool
  q_steering :: bool
  q_kill :: bool
  q_stage :: stage

text \<open>
  \<open>q_kill\<close>: the driver's cancellation is requested and not delivered. \<open>q_collecting\<close> and
  \<open>q_steering\<close>: another coroutine holds the task's collect claim, its steer claim.
\<close>

definition over :: "task_status \<Rightarrow> bool" where
  "over st = (st \<in> {Succeeded, Failed, Cancelled, Timeout, Abandoned})"

definition terminal_closing :: "rtask \<Rightarrow> bool" where
  "terminal_closing t = (q_settling t \<or> q_settled t)"

record task_reservation =
  tr_victim :: "string option"
  tr_activated :: bool
  tr_aborted :: bool

record task_runtime =
  rt_max :: nat
  rt_max_pending :: "nat option"
  rt_reserved_slots :: nat
  rt_drop_oldest :: bool
  rt_task :: "string \<Rightarrow> rtask"
  rt_resv :: "string \<rightharpoonup> task_reservation"
  rt_tasks :: "string list"
  rt_pending :: "string \<Rightarrow> string list"
  rt_running :: "string \<rightharpoonup> string"
  rt_reservations :: "string \<Rightarrow> string list"
  rt_victims :: "string set"
  rt_rr :: "string \<Rightarrow> string list"
  rt_active :: "string \<Rightarrow> string set"
  rt_waiters :: "string \<Rightarrow> string set"
  rt_in_flight :: nat
  rt_sub_in_flight :: nat
  rt_agent_in_flight :: "string \<Rightarrow> nat"
  rt_holder :: "string \<rightharpoonup> string"
  rt_queue :: "string \<Rightarrow> string list"
  rt_cancels :: "(string list \<times> string list) list"
  rt_owed :: "string list"
  rt_events :: "(string \<times> task_status) list"

text \<open>
  \<open>rt_holder\<close> and \<open>rt_queue\<close>: the execution lock of a session and who waits for it. \<open>rt_cancels\<close>:
  cancellations between their marking and their signalling, with the tasks they settle themselves.
  \<open>rt_owed\<close>: tasks that a coroutine other than their driver is about to settle as cancelled.
  \<open>rt_events\<close>: the terminal events in the order of their emission, the latest first.
\<close>

datatype runtime_error =
  Runtime_Value string | Queue_Full string nat | Aborted_Reservation | Unknown_Reservation

definition blank_task :: rtask where
  "blank_task = \<lparr>q_session = [], q_agent = [], q_subagent = False, q_mode = [], q_message = [],
     q_status = Queued, q_started = False, q_cancel = False, q_dropped = False, q_source = None,
     q_settling = False, q_settled = False, q_slot = False, q_collecting = False, q_steering = False,
     q_kill = False, q_stage = Absent\<rparr>"

definition overflow_policy :: "string \<Rightarrow> string \<Rightarrow> runtime_error + bool" where
  "overflow_policy name value =
     (if value = ''reject_newest'' then Inr False
      else if value = ''drop_oldest'' then Inr True
      else Inl (Runtime_Value (name @ '' must be one of {reject_newest, drop_oldest}'')))"

definition new_runtime ::
    "int \<Rightarrow> int option \<Rightarrow> int \<Rightarrow> rat option \<Rightarrow> rat option \<Rightarrow> string \<Rightarrow> runtime_error + task_runtime" where
  "new_runtime max_concurrency max_pending reserved deadline heartbeat policy =
     rbind (ensure (1 \<le> max_concurrency) (Runtime_Value ''max_concurrency must be >= 1'')) (\<lambda>_.
     rbind (ensure (case max_pending of None \<Rightarrow> True | Some n \<Rightarrow> 1 \<le> n)
              (Runtime_Value ''max_pending_per_session must be >= 1'')) (\<lambda>_.
     rbind (ensure (0 \<le> reserved) (Runtime_Value ''subagent_reserved_slots must be >= 0'')) (\<lambda>_.
     rbind (ensure (case deadline of None \<Rightarrow> True | Some d \<Rightarrow> 0 < d)
              (Runtime_Value ''turn_hard_deadline_s must be > 0 or None'')) (\<lambda>_.
     rbind (ensure (case heartbeat of None \<Rightarrow> True | Some d \<Rightarrow> 0 < d)
              (Runtime_Value ''running_heartbeat_interval_s must be > 0 or None'')) (\<lambda>_.
     rbind (overflow_policy ''pending_overflow_policy'' policy) (\<lambda>drop.
     Inr \<lparr>rt_max = nat max_concurrency, rt_max_pending = map_option nat max_pending,
          rt_reserved_slots = nat (if max_concurrency \<le> reserved then max 0 (max_concurrency - 1) else reserved),
          rt_drop_oldest = drop, rt_task = (\<lambda>_. blank_task), rt_resv = Map.empty, rt_tasks = [],
          rt_pending = (\<lambda>_. []), rt_running = Map.empty, rt_reservations = (\<lambda>_. []), rt_victims = {},
          rt_rr = (\<lambda>_. []), rt_active = (\<lambda>_. {}), rt_waiters = (\<lambda>_. {}), rt_in_flight = 0,
          rt_sub_in_flight = 0, rt_agent_in_flight = (\<lambda>_. 0), rt_holder = Map.empty, rt_queue = (\<lambda>_. []),
          rt_cancels = [], rt_owed = [], rt_events = []\<rparr>))))))"

definition change :: "string \<Rightarrow> (rtask \<Rightarrow> rtask) \<Rightarrow> task_runtime \<Rightarrow> task_runtime" where
  "change i f s = s\<lparr>rt_task := (rt_task s)(i := f (rt_task s i))\<rparr>"

definition goto :: "string \<Rightarrow> stage \<Rightarrow> task_runtime \<Rightarrow> task_runtime" where
  "goto i st = change i (\<lambda>t. t\<lparr>q_stage := st\<rparr>)"

section \<open>Admission\<close>

text \<open>\<open>_clean_cancel_detail\<close>.\<close>

definition clean_cancel_detail :: "string option \<Rightarrow> string \<Rightarrow> string" where
  "clean_cancel_detail value dflt =
     (let text = py_strip (case value of None \<Rightarrow> [] | Some v \<Rightarrow> v) in
      if text = [] then dflt
      else
        (let safe = map (\<lambda>c. if word_char c \<or> c \<in> {CHR ''-'', CHR ''.'', CHR '':''} then c else CHR ''_'') text;
             bare = rev (dropWhile (\<lambda>c. c = CHR ''_'') (rev (dropWhile (\<lambda>c. c = CHR ''_'') safe)))
         in take 80 (if bare = [] then dflt else bare)))"

definition admit ::
    "string \<Rightarrow> string \<Rightarrow> string \<Rightarrow> bool \<Rightarrow> string \<Rightarrow> string \<Rightarrow> string option \<Rightarrow> task_runtime \<Rightarrow> task_runtime" where
  "admit i session agent subagent mode message victim s =
     change i (\<lambda>_. blank_task\<lparr>q_session := session, q_agent := agent, q_subagent := subagent, q_mode := mode,
         q_message := message, q_stage := No_Driver\<rparr>)
       (s\<lparr>rt_resv := (rt_resv s)(i \<mapsto> \<lparr>tr_victim = victim, tr_activated = False, tr_aborted = False\<rparr>),
          rt_reservations := (rt_reservations s)(session := rt_reservations s session @ [i])\<rparr>)"

definition reserve ::
    "string \<Rightarrow> string \<Rightarrow> string \<Rightarrow> bool \<Rightarrow> string option \<Rightarrow> string \<Rightarrow> string option \<Rightarrow> bool \<Rightarrow> task_runtime \<Rightarrow>
     runtime_error + task_runtime" where
  "reserve i session_key agent_id subagent mode message policy bypass s =
     (let session = canonicalize_session_key (Some session_key);
          agent = normalize_agent_id (Some agent_id);
          queue_mode = (case mode of None \<Rightarrow> ''followup'' | Some m \<Rightarrow> if m = [] then ''followup'' else m);
          pending = filter (\<lambda>j. j \<notin> rt_victims s) (rt_pending s session)
      in rbind (case policy of None \<Rightarrow> Inr (rt_drop_oldest s) | Some p \<Rightarrow> overflow_policy ''overflow_policy'' p) (\<lambda>drop.
         case rt_max_pending s of
           None \<Rightarrow> Inr (admit i session agent subagent queue_mode message None s)
         | Some limit \<Rightarrow>
             if bypass \<or> queue_mode \<in> {''steer'', ''interrupt''} \<or>
                length pending + length (rt_reservations s session) < limit
             then Inr (admit i session agent subagent queue_mode message None s)
             else (case (if drop then find (\<lambda>j. q_status (rt_task s j) = Queued) pending else None) of
                     None \<Rightarrow> Inl (Queue_Full session limit)
                   | Some v \<Rightarrow> Inr (admit i session agent subagent queue_mode message (Some v)
                                    (s\<lparr>rt_victims := insert v (rt_victims s)\<rparr>)))))"

definition drop_reservation :: "string \<Rightarrow> task_runtime \<Rightarrow> task_runtime" where
  "drop_reservation i s =
     (let session = q_session (rt_task s i) in
      s\<lparr>rt_reservations := (rt_reservations s)(session := remove1 i (rt_reservations s session))\<rparr>)"

definition abort_reservation :: "string \<Rightarrow> task_runtime \<Rightarrow> task_runtime" where
  "abort_reservation i s =
     (case rt_resv s i of
        None \<Rightarrow> s
      | Some r \<Rightarrow>
          if tr_activated r \<or> tr_aborted r then s
          else
            (drop_reservation i s)\<lparr>
              rt_victims := (case tr_victim r of None \<Rightarrow> rt_victims s | Some v \<Rightarrow> rt_victims s - {v}),
              rt_resv := (rt_resv s)(i \<mapsto> r\<lparr>tr_aborted := True\<rparr>)\<rparr>)"

text \<open>A cancellation request to the driver, if it has not returned.\<close>

definition kill :: "rtask \<Rightarrow> rtask" where
  "kill t = (if q_stage t \<in> {Absent, No_Driver, Ended} then t else t\<lparr>q_kill := True\<rparr>)"

text \<open>Steer and interrupt: every unfinished task of the session is to be cancelled.\<close>

definition interrupt :: "string \<Rightarrow> string \<Rightarrow> task_runtime \<Rightarrow> task_runtime" where
  "interrupt session mode s =
     s\<lparr>rt_task := (\<lambda>j. let t = rt_task s j in
         if j \<in> set (rt_tasks s) \<and> q_session t = session \<and> \<not> over (q_status t)
         then kill (t\<lparr>q_cancel := True, q_source := Some (''queue_'' @ mode)\<rparr>) else t)\<rparr>"

definition evict :: "string \<Rightarrow> task_runtime \<Rightarrow> task_runtime" where
  "evict v s =
     (let s' = change v (\<lambda>t. kill (t\<lparr>q_cancel := True, q_dropped := True, q_source := Some ''queue_overflow''\<rparr>)) s
      in s'\<lparr>rt_owed := rt_owed s @ [v]\<rparr>)"

text \<open>The victim of a reservation, if it still waits, when the reservation is activated.\<close>

definition take_victim :: "task_reservation \<Rightarrow> string \<Rightarrow> task_runtime \<Rightarrow> task_runtime" where
  "take_victim r session s =
     (case tr_victim r of
        None \<Rightarrow> s
      | Some v \<Rightarrow>
          (let s' = s\<lparr>rt_victims := rt_victims s - {v}\<rparr>
           in if q_status (rt_task s v) \<noteq> Queued \<or> v \<notin> set (rt_pending s session) then s' else evict v s'))"

definition enrol :: "string \<Rightarrow> task_runtime \<Rightarrow> task_runtime" where
  "enrol i s =
     (let t = rt_task s i; session = q_session t; agent = q_agent t;
          s' = s\<lparr>rt_tasks := rt_tasks s @ [i],
                 rt_pending := (rt_pending s)(session := rt_pending s session @ [i])\<rparr>
      in goto i New
           (if session \<in> rt_active s agent then s'
            else s'\<lparr>rt_active := (rt_active s)(agent := insert session (rt_active s agent)),
                    rt_rr := (rt_rr s)(agent := rt_rr s agent @ [session])\<rparr>))"

definition activate :: "string \<Rightarrow> task_runtime \<Rightarrow> runtime_error + task_runtime" where
  "activate i s =
     (case rt_resv s i of
        None \<Rightarrow> Inl Unknown_Reservation
      | Some r \<Rightarrow>
          (let t = rt_task s i; session = q_session t in
           if tr_aborted r then Inl Aborted_Reservation
           else if tr_activated r then Inr s
           else if i \<notin> set (rt_reservations s session) then Inl Unknown_Reservation
           else
             (let s1 = drop_reservation i s;
                  s2 = (if q_mode t \<in> {''steer'', ''interrupt''} then interrupt session (q_mode t) s1 else s1);
                  s3 = enrol i (take_victim r session s2)
              in Inr (s3\<lparr>rt_resv := (rt_resv s)(i \<mapsto> r\<lparr>tr_activated := True\<rparr>)\<rparr>))))"

section \<open>Slots\<close>

text \<open>Rotation of the sessions past one of them.\<close>

definition rotate_past :: "string \<Rightarrow> string list \<Rightarrow> string list" where
  "rotate_past x xs =
     (if x \<in> set xs then tl (dropWhile (\<lambda>y. y \<noteq> x) xs) @ takeWhile (\<lambda>y. y \<noteq> x) xs @ [x] else xs)"

text \<open>The predicate of \<open>_acquire_fair_slot\<close> for a session that is among the waiters.\<close>

definition may_take_slot :: "string \<Rightarrow> string \<Rightarrow> task_runtime \<Rightarrow> bool" where
  "may_take_slot agent session s =
     (rt_in_flight s < rt_max s \<and>
      \<not> (rt_max s - rt_in_flight s = 1 \<and>
         find (\<lambda>x. x \<in> rt_waiters s agent) (rt_rr s agent) \<noteq> Some session))"

definition grant_slot :: "string \<Rightarrow> task_runtime \<Rightarrow> task_runtime" where
  "grant_slot i s =
     (let t = rt_task s i; agent = q_agent t; session = q_session t
      in change i (\<lambda>t. t\<lparr>q_slot := True, q_stage := Claimed\<rparr>)
           (s\<lparr>rt_rr := (rt_rr s)(agent := rotate_past session (rt_rr s agent)),
              rt_in_flight := rt_in_flight s + 1,
              rt_sub_in_flight := rt_sub_in_flight s + (if q_subagent t then 1 else 0),
              rt_agent_in_flight := (rt_agent_in_flight s)(agent := rt_agent_in_flight s agent + 1),
              rt_waiters := (rt_waiters s)(agent := rt_waiters s agent - {session})\<rparr>))"

definition try_slot :: "string \<Rightarrow> task_runtime \<Rightarrow> task_runtime" where
  "try_slot i s =
     (let t = rt_task s i; agent = q_agent t; session = q_session t;
          s' = s\<lparr>rt_waiters := (rt_waiters s)(agent := insert session (rt_waiters s agent))\<rparr>
      in if may_take_slot agent session s' then grant_slot i s' else goto i At_Fair s')"

text \<open>\<open>_wait_for_subagent_slot\<close>; a driver that passes goes on without a suspension.\<close>

definition gate_closed :: "string \<Rightarrow> task_runtime \<Rightarrow> bool" where
  "gate_closed i s =
     (q_subagent (rt_task s i) \<and> 0 < rt_reserved_slots s \<and> rt_max s - rt_in_flight s \<le> rt_reserved_slots s)"

definition try_gate :: "string \<Rightarrow> task_runtime \<Rightarrow> task_runtime" where
  "try_gate i s = (if gate_closed i s then goto i At_Gate s else try_slot i s)"

definition release_slot :: "string \<Rightarrow> task_runtime \<Rightarrow> task_runtime" where
  "release_slot i s =
     (let t = rt_task s i in
      if q_slot t
      then change i (\<lambda>t. t\<lparr>q_slot := False\<rparr>)
             (s\<lparr>rt_in_flight := rt_in_flight s - 1,
                rt_sub_in_flight := rt_sub_in_flight s - (if q_subagent t then 1 else 0),
                rt_agent_in_flight := (rt_agent_in_flight s)(q_agent t := rt_agent_in_flight s (q_agent t) - 1)\<rparr>)
      else s)"

section \<open>The driver\<close>

text \<open>With the execution lock held.\<close>

definition enter :: "string \<Rightarrow> task_runtime \<Rightarrow> task_runtime" where
  "enter i s =
     (let s' = s\<lparr>rt_holder := (rt_holder s)(q_session (rt_task s i) \<mapsto> i)\<rparr>
      in if q_cancel (rt_task s i) then goto i (Closing Cancelled) s' else try_gate i s')"

definition start_driver :: "string \<Rightarrow> task_runtime \<Rightarrow> task_runtime" where
  "start_driver i s0 =
     (let s = change i (\<lambda>t. t\<lparr>q_started := True\<rparr>) s0; session = q_session (rt_task s i)
      in if rt_holder s session = None \<and> rt_queue s session = [] then enter i s
         else goto i At_Lock (s\<lparr>rt_queue := (rt_queue s)(session := rt_queue s session @ [i])\<rparr>))"

definition take_lock :: "string \<Rightarrow> task_runtime \<Rightarrow> task_runtime" where
  "take_lock i s =
     (let session = q_session (rt_task s i)
      in enter i (s\<lparr>rt_queue := (rt_queue s)(session := tl (rt_queue s session))\<rparr>))"

definition unlock :: "string \<Rightarrow> task_runtime \<Rightarrow> task_runtime" where
  "unlock i s =
     (let session = q_session (rt_task s i)
      in if rt_holder s session = Some i then s\<lparr>rt_holder := (rt_holder s)(session := None)\<rparr> else s)"

text \<open>\<open>except CancelledError\<close> of \<open>_execute\<close>: slot and lock are given back, the status is closed.\<close>

definition cancelled_exit :: "string \<Rightarrow> task_runtime \<Rightarrow> task_runtime" where
  "cancelled_exit i s0 =
     (let s = unlock i (release_slot i s0);
          st = (if q_source (rt_task s i) = Some ''gateway_shutdown_timeout'' then Abandoned else Cancelled)
      in change i (\<lambda>t. (if terminal_closing t then t else t\<lparr>q_status := st\<rparr>)\<lparr>q_stage := Closing st\<rparr>) s)"

definition remove_pending :: "string \<Rightarrow> task_runtime \<Rightarrow> task_runtime" where
  "remove_pending i s =
     (let session = q_session (rt_task s i)
      in s\<lparr>rt_pending := (rt_pending s)(session := remove1 i (rt_pending s session))\<rparr>)"

definition mark_running :: "string \<Rightarrow> task_runtime \<Rightarrow> task_runtime" where
  "mark_running i s =
     (let t = rt_task s i in
      if terminal_closing t \<or> over (q_status t) \<or> q_cancel t then cancelled_exit i s
      else change i (\<lambda>t. t\<lparr>q_status := Running, q_stage := In_Turn\<rparr>)
             ((remove_pending i s)\<lparr>rt_running := (rt_running s)(q_session t \<mapsto> i)\<rparr>))"

text \<open>The turn returned, or raised with the status that its exception stands for.\<close>

definition finish_turn :: "string \<Rightarrow> task_status \<Rightarrow> task_runtime \<Rightarrow> task_runtime" where
  "finish_turn i st s =
     goto i (Closing st) (if st = Succeeded then release_slot i s else unlock i (release_slot i s))"

text \<open>
  The delivery of a cancellation. A driver that has not taken its first step never enters
  \<open>_execute\<close>; one that is already in a handler, outside the lock, leaves it.
\<close>

definition deliver_cancel :: "string \<Rightarrow> task_runtime \<Rightarrow> task_runtime" where
  "deliver_cancel i s0 =
     (let s = change i (\<lambda>t. t\<lparr>q_kill := False\<rparr>) s0; t = rt_task s i; session = q_session t
      in case q_stage t of
           New \<Rightarrow> goto i Ended s
         | At_Lock \<Rightarrow> cancelled_exit i (s\<lparr>rt_queue := (rt_queue s)(session := remove1 i (rt_queue s session))\<rparr>)
         | At_Gate \<Rightarrow> cancelled_exit i s
         | At_Fair \<Rightarrow>
             cancelled_exit i (s\<lparr>rt_waiters := (rt_waiters s)(q_agent t := rt_waiters s (q_agent t) - {session})\<rparr>)
         | Claimed \<Rightarrow> cancelled_exit i s
         | In_Turn \<Rightarrow> cancelled_exit i s
         | Closing st \<Rightarrow> if rt_holder s session = Some i then cancelled_exit i s else goto i Ended s
         | _ \<Rightarrow> s)"

section \<open>Settlement\<close>

text \<open>\<open>_mark_terminal_claimed\<close> up to its first suspension; it returns at once when another was first.\<close>

definition begin_terminal :: "string \<Rightarrow> task_status \<Rightarrow> task_runtime \<Rightarrow> task_runtime" where
  "begin_terminal i st s =
     (if terminal_closing (rt_task s i) then s
      else change i (\<lambda>t. t\<lparr>q_settling := True, q_status := st\<rparr>) s)"

text \<open>
  The terminal event and the removal from the runtime's books. The event is left out (\<open>announced\<close>
  is false) when the settlement is interrupted before it: the books are cleared in a \<open>finally\<close>.
\<close>

definition leave_lane :: "string \<Rightarrow> task_runtime \<Rightarrow> task_runtime" where
  "leave_lane i s =
     (let session = q_session (rt_task s i); agent = q_agent (rt_task s i)
      in if rt_pending s session = [] \<and> rt_running s session = None
         then s\<lparr>rt_active := (rt_active s)(agent := rt_active s agent - {session}),
                rt_rr := (rt_rr s)(agent := (if rt_active s agent - {session} = {} then []
                                              else remove1 session (rt_rr s agent)))\<rparr>
         else s)"

definition clear_running :: "string \<Rightarrow> task_runtime \<Rightarrow> task_runtime" where
  "clear_running i s =
     (let session = q_session (rt_task s i)
      in if rt_running s session = Some i then s\<lparr>rt_running := (rt_running s)(session := None)\<rparr> else s)"

definition end_terminal :: "bool \<Rightarrow> string \<Rightarrow> task_runtime \<Rightarrow> task_runtime" where
  "end_terminal announced i s =
     (let s1 = change i (\<lambda>t. t\<lparr>q_settling := False, q_settled := True\<rparr>) s;
          s2 = leave_lane i (clear_running i (remove_pending i s1))
      in s2\<lparr>rt_tasks := remove1 i (rt_tasks s2), rt_events := (if announced then [(i, q_status (rt_task s2 i))] else []) @ rt_events s2\<rparr>)"

section \<open>Cancellation and collection\<close>

text \<open>\<open>cancel\<close>: which tasks, and their marking; the steer claims are held until the signal.\<close>

definition cancel_candidates ::
    "string option \<Rightarrow> string option \<Rightarrow> task_runtime \<Rightarrow> runtime_error + string list" where
  "cancel_candidates task_id session_key s =
     rbind (ensure (task_id \<noteq> None \<or> session_key \<noteq> None) (Runtime_Value ''task_id or session_key is required'')) (\<lambda>_.
     Inr (filter (\<lambda>i. (case task_id of None \<Rightarrow> True | Some k \<Rightarrow> i = k) \<and>
        (case session_key of None \<Rightarrow> True | Some k \<Rightarrow> q_session (rt_task s i) = canonicalize_session_key (Some k)))
       (rt_tasks s)))"

definition mark_cancelled :: "string list \<Rightarrow> string option \<Rightarrow> task_runtime \<Rightarrow> task_runtime" where
  "mark_cancelled candidates source s =
     (let chosen = filter (\<lambda>i. i \<in> set (rt_tasks s) \<and> \<not> over (q_status (rt_task s i))) candidates;
          queued = filter (\<lambda>i. q_status (rt_task s i) = Queued \<and> \<not> q_started (rt_task s i)) chosen
      in s\<lparr>rt_task := (\<lambda>i. let t = rt_task s i in
             if i \<in> set chosen
             then t\<lparr>q_cancel := True, q_source := Some (clean_cancel_detail source ''unknown''), q_steering := True\<rparr>
             else t),
           rt_cancels := rt_cancels s @ [(chosen, queued)]\<rparr>)"

text \<open>Of the cancellations that wait for their signal, any one may be the next.\<close>

definition signal_cancelled :: "nat \<Rightarrow> task_runtime \<Rightarrow> task_runtime" where
  "signal_cancelled k s =
     (case drop k (rt_cancels s) of
        [] \<Rightarrow> s
      | (chosen, queued) # rest \<Rightarrow>
          s\<lparr>rt_task := (\<lambda>i. if i \<in> set chosen then (kill (rt_task s i))\<lparr>q_steering := False\<rparr> else rt_task s i),
            rt_cancels := take k (rt_cancels s) @ rest, rt_owed := rt_owed s @ queued\<rparr>)"

text \<open>A message is added to the last queued task of the session that collects.\<close>

definition collectable :: "string \<Rightarrow> string \<Rightarrow> task_runtime \<Rightarrow> bool" where
  "collectable session i s =
     (i \<in> set (rt_pending s session) \<and> q_mode (rt_task s i) = ''collect'' \<and> q_status (rt_task s i) = Queued)"

definition collect_candidate :: "string \<Rightarrow> task_runtime \<Rightarrow> string option" where
  "collect_candidate session_key s =
     (let session = canonicalize_session_key (Some session_key)
      in find (\<lambda>i. collectable session i s) (rev (rt_pending s session)))"

definition collect_begin :: "string \<Rightarrow> task_runtime \<Rightarrow> task_runtime" where
  "collect_begin i s =
     (if collectable (q_session (rt_task s i)) i s then change i (\<lambda>t. t\<lparr>q_collecting := True\<rparr>) s else s)"

text \<open>\<open>None\<close>: the message was not persisted.\<close>

definition collect_end :: "string \<Rightarrow> string option \<Rightarrow> task_runtime \<Rightarrow> task_runtime" where
  "collect_end i message =
     change i (\<lambda>t. (case message of None \<Rightarrow> t | Some m \<Rightarrow> t\<lparr>q_message := q_message t @ [CHR 0x0A] @ m\<rparr>)
                    \<lparr>q_collecting := False\<rparr>)"

section \<open>Steps\<close>

text \<open>
  \<open>_mark_terminal\<close> holds both claims of its task until it has settled it, so nothing that needs a
  claim happens to a task that is settling.
\<close>

definition unclaimed :: "rtask \<Rightarrow> bool" where
  "unclaimed t = (\<not> q_collecting t \<and> \<not> q_steering t \<and> \<not> q_settling t)"

inductive runtime_step :: "task_runtime \<Rightarrow> task_runtime \<Rightarrow> bool" where
  Reserve: "q_stage (rt_task s i) = Absent \<Longrightarrow> reserve i k a sub mode m policy bypass s = Inr s' \<Longrightarrow> runtime_step s s'"
| Abort: "runtime_step s (abort_reservation i s)"
| Activate: "activate i s = Inr s' \<Longrightarrow> runtime_step s s'"
| Start: "q_stage (rt_task s i) = New \<Longrightarrow> \<not> q_kill (rt_task s i) \<Longrightarrow> runtime_step s (start_driver i s)"
| Take_Lock: "q_stage (rt_task s i) = At_Lock \<Longrightarrow> \<not> q_kill (rt_task s i) \<Longrightarrow>
    rt_holder s (q_session (rt_task s i)) = None \<Longrightarrow> rt_queue s (q_session (rt_task s i)) = i # rest \<Longrightarrow>
    runtime_step s (take_lock i s)"
| Wake_Gate: "q_stage (rt_task s i) = At_Gate \<Longrightarrow> \<not> q_kill (rt_task s i) \<Longrightarrow> runtime_step s (try_gate i s)"
| Wake_Fair: "q_stage (rt_task s i) = At_Fair \<Longrightarrow> \<not> q_kill (rt_task s i) \<Longrightarrow> runtime_step s (try_slot i s)"
| Run: "q_stage (rt_task s i) = Claimed \<Longrightarrow> \<not> q_kill (rt_task s i) \<Longrightarrow> \<not> q_collecting (rt_task s i) \<Longrightarrow>
    \<not> q_settling (rt_task s i) \<Longrightarrow> runtime_step s (mark_running i s)"
| Refuse: "q_stage (rt_task s i) = Claimed \<Longrightarrow> \<not> q_kill (rt_task s i) \<Longrightarrow> runtime_step s (finish_turn i Failed s)"
| Finish: "q_stage (rt_task s i) = In_Turn \<Longrightarrow> \<not> q_kill (rt_task s i) \<Longrightarrow> st \<in> {Succeeded, Failed, Timeout} \<Longrightarrow>
    runtime_step s (finish_turn i st s)"
| Deliver: "q_kill (rt_task s i) \<Longrightarrow> runtime_step s (deliver_cancel i s)"
| Settle_Own: "q_stage (rt_task s i) = Closing st \<Longrightarrow> \<not> q_kill (rt_task s i) \<Longrightarrow> unclaimed (rt_task s i) \<Longrightarrow>
    runtime_step s (begin_terminal i st s)"
| Settle_Owed: "i \<in> set (rt_owed s) \<Longrightarrow> unclaimed (rt_task s i) \<Longrightarrow>
    runtime_step s ((begin_terminal i Cancelled s)\<lparr>rt_owed := remove1 i (rt_owed s)\<rparr>)"
| Settled: "q_settling (rt_task s i) \<Longrightarrow> runtime_step s (end_terminal announced i s)"
| Return: "q_stage (rt_task s i) = Closing st \<Longrightarrow> \<not> q_kill (rt_task s i) \<Longrightarrow> q_settled (rt_task s i) \<Longrightarrow>
    runtime_step s (goto i Ended (unlock i s))"
| Cancel: "\<forall>i \<in> set candidates. i \<in> set (rt_tasks s) \<and> \<not> q_steering (rt_task s i) \<and> \<not> q_settling (rt_task s i) \<Longrightarrow>
    runtime_step s (mark_cancelled candidates source s)"
| Signal: "runtime_step s (signal_cancelled k s)"
| Collect: "\<not> q_collecting (rt_task s i) \<Longrightarrow> \<not> q_settling (rt_task s i) \<Longrightarrow> runtime_step s (collect_begin i s)"
| Collected: "q_collecting (rt_task s i) \<Longrightarrow> runtime_step s (collect_end i message s)"

abbreviation runtime_run :: "task_runtime \<Rightarrow> task_runtime \<Rightarrow> bool" where
  "runtime_run \<equiv> runtime_step\<^sup>*\<^sup>*"

end
