(* ===== verification/Task_Steps.thy ===== *)
theory Task_Steps
  imports Task_Runtime
begin

text \<open>
  What the operations of the task runtime change and what they leave alone: the lane of a
  session (its lock and the drivers around it), the state of one task, and the books of
  admission. \<open>Task_Safety\<close> puts these together.
\<close>

section \<open>What the operations do to a task\<close>

lemmas op_defs = change_def goto_def Let_def

lemma comp_upd [simp]: "f \<circ> g(i := x) = (f \<circ> g)(i := f x)"
  by (rule fun_upd_comp)

lemma comp_upd_same [simp]: "f (g i) = v \<Longrightarrow> (f \<circ> g)(i := v) = f \<circ> g"
  by (rule ext) simp

lemma kill_simps [simp]:
  "q_stage (kill t) = q_stage t" "q_session (kill t) = q_session t" "q_agent (kill t) = q_agent t"
  "q_slot (kill t) = q_slot t" "q_subagent (kill t) = q_subagent t" "q_status (kill t) = q_status t"
  "q_settling (kill t) = q_settling t" "q_settled (kill t) = q_settled t" "q_collecting (kill t) = q_collecting t"
  "q_message (kill t) = q_message t" "q_mode (kill t) = q_mode t" "q_started (kill t) = q_started t"
  by (simp_all add: kill_def)

definition exit_task :: "rtask \<Rightarrow> rtask" where
  "exit_task t =
     (let st = (if q_source t = Some ''gateway_shutdown_timeout'' then Abandoned else Cancelled);
          t' = t\<lparr>q_slot := False\<rparr>
      in (if terminal_closing t then t' else t'\<lparr>q_status := st\<rparr>)\<lparr>q_stage := Closing st\<rparr>)"

definition slot_task :: "bool \<Rightarrow> rtask \<Rightarrow> rtask" where
  "slot_task granted t = (if granted then t\<lparr>q_slot := True, q_stage := Claimed\<rparr> else t\<lparr>q_stage := At_Fair\<rparr>)"

lemma no_slot: "\<not> q_slot t \<Longrightarrow> t\<lparr>q_slot := False\<rparr> = t"
  by (cases t) simp

definition slot_free :: "string \<Rightarrow> task_runtime \<Rightarrow> bool" where
  "slot_free i s = may_take_slot (q_agent (rt_task s i)) (q_session (rt_task s i))
     (s\<lparr>rt_waiters := (rt_waiters s)(q_agent (rt_task s i) := insert (q_session (rt_task s i)) (rt_waiters s (q_agent (rt_task s i))))\<rparr>)"

text \<open>The conditional operations as one record update each.\<close>

lemma release_slot_alt:
  "release_slot i s = s\<lparr>
     rt_task := (rt_task s)(i := (rt_task s i)\<lparr>q_slot := False\<rparr>),
     rt_in_flight := (if q_slot (rt_task s i) then rt_in_flight s - 1 else rt_in_flight s),
     rt_sub_in_flight := (if q_slot (rt_task s i) \<and> q_subagent (rt_task s i) then rt_sub_in_flight s - 1
                          else rt_sub_in_flight s),
     rt_agent_in_flight := (if q_slot (rt_task s i)
       then (rt_agent_in_flight s)(q_agent (rt_task s i) := rt_agent_in_flight s (q_agent (rt_task s i)) - 1)
       else rt_agent_in_flight s)\<rparr>"
  by (simp add: release_slot_def op_defs no_slot)

lemma unlock_alt:
  "unlock i s = s\<lparr>rt_holder := (if rt_holder s (q_session (rt_task s i)) = Some i
     then (rt_holder s)(q_session (rt_task s i) := None) else rt_holder s)\<rparr>"
  by (simp add: unlock_def Let_def)

lemma grant_slot_alt:
  "grant_slot i s = s\<lparr>
     rt_task := (rt_task s)(i := slot_task True (rt_task s i)),
     rt_rr := (rt_rr s)(q_agent (rt_task s i) := rotate_past (q_session (rt_task s i)) (rt_rr s (q_agent (rt_task s i)))),
     rt_in_flight := rt_in_flight s + 1,
     rt_sub_in_flight := (if q_subagent (rt_task s i) then rt_sub_in_flight s + 1 else rt_sub_in_flight s),
     rt_agent_in_flight := (rt_agent_in_flight s)(q_agent (rt_task s i) := rt_agent_in_flight s (q_agent (rt_task s i)) + 1),
     rt_waiters := (rt_waiters s)(q_agent (rt_task s i) := rt_waiters s (q_agent (rt_task s i)) - {q_session (rt_task s i)})\<rparr>"
  by (simp add: grant_slot_def op_defs slot_task_def)

lemma try_slot_alt:
  "try_slot i s = (if slot_free i s
     then grant_slot i s
     else s\<lparr>rt_task := (rt_task s)(i := slot_task False (rt_task s i)),
            rt_waiters := (rt_waiters s)(q_agent (rt_task s i) :=
              insert (q_session (rt_task s i)) (rt_waiters s (q_agent (rt_task s i))))\<rparr>)"
  by (simp add: try_slot_def slot_free_def grant_slot_alt op_defs slot_task_def)

lemma cancelled_exit_alt:
  "cancelled_exit i s = (unlock i (release_slot i s))\<lparr>rt_task := (rt_task s)(i := exit_task (rt_task s i))\<rparr>"
  by (simp add: cancelled_exit_def release_slot_alt unlock_alt op_defs exit_task_def terminal_closing_def)

lemma begin_terminal_alt:
  "begin_terminal i st s = s\<lparr>rt_task := (rt_task s)(i :=
     (if terminal_closing (rt_task s i) then rt_task s i else (rt_task s i)\<lparr>q_settling := True, q_status := st\<rparr>))\<rparr>"
  by (simp add: begin_terminal_def op_defs)

lemma enrol_alt:
  "enrol i s = s\<lparr>
     rt_task := (rt_task s)(i := (rt_task s i)\<lparr>q_stage := New\<rparr>),
     rt_tasks := rt_tasks s @ [i],
     rt_pending := (rt_pending s)(q_session (rt_task s i) := rt_pending s (q_session (rt_task s i)) @ [i]),
     rt_active := (rt_active s)(q_agent (rt_task s i) := insert (q_session (rt_task s i)) (rt_active s (q_agent (rt_task s i)))),
     rt_rr := (if q_session (rt_task s i) \<in> rt_active s (q_agent (rt_task s i)) then rt_rr s
       else (rt_rr s)(q_agent (rt_task s i) := rt_rr s (q_agent (rt_task s i)) @ [q_session (rt_task s i)]))\<rparr>"
  by (simp add: enrol_def op_defs insert_absorb)

lemma clear_running_alt:
  "clear_running i s = s\<lparr>rt_running := (if rt_running s (q_session (rt_task s i)) = Some i
     then (rt_running s)(q_session (rt_task s i) := None) else rt_running s)\<rparr>"
  by (simp add: clear_running_def Let_def)

definition lane_idle :: "string \<Rightarrow> task_runtime \<Rightarrow> bool" where
  "lane_idle i s = (rt_pending s (q_session (rt_task s i)) = [] \<and> rt_running s (q_session (rt_task s i)) = None)"

lemma leave_lane_alt:
  "leave_lane i s = s\<lparr>
     rt_active := (if lane_idle i s
       then (rt_active s)(q_agent (rt_task s i) := rt_active s (q_agent (rt_task s i)) - {q_session (rt_task s i)}) else rt_active s),
     rt_rr := (if lane_idle i s
       then (rt_rr s)(q_agent (rt_task s i) := (if rt_active s (q_agent (rt_task s i)) - {q_session (rt_task s i)} = {} then []
              else remove1 (q_session (rt_task s i)) (rt_rr s (q_agent (rt_task s i))))) else rt_rr s)\<rparr>"
  by (simp add: leave_lane_def Let_def lane_idle_def)

lemmas alts = release_slot_alt unlock_alt grant_slot_alt try_slot_alt cancelled_exit_alt begin_terminal_alt enrol_alt
  clear_running_alt leave_lane_alt

lemma exit_task_simps [simp]:
  "q_session (exit_task t) = q_session t" "q_agent (exit_task t) = q_agent t" "q_subagent (exit_task t) = q_subagent t"
  "\<not> q_slot (exit_task t)" "q_settling (exit_task t) = q_settling t" "q_settled (exit_task t) = q_settled t"
  "q_collecting (exit_task t) = q_collecting t" "q_mode (exit_task t) = q_mode t" "q_message (exit_task t) = q_message t" "q_kill (exit_task t) = q_kill t"
  "\<exists>st. q_stage (exit_task t) = Closing st" "terminal_closing t \<Longrightarrow> q_status (exit_task t) = q_status t"
  "\<not> terminal_closing t \<Longrightarrow> over (q_status (exit_task t))"
  by (simp_all add: exit_task_def Let_def over_def)

lemma slot_task_simps [simp]:
  "q_session (slot_task b t) = q_session t" "q_agent (slot_task b t) = q_agent t" "q_subagent (slot_task b t) = q_subagent t"
  "q_settling (slot_task b t) = q_settling t" "q_settled (slot_task b t) = q_settled t"
  "q_collecting (slot_task b t) = q_collecting t" "q_mode (slot_task b t) = q_mode t" "q_message (slot_task b t) = q_message t" "q_kill (slot_task b t) = q_kill t"
  "q_status (slot_task b t) = q_status t" "q_stage (slot_task b t) = (if b then Claimed else At_Fair)"
  "q_slot (slot_task b t) = (b \<or> q_slot t)"
  by (simp_all add: slot_task_def)

section \<open>The execution lock\<close>

text \<open>Stages in which the driver is inside the execution lock; it may be, while it is closing.\<close>

definition inside :: "stage \<Rightarrow> bool" where
  "inside st = (st \<in> {At_Gate, At_Fair, Claimed, In_Turn})"

definition closing :: "stage \<Rightarrow> bool" where
  "closing st = (\<exists>x. st = Closing x)"

lemma inside_simps [simp]:
  "inside At_Gate" "inside At_Fair" "inside Claimed" "inside In_Turn" "\<not> inside New" "\<not> inside At_Lock"
  "\<not> inside Absent" "\<not> inside No_Driver" "\<not> inside (Closing st)" "\<not> inside Ended" "closing (Closing st)"
  "\<not> closing At_Gate" "\<not> closing At_Fair" "\<not> closing Claimed" "\<not> closing In_Turn" "\<not> closing New" "\<not> closing At_Lock" "\<not> closing Absent" "\<not> closing No_Driver" "\<not> closing Ended"
  by (simp_all add: inside_def closing_def)

lemma exit_stage [simp]: "closing (q_stage (exit_task t))" "\<not> inside (q_stage (exit_task t))" "q_stage (exit_task t) \<noteq> At_Lock"
  by (auto simp: exit_task_def Let_def)

definition lane_ok ::
    "(string \<Rightarrow> stage) \<Rightarrow> (string \<Rightarrow> string) \<Rightarrow> (string \<Rightarrow> string option) \<Rightarrow> (string \<Rightarrow> string list) \<Rightarrow> bool" where
  "lane_ok st ses h q =
     ((\<forall>k i. h k = Some i \<longrightarrow> ses i = k \<and> (inside (st i) \<or> closing (st i))) \<and>
      (\<forall>i. inside (st i) \<longrightarrow> h (ses i) = Some i) \<and>
      (\<forall>k. distinct (q k)) \<and>
      (\<forall>k i. i \<in> set (q k) \<longleftrightarrow> st i = At_Lock \<and> ses i = k))"

abbreviation lock_ok :: "task_runtime \<Rightarrow> bool" where
  "lock_ok s \<equiv> lane_ok (q_stage \<circ> rt_task s) (q_session \<circ> rt_task s) (rt_holder s) (rt_queue s)"

lemma lane_okD:
  assumes "lane_ok st ses h q"
  shows "h k = Some i \<Longrightarrow> ses i = k \<and> (inside (st i) \<or> closing (st i))" "inside (st i) \<Longrightarrow> h (ses i) = Some i"
    "distinct (q k)" "i \<in> set (q k) \<longleftrightarrow> st i = At_Lock \<and> ses i = k"
  using assms unfolding lane_ok_def by blast+

lemma lane_okI:
  assumes "\<And>k i. h k = Some i \<Longrightarrow> ses i = k \<and> (inside (st i) \<or> closing (st i))"
    and "\<And>i. inside (st i) \<Longrightarrow> h (ses i) = Some i"
    and "\<And>k. distinct (q k)" and "\<And>k i. i \<in> set (q k) \<longleftrightarrow> st i = At_Lock \<and> ses i = k"
  shows "lane_ok st ses h q"
  using assms unfolding lane_ok_def by blast

lemma lane_not_held: "lane_ok st ses h q \<Longrightarrow> \<not> inside (st i) \<Longrightarrow> \<not> closing (st i) \<Longrightarrow> h k \<noteq> Some i"
  using lane_okD(1) by blast

lemma stage_At_Lock: "st = At_Lock \<Longrightarrow> \<not> inside st \<and> \<not> closing st" "inside st \<or> closing st \<Longrightarrow> st \<noteq> At_Lock"
  by auto

lemma lane_inside:
  assumes "lane_ok st ses h q" and "inside (st i)" and "inside x \<or> closing x"
  shows "lane_ok (st(i := x)) ses h q"
  using assms(2,3) lane_okD [OF assms(1)] stage_At_Lock(2) [of x] stage_At_Lock(2) [of "st i"]
  by (intro lane_okI) (auto split: if_splits)

lemma lane_acquire:
  assumes "lane_ok st ses h q" and "h (ses i) = None" and "st i \<noteq> At_Lock" and "inside x \<or> closing x"
  shows "lane_ok (st(i := x)) ses (h(ses i \<mapsto> i)) q"
proof (rule lane_okI)
  have other: "ses j \<noteq> ses i" if "inside (st j)" for j using lane_okD(2) [OF assms(1) that] assms(2) by auto
  show "(h(ses i \<mapsto> i)) k = Some j \<Longrightarrow> ses j = k \<and> (inside ((st(i := x)) j) \<or> closing ((st(i := x)) j))" for k j
    using lane_okD(1) [OF assms(1), of k j] assms(4) by (cases "k = ses i"; cases "j = i") auto
  show "inside ((st(i := x)) j) \<Longrightarrow> (h(ses i \<mapsto> i)) (ses j) = Some j" for j
    using lane_okD(2) [OF assms(1), of j] other [of j] by (simp split: if_splits)
  show "distinct (q k)" for k by (rule lane_okD(3) [OF assms(1)])
  show "j \<in> set (q k) \<longleftrightarrow> (st(i := x)) j = At_Lock \<and> ses j = k" for k j
    using lane_okD(4) [OF assms(1), of j k] assms(3) stage_At_Lock(2) [OF assms(4)] by simp
qed

lemma lane_enqueue:
  assumes "lane_ok st ses h q" and "st i = New"
  shows "lane_ok (st(i := At_Lock)) ses h (q(ses i := q (ses i) @ [i]))"
  using assms(2) lane_okD [OF assms(1)] lane_not_held [OF assms(1), of i]
  by (intro lane_okI) (auto split: if_splits)

lemma lane_dequeue:
  assumes "lane_ok st ses h q" and "st i = At_Lock" and "\<not> inside x" and "x \<noteq> At_Lock"
  shows "lane_ok (st(i := x)) ses h (q(ses i := remove1 i (q (ses i))))"
  using assms(2-4) lane_okD [OF assms(1)] lane_not_held [OF assms(1), of i]
  by (intro lane_okI) (auto split: if_splits)

lemma lane_leave:
  assumes "lane_ok st ses h q" and "inside (st i) \<or> closing (st i)" and "x = Ended \<or> closing x"
  shows "lane_ok (st(i := x)) ses (if h (ses i) = Some i then h(ses i := None) else h) q"
proof (rule lane_okI)
  let ?h = "if h (ses i) = Some i then h(ses i := None) else h"
  have x: "\<not> inside x" "x \<noteq> At_Lock" "st i \<noteq> At_Lock" using assms(2,3) stage_At_Lock(2) by (auto simp: closing_def)
  have h: "h k = Some j \<and> j \<noteq> i" if "?h k = Some j" for k j
  proof (cases "k = ses i")
    case True
    then show ?thesis using that by (cases "h (ses i) = Some i") auto
  next
    case False
    then have "h k = Some j" using that by (cases "h (ses i) = Some i") auto
    then show ?thesis using lane_okD(1) [OF assms(1), of k j] False by auto
  qed
  show "ses j = k \<and> (inside ((st(i := x)) j) \<or> closing ((st(i := x)) j))" if "?h k = Some j" for k j
  proof -
    have "j \<noteq> i" "h k = Some j" using h [OF that] by blast+
    then show ?thesis using lane_okD(1) [OF assms(1), of k j] by simp
  qed
  show "?h (ses j) = Some j" if "inside ((st(i := x)) j)" for j
  proof -
    have "j \<noteq> i" using that x(1) by auto
    then have "h (ses j) = Some j" using that lane_okD(2) [OF assms(1), of j] by simp
    then show ?thesis using \<open>j \<noteq> i\<close> by (cases "ses j = ses i") auto
  qed
  show "distinct (q k)" for k by (rule lane_okD(3) [OF assms(1)])
  show "j \<in> set (q k) \<longleftrightarrow> (st(i := x)) j = At_Lock \<and> ses j = k" for k j
    using lane_okD(4) [OF assms(1), of j k] x(2,3) by simp
qed

lemma lane_outside:
  assumes "lane_ok st ses h q" and "\<not> inside (st i)" and "\<not> closing (st i)" and "st i \<noteq> At_Lock"
    and "\<not> inside x" and "x \<noteq> At_Lock"
  shows "lane_ok (st(i := x)) (ses(i := k)) h q"
  using assms(2-6) lane_okD [OF assms(1)] lane_not_held [OF assms(1,2,3)]
  by (intro lane_okI) (auto split: if_splits)

lemma lock_enter:
  "lock_ok s \<Longrightarrow> rt_holder s (q_session (rt_task s i)) = None \<Longrightarrow> q_stage (rt_task s i) \<noteq> At_Lock \<Longrightarrow> lock_ok (enter i s)"
  using lane_acquire [of "q_stage \<circ> rt_task s" "q_session \<circ> rt_task s" "rt_holder s" "rt_queue s" i]
  by (simp add: enter_def try_gate_def alts op_defs)

lemma lock_take:
  assumes "lock_ok s" and "rt_holder s (q_session (rt_task s i)) = None" and "rt_queue s (q_session (rt_task s i)) = i # rest"
  shows "lock_ok (take_lock i s)"
proof -
  let ?q = "(rt_queue s)(q_session (rt_task s i) := rest)"
  have i: "q_stage (rt_task s i) = At_Lock" using lane_okD(4) [OF assms(1), of i "q_session (rt_task s i)"] assms(3) by simp
  have "lane_ok ((q_stage \<circ> rt_task s)(i := New)) (q_session \<circ> rt_task s) (rt_holder s) ?q"
    using lane_dequeue [OF assms(1), of i New] i assms(3) by simp
  from lane_acquire [OF this, of i] show ?thesis
    using assms(2,3) by (simp add: take_lock_def enter_def try_gate_def alts op_defs)
qed

lemma lock_start: "lock_ok s \<Longrightarrow> q_stage (rt_task s i) = New \<Longrightarrow> lock_ok (start_driver i s)"
  using lane_enqueue [of "q_stage \<circ> rt_task s" "q_session \<circ> rt_task s" "rt_holder s" "rt_queue s" i]
    lock_enter [of "change i (\<lambda>t. t\<lparr>q_started := True\<rparr>) s" i]
  by (simp add: start_driver_def op_defs)

lemma lock_exit:
  "lock_ok s \<Longrightarrow> inside (q_stage (rt_task s i)) \<or> closing (q_stage (rt_task s i)) \<Longrightarrow> lock_ok (cancelled_exit i s)"
  using lane_leave [of "q_stage \<circ> rt_task s" "q_session \<circ> rt_task s" "rt_holder s" "rt_queue s" i "q_stage (exit_task (rt_task s i))"]
  by (simp add: alts split: if_splits)

lemma lock_deliver:
  assumes "lock_ok s"
  shows "lock_ok (deliver_cancel i s)"
proof (cases "q_stage (rt_task s i)")
  case New
  then show ?thesis
    using lane_outside [OF assms, of i Ended "q_session (rt_task s i)"] by (simp add: deliver_cancel_def op_defs)
next
  case At_Lock
  have "rt_holder s (q_session (rt_task s i)) \<noteq> Some i" using lane_not_held [OF assms, of i] At_Lock by simp
  then show ?thesis
    using lane_dequeue [OF assms, of i "q_stage (exit_task ((rt_task s i)\<lparr>q_kill := False\<rparr>))"] At_Lock
    by (simp add: deliver_cancel_def op_defs alts)
next
  case (Closing x)
  have "lock_ok (goto i Ended s)" if "rt_holder s (q_session (rt_task s i)) \<noteq> Some i"
    using lane_leave [OF assms, of i Ended] that Closing by (simp add: goto_def change_def)
  then show ?thesis
    using lock_exit [of "change i (\<lambda>t. t\<lparr>q_kill := False\<rparr>) s" i] assms Closing
    by (simp add: deliver_cancel_def op_defs)
next
  case At_Fair
  then show ?thesis
    using lane_leave [OF assms, of i "q_stage (exit_task ((rt_task s i)\<lparr>q_kill := False\<rparr>))"]
    by (simp add: deliver_cancel_def op_defs alts split: if_splits)
qed (use assms lock_exit [of "change i (\<lambda>t. t\<lparr>q_kill := False\<rparr>) s" i] in \<open>simp_all add: deliver_cancel_def op_defs\<close>)

lemma same_lock_ok:
  "lock_ok s \<Longrightarrow> q_stage \<circ> rt_task s' = q_stage \<circ> rt_task s \<Longrightarrow> q_session \<circ> rt_task s' = q_session \<circ> rt_task s \<Longrightarrow>
   rt_holder s' = rt_holder s \<Longrightarrow> rt_queue s' = rt_queue s \<Longrightarrow> lock_ok s'"
  by simp

section \<open>Each task by itself\<close>

text \<open>
  A slot is held in two stages exactly; a settled status is final; a task that collects has not
  run; a driver whose task another coroutine settles is being cancelled or is past its turn.
\<close>

fun slotted :: "stage \<Rightarrow> bool" where
  "slotted Claimed = True" | "slotted In_Turn = True" | "slotted _ = False"

fun early :: "stage \<Rightarrow> bool" where
  "early New = True" | "early At_Lock = True" | "early At_Gate = True" | "early At_Fair = True"
| "early Claimed = True" | "early _ = False"

fun inert :: "stage \<Rightarrow> bool" where
  "inert Absent = True" | "inert No_Driver = True" | "inert _ = False"

fun past :: "stage \<Rightarrow> bool" where
  "past (Closing st) = True" | "past Ended = True" | "past _ = False"

fun proper :: "stage \<Rightarrow> bool" where
  "proper (Closing st) = over st" | "proper _ = True"

lemma past_stage: "past st \<Longrightarrow> \<not> slotted st \<and> \<not> early st \<and> \<not> inert st" "closing st \<Longrightarrow> past st"
  by (cases st; simp)+

definition doomed :: "rtask \<Rightarrow> bool" where
  "doomed t = (q_kill t \<or> past (q_stage t))"

definition task_ok :: "rtask \<Rightarrow> bool" where
  "task_ok t =
     (q_slot t = slotted (q_stage t) \<and> \<not> (q_settling t \<and> q_settled t) \<and>
      (terminal_closing t \<longrightarrow> over (q_status t) \<and> doomed t) \<and>
      (q_collecting t \<longrightarrow> q_status t \<noteq> Running) \<and>
      (early (q_stage t) \<longrightarrow> q_status t = Queued \<or> terminal_closing t) \<and>
      (inert (q_stage t) \<longrightarrow> q_status t = Queued \<and> \<not> q_kill t) \<and> proper (q_stage t))"

definition tasks_ok :: "task_runtime \<Rightarrow> bool" where
  "tasks_ok s = ((\<forall>i. task_ok (rt_task s i)) \<and> (\<forall>i \<in> set (rt_owed s). doomed (rt_task s i)))"

lemma over_simps [simp]:
  "\<not> over Queued" "\<not> over Running" "over Succeeded" "over Failed" "over Cancelled" "over Timeout" "over Abandoned"
  by (simp_all add: over_def)

lemma over_not: "over st \<Longrightarrow> st \<noteq> Queued \<and> st \<noteq> Running"
  by auto

lemma task_okD:
  assumes "task_ok t"
  shows "q_slot t = slotted (q_stage t)" "\<not> (q_settling t \<and> q_settled t)"
    "terminal_closing t \<Longrightarrow> over (q_status t)" "terminal_closing t \<Longrightarrow> doomed t" "q_collecting t \<Longrightarrow> q_status t \<noteq> Running"
    "early (q_stage t) \<Longrightarrow> q_status t = Queued \<or> terminal_closing t"
    "inert (q_stage t) \<Longrightarrow> q_status t = Queued \<and> \<not> q_kill t" "proper (q_stage t)"
  using assms unfolding task_ok_def by blast+

lemma inert_iff: "inert st \<longleftrightarrow> st = Absent \<or> st = No_Driver"
  by (cases st) simp_all

lemma kill_cases: "kill t = t \<or> (kill t = t\<lparr>q_kill := True\<rparr> \<and> \<not> inert (q_stage t))"
  by (auto simp: kill_def inert_iff)

lemma task_ok_kill:
  assumes "task_ok t"
  shows "task_ok (kill t)"
  using kill_cases [of t]
proof
  assume "kill t = t\<lparr>q_kill := True\<rparr> \<and> \<not> inert (q_stage t)"
  then show ?thesis using assms by (simp add: task_ok_def doomed_def terminal_closing_def)
qed (use assms in simp)

lemma doomed_kill: "doomed t \<Longrightarrow> doomed (kill t)"
  by (simp add: kill_def doomed_def)

lemma kill_doomed: "\<not> inert (q_stage t) \<Longrightarrow> doomed (kill t)"
  by (cases "q_stage t") (simp_all add: kill_def doomed_def)

lemma task_ok_marks [simp]:
  "task_ok (t\<lparr>q_cancel := a\<rparr>) = task_ok t" "task_ok (t\<lparr>q_dropped := a\<rparr>) = task_ok t" "task_ok (t\<lparr>q_source := x\<rparr>) = task_ok t"
  "task_ok (t\<lparr>q_steering := a\<rparr>) = task_ok t" "task_ok (t\<lparr>q_message := m\<rparr>) = task_ok t" "task_ok (t\<lparr>q_started := a\<rparr>) = task_ok t"
  "doomed (t\<lparr>q_cancel := a\<rparr>) = doomed t" "doomed (t\<lparr>q_dropped := a\<rparr>) = doomed t" "doomed (t\<lparr>q_source := x\<rparr>) = doomed t"
  "doomed (t\<lparr>q_steering := a\<rparr>) = doomed t" "doomed (t\<lparr>q_message := m\<rparr>) = doomed t" "doomed (t\<lparr>q_started := a\<rparr>) = doomed t"
  "doomed (t\<lparr>q_slot := a\<rparr>) = doomed t" "doomed (t\<lparr>q_collecting := a\<rparr>) = doomed t" "doomed (t\<lparr>q_status := st\<rparr>) = doomed t"
  "doomed (t\<lparr>q_settling := a\<rparr>) = doomed t" "doomed (t\<lparr>q_settled := a\<rparr>) = doomed t"
  by (simp_all add: task_ok_def doomed_def terminal_closing_def)

lemma open_task: "task_ok t \<Longrightarrow> \<not> doomed t \<Longrightarrow> \<not> terminal_closing t"
  using task_okD(4) by blast

lemma task_ok_past:
  assumes "task_ok t" and "past x" and "proper x"
  shows "task_ok (t\<lparr>q_slot := False, q_stage := x\<rparr>)"
  using assms past_stage(1) [OF assms(2)] by (simp add: task_ok_def doomed_def terminal_closing_def)

lemma exit_task_alt:
  "exit_task t = (let x = Closing (if q_source t = Some ''gateway_shutdown_timeout'' then Abandoned else Cancelled) in
     (if terminal_closing t then t\<lparr>q_slot := False, q_stage := x\<rparr>
      else t\<lparr>q_slot := False, q_status := (if q_source t = Some ''gateway_shutdown_timeout'' then Abandoned else Cancelled), q_stage := x\<rparr>))"
  by (simp add: exit_task_def Let_def)

lemma task_ok_exit: "task_ok t \<Longrightarrow> task_ok (exit_task t)"
  by (simp add: task_ok_def exit_task_alt doomed_def terminal_closing_def Let_def)

lemma doomed_exit [simp]: "doomed (exit_task t)"
  by (simp add: doomed_def exit_task_alt Let_def)

lemma task_ok_unkill: "task_ok t \<Longrightarrow> past (q_stage t) \<Longrightarrow> task_ok (t\<lparr>q_kill := False\<rparr>)"
  by (simp add: task_ok_def doomed_def terminal_closing_def)

lemma task_ok_exit_unkill: "task_ok t \<Longrightarrow> task_ok (exit_task (t\<lparr>q_kill := False\<rparr>))"
  by (simp add: task_ok_def exit_task_alt doomed_def terminal_closing_def Let_def)

lemma task_ok_slot: "task_ok t \<Longrightarrow> early (q_stage t) \<Longrightarrow> \<not> slotted (q_stage t) \<Longrightarrow> \<not> q_kill t \<Longrightarrow> task_ok (slot_task b t)"
  using past_stage(1) [of "q_stage t"] by (auto simp: task_ok_def slot_task_def doomed_def terminal_closing_def)

lemma task_ok_goto:
  "task_ok t \<Longrightarrow> early (q_stage t) \<Longrightarrow> \<not> slotted (q_stage t) \<Longrightarrow> \<not> q_kill t \<Longrightarrow> \<not> slotted x \<Longrightarrow> \<not> inert x \<Longrightarrow>
   proper x \<Longrightarrow> task_ok (t\<lparr>q_stage := x\<rparr>)"
  using past_stage(1) [of "q_stage t"] by (auto simp: task_ok_def doomed_def terminal_closing_def)

lemma task_ok_blank [simp]: "task_ok blank_task"
    "task_ok (blank_task\<lparr>q_session := k, q_agent := a, q_subagent := b, q_mode := m, q_message := x, q_stage := No_Driver\<rparr>)"
  by (simp_all add: task_ok_def blank_task_def terminal_closing_def)

lemma task_ok_new: "task_ok t \<Longrightarrow> q_stage t = No_Driver \<Longrightarrow> task_ok (t\<lparr>q_stage := New\<rparr>)"
  by (auto simp: task_ok_def terminal_closing_def doomed_def)

lemma task_ok_run:
  "task_ok t \<Longrightarrow> q_stage t = Claimed \<Longrightarrow> \<not> terminal_closing t \<Longrightarrow> \<not> q_collecting t \<Longrightarrow>
   task_ok (t\<lparr>q_status := Running, q_stage := In_Turn\<rparr>)"
  by (simp add: task_ok_def terminal_closing_def)

lemma task_ok_begin:
  "task_ok t \<Longrightarrow> \<not> terminal_closing t \<Longrightarrow> doomed t \<Longrightarrow> over st \<Longrightarrow> task_ok (t\<lparr>q_settling := True, q_status := st\<rparr>)"
  using past_stage(1) [of "q_stage t"] over_not [of st] by (auto simp: task_ok_def terminal_closing_def doomed_def)

lemma task_ok_end: "task_ok t \<Longrightarrow> q_settling t \<Longrightarrow> task_ok (t\<lparr>q_settling := False, q_settled := True\<rparr>)"
  by (simp add: task_ok_def terminal_closing_def doomed_def)

section \<open>What a step leaves alone\<close>

definition limits :: "task_runtime \<Rightarrow> nat \<times> nat option \<times> nat \<times> bool" where
  "limits s = (rt_max s, rt_max_pending s, rt_reserved_slots s, rt_drop_oldest s)"

definition ident :: "rtask \<Rightarrow> string \<times> string \<times> bool \<times> string" where
  "ident t = (q_session t, q_agent t, q_subagent t, q_mode t)"

text \<open>Steps of tasks that are already admitted: admission is not touched, nobody joins the books.\<close>

definition frame :: "task_runtime \<Rightarrow> task_runtime \<Rightarrow> bool" where
  "frame s s' =
     (limits s' = limits s \<and> rt_resv s' = rt_resv s \<and> rt_reservations s' = rt_reservations s \<and>
      rt_cancels s' = rt_cancels s \<and>
      (\<forall>i. ident (rt_task s' i) = ident (rt_task s i) \<and>
         (if inert (q_stage (rt_task s i)) then q_stage (rt_task s' i) = q_stage (rt_task s i)
          else \<not> inert (q_stage (rt_task s' i)))) \<and>
      set (rt_tasks s') \<subseteq> set (rt_tasks s) \<and>
      (\<forall>k. set (rt_pending s' k) \<subseteq> set (rt_pending s k) \<and> (distinct (rt_pending s k) \<longrightarrow> distinct (rt_pending s' k))))"

lemma frame_refl [simp]: "frame s s"
  by (simp add: frame_def)

lemma frame_trans: "frame s s' \<Longrightarrow> frame s' s'' \<Longrightarrow> frame s s''"
  unfolding frame_def by (metis order_trans)

lemma kill_ident [simp]: "ident (kill t) = ident t" "ident (exit_task t) = ident t" "ident (slot_task b t) = ident t"
  by (simp_all add: ident_def kill_def)

lemma past_exit [simp]: "past (q_stage (exit_task t))" "\<not> inert (q_stage (exit_task t))"
  by (simp_all add: exit_task_alt Let_def)

lemma frame_goto: "\<not> inert (q_stage (rt_task s i)) \<Longrightarrow> \<not> inert st \<Longrightarrow> frame s (goto i st s)"
  by (simp add: frame_def limits_def op_defs ident_def)

lemma frame_change: "(\<And>t. ident (f t) = ident t \<and> q_stage (f t) = q_stage t) \<Longrightarrow> frame s (change i f s)"
  by (simp add: frame_def limits_def op_defs)

lemma frame_try_slot: "\<not> inert (q_stage (rt_task s i)) \<Longrightarrow> frame s (try_slot i s)"
  by (simp add: frame_def limits_def alts)

lemma frame_release: "frame s (release_slot i s)" "frame s (unlock i s)" "frame s (begin_terminal i x s)"
  by (simp_all add: frame_def limits_def alts ident_def)

lemma frame_exit: "\<not> inert (q_stage (rt_task s i)) \<Longrightarrow> frame s (cancelled_exit i s)"
  by (simp add: frame_def limits_def alts)

lemma frame_queues:
  "frame s (s\<lparr>rt_queue := q\<rparr>)" "frame s (s\<lparr>rt_waiters := w\<rparr>)" "frame s (s\<lparr>rt_holder := h\<rparr>)" "frame s (s\<lparr>rt_running := r\<rparr>)"
  "frame s (s\<lparr>rt_owed := o'\<rparr>)" "frame s (s\<lparr>rt_active := a, rt_rr := l\<rparr>)" "frame s (s\<lparr>rt_events := e\<rparr>)"
  "frame s (s\<lparr>rt_tasks := remove1 i (rt_tasks s)\<rparr>)"
  "frame s (s\<lparr>rt_pending := (rt_pending s)(k := remove1 i (rt_pending s k))\<rparr>)"
  by (simp_all add: frame_def limits_def set_remove1_subset)

lemma frame_try_gate: "\<not> inert (q_stage (rt_task s i)) \<Longrightarrow> frame s (try_gate i s)"
  by (simp add: try_gate_def frame_goto frame_try_slot)

lemma frame_enter:
  assumes "\<not> inert (q_stage (rt_task s i))"
  shows "frame s (enter i s)"
proof -
  let ?s = "s\<lparr>rt_holder := (rt_holder s)(q_session (rt_task s i) \<mapsto> i)\<rparr>"
  have "frame ?s (goto i (Closing Cancelled) ?s)" "frame ?s (try_gate i ?s)"
    using assms by (intro frame_goto frame_try_gate; simp)+
  then show ?thesis using frame_trans [OF frame_queues(3)] by (simp add: enter_def Let_def)
qed

lemma frame_start:
  assumes "q_stage (rt_task s i) = New"
  shows "frame s (start_driver i s)"
proof -
  let ?s = "change i (\<lambda>t. t\<lparr>q_started := True\<rparr>) s"
  have f: "frame s ?s" by (rule frame_change) (simp add: ident_def)
  have "\<not> inert (q_stage (rt_task ?s i))" using assms by (simp add: op_defs)
  then have "frame ?s (enter i ?s)" "frame ?s (goto i At_Lock (?s\<lparr>rt_queue := q\<rparr>))" for q
    using frame_enter frame_trans [OF frame_queues(1) frame_goto [of "?s\<lparr>rt_queue := q\<rparr>" i At_Lock]] by simp_all
  then show ?thesis using frame_trans [OF f] by (simp add: start_driver_def Let_def)
qed

lemma frame_take_lock: "q_stage (rt_task s i) = At_Lock \<Longrightarrow> frame s (take_lock i s)"
  unfolding take_lock_def Let_def by (rule frame_trans [OF frame_queues(1) frame_enter]) simp

lemma frame_mark_running:
  assumes "q_stage (rt_task s i) = Claimed"
  shows "frame s (mark_running i s)"
proof -
  have "frame s (cancelled_exit i s)" using assms by (intro frame_exit) simp
  moreover have "frame s (change i (\<lambda>t. t\<lparr>q_status := Running, q_stage := In_Turn\<rparr>)
      ((remove_pending i s)\<lparr>rt_running := (rt_running s)(q_session (rt_task s i) \<mapsto> i)\<rparr>))"
    using assms by (simp add: frame_def limits_def op_defs remove_pending_def ident_def set_remove1_subset)
  ultimately show ?thesis by (simp add: mark_running_def Let_def)
qed

lemma frame_finish:
  assumes "\<not> inert (q_stage (rt_task s i))"
  shows "frame s (finish_turn i st s)"
proof -
  have r: "frame s (release_slot i s)" "frame s (unlock i (release_slot i s))"
    using frame_release(1,2) frame_trans by blast+
  moreover have "\<not> inert (q_stage (rt_task (release_slot i s) i))" "\<not> inert (q_stage (rt_task (unlock i (release_slot i s)) i))"
    using assms by (simp_all add: alts)
  ultimately show ?thesis using frame_trans [OF _ frame_goto] by (simp add: finish_turn_def)
qed

lemma frame_deliver:
  assumes "\<not> inert (q_stage (rt_task s i))"
  shows "frame s (deliver_cancel i s)"
proof -
  let ?s = "change i (\<lambda>t. t\<lparr>q_kill := False\<rparr>) s"
  have f: "frame s ?s" by (rule frame_change) (simp add: ident_def)
  have st: "q_stage (rt_task ?s i) = q_stage (rt_task s i)" by (simp add: op_defs)
  have "frame ?s (goto i Ended ?s)" "frame ?s (cancelled_exit i ?s)"
    "frame ?s (cancelled_exit i (?s\<lparr>rt_queue := q\<rparr>))" "frame ?s (cancelled_exit i (?s\<lparr>rt_waiters := w\<rparr>))" for q w
    using assms frame_trans [OF frame_queues(1) frame_exit [of "?s\<lparr>rt_queue := q\<rparr>" i]]
      frame_trans [OF frame_queues(2) frame_exit [of "?s\<lparr>rt_waiters := w\<rparr>" i]]
    by (simp_all add: st frame_goto frame_exit)
  then have "frame ?s (deliver_cancel i s)"
    by (cases "q_stage (rt_task s i)") (simp_all add: deliver_cancel_def Let_def st)
  then show ?thesis by (rule frame_trans [OF f])
qed

lemma frame_end: "frame s (end_terminal b i s)"
proof -
  let ?s1 = "change i (\<lambda>t. t\<lparr>q_settling := False, q_settled := True\<rparr>) s"
  let ?s2 = "remove_pending i ?s1"
  let ?s3 = "clear_running i ?s2"
  let ?s4 = "leave_lane i ?s3"
  have "frame s ?s1" by (rule frame_change) (simp add: ident_def)
  moreover have "frame ?s1 ?s2" unfolding remove_pending_def Let_def by (rule frame_queues(9))
  moreover have "frame ?s2 ?s3" unfolding clear_running_alt by (rule frame_queues(4))
  moreover have "frame ?s3 ?s4" unfolding leave_lane_alt by (rule frame_queues(6))
  moreover have "frame ?s4 (?s4\<lparr>rt_tasks := remove1 i (rt_tasks ?s4)\<rparr>)" by (rule frame_queues(8))
  moreover have "frame (?s4\<lparr>rt_tasks := remove1 i (rt_tasks ?s4)\<rparr>) (end_terminal b i s)"
    unfolding end_terminal_def Let_def by (simp add: frame_def limits_def)
  ultimately show ?thesis using frame_trans by blast
qed

lemma frame_collect: "frame s (collect_begin i s)" "frame s (collect_end i m s)"
proof -
  have "frame s (change i (\<lambda>t. t\<lparr>q_collecting := True\<rparr>) s)" by (rule frame_change) (simp add: ident_def)
  then show "frame s (collect_begin i s)" by (simp add: collect_begin_def)
  show "frame s (collect_end i m s)"
    unfolding collect_end_def by (rule frame_change) (simp add: ident_def split: option.split)
qed

section \<open>Admission\<close>

definition books_ok :: "task_runtime \<Rightarrow> bool" where
  "books_ok s =
     ((\<forall>k. distinct (rt_reservations s k) \<and>
        (\<forall>i \<in> set (rt_reservations s k). q_stage (rt_task s i) = No_Driver \<and> q_session (rt_task s i) = k)) \<and>
      (\<forall>k. distinct (rt_pending s k) \<and>
        (\<forall>i \<in> set (rt_pending s k). \<not> inert (q_stage (rt_task s i)) \<and> q_session (rt_task s i) = k)) \<and>
      (\<forall>i \<in> set (rt_tasks s). \<not> inert (q_stage (rt_task s i))) \<and>
      (\<forall>c \<in> set (rt_cancels s). set (snd c) \<subseteq> set (fst c) \<and> (\<forall>i \<in> set (fst c). \<not> inert (q_stage (rt_task s i)))))"

lemma frame_books:
  assumes "frame s s'" and "books_ok s"
  shows "books_ok s'"
proof -
  have ses: "q_session (rt_task s' i) = q_session (rt_task s i)" for i using assms(1) by (simp add: frame_def ident_def)
  have alive: "\<not> inert (q_stage (rt_task s i)) \<Longrightarrow> \<not> inert (q_stage (rt_task s' i))" for i
    using assms(1) unfolding frame_def by metis
  have "q_stage (rt_task s i) = No_Driver \<Longrightarrow> q_stage (rt_task s' i) = No_Driver" for i
    using assms(1) unfolding frame_def by (metis inert.simps(2))
  moreover have "rt_reservations s' = rt_reservations s" "rt_cancels s' = rt_cancels s"
      "set (rt_tasks s') \<subseteq> set (rt_tasks s)" "set (rt_pending s' k) \<subseteq> set (rt_pending s k)"
      "distinct (rt_pending s k) \<longrightarrow> distinct (rt_pending s' k)" for k
    using assms(1) by (simp_all add: frame_def)
  moreover have "\<forall>i \<in> set (rt_pending s' k). \<not> inert (q_stage (rt_task s' i)) \<and> q_session (rt_task s' i) = k" for k
    using assms(2) alive ses \<open>set (rt_pending s' k) \<subseteq> _\<close> unfolding books_ok_def by (metis subsetD)
  ultimately show ?thesis using assms(2) ses alive unfolding books_ok_def by (simp add: subset_iff)
qed

text \<open>The tasks that an activation or a cancellation marks.\<close>

definition nudged :: "rtask \<Rightarrow> rtask \<Rightarrow> bool" where
  "nudged t t' =
     (ident t' = ident t \<and> q_stage t' = q_stage t \<and> q_slot t' = q_slot t \<and> q_status t' = q_status t \<and>
      q_settling t' = q_settling t \<and> q_settled t' = q_settled t \<and> q_message t' = q_message t \<and>
      q_collecting t' = q_collecting t \<and> (q_kill t \<longrightarrow> q_kill t') \<and> (q_kill t' \<longrightarrow> q_kill t \<or> \<not> inert (q_stage t)))"

lemma nudged_refl [simp]: "nudged t t"
  by (simp add: nudged_def)

lemma nudged_trans: "nudged t t' \<Longrightarrow> nudged t' t'' \<Longrightarrow> nudged t t''"
  by (auto simp: nudged_def)

lemma nudged_marks [simp]:
  "nudged t (t\<lparr>q_cancel := a, q_dropped := b, q_source := c\<rparr>)" "nudged t (t\<lparr>q_cancel := a, q_source := c\<rparr>)"
  "nudged t (t\<lparr>q_cancel := a, q_source := c, q_steering := d\<rparr>)" "nudged t (t\<lparr>q_steering := d\<rparr>)"
  by (simp_all add: nudged_def ident_def)

lemma nudged_kill: "nudged t t' \<Longrightarrow> nudged t (kill t')"
  by (rule disjE [OF kill_cases [of t']]) (simp_all add: nudged_def ident_def)

lemma nudged_ok:
  assumes "nudged t t'"
  shows "task_ok t \<Longrightarrow> task_ok t'" "doomed t \<Longrightarrow> doomed t'"
proof -
  show "doomed t \<Longrightarrow> doomed t'" using assms by (auto simp: nudged_def doomed_def)
  then show "task_ok t \<Longrightarrow> task_ok t'"
    using assms unfolding nudged_def task_ok_def terminal_closing_def by metis
qed

definition elsewhere :: "task_runtime \<Rightarrow> _" where
  "elsewhere s = (limits s, rt_pending s, rt_running s, rt_tasks s, rt_rr s, rt_active s, rt_waiters s, rt_in_flight s,
     rt_sub_in_flight s, rt_agent_in_flight s, rt_holder s, rt_queue s, rt_cancels s, rt_events s)"

lemma nudged_interrupt: "nudged (rt_task s j) (rt_task (interrupt k m s) j)"
  by (simp add: interrupt_def Let_def nudged_kill)

lemma take_victim_cases:
  assumes "\<forall>i \<in> set (rt_pending s k). \<not> inert (q_stage (rt_task s i))"
  shows "(\<forall>j. nudged (rt_task s j) (rt_task (take_victim r k s) j)) \<and> elsewhere (take_victim r k s) = elsewhere s \<and>
    rt_reservations (take_victim r k s) = rt_reservations s \<and>
    (rt_owed (take_victim r k s) = rt_owed s \<or>
     (\<exists>v. rt_owed (take_victim r k s) = rt_owed s @ [v] \<and> doomed (rt_task (take_victim r k s) v)))"
proof (cases "tr_victim r")
  case (Some v)
  show ?thesis
  proof (cases "q_status (rt_task s v) \<noteq> Queued \<or> v \<notin> set (rt_pending s k)")
    case False
    then have "\<not> inert (q_stage (rt_task s v))" using assms by blast
    then show ?thesis using Some False
      by (simp add: take_victim_def evict_def op_defs elsewhere_def limits_def nudged_kill kill_doomed)
  qed (simp add: take_victim_def Some elsewhere_def limits_def)
qed (simp add: take_victim_def)

lemma activate_cases:
  assumes "activate i s = Inr s'" and "books_ok s"
  shows "s' = s \<or> (i \<in> set (rt_reservations s (q_session (rt_task s i))) \<and>
    (\<exists>s3 r. s' = (enrol i s3)\<lparr>rt_resv := r\<rparr> \<and> (\<forall>j. nudged (rt_task s j) (rt_task s3 j)) \<and> elsewhere s3 = elsewhere s \<and>
       rt_reservations s3 = (rt_reservations s)(q_session (rt_task s i) := remove1 i (rt_reservations s (q_session (rt_task s i)))) \<and>
       (rt_owed s3 = rt_owed s \<or> (\<exists>v. rt_owed s3 = rt_owed s @ [v] \<and> doomed (rt_task s3 v)))))"
proof -
  define k where "k = q_session (rt_task s i)"
  define s1 where "s1 = drop_reservation i s"
  define s2 where "s2 = (if q_mode (rt_task s i) \<in> {''steer'', ''interrupt''} then interrupt k (q_mode (rt_task s i)) s1 else s1)"
  have s1: "rt_task s1 = rt_task s" by (simp add: s1_def drop_reservation_def Let_def)
  have n2: "nudged (rt_task s j) (rt_task s2 j)" for j using nudged_interrupt [of s1 j] by (simp add: s2_def s1)
  have s2: "elsewhere s2 = elsewhere s" "rt_owed s2 = rt_owed s"
      "rt_reservations s2 = (rt_reservations s)(k := remove1 i (rt_reservations s k))"
    by (simp_all add: s2_def s1_def interrupt_def drop_reservation_def Let_def elsewhere_def limits_def k_def)
  have "rt_pending s2 = rt_pending s" using s2(1) by (simp add: elsewhere_def)
  moreover have "\<forall>j \<in> set (rt_pending s k). \<not> inert (q_stage (rt_task s j))" using assms(2) unfolding books_ok_def by blast
  moreover have "q_stage (rt_task s2 j) = q_stage (rt_task s j)" for j using n2 [of j] by (simp add: nudged_def)
  ultimately have "\<forall>j \<in> set (rt_pending s2 k). \<not> inert (q_stage (rt_task s2 j))" by simp
  note v = take_victim_cases [OF this]
  have s3: "(\<forall>j. nudged (rt_task s j) (rt_task (take_victim r k s2) j)) \<and> elsewhere (take_victim r k s2) = elsewhere s \<and>
      rt_reservations (take_victim r k s2) = rt_reservations s2 \<and>
      (rt_owed (take_victim r k s2) = rt_owed s \<or>
       (\<exists>v. rt_owed (take_victim r k s2) = rt_owed s @ [v] \<and> doomed (rt_task (take_victim r k s2) v)))" for r
  proof -
    have "\<forall>j. nudged (rt_task s j) (rt_task (take_victim r k s2) j)" using v [of r] nudged_trans [OF n2] by blast
    then show ?thesis using v [of r] unfolding s2(1,2) by blast
  qed
  obtain r where r: "rt_resv s i = Some r" using assms(1) by (auto simp: activate_def split: option.splits)
  have "s' = s \<or> (i \<in> set (rt_reservations s k) \<and> (\<exists>m. s' = (enrol i (take_victim r k s2))\<lparr>rt_resv := m\<rparr>))"
    using assms(1) r unfolding activate_def Let_def s1_def [symmetric] k_def [symmetric] s2_def [symmetric]
    by (auto split: if_splits)
  then consider "s' = s" | m where "i \<in> set (rt_reservations s k)" "s' = (enrol i (take_victim r k s2))\<lparr>rt_resv := m\<rparr>"
    by blast
  then show ?thesis
  proof cases
    case 2
    have "rt_reservations (take_victim r k s2) = (rt_reservations s)(k := remove1 i (rt_reservations s k))"
      using s3 [of r] s2(3) by simp
    then show ?thesis using 2 s3 [of r] unfolding k_def [symmetric] by (intro disjI2 conjI) blast+
  qed simp
qed

end
