(* ===== verification/Task_Safety.thy ===== *)
theory Task_Safety
  imports Task_Steps
begin

text \<open>
  Invariants of the task runtime over all its steps, and what they give: slots are counted and
  never exceed their limits, a session has one turn at a time, a task is settled once and its
  outcome is final, a turn runs with the message that was accepted, no slot stays idle.
\<close>

section \<open>The books\<close>

lemma frame_step:
  assumes "runtime_step s s'"
  shows "frame s s' \<or> (\<exists>i k a sub mode m policy bypass. q_stage (rt_task s i) = Absent \<and> reserve i k a sub mode m policy bypass s = Inr s') \<or>
    (\<exists>i. s' = abort_reservation i s) \<or> (\<exists>i. activate i s = Inr s') \<or> (\<exists>k. s' = signal_cancelled k s) \<or>
    (\<exists>c source. (\<forall>i \<in> set c. i \<in> set (rt_tasks s)) \<and> s' = mark_cancelled c source s) \<or> (\<exists>i. q_kill (rt_task s i) \<and> s' = deliver_cancel i s)"
  using assms
proof cases
  case (Settle_Owed i)
  have "frame s ((begin_terminal i Cancelled s)\<lparr>rt_owed := remove1 i (rt_owed s)\<rparr>)"
    by (rule frame_trans [OF frame_release(3) frame_queues(5)])
  then show ?thesis using Settle_Owed by simp
next
  case (Return i st)
  have "frame s (goto i Ended (unlock i s))"
    by (rule frame_trans [OF frame_release(2) frame_goto]) (use Return in \<open>simp_all add: alts\<close>)
  then show ?thesis using Return by simp
qed (auto intro: frame_start frame_take_lock frame_try_gate frame_try_slot frame_mark_running frame_finish frame_release
    frame_end frame_collect)

lemma reserve_form:
  "reserve i key agent_id sub mode m policy bypass s = Inr s' \<Longrightarrow>
   \<exists>k a md victim vs. s' = admit i k a sub md m victim (s\<lparr>rt_victims := vs\<rparr>)"
proof -
  assume r: "reserve i key agent_id sub mode m policy bypass s = Inr s'"
  define k a md where "k = canonicalize_session_key (Some key)" and "a = normalize_agent_id (Some agent_id)"
    and "md = (case mode of None \<Rightarrow> ''followup'' | Some m \<Rightarrow> if m = [] then ''followup'' else m)"
  have id: "s\<lparr>rt_victims := rt_victims s\<rparr> = s" by simp
  define pending where "pending = filter (\<lambda>j. j \<notin> rt_victims s) (rt_pending s k)"
  obtain drop where "(case rt_max_pending s of
           None \<Rightarrow> Inr (admit i k a sub md m None s)
         | Some limit \<Rightarrow>
             if bypass \<or> md \<in> {''steer'', ''interrupt''} \<or> length pending + length (rt_reservations s k) < limit
             then Inr (admit i k a sub md m None s)
             else (case (if drop then find (\<lambda>j. q_status (rt_task s j) = Queued) pending else None) of
                     None \<Rightarrow> Inl (Queue_Full k limit)
                   | Some v \<Rightarrow> Inr (admit i k a sub md m (Some v) (s\<lparr>rt_victims := insert v (rt_victims s)\<rparr>)))) = Inr s'"
    using r unfolding reserve_def Let_def k_def [symmetric] a_def [symmetric] md_def [symmetric] pending_def [symmetric]
      rbind_Inr_iff by blast
  then have "s' = admit i k a sub md m None s \<or> (\<exists>v. s' = admit i k a sub md m (Some v) (s\<lparr>rt_victims := insert v (rt_victims s)\<rparr>))"
    by (simp split: option.splits if_splits) blast
  then show ?thesis using id by metis
qed

lemma abort_form:
  "rt_task (abort_reservation i s) = rt_task s" "elsewhere (abort_reservation i s) = elsewhere s"
  "rt_owed (abort_reservation i s) = rt_owed s"
  "\<exists>k. rt_reservations (abort_reservation i s) = (rt_reservations s)(k := remove1 i (rt_reservations s k)) \<or>
     rt_reservations (abort_reservation i s) = rt_reservations s"
  by (auto simp: abort_reservation_def drop_reservation_def Let_def elsewhere_def limits_def split: option.split)

lemma books_bulk:
  assumes "books_ok s" and "\<forall>j. nudged (rt_task s j) (rt_task s' j)"
    and "rt_reservations s' = rt_reservations s" and "rt_pending s' = rt_pending s" and "rt_tasks s' = rt_tasks s"
    and "\<forall>c \<in> set (rt_cancels s'). c \<in> set (rt_cancels s) \<or> set (snd c) \<subseteq> set (fst c) \<and> set (fst c) \<subseteq> set (rt_tasks s)"
  shows "books_ok s'"
proof -
  have same: "q_stage (rt_task s' j) = q_stage (rt_task s j)" "q_session (rt_task s' j) = q_session (rt_task s j)" for j
    using assms(2) by (simp_all add: nudged_def ident_def)
  show ?thesis using assms(1,6) unfolding books_ok_def assms(3-5) same by blast
qed

lemma nudged_signal: "nudged (rt_task s j) (rt_task (signal_cancelled k s) j)"
proof (cases "drop k (rt_cancels s)")
  case (Cons c cs)
  have "nudged (rt_task s j) ((kill (rt_task s j))\<lparr>q_steering := False\<rparr>)"
    by (rule nudged_trans [OF nudged_kill [OF nudged_refl]]) simp
  then show ?thesis by (cases c) (simp add: signal_cancelled_def Cons)
qed (simp add: signal_cancelled_def)

lemma signal_cancels: "set (rt_cancels (signal_cancelled k s)) \<subseteq> set (rt_cancels s)"
  by (auto simp: signal_cancelled_def split: list.split dest: in_set_takeD in_set_dropD) (metis in_set_dropD list.set_intros(2))

lemma nudged_mark: "nudged (rt_task s j) (rt_task (mark_cancelled c source s) j)"
  by (simp add: mark_cancelled_def Let_def)

text \<open>The two parts of the invariant of the books.\<close>

definition reserved_ok :: "(string \<Rightarrow> stage) \<Rightarrow> (string \<Rightarrow> string) \<Rightarrow> (string \<Rightarrow> string list) \<Rightarrow> bool" where
  "reserved_ok st ses res = (\<forall>k. distinct (res k) \<and> (\<forall>i \<in> set (res k). st i = No_Driver \<and> ses i = k))"

definition enrolled_ok ::
    "(string \<Rightarrow> stage) \<Rightarrow> (string \<Rightarrow> string) \<Rightarrow> (string \<Rightarrow> string list) \<Rightarrow> string list \<Rightarrow> (string list \<times> string list) list \<Rightarrow> bool" where
  "enrolled_ok st ses pen tsk can =
     ((\<forall>k. distinct (pen k) \<and> (\<forall>i \<in> set (pen k). \<not> inert (st i) \<and> ses i = k)) \<and>
      (\<forall>i \<in> set tsk. \<not> inert (st i)) \<and>
      (\<forall>c \<in> set can. set (snd c) \<subseteq> set (fst c) \<and> (\<forall>i \<in> set (fst c). \<not> inert (st i))))"

lemma books_ok_iff:
  "books_ok s \<longleftrightarrow> reserved_ok (q_stage \<circ> rt_task s) (q_session \<circ> rt_task s) (rt_reservations s) \<and>
     enrolled_ok (q_stage \<circ> rt_task s) (q_session \<circ> rt_task s) (rt_pending s) (rt_tasks s) (rt_cancels s)"
  by (simp add: books_ok_def reserved_ok_def enrolled_ok_def)

lemma reserved_add: "reserved_ok st ses res \<Longrightarrow> st i = Absent \<Longrightarrow>
   reserved_ok (st(i := No_Driver)) (ses(i := k)) (res(k := res k @ [i]))"
  unfolding reserved_ok_def by (auto; metis stage.distinct(1))

lemma reserved_drop:
  assumes "reserved_ok st ses res"
  shows "reserved_ok st ses (res(k := remove1 i (res k)))"
  using assms unfolding reserved_ok_def by (auto simp: distinct_remove1 dest: notin_set_remove1)

lemma reserved_enrol:
  assumes "reserved_ok st ses res" and "i \<in> set (res k)"
  shows "reserved_ok (st(i := New)) ses (res(k := remove1 i (res k)))"
proof -
  have "i \<notin> set (res j)" if "j \<noteq> k" for j using assms that unfolding reserved_ok_def by metis
  then show ?thesis using assms(1) unfolding reserved_ok_def by (auto simp: distinct_remove1)
qed

lemma enrolled_inert: "enrolled_ok st ses pen tsk can \<Longrightarrow> inert (st i) \<Longrightarrow> enrolled_ok (st(i := x)) (ses(i := k)) pen tsk can"
  unfolding enrolled_ok_def by (auto split: if_splits)

lemma enrolled_add:
  "enrolled_ok st ses pen tsk can \<Longrightarrow> inert (st i) \<Longrightarrow>
   enrolled_ok (st(i := New)) ses (pen(ses i := pen (ses i) @ [i])) (tsk @ [i]) can"
  unfolding enrolled_ok_def by (auto split: if_splits)

lemma books_activate:
  assumes "books_ok s" and "activate i s = Inr s'"
  shows "books_ok s'"
proof (cases "s' = s")
  case False
  then obtain s3 r where i: "i \<in> set (rt_reservations s (q_session (rt_task s i)))" and s': "s' = (enrol i s3)\<lparr>rt_resv := r\<rparr>"
    and n: "\<forall>j. nudged (rt_task s j) (rt_task s3 j)" and e: "elsewhere s3 = elsewhere s"
    and res: "rt_reservations s3 = (rt_reservations s)(q_session (rt_task s i) := remove1 i (rt_reservations s (q_session (rt_task s i))))"
    using activate_cases [OF assms(2,1)] by blast
  have st: "q_stage \<circ> rt_task s3 = q_stage \<circ> rt_task s" "q_session \<circ> rt_task s3 = q_session \<circ> rt_task s"
    using n by (auto simp: nudged_def ident_def fun_eq_iff)
  have ses: "q_session (rt_task s3 i) = q_session (rt_task s i)" using n by (simp add: nudged_def ident_def)
  have b: "reserved_ok (q_stage \<circ> rt_task s) (q_session \<circ> rt_task s) (rt_reservations s)"
    "enrolled_ok (q_stage \<circ> rt_task s) (q_session \<circ> rt_task s) (rt_pending s) (rt_tasks s) (rt_cancels s)"
    using assms(1) by (simp_all add: books_ok_iff)
  have "inert ((q_stage \<circ> rt_task s) i)" using b(1) i by (auto simp: reserved_ok_def inert_iff)
  then have "enrolled_ok ((q_stage \<circ> rt_task s)(i := New)) (q_session \<circ> rt_task s)
      ((rt_pending s)(q_session (rt_task s i) := rt_pending s (q_session (rt_task s i)) @ [i])) (rt_tasks s @ [i]) (rt_cancels s)"
    using enrolled_add [OF b(2), of i] by simp
  moreover have "reserved_ok ((q_stage \<circ> rt_task s)(i := New)) (q_session \<circ> rt_task s) (rt_reservations s3)"
    using reserved_enrol [OF b(1) i] res by simp
  ultimately show ?thesis
    using e by (simp add: books_ok_iff s' enrol_alt st ses elsewhere_def)
qed (use assms(1) in simp)

lemma books_step:
  assumes "runtime_step s s'" and "books_ok s" and "\<forall>i. task_ok (rt_task s i)"
  shows "books_ok s'"
  using frame_step [OF assms(1)]
proof (elim disjE exE conjE)
  fix i k a sub mode m policy bypass
  assume r: "q_stage (rt_task s i) = Absent" "reserve i k a sub mode m policy bypass s = Inr s'"
  obtain k' a' md victim vs where "s' = admit i k' a' sub md m victim (s\<lparr>rt_victims := vs\<rparr>)"
    using reserve_form [OF r(2)] by blast
  then show ?thesis
    using assms(2) r(1) reserved_add [of "q_stage \<circ> rt_task s" "q_session \<circ> rt_task s" "rt_reservations s" i k']
      enrolled_inert [of "q_stage \<circ> rt_task s" "q_session \<circ> rt_task s" "rt_pending s" "rt_tasks s" "rt_cancels s" i No_Driver k']
    by (simp add: books_ok_iff admit_def op_defs)
next
  fix i
  assume "s' = abort_reservation i s"
  then show ?thesis
    using abort_form [of i s] assms(2) reserved_drop [of "q_stage \<circ> rt_task s" "q_session \<circ> rt_task s" "rt_reservations s"]
    by (auto simp: books_ok_iff elsewhere_def)
next
  fix k
  assume "s' = signal_cancelled k s"
  moreover have "books_ok (signal_cancelled k s)"
  proof (rule books_bulk [OF assms(2)])
    show "\<forall>j. nudged (rt_task s j) (rt_task (signal_cancelled k s) j)" using nudged_signal by blast
    show "\<forall>c \<in> set (rt_cancels (signal_cancelled k s)). c \<in> set (rt_cancels s) \<or>
        set (snd c) \<subseteq> set (fst c) \<and> set (fst c) \<subseteq> set (rt_tasks s)" using signal_cancels by blast
  qed (simp_all add: signal_cancelled_def split: list.split)
  ultimately show ?thesis by simp
next
  fix c source
  assume c: "\<forall>i \<in> set c. i \<in> set (rt_tasks s)" "s' = mark_cancelled c source s"
  have "books_ok (mark_cancelled c source s)"
  proof (rule books_bulk [OF assms(2)])
    show "\<forall>j. nudged (rt_task s j) (rt_task (mark_cancelled c source s) j)" using nudged_mark by blast
  qed (auto simp: mark_cancelled_def Let_def)
  then show ?thesis using c by simp
next
  fix i
  assume k: "q_kill (rt_task s i)" "s' = deliver_cancel i s"
  then have "\<not> inert (q_stage (rt_task s i))" using assms(3) task_okD(7) by blast
  then show ?thesis using frame_books [OF frame_deliver] assms(2) k(2) by blast
qed (use assms(2) frame_books books_activate in blast)+

section \<open>The lock\<close>

lemma lock_nudged:
  assumes "lock_ok s" and "\<forall>j. nudged (rt_task s j) (rt_task s' j)" and "rt_holder s' = rt_holder s" and "rt_queue s' = rt_queue s"
  shows "lock_ok s'"
proof -
  have "q_stage \<circ> rt_task s' = q_stage \<circ> rt_task s" "q_session \<circ> rt_task s' = q_session \<circ> rt_task s"
    using assms(2) by (auto simp: nudged_def ident_def fun_eq_iff)
  then show ?thesis using assms(1,3,4) by simp
qed

lemma lock_activate:
  assumes "lock_ok s" and "books_ok s" and "activate i s = Inr s'"
  shows "lock_ok s'"
proof (cases "s' = s")
  case False
  then obtain s3 r where i: "i \<in> set (rt_reservations s (q_session (rt_task s i)))" and s': "s' = (enrol i s3)\<lparr>rt_resv := r\<rparr>"
    and n: "\<forall>j. nudged (rt_task s j) (rt_task s3 j)" and e: "elsewhere s3 = elsewhere s"
    using activate_cases [OF assms(3,2)] by blast
  have l3: "lock_ok s3" by (rule lock_nudged [OF assms(1) n]) (use e in \<open>simp_all add: elsewhere_def\<close>)
  have "q_stage (rt_task s i) = No_Driver" using i assms(2) unfolding books_ok_def by blast
  then have "q_stage (rt_task s3 i) = No_Driver" using n by (simp add: nudged_def)
  then show ?thesis using lane_outside [OF l3, of i New "q_session (rt_task s3 i)"] by (simp add: s' enrol_alt)
qed (use assms(1) in simp)

lemma lock_finish:
  assumes "lock_ok s" and "inside (q_stage (rt_task s i))"
  shows "lock_ok (finish_turn i st s)"
  using assms lane_inside [OF assms(1), of i "Closing st"] lane_leave [OF assms(1), of i "Closing st"]
  by (cases "st = Succeeded") (simp_all add: finish_turn_def alts op_defs split: if_splits)

lemma lock_step:
  assumes "runtime_step s s'" and "lock_ok s" and "books_ok s"
  shows "lock_ok s'"
  using assms(1)
proof cases
  case (Reserve i k a sub mode m policy bypass)
  obtain k' a' md victim vs where "s' = admit i k' a' sub md m victim (s\<lparr>rt_victims := vs\<rparr>)"
    using reserve_form [OF Reserve(2)] by blast
  then show ?thesis using lane_outside [OF assms(2), of i No_Driver k'] Reserve(1) by (simp add: admit_def op_defs)
next
  case (Abort i)
  then show ?thesis using assms(2) abort_form(1,2) [of i s] by (simp add: elsewhere_def)
next
  case (Activate i)
  then show ?thesis using lock_activate assms(2,3) by blast
next
  case (Wake_Gate i)
  then show ?thesis using assms(2) lane_inside [OF assms(2), of i] by (simp add: try_gate_def alts op_defs)
next
  case (Wake_Fair i)
  then show ?thesis using assms(2) lane_inside [OF assms(2), of i] by (simp add: alts)
next
  case (Run i)
  then show ?thesis using lane_inside [OF assms(2), of i In_Turn] lock_exit [OF assms(2), of i]
    by (simp add: mark_running_def remove_pending_def op_defs)
next
  case (Return i st)
  then show ?thesis using lane_leave [OF assms(2), of i Ended] by (simp add: alts op_defs split: if_splits)
next
  case (Cancel c source)
  then show ?thesis using lock_nudged [OF assms(2), of s'] nudged_mark by (simp add: mark_cancelled_def Let_def)
next
  case (Signal k)
  have "lock_ok (signal_cancelled k s)"
    by (rule lock_nudged [OF assms(2)]) (use nudged_signal in \<open>blast, simp_all add: signal_cancelled_def split: list.split\<close>)
  then show ?thesis using Signal by simp
qed (use assms(2) in \<open>simp_all add: lock_start lock_take lock_finish lock_deliver begin_terminal_alt end_terminal_def
    clear_running_alt leave_lane_alt remove_pending_def op_defs collect_begin_def collect_end_def split: option.splits\<close>)

section \<open>Every task\<close>

lemma tasks_one:
  assumes "tasks_ok s" and "rt_task s' = (rt_task s)(i := t)" and "task_ok t" and "doomed (rt_task s i) \<longrightarrow> doomed t"
    and "set (rt_owed s') \<subseteq> set (rt_owed s)"
  shows "tasks_ok s'"
  using assms unfolding tasks_ok_def by (auto simp: subset_iff)

lemma tasks_nudged:
  assumes "tasks_ok s" and "\<forall>j. nudged (rt_task s j) (rt_task s' j)"
    and "\<forall>v \<in> set (rt_owed s'). v \<in> set (rt_owed s) \<or> doomed (rt_task s' v)"
  shows "tasks_ok s'"
  using assms nudged_ok unfolding tasks_ok_def by blast

lemma tasks_activate:
  assumes "tasks_ok s" and "books_ok s" and "activate i s = Inr s'"
  shows "tasks_ok s'"
proof (cases "s' = s")
  case False
  then obtain s3 r where i: "i \<in> set (rt_reservations s (q_session (rt_task s i)))" and s': "s' = (enrol i s3)\<lparr>rt_resv := r\<rparr>"
    and n: "\<forall>j. nudged (rt_task s j) (rt_task s3 j)"
    and o3: "rt_owed s3 = rt_owed s \<or> (\<exists>v. rt_owed s3 = rt_owed s @ [v] \<and> doomed (rt_task s3 v))"
    using activate_cases [OF assms(3,2)] by blast
  have t3: "tasks_ok s3" by (rule tasks_nudged [OF assms(1) n]) (use o3 in auto)
  have "q_stage (rt_task s i) = No_Driver" using i assms(2) unfolding books_ok_def by blast
  then have st: "q_stage (rt_task s3 i) = No_Driver" using n by (simp add: nudged_def)
  have t: "task_ok (rt_task s3 i)" using t3 by (simp add: tasks_ok_def)
  then have "\<not> doomed (rt_task s3 i)" using st task_okD(7) [OF t] by (simp add: doomed_def)
  then show ?thesis using task_ok_new [OF t st]
    by (intro tasks_one [OF t3, of s' i "(rt_task s3 i)\<lparr>q_stage := New\<rparr>"]) (simp_all add: s' enrol_alt)
qed (use assms(1) in simp)

lemma tasks_enter:
  assumes "tasks_ok s" and "q_stage (rt_task s i) \<in> {New, At_Lock}" and "\<not> q_kill (rt_task s i)"
    and "s' = enter i s1" and "rt_task s1 = (rt_task s)(i := t)" and "task_ok t" and "q_stage t = q_stage (rt_task s i)"
    and "\<not> q_kill t" and "rt_owed s1 = rt_owed s"
  shows "tasks_ok s'"
proof -
  have e: "early (q_stage t)" "\<not> slotted (q_stage t)" using assms(2,7) by auto
  have "\<exists>t'. rt_task s' = (rt_task s)(i := t') \<and>
      t' \<in> {slot_task True t, slot_task False t, t\<lparr>q_stage := At_Gate\<rparr>, t\<lparr>q_stage := Closing Cancelled\<rparr>}"
    using assms(4,5) by (simp add: enter_def try_gate_def alts op_defs) blast
  then obtain t' where t': "rt_task s' = (rt_task s)(i := t')"
      "t' \<in> {slot_task True t, slot_task False t, t\<lparr>q_stage := At_Gate\<rparr>, t\<lparr>q_stage := Closing Cancelled\<rparr>}" by blast
  have "task_ok t'" using t'(2) task_ok_slot [OF assms(6) e assms(8)] task_ok_goto [OF assms(6) e assms(8)] by auto
  moreover have "\<not> doomed (rt_task s i)" using assms(2,3) by (auto simp: doomed_def)
  moreover have "rt_owed s' = rt_owed s" using assms(4,9) by (simp add: enter_def try_gate_def alts op_defs)
  ultimately show ?thesis by (intro tasks_one [OF assms(1) t'(1)]) simp_all
qed

lemma tasks_deliver:
  assumes "tasks_ok s" and "q_kill (rt_task s i)"
  shows "tasks_ok (deliver_cancel i s)"
proof -
  let ?t = "rt_task s i"
  have t: "task_ok ?t" using assms(1) by (simp add: tasks_ok_def)
  have "\<exists>t'. rt_task (deliver_cancel i s) = (rt_task s)(i := t') \<and> past (q_stage t') \<and> task_ok t'"
  proof (cases "q_stage ?t")
    case New
    then show ?thesis using task_ok_past [OF task_ok_kill [OF t], of Ended] t
      by (intro exI [of _ "?t\<lparr>q_kill := False, q_stage := Ended\<rparr>"])
         (simp add: deliver_cancel_def op_defs task_ok_def doomed_def terminal_closing_def)
  next
    case (Closing x)
    have "task_ok (?t\<lparr>q_kill := False, q_stage := Ended\<rparr>)" using t Closing
      by (simp add: task_ok_def doomed_def terminal_closing_def)
    then show ?thesis using task_ok_exit_unkill [OF t] Closing
      by (cases "rt_holder s (q_session ?t) = Some i") (auto simp: deliver_cancel_def alts op_defs)
  next
    case Ended
    then show ?thesis using task_ok_unkill [OF t]
      by (intro exI [of _ "?t\<lparr>q_kill := False\<rparr>"]) (simp add: deliver_cancel_def op_defs)
  qed (use task_ok_exit_unkill [OF t] task_okD(7) [OF t] assms(2) in \<open>auto simp: deliver_cancel_def alts op_defs\<close>)
  then obtain t' where t': "rt_task (deliver_cancel i s) = (rt_task s)(i := t')" "past (q_stage t')" "task_ok t'" by blast
  have "rt_owed (deliver_cancel i s) = rt_owed s"
    by (cases "q_stage ?t") (simp_all add: deliver_cancel_def alts op_defs)
  then show ?thesis using t'(2,3) by (intro tasks_one [OF assms(1) t'(1)]) (simp_all add: doomed_def)
qed

lemma tasks_step:
  assumes "runtime_step s s'" and "tasks_ok s" and "books_ok s"
  shows "tasks_ok s'"
proof -
  have all: "task_ok (rt_task s i)" for i using assms(2) by (simp add: tasks_ok_def)
  have not_doomed: "\<not> doomed (rt_task s i)" if "\<not> q_kill (rt_task s i)" "\<not> past (q_stage (rt_task s i))" for i
    using that by (simp add: doomed_def)
  show ?thesis
    using assms(1)
  proof cases
    case (Reserve i k a sub mode m policy bypass)
    obtain k' a' md victim vs where "s' = admit i k' a' sub md m victim (s\<lparr>rt_victims := vs\<rparr>)"
      using reserve_form [OF Reserve(2)] by blast
    moreover have "\<not> doomed (rt_task s i)" using Reserve(1) task_okD(7) [OF all, of i] not_doomed by simp
    ultimately show ?thesis
      by (intro tasks_one [OF assms(2), of s' i "blank_task\<lparr>q_session := k', q_agent := a', q_subagent := sub, q_mode := md,
            q_message := m, q_stage := No_Driver\<rparr>"])
         (simp_all add: admit_def op_defs task_ok_def blank_task_def terminal_closing_def)
  next
    case (Abort i)
    then show ?thesis using assms(2) abort_form [of i s] by (simp add: tasks_ok_def)
  next
    case (Activate i)
    then show ?thesis using tasks_activate assms(2,3) by blast
  next
    case (Start i)
    let ?t = "(rt_task s i)\<lparr>q_started := True\<rparr>"
    let ?s = "change i (\<lambda>t. t\<lparr>q_started := True\<rparr>) s"
    have "task_ok (?t\<lparr>q_stage := At_Lock\<rparr>)" using task_ok_goto [of ?t At_Lock] all [of i] Start by simp
    then have "tasks_ok (goto i At_Lock (?s\<lparr>rt_queue := q\<rparr>))" for q
      using Start not_doomed by (intro tasks_one [OF assms(2), of _ i "?t\<lparr>q_stage := At_Lock\<rparr>"]) (simp_all add: op_defs)
    moreover have "tasks_ok (enter i ?s)"
      using Start all by (intro tasks_enter [OF assms(2), of i _ ?s ?t]) (simp_all add: op_defs)
    ultimately show ?thesis using Start by (simp add: start_driver_def Let_def)
  next
    case (Take_Lock i rest)
    then show ?thesis using all
      by (intro tasks_enter [OF assms(2), of i s' "s\<lparr>rt_queue := q\<rparr>" "rt_task s i" for q]) (simp_all add: take_lock_def Let_def)
  next
    case (Wake_Gate i)
    have "task_ok (slot_task b (rt_task s i))" for b using task_ok_slot [OF all] Wake_Gate by simp
    then have "tasks_ok (try_slot i s)"
      using Wake_Gate not_doomed by (intro tasks_one [OF assms(2), of _ i "slot_task (slot_free i s) (rt_task s i)"]) (simp_all add: alts)
    moreover have "tasks_ok (goto i At_Gate s)"
      using Wake_Gate task_ok_goto [OF all, of i At_Gate]
      by (intro tasks_one [OF assms(2), of _ i "(rt_task s i)\<lparr>q_stage := At_Gate\<rparr>"]) (simp_all add: op_defs doomed_def)
    ultimately show ?thesis using Wake_Gate by (simp add: try_gate_def)
  next
    case (Wake_Fair i)
    have "task_ok (slot_task b (rt_task s i))" for b using task_ok_slot [OF all] Wake_Fair by simp
    then show ?thesis
      using Wake_Fair not_doomed by (intro tasks_one [OF assms(2), of _ i "slot_task (slot_free i s) (rt_task s i)"]) (simp_all add: alts)
  next
    case (Run i)
    have o: "\<not> terminal_closing (rt_task s i)" using open_task [OF all not_doomed] Run by simp
    have "tasks_ok (cancelled_exit i s)"
      by (rule tasks_one [OF assms(2), of _ i "exit_task (rt_task s i)"]) (simp_all add: alts task_ok_exit all)
    moreover have "tasks_ok (change i (\<lambda>t. t\<lparr>q_status := Running, q_stage := In_Turn\<rparr>)
        ((remove_pending i s)\<lparr>rt_running := (rt_running s)(q_session (rt_task s i) \<mapsto> i)\<rparr>))"
      using task_ok_run [OF all _ o] Run not_doomed
      by (intro tasks_one [OF assms(2), of _ i "(rt_task s i)\<lparr>q_status := Running, q_stage := In_Turn\<rparr>"])
         (simp_all add: remove_pending_def op_defs)
    ultimately show ?thesis using Run by (simp add: mark_running_def Let_def)
  next
    case (Refuse i)
    then show ?thesis using task_ok_past [OF all, of "Closing Failed" i]
      by (intro tasks_one [OF assms(2), of _ i "(rt_task s i)\<lparr>q_slot := False, q_stage := Closing Failed\<rparr>"])
         (simp_all add: finish_turn_def alts op_defs doomed_def)
  next
    case (Finish i st)
    then have "over st" by auto
    then show ?thesis using Finish task_ok_past [OF all, of "Closing st" i]
      by (intro tasks_one [OF assms(2), of _ i "(rt_task s i)\<lparr>q_slot := False, q_stage := Closing st\<rparr>"])
         (simp_all add: finish_turn_def alts op_defs doomed_def)
  next
    case (Deliver i)
    then show ?thesis using tasks_deliver assms(2) by blast
  next
    case (Settle_Own i st)
    have "over st" using task_okD(8) [OF all, of i] Settle_Own by simp
    moreover have "doomed (rt_task s i)" using Settle_Own by (simp add: doomed_def)
    ultimately show ?thesis using Settle_Own task_ok_begin [OF all, of i st] all
      by (intro tasks_one [OF assms(2), of _ i "rt_task s' i"]) (auto simp: begin_terminal_alt doomed_def)
  next
    case (Settle_Owed i)
    then have "doomed (rt_task s i)" using assms(2) by (simp add: tasks_ok_def)
    then show ?thesis using Settle_Owed task_ok_begin [OF all, of i Cancelled] all
      by (intro tasks_one [OF assms(2), of _ i "rt_task s' i"]) (auto simp: begin_terminal_alt doomed_def set_remove1_subset)
  next
    case (Settled i)
    then show ?thesis using task_ok_end [OF all, of i]
      by (intro tasks_one [OF assms(2), of _ i "(rt_task s i)\<lparr>q_settling := False, q_settled := True\<rparr>"])
         (simp_all add: end_terminal_def clear_running_alt leave_lane_alt remove_pending_def op_defs)
  next
    case (Return i st)
    have "task_ok ((rt_task s i)\<lparr>q_stage := Ended\<rparr>)"
      using all [of i] Return by (simp add: task_ok_def doomed_def terminal_closing_def)
    then show ?thesis using Return
      by (intro tasks_one [OF assms(2), of _ i "(rt_task s i)\<lparr>q_stage := Ended\<rparr>"]) (simp_all add: alts op_defs doomed_def)
  next
    case (Cancel c source)
    then show ?thesis using nudged_mark by (intro tasks_nudged [OF assms(2)]) (simp_all add: mark_cancelled_def Let_def)
  next
    case (Signal k)
    show ?thesis
    proof (rule tasks_nudged [OF assms(2)])
      show "\<forall>j. nudged (rt_task s j) (rt_task s' j)" using nudged_signal Signal by simp
      show "\<forall>v \<in> set (rt_owed s'). v \<in> set (rt_owed s) \<or> doomed (rt_task s' v)"
      proof (cases "drop k (rt_cancels s)")
        case (Cons c cs)
        then have "c \<in> set (rt_cancels s)" by (metis in_set_dropD list.set_intros(1))
        then have "set (snd c) \<subseteq> set (fst c)" "\<forall>i \<in> set (fst c). \<not> inert (q_stage (rt_task s i))"
          using assms(3) by (simp_all add: books_ok_def)
        then have "doomed ((kill (rt_task s v))\<lparr>q_steering := False\<rparr>)" "v \<in> set (fst c)" if "v \<in> set (snd c)" for v
          using that kill_doomed by auto
        then show ?thesis using Signal Cons by (cases c) (auto simp: signal_cancelled_def)
      qed (simp add: Signal signal_cancelled_def)
    qed
  next
    case (Collect i)
    have "task_ok ((rt_task s i)\<lparr>q_collecting := True\<rparr>)" if "q_status (rt_task s i) = Queued"
      using all [of i] that by (simp add: task_ok_def terminal_closing_def)
    then show ?thesis using Collect assms(2)
      by (auto simp: collect_begin_def collectable_def op_defs intro!: tasks_one [OF assms(2), of _ i "(rt_task s i)\<lparr>q_collecting := True\<rparr>"])
  next
    case (Collected i m)
    have "task_ok (t\<lparr>q_collecting := False\<rparr>)" if "task_ok t" for t using that by (simp add: task_ok_def terminal_closing_def)
    then show ?thesis using Collected all
      by (intro tasks_one [OF assms(2), of _ i "rt_task s' i"]) (simp_all add: collect_end_def op_defs split: option.split)
  qed
qed

end
