(* ===== verification/Task_Slots.thy ===== *)
theory Task_Slots
  imports Task_Safety
begin

text \<open>
  The slots of the task runtime: what is counted, the limits, the queue of those who wait for a
  slot, and why none stays idle.
\<close>

section \<open>Slots\<close>

definition slot_count ::
    "(string \<Rightarrow> bool) \<Rightarrow> (string \<Rightarrow> string) \<Rightarrow> (string \<Rightarrow> bool) \<Rightarrow> nat \<Rightarrow> nat \<Rightarrow> (string \<Rightarrow> nat) \<Rightarrow> bool" where
  "slot_count sl ag su n m f =
     (finite {i. sl i} \<and> n = card {i. sl i} \<and> m = card {i. sl i \<and> su i} \<and> (\<forall>a. f a = card {i. sl i \<and> ag i = a}))"

lemma card_add: "finite {j. sl j} \<Longrightarrow> \<not> sl i \<Longrightarrow>
   card {j. (sl(i := True)) j \<and> P j} = card {j. sl j \<and> P j} + (if P i then 1 else 0)"
proof -
  assume f: "finite {j. sl j}" "\<not> sl i"
  have "{j. (sl(i := True)) j \<and> P j} = (if P i then insert i {j. sl j \<and> P j} else {j. sl j \<and> P j})" by auto
  moreover have "finite {j. sl j \<and> P j}" using f(1) by (rule rev_finite_subset) auto
  ultimately show ?thesis using f(2) by simp
qed

lemma card_drop: "finite {j. sl j} \<Longrightarrow> sl i \<Longrightarrow>
   card {j. (sl(i := False)) j \<and> P j} = card {j. sl j \<and> P j} - (if P i then 1 else 0)"
proof -
  assume f: "finite {j. sl j}" "sl i"
  have e: "{j. (sl(i := False)) j \<and> P j} = (if P i then {j. sl j \<and> P j} - {i} else {j. sl j \<and> P j})" by auto
  have "finite {j. sl j \<and> P j}" using f(1) by (rule rev_finite_subset) auto
  then show ?thesis unfolding e using f(2) by simp
qed

lemma slot_count_one:
  assumes "slot_count sl ag su n m f" and "\<not> sl i"
  shows "slot_count (sl(i := True)) ag su (n + 1) (if su i then m + 1 else m) (f(ag i := f (ag i) + 1))"
proof -
  have f: "finite {j. sl j}" using assms(1) by (simp add: slot_count_def)
  have e: "Collect (sl(i := True)) = insert i (Collect sl)" by auto
  have "finite (Collect (sl(i := True)))" "card (Collect (sl(i := True))) = card (Collect sl) + 1" unfolding e using f assms(2) by simp_all
  then show ?thesis
    using assms(1) unfolding slot_count_def card_add [OF f assms(2)] by simp
qed

lemma slot_count_drop:
  assumes "slot_count sl ag su n m f" and "sl i"
  shows "slot_count (sl(i := False)) ag su (n - 1) (if su i then m - 1 else m) (f(ag i := f (ag i) - 1))"
proof -
  have f: "finite {j. sl j}" using assms(1) by (simp add: slot_count_def)
  have e: "Collect (sl(i := False)) = Collect sl - {i}" by (auto split: if_splits)
  have "finite (Collect (sl(i := False)))" "card (Collect (sl(i := False))) = card (Collect sl) - 1" unfolding e using f assms(2) by simp_all
  then show ?thesis
    using assms(1) unfolding slot_count_def card_drop [OF f assms(2)] by simp
qed

lemma slot_count_other:
  assumes "slot_count sl ag su n m f" and "\<not> sl i"
  shows "slot_count (sl(i := False)) (ag(i := a)) (su(i := b)) n m f"
proof -
  have "{j. (sl(i := False)) j} = {j. sl j}" "{j. (sl(i := False)) j \<and> (su(i := b)) j} = {j. sl j \<and> su j}"
    "{j. (sl(i := False)) j \<and> (ag(i := a)) j = c} = {j. sl j \<and> ag j = c}" for c
    using assms(2) by auto
  then show ?thesis using assms(1) by (simp add: slot_count_def)
qed

abbreviation counted :: "task_runtime \<Rightarrow> bool" where
  "counted s \<equiv> slot_count (q_slot \<circ> rt_task s) (q_agent \<circ> rt_task s) (q_subagent \<circ> rt_task s)
     (rt_in_flight s) (rt_sub_in_flight s) (rt_agent_in_flight s)"

text \<open>Subagents stay clear of the reserve; with a reserve none of them waits behind the gate.\<close>

definition slots_ok :: "task_runtime \<Rightarrow> bool" where
  "slots_ok s =
     (counted s \<and> rt_in_flight s \<le> rt_max s \<and> (0 < rt_reserved_slots s \<longrightarrow> rt_sub_in_flight s \<le> rt_max s - rt_reserved_slots s) \<and>
      (\<forall>i. q_stage (rt_task s i) = At_Fair \<and> q_subagent (rt_task s i) \<longrightarrow> rt_reserved_slots s = 0))"

lemma slots_okI:
  assumes "counted s" and "rt_in_flight s \<le> rt_max s" and "0 < rt_reserved_slots s \<Longrightarrow> rt_sub_in_flight s \<le> rt_max s - rt_reserved_slots s"
    and "\<And>i. q_stage (rt_task s i) = At_Fair \<Longrightarrow> q_subagent (rt_task s i) \<Longrightarrow> rt_reserved_slots s = 0"
  shows "slots_ok s"
  unfolding slots_ok_def using assms by blast

lemma slots_okD:
  assumes "slots_ok s"
  shows "counted s" "rt_in_flight s \<le> rt_max s" "0 < rt_reserved_slots s \<Longrightarrow> rt_sub_in_flight s \<le> rt_max s - rt_reserved_slots s"
    "q_stage (rt_task s i) = At_Fair \<Longrightarrow> q_subagent (rt_task s i) \<Longrightarrow> rt_reserved_slots s = 0"
  using assms unfolding slots_ok_def by blast+

text \<open>Steps that do not touch the counters.\<close>

definition still :: "task_runtime \<Rightarrow> task_runtime \<Rightarrow> bool" where
  "still s s' =
     ((rt_max s', rt_reserved_slots s', rt_in_flight s', rt_sub_in_flight s', rt_agent_in_flight s') =
       (rt_max s, rt_reserved_slots s, rt_in_flight s, rt_sub_in_flight s, rt_agent_in_flight s) \<and>
      (\<forall>i. ident (rt_task s' i) = ident (rt_task s i) \<and> q_slot (rt_task s' i) = q_slot (rt_task s i) \<and>
         (q_stage (rt_task s' i) = At_Fair \<longrightarrow> q_stage (rt_task s i) = At_Fair)))"

lemma slots_still:
  assumes "still s s'" and "slots_ok s"
  shows "slots_ok s'"
proof -
  have id: "ident (rt_task s' i) = ident (rt_task s i)" "q_slot (rt_task s' i) = q_slot (rt_task s i)" for i
    using assms(1) by (simp_all add: still_def)
  then have eqs: "q_slot \<circ> rt_task s' = q_slot \<circ> rt_task s" "q_agent \<circ> rt_task s' = q_agent \<circ> rt_task s"
    "q_subagent \<circ> rt_task s' = q_subagent \<circ> rt_task s" by (simp_all add: fun_eq_iff ident_def)
  have nums: "rt_max s' = rt_max s" "rt_reserved_slots s' = rt_reserved_slots s" "rt_in_flight s' = rt_in_flight s"
    "rt_sub_in_flight s' = rt_sub_in_flight s" "rt_agent_in_flight s' = rt_agent_in_flight s"
    using assms(1) by (simp_all add: still_def)
  show ?thesis
  proof (rule slots_okI)
    fix i
    assume "q_stage (rt_task s' i) = At_Fair" "q_subagent (rt_task s' i)"
    then have "q_stage (rt_task s i) = At_Fair" "q_subagent (rt_task s i)"
      using assms(1) id(1) [of i] by (simp_all add: still_def ident_def)
    then show "rt_reserved_slots s' = 0" using slots_okD(4) [OF assms(2)] nums by simp
  qed (use slots_okD(1-3) [OF assms(2)] in \<open>simp_all only: eqs nums\<close>)
qed

lemma sub_le: "counted s \<Longrightarrow> rt_sub_in_flight s \<le> rt_in_flight s"
  unfolding slot_count_def by (metis (no_types, lifting) Collect_mono card_mono mem_Collect_eq)

lemma slots_grant:
  assumes "slots_ok s" and "\<not> q_slot (rt_task s i)" and "rt_in_flight s < rt_max s" and "\<not> gate_closed i s"
  shows "slots_ok (grant_slot i s)"
proof (rule slots_okI)
  let ?s = "grant_slot i s"
  show "counted ?s"
    using slot_count_one [OF slots_okD(1) [OF assms(1)], of i] assms(2) by (simp add: grant_slot_alt)
  show "rt_in_flight ?s \<le> rt_max ?s" using assms(3) by (simp add: grant_slot_alt)
  show "rt_sub_in_flight ?s \<le> rt_max ?s - rt_reserved_slots ?s" if "0 < rt_reserved_slots ?s"
    using assms(3,4) that slots_okD(3) [OF assms(1)] sub_le [OF slots_okD(1) [OF assms(1)]]
    by (auto simp: grant_slot_alt gate_closed_def)
  fix j
  assume "q_stage (rt_task ?s j) = At_Fair" "q_subagent (rt_task ?s j)"
  then have "q_stage (rt_task s j) = At_Fair" "q_subagent (rt_task s j)" by (simp_all add: grant_slot_alt split: if_splits)
  then show "rt_reserved_slots ?s = 0" using slots_okD(4) [OF assms(1)] by (simp add: grant_slot_alt)
qed

lemma slots_release:
  assumes "slots_ok s"
  shows "slots_ok (release_slot i s)"
proof (cases "q_slot (rt_task s i)")
  case True
  show ?thesis
  proof (rule slots_okI)
    let ?s = "release_slot i s"
    show "counted ?s" using slot_count_drop [OF slots_okD(1) [OF assms], of i] True by (simp add: release_slot_alt)
    show "rt_in_flight ?s \<le> rt_max ?s" using slots_okD(2) [OF assms] by (auto simp: release_slot_alt)
    show "rt_sub_in_flight ?s \<le> rt_max ?s - rt_reserved_slots ?s" if "0 < rt_reserved_slots ?s"
      using slots_okD(3) [OF assms] that by (auto simp: release_slot_alt)
    fix j
    assume "q_stage (rt_task ?s j) = At_Fair" "q_subagent (rt_task ?s j)"
    then have "q_stage (rt_task s j) = At_Fair" "q_subagent (rt_task s j)" by (simp_all add: release_slot_alt split: if_splits)
    then show "rt_reserved_slots ?s = 0" using slots_okD(4) [OF assms] by (simp add: release_slot_alt)
  qed
qed (use assms in \<open>simp add: release_slot_def Let_def\<close>)

text \<open>A subagent that passes the gate while a reserve is kept finds two slots idle, and takes one.\<close>

lemma slots_try:
  assumes "slots_ok s" and "\<not> q_slot (rt_task s i)" and "\<not> gate_closed i s"
  shows "slots_ok (try_slot i s)"
proof (cases "slot_free i s")
  case True
  then have "rt_in_flight s < rt_max s" by (simp add: slot_free_def may_take_slot_def)
  then show ?thesis using slots_grant [OF assms(1,2) _ assms(3)] True by (simp add: try_slot_alt)
next
  case False
  have none: "rt_reserved_slots s = 0" if "q_subagent (rt_task s i)"
    using False assms(3) that by (auto simp: gate_closed_def slot_free_def may_take_slot_def)
  show ?thesis
  proof (rule slots_okI)
    let ?s = "try_slot i s"
    show "counted ?s" using slots_okD(1) [OF assms(1)] assms(2) False by (simp add: try_slot_alt)
    show "rt_in_flight ?s \<le> rt_max ?s" "0 < rt_reserved_slots ?s \<Longrightarrow> rt_sub_in_flight ?s \<le> rt_max ?s - rt_reserved_slots ?s"
      using slots_okD(2,3) [OF assms(1)] False by (simp_all add: try_slot_alt)
    fix j
    assume j: "q_stage (rt_task ?s j) = At_Fair" "q_subagent (rt_task ?s j)"
    show "rt_reserved_slots ?s = 0"
    proof (cases "j = i")
      case True
      then show ?thesis using j none False by (simp add: try_slot_alt)
    next
      case neq: False
      then show ?thesis using j slots_okD(4) [OF assms(1), of j] False by (simp add: try_slot_alt)
    qed
  qed
qed

lemma still_refl [simp]: "still s s"
  by (simp add: still_def)

lemma still_goto: "st \<noteq> At_Fair \<Longrightarrow> still s (goto i st s)"
  by (simp add: still_def op_defs ident_def)

lemma still_change: "(\<And>t. ident (f t) = ident t \<and> q_slot (f t) = q_slot t \<and> q_stage (f t) = q_stage t) \<Longrightarrow> still s (change i f s)"
  by (simp add: still_def op_defs)

lemma slots_try_gate: "slots_ok s \<Longrightarrow> \<not> q_slot (rt_task s i) \<Longrightarrow> slots_ok (try_gate i s)"
  using slots_try slots_still [OF still_goto [of At_Gate]] by (simp add: try_gate_def)

lemma slots_enter:
  assumes "slots_ok s" and "\<not> q_slot (rt_task s i)"
  shows "slots_ok (enter i s)"
proof -
  let ?s = "s\<lparr>rt_holder := (rt_holder s)(q_session (rt_task s i) \<mapsto> i)\<rparr>"
  have "slots_ok ?s" by (rule slots_still [OF _ assms(1)]) (simp add: still_def)
  then show ?thesis
    using slots_try_gate [of ?s i] slots_still [OF still_goto [of "Closing Cancelled"], of ?s] assms(2) by (simp add: enter_def Let_def)
qed

lemma slots_start:
  assumes "slots_ok s" and "\<not> q_slot (rt_task s i)"
  shows "slots_ok (start_driver i s)"
proof -
  let ?s = "change i (\<lambda>t. t\<lparr>q_started := True\<rparr>) s"
  have s: "slots_ok ?s" by (rule slots_still [OF still_change assms(1)]) (simp add: ident_def)
  have "slots_ok (goto i At_Lock (?s\<lparr>rt_queue := q\<rparr>))" for q
    by (rule slots_still [OF _ s]) (simp add: still_def op_defs ident_def)
  moreover have "slots_ok (enter i ?s)" using slots_enter [OF s, of i] assms(2) by (simp add: op_defs)
  ultimately show ?thesis by (simp add: start_driver_def Let_def)
qed

lemma slots_take:
  assumes "slots_ok s" and "\<not> q_slot (rt_task s i)"
  shows "slots_ok (take_lock i s)"
proof -
  have "slots_ok (s\<lparr>rt_queue := q\<rparr>)" for q by (rule slots_still [OF _ assms(1)]) (simp add: still_def)
  then show ?thesis using assms(2) by (simp add: take_lock_def Let_def slots_enter)
qed

lemma slots_exit: "slots_ok s \<Longrightarrow> slots_ok (cancelled_exit i s)"
  by (rule slots_still [OF _ slots_release [of s i]]) (auto simp: still_def alts ident_def exit_task_def Let_def)

lemma slots_finish: "slots_ok s \<Longrightarrow> slots_ok (finish_turn i st s)"
  by (rule slots_still [OF _ slots_release [of s i]]) (simp add: finish_turn_def still_def alts op_defs ident_def)

lemma slots_deliver:
  assumes "slots_ok s"
  shows "slots_ok (deliver_cancel i s)"
proof -
  let ?s = "change i (\<lambda>t. t\<lparr>q_kill := False\<rparr>) s"
  have s: "slots_ok ?s" by (rule slots_still [OF still_change assms]) (simp add: ident_def)
  have "slots_ok (?s\<lparr>rt_queue := q\<rparr>)" "slots_ok (?s\<lparr>rt_waiters := w\<rparr>)" for q w
    by (rule slots_still [OF _ s], simp add: still_def)+
  moreover have "slots_ok (goto i Ended ?s)" by (rule slots_still [OF still_goto s]) simp
  ultimately show ?thesis
    using s slots_exit by (cases "q_stage (rt_task s i)") (simp_all add: deliver_cancel_def Let_def change_def)
qed

lemma still_nudged:
  assumes "\<forall>j. nudged (rt_task s j) (rt_task s' j)" and "elsewhere s' = elsewhere s"
  shows "still s s'"
  using assms by (simp add: still_def nudged_def elsewhere_def limits_def)

lemma slots_activate:
  assumes "slots_ok s" and "books_ok s" and "activate i s = Inr s'"
  shows "slots_ok s'"
proof (cases "s' = s")
  case False
  then obtain s3 r where s': "s' = (enrol i s3)\<lparr>rt_resv := r\<rparr>" and n: "\<forall>j. nudged (rt_task s j) (rt_task s3 j)"
    and e: "elsewhere s3 = elsewhere s"
    using activate_cases [OF assms(3,2)] by blast
  have "slots_ok s3" by (rule slots_still [OF still_nudged [OF n e] assms(1)])
  then show ?thesis by (rule slots_still [rotated]) (simp add: s' still_def enrol_alt ident_def)
qed (use assms(1) in simp)

lemma slots_admit:
  assumes "slots_ok s" and "\<not> q_slot (rt_task s i)"
  shows "slots_ok (admit i k a sub mode m victim (s\<lparr>rt_victims := vs\<rparr>))"
proof (rule slots_okI)
  let ?s = "admit i k a sub mode m victim (s\<lparr>rt_victims := vs\<rparr>)"
  note slots_okD [OF assms(1)]
  then show "counted ?s" using slot_count_other [of "q_slot \<circ> rt_task s" _ _ _ _ _ i a sub] assms(2)
    by (simp add: admit_def op_defs blank_task_def)
  show "rt_in_flight ?s \<le> rt_max ?s" "0 < rt_reserved_slots ?s \<Longrightarrow> rt_sub_in_flight ?s \<le> rt_max ?s - rt_reserved_slots ?s"
    using slots_okD(2,3) [OF assms(1)] by (simp_all add: admit_def op_defs)
  fix j
  assume j: "q_stage (rt_task ?s j) = At_Fair" "q_subagent (rt_task ?s j)"
  then have "j \<noteq> i" by (auto simp: admit_def op_defs)
  then show "rt_reserved_slots ?s = 0" using j slots_okD(4) [OF assms(1), of j] by (simp add: admit_def op_defs)
qed

lemma slots_step:
  assumes "runtime_step s s'" and "slots_ok s" and "books_ok s" and "tasks_ok s"
  shows "slots_ok s'"
proof -
  have slot: "q_slot (rt_task s i) = slotted (q_stage (rt_task s i))" for i
    using assms(4) task_okD(1) by (simp add: tasks_ok_def)
  show ?thesis
    using assms(1)
  proof cases
    case (Reserve i k a sub mode m policy bypass)
    obtain k' a' md victim vs where "s' = admit i k' a' sub md m victim (s\<lparr>rt_victims := vs\<rparr>)"
      using reserve_form [OF Reserve(2)] by blast
    then show ?thesis using slots_admit [OF assms(2)] slot [of i] Reserve(1) by simp
  next
    case (Abort i)
    have "still s s'" using abort_form(1,2) [of i s] Abort by (simp add: still_def elsewhere_def limits_def)
    then show ?thesis using slots_still assms(2) by blast
  next
    case (Activate i)
    then show ?thesis using slots_activate assms(2,3) by blast
  next
    case (Wake_Fair i)
    have "\<not> gate_closed i s" using slots_okD(4) [OF assms(2), of i] Wake_Fair by (auto simp: gate_closed_def)
    then show ?thesis using slots_try [OF assms(2)] slot [of i] Wake_Fair by simp
  next
    case (Run i)
    have "still s (change i (\<lambda>t. t\<lparr>q_status := Running, q_stage := In_Turn\<rparr>)
        ((remove_pending i s)\<lparr>rt_running := (rt_running s)(q_session (rt_task s i) \<mapsto> i)\<rparr>))"
      by (simp add: still_def op_defs remove_pending_def ident_def)
    from slots_still [OF this assms(2)] show ?thesis
      using slots_exit [OF assms(2)] Run by (simp add: mark_running_def Let_def)
  next
    case (Settle_Owed i)
    have "still s s'" using Settle_Owed by (simp add: still_def begin_terminal_alt ident_def)
    then show ?thesis using slots_still assms(2) by blast
  next
    case (Settle_Own i st)
    have "still s s'" using Settle_Own by (simp add: still_def begin_terminal_alt ident_def)
    then show ?thesis using slots_still assms(2) by blast
  next
    case (Settled i)
    have "still s s'" using Settled
      by (simp add: still_def end_terminal_def clear_running_alt leave_lane_alt remove_pending_def op_defs ident_def)
    then show ?thesis using slots_still assms(2) by blast
  next
    case (Return i st)
    have "still s s'" using Return by (simp add: still_def alts op_defs ident_def)
    then show ?thesis using slots_still assms(2) by blast
  next
    case (Cancel c source)
    have "still s (mark_cancelled c source s)"
      by (simp add: still_def mark_cancelled_def Let_def ident_def)
    then show ?thesis using slots_still assms(2) Cancel by blast
  next
    case (Signal k)
    have "still s s'" using nudged_signal [of s] Signal
      by (simp add: still_def nudged_def) (simp add: signal_cancelled_def split: list.split)
    then show ?thesis using slots_still assms(2) by blast
  next
    case (Collect i)
    have "still s s'" using Collect by (simp add: still_def collect_begin_def op_defs ident_def)
    then show ?thesis using slots_still assms(2) by blast
  next
    case (Collected i m)
    have "still s s'" using Collected by (simp add: still_def collect_end_def op_defs ident_def split: option.split)
    then show ?thesis using slots_still assms(2) by blast
  qed (use assms(2) slot in \<open>simp_all add: slots_start slots_take slots_try_gate slots_finish slots_deliver\<close>)
qed

end
