(* ===== verification/Task_Queue.thy ===== *)
theory Task_Queue
  imports Task_Safety
begin

text \<open>
  The queues of the task runtime: the tasks that wait, the sessions of an agent in their
  rotation, those among them that wait for a slot, and the terminal events.
\<close>

section \<open>Pending tasks and the rotation\<close>

text \<open>
  A task that has not run waits in the queue of its session, and that session takes part in the
  rotation of its agent.
\<close>

fun fresh :: "rtask \<Rightarrow> bool" where
  "fresh t = (early (q_stage t) \<and> \<not> q_settled t)"

declare fresh.simps [simp del]

definition queue_ok :: "task_runtime \<Rightarrow> bool" where
  "queue_ok s =
     ((\<forall>a. distinct (rt_rr s a) \<and> set (rt_rr s a) = rt_active s a) \<and>
      (\<forall>k. \<forall>i \<in> set (rt_pending s k). k \<in> rt_active s (q_agent (rt_task s i))) \<and>
      (\<forall>i. fresh (rt_task s i) \<longrightarrow> i \<in> set (rt_pending s (q_session (rt_task s i)))))"

lemma queue_okD:
  assumes "queue_ok s"
  shows "distinct (rt_rr s a)" "set (rt_rr s a) = rt_active s a"
    "i \<in> set (rt_pending s k) \<Longrightarrow> k \<in> rt_active s (q_agent (rt_task s i))"
    "fresh (rt_task s i) \<Longrightarrow> i \<in> set (rt_pending s (q_session (rt_task s i)))"
  using assms unfolding queue_ok_def by blast+

lemma queue_okI:
  assumes "\<And>a. distinct (rt_rr s a)" and "\<And>a. set (rt_rr s a) = rt_active s a"
    and "\<And>i k. i \<in> set (rt_pending s k) \<Longrightarrow> k \<in> rt_active s (q_agent (rt_task s i))"
    and "\<And>i. fresh (rt_task s i) \<Longrightarrow> i \<in> set (rt_pending s (q_session (rt_task s i)))"
  shows "queue_ok s"
  unfolding queue_ok_def using assms by blast

lemma rotate_past_set [simp]: "set (rotate_past x xs) = set xs"
proof (cases "x \<in> set xs")
  case True
  then obtain ys zs where xs: "xs = ys @ x # zs" "x \<notin> set ys" by (meson split_list_first)
  then have "dropWhile (\<lambda>y. y \<noteq> x) xs = x # zs" "takeWhile (\<lambda>y. y \<noteq> x) xs = ys"
    by (auto simp: dropWhile_append3 takeWhile_append)
  then show ?thesis using xs(1) by (auto simp: rotate_past_def)
qed (simp add: rotate_past_def)

lemma rotate_past_distinct [simp]: "distinct xs \<Longrightarrow> distinct (rotate_past x xs)"
proof (cases "x \<in> set xs")
  case True
  assume d: "distinct xs"
  obtain ys zs where xs: "xs = ys @ x # zs" "x \<notin> set ys" using True by (meson split_list_first)
  then have "dropWhile (\<lambda>y. y \<noteq> x) xs = x # zs" "takeWhile (\<lambda>y. y \<noteq> x) xs = ys"
    by (auto simp: dropWhile_append3 takeWhile_append)
  then show ?thesis using xs(1) d by (auto simp: rotate_past_def)
qed (simp add: rotate_past_def)

text \<open>Steps that neither enrol a task nor take one from its queue.\<close>

definition calm :: "task_runtime \<Rightarrow> task_runtime \<Rightarrow> bool" where
  "calm s s' =
     ((\<forall>a. set (rt_rr s' a) = set (rt_rr s a) \<and> (distinct (rt_rr s a) \<longrightarrow> distinct (rt_rr s' a))) \<and>
      rt_active s' = rt_active s \<and> rt_pending s' = rt_pending s \<and>
      (\<forall>i. ident (rt_task s' i) = ident (rt_task s i) \<and> (fresh (rt_task s' i) \<longrightarrow> fresh (rt_task s i))))"

lemma calm_refl [simp]: "calm s s"
  by (simp add: calm_def)

lemma calm_trans: "calm s s' \<Longrightarrow> calm s' s'' \<Longrightarrow> calm s s''"
  unfolding calm_def by metis

lemma queue_calm:
  assumes "calm s s'" and "queue_ok s"
  shows "queue_ok s'"
proof -
  have id: "q_agent (rt_task s' i) = q_agent (rt_task s i)" "q_session (rt_task s' i) = q_session (rt_task s i)" for i
    using assms(1) by (simp_all add: calm_def ident_def)
  have "rt_active s' = rt_active s" "rt_pending s' = rt_pending s" "fresh (rt_task s' i) \<Longrightarrow> fresh (rt_task s i)"
    "set (rt_rr s' a) = set (rt_rr s a)" "distinct (rt_rr s a) \<longrightarrow> distinct (rt_rr s' a)" for i a
    using assms(1) by (simp_all add: calm_def)
  then show ?thesis using queue_okD [OF assms(2)] by (intro queue_okI) (simp_all add: id)
qed

lemma calm_change: "(\<And>t. ident (f t) = ident t \<and> (fresh (f t) \<longrightarrow> fresh t)) \<Longrightarrow> calm s (change i f s)"
  by (simp add: calm_def op_defs)

lemma calm_goto: "early st \<longrightarrow> early (q_stage (rt_task s i)) \<Longrightarrow> calm s (goto i st s)"
  by (simp add: calm_def op_defs ident_def fresh.simps)

lemma calm_queues: "calm s (s\<lparr>rt_queue := q\<rparr>)" "calm s (s\<lparr>rt_holder := h\<rparr>)" "calm s (s\<lparr>rt_waiters := w\<rparr>)"
    "calm s (s\<lparr>rt_owed := o'\<rparr>)"
  by (simp_all add: calm_def)

lemma calm_try_gate:
  assumes "early (q_stage (rt_task s i))"
  shows "calm s (try_slot i s)" "calm s (try_gate i s)"
proof -
  show "calm s (try_slot i s)" using assms by (simp add: calm_def alts fresh.simps)
  then show "calm s (try_gate i s)" using assms calm_goto [of At_Gate s i] by (simp add: try_gate_def)
qed

lemma calm_enter:
  assumes "early (q_stage (rt_task s i))"
  shows "calm s (enter i s)"
proof -
  let ?s = "s\<lparr>rt_holder := (rt_holder s)(q_session (rt_task s i) \<mapsto> i)\<rparr>"
  have "calm ?s (try_gate i ?s)" "calm ?s (goto i (Closing Cancelled) ?s)"
    using assms calm_try_gate(2) [of ?s i] calm_goto [of "Closing Cancelled" ?s i] by simp_all
  then show ?thesis using calm_trans [OF calm_queues(2)] by (simp add: enter_def Let_def)
qed

lemma calm_start:
  assumes "q_stage (rt_task s i) = New"
  shows "calm s (start_driver i s)"
proof -
  let ?s = "change i (\<lambda>t. t\<lparr>q_started := True\<rparr>) s"
  have f: "calm s ?s" by (rule calm_change) (simp add: ident_def fresh.simps)
  have e: "early (q_stage (rt_task ?s i))" using assms by (simp add: op_defs)
  have "calm ?s (goto i At_Lock (?s\<lparr>rt_queue := q\<rparr>))" for q
    by (rule calm_trans [OF calm_queues(1) calm_goto]) (use e in simp)
  then show ?thesis using calm_trans [OF f] calm_enter [OF e] by (simp add: start_driver_def Let_def)
qed

lemma calm_take: "q_stage (rt_task s i) = At_Lock \<Longrightarrow> calm s (take_lock i s)"
  unfolding take_lock_def Let_def by (rule calm_trans [OF calm_queues(1) calm_enter]) simp

lemma calm_exit: "calm s (cancelled_exit i s)"
  using past_stage(1) [OF past_exit(1)] by (simp add: calm_def alts fresh.simps)

lemma calm_finish: "calm s (finish_turn i st s)"
  by (simp add: finish_turn_def calm_def alts op_defs ident_def fresh.simps)

lemma calm_deliver: "calm s (deliver_cancel i s)"
proof -
  let ?s = "change i (\<lambda>t. t\<lparr>q_kill := False\<rparr>) s"
  have f: "calm s ?s" by (rule calm_change) (simp add: ident_def fresh.simps)
  have "calm ?s (cancelled_exit i (?s\<lparr>rt_queue := q\<rparr>))" "calm ?s (cancelled_exit i (?s\<lparr>rt_waiters := w\<rparr>))" for q w
    using calm_trans [OF calm_queues(1) calm_exit] calm_trans [OF calm_queues(3) calm_exit] by simp_all
  then have "calm ?s (deliver_cancel i s)"
    using calm_exit calm_goto [of Ended]
    by (cases "q_stage (rt_task s i)") (simp_all add: deliver_cancel_def Let_def change_def)
  then show ?thesis by (rule calm_trans [OF f])
qed

lemma calm_nudged:
  assumes "\<forall>j. nudged (rt_task s j) (rt_task s' j)" and "rt_rr s' = rt_rr s" and "rt_active s' = rt_active s" and "rt_pending s' = rt_pending s"
  shows "calm s s'"
  using assms by (simp add: calm_def nudged_def fresh.simps)

lemma queue_enrol:
  assumes "queue_ok s" and "q_stage (rt_task s i) = No_Driver"
  shows "queue_ok (enrol i s)"
proof (rule queue_okI)
  let ?s = "enrol i s"
  let ?k = "q_session (rt_task s i)"
  show "distinct (rt_rr ?s a)" "set (rt_rr ?s a) = rt_active ?s a" for a
    using queue_okD(1,2) [OF assms(1), of a] by (auto simp: enrol_alt)
  show "k \<in> rt_active ?s (q_agent (rt_task ?s j))" if "j \<in> set (rt_pending ?s k)" for j k
    using queue_okD(3) [OF assms(1), of j k] that by (auto simp: enrol_alt split: if_splits)
  show "j \<in> set (rt_pending ?s (q_session (rt_task ?s j)))" if "fresh (rt_task ?s j)" for j
    using queue_okD(4) [OF assms(1), of j] that by (cases "j = i") (auto simp: enrol_alt)
qed

lemma queue_activate:
  assumes "queue_ok s" and "books_ok s" and "activate i s = Inr s'"
  shows "queue_ok s'"
proof (cases "s' = s")
  case False
  then obtain s3 r where i: "i \<in> set (rt_reservations s (q_session (rt_task s i)))" and s': "s' = (enrol i s3)\<lparr>rt_resv := r\<rparr>"
    and n: "\<forall>j. nudged (rt_task s j) (rt_task s3 j)" and e: "elsewhere s3 = elsewhere s"
    using activate_cases [OF assms(3,2)] by blast
  have "calm s s3" by (rule calm_nudged [OF n]) (use e in \<open>simp_all add: elsewhere_def\<close>)
  then have q: "queue_ok s3" using queue_calm assms(1) by blast
  have "q_stage (rt_task s i) = No_Driver" using i assms(2) unfolding books_ok_def by blast
  then have "q_stage (rt_task s3 i) = No_Driver" using n by (simp add: nudged_def)
  then have "queue_ok (enrol i s3)" by (rule queue_enrol [OF q])
  then show ?thesis by (rule queue_calm [rotated]) (simp add: s' calm_def)
qed (use assms(1) in simp)

lemma queue_admit:
  assumes "queue_ok s" and "books_ok s" and "q_stage (rt_task s i) = Absent"
  shows "queue_ok (admit i k a sub mode m victim (s\<lparr>rt_victims := vs\<rparr>))"
proof (rule queue_okI)
  let ?s = "admit i k a sub mode m victim (s\<lparr>rt_victims := vs\<rparr>)"
  show "distinct (rt_rr ?s x)" "set (rt_rr ?s x) = rt_active ?s x" for x
    using queue_okD(1,2) [OF assms(1), of x] by (simp_all add: admit_def op_defs)
  show "x \<in> rt_active ?s (q_agent (rt_task ?s j))" if "j \<in> set (rt_pending ?s x)" for j x
  proof -
    have j: "j \<in> set (rt_pending s x)" using that by (simp add: admit_def op_defs)
    then have "j \<noteq> i" using assms(2,3) unfolding books_ok_def by (metis inert.simps(1))
    then show ?thesis using queue_okD(3) [OF assms(1) j] by (simp add: admit_def op_defs)
  qed
  show "j \<in> set (rt_pending ?s (q_session (rt_task ?s j)))" if "fresh (rt_task ?s j)" for j
    using queue_okD(4) [OF assms(1), of j] that by (cases "j = i") (simp_all add: admit_def op_defs fresh.simps)
qed

lemma queue_remove:
  assumes "queue_ok s" and "books_ok s" and "rt_task s' = (rt_task s)(i := t)" and "ident t = ident (rt_task s i)" and "\<not> fresh t"
    and "rt_pending s' = (rt_pending s)(q_session (rt_task s i) := remove1 i (rt_pending s (q_session (rt_task s i))))"
    and "rt_rr s' = rt_rr s" and "rt_active s' = rt_active s"
  shows "queue_ok s'"
proof (rule queue_okI)
  have id: "q_agent (rt_task s' j) = q_agent (rt_task s j)" "q_session (rt_task s' j) = q_session (rt_task s j)" for j
    using assms(3,4) by (simp_all add: ident_def)
  show "distinct (rt_rr s' a)" "set (rt_rr s' a) = rt_active s' a" for a
    using queue_okD(1,2) [OF assms(1), of a] assms(7,8) by simp_all
  show "k \<in> rt_active s' (q_agent (rt_task s' j))" if "j \<in> set (rt_pending s' k)" for j k
    using queue_okD(3) [OF assms(1), of j k] that unfolding id assms(6,8)
    by (auto dest: notin_set_remove1 split: if_splits)
  show "j \<in> set (rt_pending s' (q_session (rt_task s' j)))" if "fresh (rt_task s' j)" for j
  proof -
    have j: "j \<noteq> i" "fresh (rt_task s j)" using that assms(3,5) by (auto split: if_splits)
    then have "j \<in> set (rt_pending s (q_session (rt_task s j)))" by (intro queue_okD(4) [OF assms(1)])
    then show ?thesis using j(1) unfolding id assms(6) by auto
  qed
qed

lemma queue_leave:
  assumes "queue_ok s" and "books_ok s"
  shows "queue_ok (leave_lane i s)"
proof (rule queue_okI)
  let ?s = "leave_lane i s"
  let ?k = "q_session (rt_task s i)"
  have "distinct (rt_rr ?s a) \<and> set (rt_rr ?s a) = rt_active ?s a" for a
  proof (cases "lane_idle i s \<and> a = q_agent (rt_task s i)")
    case True
    have "distinct (rt_rr s a)" "rt_active s a = set (rt_rr s a)" using queue_okD(1,2) [OF assms(1)] by simp_all
    then have "set (remove1 ?k (rt_rr s a)) = rt_active s a - {?k}" by (simp add: set_remove1_eq)
    then show ?thesis using True \<open>distinct (rt_rr s a)\<close> by (simp add: leave_lane_alt distinct_remove1)
  qed (use queue_okD(1,2) [OF assms(1), of a] in \<open>auto simp: leave_lane_alt\<close>)
  then show "distinct (rt_rr ?s a)" "set (rt_rr ?s a) = rt_active ?s a" for a by blast+
  show "k \<in> rt_active ?s (q_agent (rt_task ?s j))" if "j \<in> set (rt_pending ?s k)" for j k
  proof -
    have j: "j \<in> set (rt_pending s k)" using that by (simp add: leave_lane_alt)
    then have "k \<noteq> ?k \<or> \<not> lane_idle i s" by (auto simp: lane_idle_def)
    then show ?thesis using queue_okD(3) [OF assms(1) j] by (auto simp: leave_lane_alt)
  qed
qed (use queue_okD(4) [OF assms(1)] in \<open>simp add: leave_lane_alt\<close>)


lemma queue_end:
  assumes "queue_ok s" and "books_ok s"
  shows "queue_ok (end_terminal b i s)"
proof -
  let ?f = "\<lambda>t. t\<lparr>q_settling := False, q_settled := True\<rparr>"
  let ?s = "clear_running i (remove_pending i (change i ?f s))"
  have "queue_ok ?s"
    by (rule queue_remove [OF assms, of _ i "?f (rt_task s i)"])
       (simp_all add: clear_running_alt remove_pending_def op_defs ident_def fresh.simps)
  moreover have "books_ok ?s"
  proof (rule frame_books [OF _ assms(2)])
    show "frame s ?s"
      by (simp add: frame_def limits_def clear_running_alt op_defs remove_pending_def ident_def set_remove1_subset)
  qed
  ultimately have "queue_ok (leave_lane i ?s)" by (rule queue_leave)
  then show ?thesis by (rule queue_calm [rotated]) (simp add: end_terminal_def Let_def calm_def)
qed

lemma queue_step:
  assumes "runtime_step s s'" and "queue_ok s" and "books_ok s"
  shows "queue_ok s'"
  using assms(1)
proof cases
  case (Reserve i k a sub mode m policy bypass)
  obtain k' a' md victim vs where "s' = admit i k' a' sub md m victim (s\<lparr>rt_victims := vs\<rparr>)"
    using reserve_form [OF Reserve(2)] by blast
  then show ?thesis using queue_admit [OF assms(2,3) Reserve(1)] by simp
next
  case (Abort i)
  have "calm s s'" using abort_form(1,2) [of i s] Abort by (simp add: calm_def elsewhere_def)
  then show ?thesis using queue_calm assms(2) by blast
next
  case (Activate i)
  then show ?thesis using queue_activate assms(2,3) by blast
next
  case (Run i)
  let ?s = "change i (\<lambda>t. t\<lparr>q_status := Running, q_stage := In_Turn\<rparr>)
        ((remove_pending i s)\<lparr>rt_running := (rt_running s)(q_session (rt_task s i) \<mapsto> i)\<rparr>)"
  have "queue_ok ?s"
    by (rule queue_remove [OF assms(2,3), of _ i "(rt_task s i)\<lparr>q_status := Running, q_stage := In_Turn\<rparr>"])
       (simp_all add: remove_pending_def op_defs ident_def fresh.simps)
  then show ?thesis using queue_calm [OF calm_exit assms(2)] Run by (simp add: mark_running_def Let_def)
next
  case (Settle_Owed i)
  have "calm s s'" using Settle_Owed by (simp add: calm_def begin_terminal_alt ident_def fresh.simps)
  then show ?thesis using queue_calm assms(2) by blast
next
  case (Settle_Own i st)
  have "calm s s'" using Settle_Own by (simp add: calm_def begin_terminal_alt ident_def fresh.simps)
  then show ?thesis using queue_calm assms(2) by blast
next
  case (Return i st)
  have "calm s s'" using Return by (simp add: calm_def alts op_defs ident_def fresh.simps)
  then show ?thesis using queue_calm assms(2) by blast
next
  case (Cancel c source)
  have "calm s (mark_cancelled c source s)" by (simp add: calm_def mark_cancelled_def Let_def ident_def fresh.simps)
  then show ?thesis using queue_calm assms(2) Cancel by blast
next
  case (Signal k)
  have "calm s (signal_cancelled k s)"
    by (rule calm_nudged) (use nudged_signal in \<open>blast, simp_all add: signal_cancelled_def split: list.split\<close>)
  then show ?thesis using queue_calm assms(2) Signal by blast
next
  case (Collect i)
  have "calm s s'" using Collect by (simp add: calm_def collect_begin_def op_defs ident_def fresh.simps)
  then show ?thesis using queue_calm assms(2) by blast
next
  case (Collected i m)
  have "calm s s'" using Collected by (simp add: calm_def collect_end_def op_defs ident_def fresh.simps split: option.split)
  then show ?thesis using queue_calm assms(2) by blast
next
  case (Wake_Gate i)
  then show ?thesis using queue_calm [OF calm_try_gate(2) assms(2), of i] by simp
next
  case (Wake_Fair i)
  then show ?thesis using queue_calm [OF calm_try_gate(1) assms(2), of i] by simp
qed (use queue_calm [OF calm_start assms(2)] queue_calm [OF calm_take assms(2)] queue_calm [OF calm_finish assms(2)]
    queue_calm [OF calm_deliver assms(2)] queue_end assms(2,3) in \<open>simp_all\<close>)

section \<open>Those who wait for a slot\<close>

definition wait_ok :: "(string \<Rightarrow> bool) \<Rightarrow> (string \<Rightarrow> string) \<Rightarrow> (string \<Rightarrow> string) \<Rightarrow> (string \<Rightarrow> string set) \<Rightarrow> bool" where
  "wait_ok fa ag ses w = (\<forall>a x. x \<in> w a \<longleftrightarrow> (\<exists>i. fa i \<and> ag i = a \<and> ses i = x))"

abbreviation waiters_ok :: "task_runtime \<Rightarrow> bool" where
  "waiters_ok s \<equiv> wait_ok (\<lambda>i. q_stage (rt_task s i) = At_Fair) (q_agent \<circ> rt_task s) (q_session \<circ> rt_task s) (rt_waiters s)"

lemma wait_add: "wait_ok fa ag ses w \<Longrightarrow> wait_ok (fa(i := True)) ag ses (w(ag i := insert (ses i) (w (ag i))))"
  unfolding wait_ok_def by auto

lemma wait_drop:
  assumes "wait_ok fa ag ses w" and "\<And>j. fa j \<Longrightarrow> ses j = ses i \<Longrightarrow> j = i"
  shows "wait_ok (fa(i := False)) ag ses (w(ag i := w (ag i) - {ses i}))"
  unfolding wait_ok_def
proof (intro allI)
  fix a x
  have "(\<exists>j. (fa(i := False)) j \<and> ag j = a \<and> ses j = x) \<longleftrightarrow> (\<exists>j. fa j \<and> j \<noteq> i \<and> ag j = a \<and> ses j = x)"
    by (metis fun_upd_apply)
  also have "\<dots> \<longleftrightarrow> x \<in> w a \<and> \<not> (a = ag i \<and> x = ses i)" using assms unfolding wait_ok_def by metis
  finally show "x \<in> (w(ag i := w (ag i) - {ses i})) a \<longleftrightarrow> (\<exists>j. (fa(i := False)) j \<and> ag j = a \<and> ses j = x)" by auto
qed

definition waits_alike :: "task_runtime \<Rightarrow> task_runtime \<Rightarrow> bool" where
  "waits_alike s s' =
     (rt_waiters s' = rt_waiters s \<and>
      (\<forall>i. (q_stage (rt_task s' i) = At_Fair \<longleftrightarrow> q_stage (rt_task s i) = At_Fair) \<and>
         (q_stage (rt_task s i) = At_Fair \<longrightarrow> ident (rt_task s' i) = ident (rt_task s i))))"

lemma wait_alike:
  assumes "waits_alike s s'" and "waiters_ok s"
  shows "waiters_ok s'"
proof -
  have "q_stage (rt_task s' i) = At_Fair \<and> q_agent (rt_task s' i) = a \<and> q_session (rt_task s' i) = x \<longleftrightarrow>
      q_stage (rt_task s i) = At_Fair \<and> q_agent (rt_task s i) = a \<and> q_session (rt_task s i) = x" for i a x
    using assms(1) by (auto simp: waits_alike_def ident_def)
  then show ?thesis using assms unfolding wait_ok_def comp_apply by (simp add: waits_alike_def)
qed


lemma exit_not_fair [simp]: "q_stage (exit_task t) \<noteq> At_Fair"
  by (simp add: exit_task_alt Let_def)

text \<open>A driver at the slots holds the lock of its session, so it is the only one there.\<close>

lemma alone_fair:
  assumes "lock_ok s" and "inside (q_stage (rt_task s i)) \<or> rt_holder s (q_session (rt_task s i)) \<in> {None, Some i}"
    and "q_stage (rt_task s j) = At_Fair" and "q_session (rt_task s j) = q_session (rt_task s i)"
  shows "j = i"
proof -
  have "rt_holder s (q_session (rt_task s j)) = Some j" using lane_okD(2) [OF assms(1), of j] assms(3) by simp
  then show ?thesis using assms(2,4) lane_okD(2) [OF assms(1), of i] by auto
qed

abbreviation alone :: "string \<Rightarrow> task_runtime \<Rightarrow> bool" where
  "alone i s \<equiv> \<forall>j. q_stage (rt_task s j) = At_Fair \<longrightarrow> q_session (rt_task s j) = q_session (rt_task s i) \<longrightarrow> j = i"

lemma fair_upd: "(\<lambda>j. q_stage ((f(i := t)) j) = At_Fair) = (\<lambda>j. q_stage (f j) = At_Fair)(i := q_stage t = At_Fair)"
  by (rule ext) simp

lemma fair_upd2: "(\<lambda>j. q_stage (if j = i then t else f j) = At_Fair) = (\<lambda>j. q_stage (f j) = At_Fair)(i := q_stage t = At_Fair)"
  by (rule ext) simp

lemma waiters_drop:
  assumes "waiters_ok s" and "alone i s" and "rt_task s' = (rt_task s)(i := t)" and "ident t = ident (rt_task s i)"
    and "q_stage t \<noteq> At_Fair" and "rt_waiters s' = (rt_waiters s)(q_agent (rt_task s i) :=
      rt_waiters s (q_agent (rt_task s i)) - {q_session (rt_task s i)})"
  shows "waiters_ok s'"
proof -
  have "q_agent t = q_agent (rt_task s i)" "q_session t = q_session (rt_task s i)" using assms(4) by (simp_all add: ident_def)
  then have "q_agent \<circ> rt_task s' = q_agent \<circ> rt_task s" "q_session \<circ> rt_task s' = q_session \<circ> rt_task s"
    using assms(3) by (simp_all add: fun_eq_iff)
  moreover have "(\<lambda>j. q_stage (rt_task s' j) = At_Fair) = (\<lambda>j. q_stage (rt_task s j) = At_Fair)(i := False)"
    using assms(3,5) by (simp add: fun_eq_iff)
  ultimately show ?thesis
    using wait_drop [OF assms(1), of i] assms(2,6) by simp
qed

lemma waiters_try:
  assumes "waiters_ok s" and "alone i s"
  shows "waiters_ok (try_slot i s)"
proof (cases "slot_free i s")
  case True
  show ?thesis by (rule waiters_drop [OF assms, of _ "slot_task True (rt_task s i)"]) (simp_all add: try_slot_alt grant_slot_alt True)
next
  case False
  have "(\<lambda>j. q_stage (rt_task (try_slot i s) j) = At_Fair) = (\<lambda>j. q_stage (rt_task s j) = At_Fair)(i := True)"
    by (simp add: try_slot_alt False fun_eq_iff)
  then show ?thesis using wait_add [OF assms(1), of i] by (simp add: try_slot_alt False)
qed

lemma alike_goto: "st \<noteq> At_Fair \<Longrightarrow> q_stage (rt_task s i) \<noteq> At_Fair \<Longrightarrow> waits_alike s (goto i st s)"
  by (simp add: waits_alike_def op_defs ident_def)

lemma alike_change: "(\<And>t. ident (f t) = ident t \<and> q_stage (f t) = q_stage t) \<Longrightarrow> waits_alike s (change i f s)"
  by (simp add: waits_alike_def op_defs)

lemma waiters_try_gate:
  "waiters_ok s \<Longrightarrow> alone i s \<Longrightarrow> q_stage (rt_task s i) \<noteq> At_Fair \<Longrightarrow> waiters_ok (try_gate i s)"
  using waiters_try wait_alike [OF alike_goto [of At_Gate]] by (simp add: try_gate_def)

lemma waiters_enter:
  assumes "waiters_ok s" and "alone i s" and "q_stage (rt_task s i) \<noteq> At_Fair"
  shows "waiters_ok (enter i s)"
  using assms waiters_try_gate [of "s\<lparr>rt_holder := (rt_holder s)(q_session (rt_task s i) \<mapsto> i)\<rparr>" i]
    wait_alike [OF alike_goto [of "Closing Cancelled" "s\<lparr>rt_holder := (rt_holder s)(q_session (rt_task s i) \<mapsto> i)\<rparr>" i]]
  by (simp add: enter_def Let_def)

lemma waiters_start:
  assumes "waiters_ok s" and "lock_ok s" and "q_stage (rt_task s i) = New"
  shows "waiters_ok (start_driver i s)"
proof -
  let ?s = "change i (\<lambda>t. t\<lparr>q_started := True\<rparr>) s"
  have w: "waiters_ok ?s" by (rule wait_alike [OF alike_change assms(1)]) (simp add: ident_def)
  have "waiters_ok (enter i ?s)" if "rt_holder s (q_session (rt_task s i)) = None"
  proof (rule waiters_enter [OF w])
    show "alone i ?s" using alone_fair [OF assms(2), of i] that by (auto simp: op_defs)
  qed (use assms(3) in \<open>simp add: op_defs\<close>)
  moreover have "waiters_ok (goto i At_Lock (?s\<lparr>rt_queue := q\<rparr>))" for q
    by (rule wait_alike [OF alike_goto]) (use w assms(3) in \<open>simp_all add: op_defs\<close>)
  ultimately show ?thesis by (simp add: start_driver_def Let_def change_def)
qed

lemma waiters_take:
  assumes "waiters_ok s" and "lock_ok s" and "q_stage (rt_task s i) = At_Lock" and "rt_holder s (q_session (rt_task s i)) = None"
  shows "waiters_ok (take_lock i s)"
  unfolding take_lock_def Let_def
proof (rule waiters_enter)
  show "alone i (s\<lparr>rt_queue := q\<rparr>)" for q using alone_fair [OF assms(2), of i] assms(4) by simp
qed (use assms in simp_all)

lemma waiters_exit:
  assumes "waiters_ok s" and "q_stage (rt_task s i) \<noteq> At_Fair"
  shows "waiters_ok (cancelled_exit i s)"
  by (rule wait_alike [OF _ assms(1)]) (use assms(2) past_exit [of "rt_task s i"] in \<open>auto simp: waits_alike_def alts\<close>)

lemma waiters_deliver:
  assumes "waiters_ok s" and "lock_ok s"
  shows "waiters_ok (deliver_cancel i s)"
proof (cases "q_stage (rt_task s i) = At_Fair")
  case True
  then show ?thesis using alone_fair [OF assms(2), of i]
    by (intro waiters_drop [OF assms(1), of i _ "exit_task ((rt_task s i)\<lparr>q_kill := False\<rparr>)"])
       (auto simp: deliver_cancel_def op_defs alts ident_def)
next
  case False
  let ?s = "change i (\<lambda>t. t\<lparr>q_kill := False\<rparr>) s"
  have st: "q_stage (rt_task ?s i) = q_stage (rt_task s i)" by (simp add: op_defs)
  have w: "waiters_ok ?s" by (rule wait_alike [OF alike_change assms(1)]) (simp add: ident_def)
  have "waiters_ok (?s\<lparr>rt_queue := q\<rparr>)" for q by (rule wait_alike [OF _ w]) (simp add: waits_alike_def)
  then have "waiters_ok (cancelled_exit i (?s\<lparr>rt_queue := q\<rparr>))" for q using False by (intro waiters_exit) (simp_all add: op_defs)
  moreover have "waiters_ok (cancelled_exit i ?s)" "waiters_ok (goto i Ended ?s)"
    using False w waiters_exit [OF w, of i] wait_alike [OF alike_goto [of Ended ?s i] w] st by simp_all
  ultimately show ?thesis
    using w False unfolding deliver_cancel_def Let_def st by (cases "q_stage (rt_task s i)") (simp_all split: if_splits)
qed

lemma waiters_step:
  assumes "runtime_step s s'" and "waiters_ok s" and "lock_ok s" and "books_ok s"
  shows "waiters_ok s'"
proof -
  note alike = wait_alike [OF _ assms(2)]
  show ?thesis
    using assms(1)
  proof cases
    case (Reserve i k a sub mode m policy bypass)
    obtain k' a' md victim vs where "s' = admit i k' a' sub md m victim (s\<lparr>rt_victims := vs\<rparr>)"
      using reserve_form [OF Reserve(2)] by blast
    then have "waits_alike s s'" using Reserve(1) by (auto simp: waits_alike_def admit_def op_defs)
    then show ?thesis by (rule alike)
  next
    case (Abort i)
    have "waits_alike s s'" using abort_form(1,2) [of i s] Abort by (simp add: waits_alike_def elsewhere_def)
    then show ?thesis by (rule alike)
  next
    case (Activate i)
    have "waits_alike s s'"
    proof (cases "s' = s")
      case False
      then obtain s3 r where i: "i \<in> set (rt_reservations s (q_session (rt_task s i)))" and s': "s' = (enrol i s3)\<lparr>rt_resv := r\<rparr>"
        and n: "\<forall>j. nudged (rt_task s j) (rt_task s3 j)" and e: "elsewhere s3 = elsewhere s"
        using activate_cases [OF Activate assms(4)] by blast
      have "q_stage (rt_task s i) = No_Driver" using i assms(4) unfolding books_ok_def by blast
      then show ?thesis using n e by (auto simp: waits_alike_def s' enrol_alt nudged_def elsewhere_def)
    qed (simp add: waits_alike_def)
    then show ?thesis by (rule alike)
  next
    case (Start i)
    then show ?thesis using waiters_start [OF assms(2,3)] by blast
  next
    case (Take_Lock i rest)
    then show ?thesis using waiters_take [OF assms(2,3)] by blast
  next
    case (Wake_Gate i)
    then show ?thesis using waiters_try_gate [OF assms(2), of i] alone_fair [OF assms(3), of i] by simp
  next
    case (Wake_Fair i)
    then show ?thesis using waiters_try [OF assms(2), of i] alone_fair [OF assms(3), of i] by simp
  next
    case (Run i)
    have "waits_alike s (change i (\<lambda>t. t\<lparr>q_status := Running, q_stage := In_Turn\<rparr>)
        ((remove_pending i s)\<lparr>rt_running := (rt_running s)(q_session (rt_task s i) \<mapsto> i)\<rparr>))"
      using Run by (simp add: waits_alike_def remove_pending_def op_defs)
    then show ?thesis using alike waiters_exit [OF assms(2), of i] Run by (simp add: mark_running_def Let_def)
  next
    case (Refuse i)
    then have "waits_alike s s'" by (simp add: waits_alike_def finish_turn_def alts op_defs)
    then show ?thesis by (rule alike)
  next
    case (Finish i st)
    then have "waits_alike s s'" by (auto simp: waits_alike_def finish_turn_def alts op_defs)
    then show ?thesis by (rule alike)
  next
    case (Deliver i)
    then show ?thesis using waiters_deliver [OF assms(2,3)] by blast
  next
    case (Settle_Own i st)
    have "waits_alike s s'" using Settle_Own by (simp add: waits_alike_def begin_terminal_alt ident_def)
    then show ?thesis by (rule alike)
  next
    case (Settle_Owed i)
    have "waits_alike s s'" using Settle_Owed by (simp add: waits_alike_def begin_terminal_alt ident_def)
    then show ?thesis by (rule alike)
  next
    case (Settled i)
    have "waits_alike s s'" using Settled
      by (simp add: waits_alike_def end_terminal_def clear_running_alt leave_lane_alt remove_pending_def op_defs ident_def)
    then show ?thesis by (rule alike)
  next
    case (Return i st)
    have "waits_alike s s'" using Return by (simp add: waits_alike_def alts op_defs)
    then show ?thesis by (rule alike)
  next
    case (Cancel c source)
    have "waits_alike s (mark_cancelled c source s)" by (simp add: waits_alike_def mark_cancelled_def Let_def ident_def)
    then show ?thesis using alike Cancel by blast
  next
    case (Signal k)
    have "waits_alike s (signal_cancelled k s)" using nudged_signal [of s]
      by (simp add: waits_alike_def nudged_def) (simp add: signal_cancelled_def split: list.split)
    then show ?thesis using alike Signal by blast
  next
    case (Collect i)
    have "waits_alike s s'" using Collect by (simp add: waits_alike_def collect_begin_def op_defs ident_def)
    then show ?thesis by (rule alike)
  next
    case (Collected i m)
    have "waits_alike s s'" using Collected by (simp add: waits_alike_def collect_end_def op_defs ident_def split: option.split)
    then show ?thesis by (rule alike)
  qed
qed

section \<open>Outcomes\<close>

text \<open>A terminal event is emitted at most once for a task, which is then settled with that status.\<close>

definition events_ok :: "task_runtime \<Rightarrow> bool" where
  "events_ok s =
     (distinct (map fst (rt_events s)) \<and>
      (\<forall>i st. (i, st) \<in> set (rt_events s) \<longrightarrow> q_settled (rt_task s i) \<and> q_status (rt_task s i) = st))"

definition kept :: "task_runtime \<Rightarrow> task_runtime \<Rightarrow> bool" where
  "kept s s' =
     (rt_events s' = rt_events s \<and>
      (\<forall>i. q_settled (rt_task s' i) = q_settled (rt_task s i) \<and>
         (q_settled (rt_task s i) \<longrightarrow> q_status (rt_task s' i) = q_status (rt_task s i))))"

lemma kept_refl [simp]: "kept s s"
  by (simp add: kept_def)

lemma kept_trans: "kept s s' \<Longrightarrow> kept s' s'' \<Longrightarrow> kept s s''"
  by (simp add: kept_def)

lemma events_kept: "kept s s' \<Longrightarrow> events_ok s \<Longrightarrow> events_ok s'"
  by (auto simp: kept_def events_ok_def)

lemma kept_change:
  "(\<And>t. q_settled (f t) = q_settled t \<and> (q_settled t \<longrightarrow> q_status (f t) = q_status t)) \<Longrightarrow> kept s (change i f s)"
  by (simp add: kept_def op_defs)

lemma kept_goto: "kept s (goto i st s)"
  by (simp add: kept_def op_defs)

lemma kept_queues: "kept s (s\<lparr>rt_queue := q\<rparr>)" "kept s (s\<lparr>rt_holder := h\<rparr>)" "kept s (s\<lparr>rt_waiters := w\<rparr>)"
  by (simp_all add: kept_def)

lemma kept_try: "kept s (try_slot i s)" "kept s (try_gate i s)" "kept s (enter i s)"
proof -
  show t: "kept s (try_slot i s)" for s by (simp add: kept_def alts)
  show g: "kept s (try_gate i s)" for s using t kept_goto by (simp add: try_gate_def)
  show "kept s (enter i s)" using kept_trans [OF kept_queues(2) g] kept_trans [OF kept_queues(2) kept_goto]
    by (simp add: enter_def Let_def)
qed

lemma kept_start: "kept s (start_driver i s)"
proof -
  let ?s = "change i (\<lambda>t. t\<lparr>q_started := True\<rparr>) s"
  have "kept s ?s" by (rule kept_change) simp
  then show ?thesis using kept_trans kept_try(3) [of ?s] kept_trans [OF kept_queues(1) kept_goto, of ?s]
    by (simp add: start_driver_def Let_def)
qed

lemma kept_take: "kept s (take_lock i s)"
  unfolding take_lock_def Let_def by (rule kept_trans [OF kept_queues(1) kept_try(3)])

lemma kept_exit: "kept s (cancelled_exit i s)"
  by (simp add: kept_def alts terminal_closing_def)

lemma kept_deliver: "kept s (deliver_cancel i s)"
proof -
  let ?s = "change i (\<lambda>t. t\<lparr>q_kill := False\<rparr>) s"
  have f: "kept s ?s" by (rule kept_change) simp
  have "kept ?s (deliver_cancel i s)"
    using kept_exit kept_goto kept_trans [OF kept_queues(1) kept_exit] kept_trans [OF kept_queues(3) kept_exit]
    unfolding deliver_cancel_def Let_def by (cases "q_stage (rt_task ?s i)") (simp_all split: if_splits)
  then show ?thesis by (rule kept_trans [OF f])
qed

lemma kept_nudged: "\<forall>j. nudged (rt_task s j) (rt_task s' j) \<Longrightarrow> rt_events s' = rt_events s \<Longrightarrow> kept s s'"
  by (simp add: kept_def nudged_def)

text \<open>A step keeps the outcomes, or settles one task more.\<close>

lemma kept_step:
  assumes "runtime_step s s'" and "books_ok s" and "tasks_ok s"
  shows "kept s s' \<or> (\<exists>i b. q_settling (rt_task s i) \<and> s' = end_terminal b i s)"
  using assms(1)
proof cases
  case (Reserve i k a sub mode m policy bypass)
  obtain k' a' md victim vs where "s' = admit i k' a' sub md m victim (s\<lparr>rt_victims := vs\<rparr>)"
    using reserve_form [OF Reserve(2)] by blast
  moreover have "\<not> terminal_closing (rt_task s i)"
  proof (rule open_task)
    show "task_ok (rt_task s i)" using assms(3) by (simp add: tasks_ok_def)
    then show "\<not> doomed (rt_task s i)" using task_okD(7) Reserve(1) by (simp add: doomed_def)
  qed
  ultimately have "kept s s'" by (simp add: kept_def admit_def op_defs blank_task_def terminal_closing_def)
  then show ?thesis ..
next
  case (Abort i)
  have "kept s s'" using abort_form(1,2) [of i s] Abort by (simp add: kept_def elsewhere_def)
  then show ?thesis ..
next
  case (Activate i)
  have "kept s s'"
  proof (cases "s' = s")
    case False
    then obtain s3 r where s': "s' = (enrol i s3)\<lparr>rt_resv := r\<rparr>"
      and n: "\<forall>j. nudged (rt_task s j) (rt_task s3 j)" and e: "elsewhere s3 = elsewhere s"
      using activate_cases [OF Activate assms(2)] by blast
    have "kept s s3" using n e by (intro kept_nudged) (simp_all add: elsewhere_def)
    moreover have "kept s3 s'" by (simp add: kept_def s' enrol_alt)
    ultimately show ?thesis by (rule kept_trans)
  qed simp
  then show ?thesis ..
next
  case (Run i)
  have "kept s (change i (\<lambda>t. t\<lparr>q_status := Running, q_stage := In_Turn\<rparr>)
      ((remove_pending i s)\<lparr>rt_running := (rt_running s)(q_session (rt_task s i) \<mapsto> i)\<rparr>))"
    if "\<not> terminal_closing (rt_task s i)"
    using that by (simp add: kept_def remove_pending_def op_defs terminal_closing_def)
  then show ?thesis using kept_exit Run by (simp add: mark_running_def Let_def)
next
  case (Refuse i)
  have "kept s s'" using Refuse by (simp add: kept_def finish_turn_def alts op_defs)
  then show ?thesis ..
next
  case (Finish i st)
  have "kept s (finish_turn i st s)" by (simp add: kept_def finish_turn_def alts op_defs)
  then show ?thesis using Finish by simp
next
  case (Settle_Own i st)
  have "kept s s'" using Settle_Own by (simp add: kept_def begin_terminal_alt terminal_closing_def)
  then show ?thesis ..
next
  case (Settle_Owed i)
  have "kept s s'" using Settle_Owed by (simp add: kept_def begin_terminal_alt terminal_closing_def)
  then show ?thesis ..
next
  case (Return i st)
  have "kept s s'" using Return by (simp add: kept_def alts op_defs)
  then show ?thesis ..
next
  case (Cancel c source)
  have "kept s (mark_cancelled c source s)" by (simp add: kept_def mark_cancelled_def Let_def)
  then show ?thesis using Cancel by simp
next
  case (Signal k)
  have "kept s (signal_cancelled k s)"
    by (rule kept_nudged) (use nudged_signal in \<open>blast, simp add: signal_cancelled_def split: list.split\<close>)
  then show ?thesis using Signal by simp
next
  case (Collect i)
  have "kept s s'" using Collect by (simp add: kept_def collect_begin_def op_defs)
  then show ?thesis ..
next
  case (Collected i m)
  have "kept s s'" using Collected by (simp add: kept_def collect_end_def op_defs split: option.split)
  then show ?thesis ..
next
  case (Settled i b)
  then have "\<exists>i b. q_settling (rt_task s i) \<and> s' = end_terminal b i s" by blast
  then show ?thesis ..
qed (simp_all add: kept_start kept_take kept_try kept_deliver)

lemma end_terminal_task:
  "rt_task (end_terminal b i s) = (rt_task s)(i := (rt_task s i)\<lparr>q_settling := False, q_settled := True\<rparr>)"
  "rt_events (end_terminal b i s) = (if b then [(i, q_status (rt_task s i))] else []) @ rt_events s"
  by (simp_all add: end_terminal_def alts remove_pending_def op_defs)

lemma events_step:
  assumes "runtime_step s s'" and "books_ok s" and "tasks_ok s" and "events_ok s"
  shows "events_ok s'"
proof -
  consider "kept s s'" | i b where "q_settling (rt_task s i)" "s' = end_terminal b i s"
    using kept_step [OF assms(1-3)] by blast
  then show ?thesis
  proof cases
    case 1
    then show ?thesis using events_kept [OF 1 assms(4)] by (simp add: kept_def)
  next
    case 2
    have "\<not> q_settled (rt_task s i)" using 2(1) assms(3) task_okD(2) by (auto simp: tasks_ok_def)
    then have "i \<notin> fst ` set (rt_events s)" using assms(4) by (auto simp: events_ok_def)
    then show ?thesis using assms(4) by (auto simp: events_ok_def 2(2) end_terminal_task)
  qed
qed

end
