(* ===== verification/Task_Lifecycle.thy ===== *)
theory Task_Lifecycle
  imports Task_Slots Task_Queue
begin

text \<open>
  What holds of every state that the task runtime reaches: slots are counted and never exceed
  their limits, a session has one turn at a time, a task is settled once and its outcome is
  final, no slot stays idle while a driver waits for one, nothing is left behind at rest.
\<close>

section \<open>Nothing is left behind\<close>

definition live_ok :: "task_runtime \<Rightarrow> bool" where
  "live_ok s =
     (distinct (rt_tasks s) \<and> (\<forall>i \<in> set (rt_tasks s). \<not> q_settled (rt_task s i)) \<and>
      (\<forall>k. \<forall>i \<in> set (rt_pending s k). \<not> q_settled (rt_task s i)) \<and>
      (\<forall>k i. rt_running s k = Some i \<longrightarrow>
         \<not> q_settled (rt_task s i) \<and> q_session (rt_task s i) = k \<and> \<not> inert (q_stage (rt_task s i))))"

lemma live_okI:
  assumes "distinct (rt_tasks s)" and "\<And>i. i \<in> set (rt_tasks s) \<Longrightarrow> \<not> q_settled (rt_task s i)"
    and "\<And>i k. i \<in> set (rt_pending s k) \<Longrightarrow> \<not> q_settled (rt_task s i)"
    and "\<And>i k. rt_running s k = Some i \<Longrightarrow> \<not> q_settled (rt_task s i) \<and> q_session (rt_task s i) = k \<and> \<not> inert (q_stage (rt_task s i))"
  shows "live_ok s"
  unfolding live_ok_def using assms by blast

lemma live_okD:
  assumes "live_ok s"
  shows "distinct (rt_tasks s)" "i \<in> set (rt_tasks s) \<Longrightarrow> \<not> q_settled (rt_task s i)"
    "i \<in> set (rt_pending s k) \<Longrightarrow> \<not> q_settled (rt_task s i)"
    "rt_running s k = Some i \<Longrightarrow> \<not> q_settled (rt_task s i)" "rt_running s k = Some i \<Longrightarrow> q_session (rt_task s i) = k"
    "rt_running s k = Some i \<Longrightarrow> \<not> inert (q_stage (rt_task s i))"
  using assms unfolding live_ok_def by blast+

definition same_lists :: "task_runtime \<Rightarrow> task_runtime \<Rightarrow> bool" where
  "same_lists s s' = (rt_tasks s' = rt_tasks s \<and> rt_pending s' = rt_pending s \<and> rt_running s' = rt_running s)"

lemma live_same:
  assumes "live_ok s" and "same_lists s s'" and "kept s s'"
    and "\<And>i. \<not> inert (q_stage (rt_task s i)) \<Longrightarrow> q_session (rt_task s' i) = q_session (rt_task s i) \<and> \<not> inert (q_stage (rt_task s' i))"
  shows "live_ok s'"
proof -
  have eqs: "rt_tasks s' = rt_tasks s" "rt_pending s' = rt_pending s" "rt_running s' = rt_running s"
    "q_settled (rt_task s' i) = q_settled (rt_task s i)" for i
    using assms(2,3) by (simp_all add: same_lists_def kept_def)
  show ?thesis
  proof (rule live_okI)
    fix i k
    assume r: "rt_running s' k = Some i"
    then have "\<not> inert (q_stage (rt_task s i))" using live_okD(6) [OF assms(1)] eqs(3) by simp
    then show "\<not> q_settled (rt_task s' i) \<and> q_session (rt_task s' i) = k \<and> \<not> inert (q_stage (rt_task s' i))"
      using assms(4) live_okD(4,5) [OF assms(1)] r eqs(3,4) by simp
  qed (use live_okD(1-3) [OF assms(1)] eqs in simp_all)
qed

lemma same_try: "same_lists s (try_slot i s)" "same_lists s (try_gate i s)" "same_lists s (enter i s)"
  by (simp_all add: same_lists_def enter_def try_gate_def alts op_defs)

lemma same_start: "same_lists s (start_driver i s)" "same_lists s (take_lock i s)"
  using same_try(3) by (simp_all add: same_lists_def start_driver_def take_lock_def op_defs)

lemma same_exit: "same_lists s (cancelled_exit i s)" "same_lists s (finish_turn i st s)"
  by (simp_all add: same_lists_def finish_turn_def alts op_defs)

lemma same_deliver: "same_lists s (deliver_cancel i s)"
  using same_exit(1) by (simp add: same_lists_def deliver_cancel_def op_defs split: stage.split)

lemma same_step:
  assumes "runtime_step s s'"
  shows "same_lists s s' \<or> (\<exists>i. activate i s = Inr s') \<or> (\<exists>i b. q_settling (rt_task s i) \<and> s' = end_terminal b i s) \<or>
    (\<exists>i. q_stage (rt_task s i) = Claimed \<and> s' = mark_running i s)"
  using assms
proof cases
  case (Reserve i k a sub mode m policy bypass)
  obtain k' a' md victim vs where "s' = admit i k' a' sub md m victim (s\<lparr>rt_victims := vs\<rparr>)"
    using reserve_form [OF Reserve(2)] by blast
  then show ?thesis by (simp add: same_lists_def admit_def op_defs)
next
  case (Abort i)
  then show ?thesis using abort_form(2) [of i s] by (simp add: same_lists_def elsewhere_def)
next
  case (Return i st)
  have "same_lists s s'" using Return by (simp add: same_lists_def alts op_defs)
  then show ?thesis ..
next
  case (Signal k)
  then have "same_lists s s'" by (simp add: same_lists_def signal_cancelled_def split: list.split)
  then show ?thesis ..
next
  case (Cancel c source)
  then have "same_lists s s'" by (simp add: same_lists_def mark_cancelled_def Let_def)
  then show ?thesis ..
next
  case (Collected i m)
  then have "same_lists s s'" by (simp add: same_lists_def collect_end_def op_defs)
  then show ?thesis ..
next
  case (Collect i)
  then have "same_lists s s'" by (simp add: same_lists_def collect_begin_def op_defs)
  then show ?thesis ..
next
  case (Settle_Own i st)
  then have "same_lists s s'" by (simp add: same_lists_def begin_terminal_alt)
  then show ?thesis ..
next
  case (Settle_Owed i)
  then have "same_lists s s'" by (simp add: same_lists_def begin_terminal_alt)
  then show ?thesis ..
next
  case (Settled i b)
  then have "\<exists>i b. q_settling (rt_task s i) \<and> s' = end_terminal b i s" by blast
  then show ?thesis by simp
next
  case (Activate i)
  then show ?thesis by blast
next
  case (Run i)
  then show ?thesis by blast
qed (simp_all add: same_try same_start same_exit same_deliver)

lemma inert_open: "task_ok t \<Longrightarrow> inert (q_stage t) \<Longrightarrow> \<not> q_settled t"
  using open_task [of t] task_okD(7) [of t] past_stage(1) [of "q_stage t"] by (auto simp: doomed_def terminal_closing_def)

lemma ident_step:
  assumes "runtime_step s s'" and "books_ok s" and "tasks_ok s" and "\<not> inert (q_stage (rt_task s i))"
  shows "ident (rt_task s' i) = ident (rt_task s i) \<and> \<not> inert (q_stage (rt_task s' i))"
proof -
  have fr: "?thesis" if "frame s s'" using that assms(4) unfolding frame_def by metis
  have nu: "?thesis" if "nudged (rt_task s i) (rt_task s' i)" using that assms(4) by (simp add: nudged_def)
  show ?thesis
    using frame_step [OF assms(1)]
  proof (elim disjE exE conjE)
    fix j k a sub mode m policy bypass
    assume r: "q_stage (rt_task s j) = Absent" "reserve j k a sub mode m policy bypass s = Inr s'"
    then obtain k' a' md victim vs where s': "s' = admit j k' a' sub md m victim (s\<lparr>rt_victims := vs\<rparr>)"
      using reserve_form by blast
    have "i \<noteq> j" using r(1) assms(4) by auto
    then have "rt_task s' i = rt_task s i" by (simp add: s' admit_def op_defs)
    then show ?thesis using assms(4) by simp
  next
    fix j
    assume "s' = abort_reservation j s"
    then show ?thesis using abort_form(1) [of j s] assms(4) by simp
  next
    fix j
    assume act: "activate j s = Inr s'"
    show ?thesis
    proof (cases "s' = s")
      case False
      then obtain s3 r where s': "s' = (enrol j s3)\<lparr>rt_resv := r\<rparr>" and n: "\<forall>j. nudged (rt_task s j) (rt_task s3 j)"
        using activate_cases [OF act assms(2)] by blast
      then show ?thesis using assms(4) by (simp add: enrol_alt nudged_def ident_def)
    qed (use assms(4) in simp)
  next
    fix j
    assume d: "q_kill (rt_task s j)" "s' = deliver_cancel j s"
    have "\<not> inert (q_stage (rt_task s j))" using task_okD(7) d(1) assms(3) by (auto simp: tasks_ok_def)
    then show ?thesis using fr frame_deliver d(2) by blast
  qed (use fr nu nudged_signal nudged_mark in blast)+
qed

lemma live_end:
  assumes "live_ok s" and "books_ok s"
  shows "live_ok (end_terminal b i s)"
proof -
  let ?s = "end_terminal b i s"
  let ?k = "q_session (rt_task s i)"
  have settled: "q_settled (rt_task ?s j) \<longleftrightarrow> j = i \<or> q_settled (rt_task s j)"
    "q_session (rt_task ?s j) = q_session (rt_task s j)" "q_stage (rt_task ?s j) = q_stage (rt_task s j)" for j
    by (simp_all add: end_terminal_task)
  have lists: "rt_tasks ?s = remove1 i (rt_tasks s)" "rt_pending ?s = (rt_pending s)(?k := remove1 i (rt_pending s ?k))"
    "rt_running ?s = (if rt_running s ?k = Some i then (rt_running s)(?k := None) else rt_running s)"
    by (simp_all add: end_terminal_def alts remove_pending_def op_defs)
  show ?thesis
  proof (rule live_okI)
    show "distinct (rt_tasks ?s)" using live_okD(1) [OF assms(1)] by (simp add: lists distinct_remove1)
    show "\<not> q_settled (rt_task ?s j)" if "j \<in> set (rt_tasks ?s)" for j
      using that live_okD(1,2) [OF assms(1)] by (auto simp: settled lists set_remove1_eq)
    show "\<not> q_settled (rt_task ?s j)" if "j \<in> set (rt_pending ?s k)" for j k
    proof -
      have j: "j \<in> set (rt_pending s k)" using that by (auto simp: lists split: if_splits dest: subsetD [OF set_remove1_subset])
      have "j \<noteq> i"
      proof
        assume "j = i"
        moreover have "q_session (rt_task s j) = k" "distinct (rt_pending s k)" using j assms(2) unfolding books_ok_def by blast+
        ultimately show False using that by (simp add: lists)
      qed
      then show ?thesis using live_okD(3) [OF assms(1) j] by (simp add: settled)
    qed
    fix j k
    assume r: "rt_running ?s k = Some j"
    then have r': "rt_running s k = Some j" by (auto simp: lists split: if_splits)
    moreover have "j \<noteq> i" using r r' live_okD(5) [OF assms(1) r'] by (auto simp: lists split: if_splits)
    ultimately show "\<not> q_settled (rt_task ?s j) \<and> q_session (rt_task ?s j) = k \<and> \<not> inert (q_stage (rt_task ?s j))"
      using live_okD(4-6) [OF assms(1)] by (simp add: settled)
  qed
qed

lemma live_run:
  assumes "live_ok s" and "q_stage (rt_task s i) = Claimed" and "tasks_ok s" and "books_ok s"
  shows "live_ok (mark_running i s)"
proof (cases "terminal_closing (rt_task s i) \<or> over (q_status (rt_task s i)) \<or> q_cancel (rt_task s i)")
  case True
  have "live_ok (cancelled_exit i s)"
    by (rule live_same [OF assms(1) same_exit(1) kept_exit]) (use past_exit in \<open>simp add: alts\<close>)
  then show ?thesis using True by (simp add: mark_running_def Let_def)
next
  case False
  let ?s = "mark_running i s"
  let ?k = "q_session (rt_task s i)"
  have s: "rt_task ?s = (rt_task s)(i := (rt_task s i)\<lparr>q_status := Running, q_stage := In_Turn\<rparr>)"
    "rt_tasks ?s = rt_tasks s" "rt_pending ?s = (rt_pending s)(?k := remove1 i (rt_pending s ?k))"
    "rt_running ?s = (rt_running s)(?k \<mapsto> i)"
    using False by (simp_all add: mark_running_def remove_pending_def op_defs)
  have settled: "q_settled (rt_task ?s j) = q_settled (rt_task s j)" "q_session (rt_task ?s j) = q_session (rt_task s j)" for j
    by (simp_all add: s(1))
  show ?thesis
  proof (rule live_okI)
    show "\<not> q_settled (rt_task ?s j)" if "j \<in> set (rt_pending ?s k)" for j k
    proof -
      have "j \<in> set (rt_pending s k)" using that by (auto simp: s split: if_splits dest: subsetD [OF set_remove1_subset])
      then show ?thesis using live_okD(3) [OF assms(1)] by (simp add: settled)
    qed
    fix j k
    assume "rt_running ?s k = Some j"
    then consider "j = i" "k = ?k" | "rt_running s k = Some j" unfolding s(4) by (cases "k = ?k") auto
    then show "\<not> q_settled (rt_task ?s j) \<and> q_session (rt_task ?s j) = k \<and> \<not> inert (q_stage (rt_task ?s j))"
    proof cases
      case 1
      then show ?thesis using False by (simp add: s terminal_closing_def)
    next
      case 2
      then show ?thesis using live_okD(4-6) [OF assms(1) 2] by (auto simp: s(1))
    qed
  qed (use live_okD(1,2) [OF assms(1)] in \<open>simp_all add: s(2) settled(1)\<close>)
qed

lemma live_activate:
  assumes "live_ok s" and "tasks_ok s" and "books_ok s" and "activate i s = Inr s'"
  shows "live_ok s'"
proof (cases "s' = s")
  case False
  then obtain s3 r where i: "i \<in> set (rt_reservations s (q_session (rt_task s i)))" and s': "s' = (enrol i s3)\<lparr>rt_resv := r\<rparr>"
    and n: "\<forall>j. nudged (rt_task s j) (rt_task s3 j)" and e: "elsewhere s3 = elsewhere s"
    using activate_cases [OF assms(4,3)] by blast
  have k: "kept s s3" using n e by (intro kept_nudged) (simp_all add: elsewhere_def)
  have l3: "live_ok s3"
    by (rule live_same [OF assms(1) _ k]) (use n e in \<open>simp_all add: same_lists_def elsewhere_def nudged_def ident_def\<close>)
  have inert: "inert (q_stage (rt_task s i))" using i assms(3) unfolding books_ok_def by fastforce
  then have "\<not> q_settled (rt_task s i)" using inert_open assms(2) by (auto simp: tasks_ok_def)
  moreover have "i \<notin> set (rt_tasks s)" using inert assms(3) unfolding books_ok_def by blast
  ultimately have "i \<notin> set (rt_tasks s3)" "\<not> q_settled (rt_task s3 i)"
    using k e by (simp_all add: elsewhere_def kept_def)
  then show ?thesis
    using live_okD [OF l3] by (intro live_okI) (auto simp: s' enrol_alt split: if_splits)
qed (use assms(1) in simp)

lemma live_step:
  assumes "runtime_step s s'" and "live_ok s" and "tasks_ok s" and "books_ok s"
  shows "live_ok s'"
proof -
  consider "same_lists s s'" "kept s s'" | i where "activate i s = Inr s'" | i b where "s' = end_terminal b i s"
    | i where "q_stage (rt_task s i) = Claimed" "s' = mark_running i s"
    using same_step [OF assms(1)] kept_step [OF assms(1,4,3)] by blast
  then show ?thesis
  proof cases
    case 1
    show ?thesis
      by (rule live_same [OF assms(2) 1]) (use ident_step [OF assms(1,4,3)] in \<open>simp add: ident_def\<close>)
  qed (use live_activate live_end live_run assms(2-4) in blast)+
qed

section \<open>Reachable states\<close>

definition runtime_ok :: "task_runtime \<Rightarrow> bool" where
  "runtime_ok s =
     (books_ok s \<and> lock_ok s \<and> tasks_ok s \<and> slots_ok s \<and> queue_ok s \<and> waiters_ok s \<and> events_ok s \<and> live_ok s)"

lemma runtime_okD:
  assumes "runtime_ok s"
  shows "books_ok s" "lock_ok s" "tasks_ok s" "slots_ok s" "queue_ok s" "waiters_ok s" "events_ok s" "live_ok s"
  using assms unfolding runtime_ok_def by blast+

lemma runtime_ok_step: "runtime_step s s' \<Longrightarrow> runtime_ok s \<Longrightarrow> runtime_ok s'"
  using books_step [of s s'] lock_step [of s s'] tasks_step [of s s'] slots_step [of s s'] queue_step [of s s']
    waiters_step [of s s'] events_step [of s s'] live_step [of s s']
  unfolding runtime_ok_def by (simp add: tasks_ok_def)

lemma runtime_ok_run: "runtime_run s s' \<Longrightarrow> runtime_ok s \<Longrightarrow> runtime_ok s'"
  by (induction rule: rtranclp_induct) (blast intro: runtime_ok_step)+

lemma limits_step:
  assumes "runtime_step s s'" and "runtime_ok s"
  shows "limits s' = limits s"
  using frame_step [OF assms(1)]
proof (elim disjE exE conjE)
  fix j
  assume d: "q_kill (rt_task s j)" "s' = deliver_cancel j s"
  have "\<not> inert (q_stage (rt_task s j))" using task_okD(7) d(1) runtime_okD(3) [OF assms(2)] by (auto simp: tasks_ok_def)
  then show ?thesis using frame_deliver [of s j] d(2) by (simp add: frame_def)
next
  fix j
  assume act: "activate j s = Inr s'"
  show ?thesis
  proof (cases "s' = s")
    case False
    then obtain s3 r where "s' = (enrol j s3)\<lparr>rt_resv := r\<rparr>" "elsewhere s3 = elsewhere s"
      using activate_cases [OF act runtime_okD(1) [OF assms(2)]] by blast
    then show ?thesis by (simp add: enrol_alt elsewhere_def limits_def)
  qed simp
next
  fix i k a sub mode m policy bypass
  assume "reserve i k a sub mode m policy bypass s = Inr s'"
  from reserve_form [OF this] show ?thesis by (auto simp: admit_def op_defs limits_def)
qed (auto simp: frame_def signal_cancelled_def mark_cancelled_def Let_def limits_def abort_reservation_def drop_reservation_def
       split: list.split option.split)

lemma limits_run:
  assumes "runtime_run s s'" and "runtime_ok s"
  shows "limits s' = limits s"
  using assms(1)
proof (induction rule: rtranclp_induct)
  case (step s1 s2)
  then show ?case using limits_step runtime_ok_run [OF step(1) assms(2)] by simp
qed simp

lemma runtime_start:
  assumes "new_runtime n p r d h pol = Inr s"
  shows "runtime_ok s" "rt_max s = nat n" "1 \<le> n" "rt_reserved_slots s < rt_max s"
proof -
  have s: "1 \<le> n" "0 \<le> r" "\<exists>drop. s = \<lparr>rt_max = nat n, rt_max_pending = map_option nat p,
          rt_reserved_slots = nat (if n \<le> r then max 0 (n - 1) else r),
          rt_drop_oldest = drop, rt_task = (\<lambda>_. blank_task), rt_resv = Map.empty, rt_tasks = [],
          rt_pending = (\<lambda>_. []), rt_running = Map.empty, rt_reservations = (\<lambda>_. []), rt_victims = {},
          rt_rr = (\<lambda>_. []), rt_active = (\<lambda>_. {}), rt_waiters = (\<lambda>_. {}), rt_in_flight = 0,
          rt_sub_in_flight = 0, rt_agent_in_flight = (\<lambda>_. 0), rt_holder = Map.empty, rt_queue = (\<lambda>_. []),
          rt_cancels = [], rt_owed = [], rt_events = []\<rparr>"
    using assms by (auto simp: new_runtime_def rbind_Inr_iff ensure_def split: if_splits)
  then obtain drop where d: "s = \<lparr>rt_max = nat n, rt_max_pending = map_option nat p,
          rt_reserved_slots = nat (if n \<le> r then max 0 (n - 1) else r),
          rt_drop_oldest = drop, rt_task = (\<lambda>_. blank_task), rt_resv = Map.empty, rt_tasks = [],
          rt_pending = (\<lambda>_. []), rt_running = Map.empty, rt_reservations = (\<lambda>_. []), rt_victims = {},
          rt_rr = (\<lambda>_. []), rt_active = (\<lambda>_. {}), rt_waiters = (\<lambda>_. {}), rt_in_flight = 0,
          rt_sub_in_flight = 0, rt_agent_in_flight = (\<lambda>_. 0), rt_holder = Map.empty, rt_queue = (\<lambda>_. []),
          rt_cancels = [], rt_owed = [], rt_events = []\<rparr>" by blast
  show "rt_max s = nat n" "1 \<le> n" using s(1) by (simp_all add: d)
  show "rt_reserved_slots s < rt_max s" using s(1,2) by (auto simp: d)
  have b: "blank_task = \<lparr>q_session = [], q_agent = [], q_subagent = False, q_mode = [], q_message = [],
     q_status = Queued, q_started = False, q_cancel = False, q_dropped = False, q_source = None,
     q_settling = False, q_settled = False, q_slot = False, q_collecting = False, q_steering = False,
     q_kill = False, q_stage = Absent\<rparr>" by (rule blank_task_def)
  have "books_ok s" "lock_ok s" by (simp_all add: d b books_ok_def lane_ok_def)
  moreover have "tasks_ok s" by (simp add: d tasks_ok_def)
  moreover have "slots_ok s" by (simp add: d b slots_ok_def slot_count_def)
  moreover have "queue_ok s" by (simp add: d b queue_ok_def fresh.simps)
  moreover have "waiters_ok s" by (simp add: d b wait_ok_def)
  moreover have "events_ok s" "live_ok s" by (simp_all add: d b events_ok_def live_ok_def)
  ultimately show "runtime_ok s" by (simp add: runtime_ok_def)
qed

lemma runtime_reach:
  assumes "new_runtime n p r d h pol = Inr s0" and "runtime_run s0 s"
  shows "runtime_ok s" "rt_max s = nat n" "rt_reserved_slots s = rt_reserved_slots s0" "rt_reserved_slots s < nat n"
proof -
  note s0 = runtime_start [OF assms(1)]
  show "runtime_ok s" by (rule runtime_ok_run [OF assms(2) s0(1)])
  show "rt_max s = nat n" "rt_reserved_slots s = rt_reserved_slots s0" "rt_reserved_slots s < nat n"
    using limits_run [OF assms(2) s0(1)] s0(2,4) by (simp_all add: limits_def)
qed

section \<open>Slots\<close>

lemma reached_slot: "tasks_ok s \<Longrightarrow> q_slot (rt_task s i) \<longleftrightarrow> q_stage (rt_task s i) \<in> {Claimed, In_Turn}"
  using task_okD(1) [of "rt_task s i"] by (cases "q_stage (rt_task s i)") (auto simp: tasks_ok_def)

text \<open>C5: In every state that a new task runtime reaches, the tasks between their slot and the end of
  their turn are as many as the runtime counts and no more than its concurrency; the subagents
  among them leave the reserve free; the counts per agent are exact.\<close>

theorem slots_accounted:
  assumes "new_runtime n p r d h pol = Inr s0" and "runtime_run s0 s"
  shows "finite {i. q_stage (rt_task s i) \<in> {Claimed, In_Turn}} \<and>
    card {i. q_stage (rt_task s i) \<in> {Claimed, In_Turn}} = rt_in_flight s \<and> rt_in_flight s \<le> nat n \<and>
    card {i. q_stage (rt_task s i) \<in> {Claimed, In_Turn} \<and> q_subagent (rt_task s i)} = rt_sub_in_flight s \<and>
    rt_sub_in_flight s \<le> nat n - rt_reserved_slots s0 \<and>
    (\<forall>a. card {i. q_stage (rt_task s i) \<in> {Claimed, In_Turn} \<and> q_agent (rt_task s i) = a} = rt_agent_in_flight s a)"
proof -
  note reach = runtime_reach [OF assms]
  note ok = runtime_okD [OF reach(1)]
  have "counted s" by (rule slots_okD(1) [OF ok(4)])
  moreover have "rt_sub_in_flight s \<le> nat n - rt_reserved_slots s0"
    using slots_okD(2,3) [OF ok(4)] sub_le [OF \<open>counted s\<close>] reach(2,3) by (cases "rt_reserved_slots s") simp_all
  ultimately show ?thesis
    using slots_okD(2) [OF ok(4)] reach(2) by (simp add: slot_count_def reached_slot [OF ok(3), simplified])
qed

text \<open>C6: Whatever is admitted, cancelled, interrupted or settled in between, at most one task of a
  session is at the slots, about to run or in its turn.\<close>

theorem one_turn_per_session:
  assumes "new_runtime n p r d h pol = Inr s0" and "runtime_run s0 s"
    and "q_stage (rt_task s i) \<in> {At_Gate, At_Fair, Claimed, In_Turn}"
    and "q_stage (rt_task s j) \<in> {At_Gate, At_Fair, Claimed, In_Turn}"
    and "q_session (rt_task s i) = q_session (rt_task s j)"
  shows "i = j"
proof -
  have "lock_ok s" by (rule runtime_okD(2) [OF runtime_reach(1) [OF assms(1,2)]])
  note held = lane_okD(2) [OF this]
  have "inside (q_stage (rt_task s i))" "inside (q_stage (rt_task s j))" using assms(3,4) unfolding inside_def by blast+
  then have "rt_holder s (q_session (rt_task s i)) = Some i" "rt_holder s (q_session (rt_task s j)) = Some j"
    using held [of i] held [of j] by (simp_all only: comp_apply)
  then show ?thesis unfolding assms(5) by (metis option.inject)
qed

lemma find_first: "x \<in> set xs \<Longrightarrow> P x \<Longrightarrow> \<exists>y. find P xs = Some y \<and> P y"
  by (induction xs) auto

text \<open>C7: While a slot is free and a driver waits for one, none of the waiting being cancelled, some
  waiting driver of the same agent takes the slot when it wakes.\<close>

theorem no_slot_stays_idle:
  assumes "new_runtime n p r d h pol = Inr s0" and "runtime_run s0 s"
    and "rt_in_flight s < nat n" and "q_stage (rt_task s i) = At_Fair"
    and "\<forall>j. q_stage (rt_task s j) = At_Fair \<longrightarrow> \<not> q_kill (rt_task s j)"
  shows "\<exists>j. q_stage (rt_task s j) = At_Fair \<and> q_agent (rt_task s j) = q_agent (rt_task s i) \<and>
    runtime_step s (try_slot j s) \<and> q_stage (rt_task (try_slot j s) j) = Claimed"
proof -
  note reach = runtime_reach [OF assms(1,2)]
  note ok = runtime_okD [OF reach(1)]
  let ?a = "q_agent (rt_task s i)"
  let ?k = "q_session (rt_task s i)"
  have w: "x \<in> rt_waiters s a \<longleftrightarrow> (\<exists>j. q_stage (rt_task s j) = At_Fair \<and> q_agent (rt_task s j) = a \<and> q_session (rt_task s j) = x)" for a x
    using ok(6) by (simp add: wait_ok_def)
  have "\<not> doomed (rt_task s i)" using assms(4,5) by (simp add: doomed_def)
  then have "\<not> terminal_closing (rt_task s i)" using open_task ok(3) by (auto simp: tasks_ok_def)
  then have "fresh (rt_task s i)" using assms(4) by (simp add: fresh.simps terminal_closing_def)
  then have "?k \<in> set (rt_rr s ?a)" using queue_okD(2-4) [OF ok(5)] by blast
  moreover have "?k \<in> rt_waiters s ?a" using w assms(4) by blast
  ultimately obtain x where x: "find (\<lambda>x. x \<in> rt_waiters s ?a) (rt_rr s ?a) = Some x" "x \<in> rt_waiters s ?a"
    using find_first [of ?k "rt_rr s ?a" "\<lambda>x. x \<in> rt_waiters s ?a"] by blast
  then obtain j where j: "q_stage (rt_task s j) = At_Fair" "q_agent (rt_task s j) = ?a" "q_session (rt_task s j) = x"
    using w by blast
  have "rt_waiters s ?a = insert x (rt_waiters s ?a)" using x(2) by blast
  then have "slot_free j s" using x(1) j assms(3) reach(2) by (simp add: slot_free_def may_take_slot_def)
  then have "q_stage (rt_task (try_slot j s) j) = Claimed" by (simp add: alts)
  moreover have "runtime_step s (try_slot j s)" using Wake_Fair j(1) assms(5) by blast
  ultimately show ?thesis using j(1,2) by blast
qed

lemma find_Some_split: "find P xs = Some x \<Longrightarrow> \<exists>us vs. xs = us @ x # vs \<and> (\<forall>u \<in> set us. \<not> P u)"
  by (induction xs) (simp, metis append_Cons append_Nil empty_iff empty_set find.simps(2) option.inject set_ConsD)

text \<open>C21: Of those that wait, the session that takes the last free slot is put behind all others:
  every other waiting session of the agent moves forward in the rotation.\<close>

theorem last_slot_rotates:
  assumes "new_runtime n p r d h pol = Inr s0" and "runtime_run s0 s"
    and "q_stage (rt_task s i) = At_Fair" and "nat n - rt_in_flight s = 1"
    and "q_stage (rt_task (try_slot i s) i) = Claimed"
    and "q_stage (rt_task s j) = At_Fair" and "\<not> q_kill (rt_task s j)" and "q_agent (rt_task s j) = q_agent (rt_task s i)" and "j \<noteq> i"
  shows "length (takeWhile (\<lambda>x. x \<noteq> q_session (rt_task s j)) (rt_rr (try_slot i s) (q_agent (rt_task s i))))
    < length (takeWhile (\<lambda>x. x \<noteq> q_session (rt_task s j)) (rt_rr s (q_agent (rt_task s i))))"
proof -
  note reach = runtime_reach [OF assms(1,2)]
  note ok = runtime_okD [OF reach(1)]
  let ?a = "q_agent (rt_task s i)"
  let ?x = "q_session (rt_task s i)"
  let ?y = "q_session (rt_task s j)"
  have w: "x \<in> rt_waiters s a \<longleftrightarrow> (\<exists>j. q_stage (rt_task s j) = At_Fair \<and> q_agent (rt_task s j) = a \<and> q_session (rt_task s j) = x)" for a x
    using ok(6) by (simp add: wait_ok_def)
  have ys: "?y \<in> rt_waiters s ?a" "?x \<in> rt_waiters s ?a" using w assms(3,6,8) by blast+
  have neq: "?y \<noteq> ?x" using alone_fair [OF ok(2), of i j] assms(3,6,9) by auto
  have "\<not> doomed (rt_task s j)" using assms(6,7) by (simp add: doomed_def)
  then have "\<not> terminal_closing (rt_task s j)" using open_task ok(3) by (auto simp: tasks_ok_def)
  then have "fresh (rt_task s j)" using assms(6) by (simp add: fresh.simps terminal_closing_def)
  then have yr: "?y \<in> set (rt_rr s ?a)" using queue_okD(2-4) [OF ok(5)] assms(8) by metis
  have free: "slot_free i s" using assms(5) by (simp add: alts split: if_splits)
  moreover have "rt_waiters s ?a = insert ?x (rt_waiters s ?a)" using ys(2) by blast
  ultimately have first: "find (\<lambda>x. x \<in> rt_waiters s ?a) (rt_rr s ?a) = Some ?x"
    using assms(4) reach(2) by (simp add: slot_free_def may_take_slot_def)
  then obtain us vs where rr: "rt_rr s ?a = us @ ?x # vs" "\<forall>u \<in> set us. u \<notin> rt_waiters s ?a"
    by (metis (no_types, lifting) find_Some_split)
  have yv: "?y \<notin> set us" "?y \<in> set vs" using rr yr ys(1) neq by auto
  have xu: "?x \<notin> set us" using rr(2) ys(2) by blast
  have "dropWhile (\<lambda>z. z \<noteq> ?x) (us @ ?x # vs) = ?x # vs" "takeWhile (\<lambda>z. z \<noteq> ?x) (us @ ?x # vs) = us"
    using xu by (induction us) auto
  then have rot: "rotate_past ?x (rt_rr s ?a) = vs @ us @ [?x]" by (simp add: rotate_past_def rr(1))
  have "takeWhile (\<lambda>x. x \<noteq> ?y) (rt_rr s ?a) = us @ ?x # takeWhile (\<lambda>x. x \<noteq> ?y) vs"
    using yv(1) neq by (auto simp: rr(1) takeWhile_append)
  moreover have "takeWhile (\<lambda>x. x \<noteq> ?y) (vs @ us @ [?x]) = takeWhile (\<lambda>x. x \<noteq> ?y) vs"
    using yv(2) by (auto simp: takeWhile_append)
  ultimately show ?thesis using free by (simp add: alts rot)
qed

end
