(* ===== verification/Task_Outcomes.thy ===== *)
theory Task_Outcomes
  imports Task_Lifecycle
begin

text \<open>
  Outcomes of the tasks of the runtime: settled once and for good, the message of a turn fixed when
  it starts, nothing left over at rest, the answers of admission, and the one task that is lost.
\<close>

section \<open>Settlement\<close>

abbreviation announced :: "string \<Rightarrow> task_runtime \<Rightarrow> (string \<times> task_status) list" where
  "announced i s \<equiv> filter (\<lambda>e. fst e = i) (rt_events s)"

definition closed_as :: "task_status \<Rightarrow> (string \<times> task_status) list \<Rightarrow> string \<Rightarrow> task_runtime \<Rightarrow> bool" where
  "closed_as st es i s = (q_settled (rt_task s i) \<and> q_status (rt_task s i) = st \<and> announced i s = es)"

lemma closed_step:
  assumes "runtime_step s s'" and "runtime_ok s" and "closed_as st es i s"
  shows "closed_as st es i s'"
proof -
  note ok = runtime_okD [OF assms(2)]
  consider "kept s s'" | j b where "q_settling (rt_task s j)" "s' = end_terminal b j s"
    using kept_step [OF assms(1) ok(1,3)] by blast
  then show ?thesis
  proof cases
    case 1
    then show ?thesis using assms(3) by (simp add: closed_as_def kept_def)
  next
    case 2
    have "j \<noteq> i" using 2(1) assms(3) ok(3) task_okD(2) by (auto simp: tasks_ok_def closed_as_def)
    then show ?thesis using assms(3) by (simp add: closed_as_def 2(2) end_terminal_task)
  qed
qed

lemma closed_run:
  assumes "runtime_run s s'" and "runtime_ok s" and "closed_as st es i s"
  shows "closed_as st es i s'"
  using assms(1)
proof (induction rule: rtranclp_induct)
  case (step s1 s2)
  show ?case by (rule closed_step [OF step(2) runtime_ok_run [OF step(1) assms(2)] step(3)])
qed (rule assms(3))

lemma filter_at_most_one:
  "distinct (map fst xs) \<Longrightarrow> (\<And>y. (i, y) \<in> set xs \<Longrightarrow> y = x) \<Longrightarrow> filter (\<lambda>e. fst e = i) xs \<in> {[], [(i, x)]}"
proof (induction xs)
  case (Cons e xs)
  then have IH: "filter (\<lambda>e. fst e = i) xs \<in> {[], [(i, x)]}" by simp
  show ?case
  proof (cases "fst e = i")
    case True
    then have "e = (i, x)" using Cons.prems(2) by (cases e) auto
    moreover have "(i, x) \<notin> set xs" using Cons.prems(1) True by (force intro: rev_image_eqI)
    then have "filter (\<lambda>e. fst e = i) xs = []" using IH by (metis (no_types, lifting) empty_iff filter_is_subset insert_iff list.set_intros(1) subsetD)
    ultimately show ?thesis by simp
  qed (use IH in simp)
qed simp

text \<open>C8: A settled task stays settled with the same terminal status; no terminal event is emitted for
  it from then on, and at most one was before, with that status.\<close>

theorem outcome_final:
  assumes "new_runtime n p r d h pol = Inr s0" and "runtime_run s0 s" and "runtime_run s s'"
    and "q_settled (rt_task s i)"
  shows "q_settled (rt_task s' i) \<and> q_status (rt_task s' i) = q_status (rt_task s i) \<and> over (q_status (rt_task s i)) \<and>
    filter (\<lambda>e. fst e = i) (rt_events s') = filter (\<lambda>e. fst e = i) (rt_events s) \<and>
    filter (\<lambda>e. fst e = i) (rt_events s) \<in> {[], [(i, q_status (rt_task s i))]}"
proof -
  have ok: "runtime_ok s" by (rule runtime_reach(1) [OF assms(1,2)])
  have "closed_as (q_status (rt_task s i)) (announced i s) i s" using assms(4) by (simp add: closed_as_def)
  then have "closed_as (q_status (rt_task s i)) (announced i s) i s'" by (rule closed_run [OF assms(3) ok])
  moreover have "over (q_status (rt_task s i))"
    using task_okD(3) runtime_okD(3) [OF ok] assms(4) by (auto simp: tasks_ok_def terminal_closing_def)
  moreover have "announced i s \<in> {[], [(i, q_status (rt_task s i))]}"
    by (rule filter_at_most_one) (use runtime_okD(7) [OF ok] in \<open>auto simp: events_ok_def\<close>)
  ultimately show ?thesis unfolding closed_as_def by blast
qed

lemma no_member: "(\<And>i. i \<notin> set xs) \<Longrightarrow> xs = []"
  by (cases xs) auto

text \<open>C22: When every activated task is settled and its driver has returned, all slot counts (all,
  subagents, each agent) are zero, no session's lock is held or queued for, nobody waits for a
  slot, and no task is pending, running or in the table of tasks. The rotation of sessions and
  its set of active sessions are not part of this: they can keep a session whose tasks belonged
  to two agents.\<close>

theorem released_at_rest:
  assumes "new_runtime n p r d h pol = Inr s0" and "runtime_run s0 s"
    and "\<forall>i. q_stage (rt_task s i) \<in> {Absent, No_Driver} \<or> q_stage (rt_task s i) = Ended \<and> q_settled (rt_task s i)"
  shows "rt_in_flight s = 0 \<and> rt_sub_in_flight s = 0 \<and> rt_agent_in_flight s a = 0 \<and> rt_holder s k = None \<and> rt_queue s k = [] \<and>
    rt_waiters s a = {} \<and> rt_pending s k = [] \<and> rt_running s k = None \<and> rt_tasks s = []"
proof -
  note ok = runtime_okD [OF runtime_reach(1) [OF assms(1,2)]]
  have st: "\<not> inside (q_stage (rt_task s i))" "\<not> closing (q_stage (rt_task s i))" "q_stage (rt_task s i) \<noteq> At_Lock"
    "q_stage (rt_task s i) \<noteq> At_Fair" "\<not> slotted (q_stage (rt_task s i))"
    "\<not> inert (q_stage (rt_task s i)) \<Longrightarrow> q_settled (rt_task s i)" for i
    using assms(3) [rule_format, of i] by auto
  have "\<not> q_slot (rt_task s i)" for i using task_okD(1) st(5) ok(3) by (simp add: tasks_ok_def)
  then have "rt_in_flight s = 0" "rt_sub_in_flight s = 0" "rt_agent_in_flight s a = 0"
    using slots_okD(1) [OF ok(4)] by (simp_all add: slot_count_def)
  moreover have "rt_holder s k = None" using lane_okD(1) [OF ok(2), of k] st(1,2) by (cases "rt_holder s k") auto
  moreover have "rt_queue s k = []"
  proof (rule no_member)
    show "i \<notin> set (rt_queue s k)" for i using lane_okD(4) [OF ok(2), of i k] st(3) [of i] by simp
  qed
  moreover have "rt_waiters s a = {}" using ok(6) st(4) by (auto simp: wait_ok_def)
  moreover have "rt_pending s k = []"
  proof (rule no_member)
    have "i \<in> set (rt_pending s k) \<Longrightarrow> \<not> inert (q_stage (rt_task s i))" for i using ok(1) unfolding books_ok_def by blast
    then show "i \<notin> set (rt_pending s k)" for i using st(6) [of i] live_okD(3) [OF ok(8), of i] by blast
  qed
  moreover have "rt_tasks s = []"
  proof (rule no_member)
    have "i \<in> set (rt_tasks s) \<Longrightarrow> \<not> inert (q_stage (rt_task s i))" for i using ok(1) unfolding books_ok_def by blast
    then show "i \<notin> set (rt_tasks s)" for i using st(6) [of i] live_okD(2) [OF ok(8), of i] by blast
  qed
  moreover have "rt_running s k = None" using live_okD(4,6) [OF ok(8), of k] st(6) by (cases "rt_running s k") auto
  ultimately show ?thesis by simp
qed

section \<open>Messages\<close>

text \<open>A task whose status is no longer queued, and into which nothing is being collected.\<close>

definition fixed :: "rtask \<Rightarrow> bool" where
  "fixed t = (q_status t \<noteq> Queued \<and> \<not> q_collecting t)"

definition talk :: "rtask \<Rightarrow> rtask \<Rightarrow> bool" where
  "talk t t' = (fixed t \<longrightarrow> fixed t' \<and> q_message t' = q_message t)"

lemma talk_refl [simp]: "talk t t"
  by (simp add: talk_def)

lemma talk_trans: "talk t t' \<Longrightarrow> talk t' t'' \<Longrightarrow> talk t t''"
  by (simp add: talk_def)

lemma talk_same: "q_status t' = q_status t \<Longrightarrow> q_collecting t' = q_collecting t \<Longrightarrow> q_message t' = q_message t \<Longrightarrow> talk t t'"
  by (simp add: talk_def fixed_def)

lemma talk_nudged: "nudged t t' \<Longrightarrow> talk t t'"
  by (rule talk_same) (simp_all add: nudged_def)

lemma talk_exit [simp]: "talk t (exit_task t)"
  by (simp add: talk_def fixed_def exit_task_alt Let_def)

lemma talk_slot [simp]: "talk t (slot_task b t)"
  by (rule talk_same) simp_all

lemma talk_stage [simp]: "talk t (t\<lparr>q_stage := x\<rparr>)" "talk t (t\<lparr>q_kill := b\<rparr>)" "talk t (t\<lparr>q_started := b\<rparr>)" "talk t (t\<lparr>q_slot := b\<rparr>)"
    "talk t (t\<lparr>q_settling := b, q_settled := b'\<rparr>)" "talk t (t\<lparr>q_slot := b, q_stage := x\<rparr>)"
    "st \<noteq> Queued \<Longrightarrow> talk t (t\<lparr>q_settling := b, q_status := st\<rparr>)" "st \<noteq> Queued \<Longrightarrow> talk t (t\<lparr>q_status := st, q_stage := x\<rparr>)"
  by (simp_all add: talk_def fixed_def)

lemma talk_goto: "talk (rt_task s j) (rt_task (goto i st s) j)"
  by (simp add: op_defs)

lemma talk_try: "talk (rt_task s j) (rt_task (try_slot i s) j)" "talk (rt_task s j) (rt_task (try_gate i s) j)"
    "talk (rt_task s j) (rt_task (enter i s) j)"
proof -
  show t: "talk (rt_task s j) (rt_task (try_slot i s) j)" for s by (simp add: alts)
  show g: "talk (rt_task s j) (rt_task (try_gate i s) j)" for s using t talk_goto by (simp add: try_gate_def)
  show "talk (rt_task s j) (rt_task (enter i s) j)"
    using g [of "s\<lparr>rt_holder := (rt_holder s)(q_session (rt_task s i) \<mapsto> i)\<rparr>"]
      talk_goto [of "s\<lparr>rt_holder := (rt_holder s)(q_session (rt_task s i) \<mapsto> i)\<rparr>"] by (simp add: enter_def Let_def)
qed

lemma talk_start: "talk (rt_task s j) (rt_task (start_driver i s) j)" "talk (rt_task s j) (rt_task (take_lock i s) j)"
proof -
  let ?s = "change i (\<lambda>t. t\<lparr>q_started := True\<rparr>) s"
  have f: "talk (rt_task s j) (rt_task ?s j)" by (simp add: op_defs)
  have "talk (rt_task ?s j) (rt_task (goto i At_Lock (?s\<lparr>rt_queue := q\<rparr>)) j)" for q
    using talk_goto [of "?s\<lparr>rt_queue := q\<rparr>"] by simp
  then show "talk (rt_task s j) (rt_task (start_driver i s) j)"
    using talk_trans [OF f] talk_try(3) [of ?s] by (simp add: start_driver_def Let_def)
  show "talk (rt_task s j) (rt_task (take_lock i s) j)"
    using talk_try(3) [of "s\<lparr>rt_queue := (rt_queue s)(q_session (rt_task s i) := tl (rt_queue s (q_session (rt_task s i))))\<rparr>"]
    by (simp add: take_lock_def Let_def)
qed

lemma talk_finish: "talk (rt_task s j) (rt_task (finish_turn i st s) j)" "talk (rt_task s j) (rt_task (cancelled_exit i s) j)"
  by (simp_all add: finish_turn_def alts op_defs)

lemma talk_deliver: "talk (rt_task s j) (rt_task (deliver_cancel i s) j)"
proof -
  let ?s = "change i (\<lambda>t. t\<lparr>q_kill := False\<rparr>) s"
  have f: "talk (rt_task s j) (rt_task ?s j)" by (simp add: op_defs)
  have "talk (rt_task ?s j) (rt_task (cancelled_exit i (?s\<lparr>rt_queue := q\<rparr>)) j)"
    "talk (rt_task ?s j) (rt_task (cancelled_exit i (?s\<lparr>rt_waiters := w\<rparr>)) j)" for q w
    using talk_finish(2) [of "?s\<lparr>rt_queue := q\<rparr>"] talk_finish(2) [of "?s\<lparr>rt_waiters := w\<rparr>"] by simp_all
  then have "talk (rt_task ?s j) (rt_task (deliver_cancel i s) j)"
    using talk_finish(2) talk_goto
    unfolding deliver_cancel_def Let_def by (cases "q_stage (rt_task ?s i)") (simp_all split: if_splits)
  then show ?thesis by (rule talk_trans [OF f])
qed

lemma talk_step:
  assumes "runtime_step s s'" and "books_ok s" and "tasks_ok s"
  shows "talk (rt_task s j) (rt_task s' j)"
  using assms(1)
proof cases
  case (Reserve i k a sub mode m policy bypass)
  obtain k' a' md victim vs where s': "s' = admit i k' a' sub md m victim (s\<lparr>rt_victims := vs\<rparr>)"
    using reserve_form [OF Reserve(2)] by blast
  have "q_status (rt_task s i) = Queued" using task_okD(7) Reserve(1) assms(3) by (simp add: tasks_ok_def)
  then show ?thesis by (simp add: s' admit_def op_defs talk_def fixed_def)
next
  case (Abort i)
  then show ?thesis using abort_form(1) [of i s] by simp
next
  case (Activate i)
  show ?thesis
  proof (cases "s' = s")
    case False
    then obtain s3 r where s': "s' = (enrol i s3)\<lparr>rt_resv := r\<rparr>" and n: "\<forall>j. nudged (rt_task s j) (rt_task s3 j)"
      using activate_cases [OF Activate assms(2)] by blast
    have "talk (rt_task s j) (rt_task s3 j)" using n talk_nudged by blast
    moreover have "talk (rt_task s3 j) (rt_task s' j)" by (simp add: s' enrol_alt)
    ultimately show ?thesis by (rule talk_trans)
  qed simp
next
  case (Run i)
  have "talk (rt_task s j) (rt_task (change i (\<lambda>t. t\<lparr>q_status := Running, q_stage := In_Turn\<rparr>)
      ((remove_pending i s)\<lparr>rt_running := (rt_running s)(q_session (rt_task s i) \<mapsto> i)\<rparr>)) j)"
    by (simp add: remove_pending_def op_defs)
  then show ?thesis using talk_finish(2) Run by (simp add: mark_running_def Let_def)
next
  case (Settle_Own i st)
  have "over st" using task_okD(8) Settle_Own assms(3) by (metis proper.simps(1) tasks_ok_def)
  then have "st \<noteq> Queued" by auto
  then show ?thesis using Settle_Own by (simp add: begin_terminal_alt)
next
  case (Settled i)
  then show ?thesis by (simp add: end_terminal_task)
next
  case (Return i st)
  then show ?thesis by (simp add: alts op_defs)
next
  case (Cancel c source)
  then show ?thesis using talk_nudged [OF nudged_mark] by simp
next
  case (Signal k)
  then show ?thesis using talk_nudged [OF nudged_signal] by simp
next
  case (Collect i)
  then show ?thesis by (simp add: collect_begin_def collectable_def op_defs talk_def fixed_def)
next
  case (Collected i m)
  then show ?thesis by (simp add: collect_end_def op_defs talk_def fixed_def)
qed (use talk_start talk_try talk_finish talk_deliver in \<open>simp_all add: begin_terminal_alt\<close>)

lemma talk_run:
  assumes "runtime_run s s'" and "runtime_ok s"
  shows "talk (rt_task s j) (rt_task s' j)"
  using assms(1)
proof (induction rule: rtranclp_induct)
  case (step s1 s2)
  note ok = runtime_okD [OF runtime_ok_run [OF step(1) assms(2)]]
  show ?case by (rule talk_trans [OF step(3) talk_step [OF step(2) ok(1,3)]])
qed simp

text \<open>C9: The message of a running task is never changed again: nothing that comes in while it runs,
  or was being collected before, is added to it.\<close>

theorem running_message_fixed:
  assumes "new_runtime n p r d h pol = Inr s0" and "runtime_run s0 s" and "q_status (rt_task s i) = Running"
    and "runtime_run s s'"
  shows "q_message (rt_task s' i) = q_message (rt_task s i)"
proof -
  have ok: "runtime_ok s" by (rule runtime_reach(1) [OF assms(1,2)])
  have "fixed (rt_task s i)"
    using task_okD(5) [of "rt_task s i"] runtime_okD(3) [OF ok] assms(3) by (auto simp: tasks_ok_def fixed_def)
  then show ?thesis using talk_run [OF assms(4) ok, of i] by (simp add: talk_def)
qed

end
