(* ===== verification/Task_Histories.thy ===== *)
theory Task_Histories
  imports Task_Outcomes
begin

text \<open>
  Histories of the task runtime: one in which three sessions compete for one slot, with each
  property of the runtime applied along it, and two that end badly.
\<close>

section \<open>Running a history\<close>

definition right :: "runtime_error + task_runtime \<Rightarrow> task_runtime" where
  "right r = (case r of Inr s \<Rightarrow> s)"

text \<open>An admission under a session key that is in canonical form, by the runtime's own policy.\<close>

definition request ::
    "string \<Rightarrow> string \<Rightarrow> string \<Rightarrow> task_runtime \<Rightarrow> runtime_error + task_runtime" where
  "request i session mode s =
     (let pending = filter (\<lambda>j. j \<notin> rt_victims s) (rt_pending s session)
      in case rt_max_pending s of
           None \<Rightarrow> Inr (admit i session ''main'' False mode ''hello'' None s)
         | Some limit \<Rightarrow>
             if mode \<in> {''steer'', ''interrupt''} \<or> length pending + length (rt_reservations s session) < limit
             then Inr (admit i session ''main'' False mode ''hello'' None s)
             else (case (if rt_drop_oldest s then find (\<lambda>j. q_status (rt_task s j) = Queued) pending else None) of
                     None \<Rightarrow> Inl (Queue_Full session limit)
                   | Some v \<Rightarrow> Inr (admit i session ''main'' False mode ''hello'' (Some v)
                                    (s\<lparr>rt_victims := insert v (rt_victims s)\<rparr>))))"

lemma main_agent: "normalize_agent_id (Some ''main'') = ''main''"
  by code_simp

lemma canonical_sessions:
  "canonicalize_session_key (Some ''agent:main:a'') = ''agent:main:a''"
  "canonicalize_session_key (Some ''agent:main:b'') = ''agent:main:b''"
  "canonicalize_session_key (Some ''agent:main:c'') = ''agent:main:c''"
  by code_simp+

lemma request_is_reserve:
  "canonicalize_session_key (Some session) = session \<Longrightarrow> mode \<noteq> [] \<Longrightarrow>
   request i session mode s = reserve i session ''main'' False (Some mode) ''hello'' None False s"
  by (simp add: request_def reserve_def main_agent Let_def split: option.split)

definition submit :: "string \<Rightarrow> string \<Rightarrow> string \<Rightarrow> task_runtime \<Rightarrow> task_runtime" where
  "submit i session mode s = right (activate i (right (request i session mode s)))"

lemma right_Inr: "\<not> isl r \<Longrightarrow> r = Inr (right r)"
  by (cases r) (simp_all add: right_def)

lemma submit_run:
  assumes "runtime_run s0 s" and "canonicalize_session_key (Some session) = session" and "mode \<noteq> []"
    and "q_stage (rt_task s i) = Absent" and "\<not> isl (request i session mode s)"
    and "\<not> isl (activate i (right (request i session mode s)))"
  shows "runtime_run s0 (submit i session mode s)"
proof -
  have "runtime_step s (right (request i session mode s))"
    using Reserve [OF assms(4)] right_Inr [OF assms(5)] request_is_reserve [OF assms(2,3)] by metis
  moreover have "runtime_step (right (request i session mode s)) (submit i session mode s)"
    using Activate right_Inr [OF assms(6)] unfolding submit_def by blast
  ultimately show ?thesis using assms(1) by (meson rtranclp.rtrancl_into_rtrancl)
qed

lemma then_step: "runtime_run s0 s \<Longrightarrow> runtime_step s s' \<Longrightarrow> runtime_run s0 s'"
  by (rule rtranclp.rtrancl_into_rtrancl)

section \<open>Three sessions and one slot\<close>

definition hall :: task_runtime where
  "hall = right (new_runtime 1 None 0 None None ''reject_newest'')"

definition hall1 :: task_runtime where "hall1 = start_driver ''1'' (submit ''1'' ''agent:main:a'' ''collect'' hall)"
definition hall2 :: task_runtime where "hall2 = start_driver ''2'' (submit ''2'' ''agent:main:b'' ''followup'' hall1)"
definition hall3 :: task_runtime where "hall3 = start_driver ''3'' (submit ''3'' ''agent:main:c'' ''followup'' hall2)"
definition hall4 :: task_runtime where "hall4 = mark_running ''1'' hall3"
definition hall5 :: task_runtime where "hall5 = finish_turn ''1'' Succeeded hall4"
definition hall6 :: task_runtime where "hall6 = end_terminal True ''1'' (begin_terminal ''1'' Succeeded hall5)"

lemma hall_new: "new_runtime 1 None 0 None None ''reject_newest'' = Inr hall"
  unfolding hall_def by (rule right_Inr) code_simp

lemma hall_requests:
  "\<not> isl (request ''1'' ''agent:main:a'' ''collect'' hall)"
  "\<not> isl (activate ''1'' (right (request ''1'' ''agent:main:a'' ''collect'' hall)))"
  "\<not> isl (request ''2'' ''agent:main:b'' ''followup'' hall1)"
  "\<not> isl (activate ''2'' (right (request ''2'' ''agent:main:b'' ''followup'' hall1)))"
  "\<not> isl (request ''3'' ''agent:main:c'' ''followup'' hall2)"
  "\<not> isl (activate ''3'' (right (request ''3'' ''agent:main:c'' ''followup'' hall2)))"
  by code_simp+

lemma hall1_run: "runtime_run hall hall1"
  unfolding hall1_def by (rule then_step [OF submit_run [OF rtranclp.rtrancl_refl canonical_sessions(1) _ _ hall_requests(1,2)] Start]) code_simp+

lemma hall2_run: "runtime_run hall hall2"
  unfolding hall2_def by (rule then_step [OF submit_run [OF hall1_run canonical_sessions(2) _ _ hall_requests(3,4)] Start]) code_simp+

lemma hall3_run: "runtime_run hall hall3"
  unfolding hall3_def by (rule then_step [OF submit_run [OF hall2_run canonical_sessions(3) _ _ hall_requests(5,6)] Start]) code_simp+

lemma hall4_run: "runtime_run hall hall4"
  unfolding hall4_def by (rule then_step [OF hall3_run Run]) code_simp+

lemma hall5_run: "runtime_run hall hall5"
  unfolding hall5_def by (rule then_step [OF hall4_run Finish]) code_simp+

lemma hall6_run: "runtime_run hall hall6"
  unfolding hall6_def by (rule then_step [OF then_step [OF hall5_run Settle_Own] Settled]) code_simp+

text \<open>The steps of one driver leave the other tasks alone.\<close>

lemma others:
  assumes "j \<noteq> i"
  shows "rt_task (try_slot i s) j = rt_task s j" "rt_task (try_gate i s) j = rt_task s j" "rt_task (enter i s) j = rt_task s j"
    "rt_task (start_driver i s) j = rt_task s j" "rt_task (mark_running i s) j = rt_task s j"
    "rt_task (finish_turn i st s) j = rt_task s j" "rt_task (begin_terminal i st s) j = rt_task s j"
    "rt_task (end_terminal b i s) j = rt_task s j" "rt_task (goto i x s) j = rt_task s j" "rt_task (unlock i s) j = rt_task s j"
proof -
  show t: "rt_task (try_slot i s) j = rt_task s j" for s using assms by (simp add: alts)
  show g: "rt_task (try_gate i s) j = rt_task s j" for s using assms t by (simp add: try_gate_def op_defs)
  show e: "rt_task (enter i s) j = rt_task s j" for s using assms g by (simp add: enter_def op_defs)
  show "rt_task (start_driver i s) j = rt_task s j"
    using assms e by (simp add: start_driver_def op_defs)
qed (use assms in \<open>simp_all add: mark_running_def remove_pending_def finish_turn_def alts op_defs end_terminal_task\<close>)

lemma request_plain:
  assumes "request i k mode s = Inr s1" and "\<not> rt_drop_oldest s"
  shows "s1 = admit i k ''main'' False mode ''hello'' None s"
  using assms by (auto simp: request_def Let_def split: option.splits if_splits)

lemma activate_plain:
  assumes "activate i s1 = Inr s2" and "s1 = admit i k a False mode ''hello'' None s" and "mode \<notin> {''steer'', ''interrupt''}" and "j \<noteq> i"
  shows "rt_task s2 j = rt_task s j"
proof -
  have "rt_resv s1 i = Some \<lparr>tr_victim = None, tr_activated = False, tr_aborted = False\<rparr>" "q_mode (rt_task s1 i) = mode"
    "rt_task s1 j = rt_task s j"
    using assms(2,4) by (simp_all add: admit_def op_defs)
  then show ?thesis
    using assms(1,3,4) unfolding activate_def Let_def
    by (auto simp: take_victim_def enrol_alt drop_reservation_def Let_def split: if_splits)
qed

lemma submit_others:
  assumes "j \<noteq> i" and "\<not> rt_drop_oldest s" and "mode = ''followup'' \<or> mode = ''collect''"
    and "\<not> isl (request i k mode s)" and "\<not> isl (activate i (right (request i k mode s)))"
  shows "rt_task (submit i k mode s) j = rt_task s j"
proof -
  have "mode \<notin> {''steer'', ''interrupt''}" using assms(3) by auto
  then show ?thesis
    using activate_plain [OF right_Inr [OF assms(5)] _ _ assms(1)] request_plain [OF right_Inr [OF assms(4)] assms(2)]
    unfolding submit_def by blast
qed

lemma hall_task: "rt_task hall j = blank_task"
  by (simp add: hall_def right_def new_runtime_def overflow_policy_def ensure_def)

lemma hall_blank: "\<not> rt_drop_oldest hall" "\<not> rt_drop_oldest hall1" "\<not> rt_drop_oldest hall2"
  by code_simp+

lemma hall3_task:
  assumes "j \<notin> {''1'', ''2'', ''3''}"
  shows "rt_task hall3 j = blank_task"
proof -
  have j: "j \<noteq> ''1''" "j \<noteq> ''2''" "j \<noteq> ''3''" using assms by simp_all
  have "rt_task hall1 j = blank_task"
    unfolding hall1_def others(4) [OF j(1)] using submit_others [OF j(1) _ _ hall_requests(1,2)] hall_task hall_blank(1) by simp
  then have "rt_task hall2 j = blank_task"
    unfolding hall2_def others(4) [OF j(2)] using submit_others [OF j(2) _ _ hall_requests(3,4)] hall_blank(2) by simp
  then show ?thesis
    unfolding hall3_def others(4) [OF j(3)] using submit_others [OF j(3) _ _ hall_requests(5,6)] hall_blank(3) by simp
qed

lemma hall_stages:
  "q_stage (rt_task hall4 ''1'') = In_Turn" "q_stage (rt_task hall5 ''2'') = At_Fair" "q_stage (rt_task hall5 ''3'') = At_Fair"
  "rt_in_flight hall5 = 0" "q_status (rt_task hall4 ''1'') = Running" "q_settled (rt_task hall6 ''1'')"
  by code_simp+

lemma slots_accounted_witness:
  "card {i. q_stage (rt_task hall4 i) \<in> {Claimed, In_Turn}} = rt_in_flight hall4 \<and> rt_in_flight hall4 = 1"
proof -
  have "rt_in_flight hall4 = 1" by code_simp
  then show ?thesis using slots_accounted [OF hall_new hall4_run] by simp
qed

lemma one_turn_per_session_witness: "\<exists>i. q_stage (rt_task hall4 i) = In_Turn \<and> i = ''1''"
  using one_turn_per_session [OF hall_new hall4_run, of "''1''" "''1''"] hall_stages(1) by simp

lemma outcome_final_witness:
  "q_settled (rt_task hall6 ''1'') \<and> q_status (rt_task hall6 ''1'') = Succeeded \<and>
   filter (\<lambda>e. fst e = ''1'') (rt_events hall6) \<in> {[], [(''1'', Succeeded)]}"
proof -
  have "q_status (rt_task hall6 ''1'') = Succeeded" by code_simp
  then show ?thesis
    using outcome_final [OF hall_new hall6_run rtranclp.rtrancl_refl hall_stages(6)] by simp
qed

lemma hall5_not_killed: "q_stage (rt_task hall5 j) = At_Fair \<Longrightarrow> \<not> q_kill (rt_task hall5 j)"
proof -
  assume j: "q_stage (rt_task hall5 j) = At_Fair"
  have k: "\<not> q_kill (rt_task hall5 ''1'')" "\<not> q_kill (rt_task hall5 ''2'')" "\<not> q_kill (rt_task hall5 ''3'')" by code_simp+
  show ?thesis
  proof (cases "j \<in> {''1'', ''2'', ''3''}")
    case False
    then have "rt_task hall5 j = blank_task" using hall3_task [of j] by (simp add: hall5_def hall4_def others)
    then show ?thesis by (simp add: blank_task_def)
  qed (use k in auto)
qed

lemma no_slot_stays_idle_witness: "\<exists>j. runtime_step hall5 (try_slot j hall5) \<and> q_stage (rt_task (try_slot j hall5) j) = Claimed"
  using no_slot_stays_idle [OF hall_new hall5_run, of "''2''"] hall_stages(2,4) hall5_not_killed by auto

lemma last_slot_rotates_witness:
  "length (takeWhile (\<lambda>x. x \<noteq> q_session (rt_task hall5 ''3'')) (rt_rr (try_slot ''2'' hall5) (q_agent (rt_task hall5 ''2''))))
    < length (takeWhile (\<lambda>x. x \<noteq> q_session (rt_task hall5 ''3'')) (rt_rr hall5 (q_agent (rt_task hall5 ''2''))))"
proof -
  have "q_stage (rt_task (try_slot ''2'' hall5) ''2'') = Claimed" "q_agent (rt_task hall5 ''3'') = q_agent (rt_task hall5 ''2'')"
    by code_simp+
  then show ?thesis
    using last_slot_rotates [OF hall_new hall5_run hall_stages(2), of "''3''"] hall_stages(3,4) hall5_not_killed by simp
qed

text \<open>While the first task runs it is no longer a candidate for collecting.\<close>

lemma running_message_fixed_witness:
  "q_status (rt_task hall4 ''1'') = Running \<and> q_message (rt_task (collect_begin ''1'' hall4) ''1'') = q_message (rt_task hall4 ''1'')"
proof -
  have "runtime_step hall4 (collect_begin ''1'' hall4)" by (rule Collect) code_simp+
  then have "runtime_run hall4 (collect_begin ''1'' hall4)" by blast
  from running_message_fixed [OF hall_new hall4_run hall_stages(5) this] show ?thesis using hall_stages(5) by simp
qed

definition rest :: task_runtime where
  "rest = (let s = start_driver ''1'' (submit ''1'' ''agent:main:a'' ''collect'' hall);
               s' = end_terminal True ''1'' (begin_terminal ''1'' Failed (finish_turn ''1'' Failed s))
           in goto ''1'' Ended (unlock ''1'' s'))"

lemma rest_run: "runtime_run hall rest"
  unfolding rest_def Let_def hall1_def [symmetric]
  by (rule then_step [OF then_step [OF then_step [OF then_step [OF hall1_run Refuse] Settle_Own] Settled] Return]) code_simp+

lemma released_at_rest_witness: "rt_tasks rest = [] \<and> rt_in_flight rest = 0 \<and> q_status (rt_task rest ''1'') = Failed"
proof -
  have one: "q_stage (rt_task rest ''1'') = Ended" "q_settled (rt_task rest ''1'')" "q_status (rt_task rest ''1'') = Failed"
    by code_simp+
  have "rt_task (submit ''1'' ''agent:main:a'' ''collect'' hall) j = rt_task hall j" if "j \<noteq> ''1''" for j
    using submit_others [OF that _ _ hall_requests(1,2)] hall_blank(1) by simp
  then have "rt_task rest j = blank_task" if "j \<noteq> ''1''" for j using that hall_task by (simp add: rest_def Let_def others)
  then have "q_stage (rt_task rest i) \<in> {Absent, No_Driver} \<or> q_stage (rt_task rest i) = Ended \<and> q_settled (rt_task rest i)" for i
    using one by (cases "i = ''1''") (simp_all add: blank_task_def)
  then show ?thesis using released_at_rest [OF hall_new rest_run] one(3) by blast
qed

section \<open>Two histories that end badly\<close>

definition report where
  "report i s = (q_stage (rt_task s i), q_status (rt_task s i), terminal_closing (rt_task s i), q_cancel (rt_task s i),
     rt_pending s ''agent:main:a'', rt_tasks s, rt_owed s, rt_cancels s, rt_events s)"

definition lane :: task_runtime where
  "lane = (let s = submit ''2'' ''agent:main:a'' ''steer'' (submit ''1'' ''agent:main:a'' ''followup'' hall);
               s' = finish_turn ''2'' Succeeded (mark_running ''2'' (start_driver ''2'' (deliver_cancel ''1'' s)))
           in goto ''2'' Ended (unlock ''2'' (end_terminal True ''2'' (begin_terminal ''2'' Succeeded s'))))"

theorem steered_before_first_step_lost:
  "runtime_run hall lane \<and> q_stage (rt_task lane ''1'') = Ended \<and> q_status (rt_task lane ''1'') = Queued \<and>
   \<not> terminal_closing (rt_task lane ''1'') \<and> rt_pending lane ''agent:main:a'' = [''1''] \<and> rt_tasks lane = [''1''] \<and>
   rt_owed lane = [] \<and> rt_cancels lane = [] \<and> rt_events lane = [(''2'', Succeeded)] \<and> q_stage (rt_task lane ''2'') = Ended"
proof -
  have "runtime_run hall (submit ''1'' ''agent:main:a'' ''followup'' hall)"
    by (rule submit_run [OF rtranclp.rtrancl_refl canonical_sessions(1)]) code_simp+
  then have r: "runtime_run hall (submit ''2'' ''agent:main:a'' ''steer'' (submit ''1'' ''agent:main:a'' ''followup'' hall))"
    by (rule submit_run [OF _ canonical_sessions(1)]) code_simp+
  have "runtime_run hall lane"
    unfolding lane_def Let_def
    by (rule then_step [OF then_step [OF then_step [OF then_step [OF then_step [OF then_step [OF then_step
          [OF r Deliver] Start] Run] Finish] Settle_Own] Settled] Return]) code_simp+
  moreover have "report ''1'' lane = (Ended, Queued, False, True, [''1''], [''1''], [], [], [(''2'', Succeeded)])"
    "q_stage (rt_task lane ''2'') = Ended" by code_simp+
  ultimately show ?thesis unfolding report_def by blast
qed

definition shop :: task_runtime where
  "shop = right (new_runtime 1 (Some 1) 0 None None ''drop_oldest'')"

definition crowd :: task_runtime where
  "crowd =
     (let s = submit ''2'' ''agent:main:a'' ''followup'' (collect_begin ''1'' (submit ''1'' ''agent:main:a'' ''collect'' shop));
          s' = collect_end ''1'' None (submit ''3'' ''agent:main:a'' ''followup'' s)
      in end_terminal True ''1'' ((begin_terminal ''1'' Cancelled s')\<lparr>rt_owed := remove1 ''1'' (rt_owed s')\<rparr>))"

text \<open>C33: With at most one pending task per session and the oldest dropped on overflow, two tasks can
  be pending: a dropped task that is still being collected into is chosen again for the next
  admission.\<close>

theorem dropped_twice_exceeds_limit:
  "runtime_run shop crowd \<and> rt_max_pending crowd = Some 1 \<and> rt_pending crowd ''agent:main:a'' = [''2'', ''3''] \<and>
   \<not> q_cancel (rt_task crowd ''2'') \<and> \<not> q_cancel (rt_task crowd ''3'') \<and> rt_victims crowd = {}"
proof -
  have "runtime_run shop (submit ''1'' ''agent:main:a'' ''collect'' shop)"
    by (rule submit_run [OF rtranclp.rtrancl_refl canonical_sessions(1)]) code_simp+
  then have "runtime_run shop (collect_begin ''1'' (submit ''1'' ''agent:main:a'' ''collect'' shop))"
    by (rule then_step [OF _ Collect]) code_simp+
  then have "runtime_run shop (submit ''2'' ''agent:main:a'' ''followup'' (collect_begin ''1'' (submit ''1'' ''agent:main:a'' ''collect'' shop)))"
    by (rule submit_run [OF _ canonical_sessions(1)]) code_simp+
  then have r: "runtime_run shop (submit ''3'' ''agent:main:a'' ''followup'' (submit ''2'' ''agent:main:a'' ''followup''
      (collect_begin ''1'' (submit ''1'' ''agent:main:a'' ''collect'' shop))))"
    by (rule submit_run [OF _ canonical_sessions(1)]) code_simp+
  have "runtime_run shop crowd"
    unfolding crowd_def Let_def
    by (rule then_step [OF then_step [OF then_step [OF r Collected] Settle_Owed] Settled]) code_simp+
  moreover have "report ''2'' crowd =
      (New, Queued, False, False, [''2'', ''3''], [''2'', ''3''], [''1''], [], [(''1'', Cancelled)])" by code_simp
  moreover have "rt_max_pending crowd = Some 1" "\<not> q_cancel (rt_task crowd ''3'')" "rt_victims crowd = {}" by code_simp+
  ultimately show ?thesis unfolding report_def by blast
qed

end
