(* ===== verification/Approval_Queue.thy ===== *)
theory Approval_Queue
  imports Complex_Main Tables Run_Mode
begin

text \<open>
  The approval queue (\<open>src/src/openstarry_code/application/approval_queue.py\<close>): requests that a
  person has to approve before a tool runs. A request is a row of a SQLite table; it is resolved
  directly, or claimed under a token, finalised and completed by the holder of the token while the
  side effects of the approval are applied. Stale claims are released, lapsed requests expire.

  An operation reads the clock once (\<open>now\<close>); drawn ids and tokens are arguments. Every operation
  is a transaction that no other interrupts, so that it returns its result and the new state, with
  the stale claims it released also when it fails. The cache of entries and the events that wake a
  waiting coroutine before its next poll are left out.
\<close>

section \<open>Rows\<close>

record approval =
  a_id :: string
  a_namespace :: string
  a_params :: pydict
  a_created :: int
  a_resolved :: bool
  a_approved :: bool
  a_consumed :: bool
  a_deadline :: int
  a_resolution :: string
  a_claim :: "string option"
  a_claim_started :: "int option"

record channel_code =
  cc_code :: string
  cc_approval :: string
  cc_namespace :: string
  cc_session :: string
  cc_owner :: string
  cc_origin :: "string \<times> string \<times> string"
  cc_policy :: string

record approval_settings =
  as_mode :: string
  as_allow :: "string list"
  as_deny :: "string list"

record approval_queue =
  aq_rows :: "approval list"
  aq_timeout :: "int option"
  aq_ttl :: int
  aq_codes :: "channel_code list"
  aq_modes :: "string \<rightharpoonup> string"
  aq_global :: approval_settings
  aq_nodes :: "string \<rightharpoonup> approval_settings"
  aq_events :: "(string \<times> string) list"

text \<open>\<open>aq_events\<close>: what the listeners were told, the latest first.\<close>

datatype approval_error =
    Approval_Not_Found string | In_Progress string | Already_Resolved string | Not_Pending string
  | Not_Updated string | Not_Resolvable string | Not_Claimable string | Claim_Mismatch string
  | Not_Finalizable string | Not_Completable string | Not_Expirable string | Not_Approved string
  | Already_Consumed string | State_Mismatch string | Bad_Argument string

definition new_queue :: "int option \<Rightarrow> int \<Rightarrow> approval list \<Rightarrow> channel_code list \<Rightarrow> approval_queue" where
  "new_queue timeout ttl rows codes =
     \<lparr>aq_rows = rows, aq_timeout = map_option (max 0) timeout, aq_ttl = max 0 ttl, aq_codes = codes,
      aq_modes = Map.empty, aq_global = \<lparr>as_mode = ''prompt'', as_allow = [], as_deny = []\<rparr>,
      aq_nodes = Map.empty, aq_events = []\<rparr>"

fun approval_row :: "string \<Rightarrow> approval list \<Rightarrow> approval option" where
  "approval_row i [] = None"
| "approval_row i (r # rows) = (if a_id r = i then Some r else approval_row i rows)"

interpretation approvals: keyed_rows a_id approval_row
  by unfold_locales simp_all

text \<open>An entry has the claim of its row, but for the empty text.\<close>

definition entry_claim :: "approval \<Rightarrow> string option" where
  "entry_claim r = (if a_claim r = Some [] then None else a_claim r)"

definition stale :: "int \<Rightarrow> int \<Rightarrow> approval \<Rightarrow> bool" where
  "stale ttl now r =
     (\<not> a_resolved r \<and> a_claim r \<noteq> None \<and> (case a_claim_started r of None \<Rightarrow> True | Some c \<Rightarrow> c \<le> now - ttl))"

definition unclaim :: "approval \<Rightarrow> approval" where
  "unclaim r = r\<lparr>a_claim := None, a_claim_started := None\<rparr>"

definition release_stale_claims :: "int \<Rightarrow> approval_queue \<Rightarrow> approval_queue" where
  "release_stale_claims now q = q\<lparr>aq_rows := sql_update (stale (aq_ttl q) now) unclaim (aq_rows q)\<rparr>"

text \<open>Starting over the rows of an earlier process.\<close>

definition open_queue :: "int \<Rightarrow> int option \<Rightarrow> int \<Rightarrow> approval list \<Rightarrow> channel_code list \<Rightarrow> approval_queue" where
  "open_queue now timeout ttl rows codes = release_stale_claims now (new_queue timeout ttl rows codes)"

definition open_row :: "approval \<Rightarrow> bool" where
  "open_row r = (\<not> a_resolved r \<and> a_claim r = None)"

definition notify :: "string \<Rightarrow> string \<Rightarrow> approval_queue \<Rightarrow> approval_queue" where
  "notify event i q = q\<lparr>aq_events := (event, i) # aq_events q\<rparr>"

text \<open>An update guarded by the id and a condition; \<open>None\<close>: it did not meet one row.\<close>

definition update_one ::
    "string \<Rightarrow> (approval \<Rightarrow> bool) \<Rightarrow> (approval \<Rightarrow> approval) \<Rightarrow> approval_queue \<Rightarrow> approval_queue option" where
  "update_one i p f q =
     (if rowcount (\<lambda>r. a_id r = i \<and> p r) (aq_rows q) = 1
      then Some (q\<lparr>aq_rows := sql_update (\<lambda>r. a_id r = i \<and> p r) f (aq_rows q)\<rparr>) else None)"

section \<open>Requests\<close>

text \<open>An id that is taken is drawn again: \<open>None\<close>.\<close>

definition request :: "int \<Rightarrow> string \<Rightarrow> string \<Rightarrow> pydict \<Rightarrow> approval_queue \<Rightarrow> approval_queue option" where
  "request now i ns params q =
     (if approval_row i (aq_rows q) \<noteq> None then None
      else
        (let deadline = (case aq_timeout q of None \<Rightarrow> 0 | Some t \<Rightarrow> if t = 0 then 0 else now + t);
             row = \<lparr>a_id = i, a_namespace = ns, a_params = params, a_created = now, a_resolved = False,
                    a_approved = False, a_consumed = False, a_deadline = deadline, a_resolution = [],
                    a_claim = None, a_claim_started = None\<rparr>
         in Some (notify ''requested'' i (q\<lparr>aq_rows := aq_rows q @ [row]\<rparr>))))"

definition get_approval :: "int \<Rightarrow> string \<Rightarrow> approval_queue \<Rightarrow> (approval_error + approval) \<times> approval_queue" where
  "get_approval now i q =
     (let q1 = release_stale_claims now q
      in (case approval_row i (aq_rows q1) of None \<Rightarrow> Inl (Approval_Not_Found i) | Some r \<Rightarrow> Inr r, q1))"

definition update_params :: "int \<Rightarrow> string \<Rightarrow> pydict \<Rightarrow> approval_queue \<Rightarrow> (approval_error + unit) \<times> approval_queue" where
  "update_params now i params q =
     (let q1 = release_stale_claims now q
      in case approval_row i (aq_rows q1) of
           None \<Rightarrow> (Inl (Approval_Not_Found i), q1)
         | Some r \<Rightarrow>
             if a_resolved r \<or> entry_claim r \<noteq> None then (Inl (Not_Pending i), q1)
             else (case update_one i open_row (\<lambda>r. r\<lparr>a_params := params\<rparr>) q1 of
                     None \<Rightarrow> (Inl (Not_Updated i), q1)
                   | Some q2 \<Rightarrow>
                       (Inr (), (if dget (a_params r) ''humanActionable'' = PyBool False \<and>
                                    dget params ''humanActionable'' = PyBool True
                                 then notify ''requested'' i q2 else q2))))"

definition rearm_deadline :: "int \<Rightarrow> string \<Rightarrow> int \<Rightarrow> approval_queue \<Rightarrow> approval_queue" where
  "rearm_deadline now i deadline q =
     (let q1 = release_stale_claims now q
      in case update_one i open_row (\<lambda>r. r\<lparr>a_deadline := deadline\<rparr>) q1 of
           None \<Rightarrow> q1
         | Some q2 \<Rightarrow> notify ''updated'' i q2)"

definition extend :: "int \<Rightarrow> string \<Rightarrow> int \<Rightarrow> approval_queue \<Rightarrow> (approval_error + int) \<times> approval_queue" where
  "extend now i seconds q =
     (if seconds \<le> 0 then (Inl (Bad_Argument ''seconds must be positive''), q)
      else
        (let q1 = release_stale_claims now q
         in case approval_row i (aq_rows q1) of
              None \<Rightarrow> (Inl (Approval_Not_Found i), q1)
            | Some r \<Rightarrow>
                if entry_claim r \<noteq> None then (Inl (In_Progress i), q1)
                else if a_resolved r then (Inr (a_deadline r), q1)
                else
                  (let deadline = (if a_deadline r = 0 then now else a_deadline r) + seconds;
                       q2 = q1\<lparr>aq_rows := sql_update (\<lambda>r. a_id r = i \<and> open_row r)
                                 (\<lambda>r. r\<lparr>a_deadline := deadline\<rparr>) (aq_rows q1)\<rparr>
                   in (Inr deadline, notify ''updated'' i q2))))"

section \<open>Expiry\<close>

definition expired :: "approval \<Rightarrow> approval" where
  "expired r = r\<lparr>a_resolved := True, a_approved := False, a_resolution := ''expired'', a_claim := None,
     a_claim_started := None\<rparr>"

text \<open>\<open>None\<close>: the deadline was moved, the request is still pending.\<close>

definition expire_if_unresolved ::
    "int \<Rightarrow> string \<Rightarrow> bool \<Rightarrow> approval_queue \<Rightarrow> (approval_error + bool option) \<times> approval_queue" where
  "expire_if_unresolved now i force q =
     (let q1 = release_stale_claims now q
      in case approval_row i (aq_rows q1) of
           None \<Rightarrow> (Inl (Approval_Not_Found i), q1)
         | Some r \<Rightarrow>
             if entry_claim r \<noteq> None \<and> \<not> force then (Inl (In_Progress i), q1)
             else if a_resolved r then (Inr (Some (a_approved r)), q1)
             else if \<not> force \<and> now < a_deadline r then (Inr None, q1)
             else
               (let q2 = q1\<lparr>aq_rows := sql_update (\<lambda>r. a_id r = i \<and> \<not> a_resolved r \<and> (force \<or> a_claim r = None))
                           expired (aq_rows q1)\<rparr>
                in (Inr (map_option a_approved (approval_row i (aq_rows q2))), notify ''resolved'' i q2)))"

definition session_of :: "approval \<Rightarrow> string" where
  "session_of r = py_strip (py_str (py_or (py_or (dget (a_params r) ''sessionKey'') (dget (a_params r) ''session_key''))
     (PyStr [])))"

definition expire_all :: "int \<Rightarrow> string list \<Rightarrow> approval_queue \<Rightarrow> approval_queue" where
  "expire_all now ids q = fold (\<lambda>i q. snd (expire_if_unresolved now i True q)) ids q"

definition expire_pending_for_session :: "int \<Rightarrow> string \<Rightarrow> approval_queue \<Rightarrow> nat \<times> approval_queue" where
  "expire_pending_for_session now session_key q =
     (let key = py_strip session_key;
          ids = map a_id (filter (\<lambda>r. \<not> a_resolved r \<and> session_of r = key) (aq_rows q))
      in if key = [] then (0, q) else (length ids, expire_all now ids q))"

definition expire_all_pending :: "int \<Rightarrow> approval_queue \<Rightarrow> nat \<times> approval_queue" where
  "expire_all_pending now q =
     (let ids = map a_id (filter (\<lambda>r. \<not> a_resolved r) (aq_rows q)) in (length ids, expire_all now ids q))"

text \<open>One round of \<open>wait\<close>: an answer, or another poll.\<close>

datatype poll = Answer bool | Poll_Again

definition wait_poll :: "int \<Rightarrow> string \<Rightarrow> approval_queue \<Rightarrow> (approval_error + poll) \<times> approval_queue" where
  "wait_poll now i q =
     (case get_approval now i q of
        (Inl e, q1) \<Rightarrow> (Inl e, q1)
      | (Inr r, q1) \<Rightarrow>
          if a_resolved r \<and> entry_claim r = None then (Inr (Answer (a_approved r)), q1)
          else if 0 < a_deadline r \<and> a_deadline r \<le> now
          then (case expire_if_unresolved now i False q1 of
                  (Inl e, q2) \<Rightarrow> (Inl e, q2)
                | (Inr None, q2) \<Rightarrow> (Inr Poll_Again, q2)
                | (Inr (Some b), q2) \<Rightarrow> (Inr (Answer b), q2))
          else (Inr Poll_Again, q1))"

section \<open>Resolution\<close>

definition resolved_as :: "bool \<Rightarrow> pydict \<Rightarrow> approval \<Rightarrow> approval" where
  "resolved_as approved meta r =
     r\<lparr>a_resolved := True, a_approved := approved, a_resolution := (if approved then ''approved'' else ''denied''),
       a_params := (if meta = [] then a_params r else dmerge (a_params r) meta)\<rparr>"

definition resolve ::
    "int \<Rightarrow> string \<Rightarrow> bool \<Rightarrow> bool \<Rightarrow> pydict \<Rightarrow> approval_queue \<Rightarrow> (approval_error + unit) \<times> approval_queue" where
  "resolve now i approved idempotent meta q =
     (let q1 = release_stale_claims now q;
          closed = (\<lambda>r. if idempotent \<and> a_approved r = approved then Inr () else Inl (Already_Resolved i))
      in case approval_row i (aq_rows q1) of
           None \<Rightarrow> (Inl (Approval_Not_Found i), q1)
         | Some r \<Rightarrow>
             if entry_claim r \<noteq> None then (Inl (In_Progress i), q1)
             else if a_resolved r then (closed r, q1)
             else (case update_one i open_row (resolved_as approved meta) q1 of
                     None \<Rightarrow> (Inl (Not_Resolvable i), q1)
                   | Some q2 \<Rightarrow> (Inr (), notify ''resolved'' i q2)))"

definition claimed :: "string \<Rightarrow> int \<Rightarrow> pydict \<Rightarrow> approval \<Rightarrow> approval" where
  "claimed token now meta r =
     r\<lparr>a_claim := Some token, a_claim_started := Some now,
       a_params := (if meta = [] then a_params r else dmerge (a_params r) meta)\<rparr>"

text \<open>The read after the claim releases it at once when claims have no time to live.\<close>

definition claim_resolution ::
    "int \<Rightarrow> string \<Rightarrow> string \<Rightarrow> pydict \<Rightarrow> approval_queue \<Rightarrow> (approval_error + string) \<times> approval_queue" where
  "claim_resolution now i token meta q =
     (let q1 = release_stale_claims now q
      in case approval_row i (aq_rows q1) of
           None \<Rightarrow> (Inl (Approval_Not_Found i), q1)
         | Some r \<Rightarrow>
             if entry_claim r \<noteq> None then (Inl (In_Progress i), q1)
             else if a_resolved r then (Inl (Already_Resolved i), q1)
             else (case update_one i open_row (claimed token now meta) q1 of
                     None \<Rightarrow> (Inl (Not_Claimable i), q1)
                   | Some q2 \<Rightarrow> (Inr token, release_stale_claims now q2)))"

definition finalized :: "bool \<Rightarrow> approval \<Rightarrow> approval" where
  "finalized approved r =
     r\<lparr>a_resolved := True, a_approved := approved, a_resolution := (if approved then ''approved'' else ''denied'')\<rparr>"

definition finalize_claimed_resolution ::
    "string \<Rightarrow> string \<Rightarrow> bool \<Rightarrow> approval_queue \<Rightarrow> (approval_error + unit) \<times> approval_queue" where
  "finalize_claimed_resolution i token approved q =
     (case approval_row i (aq_rows q) of
        None \<Rightarrow> (Inl (Approval_Not_Found i), q)
      | Some r \<Rightarrow>
          if a_resolved r then (Inl (Already_Resolved i), q)
          else if entry_claim r \<noteq> Some token then (Inl (Claim_Mismatch i), q)
          else (case update_one i (\<lambda>r. \<not> a_resolved r \<and> a_claim r = Some token) (finalized approved) q of
                  None \<Rightarrow> (Inl (Not_Finalizable i), q)
                | Some q1 \<Rightarrow> (Inr (), q1)))"

definition complete_claimed_resolution ::
    "int \<Rightarrow> string \<Rightarrow> string \<Rightarrow> approval_queue \<Rightarrow> (approval_error + unit) \<times> approval_queue" where
  "complete_claimed_resolution now i token q =
     (case approval_row i (aq_rows q) of
        None \<Rightarrow> (Inl (Approval_Not_Found i), q)
      | Some r \<Rightarrow>
          if a_resolved r \<and> a_approved r \<and> entry_claim r = None then (Inr (), q)
          else if \<not> a_resolved r \<or> \<not> a_approved r then (Inl (Not_Approved i), q)
          else if entry_claim r \<noteq> Some token then (Inl (Claim_Mismatch i), q)
          else (case update_one i (\<lambda>r. a_resolved r \<and> a_approved r \<and> a_claim r = Some token) unclaim q of
                  None \<Rightarrow> (Inl (Not_Completable i), q)
                | Some q1 \<Rightarrow> (Inr (), notify ''resolved'' i (release_stale_claims now q1))))"

definition expire_claimed_resolution ::
    "int \<Rightarrow> string \<Rightarrow> string \<Rightarrow> approval_queue \<Rightarrow> (approval_error + unit) \<times> approval_queue" where
  "expire_claimed_resolution now i token q =
     (case approval_row i (aq_rows q) of
        None \<Rightarrow> (Inl (Approval_Not_Found i), q)
      | Some r \<Rightarrow>
          if entry_claim r \<noteq> Some token then (Inl (Claim_Mismatch i), q)
          else (case update_one i (\<lambda>r. a_claim r = Some token) (\<lambda>r. (expired r)\<lparr>a_consumed := False\<rparr>) q of
                  None \<Rightarrow> (Inl (Not_Expirable i), q)
                | Some q1 \<Rightarrow> (Inr (), notify ''resolved'' i (release_stale_claims now q1))))"

definition release_resolution_claim ::
    "int \<Rightarrow> string \<Rightarrow> string \<Rightarrow> approval_queue \<Rightarrow> (approval_error + unit) \<times> approval_queue" where
  "release_resolution_claim now i token q =
     (case approval_row i (aq_rows q) of
        None \<Rightarrow> (Inl (Approval_Not_Found i), q)
      | Some r \<Rightarrow>
          if a_resolved r \<or> entry_claim r \<noteq> Some token then (Inr (), q)
          else (Inr (), release_stale_claims now (q\<lparr>aq_rows :=
                  sql_update (\<lambda>r. a_id r = i \<and> \<not> a_resolved r \<and> a_claim r = Some token) unclaim (aq_rows q)\<rparr>)))"

definition reopened :: "approval \<Rightarrow> approval" where
  "reopened r = r\<lparr>a_resolved := False, a_approved := False, a_consumed := False, a_resolution := [],
     a_claim := None, a_claim_started := None\<rparr>"

definition reopen_resolved_approval ::
    "int \<Rightarrow> string \<Rightarrow> bool \<Rightarrow> approval_queue \<Rightarrow> (approval_error + unit) \<times> approval_queue" where
  "reopen_resolved_approval now i expected q =
     (case approval_row i (aq_rows q) of
        None \<Rightarrow> (Inl (Approval_Not_Found i), q)
      | Some r \<Rightarrow>
          if \<not> a_resolved r then (Inr (), q)
          else if a_approved r \<noteq> expected then (Inl (State_Mismatch i), q)
          else (Inr (), release_stale_claims now (q\<lparr>aq_rows :=
                  sql_update (\<lambda>r. a_id r = i \<and> a_resolved r \<and> a_approved r = expected) reopened (aq_rows q)\<rparr>)))"

definition consume :: "int \<Rightarrow> string \<Rightarrow> approval_queue \<Rightarrow> (approval_error + unit) \<times> approval_queue" where
  "consume now i q =
     (let q1 = release_stale_claims now q
      in case approval_row i (aq_rows q1) of
           None \<Rightarrow> (Inl (Approval_Not_Found i), q1)
         | Some r \<Rightarrow>
             if entry_claim r \<noteq> None then (Inl (In_Progress i), q1)
             else if \<not> a_resolved r \<or> \<not> a_approved r then (Inl (Not_Approved i), q1)
             else if a_consumed r then (Inl (Already_Consumed i), q1)
             else (case update_one i (\<lambda>r. a_resolved r \<and> a_approved r \<and> \<not> a_consumed r \<and> a_claim r = None)
                          (\<lambda>r. r\<lparr>a_consumed := True\<rparr>) q1 of
                     None \<Rightarrow> (Inl (Not_Approved i), q1)
                   | Some q2 \<Rightarrow> (Inr (), q2)))"

text \<open>The public state of an approval: (resolved, approved, resolution, consumed).\<close>

definition status :: "int \<Rightarrow> string \<Rightarrow> approval_queue \<Rightarrow> (approval_error + bool \<times> bool \<times> string \<times> bool) \<times> approval_queue" where
  "status now i q =
     (case get_approval now i q of
        (Inl e, q1) \<Rightarrow> (Inl e, q1)
      | (Inr r, q1) \<Rightarrow>
          (let ready = a_resolved r \<and> entry_claim r = None
           in (Inr (ready, ready \<and> a_approved r, (if ready then a_resolution r else []), ready \<and> a_consumed r), q1)))"

definition list_pending :: "int \<Rightarrow> string option \<Rightarrow> approval_queue \<Rightarrow> string list \<times> approval_queue" where
  "list_pending now ns q =
     (let q1 = release_stale_claims now q
      in (map a_id (filter (\<lambda>r. open_row r \<and> (case ns of None \<Rightarrow> True | Some n \<Rightarrow> n = [] \<or> a_namespace r = n))
            (aq_rows q1)), q1))"

text \<open>Every pending execution of a session, one after the other; an error ends the loop.\<close>

fun resolve_each :: "int \<Rightarrow> bool \<Rightarrow> string list \<Rightarrow> approval_queue \<Rightarrow> (approval_error + nat) \<times> approval_queue" where
  "resolve_each now approved [] q = (Inr 0, q)"
| "resolve_each now approved (i # ids) q =
     (case resolve now i approved True [] q of
        (Inl e, q1) \<Rightarrow> (Inl e, q1)
      | (Inr _, q1) \<Rightarrow>
          (case resolve_each now approved ids q1 of
             (Inl e, q2) \<Rightarrow> (Inl e, q2)
           | (Inr n, q2) \<Rightarrow> (Inr (n + 1), q2)))"

definition resolve_pending_for_session ::
    "int \<Rightarrow> string \<Rightarrow> bool \<Rightarrow> approval_queue \<Rightarrow> (approval_error + nat) \<times> approval_queue" where
  "resolve_pending_for_session now session_key approved q =
     (let key = py_strip session_key
      in if key = [] then (Inr 0, q)
         else
           (let q1 = release_stale_claims now q;
                ids = map a_id (filter (\<lambda>r. open_row r \<and> a_namespace r = ''exec'' \<and>
                        py_strip (py_str (py_or (dget (a_params r) ''sessionKey'') (PyStr []))) = key) (aq_rows q1))
            in resolve_each now approved ids q1))"

section \<open>Codes, run modes, settings\<close>

definition channel_code_for_approval :: "string \<Rightarrow> approval_queue \<Rightarrow> string option" where
  "channel_code_for_approval i q = map_option cc_code (find (\<lambda>c. cc_approval c = i) (aq_codes q))"

definition bind_channel_code :: "channel_code \<Rightarrow> approval_queue \<Rightarrow> bool \<times> approval_queue" where
  "bind_channel_code c q =
     (case channel_code_for_approval (cc_approval c) q of
        Some short \<Rightarrow> (short = cc_code c, q)
      | None \<Rightarrow>
          if \<exists>d \<in> set (aq_codes q). cc_code d = cc_code c then (False, q)
          else (True, q\<lparr>aq_codes := aq_codes q @ [c]\<rparr>))"

definition resolve_channel_code :: "string \<Rightarrow> approval_queue \<Rightarrow> channel_code option" where
  "resolve_channel_code short q = find (\<lambda>c. cc_code c = short) (aq_codes q)"

definition release_channel_code :: "string \<Rightarrow> approval_queue \<Rightarrow> approval_queue" where
  "release_channel_code i q = q\<lparr>aq_codes := sql_delete (\<lambda>c. cc_approval c = i) (aq_codes q)\<rparr>"

definition clear_channel_codes :: "approval_queue \<Rightarrow> approval_queue" where
  "clear_channel_codes q = q\<lparr>aq_codes := []\<rparr>"

definition set_run_mode :: "string \<Rightarrow> string option \<Rightarrow> approval_queue \<Rightarrow> (approval_error + approval_queue)" where
  "set_run_mode session_key mode q =
     (let key = py_strip session_key
      in rbind (ensure (key \<noteq> []) (Bad_Argument ''session_key is required'')) (\<lambda>_.
         case mode of
           None \<Rightarrow> Inr (q\<lparr>aq_modes := (aq_modes q)(key := None)\<rparr>)
         | Some m \<Rightarrow>
             if m = [] \<or> m = ''off'' then Inr (q\<lparr>aq_modes := (aq_modes q)(key := None)\<rparr>)
             else (case normalize_run_mode (A_Value (PyStr m)) SAFE of
                     Inl e \<Rightarrow> Inl (Bad_Argument ''mode must be one of: safe, full, off'')
                   | Inr n \<Rightarrow> Inr (q\<lparr>aq_modes := (aq_modes q)(key \<mapsto> run_mode_value n)\<rparr>))))"

definition get_run_mode :: "string option \<Rightarrow> approval_queue \<Rightarrow> string option" where
  "get_run_mode session_key q =
     (let key = py_strip (case session_key of None \<Rightarrow> [] | Some k \<Rightarrow> k)
      in if key = [] then None else aq_modes q key)"

definition set_elevated_mode :: "string \<Rightarrow> string option \<Rightarrow> approval_queue \<Rightarrow> (approval_error + approval_queue)" where
  "set_elevated_mode session_key mode q =
     (let key = py_strip session_key
      in rbind (ensure (key \<noteq> []) (Bad_Argument ''session_key is required'')) (\<lambda>_.
         case mode of
           None \<Rightarrow> Inr (q\<lparr>aq_modes := (aq_modes q)(key := None)\<rparr>)
         | Some m \<Rightarrow>
             if m = [] \<or> m = ''off'' then Inr (q\<lparr>aq_modes := (aq_modes q)(key := None)\<rparr>)
             else if m \<notin> {''on'', ''bypass'', ''full''} then Inl (Bad_Argument ''mode must be one of: on, bypass, full, off'')
             else set_run_mode key (Some (if m = ''full'' then ''full'' else ''safe'')) q))"

definition get_elevated_mode :: "string option \<Rightarrow> approval_queue \<Rightarrow> string option" where
  "get_elevated_mode session_key q = (if get_run_mode session_key q = Some ''full'' then Some ''full'' else None)"

definition get_settings :: "string option \<Rightarrow> approval_queue \<Rightarrow> approval_settings" where
  "get_settings node q =
     (case node of
        None \<Rightarrow> aq_global q
      | Some n \<Rightarrow> if n = [] then aq_global q else (case aq_nodes q n of None \<Rightarrow> aq_global q | Some s \<Rightarrow> s))"

definition set_settings ::
    "string \<Rightarrow> string list \<Rightarrow> string list \<Rightarrow> string option \<Rightarrow> approval_queue \<Rightarrow> (approval_error + approval_queue)" where
  "set_settings mode allow deny node q =
     (if mode \<notin> {''auto-approve'', ''auto-deny'', ''prompt''}
      then Inl (Bad_Argument ''mode must be one of: auto-approve, auto-deny, prompt'')
      else
        (let s = \<lparr>as_mode = mode, as_allow = allow, as_deny = deny\<rparr>
         in Inr (case node of None \<Rightarrow> q\<lparr>aq_global := s\<rparr> | Some n \<Rightarrow> q\<lparr>aq_nodes := (aq_nodes q)(n \<mapsto> s)\<rparr>)))"

text \<open>Classification of a command by patterns; \<open>glob\<close> is \<open>fnmatch.fnmatchcase\<close>.\<close>

definition command_matches :: "(string \<Rightarrow> string \<Rightarrow> bool) \<Rightarrow> string \<Rightarrow> string \<Rightarrow> bool" where
  "command_matches glob command pattern =
     (let p = py_strip pattern in p \<noteq> [] \<and> (glob command p \<or> contains p command))"

definition classify_command ::
    "(string \<Rightarrow> string \<Rightarrow> bool) \<Rightarrow> string \<Rightarrow> string list \<Rightarrow> string list \<Rightarrow> string option" where
  "classify_command glob command allow deny =
     (if command = [] then None
      else if \<exists>p \<in> set deny. command_matches glob command p then Some ''deny''
      else if \<exists>p \<in> set allow. command_matches glob command p then Some ''allow''
      else None)"

end
