(* ===== verification/Approval_Machine.thy ===== *)
theory Approval_Machine
  imports Approval_Queue
begin

text \<open>
  The life of one approval as a step relation \<open>row_move\<close>, the proof that every operation of the
  queue moves every row along it, and its view as a small abstract machine: an approval waits,
  is held under a claim, sealed or voided by the holder of the claim, granted, refused or spent.
\<close>

section \<open>Operations\<close>

datatype approval_op =
    Request string string pydict | Read string | List_Pending "string option" | Params string pydict
  | Rearm string int | Extend string int | Poll string | Expire string bool | Expire_Session string
  | Expire_All | Expire_Claim string string | Resolve string bool bool pydict
  | Resolve_Session string bool | Claim string string pydict | Finalize string string bool
  | Complete string string | Release string string | Reopen string bool | Consume string

definition carried_out :: "('e + 'a) \<times> approval_queue \<Rightarrow> bool \<times> approval_queue" where
  "carried_out rq = (is_ok (fst rq), snd rq)"

text \<open>Whether the operation raises nothing, and the queue after it.\<close>

fun perform :: "int \<Rightarrow> approval_op \<Rightarrow> approval_queue \<Rightarrow> bool \<times> approval_queue" where
  "perform now (Request i ns p) q = (case request now i ns p q of None \<Rightarrow> (False, q) | Some q' \<Rightarrow> (True, q'))"
| "perform now (Read i) q = carried_out (get_approval now i q)"
| "perform now (List_Pending ns) q = (True, snd (list_pending now ns q))"
| "perform now (Params i p) q = carried_out (update_params now i p q)"
| "perform now (Rearm i d) q = (True, rearm_deadline now i d q)"
| "perform now (Extend i n) q = carried_out (extend now i n q)"
| "perform now (Poll i) q = carried_out (wait_poll now i q)"
| "perform now (Expire i force) q = carried_out (expire_if_unresolved now i force q)"
| "perform now (Expire_Session k) q = (True, snd (expire_pending_for_session now k q))"
| "perform now Expire_All q = (True, snd (expire_all_pending now q))"
| "perform now (Expire_Claim i t) q = carried_out (expire_claimed_resolution now i t q)"
| "perform now (Resolve i b idem meta) q = carried_out (resolve now i b idem meta q)"
| "perform now (Resolve_Session k b) q = carried_out (resolve_pending_for_session now k b q)"
| "perform now (Claim i t meta) q = carried_out (claim_resolution now i t meta q)"
| "perform now (Finalize i t b) q = carried_out (finalize_claimed_resolution i t b q)"
| "perform now (Complete i t) q = carried_out (complete_claimed_resolution now i t q)"
| "perform now (Release i t) q = carried_out (release_resolution_claim now i t q)"
| "perform now (Reopen i b) q = carried_out (reopen_resolved_approval now i b q)"
| "perform now (Consume i) q = carried_out (consume now i q)"

text \<open>Tokens are never empty.\<close>

fun proper_op :: "approval_op \<Rightarrow> bool" where
  "proper_op (Claim i t meta) = (t \<noteq> [])"
| "proper_op _ = True"

type_synonym approval_history = "(int \<times> approval_op) list"

definition perform_all :: "approval_history \<Rightarrow> approval_queue \<Rightarrow> approval_queue" where
  "perform_all h q = fold (\<lambda>(now, op) q. snd (perform now op q)) h q"

lemma perform_all_simps [simp]:
  "perform_all [] q = q" "perform_all ((now, op) # h) q = perform_all h (snd (perform now op q))"
  "perform_all (h @ h') q = perform_all h' (perform_all h q)"
  by (simp_all add: perform_all_def)

section \<open>Moves of a row\<close>

text \<open>Operations that grant (or refuse) an open request, and those that expire it for sure.\<close>

fun decides :: "string \<Rightarrow> bool \<Rightarrow> approval_op \<Rightarrow> bool" where
  "decides i b (Resolve j c idem meta) = (j = i \<and> c = b)"
| "decides i b (Resolve_Session k c) = (c = b)"
| "decides i b _ = False"

fun forces :: "string \<Rightarrow> approval_op \<Rightarrow> bool" where
  "forces i (Expire j force) = (j = i \<and> force)"
| "forces i (Expire_Session k) = True"
| "forces i Expire_All = True"
| "forces i _ = False"

inductive row_move :: "int \<Rightarrow> int \<Rightarrow> approval_op \<Rightarrow> string \<Rightarrow> approval \<Rightarrow> approval \<Rightarrow> bool" for ttl now op i where
  lapse: "stale ttl now r \<Longrightarrow> row_move ttl now op i r (unclaim r)"
| params: "open_row r \<Longrightarrow> op = Params i p \<Longrightarrow> row_move ttl now op i r (r\<lparr>a_params := p\<rparr>)"
| deadline: "open_row r \<Longrightarrow> op = Rearm i d \<or> op = Extend i n \<Longrightarrow> row_move ttl now op i r (r\<lparr>a_deadline := d\<rparr>)"
| expire: "open_row r \<Longrightarrow> op = Expire i False \<or> op = Poll i \<Longrightarrow> row_move ttl now op i r (expired r)"
| force: "\<not> a_resolved r \<Longrightarrow> forces i op \<Longrightarrow> row_move ttl now op i r (expired r)"
| expire_claim: "a_claim r = Some t \<Longrightarrow> op = Expire_Claim i t \<Longrightarrow> row_move ttl now op i r ((expired r)\<lparr>a_consumed := False\<rparr>)"
| resolve: "open_row r \<Longrightarrow> decides i b op \<Longrightarrow> row_move ttl now op i r (resolved_as b meta r)"
| claim: "open_row r \<Longrightarrow> op = Claim i t meta \<Longrightarrow> row_move ttl now op i r (claimed t now meta r)"
| finalize: "\<not> a_resolved r \<Longrightarrow> a_claim r = Some t \<Longrightarrow> op = Finalize i t b \<Longrightarrow> row_move ttl now op i r (finalized b r)"
| complete: "a_resolved r \<Longrightarrow> a_approved r \<Longrightarrow> a_claim r = Some t \<Longrightarrow> op = Complete i t \<Longrightarrow> row_move ttl now op i r (unclaim r)"
| release: "\<not> a_resolved r \<Longrightarrow> a_claim r = Some t \<Longrightarrow> op = Release i t \<Longrightarrow> row_move ttl now op i r (unclaim r)"
| reopen: "a_resolved r \<Longrightarrow> a_approved r = b \<Longrightarrow> op = Reopen i b \<Longrightarrow> row_move ttl now op i r (reopened r)"
| consume: "a_resolved r \<Longrightarrow> a_approved r \<Longrightarrow> \<not> a_consumed r \<Longrightarrow> a_claim r = None \<Longrightarrow> op = Consume i \<Longrightarrow>
    row_move ttl now op i r (r\<lparr>a_consumed := True\<rparr>)"

lemmas row_defs = unclaim_def expired_def resolved_as_def claimed_def finalized_def reopened_def

lemma keeps_id [simp]:
  "a_id (unclaim r) = a_id r" "a_id (expired r) = a_id r" "a_id (resolved_as b meta r) = a_id r"
  "a_id (claimed t now meta r) = a_id r" "a_id (finalized b r) = a_id r" "a_id (reopened r) = a_id r"
  by (simp_all add: row_defs)

definition evolves :: "int \<Rightarrow> approval_op \<Rightarrow> approval_queue \<Rightarrow> approval_queue \<Rightarrow> bool" where
  "evolves now op q q' =
     (aq_ttl q' = aq_ttl q \<and> map a_id (aq_rows q') = map a_id (aq_rows q) \<and>
      (\<forall>i r. approval_row i (aq_rows q) = Some r \<longrightarrow>
         (\<exists>r'. approval_row i (aq_rows q') = Some r' \<and> (row_move (aq_ttl q) now op i)\<^sup>*\<^sup>* r r')))"

lemma evolves_refl [simp]: "evolves now op q q"
  by (simp add: evolves_def)

lemma evolves_trans:
  assumes "evolves now op q q'" and "evolves now op q' q''"
  shows "evolves now op q q''"
  using assms unfolding evolves_def by (metis rtranclp_trans)

lemma evolves_update:
  assumes "\<And>r. P r \<Longrightarrow> row_move (aq_ttl q) now op (a_id r) r (f r)" and "\<And>r. a_id (f r) = a_id r"
  shows "evolves now op q (q\<lparr>aq_rows := sql_update P f (aq_rows q)\<rparr>)"
proof -
  have "map a_id (sql_update P f (aq_rows q)) = map a_id (aq_rows q)" by (rule map_sql_update) (rule assms(2))
  moreover have "(row_move (aq_ttl q) now op i)\<^sup>*\<^sup>* r (if P r then f r else r)"
    if "approval_row i (aq_rows q) = Some r" for i r
    using assms(1) [of r] approvals.lookup_Some [OF that] by auto
  ultimately show ?thesis unfolding evolves_def by (simp add: approvals.lookup_update assms(2))
qed

lemma evolves_notify [simp]: "evolves now op q (notify e i q') = evolves now op q q'"
  by (simp add: evolves_def notify_def)

lemma evolves_stale: "evolves now op q (release_stale_claims now q)"
  unfolding release_stale_claims_def by (rule evolves_update) (auto intro: lapse)

lemma evolves_one:
  assumes "update_one i p f q = Some q'" and "\<And>r. p r \<Longrightarrow> a_id r = i \<Longrightarrow> row_move (aq_ttl q) now op i r (f r)"
    and "\<And>r. a_id (f r) = a_id r"
  shows "evolves now op q q'"
proof -
  have "q' = q\<lparr>aq_rows := sql_update (\<lambda>r. a_id r = i \<and> p r) f (aq_rows q)\<rparr>"
    using assms(1) by (simp add: update_one_def split: if_splits)
  then show ?thesis using evolves_update [of "\<lambda>r. a_id r = i \<and> p r"] assms(2,3) by auto
qed

section \<open>Every operation moves the rows\<close>

lemma evolves_params: "evolves now (Params i p) q (snd (update_params now i p q))"
  using evolves_stale by (auto simp: update_params_def Let_def split: option.split intro!: evolves_trans [OF evolves_stale evolves_one] row_move.params)

lemma evolves_rearm: "evolves now (Rearm i d) q (rearm_deadline now i d q)"
  using evolves_stale by (auto simp: rearm_deadline_def Let_def split: option.split intro!: evolves_trans [OF evolves_stale evolves_one] row_move.deadline)

lemma evolves_extend: "evolves now (Extend i n) q (snd (extend now i n q))"
  using evolves_stale by (auto simp: extend_def Let_def split: option.split
      intro!: evolves_trans [OF evolves_stale evolves_update] row_move.deadline)

lemma expire_if_unresolved_state:
  "snd (expire_if_unresolved now i force q) = release_stale_claims now q \<or>
   snd (expire_if_unresolved now i force q) = notify ''resolved'' i ((release_stale_claims now q)\<lparr>aq_rows :=
      sql_update (\<lambda>r. a_id r = i \<and> \<not> a_resolved r \<and> (force \<or> a_claim r = None)) expired
        (aq_rows (release_stale_claims now q))\<rparr>)"
  by (simp add: expire_if_unresolved_def Let_def split: option.split)

lemma evolves_expire_if:
  assumes "\<And>r. \<not> a_resolved r \<Longrightarrow> force \<or> a_claim r = None \<Longrightarrow> row_move (aq_ttl q) now op i r (expired r)"
  shows "evolves now op q (snd (expire_if_unresolved now i force q))"
proof -
  let ?q = "release_stale_claims now q"
  let ?u = "?q\<lparr>aq_rows := sql_update (\<lambda>r. a_id r = i \<and> \<not> a_resolved r \<and> (force \<or> a_claim r = None)) expired (aq_rows ?q)\<rparr>"
  have t: "aq_ttl ?q = aq_ttl q" by (simp add: release_stale_claims_def)
  have "evolves now op ?q ?u"
  proof (rule evolves_update)
    fix r :: approval assume "a_id r = i \<and> \<not> a_resolved r \<and> (force \<or> a_claim r = None)"
    then have "a_id r = i \<and> row_move (aq_ttl q) now op i r (expired r)" using assms [of r] by simp
    then show "row_move (aq_ttl ?q) now op (a_id r) r (expired r)" by (simp only: t)
  qed simp
  then have u: "evolves now op q (notify ''resolved'' i ?u)" using evolves_trans [OF evolves_stale] by simp
  show ?thesis using expire_if_unresolved_state [of now i force q]
    by (elim disjE) (simp_all only: u evolves_stale)
qed

lemma evolves_expire_soft: "op = Expire i False \<or> op = Poll i \<Longrightarrow> evolves now op q (snd (expire_if_unresolved now i False q))"
  by (rule evolves_expire_if) (auto intro: row_move.expire simp: open_row_def)

lemma evolves_expire_force: "forces i op \<Longrightarrow> evolves now op q (snd (expire_if_unresolved now i True q))"
  by (rule evolves_expire_if) (auto intro: row_move.force)

lemma evolves_expire: "evolves now (Expire i force) q (snd (expire_if_unresolved now i force q))"
  by (cases force) (simp_all add: evolves_expire_soft evolves_expire_force)

lemma evolves_expire_all:
  assumes "\<And>i. forces i op"
  shows "evolves now op q (expire_all now ids q)"
proof (induction ids arbitrary: q)
  case (Cons i ids)
  have "evolves now op q (snd (expire_if_unresolved now i True q))" by (rule evolves_expire_force) (simp add: assms)
  then show ?case using Cons evolves_trans unfolding expire_all_def by fastforce
qed (simp add: expire_all_def)

lemma evolves_get: "evolves now op q (snd (get_approval now i q))"
  using evolves_stale by (simp add: get_approval_def Let_def)

lemma evolves_poll: "evolves now (Poll i) q (snd (wait_poll now i q))"
proof -
  obtain x q1 where g: "get_approval now i q = (x, q1)" by (cases "get_approval now i q")
  have e: "evolves now (Poll i) q q1" using evolves_get [of now "Poll i" q i] by (simp add: g del: evolves_refl)
  obtain y q2 where g2: "expire_if_unresolved now i False q1 = (y, q2)" by (cases "expire_if_unresolved now i False q1")
  have "evolves now (Poll i) q1 q2" using evolves_expire_soft [where op = "Poll i" and i = i and now = now and q = q1] by (simp add: g2)
  then have "evolves now (Poll i) q q2" by (rule evolves_trans [OF e])
  then show ?thesis using e by (simp add: wait_poll_def g g2 split: sum.split option.split)
qed

lemma evolves_resolve: "decides i b op \<Longrightarrow> evolves now op q (snd (resolve now i b idem meta q))"
  using evolves_stale by (auto simp: resolve_def Let_def split: option.split
      intro!: evolves_trans [OF evolves_stale evolves_one] row_move.resolve)

lemma evolves_resolve_each:
  assumes "\<And>i. decides i b op"
  shows "evolves now op q (snd (resolve_each now b ids q))"
proof (induction ids arbitrary: q)
  case (Cons i ids)
  obtain x q1 where g: "resolve now i b True [] q = (x, q1)" by (cases "resolve now i b True [] q")
  have e: "evolves now op q q1" using evolves_resolve [OF assms [of i], where now = now and idem = True and meta = "[]" and q = q] by (simp add: g)
  obtain y q2 where g2: "resolve_each now b ids q1 = (y, q2)" by (cases "resolve_each now b ids q1")
  have "evolves now op q q2" using Cons [of q1] evolves_trans [OF e] by (simp add: g2)
  then show ?case using e by (simp add: g g2 split: sum.split)
qed simp

lemma evolves_claim: "evolves now (Claim i t meta) q (snd (claim_resolution now i t meta q))"
proof -
  have "evolves now (Claim i t meta) q (release_stale_claims now q2)"
    if "update_one i open_row (claimed t now meta) (release_stale_claims now q) = Some q2" for q2
    using that evolves_trans [OF evolves_trans [OF evolves_stale evolves_one [OF that]] evolves_stale] row_move.claim by simp
  then show ?thesis using evolves_stale by (simp add: claim_resolution_def Let_def split: option.split)
qed

lemma evolves_finalize: "evolves now (Finalize i t b) q (snd (finalize_claimed_resolution i t b q))"
  by (auto simp: finalize_claimed_resolution_def split: option.split intro!: evolves_one row_move.finalize)

lemma evolves_complete: "evolves now (Complete i t) q (snd (complete_claimed_resolution now i t q))"
  by (auto simp: complete_claimed_resolution_def split: option.split
      intro!: evolves_trans [OF evolves_one evolves_stale] row_move.complete)

lemma evolves_expire_claim: "evolves now (Expire_Claim i t) q (snd (expire_claimed_resolution now i t q))"
  by (auto simp: expire_claimed_resolution_def split: option.split
      intro!: evolves_trans [OF evolves_one evolves_stale] row_move.expire_claim)

lemma evolves_release: "evolves now (Release i t) q (snd (release_resolution_claim now i t q))"
  by (auto simp: release_resolution_claim_def split: option.split
      intro!: evolves_trans [OF evolves_update evolves_stale] row_move.release)

lemma evolves_reopen: "evolves now (Reopen i b) q (snd (reopen_resolved_approval now i b q))"
  by (auto simp: reopen_resolved_approval_def split: option.split
      intro!: evolves_trans [OF evolves_update evolves_stale] row_move.reopen)

lemma evolves_consume: "evolves now (Consume i) q (snd (consume now i q))"
  using evolves_stale by (auto simp: consume_def Let_def split: option.split
      intro!: evolves_trans [OF evolves_stale evolves_one] row_move.consume)

text \<open>Every operation but an admission moves the rows that are there.\<close>

lemma perform_evolves:
  assumes "\<forall>i ns p. op \<noteq> Request i ns p"
  shows "evolves now op q (snd (perform now op q))"
proof (cases op)
  case (Resolve_Session k b)
  have "evolves now op q (snd (resolve_each now b ids (release_stale_claims now q)))" for ids
    by (rule evolves_trans [OF evolves_stale evolves_resolve_each]) (simp add: Resolve_Session)
  then show ?thesis using Resolve_Session by (simp add: carried_out_def resolve_pending_for_session_def Let_def)
qed (use assms evolves_params evolves_rearm evolves_extend evolves_expire evolves_get evolves_poll evolves_resolve evolves_claim
    evolves_finalize evolves_complete evolves_expire_claim evolves_release evolves_reopen evolves_consume evolves_stale evolves_expire_all in
    \<open>simp_all add: carried_out_def list_pending_def expire_pending_for_session_def expire_all_pending_def Let_def\<close>)

end
