(* ===== verification/Approval_Life.thy ===== *)
theory Approval_Life
  imports Approval_Machine
begin

text \<open>
  The abstract machine of an approval and the refinement: what every operation of the queue, and
  every history of operations, does to the standing of an approval.
\<close>

section \<open>The abstract machine\<close>

datatype standing = Waiting | Held string | Sealed string | Voided string | Granted | Refused | Spent

definition standing :: "approval \<Rightarrow> standing" where
  "standing r =
     (case a_claim r of
        None \<Rightarrow> if \<not> a_resolved r then Waiting else if \<not> a_approved r then Refused
                else if a_consumed r then Spent else Granted
      | Some t \<Rightarrow> if \<not> a_resolved r then Held t else if a_approved r then Sealed t else Voided t)"

inductive life :: "approval_op \<Rightarrow> string \<Rightarrow> standing \<Rightarrow> standing \<Rightarrow> bool" for op i where
  "op = Claim i t meta \<Longrightarrow> life op i Waiting (Held t)"
| "life op i (Held t) Waiting"
| "decides i True op \<Longrightarrow> life op i Waiting Granted"
| "decides i False op \<Longrightarrow> life op i Waiting Refused"
| "op = Expire i False \<or> op = Poll i \<or> forces i op \<Longrightarrow> life op i Waiting Refused"
| "forces i op \<Longrightarrow> life op i (Held t) Refused"
| "op = Finalize i t True \<Longrightarrow> life op i (Held t) (Sealed t)"
| "op = Finalize i t False \<Longrightarrow> life op i (Held t) (Voided t)"
| "op = Expire_Claim i t \<Longrightarrow> s \<in> {Held t, Sealed t, Voided t} \<Longrightarrow> life op i s Refused"
| "op = Complete i t \<Longrightarrow> life op i (Sealed t) Granted"
| "op = Consume i \<Longrightarrow> life op i Granted Spent"
| "op = Reopen i True \<Longrightarrow> s \<in> {Granted, Spent, Sealed t} \<Longrightarrow> life op i s Waiting"
| "op = Reopen i False \<Longrightarrow> s \<in> {Refused, Voided t} \<Longrightarrow> life op i s Waiting"

inductive_cases life_Refused: "life op i Refused s"
inductive_cases life_Spent: "life op i Spent s"
inductive_cases life_Sealed: "life op i (Sealed t) s"
inductive_cases row_moveE: "row_move ttl now op i r r'"

text \<open>The columns of a row agree with each other.\<close>

definition row_ok :: "approval \<Rightarrow> bool" where
  "row_ok r =
     ((a_claim r = None) = (a_claim_started r = None) \<and> a_claim r \<noteq> Some [] \<and>
      (if \<not> a_resolved r then \<not> a_approved r \<and> \<not> a_consumed r \<and> a_resolution r = []
       else if a_approved r then a_resolution r = ''approved'' \<and> (a_consumed r \<longrightarrow> a_claim r = None)
       else \<not> a_consumed r \<and> a_resolution r \<in> {''denied'', ''expired''}))"

lemma row_move_ok: "row_move ttl now op i r r' \<Longrightarrow> proper_op op \<Longrightarrow> row_ok r \<Longrightarrow> row_ok r'"
  by (erule row_moveE) (auto simp: row_ok_def row_defs open_row_def stale_def)

lemma row_ok_claim [simp]: "row_ok r \<Longrightarrow> entry_claim r = a_claim r"
  by (simp add: row_ok_def entry_claim_def)

text \<open>A move of a coherent row is a step of the machine or leaves the standing.\<close>

lemma row_move_life:
  assumes "row_move ttl now op i r r'" and "row_ok r"
  shows "standing r' = standing r \<or> life op i (standing r) (standing r')"
  using assms
proof (cases rule: row_move.cases)
  case lapse
  then show ?thesis by (auto simp: standing_def unclaim_def stale_def intro: life.intros)
next
  case params
  then show ?thesis by (simp add: standing_def split: option.split)
next
  case deadline
  then show ?thesis by (simp add: standing_def split: option.split)
next
  case expire
  then show ?thesis by (simp add: standing_def open_row_def expired_def) (auto intro: life.intros)
next
  case force
  then show ?thesis by (auto simp: standing_def expired_def split: option.split intro: life.intros)
next
  case (expire_claim t)
  then show ?thesis by (auto simp: standing_def expired_def intro: life.intros)
next
  case (resolve b meta)
  then show ?thesis using assms(2) by (cases b) (auto simp: standing_def open_row_def resolved_as_def row_ok_def intro: life.intros)
next
  case (claim t meta)
  then show ?thesis by (auto simp: standing_def open_row_def claimed_def intro: life.intros)
next
  case (finalize t b)
  then show ?thesis by (cases b) (auto simp: standing_def finalized_def intro: life.intros)
next
  case (complete t)
  then show ?thesis using assms(2) by (auto simp: standing_def unclaim_def row_ok_def intro: life.intros)
next
  case (release t)
  then show ?thesis by (auto simp: standing_def unclaim_def intro: life.intros)
next
  case (reopen b)
  then show ?thesis by (cases b) (auto simp: standing_def reopened_def split: option.split intro: life.intros)
next
  case consume
  then show ?thesis by (auto simp: standing_def intro: life.intros)
qed

lemma row_moves_life:
  "(row_move ttl now op i)\<^sup>*\<^sup>* r r' \<Longrightarrow> proper_op op \<Longrightarrow> row_ok r \<Longrightarrow>
     row_ok r' \<and> (life op i)\<^sup>*\<^sup>* (standing r) (standing r')"
proof (induction rule: rtranclp_induct)
  case (step y z)
  then have y: "row_ok y" "(life op i)\<^sup>*\<^sup>* (standing r) (standing y)" by simp_all
  have "standing z = standing y \<or> life op i (standing y) (standing z)" by (rule row_move_life) (rule step y)+
  then have "(life op i)\<^sup>*\<^sup>* (standing r) (standing z)" using y(2) by (metis rtranclp.rtrancl_into_rtrancl)
  then show ?case using row_move_ok [OF step(2) step.prems(1) y(1)] by simp
qed simp

section \<open>Queues\<close>

definition queue_ok :: "approval_queue \<Rightarrow> bool" where
  "queue_ok q = (distinct (map a_id (aq_rows q)) \<and> (\<forall>r \<in> set (aq_rows q). row_ok r))"

definition standing_at :: "string \<Rightarrow> approval_queue \<Rightarrow> standing option" where
  "standing_at i q = map_option standing (approval_row i (aq_rows q))"

lemma queue_ok_row: "queue_ok q \<Longrightarrow> approval_row i (aq_rows q) = Some r \<Longrightarrow> row_ok r \<and> a_id r = i"
  using approvals.lookup_Some unfolding queue_ok_def by blast

lemma evolves_life:
  assumes "evolves now op q q'" and "proper_op op" and "queue_ok q"
  shows "queue_ok q'" and "standing_at i q = Some s \<Longrightarrow> \<exists>s'. standing_at i q' = Some s' \<and> (life op i)\<^sup>*\<^sup>* s s'"
    and "standing_at i q = None \<Longrightarrow> standing_at i q' = None"
proof -
  have ids: "map a_id (aq_rows q') = map a_id (aq_rows q)" using assms(1) by (simp add: evolves_def)
  have rows: "\<exists>r'. approval_row j (aq_rows q') = Some r' \<and> row_ok r' \<and> (life op j)\<^sup>*\<^sup>* (standing r) (standing r')"
    if r: "approval_row j (aq_rows q) = Some r" for j r
  proof -
    obtain r' where "approval_row j (aq_rows q') = Some r'" "(row_move (aq_ttl q) now op j)\<^sup>*\<^sup>* r r'"
      using assms(1) r unfolding evolves_def by blast
    then show ?thesis using row_moves_life [OF _ assms(2)] queue_ok_row [OF assms(3) r] by blast
  qed
  have "row_ok r'" if m: "r' \<in> set (aq_rows q')" for r'
  proof -
    have "a_id r' \<in> a_id ` set (aq_rows q)" using m ids by (metis image_eqI list.set_map)
    then obtain r where "approval_row (a_id r') (aq_rows q) = Some r"
      using approvals.lookup_None_iff by fastforce
    then obtain r'' where "approval_row (a_id r') (aq_rows q') = Some r''" "row_ok r''" using rows by blast
    moreover have "approval_row (a_id r') (aq_rows q') = Some r'"
      by (rule approvals.lookup_unique) (use assms(3) ids m in \<open>simp_all add: queue_ok_def\<close>)
    ultimately show ?thesis by simp
  qed
  then show "queue_ok q'" using assms(3) ids by (simp add: queue_ok_def)
  show "standing_at i q = Some s \<Longrightarrow> \<exists>s'. standing_at i q' = Some s' \<and> (life op i)\<^sup>*\<^sup>* s s'"
    using rows [of i] by (auto simp: standing_at_def)
  show "standing_at i q = None \<Longrightarrow> standing_at i q' = None"
  proof -
    assume "standing_at i q = None"
    moreover have "a_id ` set (aq_rows q') = a_id ` set (aq_rows q)" by (metis ids list.set_map)
    ultimately show "standing_at i q' = None" unfolding standing_at_def approvals.lookup_None_iff map_option_is_None by (metis imageE imageI)
  qed
qed

text \<open>An admission adds a waiting row; it leaves the others.\<close>

lemma request_life:
  assumes "queue_ok q"
  shows "queue_ok (snd (perform now (Request j ns p) q))"
    and "standing_at i q = Some s \<Longrightarrow> standing_at i (snd (perform now (Request j ns p) q)) = Some s"
    and "standing_at i q = None \<Longrightarrow> standing_at i (snd (perform now (Request j ns p) q)) \<in> {None, Some Waiting}"
proof -
  show "queue_ok (snd (perform now (Request j ns p) q))"
    using assms approvals.lookup_None_iff [of j "aq_rows q"]
    by (auto simp: request_def notify_def queue_ok_def row_ok_def Let_def)
qed (auto simp: request_def notify_def standing_at_def approvals.lookup_append standing_def Let_def)

lemma perform_ok: "queue_ok q \<Longrightarrow> proper_op op \<Longrightarrow> queue_ok (snd (perform now op q))"
  using request_life(1) evolves_life(1) [OF perform_evolves] by (cases "\<exists>j ns p. op = Request j ns p") blast+

lemma perform_life:
  assumes "queue_ok q" and "proper_op op" and "standing_at i q = Some s"
  obtains s' where "standing_at i (snd (perform now op q)) = Some s'" and "(life op i)\<^sup>*\<^sup>* s s'"
proof (cases "\<exists>j ns p. op = Request j ns p")
  case True
  then obtain j ns p where "op = Request j ns p" by blast
  then show ?thesis using request_life(2) [OF assms(1,3)] that by blast
next
  case False
  then show ?thesis using evolves_life(2) [OF perform_evolves assms(2,1,3)] that by blast
qed

lemma perform_absent:
  assumes "queue_ok q" and "proper_op op" and "standing_at i q = None"
  shows "standing_at i (snd (perform now op q)) \<in> {None, Some Waiting}"
proof (cases "\<exists>j ns p. op = Request j ns p")
  case True
  then obtain j ns p where "op = Request j ns p" by blast
  then show ?thesis using request_life(3) [OF assms(1,3)] by simp
next
  case False
  then show ?thesis using evolves_life(3) [OF perform_evolves assms(2,1,3)] by blast
qed

definition proper_history :: "approval_history \<Rightarrow> bool" where
  "proper_history h = list_all (\<lambda>(now, op). proper_op op) h"

lemma perform_all_ok: "queue_ok q \<Longrightarrow> proper_history h \<Longrightarrow> queue_ok (perform_all h q)"
  by (induction h arbitrary: q) (auto simp: proper_history_def perform_ok)

text \<open>A standing that no operation of the history can leave is kept.\<close>

lemma standing_kept:
  assumes "\<And>op s'. op \<in> snd ` set h \<Longrightarrow> life op i s s' \<Longrightarrow> False"
    and "queue_ok q" and "proper_history h" and "standing_at i q = Some s"
  shows "standing_at i (perform_all h q) = Some s"
  using assms
proof (induction h arbitrary: q)
  case (Cons e h)
  obtain now op where e: "e = (now, op)" by (cases e)
  have "op \<in> snd ` set (e # h)" by (simp add: e)
  then have no: "\<not> life op i s s'" for s' using Cons.prems(1) by blast
  have op: "proper_op op" using Cons.prems(3) by (simp add: e proper_history_def)
  obtain s' where s': "standing_at i (snd (perform now op q)) = Some s'" "(life op i)\<^sup>*\<^sup>* s s'"
    by (rule perform_life [OF Cons.prems(2) op Cons.prems(4)])
  from s'(2) have "s' = s" by (cases rule: converse_rtranclpE) (simp_all add: no)
  then have w: "standing_at i (snd (perform now op q)) = Some s" using s'(1) by simp
  have "standing_at i (perform_all h (snd (perform now op q))) = Some s"
  proof (rule Cons.IH [OF _ perform_ok [OF Cons.prems(2) op] _ w])
    show False if "op' \<in> snd ` set h" "life op' i s s'" for op' s' using Cons.prems(1) [of op' s'] that by simp
  qed (use Cons.prems(3) in \<open>simp add: proper_history_def\<close>)
  then show ?case by (simp add: e)
qed simp

section \<open>What an operation answers\<close>

lemma stale_row: "approval_row i (aq_rows (release_stale_claims now q)) =
    map_option (\<lambda>r. if stale (aq_ttl q) now r then unclaim r else r) (approval_row i (aq_rows q))"
  unfolding release_stale_claims_def by (simp add: approvals.lookup_update)

lemma stale_ok: "queue_ok q \<Longrightarrow> queue_ok (release_stale_claims now q)"
  by (rule evolves_life(1) [OF evolves_stale, of "Expire_All"]) simp_all

lemma update_one_row:
  assumes "queue_ok q" and "approval_row i (aq_rows q) = Some r" and "\<And>r. a_id (f r) = a_id r"
  shows "update_one i p f q = (if p r then Some (q\<lparr>aq_rows := sql_update (\<lambda>r. a_id r = i \<and> p r) f (aq_rows q)\<rparr>) else None)"
  using approvals.rowcount_guarded [of "aq_rows q" i r p] assms by (simp add: update_one_def queue_ok_def)

lemma updated_row:
  assumes "approval_row i (aq_rows q) = Some r" and "\<And>r. a_id (f r) = a_id r"
  shows "approval_row i (sql_update (\<lambda>r. a_id r = j \<and> p r) f (aq_rows q)) = Some (if i = j \<and> p r then f r else r)"
  using approvals.lookup_Some [OF assms(1)] by (auto simp: approvals.lookup_update [OF assms(2)] assms(1))

text \<open>Where the stale claims leave a row.\<close>

lemma stale_row_resolved: "approval_row i (aq_rows q) = Some r \<Longrightarrow> a_resolved r \<Longrightarrow>
    approval_row i (aq_rows (release_stale_claims now q)) = Some r"
  by (simp add: stale_row stale_def)

lemma standing_cases:
  "standing r = Waiting \<longleftrightarrow> \<not> a_resolved r \<and> a_claim r = None"
  "standing r = Held t \<longleftrightarrow> \<not> a_resolved r \<and> a_claim r = Some t"
  "standing r = Granted \<longleftrightarrow> a_resolved r \<and> a_approved r \<and> a_claim r = None \<and> \<not> a_consumed r"
  "standing r = Spent \<longleftrightarrow> a_resolved r \<and> a_approved r \<and> a_claim r = None \<and> a_consumed r"
  "standing r = Refused \<longleftrightarrow> a_resolved r \<and> \<not> a_approved r \<and> a_claim r = None"
  "standing r = Sealed t \<longleftrightarrow> a_resolved r \<and> a_approved r \<and> a_claim r = Some t"
  "standing r = Voided t \<longleftrightarrow> a_resolved r \<and> \<not> a_approved r \<and> a_claim r = Some t"
  by (auto simp: standing_def split: option.splits)

lemma consume_succeeds:
  assumes "queue_ok q"
  shows "fst (perform now (Consume i) q) \<longleftrightarrow> standing_at i q = Some Granted"
    and "standing_at i q = Some Granted \<Longrightarrow> standing_at i (snd (perform now (Consume i) q)) = Some Spent"
proof -
  let ?q = "release_stale_claims now q"
  have ok: "queue_ok ?q" by (rule stale_ok) (rule assms)
  show "fst (perform now (Consume i) q) \<longleftrightarrow> standing_at i q = Some Granted"
  proof (cases "approval_row i (aq_rows q)")
    case (Some r)
    then obtain r1 where r1: "approval_row i (aq_rows ?q) = Some r1"
        "r1 = (if stale (aq_ttl q) now r then unclaim r else r)" by (simp add: stale_row)
    have "fst (perform now (Consume i) q) \<longleftrightarrow> a_resolved r1 \<and> a_approved r1 \<and> \<not> a_consumed r1 \<and> a_claim r1 = None"
      using queue_ok_row [OF ok r1(1)] by (auto simp: consume_def carried_out_def Let_def r1(1) update_one_row [OF ok r1(1)])
    also have "\<dots> \<longleftrightarrow> standing r = Granted" by (auto simp: r1(2) standing_cases unclaim_def stale_def)
    finally show ?thesis by (simp add: standing_at_def Some)
  qed (simp add: consume_def carried_out_def Let_def standing_at_def stale_row)
  assume "standing_at i q = Some Granted"
  then obtain r where r: "approval_row i (aq_rows q) = Some r" "standing r = Granted" by (auto simp: standing_at_def)
  then have r1: "approval_row i (aq_rows ?q) = Some r" by (simp add: stale_row_resolved standing_cases)
  show "standing_at i (snd (perform now (Consume i) q)) = Some Spent"
    using r(2) queue_ok_row [OF ok r1]
    by (simp add: consume_def carried_out_def Let_def r1 update_one_row [OF ok r1] standing_cases standing_at_def updated_row [OF r1])
qed

end
