(* ===== verification/Approval_Safety.thy ===== *)
theory Approval_Safety
  imports Approval_Life
begin

text \<open>
  What the approval queue promises over every history of its operations: one use per approval,
  answers that stay, claims that exclude the others, denial at the deadline.
\<close>

declare perform.simps [simp del]

section \<open>One use per approval\<close>

fun uses :: "string \<Rightarrow> approval_history \<Rightarrow> approval_queue \<Rightarrow> nat" where
  "uses i [] q = 0"
| "uses i ((now, op) # h) q =
     of_bool (op = Consume i \<and> fst (perform now op q)) + uses i h (snd (perform now op q))"

fun approves :: "string \<Rightarrow> approval_op \<Rightarrow> bool" where
  "approves i (Finalize j t b) = (j = i \<and> b)"
| "approves i op = decides i True op"

definition ops_count :: "(approval_op \<Rightarrow> bool) \<Rightarrow> approval_history \<Rightarrow> nat" where
  "ops_count P h = length (filter (P \<circ> snd) h)"

lemma ops_count_simps [simp]:
  "ops_count P [] = 0" "ops_count P ((now, op) # h) = of_bool (P op) + ops_count P h"
  by (simp_all add: ops_count_def)

text \<open>
  A bound on the uses by what the standing still allows (\<open>left\<close>) and what the operations add
  (\<open>adds\<close>): it holds when a use takes one and no other move gains any.
\<close>

locale use_budget =
  fixes left :: "standing \<Rightarrow> nat" and adds :: "string \<Rightarrow> approval_op \<Rightarrow> bool"
  assumes left_bound: "left s \<le> 1"
    and left_use: "left Granted = 1" "left Spent = 0"
    and left_move: "life op i s s' \<Longrightarrow> \<not> adds i op \<Longrightarrow> left s' \<le> left s"
begin

definition left_at :: "string \<Rightarrow> approval_queue \<Rightarrow> nat" where
  "left_at i q = (case standing_at i q of None \<Rightarrow> left Waiting | Some s \<Rightarrow> left s)"

lemma left_moves: "(life op i)\<^sup>*\<^sup>* s s' \<Longrightarrow> \<not> adds i op \<Longrightarrow> left s' \<le> left s"
  by (induction rule: rtranclp_induct) (auto intro: order_trans left_move)

lemma left_perform:
  assumes "queue_ok q" and "proper_op op"
  shows "of_bool (op = Consume i \<and> fst (perform now op q)) + left_at i (snd (perform now op q))
           \<le> left_at i q + of_bool (adds i op)"
proof (cases "op = Consume i \<and> fst (perform now op q)")
  case True
  then have "standing_at i q = Some Granted" "standing_at i (snd (perform now op q)) = Some Spent"
    using consume_succeeds [OF assms(1)] by auto
  then show ?thesis using left_use by (simp add: left_at_def True)
next
  case False
  then have no: "of_bool (op = Consume i \<and> fst (perform now op q)) = (0 :: nat)" by (simp only: of_bool_def if_False)
  show ?thesis unfolding no
  proof (cases "standing_at i q")
    case None
    then have "left_at i (snd (perform now op q)) = left Waiting"
      using perform_absent [OF assms None, of now] by (auto simp: left_at_def)
    then show "0 + left_at i (snd (perform now op q)) \<le> left_at i q + of_bool (adds i op)"
      using None by (simp add: left_at_def)
  next
    case (Some s)
    obtain s' where s': "standing_at i (snd (perform now op q)) = Some s'" "(life op i)\<^sup>*\<^sup>* s s'"
      by (rule perform_life [OF assms Some])
    have "left s' \<le> left s + of_bool (adds i op)" using left_moves [OF s'(2)] left_bound [of s'] by (cases "adds i op") auto
    then show "0 + left_at i (snd (perform now op q)) \<le> left_at i q + of_bool (adds i op)"
      using Some s'(1) by (simp add: left_at_def)
  qed
qed

lemma uses_bound: "queue_ok q \<Longrightarrow> proper_history h \<Longrightarrow> uses i h q \<le> left_at i q + ops_count (adds i) h"
proof (induction h arbitrary: q)
  case (Cons e h)
  obtain now op where e: "e = (now, op)" by (cases e)
  have op: "proper_op op" and h: "proper_history h" using Cons.prems(2) by (simp_all add: e proper_history_def)
  show ?case using left_perform [OF Cons.prems(1) op, of i now] Cons.IH [OF perform_ok [OF Cons.prems(1) op] h, of now]
    by (simp add: e)
qed simp

end

definition granted_left :: "standing \<Rightarrow> nat" where
  "granted_left s = (case s of Granted \<Rightarrow> 1 | Sealed t \<Rightarrow> 1 | _ \<Rightarrow> 0)"

definition unspent_left :: "standing \<Rightarrow> nat" where
  "unspent_left s = (if s = Spent then 0 else 1)"

lemma decides_approves: "decides i True op \<Longrightarrow> approves i op"
  by (cases op) simp_all

interpretation granted: use_budget granted_left approves
proof
  show "granted_left s' \<le> granted_left s" if "life op i s s'" "\<not> approves i op" for op i s s'
    using that by (cases rule: life.cases) (auto simp: granted_left_def decides_approves)
qed (auto simp: granted_left_def split: standing.split)

interpretation unspent: use_budget unspent_left "\<lambda>i op. op = Reopen i True"
proof
  show "unspent_left s' \<le> unspent_left s" if "life op i s s'" "op \<noteq> Reopen i True" for op i s s'
    using that by (cases rule: life.cases) (auto simp: unspent_left_def)
qed (auto simp: unspent_left_def)

lemma new_queue_ok [simp]: "queue_ok (new_queue timeout ttl [] codes)" "standing_at i (new_queue timeout ttl [] codes) = None"
  by (simp_all add: new_queue_def queue_ok_def standing_at_def)

text \<open>C10: From an empty queue, over any history of operations, an approval is used at most as often
  as an operation approved it, and at most once more often than it was reopened as approved: a
  grant cannot be replayed, and no expiry, claim or crash of a holder makes one.\<close>

theorem one_use_per_approval:
  assumes "proper_history h"
  shows "uses i h (new_queue timeout ttl [] codes) \<le> ops_count (approves i) h
       \<and> uses i h (new_queue timeout ttl [] codes) \<le> 1 + ops_count (\<lambda>op. op = Reopen i True) h"
  using granted.uses_bound [OF new_queue_ok(1) assms] unspent.uses_bound [OF new_queue_ok(1) assms]
  by (simp add: granted.left_at_def unspent.left_at_def granted_left_def unspent_left_def)

section \<open>Answers that stay\<close>

text \<open>The standings a waiting coroutine answers from, and the answer.\<close>

definition answers :: "bool \<Rightarrow> standing \<Rightarrow> bool" where
  "answers b s = (if b then s = Granted \<or> s = Spent else s = Refused)"

lemma answers_move: "answers b s \<Longrightarrow> life op i s s' \<Longrightarrow> op \<noteq> Reopen i b \<Longrightarrow> answers b s'"
  by (cases rule: life.cases) (auto simp: answers_def split: if_splits)

lemma answers_moves: "(life op i)\<^sup>*\<^sup>* s s' \<Longrightarrow> answers b s \<Longrightarrow> op \<noteq> Reopen i b \<Longrightarrow> answers b s'"
  by (induction rule: rtranclp_induct) (auto intro: answers_move)

lemma answers_kept:
  assumes "queue_ok q" and "proper_history h" and "standing_at i q = Some s" and "answers b s"
    and "Reopen i b \<notin> snd ` set h"
  shows "\<exists>s'. standing_at i (perform_all h q) = Some s' \<and> answers b s'"
  using assms
proof (induction h arbitrary: q s)
  case (Cons e h)
  obtain now op where e: "e = (now, op)" by (cases e)
  have op: "proper_op op" and h: "proper_history h" using Cons.prems(2) by (simp_all add: e proper_history_def)
  obtain s' where s': "standing_at i (snd (perform now op q)) = Some s'" "(life op i)\<^sup>*\<^sup>* s s'"
    by (rule perform_life [OF Cons.prems(1) op Cons.prems(3)])
  have "answers b s'" by (rule answers_moves [OF s'(2) Cons.prems(4)]) (use Cons.prems(5) in \<open>auto simp: e\<close>)
  then show ?case using Cons.IH [OF perform_ok [OF Cons.prems(1) op] h s'(1)] Cons.prems(5) by (simp add: e)
qed simp

lemma answers_row: "row_ok r \<Longrightarrow> answers b (standing r) \<longleftrightarrow> a_resolved r \<and> a_claim r = None \<and> a_approved r = b"
  by (auto simp: answers_def standing_cases)

lemma poll_settled:
  assumes "queue_ok q" and "standing_at i q = Some s" and "answers b s"
  shows "fst (wait_poll now i q) = Inr (Answer b)"
proof -
  obtain r where r: "approval_row i (aq_rows q) = Some r" "s = standing r" using assms(2) by (auto simp: standing_at_def)
  have "a_resolved r" "a_claim r = None" "a_approved r = b"
    using assms(3) queue_ok_row [OF assms(1) r(1)] by (auto simp: r(2) answers_row)
  then show ?thesis using queue_ok_row [OF assms(1) r(1)]
    by (simp add: wait_poll_def get_approval_def Let_def stale_row_resolved [OF r(1)])
qed

lemma expire_answers:
  assumes "queue_ok q" and "fst (expire_if_unresolved now i False q) = Inr (Some b)"
  shows "\<exists>s. standing_at i (snd (expire_if_unresolved now i False q)) = Some s \<and> answers b s"
proof -
  let ?q = "release_stale_claims now q"
  let ?u = "?q\<lparr>aq_rows := sql_update (\<lambda>r. a_id r = i \<and> open_row r) expired (aq_rows ?q)\<rparr>"
  have ok: "queue_ok ?q" by (rule stale_ok) (rule assms(1))
  obtain r where r: "approval_row i (aq_rows ?q) = Some r"
    using assms(2) by (auto simp: expire_if_unresolved_def Let_def split: option.splits)
  then have rok: "row_ok r" "a_id r = i" using queue_ok_row [OF ok] by simp_all
  show ?thesis
  proof (cases "a_resolved r")
    case True
    then show ?thesis using assms(2) rok r
      by (auto simp: expire_if_unresolved_def Let_def standing_at_def answers_row split: if_splits)
  next
    case False
    then have c: "a_claim r = None" and d: "\<not> now < a_deadline r"
      using assms(2) rok r by (auto simp: expire_if_unresolved_def Let_def split: if_splits)
    then have e: "expire_if_unresolved now i False q = (Inr (map_option a_approved (approval_row i (aq_rows ?u))), notify ''resolved'' i ?u)"
      using False rok r by (simp add: expire_if_unresolved_def Let_def open_row_def)
    have "approval_row i (aq_rows ?u) = Some (expired r)"
      using c False rok(2) by (simp add: updated_row [OF r] open_row_def)
    then show ?thesis using assms(2) unfolding e
      by (simp add: standing_at_def notify_def answers_def standing_cases expired_def)
  qed
qed

lemma poll_answers:
  assumes "queue_ok q" and "fst (wait_poll now i q) = Inr (Answer b)"
  shows "\<exists>s. standing_at i (snd (wait_poll now i q)) = Some s \<and> answers b s"
proof -
  let ?q = "release_stale_claims now q"
  have ok: "queue_ok ?q" by (rule stale_ok) (rule assms(1))
  obtain r where r: "approval_row i (aq_rows ?q) = Some r"
    using assms(2) by (auto simp: wait_poll_def get_approval_def Let_def split: option.splits)
  then have rok: "row_ok r" using queue_ok_row [OF ok] by simp
  show ?thesis
  proof (cases "a_resolved r \<and> a_claim r = None")
    case True
    then show ?thesis using assms(2) rok r
      by (auto simp: wait_poll_def get_approval_def Let_def standing_at_def answers_row)
  next
    case False
    obtain x q2 where e: "expire_if_unresolved now i False ?q = (x, q2)" by (cases "expire_if_unresolved now i False ?q")
    have "x = Inr (Some b)" and "snd (wait_poll now i q) = q2" using assms(2) rok r False e
      by (auto simp: wait_poll_def get_approval_def Let_def split: if_splits sum.splits option.splits)
    then show ?thesis using expire_answers [OF ok, of now i b] e by simp
  qed
qed

lemma poll_is_perform: "snd (wait_poll now i q) = snd (perform now (Poll i) q)"
  by (simp add: perform.simps carried_out_def)

text \<open>C12: What a waiting coroutine was answered is what every later one is answered, whatever
  operations come between, as long as the approval is not reopened from that very answer; a
  refused approval cannot be used.\<close>

theorem answer_stays:
  assumes "proper_history g" and "q = perform_all g (new_queue timeout ttl [] codes)"
    and "fst (wait_poll now i q) = Inr (Answer b)"
    and "proper_history h" and "Reopen i b \<notin> snd ` set h"
  shows "fst (wait_poll later i (perform_all h (snd (wait_poll now i q)))) = Inr (Answer b)
       \<and> (b \<or> \<not> fst (perform later (Consume i) (perform_all h (snd (wait_poll now i q)))))"
proof -
  have q: "queue_ok q" using perform_all_ok [OF new_queue_ok(1) assms(1)] assms(2) by simp
  then have q1: "queue_ok (snd (wait_poll now i q))" by (simp add: poll_is_perform perform_ok)
  obtain s where "standing_at i (snd (wait_poll now i q)) = Some s" "answers b s" using poll_answers [OF q assms(3)] by blast
  then obtain s' where s': "standing_at i (perform_all h (snd (wait_poll now i q))) = Some s'" "answers b s'"
    using answers_kept [OF q1 assms(4) _ _ assms(5)] by blast
  have ok: "queue_ok (perform_all h (snd (wait_poll now i q)))" by (rule perform_all_ok [OF q1 assms(4)])
  have "b \<or> s' \<noteq> Granted" using s'(2) by (auto simp: answers_def)
  then show ?thesis using poll_settled [OF ok s'] consume_succeeds(1) [OF ok] s'(1) by simp
qed

section \<open>Claims\<close>

text \<open>The operations of the holder of a claim, and those that a claim shuts out.\<close>

fun by_holder :: "string \<Rightarrow> string \<Rightarrow> approval_op \<Rightarrow> bool" where
  "by_holder i t (Finalize j u b) = (j = i \<and> u = t)"
| "by_holder i t (Release j u) = (j = i \<and> u = t)"
| "by_holder i t (Expire_Claim j u) = (j = i \<and> u = t)"
| "by_holder i t op = False"

fun contends :: "string \<Rightarrow> approval_op \<Rightarrow> bool" where
  "contends i (Resolve j b idem meta) = (j = i)"
| "contends i (Claim j t meta) = (j = i)"
| "contends i (Consume j) = (j = i)"
| "contends i (Params j p) = (j = i)"
| "contends i (Extend j n) = (j = i)"
| "contends i op = False"

definition held_row :: "string \<Rightarrow> int \<Rightarrow> approval \<Rightarrow> bool" where
  "held_row t c r = (\<not> a_resolved r \<and> a_claim r = Some t \<and> a_claim_started r = Some c)"

lemma held_moves:
  assumes "(row_move ttl now op i)\<^sup>*\<^sup>* r r'" and "held_row t c r" and "now < c + ttl"
    and "\<not> forces i op" and "\<not> by_holder i t op"
  shows "r' = r"
proof -
  have no: "\<not> row_move ttl now op i r x" for x
    using assms(2-5) by (auto elim!: row_moveE simp: held_row_def open_row_def stale_def)
  from assms(1) show ?thesis by (cases rule: converse_rtranclpE) (simp_all add: no)
qed

lemma perform_ttl [simp]: "aq_ttl (snd (perform now op q)) = aq_ttl q"
proof (cases "\<exists>j ns p. op = Request j ns p")
  case False
  then show ?thesis using perform_evolves [of op now q] by (simp add: evolves_def)
qed (auto simp: perform.simps request_def notify_def Let_def)

lemma held_kept:
  assumes "approval_row i (aq_rows q) = Some r" and "held_row t c r"
    and "now < c + aq_ttl q" and "\<not> forces i op" and "\<not> by_holder i t op"
  shows "approval_row i (aq_rows (snd (perform now op q))) = Some r"
proof (cases "\<exists>j ns p. op = Request j ns p")
  case True
  then show ?thesis using assms(1) by (auto simp: perform.simps request_def notify_def Let_def approvals.lookup_append)
next
  case False
  then obtain r' where "approval_row i (aq_rows (snd (perform now op q))) = Some r'" "(row_move (aq_ttl q) now op i)\<^sup>*\<^sup>* r r'"
    using perform_evolves [of op now q] assms(1) unfolding evolves_def by blast
  then show ?thesis using held_moves [OF _ assms(2-5)] by simp
qed

lemma held_kept_all:
  assumes "approval_row i (aq_rows q) = Some r" and "held_row t c r"
    and "\<forall>(now, op) \<in> set h. now < c + aq_ttl q \<and> \<not> forces i op \<and> \<not> by_holder i t op"
  shows "approval_row i (aq_rows (perform_all h q)) = Some r"
  using assms
proof (induction h arbitrary: q)
  case (Cons e h)
  obtain now op where e: "e = (now, op)" by (cases e)
  have "approval_row i (aq_rows (snd (perform now op q))) = Some r"
    by (rule held_kept [OF Cons.prems(1,2)]) (use Cons.prems(3) in \<open>simp_all add: e\<close>)
  then show ?case using Cons.IH [of "snd (perform now op q)"] Cons.prems by (simp add: e)
qed simp

lemma held_shuts_out:
  assumes "approval_row i (aq_rows q) = Some r" and "held_row t c r" and "t \<noteq> []"
    and "now < c + aq_ttl q" and "contends i op"
  shows "\<not> fst (perform now op q)"
proof -
  have r: "approval_row i (aq_rows (release_stale_claims now q)) = Some r" "entry_claim r = Some t" "\<not> a_resolved r"
    using assms(1-4) by (auto simp: stale_row stale_def held_row_def entry_claim_def)
  show ?thesis using assms(5) r
    by (cases op) (simp_all add: perform.simps carried_out_def resolve_def claim_resolution_def consume_def
        update_params_def extend_def Let_def)
qed

text \<open>The row after a claim, a finalisation, a completion and a resolution.\<close>

lemma claim_row:
  assumes "queue_ok q" and "0 < aq_ttl q" and "approval_row i (aq_rows (release_stale_claims c q)) = Some r" and "open_row r"
  shows "fst (perform c (Claim i t meta) q)"
    and "approval_row i (aq_rows (snd (perform c (Claim i t meta) q))) = Some (claimed t c meta r)"
proof -
  let ?q = "release_stale_claims c q"
  let ?u = "?q\<lparr>aq_rows := sql_update (\<lambda>r. a_id r = i \<and> open_row r) (claimed t c meta) (aq_rows ?q)\<rparr>"
  have ok: "queue_ok ?q" by (rule stale_ok) (rule assms(1))
  have r: "row_ok r" "a_id r = i" using queue_ok_row [OF ok assms(3)] by simp_all
  have free: "\<not> a_resolved r" "a_claim r = None" using assms(4) by (simp_all add: open_row_def)
  have p: "perform c (Claim i t meta) q = (True, release_stale_claims c ?u)"
    using assms(3,4) r free by (simp add: perform.simps carried_out_def claim_resolution_def Let_def update_one_row [OF ok assms(3)])
  then show "fst (perform c (Claim i t meta) q)" by simp
  have "approval_row i (aq_rows ?u) = Some (claimed t c meta r)" using assms(4) r(2) by (simp add: updated_row [OF assms(3)])
  moreover have "aq_ttl ?u = aq_ttl q" by (simp add: release_stale_claims_def)
  moreover have "\<not> stale (aq_ttl q) c (claimed t c meta r)" using assms(2) by (simp add: stale_def claimed_def)
  ultimately have "approval_row i (aq_rows (release_stale_claims c ?u)) = Some (claimed t c meta r)"
    using stale_row [of i c ?u] by (simp del: approval_queue.simps)
  then show "approval_row i (aq_rows (snd (perform c (Claim i t meta) q))) = Some (claimed t c meta r)" by (simp only: p snd_conv)
qed

lemma claim_gives_hold:
  assumes "queue_ok q" and "0 < aq_ttl q" and "fst (perform c (Claim i t meta) q)"
  shows "\<exists>r. approval_row i (aq_rows (snd (perform c (Claim i t meta) q))) = Some r \<and> held_row t c r"
proof -
  have ok: "queue_ok (release_stale_claims c q)" by (rule stale_ok) (rule assms(1))
  obtain r where r: "approval_row i (aq_rows (release_stale_claims c q)) = Some r"
    using assms(3) by (auto simp: perform.simps carried_out_def claim_resolution_def Let_def split: option.splits)
  have "open_row r" using assms(3) r queue_ok_row [OF ok r]
    by (auto simp: perform.simps carried_out_def claim_resolution_def open_row_def Let_def split: if_splits)
  then show ?thesis using claim_row(2) [OF assms(1,2) r] by (simp add: held_row_def claimed_def open_row_def)
qed

lemma finalize_row:
  assumes "queue_ok q" and "approval_row i (aq_rows q) = Some r" and "\<not> a_resolved r" and "a_claim r = Some t"
  shows "fst (perform c (Finalize i t b) q)"
    and "approval_row i (aq_rows (snd (perform c (Finalize i t b) q))) = Some (finalized b r)"
  using assms(3,4) queue_ok_row [OF assms(1,2)]
  by (simp_all add: perform.simps carried_out_def finalize_claimed_resolution_def assms(2) update_one_row [OF assms(1,2)] updated_row [OF assms(2)])

lemma complete_row:
  assumes "queue_ok q" and "approval_row i (aq_rows q) = Some r" and "a_resolved r" and "a_approved r" and "a_claim r = Some t"
  shows "fst (perform c (Complete i t) q)"
    and "approval_row i (aq_rows (snd (perform c (Complete i t) q))) = Some (unclaim r)"
proof -
  let ?u = "q\<lparr>aq_rows := sql_update (\<lambda>r. a_id r = i \<and> a_resolved r \<and> a_approved r \<and> a_claim r = Some t) unclaim (aq_rows q)\<rparr>"
  have r: "row_ok r" "a_id r = i" using queue_ok_row [OF assms(1,2)] by simp_all
  have p: "perform c (Complete i t) q = (True, notify ''resolved'' i (release_stale_claims c ?u))"
    using assms(3-5) r by (simp add: perform.simps carried_out_def complete_claimed_resolution_def assms(2) update_one_row [OF assms(1,2)])
  then show "fst (perform c (Complete i t) q)" by simp
  have "approval_row i (aq_rows ?u) = Some (unclaim r)" using assms(3-5) r(2) by (simp add: updated_row [OF assms(2)])
  then have "approval_row i (aq_rows (release_stale_claims c ?u)) = Some (unclaim r)"
    by (rule stale_row_resolved) (simp add: unclaim_def assms(3))
  then show "approval_row i (aq_rows (snd (perform c (Complete i t) q))) = Some (unclaim r)" by (simp add: p notify_def)
qed

lemma resolve_row:
  assumes "queue_ok q" and "approval_row i (aq_rows (release_stale_claims c q)) = Some r" and "open_row r"
  shows "fst (perform c (Resolve i b idem meta) q)"
    and "approval_row i (aq_rows (snd (perform c (Resolve i b idem meta) q))) = Some (resolved_as b meta r)"
proof -
  have ok: "queue_ok (release_stale_claims c q)" by (rule stale_ok) (rule assms(1))
  show "fst (perform c (Resolve i b idem meta) q)"
    and "approval_row i (aq_rows (snd (perform c (Resolve i b idem meta) q))) = Some (resolved_as b meta r)"
    using assms(3) queue_ok_row [OF ok assms(2)]
    by (simp_all add: perform.simps carried_out_def resolve_def Let_def assms(2) update_one_row [OF ok assms(2)]
        updated_row [OF assms(2)] open_row_def notify_def)
qed

text \<open>C13: After a successful claim, until it lapses, no history of operations by others moves the
  request, and each attempt of another to resolve, claim, use, change or extend it is an error;
  only the holder of the token and a forced expiry end the claim early.\<close>

theorem claim_excludes_others:
  assumes "proper_history g" and "q = perform_all g (new_queue timeout ttl [] codes)" and "0 < ttl" and "t \<noteq> []"
    and "q1 = snd (perform c (Claim i t meta) q)" and "fst (perform c (Claim i t meta) q)"
    and "\<forall>(now, op) \<in> set h. now < c + ttl \<and> \<not> forces i op \<and> \<not> by_holder i t op"
    and "contends i op" and "now < c + ttl"
  shows "approval_row i (aq_rows (perform_all h q1)) = approval_row i (aq_rows q1)
       \<and> \<not> fst (perform now op (perform_all h q1))"
proof -
  have q: "queue_ok q" using perform_all_ok [OF new_queue_ok(1) assms(1)] assms(2) by simp
  have ttl: "aq_ttl (perform_all h q) = aq_ttl q" for h :: approval_history and q :: approval_queue
    by (induction h arbitrary: q) auto
  have "aq_ttl q = ttl" using assms(2,3) by (simp add: ttl new_queue_def)
  then obtain r where r: "approval_row i (aq_rows q1) = Some r" "held_row t c r"
    using claim_gives_hold [OF q _ assms(6)] assms(3,5) by auto
  have t1: "aq_ttl q1 = ttl" using assms(5) \<open>aq_ttl q = ttl\<close> by simp
  have k: "approval_row i (aq_rows (perform_all h q1)) = Some r"
    by (rule held_kept_all [OF r]) (use assms(7) in \<open>simp add: t1\<close>)
  then show ?thesis using held_shuts_out [OF k r(2) assms(4) _ assms(8)] assms(9) r(1) by (simp add: ttl t1)
qed

section \<open>The deadline\<close>

text \<open>C23: A poll at or after the deadline of a request that nobody has settled and nobody holds
  answers no; its row is then expired and refused, and it cannot be used.\<close>

theorem deadline_denies:
  assumes "queue_ok q" and "approval_row i (aq_rows q) = Some r" and "\<not> a_resolved r"
    and "a_claim r = None \<or> stale (aq_ttl q) now r" and "0 < a_deadline r" and "a_deadline r \<le> now"
  shows "fst (wait_poll now i q) = Inr (Answer False)
       \<and> approval_row i (aq_rows (snd (wait_poll now i q))) = Some (expired r)
       \<and> \<not> fst (perform later (Consume i) (snd (wait_poll now i q)))"
proof -
  let ?q = "release_stale_claims now q"
  define r1 where "r1 = (if stale (aq_ttl q) now r then unclaim r else r)"
  have ok: "queue_ok ?q" by (rule stale_ok) (rule assms(1))
  have r1: "approval_row i (aq_rows ?q) = Some r1" by (simp add: stale_row assms(2) r1_def)
  have f: "\<not> a_resolved r1" "a_claim r1 = None" "0 < a_deadline r1" "a_deadline r1 \<le> now" "expired r1 = expired r"
    using assms(3-6) by (auto simp: r1_def unclaim_def expired_def)
  have "\<not> stale (aq_ttl ?q) now r1" using f by (simp add: stale_def)
  then have r2: "approval_row i (aq_rows (release_stale_claims now ?q)) = Some r1"
    using stale_row [of i now ?q] unfolding r1 by simp
  have a: "a_id r1 = i" "entry_claim r1 = None" using queue_ok_row [OF ok r1] f by simp_all
  have e: "approval_row i (sql_update (\<lambda>r. a_id r = i \<and> \<not> a_resolved r \<and> (False \<or> a_claim r = None)) expired
      (aq_rows (release_stale_claims now ?q))) = Some (expired r)"
    using f a by (simp add: updated_row [OF r2])
  have x: "fst (wait_poll now i q) = Inr (Answer False)
       \<and> approval_row i (aq_rows (snd (wait_poll now i q))) = Some (expired r)"
    using f a e by (simp add: wait_poll_def get_approval_def Let_def r1 r2 expire_if_unresolved_def notify_def expired_def)
  have "queue_ok (snd (wait_poll now i q))" using assms(1) by (simp add: poll_is_perform perform_ok)
  then have "\<not> fst (perform later (Consume i) (snd (wait_poll now i q)))"
    using x by (simp add: consume_succeeds(1) standing_at_def standing_cases expired_def)
  then show ?thesis using x by simp
qed

section \<open>Two ways to a grant\<close>

theorem claimed_path_is_resolve:
  assumes "queue_ok q" and "0 < aq_ttl q" and "t \<noteq> []"
    and "approval_row i (aq_rows (release_stale_claims now q)) = Some r" and "open_row r"
    and "q1 = snd (perform now (Claim i t meta) q)" and "q2 = snd (perform c (Finalize i t True) q1)"
  shows "fst (perform now (Claim i t meta) q) \<and> fst (perform c (Finalize i t True) q1) \<and> fst (perform d (Complete i t) q2)
       \<and> approval_row i (aq_rows (snd (perform d (Complete i t) q2)))
         = approval_row i (aq_rows (snd (perform now (Resolve i True idem meta) q)))"
proof -
  have q1: "queue_ok q1" and q2: "queue_ok q2" using assms(1,3,6,7) by (simp_all add: perform_ok)
  have c: "fst (perform now (Claim i t meta) q)" "approval_row i (aq_rows q1) = Some (claimed t now meta r)"
    using claim_row [OF assms(1,2,4,5)] assms(6) by simp_all
  have f: "fst (perform c (Finalize i t True) q1)" "approval_row i (aq_rows q2) = Some (finalized True (claimed t now meta r))"
    using finalize_row [OF q1 c(2), of t c True] assms(5,7) by (simp_all add: claimed_def open_row_def)
  have e: "fst (perform d (Complete i t) q2)"
      "approval_row i (aq_rows (snd (perform d (Complete i t) q2))) = Some (unclaim (finalized True (claimed t now meta r)))"
    using complete_row [OF q2 f(2), of t d] by (simp_all add: claimed_def finalized_def)
  have "row_ok r" using queue_ok_row [OF stale_ok [OF assms(1)] assms(4)] by simp
  then have "unclaim (finalized True (claimed t now meta r)) = resolved_as True meta r"
    using assms(5) by (simp add: row_defs row_ok_def open_row_def)
  then show ?thesis using c(1) f(1) e resolve_row(2) [OF assms(1,4,5)] by simp
qed

section \<open>A sealed request waits for its holder\<close>

text \<open>C26: Once its grant is finalised but not completed, a request hangs on the holder of the token:
  no history without its completion, its expiry under the token or its reopening, the expiry of
  all requests at a restart included, answers a waiting coroutine or lets it be used; a wait
  with a deadline ends in an error.\<close>

theorem sealed_waits_for_its_holder:
  assumes "queue_ok q" and "standing_at i q = Some (Sealed t)" and "proper_history h"
    and "{Complete i t, Expire_Claim i t, Reopen i True} \<inter> snd ` set h = {}"
  shows "fst (wait_poll now i (perform_all h q)) \<in> {Inr Poll_Again, Inl (In_Progress i)}
       \<and> standing_at i (perform_all h q) = Some (Sealed t) \<and> \<not> fst (perform now (Consume i) (perform_all h q))"
proof -
  have k: "standing_at i (perform_all h q) = Some (Sealed t)"
  proof (rule standing_kept [OF _ assms(1,3,2)])
    show False if "op \<in> snd ` set h" "life op i (Sealed t) s'" for op s'
      using that(2) by (cases rule: life.cases) (use that(1) assms(4) in auto)
  qed
  have ok: "queue_ok (perform_all h q)" by (rule perform_all_ok [OF assms(1,3)])
  obtain r where r: "approval_row i (aq_rows (perform_all h q)) = Some r" "a_resolved r" "a_claim r = Some t"
    using k by (auto simp: standing_at_def standing_cases)
  have e: "entry_claim r = Some t" using queue_ok_row [OF ok r(1)] r(3) by simp
  note s = stale_row_resolved [OF r(1,2), of now]
  have "fst (wait_poll now i (perform_all h q)) \<in> {Inr Poll_Again, Inl (In_Progress i)}"
    using r(2) e stale_row_resolved [OF s r(2), of now]
    by (simp add: wait_poll_def get_approval_def Let_def s expire_if_unresolved_def)
  then show ?thesis using k consume_succeeds(1) [OF ok] by simp
qed

section \<open>The machine, and a restart\<close>

text \<open>C11: Over any history the rows of the approval queue stay coherent (claim, resolution, approval
  and use columns) with distinct ids, and an approval only takes steps of an abstract machine of
  seven standings, each for an operation that the machine allows it for.\<close>

theorem approvals_follow_life:
  assumes "queue_ok q" and "proper_history h" and "standing_at i q = Some s"
  shows "queue_ok (perform_all h q)
       \<and> (\<exists>s'. standing_at i (perform_all h q) = Some s' \<and> (\<lambda>s s'. \<exists>op \<in> snd ` set h. life op i s s')\<^sup>*\<^sup>* s s')"
  using assms
proof (induction h arbitrary: q s)
  case (Cons e h)
  obtain now op where e: "e = (now, op)" by (cases e)
  let ?step = "\<lambda>h s s'. \<exists>op \<in> snd ` set h. life op i s s'"
  have op: "proper_op op" and h: "proper_history h" using Cons.prems(2) by (simp_all add: e proper_history_def)
  obtain s1 where s1: "standing_at i (snd (perform now op q)) = Some s1" "(life op i)\<^sup>*\<^sup>* s s1"
    by (rule perform_life [OF Cons.prems(1) op Cons.prems(3)])
  have a: "(?step (e # h))\<^sup>*\<^sup>* s s1" using s1(2) by (rule rtranclp_mono [THEN predicate2D, rotated]) (auto simp: e)
  obtain s2 where s2: "standing_at i (perform_all h (snd (perform now op q))) = Some s2" "(?step h)\<^sup>*\<^sup>* s1 s2"
    and ok: "queue_ok (perform_all h (snd (perform now op q)))"
    using Cons.IH [OF perform_ok [OF Cons.prems(1) op] h s1(1)] by blast
  have "(?step (e # h))\<^sup>*\<^sup>* s1 s2" using s2(2) by (rule rtranclp_mono [THEN predicate2D, rotated]) auto
  then have "(?step (e # h))\<^sup>*\<^sup>* s s2" using a by (rule rtranclp_trans [rotated])
  then show ?case using s2(1) ok by (auto simp: e)
qed simp

lemma expire_move: "row_move ttl now Expire_All i r r' \<Longrightarrow> \<not> a_resolved r \<and> (r' = unclaim r \<or> r' = expired r)"
  by (erule row_moveE) (auto simp: open_row_def stale_def)

lemma expire_moves:
  "(row_move ttl now Expire_All i)\<^sup>*\<^sup>* r r' \<Longrightarrow>
     (if a_resolved r then r' = r else r' = r \<or> r' = unclaim r \<or> r' = expired r)"
proof (induction rule: rtranclp_induct)
  case (step y z)
  have "unclaim (unclaim r) = unclaim r" "expired (unclaim r) = expired r" by (simp_all add: row_defs)
  then show ?case using expire_move [OF step(2)] step.IH by (cases "a_resolved r") (auto simp: expired_def)
qed simp

lemma expire_forced_row:
  assumes "queue_ok q" and "approval_row i (aq_rows q) = Some r"
  shows "\<exists>r'. approval_row i (aq_rows (snd (expire_if_unresolved now i True q))) = Some r' \<and> a_resolved r'"
proof -
  let ?q = "release_stale_claims now q"
  define r1 where "r1 = (if stale (aq_ttl q) now r then unclaim r else r)"
  have r1: "approval_row i (aq_rows ?q) = Some r1" by (simp add: stale_row assms(2) r1_def)
  have i: "a_id r1 = i" using approvals.lookup_Some [OF r1] by simp
  show ?thesis
  proof (cases "a_resolved r1")
    case True
    then show ?thesis using r1 by (simp add: expire_if_unresolved_def Let_def)
  next
    case False
    then have "approval_row i (sql_update (\<lambda>r. a_id r = i \<and> \<not> a_resolved r) expired (aq_rows ?q)) = Some (expired r1)"
      using i by (simp add: updated_row [OF r1])
    then show ?thesis using False r1 by (simp add: expire_if_unresolved_def Let_def notify_def expired_def)
  qed
qed

lemma expire_all_resolved:
  assumes "queue_ok q" and "\<And>i. i \<in> set ids \<Longrightarrow> approval_row i (aq_rows q) \<noteq> None" and "i \<in> set ids"
  shows "\<exists>r. approval_row i (aq_rows (expire_all now ids q)) = Some r \<and> a_resolved r"
  using assms
proof (induction ids arbitrary: q)
  case (Cons j ids)
  let ?q = "snd (expire_if_unresolved now j True q)"
  have e: "evolves now Expire_All q ?q" by (rule evolves_expire_force) simp
  have ok: "queue_ok ?q" by (rule evolves_life(1) [OF e _ Cons.prems(1)]) simp
  have rest: "expire_all now (j # ids) q = expire_all now ids ?q" by (simp add: expire_all_def)
  have there: "approval_row k (aq_rows ?q) \<noteq> None" if "k \<in> set ids" for k
    using Cons.prems(2) [of k] that e unfolding evolves_def by fastforce
  show ?case
  proof (cases "i \<in> set ids")
    case True
    then show ?thesis using Cons.IH [OF ok there] by (simp add: rest)
  next
    case False
    then obtain r where r: "approval_row i (aq_rows ?q) = Some r" "a_resolved r"
      using Cons.prems(2,3) expire_forced_row [OF Cons.prems(1), of i _ now] by fastforce
    have "evolves now Expire_All ?q (expire_all now ids ?q)" by (rule evolves_expire_all) simp
    then obtain r' where "approval_row i (aq_rows (expire_all now ids ?q)) = Some r'"
        "(row_move (aq_ttl ?q) now Expire_All i)\<^sup>*\<^sup>* r r'" using r(1) unfolding evolves_def by blast
    then show ?thesis using expire_moves r(2) by (fastforce simp: rest)
  qed
qed simp

text \<open>C24: The expiry of all pending requests at a restart settles exactly those that are not
  resolved, the held ones too, as expired and refused, and leaves every other row as it is.\<close>

theorem restart_denies_pending:
  assumes "queue_ok q"
  shows "aq_rows (snd (expire_all_pending now q)) = map (\<lambda>r. if a_resolved r then r else expired r) (aq_rows q)
       \<and> fst (expire_all_pending now q) = length (filter (\<lambda>r. \<not> a_resolved r) (aq_rows q))"
proof -
  let ?ids = "map a_id (filter (\<lambda>r. \<not> a_resolved r) (aq_rows q))"
  let ?q = "expire_all now ?ids q"
  let ?f = "\<lambda>r. if a_resolved r then r else expired r"
  have e: "evolves now Expire_All q ?q" by (rule evolves_expire_all) simp
  have ok: "queue_ok ?q" by (rule evolves_life(1) [OF e _ assms]) simp
  have d: "distinct (map a_id (aq_rows q))" and ids: "map a_id (aq_rows ?q) = map a_id (aq_rows q)"
    using assms e by (simp_all add: queue_ok_def evolves_def)
  have row: "approval_row (a_id r) (aq_rows ?q) = Some (?f r)" if m: "r \<in> set (aq_rows q)" for r
  proof -
    have r: "approval_row (a_id r) (aq_rows q) = Some r" by (rule approvals.lookup_unique [OF d m])
    then obtain r' where r': "approval_row (a_id r) (aq_rows ?q) = Some r'"
        "(row_move (aq_ttl q) now Expire_All (a_id r))\<^sup>*\<^sup>* r r'" using e unfolding evolves_def by blast
    have x: "if a_resolved r then r' = r else r' = r \<or> r' = unclaim r \<or> r' = expired r" by (rule expire_moves [OF r'(2)])
    show ?thesis
    proof (cases "a_resolved r")
      case False
      then have "a_id r \<in> set ?ids" using m by simp
      moreover have "approval_row j (aq_rows q) \<noteq> None" if "j \<in> set ?ids" for j
        using that by (auto simp: approvals.lookup_None_iff)
      ultimately have "\<exists>x. approval_row (a_id r) (aq_rows ?q) = Some x \<and> a_resolved x"
        by (intro expire_all_resolved [OF assms])
      then have "a_resolved r'" using r'(1) by simp
      then show ?thesis using x False r'(1) by (auto simp: unclaim_def)
    qed (use x r'(1) in simp)
  qed
  have "aq_rows ?q = map ?f (aq_rows q)"
  proof (rule nth_equalityI)
    show len: "length (aq_rows ?q) = length (map ?f (aq_rows q))" using map_eq_imp_length_eq [OF ids] by simp
    fix n assume n: "n < length (aq_rows ?q)"
    have "a_id (aq_rows ?q ! n) = a_id (aq_rows q ! n)" using arg_cong [OF ids, of "\<lambda>xs. xs ! n"] n len by simp
    moreover have "approval_row (a_id (aq_rows ?q ! n)) (aq_rows ?q) = Some (aq_rows ?q ! n)"
      by (rule approvals.lookup_unique) (use ok n in \<open>simp_all add: queue_ok_def\<close>)
    ultimately show "aq_rows ?q ! n = map ?f (aq_rows q) ! n" using row [of "aq_rows q ! n"] n len by simp
  qed
  then show ?thesis by (simp add: expire_all_pending_def)
qed

end
