(* ===== verification/Approval_Witnesses.thy ===== *)
theory Approval_Witnesses
  imports Approval_Safety
begin

text \<open>Concrete histories of approvals that meet the hypotheses of the theorems on the approval queue.\<close>

definition fresh_approvals :: approval_queue where
  "fresh_approvals = new_queue (Some 60) 30 [] []"

definition asked :: approval_history where
  "asked = [(0, Request ''a'' ''exec'' [(''tool'', PyStr ''shell'')]), (1, Request ''b'' ''exec'' [])]"

definition answer_paths :: "approval_history" where
  "answer_paths = asked @ [(2, Claim ''a'' ''tok'' [(''via'', PyStr ''web'')]), (3, Finalize ''a'' ''tok'' True),
     (4, Consume ''a''), (5, Complete ''a'' ''tok''), (6, Consume ''a''), (7, Consume ''a'')]"

lemma one_use_per_approval_witness:
  "uses ''a'' answer_paths fresh_approvals = 1 \<and> ops_count (approves ''a'') answer_paths = 1 \<and>
   uses ''a'' answer_paths fresh_approvals \<le> 1"
proof -
  have "proper_history answer_paths" by code_simp
  from one_use_per_approval [OF this, of "''a''" "Some 60" 30 "[]"]
  have "uses ''a'' answer_paths fresh_approvals \<le> ops_count (approves ''a'') answer_paths"
    by (simp add: fresh_approvals_def)
  moreover have "uses ''a'' answer_paths fresh_approvals = 1" "ops_count (approves ''a'') answer_paths = 1" by code_simp+
  ultimately show ?thesis by simp
qed

definition refused_history :: approval_history where
  "refused_history = asked @ [(2, Resolve ''a'' False False [])]"

definition hopeful_history :: approval_history where
  "hopeful_history = [(9, Resolve ''a'' True True []), (10, Claim ''a'' ''tok'' []), (11, Reopen ''a'' True), (12, Expire_All)]"

lemma answer_stays_witness:
  "fst (wait_poll 20 ''a'' (perform_all hopeful_history (snd (wait_poll 3 ''a'' (perform_all refused_history fresh_approvals)))))
     = Inr (Answer False)
   \<and> \<not> fst (perform 20 (Consume ''a'') (perform_all hopeful_history (snd (wait_poll 3 ''a'' (perform_all refused_history fresh_approvals)))))"
proof -
  have g: "proper_history refused_history" "proper_history hopeful_history" by code_simp+
  have a: "fst (wait_poll 3 ''a'' (perform_all refused_history fresh_approvals)) = Inr (Answer False)" by code_simp
  have r: "Reopen ''a'' False \<notin> snd ` set hopeful_history" by code_simp
  show ?thesis using answer_stays [OF g(1) fresh_approvals_def [THEN arg_cong, of "perform_all refused_history"] a g(2) r, of 20]
    by simp
qed

definition bystanders :: approval_history where
  "bystanders = [(3, Resolve ''a'' True False []), (4, Poll ''a''), (5, Resolve ''b'' True False []), (6, Release ''a'' ''forged''),
     (7, Reopen ''a'' False), (8, Consume ''b'')]"

lemma claim_excludes_others_witness:
  "approval_row ''a'' (aq_rows (perform_all bystanders (snd (perform 2 (Claim ''a'' ''tok'' []) (perform_all asked fresh_approvals)))))
     = approval_row ''a'' (aq_rows (snd (perform 2 (Claim ''a'' ''tok'' []) (perform_all asked fresh_approvals))))
   \<and> \<not> fst (perform 31 (Resolve ''a'' True True []) (perform_all bystanders
        (snd (perform 2 (Claim ''a'' ''tok'' []) (perform_all asked fresh_approvals)))))"
proof -
  have g: "proper_history asked" by code_simp
  have c: "fst (perform 2 (Claim ''a'' ''tok'' []) (perform_all asked fresh_approvals))" by code_simp
  have b: "\<forall>(now, op) \<in> set bystanders. now < 2 + 30 \<and> \<not> forces ''a'' op \<and> \<not> by_holder ''a'' ''tok'' op" by code_simp
  show ?thesis
    by (rule claim_excludes_others [OF g fresh_approvals_def [THEN arg_cong, of "perform_all asked"] _ _ refl c b]) simp_all
qed

lemma asked_ok: "queue_ok (perform_all asked fresh_approvals)"
  unfolding fresh_approvals_def by (rule perform_all_ok) (simp, code_simp)

definition asked_row :: approval where
  "asked_row = \<lparr>a_id = ''a'', a_namespace = ''exec'', a_params = [(''tool'', PyStr ''shell'')], a_created = 0, a_resolved = False,
     a_approved = False, a_consumed = False, a_deadline = 60, a_resolution = [], a_claim = None, a_claim_started = None\<rparr>"

lemma asked_has_row: "approval_row ''a'' (aq_rows (perform_all asked fresh_approvals)) = Some asked_row"
  by code_simp

lemma deadline_denies_witness:
  "fst (wait_poll 60 ''a'' (perform_all asked fresh_approvals)) = Inr (Answer False)
   \<and> approval_row ''a'' (aq_rows (snd (wait_poll 60 ''a'' (perform_all asked fresh_approvals)))) = Some (expired asked_row)
   \<and> \<not> fst (perform 61 (Consume ''a'') (snd (wait_poll 60 ''a'' (perform_all asked fresh_approvals))))"
  by (rule deadline_denies [OF asked_ok asked_has_row]) (simp_all add: asked_row_def)

lemma claimed_path_is_resolve_witness:
  "fst (perform 5 (Complete ''a'' ''tok'') (snd (perform 4 (Finalize ''a'' ''tok'' True)
      (snd (perform 2 (Claim ''a'' ''tok'' [(''via'', PyStr ''web'')]) (perform_all asked fresh_approvals))))))
   \<and> approval_row ''a'' (aq_rows (snd (perform 5 (Complete ''a'' ''tok'') (snd (perform 4 (Finalize ''a'' ''tok'' True)
        (snd (perform 2 (Claim ''a'' ''tok'' [(''via'', PyStr ''web'')]) (perform_all asked fresh_approvals))))))))
     = approval_row ''a'' (aq_rows (snd (perform 2 (Resolve ''a'' True False [(''via'', PyStr ''web'')]) (perform_all asked fresh_approvals))))"
proof -
  have r: "approval_row ''a'' (aq_rows (release_stale_claims 2 (perform_all asked fresh_approvals))) = Some asked_row" by code_simp
  have "0 < aq_ttl (perform_all asked fresh_approvals)" by code_simp
  from claimed_path_is_resolve [OF asked_ok this _ r _ refl refl, of "''tok''" "[(''via'', PyStr ''web'')]" 4 5 False]
  show ?thesis by (simp add: open_row_def asked_row_def)
qed

definition sealing :: approval_history where
  "sealing = asked @ [(2, Claim ''a'' ''tok'' []), (3, Finalize ''a'' ''tok'' True)]"

definition restarted :: approval_history where
  "restarted = [(500, Expire_All), (501, Poll ''a''), (502, Resolve ''a'' True True []), (503, Release ''a'' ''tok'')]"

lemma sealed_waits_for_its_holder_witness:
  "fst (wait_poll 600 ''a'' (perform_all restarted (perform_all sealing fresh_approvals))) = Inl (In_Progress ''a'')
   \<and> standing_at ''a'' (perform_all restarted (perform_all sealing fresh_approvals)) = Some (Sealed ''tok'')"
proof -
  have ok: "queue_ok (perform_all sealing fresh_approvals)"
    unfolding fresh_approvals_def by (rule perform_all_ok) (simp, code_simp)
  have s: "standing_at ''a'' (perform_all sealing fresh_approvals) = Some (Sealed ''tok'')" by code_simp
  have p: "proper_history restarted" by code_simp
  have d: "{Complete ''a'' ''tok'', Expire_Claim ''a'' ''tok'', Reopen ''a'' True} \<inter> snd ` set restarted = {}" by code_simp
  have "standing_at ''a'' (perform_all restarted (perform_all sealing fresh_approvals)) = Some (Sealed ''tok'')"
    using sealed_waits_for_its_holder [OF ok s p d, of 600] by (elim conjE)
  moreover have "fst (wait_poll 600 ''a'' (perform_all restarted (perform_all sealing fresh_approvals))) = Inl (In_Progress ''a'')"
    by code_simp
  ultimately show ?thesis by simp
qed

lemma approvals_follow_life_witness:
  "queue_ok (perform_all restarted (perform_all asked fresh_approvals))
   \<and> standing_at ''a'' (perform_all restarted (perform_all asked fresh_approvals)) = Some Refused"
proof -
  have "standing_at ''a'' (perform_all asked fresh_approvals) = Some Waiting" "proper_history restarted" by code_simp+
  from approvals_follow_life [OF asked_ok this(2,1)] have "queue_ok (perform_all restarted (perform_all asked fresh_approvals))"
    by (elim conjE)
  moreover have "standing_at ''a'' (perform_all restarted (perform_all asked fresh_approvals)) = Some Refused" by code_simp
  ultimately show ?thesis by simp
qed

lemma restart_denies_pending_witness:
  "fst (expire_all_pending 500 (perform_all (asked @ [(2, Claim ''a'' ''tok'' []), (3, Resolve ''b'' True False [])]) fresh_approvals)) = 1
   \<and> map a_resolution (aq_rows (snd (expire_all_pending 500
        (perform_all (asked @ [(2, Claim ''a'' ''tok'' []), (3, Resolve ''b'' True False [])]) fresh_approvals)))) = [''expired'', ''approved'']"
proof -
  let ?q = "perform_all (asked @ [(2, Claim ''a'' ''tok'' []), (3, Resolve ''b'' True False [])]) fresh_approvals"
  have ok: "queue_ok ?q" unfolding fresh_approvals_def by (rule perform_all_ok) (simp, code_simp)
  have "map a_resolution (map (\<lambda>r. if a_resolved r then r else expired r) (aq_rows ?q)) = [''expired'', ''approved'']"
    "length (filter (\<lambda>r. \<not> a_resolved r) (aq_rows ?q)) = 1" by code_simp+
  then show ?thesis using restart_denies_pending [OF ok, of 500] by (simp only:)
qed

end
