(* ===== verification/Auth_Scopes.thy ===== *)
theory Auth_Scopes
  imports Session_Keys
begin

text \<open>
  Scopes of the gateway's calls (\<open>src/src/openstarry_code/gateway/scopes.py\<close>): the table of
  methods, implication between scopes, the decision on a call, and what counts as loopback.
  Scopes are text, a grant is a set of them.
\<close>

section \<open>Scopes and capabilities\<close>

definition admin_scope :: string where "admin_scope = ''operator.admin''"

definition read_scope :: string where "read_scope = ''operator.read''"

definition write_scope :: string where "write_scope = ''operator.write''"

definition approvals_scope :: string where "approvals_scope = ''operator.approvals''"

definition proposals_scope :: string where "proposals_scope = ''operator.proposals''"

definition pairing_scope :: string where "pairing_scope = ''operator.pairing''"

definition node_scope :: string where "node_scope = ''node''"

definition operator_namespace :: string where "operator_namespace = ''operator.''"

lemmas scope_defs = admin_scope_def read_scope_def write_scope_def approvals_scope_def proposals_scope_def
  pairing_scope_def node_scope_def operator_namespace_def

definition local_owner_capabilities :: "string set" where
  "local_owner_capabilities = {''host.execute'', ''host.read'', ''task.read'', ''task.submit''}"

definition human_token_capabilities :: "string set" where
  "human_token_capabilities = {''host.execute'', ''host.read'', ''task.read'', ''task.submit''}"

definition guest_safe_capabilities :: "string set" where
  "guest_safe_capabilities = {''guest.safe''}"

definition cli_default_operator_scopes :: "string set" where
  "cli_default_operator_scopes =
     {admin_scope, read_scope, write_scope, approvals_scope, proposals_scope, pairing_scope}"

definition remote_operator_scopes :: "string set" where
  "remote_operator_scopes = {read_scope, write_scope}"

definition node_default_scopes :: "string set" where
  "node_default_scopes = {node_scope}"

section \<open>The table of methods\<close>

definition node_role_methods :: "string list" where
  "node_role_methods = [''skills.bins'']"

definition admin_method_prefixes :: "string list" where
  "admin_method_prefixes = [''config.'', ''exec.approvals.'', ''wizard.'', ''update.'']"

definition read_methods :: "(string \<times> string) list" where
  "read_methods =
    [(''health'', read_scope),
     (''status'', read_scope),
     (''config.get'', read_scope),
     (''config.effective'', read_scope),
     (''config.schema.lookup'', read_scope),
     (''sessions.get'', read_scope),
     (''sessions.list'', read_scope),
     (''sessions.search'', read_scope),
     (''sessions.preview'', read_scope),
     (''sessions.resolve'', read_scope),
     (''sessions.bootstrap'', read_scope),
     (''sessions.subscribe'', read_scope),
     (''sessions.unsubscribe'', read_scope),
     (''workspaces.list'', read_scope),
     (''sessions.messages.snapshot'', read_scope),
     (''sessions.messages.subscribe'', read_scope),
     (''sessions.messages.hydrate'', read_scope),
     (''sessions.messages.unsubscribe'', read_scope),
     (''sessions.pending_inputs.list'', read_scope),
     (''sessions.promptCacheKeepalive.status'', read_scope),
     (''artifacts.list'', read_scope),
     (''artifacts.get'', read_scope),
     (''gateway.identity.get'', read_scope),
     (''last-heartbeat'', read_scope),
     (''system-presence'', read_scope),
     (''doctor.status'', read_scope),
     (''doctor.memory.status'', read_scope),
     (''diagnostics.status'', read_scope),
     (''logs.status'', read_scope),
     (''logs.tail'', read_scope),
     (''logs.trace'', read_scope),
     (''models.list'', read_scope),
     (''models.routing.get'', read_scope),
     (''providers.status'', read_scope),
     (''routing.hold.get'', read_scope),
     (''search.status'', read_scope),
     (''memory.list'', read_scope),
     (''memory.search'', read_scope),
     (''memory.show'', read_scope),
     (''memory.import.info'', read_scope),
     (''tools.catalog'', read_scope),
     (''tools.effective'', read_scope),
     (''tools.search_provider'', read_scope),
     (''sandbox.status'', read_scope),
     (''sandbox.setup.status'', read_scope),
     (''sandbox.capability.status'', read_scope),
     (''sandbox.policy.get'', read_scope),
     (''sandbox.policy.defaults'', read_scope),
     (''sandbox.tokens.list'', read_scope),
     (''sandbox.explain'', read_scope),
     (''sandbox.run_context.get'', read_scope),
     (''sandbox.run_mode.preference.get'', read_scope),
     (''sandbox.path.list'', read_scope),
     (''channels.status'', read_scope),
     (''commands.list_for_surface'', read_scope),
     (''chat.history'', read_scope),
     (''agents.list'', read_scope),
     (''agents.files.list'', read_scope),
     (''agents.files.get'', read_scope),
     (''agent.identity.get'', read_scope),
     (''skills.status'', read_scope),
     (''skills.list'', read_scope),
     (''skills.get'', read_scope),
     (''skills.search'', read_scope),
     (''skills.doctor'', read_scope),
     (''cron.list'', read_scope),
     (''cron.status'', read_scope),
     (''cron.runs'', read_scope),
     (''cron.subscribe'', read_scope),
     (''cron.unsubscribe'', read_scope),
     (''usage.status'', read_scope),
     (''usage.cost'', read_scope),
     (''usage.query'', read_scope),
     (''meta.list'', read_scope),
     (''meta.setup.plan'', read_scope),
     (''meta.setup.status'', read_scope),
     (''meta.runs.list'', read_scope),
     (''meta.runs.failures'', read_scope),
     (''meta.runs.cost'', read_scope),
     (''router.decisions.list'', read_scope),
     (''router.selflearning.status'', read_scope),
     (''onboarding.status'', read_scope),
     (''onboarding.catalog'', read_scope),
     (''onboarding.router.catalog'', read_scope)]"

definition write_methods :: "(string \<times> string) list" where
  "write_methods =
    [(''wake'', write_scope),
     (''send'', write_scope),
     (''agent'', write_scope),
     (''agent.wait'', write_scope),
     (''chat.send'', write_scope),
     (''chat.abort'', write_scope),
     (''chat.clarify_submit'', write_scope),
     (''search.query'', write_scope),
     (''sessions.create'', write_scope),
     (''sessions.fork'', write_scope),
     (''sessions.forkThroughTurn'', write_scope),
     (''sessions.send'', write_scope),
     (''sessions.pending_inputs.enqueue'', write_scope),
     (''sessions.pending_inputs.update'', write_scope),
     (''sessions.pending_inputs.reorder'', write_scope),
     (''sessions.pending_inputs.cancel'', write_scope),
     (''sessions.pending_inputs.dispatch'', write_scope),
     (''plans.capabilities'', read_scope),
     (''plans.setMode'', write_scope),
     (''plans.implement'', write_scope),
     (''plans.revise'', write_scope),
     (''plans.cancelRun'', write_scope),
     (''goals.capabilities'', read_scope),
     (''goals.status'', read_scope),
     (''goals.set'', write_scope),
     (''goals.edit'', write_scope),
     (''goals.clear'', write_scope),
     (''goals.pause'', write_scope),
     (''goals.resume'', write_scope),
     (''goals.reattach'', write_scope),
     (''sessions.steer'', write_scope),
     (''sessions.steer.v2'', write_scope),
     (''sessions.abort'', write_scope),
     (''sessions.reset'', write_scope),
     (''sessions.contextCompact'', write_scope),
     (''sessions.compact'', write_scope),
     (''sessions.truncate'', write_scope),
     (''workspaces.open'', write_scope),
     (''workspaces.update'', write_scope),
     (''workspaces.pin'', write_scope),
     (''workspaces.remove'', write_scope),
     (''workspaces.history.delete'', write_scope),
     (''models.routing.set'', write_scope),
     (''sessions.delete'', write_scope),
     (''sessions.rename'', write_scope),
     (''sessions.promptCacheKeepalive.set'', write_scope),
     (''sandbox.workspace.set'', write_scope),
     (''sandbox.mount.add'', write_scope),
     (''sandbox.mount.remove'', write_scope),
     (''sandbox.domain.add'', write_scope),
     (''sandbox.domain.remove'', write_scope),
     (''sandbox.bundle.enable'', write_scope),
     (''sandbox.bundle.disable'', write_scope),
     (''sandbox.setup.ensure'', write_scope),
     (''sandbox.policy.update'', write_scope),
     (''sandbox.tokens.create'', write_scope),
     (''sandbox.tokens.revoke'', write_scope),
     (''sandbox.resume'', write_scope),
     (''sandbox.run_context.set'', write_scope),
     (''sandbox.run_mode.preference.set'', write_scope),
     (''sandbox.path.pick'', write_scope),
     (''sandbox.path.create-directory'', write_scope),
     (''config.patch.safe'', write_scope),
     (''meta.run'', write_scope),
     (''meta.drafts.list'', write_scope),
     (''meta.drafts.discard'', write_scope)]"

definition approval_methods :: "(string \<times> string) list" where
  "approval_methods =
    [(''exec.approvals.get'', approvals_scope),
     (''exec.approvals.set'', approvals_scope),
     (''exec.approval.request'', approvals_scope),
     (''exec.approval.waitDecision'', approvals_scope),
     (''exec.approval.status'', approvals_scope),
     (''exec.approval.snapshot'', approvals_scope),
     (''exec.approval.forget'', approvals_scope),
     (''exec.approval.resolve'', approvals_scope),
     (''exec.approval.extend'', approvals_scope),
     (''plugin.approval.request'', approvals_scope),
     (''plugin.approval.waitDecision'', approvals_scope),
     (''plugin.approval.status'', approvals_scope),
     (''plugin.approval.resolve'', approvals_scope),
     (''plugin.approval.extend'', approvals_scope)]"

definition proposal_methods :: "(string \<times> string) list" where
  "proposal_methods =
    [(''exec.proposals.pending_count'', proposals_scope),
     (''exec.proposals.list'', proposals_scope),
     (''exec.proposals.show'', proposals_scope),
     (''exec.proposals.settings.get'', proposals_scope),
     (''channels.pairings'', pairing_scope),
     (''channels.pairing.approve'', pairing_scope),
     (''channels.pairing.revoke'', pairing_scope),
     (''channels.admin.set'', pairing_scope),
     (''exec.proposals.auto_enabled.list'', proposals_scope)]"

definition admin_methods :: "(string \<times> string) list" where
  "admin_methods =
    [(''config.reload'', admin_scope),
     (''chat.inject'', admin_scope),
     (''system-event'', admin_scope),
     (''set-heartbeats'', admin_scope),
     (''secrets.reload'', admin_scope),
     (''secrets.resolve'', admin_scope),
     (''agents.create'', admin_scope),
     (''agents.update'', admin_scope),
     (''agents.delete'', admin_scope),
     (''agents.files.set'', admin_scope),
     (''skills.install'', admin_scope),
     (''skills.update'', admin_scope),
     (''skills.uninstall'', admin_scope),
     (''skills.reload'', admin_scope),
     (''skills.deps.install'', admin_scope),
     (''meta.setup.install'', admin_scope),
     (''meta.runs.show'', admin_scope),
     (''meta.runs.draft'', admin_scope),
     (''meta.runs.confirm_preflight'', admin_scope),
     (''meta.runs.recovery'', admin_scope),
     (''meta.runs.diff'', admin_scope),
     (''meta.runs.replay'', admin_scope),
     (''meta.runs.validate'', admin_scope),
     (''meta.runs.eval_baseline'', admin_scope),
     (''router.feedback.submit'', write_scope),
     (''exec.proposals.accept'', admin_scope),
     (''exec.proposals.reject'', admin_scope),
     (''exec.proposals.settings.set'', admin_scope),
     (''exec.proposals.auto_enabled.disable'', admin_scope),
     (''channels.logout'', admin_scope),
     (''channels.restart'', admin_scope),
     (''channels.get'', admin_scope),
     (''channels.probe'', admin_scope),
     (''diagnostics.set'', admin_scope),
     (''onboarding.provider.credential.reveal'', admin_scope),
     (''onboarding.provider.credential.clear'', admin_scope),
     (''cron.add'', admin_scope),
     (''cron.create'', admin_scope),
     (''cron.update'', admin_scope),
     (''cron.remove'', admin_scope),
     (''cron.run'', admin_scope),
     (''sessions.patch'', admin_scope),
     (''routing.hold.set'', admin_scope),
     (''routing.hold.clear'', admin_scope),
     (''memory.index'', admin_scope),
     (''memory.import.preview'', admin_scope),
     (''memory.import.start'', admin_scope),
     (''memory.import.status'', admin_scope),
     (''memory.import.cancel'', admin_scope),
     (''memory.import.retry'', admin_scope),
     (''memory.import.apply'', admin_scope),
     (''memory.import.undo'', admin_scope),
     (''memory.import.discard'', admin_scope),
     (''memory.raw_fallbacks.list'', admin_scope),
     (''memory.raw_fallbacks.show'', admin_scope),
     (''memory.repair.list'', admin_scope),
     (''memory.repair.run'', admin_scope),
     (''memory.repair.show'', admin_scope),
     (''migration.sources.list'', admin_scope),
     (''migration.sources.preview'', admin_scope),
     (''onboarding.provider.configure'', admin_scope),
     (''onboarding.provider.probe'', admin_scope),
     (''onboarding.llmProfile.upsert'', admin_scope),
     (''onboarding.llmProfile.duplicate'', admin_scope),
     (''onboarding.llmProfile.credential.clear'', admin_scope),
     (''onboarding.llmProfile.remove'', admin_scope),
     (''onboarding.llmProfile.active.remove'', admin_scope),
     (''onboarding.llmProfile.activate'', admin_scope),
     (''onboarding.llmProfile.probe'', admin_scope),
     (''onboarding.llmProfile.models.discover'', admin_scope),
     (''onboarding.llmProfile.draft.probe'', admin_scope),
     (''onboarding.llmProfile.draft.models.discover'', admin_scope),
     (''onboarding.models.discover'', admin_scope),
     (''onboarding.router.configure'', admin_scope),
     (''onboarding.ensemble.configure'', admin_scope),
     (''onboarding.memory_embedding.configure'', admin_scope),
     (''onboarding.search.configure'', admin_scope),
     (''onboarding.imageGeneration.configure'', admin_scope),
     (''onboarding.imageGeneration.models.discover'', admin_scope),
     (''onboarding.audio.configure'', admin_scope),
     (''onboarding.capability.reset'', admin_scope),
     (''onboarding.channel.probe'', admin_scope),
     (''onboarding.channel.upsert'', admin_scope),
     (''onboarding.channel.remove'', admin_scope),
     (''onboarding.channel.enable'', admin_scope),
     (''onboarding.channel.disable'', admin_scope)]"

definition method_scopes :: "(string \<times> string) list" where
  "method_scopes = read_methods @ write_methods @ approval_methods @ proposal_methods @ admin_methods"

section \<open>Decisions\<close>

definition resolve_required_scope :: "string \<Rightarrow> string option" where
  "resolve_required_scope m =
     (case map_of method_scopes m of
        Some s \<Rightarrow> Some s
      | None \<Rightarrow> if list_ex (\<lambda>p. starts_with p m) admin_method_prefixes then Some admin_scope else None)"

definition is_classified :: "string \<Rightarrow> bool" where
  "is_classified m =
     (map_of method_scopes m \<noteq> None \<or> m \<in> set node_role_methods \<or>
      list_ex (\<lambda>p. starts_with p m) admin_method_prefixes)"

definition operator_scope_satisfies :: "string \<Rightarrow> string set \<Rightarrow> bool" where
  "operator_scope_satisfies required granted =
     (if required = admin_scope then admin_scope \<in> granted
      else if starts_with operator_namespace required
      then if admin_scope \<in> granted then True
           else if required = read_scope then read_scope \<in> granted \<or> write_scope \<in> granted
           else required \<in> granted
      else if required = node_scope then node_scope \<in> granted \<or> admin_scope \<in> granted
      else required \<in> granted)"

definition normalize_operator_scopes :: "string set \<Rightarrow> string set" where
  "normalize_operator_scopes scopes =
     (if admin_scope \<in> scopes then scopes \<union> {read_scope, write_scope}
      else if write_scope \<in> scopes then insert read_scope scopes
      else scopes)"

text \<open>Whether a role with a grant may call a method; the scope that is missing when not.\<close>

definition authorize_call :: "string \<Rightarrow> string \<Rightarrow> string \<Rightarrow> string set \<Rightarrow> bool \<times> string option" where
  "authorize_call m required role granted =
     (if role = ''node''
      then if m \<in> set node_role_methods \<or> required = node_scope
           then if node_scope \<in> granted then (True, None) else (False, Some node_scope)
           else (False, Some node_scope)
      else if required = node_scope
      then if admin_scope \<in> granted then (True, None) else (False, Some admin_scope)
      else if operator_scope_satisfies required granted then (True, None)
      else (False, Some required))"

section \<open>Loopback\<close>

definition before_percent :: "string \<Rightarrow> string" where
  "before_percent s = takeWhile (\<lambda>c. c \<noteq> CHR ''%'') s"

definition unbracket :: "string \<Rightarrow> string" where
  "unbracket h = (if starts_with ''['' h \<and> ends_with '']'' h then butlast (drop 1 h) else h)"

definition octet :: "string \<Rightarrow> bool" where
  "octet p = (case py_int p of None \<Rightarrow> False | Some n \<Rightarrow> 0 \<le> n \<and> n \<le> 255)"

definition is_loopback_address :: "string option \<Rightarrow> bool" where
  "is_loopback_address addr =
     (case addr of
        None \<Rightarrow> False
      | Some a \<Rightarrow>
          if a = [] then False
          else
            (let host = unbracket (before_percent a);
                 host = (if starts_with ''::ffff:'' host then drop 7 host else host)
             in if host \<in> {''::1'', ''localhost''} then True
                else if starts_with ''127.'' host
                then (let parts = split_on (CHR ''.'') host in length parts = 4 \<and> list_all octet parts)
                else False))"

definition is_loopback_bind :: "string option \<Rightarrow> bool" where
  "is_loopback_bind host =
     (case host of
        None \<Rightarrow> False
      | Some h \<Rightarrow> if h = [] then False else if h = ''localhost'' then True else is_loopback_address (Some h))"

section \<open>Implication\<close>

lemma operator_scopes [simp]:
  "starts_with operator_namespace admin_scope" "starts_with operator_namespace read_scope"
  "starts_with operator_namespace write_scope" "\<not> starts_with operator_namespace node_scope"
  "read_scope \<noteq> admin_scope" "write_scope \<noteq> admin_scope" "write_scope \<noteq> read_scope" "node_scope \<noteq> admin_scope"
  "read_scope \<noteq> node_scope" "write_scope \<noteq> node_scope"
  by (simp_all add: scope_defs starts_with_def)

lemma normalize_admin [simp]: "admin_scope \<in> normalize_operator_scopes s \<longleftrightarrow> admin_scope \<in> s"
  by (simp add: normalize_operator_scopes_def) (metis operator_scopes(5,6))

lemma normalize_other: "x \<noteq> read_scope \<Longrightarrow> x \<noteq> write_scope \<Longrightarrow> x \<in> normalize_operator_scopes s \<longleftrightarrow> x \<in> s"
  by (simp add: normalize_operator_scopes_def)

interpretation scopes: normaliser normalize_operator_scopes
proof
  show "normalize_operator_scopes (normalize_operator_scopes s) = normalize_operator_scopes s" for s
    using operator_scopes(5-8) by (auto simp: normalize_operator_scopes_def)
qed

text \<open>A normalised grant answers a membership test for read, write and admin as implication does.\<close>

lemma normalize_write: "write_scope \<in> normalize_operator_scopes s \<longleftrightarrow> admin_scope \<in> s \<or> write_scope \<in> s"
  using operator_scopes(5-8) by (auto simp: normalize_operator_scopes_def)

lemma normalize_read: "read_scope \<in> normalize_operator_scopes s \<longleftrightarrow> admin_scope \<in> s \<or> write_scope \<in> s \<or> read_scope \<in> s"
  by (auto simp: normalize_operator_scopes_def)

lemma satisfies_normalize: "operator_scope_satisfies r (normalize_operator_scopes s) \<longleftrightarrow> operator_scope_satisfies r s"
proof -
  have "operator_scope_satisfies read_scope (normalize_operator_scopes s) \<longleftrightarrow> operator_scope_satisfies read_scope s"
    "operator_scope_satisfies write_scope (normalize_operator_scopes s) \<longleftrightarrow> operator_scope_satisfies write_scope s"
    by (auto simp: operator_scope_satisfies_def normalize_read normalize_write)
  moreover have "node_scope \<in> normalize_operator_scopes s \<longleftrightarrow> node_scope \<in> s" by (rule normalize_other) (simp_all add: scope_defs)
  ultimately show ?thesis
    by (cases "r = read_scope \<or> r = write_scope") (auto simp: operator_scope_satisfies_def normalize_other)
qed

lemma satisfies_mono: "operator_scope_satisfies r s \<Longrightarrow> s \<subseteq> t \<Longrightarrow> operator_scope_satisfies r t"
  by (auto simp: operator_scope_satisfies_def split: if_splits)

text \<open>Without the admin scope nothing but an operator's plain grants is allowed.\<close>

lemma satisfies_without_admin: "operator_scope_satisfies r s \<Longrightarrow> admin_scope \<notin> s \<Longrightarrow> r \<in> s \<or> r = read_scope \<and> write_scope \<in> s"
  by (auto simp: operator_scope_satisfies_def split: if_splits)

end
