(* ===== verification/Token_Store.thy ===== *)
theory Token_Store
  imports Tables
begin

text \<open>
  Named tokens and the throttle of failed attempts (\<open>src/src/openstarry_code/gateway/token_store.py\<close>).
  The store is a table; its JSON columns are the sets they stand for, or \<open>None\<close> where the text is
  no JSON list. The digest function, the drawn public id and secret, and the clock are arguments.
  Every operation is one step; a token is Latin-1 text.
\<close>

section \<open>Rows and the text of a token\<close>

record 'd token_row =
  tr_public_id :: string
  tr_version :: nat
  tr_name :: string
  tr_digest :: 'd
  tr_roles :: "string set option"
  tr_scopes :: "string set option"
  tr_capabilities :: "string set option"
  tr_source :: string
  tr_created :: int
  tr_last_used :: "int option"
  tr_last_peer :: "string option"
  tr_revoked :: "int option"

type_synonym 'd token_table = "'d token_row list"

fun token_lookup :: "string \<Rightarrow> 'd token_table \<Rightarrow> 'd token_row option" where
  "token_lookup pid [] = None"
| "token_lookup pid (r # rows) = (if tr_public_id r = pid then Some r else token_lookup pid rows)"

interpretation tokens: keyed_rows tr_public_id token_lookup
  by unfold_locales simp_all

definition decode_set :: "string set option \<Rightarrow> string set" where
  "decode_set c = (case c of None \<Rightarrow> {} | Some s \<Rightarrow> s)"

definition public_id_char :: "char \<Rightarrow> bool" where
  "public_id_char c = ((97 \<le> code c \<and> code c \<le> 122) \<or> is_digit c \<or> c = CHR ''-'')"

definition secret_char :: "char \<Rightarrow> bool" where
  "secret_char c =
     ((65 \<le> code c \<and> code c \<le> 90) \<or> (97 \<le> code c \<and> code c \<le> 122) \<or> is_digit c \<or> c = CHR ''_'' \<or> c = CHR ''-'')"

text \<open>\<open>osq_\<close>, the public id, an underscore, the secret: the id has no underscore, so the first one
  ends it.\<close>

definition token_match :: "string \<Rightarrow> (string \<times> string) option" where
  "token_match token =
     (if \<not> starts_with ''osq_'' token then None
      else case split_once (CHR ''_'') (drop 4 token) of
             None \<Rightarrow> None
           | Some (pid, secret) \<Rightarrow>
               if 4 \<le> length pid \<and> length pid \<le> 64 \<and> list_all public_id_char pid \<and>
                  16 \<le> length secret \<and> length secret \<le> 256 \<and> list_all secret_char secret
               then Some (pid, secret) else None)"

definition token_public_id :: "string \<Rightarrow> string" where
  "token_public_id token = (case token_match token of None \<Rightarrow> ''legacy'' | Some (pid, secret) \<Rightarrow> pid)"

definition token_text :: "string \<Rightarrow> string \<Rightarrow> string" where
  "token_text pid secret = ''osq_'' @ pid @ ''_'' @ secret"

section \<open>The store\<close>

datatype token_error = Empty_Name | Integrity_Error

definition create ::
    "(string \<Rightarrow> 'd) \<Rightarrow> int \<Rightarrow> string \<Rightarrow> string \<Rightarrow> string \<Rightarrow> string set \<Rightarrow> string set \<Rightarrow> string set \<Rightarrow> string \<Rightarrow>
     'd token_table \<Rightarrow> token_error + (string \<times> 'd token_row) \<times> 'd token_table" where
  "create digest now pid secret name roles scopes capabilities source tbl =
     (if py_strip name = [] then Inl Empty_Name
      else
        (let r = \<lparr>tr_public_id = pid, tr_version = 1, tr_name = py_strip name, tr_digest = digest secret,
                  tr_roles = Some roles, tr_scopes = Some scopes, tr_capabilities = Some capabilities,
                  tr_source = source, tr_created = now, tr_last_used = None, tr_last_peer = None, tr_revoked = None\<rparr>
         in if token_lookup pid tbl \<noteq> None then Inl Integrity_Error
            else Inr ((token_text pid secret, r), tbl @ [r])))"

text \<open>An unknown id is compared with the digest of a dummy, and fails whatever the comparison says.\<close>

definition verify ::
    "(string \<Rightarrow> 'd) \<Rightarrow> int \<Rightarrow> string option \<Rightarrow> string \<Rightarrow> 'd token_table \<Rightarrow> 'd token_row option \<times> 'd token_table" where
  "verify digest now peer token tbl =
     (let (pid, secret) = (case token_match token of None \<Rightarrow> ([], []) | Some m \<Rightarrow> m);
          row = (if pid = [] then None else token_lookup pid tbl);
          expected = (case row of None \<Rightarrow> digest ''opensquilla-invalid-token'' | Some r \<Rightarrow> tr_digest r);
          valid_secret = (expected = digest secret)
      in case row of
           None \<Rightarrow> (None, tbl)
         | Some r \<Rightarrow>
             if \<not> valid_secret \<or> tr_revoked r \<noteq> None then (None, tbl)
             else (Some r, sql_update (\<lambda>x. tr_public_id x = pid \<and> tr_revoked x = None)
                             (\<lambda>x. x\<lparr>tr_last_used := Some now, tr_last_peer := peer\<rparr>) tbl))"

definition revoke :: "int \<Rightarrow> string \<Rightarrow> 'd token_table \<Rightarrow> bool \<times> 'd token_table" where
  "revoke now pid tbl =
     (rowcount (\<lambda>x. tr_public_id x = pid \<and> tr_revoked x = None) tbl = 1,
      sql_update (\<lambda>x. tr_public_id x = pid \<and> tr_revoked x = None) (\<lambda>x. x\<lparr>tr_revoked := Some now\<rparr>) tbl)"

definition list_active :: "'d token_table \<Rightarrow> 'd token_row list" where
  "list_active tbl = sort_key (\<lambda>x. - tr_created x) (sort_key tr_public_id (filter (\<lambda>x. tr_revoked x = None) tbl))"

section \<open>Histories of the store\<close>

datatype token_op =
    Create int string string string "string set" "string set" "string set" string
  | Verify int "string option" string
  | Revoke int string

fun token_step :: "(string \<Rightarrow> 'd) \<Rightarrow> token_op \<Rightarrow> 'd token_table \<Rightarrow> 'd token_table" where
  "token_step digest (Create now pid secret name roles scopes caps source) tbl =
     (case create digest now pid secret name roles scopes caps source tbl of Inl e \<Rightarrow> tbl | Inr (issued, tbl') \<Rightarrow> tbl')"
| "token_step digest (Verify now peer token) tbl = snd (verify digest now peer token tbl)"
| "token_step digest (Revoke now pid) tbl = snd (revoke now pid tbl)"

definition token_run :: "(string \<Rightarrow> 'd) \<Rightarrow> token_op list \<Rightarrow> 'd token_table \<Rightarrow> 'd token_table" where
  "token_run digest ops tbl = fold (token_step digest) ops tbl"

fun revokes :: "string \<Rightarrow> token_op \<Rightarrow> bool" where
  "revokes pid (Revoke now p) = (p = pid)"
| "revokes pid op = False"

lemma token_run_simps [simp]:
  "token_run digest [] tbl = tbl" "token_run digest (op # ops) tbl = token_run digest ops (token_step digest op tbl)"
  by (simp_all add: token_run_def)

lemma public_id_underscore [simp]: "\<not> public_id_char (CHR ''_'')"
  by (simp add: public_id_char_def is_digit_def code_def)

text \<open>A drawn id and secret: hex digits, and URL-safe characters.\<close>

definition drawn :: "string \<Rightarrow> string \<Rightarrow> bool" where
  "drawn pid secret =
     (4 \<le> length pid \<and> length pid \<le> 64 \<and> list_all public_id_char pid \<and>
      16 \<le> length secret \<and> length secret \<le> 256 \<and> list_all secret_char secret)"

lemma token_match_text: "drawn pid secret \<Longrightarrow> token_match (token_text pid secret) = Some (pid, secret)"
proof -
  assume d: "drawn pid secret"
  then have "CHR ''_'' \<notin> set pid" by (auto simp: drawn_def list_all_iff)
  then have "split_once (CHR ''_'') (pid @ CHR ''_'' # secret) = Some (pid, secret)" by (rule split_once_append)
  then show ?thesis using d by (simp add: token_match_def token_text_def starts_with_def drawn_def)
qed

lemma token_match_Some: "token_match token = Some (pid, secret) \<Longrightarrow> token = token_text pid secret \<and> drawn pid secret"
  by (auto simp: token_match_def token_text_def drawn_def starts_with_iff dest!: split_once_Some split: option.splits if_splits)

text \<open>What every step keeps of a row: everything but the time and peer of its last use, and a
  revocation once it is there.\<close>

definition same_token :: "'d token_row \<Rightarrow> 'd token_row \<Rightarrow> bool" where
  "same_token r r' = (r'\<lparr>tr_last_used := tr_last_used r, tr_last_peer := tr_last_peer r, tr_revoked := tr_revoked r\<rparr> = r)"

lemma token_step_row:
  assumes "token_lookup pid tbl = Some r"
  shows "\<exists>r'. token_lookup pid (token_step digest op tbl) = Some r' \<and> same_token r r' \<and>
           (tr_revoked r \<noteq> None \<longrightarrow> tr_revoked r' = tr_revoked r) \<and> (\<not> revokes pid op \<longrightarrow> tr_revoked r' = tr_revoked r)"
proof (cases op)
  case (Create now p secret name roles scopes caps source)
  then show ?thesis using assms
    by (simp add: create_def Let_def tokens.lookup_append same_token_def)
next
  case (Verify now peer token)
  then show ?thesis using assms
    by (auto simp: verify_def Let_def tokens.lookup_update same_token_def split: option.split prod.split)
next
  case (Revoke now p)
  then show ?thesis using assms tokens.lookup_Some [OF assms]
    by (auto simp: revoke_def tokens.lookup_update same_token_def)
qed

lemma token_run_row:
  "token_lookup pid tbl = Some r \<Longrightarrow>
     \<exists>r'. token_lookup pid (token_run digest ops tbl) = Some r' \<and> same_token r r' \<and>
       (tr_revoked r \<noteq> None \<longrightarrow> tr_revoked r' = tr_revoked r) \<and>
       ((\<forall>op \<in> set ops. \<not> revokes pid op) \<longrightarrow> tr_revoked r' = tr_revoked r)"
proof (induction ops arbitrary: tbl r)
  case (Cons op ops)
  obtain r1 where r1: "token_lookup pid (token_step digest op tbl) = Some r1" "same_token r r1"
      "tr_revoked r \<noteq> None \<longrightarrow> tr_revoked r1 = tr_revoked r" "\<not> revokes pid op \<longrightarrow> tr_revoked r1 = tr_revoked r"
    using token_step_row [OF Cons.prems] by blast
  obtain r2 where r2: "token_lookup pid (token_run digest ops (token_step digest op tbl)) = Some r2" "same_token r1 r2"
      "tr_revoked r1 \<noteq> None \<longrightarrow> tr_revoked r2 = tr_revoked r1"
      "(\<forall>op \<in> set ops. \<not> revokes pid op) \<longrightarrow> tr_revoked r2 = tr_revoked r1"
    using Cons.IH [OF r1(1)] by blast
  have "same_token r r2" using r1(2) r2(2) by (cases r, cases r1, cases r2) (simp add: same_token_def)
  then show ?case using r1 r2 by auto
qed (simp add: same_token_def)

text \<open>What verification answers.\<close>

lemma verify_iff:
  "fst (verify digest now peer token tbl) = Some r \<longleftrightarrow>
     (\<exists>pid secret. token = token_text pid secret \<and> drawn pid secret \<and> token_lookup pid tbl = Some r \<and>
        tr_digest r = digest secret \<and> tr_revoked r = None)"
proof
  assume v: "fst (verify digest now peer token tbl) = Some r"
  obtain pid secret where m: "token_match token = Some (pid, secret)"
    using v by (cases "token_match token") (auto simp: verify_def Let_def)
  have "token_lookup pid tbl = Some r \<and> tr_digest r = digest secret \<and> tr_revoked r = None"
    using v by (auto simp: verify_def Let_def m split: option.splits if_splits)
  then show "\<exists>pid secret. token = token_text pid secret \<and> drawn pid secret \<and> token_lookup pid tbl = Some r \<and>
        tr_digest r = digest secret \<and> tr_revoked r = None"
    using token_match_Some [OF m] by blast
next
  assume "\<exists>pid secret. token = token_text pid secret \<and> drawn pid secret \<and> token_lookup pid tbl = Some r \<and>
        tr_digest r = digest secret \<and> tr_revoked r = None"
  then obtain pid secret where t: "token = token_text pid secret" "drawn pid secret" "token_lookup pid tbl = Some r"
      "tr_digest r = digest secret" "tr_revoked r = None" by blast
  have "pid \<noteq> []" using t(2) by (auto simp: drawn_def)
  then show "fst (verify digest now peer token tbl) = Some r"
    using t by (simp add: verify_def Let_def token_match_text)
qed

section \<open>The throttle\<close>

text \<open>A sliding window of failures per peer and per public id of a token. Times are integers.\<close>

record limiter =
  lm_window :: int
  lm_burst :: int
  lm_failures :: "string \<Rightarrow> int list"

definition new_limiter :: "int \<Rightarrow> int \<Rightarrow> limiter" where
  "new_limiter window burst = \<lparr>lm_window = window, lm_burst = burst, lm_failures = (\<lambda>k. [])\<rparr>"

definition backoff_seconds :: "int list" where
  "backoff_seconds = [1, 2, 4, 8, 16, 30]"

definition failure_keys :: "string option \<Rightarrow> string option \<Rightarrow> string list" where
  "failure_keys peer pid =
     [''peer:'' @ (case peer of None \<Rightarrow> ''<unknown>'' | Some p \<Rightarrow> if p = [] then ''<unknown>'' else p),
      ''token:'' @ (case pid of None \<Rightarrow> ''legacy'' | Some p \<Rightarrow> if p = [] then ''legacy'' else p)]"

definition push_failure :: "int \<Rightarrow> string \<Rightarrow> limiter \<Rightarrow> limiter" where
  "push_failure now k l =
     l\<lparr>lm_failures := (lm_failures l)(k := dropWhile (\<lambda>t. t \<le> now - lm_window l) (lm_failures l k) @ [now])\<rparr>"

fun push_all :: "int \<Rightarrow> string list \<Rightarrow> limiter \<Rightarrow> nat list \<times> limiter" where
  "push_all now [] l = ([], l)"
| "push_all now (k # ks) l =
     (let l1 = push_failure now k l;
          (ns, l2) = push_all now ks l1
      in (length (lm_failures l1 k) # ns, l2))"

definition delay_for :: "int \<Rightarrow> int" where
  "delay_for overflow = (if overflow \<le> 0 then 0 else backoff_seconds ! nat (min (overflow - 1) 5))"

definition record_failure :: "int \<Rightarrow> string option \<Rightarrow> string option \<Rightarrow> limiter \<Rightarrow> int \<times> limiter" where
  "record_failure now peer pid l =
     (let (counts, l') = push_all now (failure_keys peer pid) l
      in (delay_for (int (foldr max counts 0) - lm_burst l), l'))"

text \<open>Failures as they happened, the reference count, and the limiter after them.\<close>

type_synonym failure = "int \<times> string option \<times> string option"

definition failures_of :: "string \<Rightarrow> failure list \<Rightarrow> int list" where
  "failures_of k h = map fst (filter (\<lambda>(t, peer, pid). k \<in> set (failure_keys peer pid)) h)"

definition recent :: "int \<Rightarrow> string \<Rightarrow> failure list \<Rightarrow> nat" where
  "recent since k h = length (filter (\<lambda>t. since < t) (failures_of k h))"

definition after_failures :: "failure list \<Rightarrow> limiter \<Rightarrow> limiter" where
  "after_failures h l = fold (\<lambda>(t, peer, pid) l. snd (record_failure t peer pid l)) h l"

lemma failure_keys_distinct: "failure_keys peer pid = [a, b] \<Longrightarrow> a \<noteq> b"
  by (auto simp: failure_keys_def)

lemma failures_of_snoc: "failures_of k (h @ [(t, peer, pid)]) = failures_of k h @ (if k \<in> set (failure_keys peer pid) then [t] else [])"
  by (simp add: failures_of_def)

lemma sorted_dropWhile: "sorted ts \<Longrightarrow> dropWhile (\<lambda>t. t \<le> (c :: int)) ts = filter (\<lambda>t. c < t) ts"
proof (induction ts)
  case (Cons t ts)
  show ?case
  proof (cases "t \<le> c")
    case False
    then have "filter (\<lambda>t. c < t) ts = ts" using Cons.prems by (auto simp: filter_id_conv)
    then show ?thesis using False by simp
  qed (use Cons in simp)
qed simp

text \<open>Each queue holds the failures of its key after some instant that every later window excludes.\<close>

definition window_ok :: "int \<Rightarrow> failure list \<Rightarrow> limiter \<Rightarrow> bool" where
  "window_ok now h l =
     (\<forall>k. \<exists>c. (c \<le> now - lm_window l \<or> failures_of k h = []) \<and> lm_failures l k = filter (\<lambda>t. c < t) (failures_of k h))"

lemma push_window:
  assumes "window_ok now h l" and "sorted (failures_of k h)"
  shows "lm_failures (push_failure now k l) k = filter (\<lambda>t. now - lm_window l < t) (failures_of k h) @ [now]"
proof -
  obtain c where c: "c \<le> now - lm_window l \<or> failures_of k h = []" "lm_failures l k = filter (\<lambda>t. c < t) (failures_of k h)"
    using assms(1) unfolding window_ok_def by blast
  have "sorted (filter (\<lambda>t. c < t) (failures_of k h))" by (rule sorted_filter [of "\<lambda>x. x", simplified]) (rule assms(2))
  then have "dropWhile (\<lambda>t. t \<le> now - lm_window l) (lm_failures l k) = filter (\<lambda>t. now - lm_window l < t) (lm_failures l k)"
    unfolding c(2) by (rule sorted_dropWhile)
  also have "\<dots> = filter (\<lambda>t. now - lm_window l < t) (failures_of k h)"
    using c by (auto simp: filter_filter intro: filter_cong)
  finally show ?thesis by (simp add: push_failure_def)
qed

lemma push_keeps [simp]: "lm_window (push_failure now k l) = lm_window l" "lm_burst (push_failure now k l) = lm_burst l"
  "k' \<noteq> k \<Longrightarrow> lm_failures (push_failure now k l) k' = lm_failures l k'"
  by (simp_all add: push_failure_def)

lemma failures_sorted: "sorted (map fst h) \<Longrightarrow> sorted (failures_of k h)"
  unfolding failures_of_def by (simp add: sorted_filter)

lemma record_window:
  assumes "window_ok now h l" and "sorted (map fst h)"
  shows "fst (record_failure now peer pid l) =
      delay_for (1 + int (Max (set (map (\<lambda>k. recent (now - lm_window l) k h) (failure_keys peer pid)))) - lm_burst l)"
    and "lm_failures (snd (record_failure now peer pid l)) k =
      (if k \<in> set (failure_keys peer pid) then filter (\<lambda>t. now - lm_window l < t) (failures_of k h) @ [now] else lm_failures l k)"
    and "lm_window (snd (record_failure now peer pid l)) = lm_window l" and "lm_burst (snd (record_failure now peer pid l)) = lm_burst l"
proof -
  obtain a b where k: "failure_keys peer pid = [a, b]" by (auto simp: failure_keys_def)
  then have ab: "a \<noteq> b" by (rule failure_keys_distinct)
  let ?q = "\<lambda>k. filter (\<lambda>t. now - lm_window l < t) (failures_of k h) @ [now]"
  have a: "lm_failures (push_failure now a l) a = ?q a" by (rule push_window [OF assms(1) failures_sorted [OF assms(2)]])
  have "lm_failures (push_failure now b (push_failure now a l)) b = lm_failures (push_failure now b l) b"
    using ab by (simp add: push_failure_def)
  then have b: "lm_failures (push_failure now b (push_failure now a l)) b = ?q b"
    using push_window [OF assms(1) failures_sorted [OF assms(2)], of b] by simp
  have r: "record_failure now peer pid l =
      (delay_for (int (max (length (?q a)) (length (?q b))) - lm_burst l), push_failure now b (push_failure now a l))"
    by (simp add: record_failure_def k Let_def a b)
  show "fst (record_failure now peer pid l) =
      delay_for (1 + int (Max (set (map (\<lambda>k. recent (now - lm_window l) k h) (failure_keys peer pid)))) - lm_burst l)"
    unfolding r k by (simp add: recent_def max_def)
  show "lm_failures (snd (record_failure now peer pid l)) k =
      (if k \<in> set (failure_keys peer pid) then ?q k else lm_failures l k)"
    unfolding r k using a b ab by auto
  show "lm_window (snd (record_failure now peer pid l)) = lm_window l" "lm_burst (snd (record_failure now peer pid l)) = lm_burst l"
    unfolding r by simp_all
qed

lemma after_failures_snoc: "after_failures (h @ [(t, peer, pid)]) l = snd (record_failure t peer pid (after_failures h l))"
  by (simp add: after_failures_def)

lemma limiter_window:
  "0 < window \<Longrightarrow> sorted (map fst h) \<Longrightarrow> (\<forall>e \<in> set h. fst e \<le> now) \<Longrightarrow>
     window_ok now h (after_failures h (new_limiter window burst)) \<and>
     lm_window (after_failures h (new_limiter window burst)) = window \<and> lm_burst (after_failures h (new_limiter window burst)) = burst"
proof (induction h arbitrary: now rule: rev_induct)
  case Nil
  then show ?case by (simp add: after_failures_def new_limiter_def window_ok_def failures_of_def)
next
  case (snoc e h)
  obtain t peer pid where e: "e = (t, peer, pid)" by (cases e)
  let ?l = "after_failures h (new_limiter window burst)"
  have s: "sorted (map fst h)" "\<forall>e \<in> set h. fst e \<le> t" "t \<le> now"
    using snoc.prems(2,3) by (auto simp: e sorted_append)
  have ok: "window_ok t h ?l" "lm_window ?l = window" "lm_burst ?l = burst" using snoc.IH [OF snoc.prems(1) s(1,2)] by simp_all
  note r = record_window [OF ok(1) s(1), of peer pid]
  have "\<exists>c. (c \<le> now - window \<or> failures_of k (h @ [e]) = []) \<and>
      lm_failures (snd (record_failure t peer pid ?l)) k = filter (\<lambda>t. c < t) (failures_of k (h @ [e]))" for k
  proof (cases "k \<in> set (failure_keys peer pid)")
    case True
    then have "lm_failures (snd (record_failure t peer pid ?l)) k = filter (\<lambda>u. t - window < u) (failures_of k (h @ [e]))"
      using snoc.prems(1) by (simp add: r(2) ok(2) e failures_of_snoc)
    then show ?thesis using s(3) by (intro exI [of _ "t - window"]) simp
  next
    case False
    obtain c where "c \<le> t - window \<or> failures_of k h = []" "lm_failures ?l k = filter (\<lambda>t. c < t) (failures_of k h)"
      using ok(1) unfolding window_ok_def ok(2) by blast
    then show ?thesis using s(3) False by (intro exI [of _ c]) (auto simp: r(2) e failures_of_snoc)
  qed
  then show ?case using r(3,4) ok(2,3) by (simp add: e after_failures_snoc window_ok_def)
qed

end
