(* ===== verification/Auth_Resolve.thy ===== *)
theory Auth_Resolve
  imports Auth_Scopes Token_Store
begin

text \<open>
  From the credentials of a connection to a principal (\<open>src/src/openstarry_code/gateway/auth.py\<close>).
  Digests, the drawn guest key, the clock and the address library of Python are arguments; the
  table of tokens is \<open>None\<close> where the configuration has no state directory or the database fails.
\<close>

section \<open>Principals\<close>

datatype auth_state = Authenticated | Guest_State | Invalid_State

record principal =
  pr_role :: string
  pr_scopes :: "string set"
  pr_owner :: bool
  pr_authenticated :: bool
  pr_capabilities :: "string set"
  pr_state :: auth_state
  pr_token_id :: "string option"
  pr_guest_owner :: "string option"
  pr_guest_key :: "string option"

text \<open>Construction: an empty set of capabilities is replaced like one that was not given.\<close>

definition make_principal ::
    "string \<Rightarrow> string set \<Rightarrow> bool \<Rightarrow> bool \<Rightarrow> string set \<Rightarrow> auth_state option \<Rightarrow> string option \<Rightarrow>
     string option \<Rightarrow> string option \<Rightarrow> principal" where
  "make_principal role scopes is_owner authenticated capabilities state token_id guest_owner guest_key =
     \<lparr>pr_role = role, pr_scopes = scopes, pr_owner = is_owner, pr_authenticated = authenticated,
      pr_capabilities =
        (if capabilities \<noteq> {} then capabilities
         else if role = ''operator'' \<and> (authenticated \<or> is_owner) then local_owner_capabilities
         else if \<not> authenticated then guest_safe_capabilities
         else {}),
      pr_state = (case state of None \<Rightarrow> if authenticated \<or> is_owner then Authenticated else Guest_State | Some s \<Rightarrow> s),
      pr_token_id = token_id, pr_guest_owner = guest_owner, pr_guest_key = guest_key\<rparr>"

section \<open>Configuration and environment\<close>

record auth_config =
  ac_mode :: string
  ac_token :: "string option"
  ac_token_scopes :: "string list"
  ac_allowed_roles :: "string list"
  ac_cidrs :: "string list"
  ac_host :: "string option"

text \<open>The \<open>ipaddress\<close> module: addresses, the texts of networks, membership.\<close>

record 'a ip_library =
  ip_address :: "string \<Rightarrow> 'a option"
  ip_loopback :: "'a \<Rightarrow> bool"
  ip_network_ok :: "string \<Rightarrow> bool"
  ip_in_network :: "'a \<Rightarrow> string \<Rightarrow> bool"

record ('a, 'd) auth_env =
  ae_ip :: "'a ip_library"
  ae_digest :: "string \<Rightarrow> 'd"
  ae_hex_digest :: "string \<Rightarrow> string"
  ae_now :: int
  ae_fresh :: string

datatype auth_error = Auth_Value_Error string | Auth_Type_Error

section \<open>Peers and guests\<close>

definition private_client_networks :: "string list" where
  "private_client_networks =
     [''127.0.0.0/8'', ''10.0.0.0/8'', ''172.16.0.0/12'', ''192.168.0.0/16'', ''::1/128'', ''fc00::/7'']"

text \<open>\<open>None\<close>: a network text is refused.\<close>

definition private_or_unknown_peer :: "'a ip_library \<Rightarrow> string option \<Rightarrow> string list \<Rightarrow> bool option" where
  "private_or_unknown_peer lib peer cidrs =
     (case peer of
        None \<Rightarrow> Some True
      | Some p \<Rightarrow>
          (case ip_address lib (before_percent p) of
             None \<Rightarrow> Some True
           | Some a \<Rightarrow>
               if ip_loopback lib a then Some True
               else if cidrs = [] then Some (list_ex (ip_in_network lib a) private_client_networks)
               else if list_all (ip_network_ok lib) cidrs then Some (list_ex (ip_in_network lib a) cidrs)
               else None))"

definition guest_key_shape :: "string \<Rightarrow> bool" where
  "guest_key_shape k = (starts_with ''osqg_'' k \<and> length (drop 5 k) = 43 \<and> list_all secret_char (drop 5 k))"

definition new_guest_session_key :: "string \<Rightarrow> string" where
  "new_guest_session_key fresh = ''osqg_'' @ fresh"

definition resolve_guest_session_key :: "string \<Rightarrow> pydict \<Rightarrow> string" where
  "resolve_guest_session_key fresh auth_params =
     (let candidate = py_str (py_or (dget auth_params ''guestSessionKey'') (PyStr []))
      in if guest_key_shape candidate then candidate else new_guest_session_key fresh)"

definition guest_principal :: "(string \<Rightarrow> string) \<Rightarrow> auth_state \<Rightarrow> string option \<Rightarrow> string \<Rightarrow> principal" where
  "guest_principal hex_digest state public_id guest_key =
     make_principal ''operator'' remote_operator_scopes False False guest_safe_capabilities (Some state)
       public_id (Some (hex_digest guest_key)) (Some guest_key)"

section \<open>Resolvers\<close>

definition is_ascii :: "string \<Rightarrow> bool" where
  "is_ascii s = list_all (\<lambda>c. code c < 128) s"

definition compare_digest :: "string \<Rightarrow> string \<Rightarrow> auth_error + bool" where
  "compare_digest a b = (if is_ascii a \<and> is_ascii b then Inr (a = b) else Inl Auth_Type_Error)"

definition verify_named_token ::
    "('a, 'd) auth_env \<Rightarrow> string \<Rightarrow> string option \<Rightarrow> 'd token_table option \<Rightarrow> 'd token_row option \<times> 'd token_table option" where
  "verify_named_token env token peer store =
     (if \<not> starts_with ''osq_'' token then (None, store)
      else case store of
             None \<Rightarrow> (None, None)
           | Some tbl \<Rightarrow> (case verify (ae_digest env) (ae_now env) peer token tbl of (r, tbl') \<Rightarrow> (r, Some tbl')))"

definition provided_token :: "pydict \<Rightarrow> string" where
  "provided_token auth_params = py_str (py_or (dget auth_params ''token'') (PyStr []))"

text \<open>The checks that both resolvers begin with.\<close>

definition admit_peer :: "('a, 'd) auth_env \<Rightarrow> auth_config \<Rightarrow> string \<Rightarrow> string option \<Rightarrow> auth_error + unit" where
  "admit_peer env cfg role peer =
     (if role \<notin> set (ac_allowed_roles cfg) then Inl (Auth_Value_Error (''Invalid role: '' @ str_repr role))
      else case private_or_unknown_peer (ae_ip env) peer (ac_cidrs cfg) of
             None \<Rightarrow> Inl (Auth_Value_Error ''network'')
           | Some False \<Rightarrow> Inl (Auth_Value_Error ''Public peers are not accepted'')
           | Some True \<Rightarrow> Inr ())"

definition local_peer :: "auth_config \<Rightarrow> string option \<Rightarrow> bool" where
  "local_peer cfg peer = (is_loopback_bind (ac_host cfg) \<and> is_loopback_address peer)"

definition token_principal :: "('a, 'd) auth_env \<Rightarrow> string \<Rightarrow> 'd token_row \<Rightarrow> string \<Rightarrow> principal" where
  "token_principal env role r guest_key =
     (if role \<notin> decode_set (tr_roles r)
      then guest_principal (ae_hex_digest env) Invalid_State (Some (tr_public_id r)) guest_key
      else make_principal role
             (if role = ''node'' then node_default_scopes else normalize_operator_scopes (decode_set (tr_scopes r)))
             False True (decode_set (tr_capabilities r)) (Some Authenticated) (Some (tr_public_id r)) None None)"

definition legacy_principal :: "auth_config \<Rightarrow> string \<Rightarrow> string option \<Rightarrow> principal" where
  "legacy_principal cfg role peer =
     (if role = ''node''
      then make_principal role node_default_scopes False True {} (Some Authenticated) (Some ''legacy'') None None
      else make_principal role (normalize_operator_scopes (set (ac_token_scopes cfg))) (local_peer cfg peer) True
             human_token_capabilities (Some Authenticated) (Some ''legacy'') None None)"

definition token_resolver ::
    "('a, 'd) auth_env \<Rightarrow> auth_config \<Rightarrow> pydict \<Rightarrow> string \<Rightarrow> string option \<Rightarrow> 'd token_table option \<Rightarrow>
     (auth_error + principal) \<times> 'd token_table option" where
  "token_resolver env cfg auth_params role peer store =
     (case admit_peer env cfg role peer of
        Inl e \<Rightarrow> (Inl e, store)
      | Inr _ \<Rightarrow>
          (let provided = provided_token auth_params;
               guest_key = resolve_guest_session_key (ae_fresh env) auth_params
           in if provided = [] then (Inr (guest_principal (ae_hex_digest env) Guest_State None guest_key), store)
              else
                (let (named, store') = verify_named_token env provided peer store
                 in case named of
                      Some r \<Rightarrow> (Inr (token_principal env role r guest_key), store')
                    | None \<Rightarrow>
                        (let configured = (case ac_token cfg of None \<Rightarrow> [] | Some t \<Rightarrow> t)
                         in (rbind (if configured = [] then Inr False else compare_digest provided configured)
                               (\<lambda>valid_legacy.
                                  Inr (if \<not> valid_legacy
                                       then guest_principal (ae_hex_digest env) Invalid_State
                                              (Some (token_public_id provided)) guest_key
                                       else legacy_principal cfg role peer)), store')))))"

definition open_resolver ::
    "('a, 'd) auth_env \<Rightarrow> auth_config \<Rightarrow> pydict \<Rightarrow> string \<Rightarrow> string option \<Rightarrow> auth_error + principal" where
  "open_resolver env cfg auth_params role peer =
     rbind (admit_peer env cfg role peer) (\<lambda>_.
       Inr (if role = ''node''
            then make_principal ''node'' node_default_scopes False False {} (Some Guest_State) None None None
            else if local_peer cfg peer
            then make_principal role cli_default_operator_scopes True False local_owner_capabilities (Some Authenticated)
                   None None None
            else (let guest_key = resolve_guest_session_key (ae_fresh env) auth_params
                  in make_principal role remote_operator_scopes False False guest_safe_capabilities (Some Guest_State)
                       None (Some (ae_hex_digest env guest_key)) (Some guest_key))))"

text \<open>A \<open>ValueError\<close> is answered with no principal; any other error leaves the function.\<close>

definition resolve_auth ::
    "('a, 'd) auth_env \<Rightarrow> auth_config \<Rightarrow> pydict \<Rightarrow> string \<Rightarrow> string option \<Rightarrow> 'd token_table option \<Rightarrow>
     (auth_error + principal option) \<times> 'd token_table option" where
  "resolve_auth env cfg auth_params role peer store =
     (let (res, store') =
            (if ac_mode cfg = ''token'' then map_prod (map_sum id Some) id (token_resolver env cfg auth_params role peer store)
             else if ac_mode cfg = ''none'' then (map_sum id Some (open_resolver env cfg auth_params role peer), store)
             else (Inr None, store))
      in (case res of Inl (Auth_Value_Error m) \<Rightarrow> Inr None | Inl Auth_Type_Error \<Rightarrow> Inl Auth_Type_Error | Inr p \<Rightarrow> Inr p,
          store'))"

section \<open>Laws of principals\<close>

lemma guest_principal_simps [simp]:
  "pr_role (guest_principal h st pid k) = ''operator''" "pr_scopes (guest_principal h st pid k) = remote_operator_scopes"
  "\<not> pr_owner (guest_principal h st pid k)" "\<not> pr_authenticated (guest_principal h st pid k)"
  "pr_capabilities (guest_principal h st pid k) = guest_safe_capabilities" "pr_state (guest_principal h st pid k) = st"
  "pr_guest_owner (guest_principal h st pid k) = Some (h k)" "pr_token_id (guest_principal h st pid k) = pid"
  by (simp_all add: guest_principal_def make_principal_def guest_safe_capabilities_def)

lemma make_principal_simps [simp]:
  "pr_role (make_principal role sc ow au caps st pid go gk) = role" "pr_scopes (make_principal role sc ow au caps st pid go gk) = sc"
  "pr_owner (make_principal role sc ow au caps st pid go gk) = ow"
  "pr_authenticated (make_principal role sc ow au caps st pid go gk) = au"
  "pr_guest_owner (make_principal role sc ow au caps st pid go gk) = go"
  "pr_token_id (make_principal role sc ow au caps st pid go gk) = pid"
  "caps \<noteq> {} \<Longrightarrow> pr_capabilities (make_principal role sc ow au caps st pid go gk) = caps"
  "pr_state (make_principal role sc ow au caps (Some s) pid go gk) = s"
  by (simp_all add: make_principal_def)

end
