(* ===== verification/Guest_Policy.thy ===== *)
theory Guest_Policy
  imports Auth_Resolve
begin

text \<open>
  Anonymous guests: which calls they may make on which sessions
  (\<open>src/src/openstarry_code/gateway/guest_rpc_policy.py\<close>), and the dispatch of a call up to its
  handler (\<open>gateway/rpc/registry.py\<close>). Parameters are JSON values.
\<close>

section \<open>Allowed methods\<close>

definition guest_rpc_allowlist :: "string list" where
  "guest_rpc_allowlist =
     [''chat.send'', ''chat.history'', ''chat.abort'', ''chat.clarify_submit'', ''artifacts.list'', ''artifacts.get'',
      ''sessions.list'', ''sessions.rename'', ''sessions.delete'', ''sessions.bootstrap'',
      ''sessions.messages.subscribe'', ''sessions.messages.hydrate'', ''sessions.messages.snapshot'',
      ''sessions.messages.unsubscribe'', ''sessions.pending_inputs.enqueue'', ''sessions.pending_inputs.list'',
      ''sessions.pending_inputs.update'', ''sessions.pending_inputs.reorder'', ''sessions.pending_inputs.cancel'',
      ''sessions.pending_inputs.dispatch'']"

definition session_key_fields :: "(string \<times> string list) list" where
  "session_key_fields =
     [(''artifacts.list'', [''sessionKey'']), (''artifacts.get'', [''sessionKey'']),
      (''chat.history'', [''sessionKey'', ''key'']), (''chat.abort'', [''sessionKey'', ''key'']),
      (''chat.clarify_submit'', [''sessionKey'', ''key'']), (''sessions.bootstrap'', [''key'', ''sessionKey'']),
      (''sessions.rename'', [''key'', ''sessionKey'']), (''sessions.messages.subscribe'', [''key'', ''sessionKey'']),
      (''sessions.messages.hydrate'', [''key'', ''sessionKey'']), (''sessions.messages.snapshot'', [''key'', ''sessionKey'']),
      (''sessions.messages.unsubscribe'', [''key'', ''sessionKey'']),
      (''sessions.pending_inputs.enqueue'', [''key'', ''sessionKey'']),
      (''sessions.pending_inputs.list'', [''key'', ''sessionKey'']),
      (''sessions.pending_inputs.update'', [''key'', ''sessionKey'']),
      (''sessions.pending_inputs.reorder'', [''key'', ''sessionKey'']),
      (''sessions.pending_inputs.cancel'', [''key'', ''sessionKey'']),
      (''sessions.pending_inputs.dispatch'', [''key'', ''sessionKey''])]"

section \<open>The namespace of a guest\<close>

definition guest_namespace_parts :: "pyval \<Rightarrow> (string \<times> string) option" where
  "guest_namespace_parts session_key =
     (case split_on colon (canonicalize_session_key (Some (py_str (py_or session_key (PyStr []))))) of
        [a, agent, w, g, owner, slug] \<Rightarrow>
          if a = ''agent'' \<and> w = ''webchat'' \<and> g = ''guest'' \<and> is_hex64 owner \<and> slug \<noteq> [] then Some (owner, slug) else None
      | _ \<Rightarrow> None)"

definition guest_owns_session_key :: "string option \<Rightarrow> pyval \<Rightarrow> bool" where
  "guest_owns_session_key owner session_key =
     (case owner of
        None \<Rightarrow> False
      | Some o' \<Rightarrow>
          is_hex64 o' \<and> (case guest_namespace_parts session_key of None \<Rightarrow> False | Some (p, slug) \<Rightarrow> p = o'))"

definition slug_char :: "char \<Rightarrow> bool" where
  "slug_char c = secret_char c"

text \<open>Every maximal run of other characters becomes one dash.\<close>

fun sub_runs :: "bool \<Rightarrow> string \<Rightarrow> string" where
  "sub_runs inside [] = []"
| "sub_runs inside (c # s) =
     (if slug_char c then c # sub_runs False s else if inside then sub_runs True s else CHR ''-'' # sub_runs True s)"

definition trim_slug :: "string \<Rightarrow> string" where
  "trim_slug s =
     (let trim = dropWhile (\<lambda>c. c = CHR ''-'' \<or> c = CHR ''_'') in rev (trim (rev (trim s))))"

definition guest_slug :: "string \<Rightarrow> string \<Rightarrow> string" where
  "guest_slug fresh requested =
     (let raw = (if requested = [] then ''default'' else last (split_on colon requested));
          raw = (if raw \<in> {[], ''unknown'', ''webchat''} then ''default'' else raw);
          slug = take 96 (trim_slug (sub_runs False raw))
      in if slug = [] then fresh else slug)"

datatype guest_error = Guest_Denied string | Guest_Key_Error

definition guest_owned_session_key :: "string \<Rightarrow> string \<Rightarrow> pyval \<Rightarrow> string option \<Rightarrow> string" where
  "guest_owned_session_key fresh owner requested_key agent_id =
     (let requested = canonicalize_session_key (Some (py_str (py_or requested_key (PyStr []))))
      in if guest_owns_session_key (Some owner) (PyStr requested) then requested
         else
           (let agent = (case agent_id of None \<Rightarrow> [] | Some a \<Rightarrow> a);
                agent = (if agent = [] then parse_agent_id requested else agent);
                agent = (if agent = [] then ''main'' else agent)
            in ''agent:'' @ agent @ '':webchat:guest:'' @ owner @ '':'' @ guest_slug fresh requested))"

section \<open>The policy\<close>

definition is_guest :: "principal \<Rightarrow> bool" where
  "is_guest p =
     (\<not> pr_authenticated p \<and> \<not> pr_owner p \<and>
      (pr_state p \<in> {Guest_State, Invalid_State} \<or> ''guest.safe'' \<in> pr_capabilities p))"

definition chat_send_params :: "string \<Rightarrow> string \<Rightarrow> pydict \<Rightarrow> pydict" where
  "chat_send_params fresh owner d =
     (let key = guest_owned_session_key fresh owner (py_or (dget d ''sessionKey'') (dget d ''key'')) None;
          d1 = dpop ''initial_routing_mode'' (dpop ''initialRoutingMode'' (dpop ''key'' (dset ''sessionKey'' (PyStr key) d)));
          d2 = dset ''no_memory_capture'' (PyBool True) (dset ''noMemoryCapture'' (PyBool True) d1);
          source = (case as_dict (dget d2 ''_source'') of None \<Rightarrow> [] | Some s \<Rightarrow> s)
      in dset ''_source'' (PyDict (dset ''no_memory_capture'' (PyBool True) (dset ''noMemoryCapture'' (PyBool True) source))) d2)"

definition delete_params :: "string \<Rightarrow> pydict \<Rightarrow> guest_error + pydict" where
  "delete_params owner d =
     (let raw = dget d ''keys'';
          raw = (if raw = PyNone then PyList [dget d ''key''] else raw)
      in case raw of
           PyList ks \<Rightarrow>
             if ks = [] then Inl (Guest_Denied ''Guest session key is required'')
             else if \<not> list_all (guest_owns_session_key (Some owner)) ks
             then Inl (Guest_Denied ''Guest session is not owned by this browser'')
             else Inr (dpop ''key'' (dset ''keys'' (PyList ks) d))
         | _ \<Rightarrow> Inl (Guest_Denied ''Guest session key is required''))"

text \<open>The first field that has a value names the session; the aliases are dropped.\<close>

definition session_params :: "string \<Rightarrow> string \<Rightarrow> pydict \<Rightarrow> guest_error + pydict" where
  "session_params owner m d =
     (case map_of session_key_fields m of
        None \<Rightarrow> Inl Guest_Key_Error
      | Some names \<Rightarrow>
          (let key = (case find (\<lambda>f. truthy (dget d f)) names of None \<Rightarrow> PyNone | Some f \<Rightarrow> dget d f)
           in if \<not> guest_owns_session_key (Some owner) key
              then Inl (Guest_Denied ''Guest session is not owned by this browser'')
              else
                (let d1 = fold dpop (tl names) (dset (hd names) key d)
                 in Inr (if m = ''sessions.pending_inputs.enqueue''
                         then dpop ''initial_routing_mode'' (dpop ''initialRoutingMode'' d1) else d1))))"

definition guest_authorize :: "string \<Rightarrow> string \<Rightarrow> pyval \<Rightarrow> principal \<Rightarrow> guest_error + pyval" where
  "guest_authorize fresh m params p =
     (if \<not> is_guest p then Inr params
      else if m \<notin> set guest_rpc_allowlist then Inl (Guest_Denied ''Anonymous guest RPC method is not allowed'')
      else case pr_guest_owner p of
             None \<Rightarrow> Inl (Guest_Denied ''Anonymous guest identity is unavailable'')
           | Some owner \<Rightarrow>
               if \<not> is_hex64 owner then Inl (Guest_Denied ''Anonymous guest identity is unavailable'')
               else if m = ''sessions.list'' then Inr params
               else case as_dict params of
                      None \<Rightarrow>
                        if m = ''chat.send'' then Inr params else Inl (Guest_Denied ''Guest session key is required'')
                    | Some d \<Rightarrow>
                        if m = ''chat.send'' then Inr (PyDict (chat_send_params fresh owner d))
                        else if m = ''sessions.delete'' then map_sum id PyDict (delete_params owner d)
                        else map_sum id PyDict (session_params owner m d))"

section \<open>Dispatch\<close>

text \<open>The answer to a call: refused, or handed over to the handler with these parameters.\<close>

datatype rpc_outcome = Method_Not_Found | Guest_Refused | Guest_Crash | Insufficient_Scope "string option" | Handled pyval

definition dispatch ::
    "(string \<rightharpoonup> string) \<Rightarrow> string \<Rightarrow> string \<Rightarrow> pyval \<Rightarrow> principal \<Rightarrow> rpc_outcome" where
  "dispatch entries fresh m params p =
     (case entries m of
        None \<Rightarrow> Method_Not_Found
      | Some required \<Rightarrow>
          (case guest_authorize fresh m params p of
             Inl (Guest_Denied msg) \<Rightarrow> Guest_Refused
           | Inl Guest_Key_Error \<Rightarrow> Guest_Crash
           | Inr params' \<Rightarrow>
               (case authorize_call m required (pr_role p) (pr_scopes p) of
                  (True, missing) \<Rightarrow> Handled params'
                | (False, missing) \<Rightarrow> Insufficient_Scope missing)))"

section \<open>Keys of guests\<close>

lemma hex64_no_colon: "is_hex64 h \<Longrightarrow> colon \<notin> set h \<and> h \<noteq> []"
  by (auto simp: is_hex64_def list_all_iff is_digit_def dest: bspec)

lemma slug_char_facts: "slug_char c \<Longrightarrow> c \<noteq> colon \<and> \<not> py_isspace c"
  by (auto simp: slug_char_def secret_char_def is_digit_def py_isspace_def code_def Let_def)

lemma sub_runs_chars: "list_all slug_char (sub_runs b s)"
  by (induction b s rule: sub_runs.induct) (auto simp: slug_char_def secret_char_def)

lemma trim_slug_subset: "set (trim_slug s) \<subseteq> set s"
  by (auto simp: trim_slug_def Let_def dest!: set_dropWhileD)

lemma guest_slug_shape:
  assumes "fresh \<noteq> []" and "list_all slug_char fresh"
  shows "guest_slug fresh requested \<noteq> [] \<and> list_all slug_char (guest_slug fresh requested)"
proof -
  have "list_all slug_char (take 96 (trim_slug (sub_runs False raw)))" for raw
    using sub_runs_chars [of False raw] trim_slug_subset [of "sub_runs False raw"]
    by (auto simp: list_all_iff dest: in_set_takeD)
  then show ?thesis using assms by (simp add: guest_slug_def Let_def)
qed

text \<open>A key built from an agent id, the hash of a guest and a slug is in the namespace of that guest.\<close>

lemma built_key_owned:
  assumes "id_shape agent" and "is_hex64 owner" and "slug \<noteq> []" and "list_all slug_char slug"
  shows "guest_namespace_parts (PyStr (''agent:'' @ agent @ '':webchat:guest:'' @ owner @ '':'' @ slug)) = Some (owner, slug)"
proof -
  let ?r = "''webchat:guest:'' @ owner @ '':'' @ slug"
  have slug: "\<not> py_isspace (last slug)" "colon \<notin> set slug"
    using assms(3,4) slug_char_facts by (auto simp: list_all_iff)
  have "py_rstrip ?r = ?r"
  proof -
    obtain u c where "slug = u @ [c]" using assms(3) by (cases slug rule: rev_cases) auto
    then show ?thesis using slug(1) py_rstrip_keeps [of c "''webchat:guest:'' @ owner @ '':'' @ u" "[]"]
      by (simp add: py_rstrip_def)
  qed
  then have c: "canonicalize_session_key (Some (''agent:'' @ agent @ colon # ?r)) = ''agent:'' @ normalize_agent_id (Some agent) @ colon # ?r"
    using canonicalize_agent_key [OF assms(1), of ?r] by simp
  have n: "id_shape (normalize_agent_id (Some agent))" by (rule normalize_agent_id_shape)
  have "split_on colon ?r = [''webchat'', ''guest'', owner, slug]"
    using split_on_append [of colon owner slug] hex64_no_colon [OF assms(2)] split_on_no_delim [OF slug(2)]
      split_on_append [of colon "''webchat''" "''guest:'' @ owner @ '':'' @ slug"] split_on_append [of colon "''guest''" "owner @ '':'' @ slug"]
    by simp
  then have "split_on colon (''agent:'' @ normalize_agent_id (Some agent) @ colon # ?r) =
      [''agent'', normalize_agent_id (Some agent), ''webchat'', ''guest'', owner, slug]"
    using split_agent_key [OF n, of ?r] by simp
  then show ?thesis using c assms(2,3) by (simp add: guest_namespace_parts_def py_or_def)
qed

end
