(* ===== verification/Auth_Safety.thy ===== *)
theory Auth_Safety
  imports Guest_Policy
begin

text \<open>
  What the authentication of the gateway promises: authority comes from a token or from the local
  machine, everybody else is a guest whose calls stay in a namespace of their own; tokens are
  accepted until they are revoked; failures are counted exactly.
\<close>

section \<open>Scopes\<close>

theorem normalized_grants_agree:
  "operator_scope_satisfies required (normalize_operator_scopes granted) = operator_scope_satisfies required granted
   \<and> (read_scope \<in> normalize_operator_scopes granted) = operator_scope_satisfies read_scope granted
   \<and> (write_scope \<in> normalize_operator_scopes granted) = operator_scope_satisfies write_scope granted
   \<and> (admin_scope \<in> normalize_operator_scopes granted) = operator_scope_satisfies admin_scope granted"
  by (intro conjI, rule satisfies_normalize) (auto simp: normalize_read normalize_write operator_scope_satisfies_def)

section \<open>Tokens\<close>

theorem issued_token_verifies:
  assumes "create digest now pid secret name roles scopes caps source tbl = Inr ((token, r), tbl')"
    and "drawn pid secret" and "\<forall>op \<in> set ops. \<not> revokes pid op"
  shows "\<exists>r'. fst (verify digest later peer token (token_run digest ops tbl')) = Some r' \<and> same_token r r'"
proof -
  have c: "token = token_text pid secret" "tr_digest r = digest secret" "tr_revoked r = None" "token_lookup pid tbl' = Some r"
    using assms(1) by (auto simp: create_def Let_def tokens.lookup_append split: if_splits)
  obtain r' where r': "token_lookup pid (token_run digest ops tbl') = Some r'" "same_token r r'" "tr_revoked r' = tr_revoked r"
    using token_run_row [OF c(4), of digest ops] assms(3) by blast
  have "tr_digest r' = tr_digest r" using r'(2) by (cases r, cases r') (simp add: same_token_def)
  then show ?thesis using c r' assms(2) by (intro exI [of _ r']) (simp add: verify_iff, blast)
qed

lemma token_step_distinct: "distinct (map tr_public_id tbl) \<Longrightarrow> distinct (map tr_public_id (token_step digest op tbl))"
proof (cases op)
  case (Create now pid secret name roles scopes caps source)
  assume "distinct (map tr_public_id tbl)"
  then show ?thesis using tokens.lookup_None_iff [of pid tbl] by (auto simp: Create create_def Let_def)
next
  case (Verify now peer token)
  assume "distinct (map tr_public_id tbl)"
  then show ?thesis by (auto simp: Verify verify_def Let_def map_sql_update split: option.split prod.split)
next
  case (Revoke now pid)
  assume "distinct (map tr_public_id tbl)"
  then show ?thesis by (simp add: Revoke revoke_def map_sql_update)
qed

lemma token_run_distinct: "distinct (map tr_public_id tbl) \<Longrightarrow> distinct (map tr_public_id (token_run digest ops tbl))"
  by (induction ops arbitrary: tbl) (simp_all add: token_step_distinct)

theorem revoked_token_refused:
  assumes "tbl = token_run digest before []" and "fst (revoke now pid tbl)" and "token_match token = Some (pid, secret)"
  shows "fst (verify digest later peer token (token_run digest ops (snd (revoke now pid tbl)))) = None"
proof -
  have d: "distinct (map tr_public_id tbl)" unfolding assms(1) by (rule token_run_distinct) simp
  have "rowcount (\<lambda>x. tr_public_id x = pid \<and> tr_revoked x = None) tbl = 1" using assms(2) by (simp add: revoke_def)
  then have "filter (\<lambda>x. tr_public_id x = pid \<and> tr_revoked x = None) tbl \<noteq> []" by (auto simp: rowcount_def)
  then obtain r where r: "r \<in> set tbl" "tr_public_id r = pid" "tr_revoked r = None"
    using hd_in_set by fastforce
  then have "token_lookup pid tbl = Some r" using tokens.lookup_unique [OF d] by blast
  then have "token_lookup pid (snd (revoke now pid tbl)) = Some (r\<lparr>tr_revoked := Some now\<rparr>)"
    using r by (simp add: revoke_def tokens.lookup_update)
  then obtain r' where r': "token_lookup pid (token_run digest ops (snd (revoke now pid tbl))) = Some r'" "tr_revoked r' = Some now"
    using token_run_row [of pid "snd (revoke now pid tbl)" "r\<lparr>tr_revoked := Some now\<rparr>" digest ops] by auto
  show ?thesis
  proof (rule ccontr)
    assume "\<not> ?thesis"
    then obtain x p s where x: "token = token_text p s" "drawn p s"
        "token_lookup p (token_run digest ops (snd (revoke now pid tbl))) = Some x" "tr_revoked x = None"
      by (cases "fst (verify digest later peer token (token_run digest ops (snd (revoke now pid tbl))))") (auto simp: verify_iff)
    have "p = pid" using token_match_text [OF x(2)] x(1) assms(3) by simp
    then show False using x r' by simp
  qed
qed

section \<open>The throttle\<close>

theorem throttle_counts_window:
  assumes "0 < window" and "sorted (map fst h)" and "\<forall>e \<in> set h. fst e \<le> now"
  shows "fst (record_failure now peer pid (after_failures h (new_limiter window burst)))
      = delay_for (1 + int (Max (set (map (\<lambda>k. recent (now - window) k h) (failure_keys peer pid)))) - burst)
     \<and> 0 \<le> fst (record_failure now peer pid (after_failures h (new_limiter window burst)))
     \<and> fst (record_failure now peer pid (after_failures h (new_limiter window burst))) \<le> 30"
proof -
  have ok: "window_ok now h (after_failures h (new_limiter window burst))" "lm_window (after_failures h (new_limiter window burst)) = window"
    "lm_burst (after_failures h (new_limiter window burst)) = burst" using limiter_window [OF assms] by simp_all
  have r: "0 \<le> delay_for n \<and> delay_for n \<le> 30" for n
  proof (cases "n \<le> 0")
    case False
    have "nat (min (n - 1) 5) \<in> {0, 1, 2, 3, 4, 5}" by (auto simp: min_def)
    then show ?thesis using False by (auto simp: delay_for_def backoff_seconds_def)
  qed (simp add: delay_for_def)
  show ?thesis unfolding record_window(1) [OF ok(1) assms(2)] ok(2,3) using r by blast
qed

section \<open>Principals\<close>

text \<open>
  A token that the gateway trusts, in the state of the store: it names a row that is not revoked and
  whose digest is that of its secret, and that was issued for the role; or it names no such row and
  is the configured one.
\<close>

definition named_row :: "('a, 'd) auth_env \<Rightarrow> string \<Rightarrow> 'd token_table option \<Rightarrow> 'd token_row option" where
  "named_row env token store =
     (case store of
        None \<Rightarrow> None
      | Some tbl \<Rightarrow>
          (case token_match token of
             None \<Rightarrow> None
           | Some (pid, secret) \<Rightarrow>
               (case token_lookup pid tbl of
                  None \<Rightarrow> None
                | Some r \<Rightarrow> if tr_digest r = ae_digest env secret \<and> tr_revoked r = None then Some r else None)))"

definition trusted_token ::
    "('a, 'd) auth_env \<Rightarrow> auth_config \<Rightarrow> string \<Rightarrow> string \<Rightarrow> 'd token_table option \<Rightarrow> bool" where
  "trusted_token env cfg token role store =
     (case named_row env token store of
        Some r \<Rightarrow> role \<in> decode_set (tr_roles r)
      | None \<Rightarrow> token \<noteq> [] \<and> ac_token cfg = Some token)"

text \<open>The scopes that the token was given.\<close>

definition token_grants :: "('a, 'd) auth_env \<Rightarrow> auth_config \<Rightarrow> string \<Rightarrow> 'd token_table option \<Rightarrow> string set" where
  "token_grants env cfg token store =
     (case named_row env token store of Some r \<Rightarrow> decode_set (tr_scopes r) | None \<Rightarrow> set (ac_token_scopes cfg))"

lemma verified_row: "fst (verify_named_token env token peer store) = named_row env token store"
proof (cases "token_match token")
  case None
  then show ?thesis by (simp add: verify_named_token_def named_row_def verify_def Let_def split: option.split)
next
  case (Some m)
  obtain pid secret where m: "m = (pid, secret)" by (cases m)
  then have t: "token = token_text pid secret" "pid \<noteq> []"
    using token_match_Some [of token pid secret] Some by (auto simp: drawn_def)
  then have "starts_with ''osq_'' token" by (simp add: token_text_def starts_with_def)
  then show ?thesis using Some t(2)
    by (auto simp: m verify_named_token_def named_row_def verify_def Let_def split: option.split prod.split)
qed

definition powerless :: "principal \<Rightarrow> bool" where
  "powerless p =
     (is_guest p \<and> pr_capabilities p = guest_safe_capabilities \<and>
      (if pr_role p = ''node'' then pr_scopes p = node_default_scopes \<and> pr_guest_owner p = None
       else pr_scopes p = remote_operator_scopes))"

lemma guest_principal_powerless: "st \<noteq> Authenticated \<Longrightarrow> powerless (guest_principal h st pid k)"
  by (cases st) (simp_all add: powerless_def is_guest_def)

lemma token_resolver_cases:
  assumes "fst (token_resolver env cfg auth_params role peer store) = Inr p"
  shows "trusted_token env cfg (provided_token auth_params) role store \<and> pr_authenticated p \<and>
           (\<not> pr_owner p \<or> local_peer cfg peer) \<and>
           (admin_scope \<in> pr_scopes p \<longrightarrow> admin_scope \<in> token_grants env cfg (provided_token auth_params) store)
       \<or> powerless p"
proof -
  let ?t = "provided_token auth_params"
  let ?k = "resolve_guest_session_key (ae_fresh env) auth_params"
  have a: "admit_peer env cfg role peer = Inr ()" using assms by (auto simp: token_resolver_def split: sum.splits)
  show ?thesis
  proof (cases "?t = []")
    case True
    then have "p = guest_principal (ae_hex_digest env) Guest_State None ?k" using assms a by (simp add: token_resolver_def)
    then show ?thesis by (simp add: guest_principal_powerless)
  next
    case False
    obtain named store' where v: "verify_named_token env ?t peer store = (named, store')" by (cases "verify_named_token env ?t peer store")
    then have n: "named_row env ?t store = named" using verified_row [of env ?t peer store] by simp
    show ?thesis
    proof (cases named)
      case (Some r)
      then have p: "p = token_principal env role r ?k" using assms a False v by (simp add: token_resolver_def Let_def)
      show ?thesis
      proof (cases "role \<in> decode_set (tr_roles r)")
        case True
        then show ?thesis using Some n by (simp add: p token_principal_def trusted_token_def token_grants_def node_default_scopes_def operator_scopes(8) [THEN not_sym])
      qed (simp add: p token_principal_def guest_principal_powerless)
    next
      case None
      let ?c = "case ac_token cfg of None \<Rightarrow> [] | Some t \<Rightarrow> t"
      obtain b where b: "(if ?c = [] then Inr False else compare_digest ?t ?c) = Inr b"
          "p = (if \<not> b then guest_principal (ae_hex_digest env) Invalid_State (Some (token_public_id ?t)) ?k else legacy_principal cfg role peer)"
        using assms a False v None by (auto simp: token_resolver_def Let_def)
      show ?thesis
      proof (cases b)
        case True
        then have "?c \<noteq> []" "?t = ?c" using b(1) by (auto simp: compare_digest_def split: if_splits)
        then have "ac_token cfg = Some ?t" by (auto split: option.splits)
        then show ?thesis using True b(2) False n None by (simp add: trusted_token_def token_grants_def legacy_principal_def node_default_scopes_def operator_scopes(8) [THEN not_sym])
      qed (simp add: b(2) guest_principal_powerless)
    qed
  qed
qed

lemma authority_cases:
  assumes "fst (resolve_auth env cfg auth_params role peer store) = Inr (Some p)"
  shows "(ac_mode cfg = ''token'' \<and> trusted_token env cfg (provided_token auth_params) role store \<and> pr_authenticated p
          \<and> (\<not> pr_owner p \<or> local_peer cfg peer) \<and>
           (admin_scope \<in> pr_scopes p \<longrightarrow> admin_scope \<in> token_grants env cfg (provided_token auth_params) store))
       \<or> (ac_mode cfg = ''none'' \<and> local_peer cfg peer \<and> pr_owner p)
       \<or> powerless p"
proof (cases "ac_mode cfg = ''token''")
  case True
  then have "fst (token_resolver env cfg auth_params role peer store) = Inr p"
    using assms by (cases "token_resolver env cfg auth_params role peer store"; cases "fst (token_resolver env cfg auth_params role peer store)")
      (auto simp: resolve_auth_def split: sum.splits auth_error.splits)
  then show ?thesis using token_resolver_cases True by blast
next
  case False
  then have o': "ac_mode cfg = ''none''" "open_resolver env cfg auth_params role peer = Inr p"
    using assms by (cases "open_resolver env cfg auth_params role peer";
        auto simp: resolve_auth_def split: sum.splits auth_error.splits if_splits)+
  show ?thesis
  proof (cases "role = ''node''")
    case True
    then have "p = make_principal ''node'' node_default_scopes False False {} (Some Guest_State) None None None"
      using o'(2) by (auto simp: open_resolver_def)
    then have "powerless p" by (simp add: powerless_def is_guest_def make_principal_def)
    then show ?thesis by simp
  next
    case node: False
    show ?thesis
    proof (cases "local_peer cfg peer")
      case True
      then have "pr_owner p" using o'(2) node by (auto simp: open_resolver_def)
      then show ?thesis using True o'(1) by simp
    next
      case False
      then have "p = make_principal role remote_operator_scopes False False guest_safe_capabilities (Some Guest_State) None
          (Some (ae_hex_digest env (resolve_guest_session_key (ae_fresh env) auth_params)))
          (Some (resolve_guest_session_key (ae_fresh env) auth_params))"
        using o'(2) node by (auto simp: open_resolver_def Let_def)
      then have "powerless p" using node by (simp add: powerless_def is_guest_def make_principal_def guest_safe_capabilities_def)
      then show ?thesis by simp
    qed
  qed
qed

text \<open>C30: Whoever connects becomes one of three principals: authenticated, in token mode only, by a
  token that is either a named one of the store, not revoked, with the right secret and issued
  for the claimed role, or the configured token; the local owner, in open mode only, on a
  loopback bind with a loopback peer; or a guest with the guest capabilities alone and without
  the admin scope. An authenticated principal is an owner only from the loopback on a loopback
  bind, and has the admin scope only if its token was given it (the row of a named token, the
  configured scopes of the other).\<close>

theorem authority_is_earned:
  assumes "fst (resolve_auth env cfg auth_params role peer store) = Inr (Some p)"
  shows "(ac_mode cfg = ''token'' \<and> trusted_token env cfg (provided_token auth_params) role store \<and> pr_authenticated p
          \<and> (\<not> pr_owner p \<or> local_peer cfg peer) \<and>
           (admin_scope \<in> pr_scopes p \<longrightarrow> admin_scope \<in> token_grants env cfg (provided_token auth_params) store))
       \<or> (ac_mode cfg = ''none'' \<and> local_peer cfg peer \<and> pr_owner p)
       \<or> (is_guest p \<and> pr_capabilities p = guest_safe_capabilities \<and> admin_scope \<notin> pr_scopes p)"
proof -
  have "admin_scope \<notin> pr_scopes p" if "powerless p"
    using that by (auto simp: powerless_def remote_operator_scopes_def node_default_scopes_def scope_defs split: if_splits)
  then show ?thesis using authority_cases [OF assms] by (auto simp: powerless_def)
qed

section \<open>Guests\<close>

lemma parse_agent_id_shape: "id_shape (parse_agent_id k)"
proof -
  have "id_shape ''main''" using normalize_agent_id_shape [of "Some ''main''"] by simp
  then show ?thesis by (simp add: parse_agent_id_def Let_def normalize_agent_id_shape split: list.split)
qed

lemma guest_key_owned:
  assumes "is_hex64 owner" and "fresh \<noteq> []" and "list_all slug_char fresh"
  shows "guest_owns_session_key (Some owner) (PyStr (guest_owned_session_key fresh owner key None))"
proof -
  let ?r = "canonicalize_session_key (Some (py_str (py_or key (PyStr []))))"
  show ?thesis
  proof (cases "guest_owns_session_key (Some owner) (PyStr ?r)")
    case True
    then show ?thesis by (simp add: guest_owned_session_key_def Let_def)
  next
    case False
    have a: "id_shape (parse_agent_id ?r)" by (rule parse_agent_id_shape)
    then have "parse_agent_id ?r \<noteq> []" by (simp add: id_shape_def)
    then have "guest_owned_session_key fresh owner key None =
        ''agent:'' @ parse_agent_id ?r @ '':webchat:guest:'' @ owner @ '':'' @ guest_slug fresh ?r"
      using False by (simp add: guest_owned_session_key_def Let_def)
    then show ?thesis
      using built_key_owned [OF a assms(1), of "guest_slug fresh ?r"] guest_slug_shape [OF assms(2,3), of ?r] assms(1)
      by (simp add: guest_owns_session_key_def)
  qed
qed

theorem guest_keys_are_private:
  assumes "is_hex64 owner" and "fresh \<noteq> []" and "list_all slug_char fresh"
  shows "guest_owns_session_key stranger (PyStr (guest_owned_session_key fresh owner key None)) \<longleftrightarrow> stranger = Some owner"
proof -
  obtain slug where "guest_namespace_parts (PyStr (guest_owned_session_key fresh owner key None)) = Some (owner, slug)"
    using guest_key_owned [OF assms, of key] by (auto simp: guest_owns_session_key_def split: option.splits)
  then show ?thesis using assms(1) by (auto simp: guest_owns_session_key_def split: option.splits)
qed






lemma dispatch_Handled:
  assumes "dispatch entries fresh m params p = Handled v"
  obtains required where "entries m = Some required" and "guest_authorize fresh m params p = Inr v"
    and "fst (authorize_call m required (pr_role p) (pr_scopes p))"
proof -
  obtain required where r: "entries m = Some required" using assms by (auto simp: dispatch_def split: option.splits)
  obtain v' where g: "guest_authorize fresh m params p = Inr v'"
    using assms r by (auto simp: dispatch_def split: sum.splits guest_error.splits)
  obtain b missing where a: "authorize_call m required (pr_role p) (pr_scopes p) = (b, missing)"
    by (cases "authorize_call m required (pr_role p) (pr_scopes p)")
  have "b \<and> v' = v" using assms by (simp add: dispatch_def r g a split: bool.splits)
  then show ?thesis using that r g a by simp
qed


section \<open>Three ways it goes wrong\<close>

theorem empty_capabilities_become_owner:
  assumes "ac_mode cfg = ''token''" and "admit_peer env cfg ''operator'' peer = Inr ()" and "provided_token auth_params \<noteq> []"
    and "verify_named_token env (provided_token auth_params) peer store = (Some r, store')"
    and "''operator'' \<in> decode_set (tr_roles r)" and "decode_set (tr_capabilities r) = {}"
  shows "\<exists>p. resolve_auth env cfg auth_params ''operator'' peer store = (Inr (Some p), store')
       \<and> pr_capabilities p = local_owner_capabilities \<and> \<not> pr_owner p"
  using assms by (simp add: resolve_auth_def token_resolver_def Let_def token_principal_def make_principal_def)

theorem open_node_reaches_no_handler:
  assumes "ac_mode cfg = ''none''" and "fst (resolve_auth env cfg auth_params ''node'' peer store) = Inr (Some p)"
  shows "pr_scopes p = node_default_scopes \<and> dispatch entries fresh m params p \<noteq> Handled v"
proof -
  have "open_resolver env cfg auth_params ''node'' peer = Inr p"
    using assms by (cases "open_resolver env cfg auth_params ''node'' peer")
      (auto simp: resolve_auth_def split: auth_error.splits)
  then have p: "p = make_principal ''node'' node_default_scopes False False {} (Some Guest_State) None None None"
    by (auto simp: open_resolver_def)
  have "\<not> (\<exists>v. guest_authorize fresh m params p = Inr v)"
    by (simp add: p guest_authorize_def is_guest_def make_principal_def)
  then have "dispatch entries fresh m params p \<noteq> Handled v" using dispatch_Handled by metis
  then show ?thesis by (simp add: p)
qed

theorem non_ascii_token_escapes:
  assumes "ac_mode cfg = ''token''" and "admit_peer env cfg role peer = Inr ()"
    and "\<not> starts_with ''osq_'' (provided_token auth_params)" and "\<not> is_ascii (provided_token auth_params)"
    and "ac_token cfg = Some configured" and "configured \<noteq> []"
  shows "resolve_auth env cfg auth_params role peer store = (Inl Auth_Type_Error, store)"
proof -
  have "provided_token auth_params \<noteq> []" using assms(4) by (auto simp: is_ascii_def)
  then show ?thesis using assms
    by (simp add: resolve_auth_def token_resolver_def Let_def verify_named_token_def compare_digest_def)
qed

end
