(* ===== verification/Auth_Witnesses.thy ===== *)
theory Auth_Witnesses
  imports Auth_Safety
begin

text \<open>A gateway in token mode with one named token, and the connections that the theorems are about.\<close>

definition lan :: "string ip_library" where
  "lan = \<lparr>ip_address = (\<lambda>s. if s \<in> {''127.0.0.1'', ''10.0.0.7''} then Some s else None), ip_loopback = (\<lambda>a. a = ''127.0.0.1''),
          ip_network_ok = (\<lambda>n. True), ip_in_network = (\<lambda>a n. a = ''10.0.0.7'' \<and> n = ''10.0.0.0/8'')\<rparr>"

definition guest_hash :: string where "guest_hash = replicate 64 (CHR ''a'')"

definition drawn_key :: string where "drawn_key = replicate 43 (CHR ''k'')"

definition gateway_env :: "(string, string) auth_env" where
  "gateway_env = \<lparr>ae_ip = lan, ae_digest = (\<lambda>s. s), ae_hex_digest = (\<lambda>s. guest_hash), ae_now = 50, ae_fresh = drawn_key\<rparr>"

definition token_config :: auth_config where
  "token_config = \<lparr>ac_mode = ''token'', ac_token = Some ''letmein'', ac_token_scopes = [''operator.admin''],
     ac_allowed_roles = [''operator'', ''node''], ac_cidrs = [], ac_host = Some ''0.0.0.0''\<rparr>"

definition open_config :: auth_config where
  "open_config = token_config\<lparr>ac_mode := ''none''\<rparr>"

definition secret_text :: string where "secret_text = ''0123456789abcdef''"

definition laptop_row :: "string token_row" where
  "laptop_row = \<lparr>tr_public_id = ''abcd12'', tr_version = 1, tr_name = ''laptop'', tr_digest = secret_text,
     tr_roles = Some {''operator''}, tr_scopes = Some {''operator.write''}, tr_capabilities = Some {}, tr_source = ''named'',
     tr_created = 10, tr_last_used = None, tr_last_peer = None, tr_revoked = None\<rparr>"

definition issued :: "(string \<times> string token_row) \<times> string token_table" where
  "issued = ((token_text ''abcd12'' secret_text, laptop_row), [laptop_row])"

lemma issued_is:
  "create (\<lambda>s. s) 10 ''abcd12'' secret_text ''laptop'' {''operator''} {''operator.write''} {} ''named'' [] =
     Inr ((token_text ''abcd12'' secret_text, snd (fst issued)), snd issued)"
  by (simp add: create_def issued_def laptop_row_def Let_def py_strip_def py_lstrip_def py_rstrip_def py_isspace_def code_def)

lemma drawn_ok: "drawn ''abcd12'' secret_text"
  by code_simp

lemma issued_token_verifies_witness:
  "\<exists>r'. fst (verify (\<lambda>s. s) 90 (Some ''10.0.0.7'') (token_text ''abcd12'' secret_text)
      (token_run (\<lambda>s. s) [Verify 20 None (token_text ''abcd12'' secret_text), Revoke 30 ''other''] (snd issued))) = Some r'
    \<and> same_token (snd (fst issued)) r'"
  by (rule issued_token_verifies [OF issued_is drawn_ok]) simp

lemma revoked_token_refused_witness:
  "fst (verify (\<lambda>s. s) 90 None (token_text ''abcd12'' secret_text)
      (token_run (\<lambda>s. s) [Create 40 ''abcd12'' secret_text ''again'' {''operator''} {} {} ''named'']
        (snd (revoke 30 ''abcd12'' (token_run (\<lambda>s. s) [Create 10 ''abcd12'' secret_text ''laptop'' {''operator''} {} {} ''named''] []))))) = None"
proof -
  have "fst (revoke 30 ''abcd12'' (token_run (\<lambda>s. s) [Create 10 ''abcd12'' secret_text ''laptop'' {''operator''} {} {} ''named''] []))"
    by code_simp
  from revoked_token_refused [OF refl this token_match_text [OF drawn_ok]] show ?thesis .
qed

definition attempts :: "failure list" where
  "attempts = map (\<lambda>t. (t, Some ''10.0.0.7'', Some ''abcd12'')) [1, 2, 3, 4, 5, 58, 59]"

lemma throttle_counts_window_witness:
  "fst (record_failure 63 (Some ''10.0.0.7'') (Some ''xyz1'') (after_failures attempts (new_limiter 60 5))) = 0
   \<and> fst (record_failure 60 (Some ''10.0.0.7'') (Some ''xyz1'') (after_failures attempts (new_limiter 60 5))) = 4"
proof -
  have s: "sorted (map fst attempts)" "\<forall>e \<in> set attempts. fst e \<le> 63" "\<forall>e \<in> set attempts. fst e \<le> 60"
    by (simp_all add: attempts_def)
  note a = throttle_counts_window [of 60 attempts 63 "Some ''10.0.0.7''" "Some ''xyz1''" 5, OF _ s(1,2)]
  note b = throttle_counts_window [of 60 attempts 60 "Some ''10.0.0.7''" "Some ''xyz1''" 5, OF _ s(1,3)]
  have "delay_for (1 + int (Max (set (map (\<lambda>k. recent (63 - 60) k attempts) (failure_keys (Some ''10.0.0.7'') (Some ''xyz1''))))) - 5) = 0"
    "delay_for (1 + int (Max (set (map (\<lambda>k. recent (60 - 60) k attempts) (failure_keys (Some ''10.0.0.7'') (Some ''xyz1''))))) - 5) = 4"
    by code_simp+
  then show ?thesis using a b by simp
qed

definition forged :: pydict where
  "forged = [(''token'', PyStr (token_text ''abcd12'' ''fedcba9876543210''))]"

definition forger :: principal where
  "forger = guest_principal (\<lambda>s. guest_hash) Invalid_State (Some ''abcd12'') (''osqg_'' @ drawn_key)"

lemma forged_resolves: "fst (resolve_auth gateway_env token_config forged ''operator'' (Some ''10.0.0.7'') (Some (snd issued))) = Inr (Some forger)"
  by code_simp

lemma forged_untrusted: "\<not> trusted_token gateway_env token_config (provided_token forged) ''operator'' (Some (snd issued))"
  by code_simp

lemma authority_is_earned_witness: "is_guest forger \<and> pr_capabilities forger = guest_safe_capabilities \<and> admin_scope \<notin> pr_scopes forger"
proof -
  have "ac_mode token_config \<noteq> ''none''" by (simp add: token_config_def)
  then show ?thesis using authority_is_earned [OF forged_resolves] forged_untrusted by blast
qed




lemma guest_keys_are_private_witness:
  "guest_owns_session_key (Some guest_hash) (PyStr (guest_owned_session_key drawn_key guest_hash (PyStr ''agent:Work:webchat:My talk!'') None))
   \<and> \<not> guest_owns_session_key (Some (replicate 64 (CHR ''b''))) (PyStr (guest_owned_session_key drawn_key guest_hash (PyStr ''agent:Work:webchat:My talk!'') None))"
proof -
  have f: "is_hex64 guest_hash" "drawn_key \<noteq> []" "list_all slug_char drawn_key" by code_simp+
  have "Some (replicate 64 (CHR ''b'')) \<noteq> Some guest_hash" by (simp add: guest_hash_def)
  then show ?thesis unfolding guest_keys_are_private [OF f] by simp
qed

lemma empty_capabilities_become_owner_witness:
  "\<exists>p. fst (resolve_auth gateway_env token_config [(''token'', PyStr (token_text ''abcd12'' secret_text))] ''operator'' (Some ''10.0.0.7'')
        (Some (snd issued))) = Inr (Some p) \<and> pr_capabilities p = local_owner_capabilities"
proof -
  let ?a = "[(''token'', PyStr (token_text ''abcd12'' secret_text))]"
  have m: "ac_mode token_config = ''token''" by (simp add: token_config_def)
  have p: "admit_peer gateway_env token_config ''operator'' (Some ''10.0.0.7'') = Inr ()" by code_simp
  have t: "provided_token ?a \<noteq> []" by (simp add: provided_token_def py_or_def token_text_def)
  obtain r s where v: "verify_named_token gateway_env (provided_token ?a) (Some ''10.0.0.7'') (Some (snd issued)) = (Some r, s)"
    and c: "''operator'' \<in> decode_set (tr_roles r)" "decode_set (tr_capabilities r) = {}"
  proof -
    have "fst (verify_named_token gateway_env (provided_token ?a) (Some ''10.0.0.7'') (Some (snd issued))) = Some (snd (fst issued))"
      by code_simp
    moreover have "''operator'' \<in> decode_set (tr_roles (snd (fst issued)))" "decode_set (tr_capabilities (snd (fst issued))) = {}" by code_simp+
    ultimately show ?thesis using that by (metis prod.collapse)
  qed
  show ?thesis using empty_capabilities_become_owner [OF m p t v c] by auto
qed

lemma open_node_reaches_no_handler_witness:
  "\<exists>p. fst (resolve_auth gateway_env open_config [] ''node'' (Some ''127.0.0.1'') None) = Inr (Some p)
     \<and> node_scope \<in> pr_scopes p \<and> dispatch (\<lambda>m. Some node_scope) drawn_key ''skills.bins'' PyNone p \<noteq> Handled PyNone"
proof -
  have m: "ac_mode open_config = ''none''" by (simp add: open_config_def)
  have r: "fst (resolve_auth gateway_env open_config [] ''node'' (Some ''127.0.0.1'') None) =
      Inr (Some (make_principal ''node'' node_default_scopes False False {} (Some Guest_State) None None None))" by code_simp
  show ?thesis using open_node_reaches_no_handler [OF m r, of "\<lambda>m. Some node_scope" drawn_key "''skills.bins''" PyNone PyNone] r
    by (auto simp: node_default_scopes_def)
qed

lemma non_ascii_token_escapes_witness:
  "resolve_auth gateway_env token_config [(''token'', PyStr [char_of (233 :: nat)])] ''operator'' (Some ''10.0.0.7'') (Some (snd issued))
     = (Inl Auth_Type_Error, Some (snd issued))"
proof -
  let ?a = "[(''token'', PyStr [char_of (233 :: nat)])]"
  have t: "provided_token ?a = [char_of (233 :: nat)]" by (simp add: provided_token_def py_or_def)
  have s: "\<not> starts_with ''osq_'' (provided_token ?a)" unfolding t by (simp add: starts_with_def)
  have n: "\<not> is_ascii (provided_token ?a)" unfolding t by (simp add: is_ascii_def)
  have p: "admit_peer gateway_env token_config ''operator'' (Some ''10.0.0.7'') = Inr ()" by code_simp
  show ?thesis by (rule non_ascii_token_escapes [OF _ p s n, of "''letmein''"]) (simp_all add: token_config_def)
qed

end
