(* ===== verification/Spec2Isabelle.thy ===== *)
theory Spec2Isabelle
  imports Sched_Race Run_Mode Goal_Witnesses Plan_Witnesses Provider_Witnesses Task_Histories Approval_Witnesses Auth_Witnesses
begin

text \<open>
  Verification library of openstarry-code, an agent gateway in Python
  (\<open>src/src/openstarry_code\<close>). It models the deterministic core of the program: the job scheduler,
  the identifiers of sessions and agents, the run modes, the goals and plans of a session with
  the database transactions that change them, the runtime that admits and runs the tasks of
  sessions, the queue of approvals by a person, the authentication of callers and what guests may
  do, and the policies around model providers: classification of failures, health of deployments,
  credentials, failover.

  The parts and how they interact.
  A \<^emph>\<open>job\<close> is scheduled by a cron expression, an interval or an instant
  (\<open>scheduler/\<close>). The timer asks the store for due jobs, reserves each under a token, runs a
  handler, and writes the outcome back if the token still holds; operations of users change
  jobs in between. A \<^emph>\<open>session\<close> is a row of a SQLite database (\<open>session/storage.py\<close>); it may have
  one \<^emph>\<open>goal\<close> (\<open>session/goals.py\<close>), which a task owns for a turn and which continues itself
  between turns, and one current \<^emph>\<open>plan revision\<close> (\<open>session/plans.py\<close>), whose run walks through its
  steps. Commands on goals carry a fence (the state they expect) and a request id (so that a
  repetition replays the answer). A restart begins with one transaction over tasks, goals and plan
  runs, which is part of the histories of goals and of plans. A connection to the gateway becomes a
  \<^emph>\<open>principal\<close> (\<open>gateway/auth.py\<close>) by a token, by being local, or as a guest; each call is checked
  against the guest policy and the scopes. The gateway admits each request as a \<^emph>\<open>task\<close>
  (\<open>gateway/task_runtime.py\<close>): its driver waits for the lock of its session and for a global slot,
  runs one turn, and is settled once; requests may cancel, replace or add to waiting tasks. A tool that needs
  the consent of a person files an \<^emph>\<open>approval\<close> (\<open>application/approval_queue.py\<close>) and waits for the
  answer; the gateway resolves it directly or under a claim, and a grant is used once. A turn calls a model \<^emph>\<open>provider\<close> that the selector resolves from
  a chain of configurations; what an error means is decided by tables, it is reported to the
  ledger of deployments and to the pool of credentials, and the selector fails over.

  The theories, in the order of their imports.
  \<^item> \<open>Py_Prelude\<close>: results with errors, Latin-1 strings and their methods, integers and their text,
    Python values and dictionaries, and the interfaces (locales) shared by the components:
    \<open>normaliser\<close>, \<open>row_table\<close> (a first-match table), \<open>str_enum\<close>, \<open>lease\<close>. Every interface is
    interpreted on the definitions of the component that provides it.
  \<^item> \<open>Sched_Types\<close> (\<open>scheduler/types.py\<close>), \<open>Sched_Cron\<close> (\<open>parser.py\<close>), \<open>Sched_Normalize\<close>
    (\<open>schedule_normalizer.py\<close>), \<open>Sched_Payloads\<close> (\<open>payloads.py\<close>), \<open>Sched_Jobs\<close> (\<open>jobs.py\<close>: error
    classification, backoff, next run, outcome of a run), \<open>Sched_Store\<close> (\<open>persistence.py\<close>: rows,
    reservations, due query, deduplication, migration, pruning), \<open>Sched_Ops\<close> (\<open>ops.py\<close>), \<open>Sched_Timer\<close>
    (\<open>timer.py\<close>, \<open>engine.py\<close>, \<open>stagger.py\<close>, \<open>reaper.py\<close>), \<open>Sched_Race\<close> (interleaving of operations as
    step relations).
  \<^item> \<open>Session_Keys\<close> (\<open>session/keys.py\<close>, \<open>agent_ids.py\<close>) and \<open>Run_Mode\<close> (\<open>run_mode.py\<close>,
    \<open>sandbox/legacy_codec.py\<close>).
  \<^item> \<open>Tables\<close>: SQL statements on lists of rows, the interface \<open>keyed_rows\<close>, JSON text.
    \<open>Goal_Types\<close> (\<open>session/goals.py\<close>), \<open>Session_Db\<close> (\<open>session/models.py\<close>: the rows and the database
    record), \<open>Goal_Store\<close> (the goal transactions of \<open>session/storage.py\<close>, and of
    \<open>gateway/goal_service.py\<close> the setting of a goal).
  \<^item> \<open>Session_Recovery\<close>: \<open>mark_abandoned_agent_tasks\<close> of \<open>session/storage.py\<close>, the transaction of a
    restart, with the sweep over goals of \<open>Goal_Store\<close> and the one over plan runs.
  \<^item> \<open>Goal_Machine\<close>: the step relation \<open>goal_move\<close> of one goal and the proof that every
    transaction, the restart included, is for each session at most one step of it. \<open>Goal_Safety\<close>, \<open>Goal_Commands\<close> and
    \<open>Goal_Ownership\<close> rest on that relation alone; \<open>Goal_Witnesses\<close> is a worked example.
  \<^item> \<open>Plan_Types\<close> (\<open>session/plans.py\<close>), \<open>Plan_Store\<close> (the plan transactions of
    \<open>session/storage.py\<close>), \<open>Plan_Machine\<close>, \<open>Plan_Runs\<close>, \<open>Plan_Progress\<close>: the invariant of runs, its
    preservation by the transactions and the restart, progress; \<open>Plan_Witnesses\<close> is a worked example.
  \<^item> \<open>Provider_Registry\<close> (\<open>provider/registry.py\<close>), \<open>Provider_Failures\<close> (\<open>provider/failures.py\<close>,
    \<open>engine/fallback.py\<close>), \<open>Provider_Health\<close> (\<open>engine/routing/health.py\<close>), \<open>Provider_Pool\<close>
    (\<open>provider/credentials.py\<close>), \<open>Provider_Selector\<close> (\<open>provider/selector.py\<close>, without the adapter
    factories and the listing of models), \<open>Provider_Recovery\<close> (from an answer to a bench or to
    compaction), \<open>Provider_Witnesses\<close> (a worked example).
  \<^item> \<open>Task_Runtime\<close> (\<open>gateway/task_runtime.py\<close>): the state of the runtime, its operations between
    two suspensions and the step relation \<open>runtime_step\<close>, in which the drivers of all tasks
    interleave. \<open>Task_Steps\<close> and \<open>Task_Safety\<close> (books, lock, each task), \<open>Task_Slots\<close>,
    \<open>Task_Queue\<close> (rotation, waiters, outcomes): one invariant each, kept by every step.
    \<open>Task_Lifecycle\<close> and \<open>Task_Outcomes\<close>: what holds in every reachable state;
    \<open>Task_Histories\<close>: a worked example and two histories that end badly.
  \<^item> \<open>Approval_Queue\<close> (\<open>application/approval_queue.py\<close>): the rows and every operation of
    \<open>ApprovalQueue\<close>. \<open>Approval_Machine\<close>: the operations as values, the step relation \<open>row_move\<close> of one
    row and the proof that every operation moves every row along it. \<open>Approval_Life\<close>: the abstract
    machine \<open>life\<close> of an approval and its refinement. \<open>Approval_Safety\<close>: what holds over every
    history; \<open>Approval_Witnesses\<close>: worked histories.
  \<^item> \<open>Auth_Scopes\<close> (\<open>gateway/scopes.py\<close>), \<open>Token_Store\<close> (\<open>gateway/token_store.py\<close>), \<open>Auth_Resolve\<close>
    (\<open>gateway/auth.py\<close>), \<open>Guest_Policy\<close> (\<open>gateway/guest_rpc_policy.py\<close>, and of
    \<open>gateway/rpc/registry.py\<close> the dispatch up to the handler). \<open>Auth_Safety\<close>: where authority comes
    from, the confinement of guests, tokens, the throttle; \<open>Auth_Witnesses\<close>: worked connections.

  Conventions. A raise is \<open>Inl\<close> of an error datatype. A dict is an association list or a map, a
  table a list of rows in insertion order, a transaction a function from the database to an
  error (nothing changed: the rollback) or to the new database with its result. The clock,
  fresh ids, drawn jitter, hash functions, the time zone database and \<open>datetime.fromisoformat\<close>
  are arguments. Instants are integers (micro- or milliseconds, as in the code). Strings are
  Latin-1.

  Bounds and recursion. All definitions are total. The cron scan is bounded by the code itself
  (2102400 minutes). No fuel is used where the code has a loop: loops are recursion over
  lists, or over the bound the code has.

  What the groups of lemmas show.
  Scheduler: mutual exclusion of runs, the life cycle of a job, next runs as first matches,
  reservations and recovery, and where a stale row loses a reservation. Goals: settlement
  counts, the refinement to an abstract ownership machine, the bound and end of automatic
  continuation, exactly-once commands, fencing, restart. Plans: the invariant of runs,
  checkpoints that advance, completion, the bound on closed steps. Providers: routing always has
  a deployment, deployments do not influence each other, benches and parking hold as long as
  they should, failover tries each configuration once (while replay is not disabled). Task runtime:
  counted slots within their limits, one turn per session, no idle slot while a driver waits, a
  rotation that moves every waiter forward, final outcomes, slots and locks released at rest (the
  rotation can keep a session with tasks of two agents); and a task that a steer loses. Approvals:
  one use per grant, answers that stay, claims that shut others out, denial at the deadline and at a
  restart, the claimed path as good as a direct resolution where claims have a positive time to
  live; and a grant that a lost holder blocks. Restart: nothing is left running or owned. Turns of a
  goal: never more settled and running than started, and exactly as many unless a restart dropped the
  turn of an owner whose task does not attribute it. Authentication: authority only by a trusted
  token or locally, and everybody else confined to sessions of their own.

  Not modelled. The gateway's transport and RPC handlers, channels, the terminal front end, the
  memory store, skills and the adapters of providers are input and output around these
  policies; the agent loop calls models and tools; sandbox back ends act through the operating
  system; transcripts, summaries and token counters of the session store, the leases of
  \<open>GoalService\<close>, and of the task runtime steers, ingress intents, hooks and shutdown, are left out; so are the cached
  entries and wake-up events of the approval queue. A component is listed with its status in the manifest.
\<close>

end
